(* ===== verification/Prelude.thy ===== *)
theory Prelude
  imports Complex_Main "HOL-Library.Sublist"
begin

text \<open>
  Shared vocabulary of the development.

  \<^item> The Python exceptions the code raises, as the values of \<open>py_error\<close>, with the
    \<open>code\<close> and \<open>retryable\<close> attributes of \<^verbatim>\<open>DomainError\<close>
    (\<^verbatim>\<open>packages/domain/recoverai_domain/errors.py\<close>). The prose of an exception is not
    modelled; its class, code and retryability are what callers branch on.
  \<^item> A state-and-exception monad for the stateful code: a program is a function from the
    database session to a result (\<open>Inl\<close> an exception, \<open>Inr\<close> a value) \<^emph>\<open>and\<close> the session
    as it is at that point, because a Python exception does not undo the writes made before it.
  \<^item> Two contracts on programs, \<open>obeys\<close> (a relation between the session before and after)
    and \<open>keeps\<close> (an invariant, with a postcondition on the result), with their
    composition rules proved once, in locales.
  \<^item> The part of Python's \<^verbatim>\<open>str\<close> the code uses (substring test, join, lower, strip), and
    tables as lists of rows with a primary key.
\<close>

named_theorems prog_simps "evaluation rules of the program combinators"
named_theorems str_simps "evaluation rules of the string library"
named_theorems table_simps "lookup and update laws of keyed tables"

subsection \<open>Exceptions\<close>

type_synonym uuid = nat
type_synonym timestamp = int

text \<open>
  \<open>IntegrityError\<close> is a refused statement; \<open>SavepointIntegrityError\<close> is the same exception when the
  event handlers raise it again after the savepoint around the statement was rolled back, so that
  the session is still usable; \<open>PendingRollbackError\<close> is what a session answers that is not.
\<close>

datatype py_error =
    DomainError string bool
  | IngestionError string int
  | InvalidTransitionError
  | ConcurrentCaseUpdateError uuid
  | IdempotencyConflictError string
  | ToolValidationError string
  | OptimizerError string
  | AgentError string
  | LlmError string
  | ProviderError string
  | InferenceError string
  | ModelQualityError string
  | ValueError
  | InvalidOperation
  | TypeError
  | KeyError
  | IndexError
  | IntegrityError
  | SavepointIntegrityError
  | PendingRollbackError
  | ObjectDeletedError
  | OSError

fun is_domain_error :: "py_error \<Rightarrow> bool" where
  "is_domain_error (DomainError _ _) = True"
| "is_domain_error (IngestionError _ _) = True"
| "is_domain_error InvalidTransitionError = True"
| "is_domain_error (ConcurrentCaseUpdateError _) = True"
| "is_domain_error (IdempotencyConflictError _) = True"
| "is_domain_error (ToolValidationError _) = True"
| "is_domain_error (OptimizerError _) = True"
| "is_domain_error (AgentError _) = True"
| "is_domain_error (LlmError _) = True"
| "is_domain_error _ = False"

fun error_code :: "py_error \<Rightarrow> string" where
  "error_code (DomainError c _) = c"
| "error_code (IngestionError c _) = c"
| "error_code InvalidTransitionError = ''INVALID_STATE_TRANSITION''"
| "error_code (ConcurrentCaseUpdateError _) = ''CONCURRENT_CASE_UPDATE''"
| "error_code (IdempotencyConflictError _) = ''IDEMPOTENCY_KEY_CONFLICT''"
| "error_code (ToolValidationError c) = c"
| "error_code (OptimizerError c) = c"
| "error_code (AgentError c) = c"
| "error_code (LlmError c) = c"
| "error_code (ProviderError c) = c"
| "error_code (InferenceError c) = c"
| "error_code (ModelQualityError c) = c"
| "error_code ValueError = ''ValueError''"
| "error_code InvalidOperation = ''InvalidOperation''"
| "error_code TypeError = ''TypeError''"
| "error_code KeyError = ''KeyError''"
| "error_code IndexError = ''IndexError''"
| "error_code IntegrityError = ''IntegrityError''"
| "error_code SavepointIntegrityError = ''IntegrityError''"
| "error_code PendingRollbackError = ''PendingRollbackError''"
| "error_code ObjectDeletedError = ''ObjectDeletedError''"
| "error_code OSError = ''OSError''"

fun is_retryable :: "py_error \<Rightarrow> bool" where
  "is_retryable (DomainError _ r) = r"
| "is_retryable (ConcurrentCaseUpdateError _) = True"
| "is_retryable (LlmError c) \<longleftrightarrow> c = ''LLM_TIMEOUT'' \<or> c = ''LLM_UNAVAILABLE''"
| "is_retryable _ = False"

subsection \<open>Pure code that may raise\<close>

type_synonym 'a res = "py_error + 'a"

definition bindE :: "'a res \<Rightarrow> ('a \<Rightarrow> 'b res) \<Rightarrow> 'b res" where
  "bindE r f = (case r of Inl e \<Rightarrow> Inl e | Inr x \<Rightarrow> f x)"

lemma bindE_simps [simp]: "bindE (Inl e) f = Inl e" "bindE (Inr x) f = f x"
  by (simp_all add: bindE_def)

lemma bindE_Inr_iff: "bindE r f = Inr y \<longleftrightarrow> (\<exists>x. r = Inr x \<and> f x = Inr y)"
  by (cases r) simp_all

text \<open>\<open>map_res f xs\<close> is a list comprehension whose element expression may raise.\<close>

fun map_res :: "('a \<Rightarrow> 'b res) \<Rightarrow> 'a list \<Rightarrow> 'b list res" where
  "map_res f [] = Inr []"
| "map_res f (x # xs) = bindE (f x) (\<lambda>y. bindE (map_res f xs) (\<lambda>ys. Inr (y # ys)))"

lemma map_res_Inr_iff:
  "map_res f xs = Inr ys \<longleftrightarrow> list_all2 (\<lambda>x y. f x = Inr y) xs ys"
  by (induction xs arbitrary: ys) (auto simp: bindE_Inr_iff list_all2_Cons1)

lemma map_res_total:
  "(\<And>x. x \<in> set xs \<Longrightarrow> \<exists>y. f x = Inr y \<and> P x y) \<Longrightarrow> \<exists>ys. map_res f xs = Inr ys \<and> list_all2 P xs ys"
  by (induction xs) fastforce+

subsection \<open>Programs over a session\<close>

type_synonym ('s, 'a) prog = "'s \<Rightarrow> 'a res \<times> 's"

definition ret :: "'a \<Rightarrow> ('s, 'a) prog" where
  "ret x = (\<lambda>s. (Inr x, s))"

definition raise :: "py_error \<Rightarrow> ('s, 'a) prog" where
  "raise e = (\<lambda>s. (Inl e, s))"

definition bind :: "('s, 'a) prog \<Rightarrow> ('a \<Rightarrow> ('s, 'b) prog) \<Rightarrow> ('s, 'b) prog" where
  "bind m f = (\<lambda>s. case m s of (Inl e, s') \<Rightarrow> (Inl e, s') | (Inr x, s') \<Rightarrow> f x s')"

definition seqp :: "('s, 'a) prog \<Rightarrow> ('s, 'b) prog \<Rightarrow> ('s, 'b) prog" where
  "seqp m n = bind m (\<lambda>_. n)"

definition gets :: "('s \<Rightarrow> 'a) \<Rightarrow> ('s, 'a) prog" where
  "gets f = (\<lambda>s. (Inr (f s), s))"

definition modify :: "('s \<Rightarrow> 's) \<Rightarrow> ('s, unit) prog" where
  "modify f = (\<lambda>s. (Inr (), f s))"

definition lift :: "'a res \<Rightarrow> ('s, 'a) prog" where
  "lift r = (\<lambda>s. (r, s))"

definition catch :: "('s, 'a) prog \<Rightarrow> (py_error \<Rightarrow> ('s, 'a) prog) \<Rightarrow> ('s, 'a) prog" where
  "catch m h = (\<lambda>s. case m s of (Inl e, s') \<Rightarrow> h e s' | (Inr x, s') \<Rightarrow> (Inr x, s'))"

definition unless :: "bool \<Rightarrow> ('s, unit) prog \<Rightarrow> ('s, unit) prog" where
  "unless b m = (if b then ret () else m)"

fun for_each :: "'a list \<Rightarrow> ('a \<Rightarrow> ('s, unit) prog) \<Rightarrow> ('s, unit) prog" where
  "for_each [] f = ret ()"
| "for_each (x # xs) f = seqp (f x) (for_each xs f)"

lemma prog_eval [prog_simps]:
  "ret x s = (Inr x, s)"
  "raise e s = (Inl e, s)"
  "gets f s = (Inr (f s), s)"
  "modify g s = (Inr (), g s)"
  "lift r s = (r, s)"
  by (simp_all add: ret_def raise_def gets_def modify_def lift_def)

lemma bind_eval [prog_simps]:
  "bind m f s = (case m s of (Inl e, s') \<Rightarrow> (Inl e, s') | (Inr x, s') \<Rightarrow> f x s')"
  "seqp m n s = (case m s of (Inl e, s') \<Rightarrow> (Inl e, s') | (Inr x, s') \<Rightarrow> n s')"
  "catch m h s = (case m s of (Inl e, s') \<Rightarrow> h e s' | (Inr x, s') \<Rightarrow> (Inr x, s'))"
  by (simp_all add: bind_def seqp_def catch_def)

lemma unless_eval [prog_simps]: "unless b m s = (if b then (Inr (), s) else m s)"
  by (simp add: unless_def ret_def)

text \<open>Running a program one statement at a time, without unfolding the statement.\<close>

lemma bind_run: "m s = (Inr x, t) \<Longrightarrow> bind m f s = f x t"
  by (simp add: bind_def)

lemma seqp_run: "m s = (Inr x, t) \<Longrightarrow> seqp m n s = n t"
  by (simp add: seqp_def bind_def)

subsection \<open>Contracts on programs\<close>

text \<open>
  \<open>obeys R m\<close>: whatever the outcome, the session after \<open>m\<close> is related to the one before
  it by \<open>R\<close>. The rules need only that \<open>R\<close> is reflexive and transitive.
\<close>

definition obeys :: "('s \<Rightarrow> 's \<Rightarrow> bool) \<Rightarrow> ('s, 'a) prog \<Rightarrow> bool" where
  "obeys R m \<longleftrightarrow> (\<forall>s. R s (snd (m s)))"

lemma obeysD: "obeys R m \<Longrightarrow> m s = (r, s') \<Longrightarrow> R s s'"
  by (auto simp: obeys_def dest: spec [of _ s])

lemma obeys_mono: "obeys R m \<Longrightarrow> (\<And>s t. R s t \<Longrightarrow> R' s t) \<Longrightarrow> obeys R' m"
  by (simp add: obeys_def)

locale step_frame =
  fixes R :: "'s \<Rightarrow> 's \<Rightarrow> bool"
  assumes frame_refl: "R s s"
    and frame_trans: "R s t \<Longrightarrow> R t u \<Longrightarrow> R s u"
begin

lemma obeys_ret: "obeys R (ret x)"
  by (simp add: obeys_def ret_def frame_refl)

lemma obeys_raise: "obeys R (raise e)"
  by (simp add: obeys_def raise_def frame_refl)

lemma obeys_gets: "obeys R (gets f)"
  by (simp add: obeys_def gets_def frame_refl)

lemma obeys_lift: "obeys R (lift r)"
  by (simp add: obeys_def lift_def frame_refl)

lemma obeys_bind: "obeys R m \<Longrightarrow> (\<And>x. obeys R (f x)) \<Longrightarrow> obeys R (bind m f)"
  unfolding obeys_def bind_def
  by (auto split: prod.splits sum.splits) (metis frame_trans snd_conv)+

lemma obeys_seqp: "obeys R m \<Longrightarrow> obeys R n \<Longrightarrow> obeys R (seqp m n)"
  by (simp add: seqp_def obeys_bind)

lemma obeys_catch: "obeys R m \<Longrightarrow> (\<And>e. obeys R (h e)) \<Longrightarrow> obeys R (catch m h)"
  unfolding obeys_def catch_def
  by (auto split: prod.splits sum.splits) (metis frame_trans snd_conv)+

lemma obeys_unless: "obeys R m \<Longrightarrow> obeys R (unless b m)"
  by (simp add: unless_def obeys_ret)

lemma obeys_for_each: "(\<And>x. obeys R (f x)) \<Longrightarrow> obeys R (for_each xs f)"
  by (induction xs) (simp_all add: obeys_ret obeys_seqp)

lemma obeys_if: "(b \<Longrightarrow> obeys R m) \<Longrightarrow> (\<not> b \<Longrightarrow> obeys R n) \<Longrightarrow> obeys R (if b then m else n)"
  by simp

lemma obeys_case_option:
  "obeys R m \<Longrightarrow> (\<And>x. obeys R (f x)) \<Longrightarrow> obeys R (case v of None \<Rightarrow> m | Some x \<Rightarrow> f x)"
  by (cases v) simp_all

lemma obeys_case_list:
  "obeys R m \<Longrightarrow> (\<And>x xs. obeys R (f x xs)) \<Longrightarrow> obeys R (case v of [] \<Rightarrow> m | x # xs \<Rightarrow> f x xs)"
  by (cases v) simp_all

lemma obeys_case_prod: "(\<And>x y. obeys R (f x y)) \<Longrightarrow> obeys R (case v of (x, y) \<Rightarrow> f x y)"
  by (cases v) simp

lemma obeys_let: "(\<And>x. obeys R (f x)) \<Longrightarrow> obeys R (let x = v in f x)"
  by (simp add: Let_def)

lemmas frame_rules =
  obeys_ret obeys_raise obeys_gets obeys_lift obeys_bind obeys_seqp obeys_catch
  obeys_unless obeys_for_each obeys_if obeys_case_option obeys_case_list obeys_case_prod obeys_let

end

text \<open>
  \<open>keeps I m Q\<close>: started in a session satisfying \<open>I\<close>, the program leaves one satisfying
  \<open>I\<close>, whether it returns or raises, and a returned value satisfies \<open>Q\<close>.
\<close>

definition keeps :: "('s \<Rightarrow> bool) \<Rightarrow> ('s, 'a) prog \<Rightarrow> ('a \<Rightarrow> bool) \<Rightarrow> bool" where
  "keeps I m Q \<longleftrightarrow>
     (\<forall>s. I s \<longrightarrow> I (snd (m s)) \<and> (\<forall>x. fst (m s) = Inr x \<longrightarrow> Q x))"

lemma keepsI:
  "(\<And>s r s'. I s \<Longrightarrow> m s = (r, s') \<Longrightarrow> I s' \<and> (\<forall>x. r = Inr x \<longrightarrow> Q x)) \<Longrightarrow> keeps I m Q"
  by (simp add: keeps_def prod_eq_iff)

lemma keepsD: "keeps I m Q \<Longrightarrow> I s \<Longrightarrow> m s = (r, s') \<Longrightarrow> I s'"
  by (metis keeps_def snd_conv)

lemma keeps_result: "keeps I m Q \<Longrightarrow> I s \<Longrightarrow> m s = (Inr x, s') \<Longrightarrow> Q x"
  by (metis keeps_def fst_conv)

lemma keeps_weaken: "keeps I m Q \<Longrightarrow> (\<And>x. Q x \<Longrightarrow> Q' x) \<Longrightarrow> keeps I m Q'"
  by (simp add: keeps_def)

lemma keeps_any: "keeps I m Q \<Longrightarrow> keeps I m (\<lambda>_. True)"
  by (simp add: keeps_def)

lemma keeps_ret: "Q x \<Longrightarrow> keeps I (ret x) Q"
  by (simp add: keeps_def ret_def)

lemma keeps_raise: "keeps I (raise e) Q"
  by (simp add: keeps_def raise_def)

lemma keeps_gets: "(\<And>s. I s \<Longrightarrow> Q (f s)) \<Longrightarrow> keeps I (gets f) Q"
  by (simp add: keeps_def gets_def)

lemma keeps_lift: "(\<And>x. r = Inr x \<Longrightarrow> Q x) \<Longrightarrow> keeps I (lift r) Q"
  by (simp add: keeps_def lift_def)

lemma keeps_modify: "(\<And>s. I s \<Longrightarrow> I (g s)) \<Longrightarrow> Q () \<Longrightarrow> keeps I (modify g) Q"
  by (simp add: keeps_def modify_def)

lemma keeps_bind: "keeps I m P \<Longrightarrow> (\<And>x. P x \<Longrightarrow> keeps I (f x) Q) \<Longrightarrow> keeps I (bind m f) Q"
  unfolding keeps_def bind_def by (auto split: prod.splits sum.splits)

lemma keeps_seqp: "keeps I m P \<Longrightarrow> keeps I n Q \<Longrightarrow> keeps I (seqp m n) Q"
  unfolding seqp_def by (rule keeps_bind) auto

lemma keeps_catch:
  "keeps I m Q \<Longrightarrow> (\<And>e. keeps I (h e) Q) \<Longrightarrow> keeps I (catch m h) Q"
  unfolding keeps_def catch_def by (auto split: prod.splits sum.splits)

lemma keeps_unless: "keeps I m Q \<Longrightarrow> Q () \<Longrightarrow> keeps I (unless b m) Q"
  by (simp add: unless_def keeps_ret)

lemma keeps_for_each:
  "(\<And>x. x \<in> set xs \<Longrightarrow> keeps I (f x) (\<lambda>_. True)) \<Longrightarrow> keeps I (for_each xs f) (\<lambda>_. True)"
  by (induction xs) (auto intro: keeps_ret keeps_seqp)

lemma keeps_if: "(b \<Longrightarrow> keeps I m Q) \<Longrightarrow> (\<not> b \<Longrightarrow> keeps I n Q) \<Longrightarrow> keeps I (if b then m else n) Q"
  by simp

lemma keeps_case_option:
  "(v = None \<Longrightarrow> keeps I m Q) \<Longrightarrow> (\<And>x. v = Some x \<Longrightarrow> keeps I (f x) Q) \<Longrightarrow>
   keeps I (case v of None \<Rightarrow> m | Some x \<Rightarrow> f x) Q"
  by (cases v) simp_all

lemma keeps_case_list:
  "(v = [] \<Longrightarrow> keeps I m Q) \<Longrightarrow> (\<And>x xs. v = x # xs \<Longrightarrow> keeps I (f x xs) Q) \<Longrightarrow>
   keeps I (case v of [] \<Rightarrow> m | x # xs \<Rightarrow> f x xs) Q"
  by (cases v) simp_all

lemma keeps_case_prod: "(\<And>x y. keeps I (f x y) Q) \<Longrightarrow> keeps I (case v of (x, y) \<Rightarrow> f x y) Q"
  by (cases v) simp

lemmas keeps_rules =
  keeps_ret keeps_raise keeps_lift keeps_bind keeps_seqp keeps_catch keeps_unless
  keeps_for_each keeps_if keeps_case_option

subsection \<open>Strings\<close>

definition lower_char :: "char \<Rightarrow> char" where
  "lower_char c = (let n = of_char c :: nat in if 65 \<le> n \<and> n \<le> 90 then char_of (n + 32) else c)"

definition lower :: "string \<Rightarrow> string" where
  "lower s = map lower_char s"

definition is_space :: "char \<Rightarrow> bool" where
  "is_space c = (let n = of_char c :: nat in
     9 \<le> n \<and> n \<le> 13 \<or> 28 \<le> n \<and> n \<le> 32 \<or> n = 133 \<or> n = 160)"

definition strip :: "string \<Rightarrow> string" where
  "strip s = rev (dropWhile is_space (rev (dropWhile is_space s)))"

fun join :: "string \<Rightarrow> string list \<Rightarrow> string" where
  "join sep [] = []"
| "join sep [x] = x"
| "join sep (x # y # ys) = x @ sep @ join sep (y # ys)"

text \<open>\<open>contains pat s\<close> is Python's \<^verbatim>\<open>pat in s\<close> on strings.\<close>

fun contains :: "string \<Rightarrow> string \<Rightarrow> bool" where
  "contains pat [] \<longleftrightarrow> pat = []"
| "contains pat (c # s) \<longleftrightarrow> prefix pat (c # s) \<or> contains pat s"

lemma contains_iff_sublist: "contains pat s \<longleftrightarrow> sublist pat s"
proof (induction s)
  case Nil
  then show ?case by simp
next
  case (Cons c s)
  then show ?case
    by (cases pat) (auto simp: sublist_Cons_right)
qed

lemma contains_append_sep:
  assumes "x \<notin> set pat" and "pat \<noteq> []"
  shows "contains pat (a @ x # b) \<longleftrightarrow> contains pat a \<or> contains pat b"
proof
  assume "contains pat (a @ x # b)"
  then obtain p q where pq: "a @ x # b = p @ pat @ q"
    by (auto simp: contains_iff_sublist sublist_def)
  then consider
      (left) us where "p = a @ us" "us @ pat @ q = x # b"
    | (right) us where "a = p @ us" "us @ x # b = pat @ q"
    by (auto simp: append_eq_append_conv2)
  then show "contains pat a \<or> contains pat b"
  proof cases
    case left
    with assms obtain us' where "b = us' @ pat @ q"
      by (cases us; cases pat) auto
    then show ?thesis by (auto simp: contains_iff_sublist sublist_def)
  next
    case right
    with assms obtain vs where "us = pat @ vs"
      by (auto simp: append_eq_append_conv2 Cons_eq_append_conv)
    with right show ?thesis by (auto simp: contains_iff_sublist sublist_def)
  qed
next
  assume "contains pat a \<or> contains pat b"
  then show "contains pat (a @ x # b)"
    by (auto simp: contains_iff_sublist sublist_append sublist_Cons_right)
qed

text \<open>
  A pattern without the separator's characters occurs in a joined text exactly when it occurs
  in one of the pieces.
\<close>

lemma contains_join:
  assumes "pat \<noteq> []" and "CHR '';'' \<notin> set pat" and "CHR '' '' \<notin> set pat" and "xs \<noteq> []"
  shows "contains pat (join ''; '' xs) \<longleftrightarrow> (\<exists>x \<in> set xs. contains pat x)"
  using assms(4)
proof (induction "''; ''" xs rule: join.induct)
  case (3 x y ys)
  have "contains pat (x @ CHR '';'' # CHR '' '' # join ''; '' (y # ys)) \<longleftrightarrow>
        contains pat x \<or> contains pat (CHR '' '' # join ''; '' (y # ys))"
    by (rule contains_append_sep [OF assms(2,1)])
  moreover have "contains pat ([] @ CHR '' '' # join ''; '' (y # ys)) \<longleftrightarrow>
        contains pat [] \<or> contains pat (join ''; '' (y # ys))"
    by (rule contains_append_sep [OF assms(3,1)])
  ultimately show ?case using 3 assms(1) by simp
qed simp_all

lemma lower_append [simp]: "lower (a @ b) = lower a @ lower b"
  by (simp add: lower_def)

lemma lower_join: "lower (join ''; '' xs) = join ''; '' (map lower xs)"
  by (induction "''; ''" xs rule: join.induct) (simp_all add: lower_def lower_char_def)

subsection \<open>Tables\<close>

text \<open>
  A table is the list of its rows in insertion order; a row is found by its primary key and
  updated in place. The laws hold for any key that the update leaves alone.
\<close>

definition find_row :: "('r \<Rightarrow> 'k) \<Rightarrow> 'k \<Rightarrow> 'r list \<Rightarrow> 'r option" where
  "find_row key k rows = find (\<lambda>r. key r = k) rows"

definition update_row :: "('r \<Rightarrow> 'k) \<Rightarrow> 'k \<Rightarrow> ('r \<Rightarrow> 'r) \<Rightarrow> 'r list \<Rightarrow> 'r list" where
  "update_row key k f rows = map (\<lambda>r. if key r = k then f r else r) rows"

lemma find_row_code [table_simps]:
  "find_row key k [] = None"
  "find_row key k (r # rows) = (if key r = k then Some r else find_row key k rows)"
  by (simp_all add: find_row_def)

lemma find_row_Some_key: "find_row key k rows = Some r \<Longrightarrow> key r = k"
  by (auto simp: find_row_def find_Some_iff)

lemma find_row_Some_in: "find_row key k rows = Some r \<Longrightarrow> r \<in> set rows"
  by (auto simp: find_row_def find_Some_iff)

lemma find_row_None_iff: "find_row key k rows = None \<longleftrightarrow> k \<notin> key ` set rows"
  by (auto simp: find_row_def find_None_iff)

lemma find_row_unique:
  "distinct (map key rows) \<Longrightarrow> r \<in> set rows \<Longrightarrow> find_row key (key r) rows = Some r"
  by (induction rows) (auto simp: find_row_def)

lemma find_row_append:
  "find_row key k (rows @ [r]) =
     (case find_row key k rows of Some x \<Rightarrow> Some x | None \<Rightarrow> if key r = k then Some r else None)"
  by (induction rows) (auto simp: find_row_def)

locale keyed_update =
  fixes key :: "'r \<Rightarrow> 'k" and f :: "'r \<Rightarrow> 'r"
  assumes key_stable: "key (f r) = key r"
begin

lemma find_update_row:
  "find_row key k (update_row key k' f rows) =
     (if k = k' then map_option f (find_row key k rows) else find_row key k rows)"
  by (induction rows) (auto simp: find_row_def update_row_def key_stable)

lemma keys_update_row: "map key (update_row key k f rows) = map key rows"
  by (simp add: update_row_def key_stable)

lemma rows_update_row: "r \<in> set (update_row key k f rows) \<Longrightarrow> r \<in> set rows \<or> (\<exists>r0 \<in> set rows. key r0 = k \<and> r = f r0)"
  by (auto simp: update_row_def split: if_splits)

end

end
