(* ===== verification/Money.thy ===== *)
theory Money
  imports Prelude
begin

text \<open>
  \<^verbatim>\<open>packages/domain/recoverai_domain/money.py\<close> and the column type of
  \<^verbatim>\<open>packages/db/recoverai_db/types.py\<close>. A \<^verbatim>\<open>Decimal\<close> is its exact value, a rational;
  quantisation to \<open>0.01\<close> is written out with the rounding the code names. The money columns hold
  at most 18 digits, so the 28 digits of the decimal context are never reached and its
  \<^verbatim>\<open>InvalidOperation\<close> on longer results is not part of the model. The lemmas show
  that the two quantisers are the nearest two-decimal value with ties to even, that they are
  monotone, idempotent and within half a paisa, and that \<open>as_money\<close> raises exactly on
  amounts that round below zero.
\<close>

definition ZERO :: rat where
  "ZERO = 0"

text \<open>\<^verbatim>\<open>ROUND_HALF_EVEN\<close> to an integer.\<close>

definition round_half_even :: "rat \<Rightarrow> int" where
  "round_half_even x =
     (let f = \<lfloor>x\<rfloor>; d = x - of_int f in
      if d < 1/2 then f else if 1/2 < d then f + 1 else if even f then f else f + 1)"

text \<open>\<open>quantize_digits k x\<close> is \<^verbatim>\<open>x.quantize(Decimal(10) ** -k)\<close>.\<close>

definition quantize_digits :: "nat \<Rightarrow> rat \<Rightarrow> rat" where
  "quantize_digits k x = of_int (round_half_even (x * 10 ^ k)) / 10 ^ k"

abbreviation quantize :: "rat \<Rightarrow> rat" where
  "quantize x \<equiv> quantize_digits 2 x"

definition signed_money :: "rat \<Rightarrow> rat" where
  "signed_money v = quantize v"

definition as_money :: "rat \<Rightarrow> rat res" where
  "as_money v = (let q = quantize v in if q < ZERO then Inl ValueError else Inr q)"

text \<open>
  The column type \<^verbatim>\<open>Numeric(18, 2)\<close>: a value written to a money column is stored with two
  decimals, ties away from zero as the database documents.
\<close>

definition numeric_18_2 :: "rat \<Rightarrow> rat" where
  "numeric_18_2 x = (let y = x * 100 in
     (if 0 \<le> y then of_int \<lfloor>y + 1/2\<rfloor> else - of_int \<lfloor>1/2 - y\<rfloor>) / 100)"

definition validate_non_negative_money :: "rat \<Rightarrow> rat res" where
  "validate_non_negative_money v = (if v < 0 then Inl ValueError else Inr v)"

definition two_decimal :: "rat \<Rightarrow> bool" where
  "two_decimal x \<longleftrightarrow> of_int \<lfloor>x * 100\<rfloor> = x * 100"

lemma two_decimal_iff: "two_decimal x \<longleftrightarrow> (\<exists>n. x * 100 = of_int n)"
  unfolding two_decimal_def by (metis floor_of_int)

subsection \<open>Rounding\<close>

lemma round_half_even_of_int [simp]: "round_half_even (of_int n) = n"
  by (simp add: round_half_even_def Let_def)

lemma round_half_even_cases:
  obtains (down) f where "round_half_even x = f" "of_int f \<le> x" "x - of_int f \<le> 1/2"
    | (up) f where "round_half_even x = f + 1" "1/2 \<le> x - of_int f" "x < of_int f + 1"
proof (cases "round_half_even x = \<lfloor>x\<rfloor>")
  case True
  then have "x - of_int \<lfloor>x\<rfloor> \<le> 1/2"
    by (auto simp: round_half_even_def Let_def split: if_splits)
  with True show ?thesis by (intro down) simp_all
next
  case False
  then have "round_half_even x = \<lfloor>x\<rfloor> + 1" and "1/2 \<le> x - of_int \<lfloor>x\<rfloor>"
    by (auto simp: round_half_even_def Let_def split: if_splits)
  then show ?thesis by (rule up) linarith
qed

lemma round_half_even_error: "\<bar>of_int (round_half_even x) - x\<bar> \<le> 1/2"
  by (cases x rule: round_half_even_cases) (simp_all add: abs_if)

lemma round_half_even_tie:
  assumes "x - of_int \<lfloor>x\<rfloor> = 1/2"
  shows "even (round_half_even x)"
  using assms by (simp add: round_half_even_def Let_def)

lemma round_half_even_mono: "x \<le> y \<Longrightarrow> round_half_even x \<le> round_half_even y"
proof -
  assume le: "x \<le> y"
  then have f: "\<lfloor>x\<rfloor> \<le> \<lfloor>y\<rfloor>" by (rule floor_mono)
  have up: "round_half_even x \<le> \<lfloor>x\<rfloor> + 1" and lo: "\<lfloor>y\<rfloor> \<le> round_half_even y"
    by (auto simp: round_half_even_def Let_def)
  show ?thesis
  proof (cases "\<lfloor>x\<rfloor> = \<lfloor>y\<rfloor>")
    case True
    with le show ?thesis
      by (auto simp: round_half_even_def Let_def)
  next
    case False
    with f up lo show ?thesis by linarith
  qed
qed

text \<open>No integer is nearer, and at a tie the even neighbour is taken: a full characterisation.\<close>

lemma round_half_even_nearest: "\<bar>of_int (round_half_even x) - x\<bar> \<le> \<bar>of_int n - x\<bar>"
proof -
  have split: "of_int n \<le> (of_int f :: rat) \<or> of_int f + 1 \<le> (of_int n :: rat)" for f
  proof (cases "n \<le> f")
    case False
    then have "of_int (f + 1) \<le> (of_int n :: rat)" by (simp only: of_int_le_iff)
    then show ?thesis by simp
  qed simp
  show ?thesis
  proof (cases x rule: round_half_even_cases)
    case (down f)
    with split [of f] show ?thesis by (simp add: abs_if) linarith
  next
    case (up f)
    with split [of f] show ?thesis by (simp add: abs_if) linarith
  qed
qed

subsection \<open>Quantisation\<close>

lemma quantize_error: "\<bar>quantize_digits k x - x\<bar> \<le> 1 / (2 * 10 ^ k)"
proof -
  have "\<bar>of_int (round_half_even (x * 10 ^ k)) - x * 10 ^ k\<bar> \<le> 1/2"
    by (rule round_half_even_error)
  then have "\<bar>of_int (round_half_even (x * 10 ^ k)) - x * 10 ^ k\<bar> / 10 ^ k \<le> (1/2) / 10 ^ k"
    by (rule divide_right_mono) simp
  then have "\<bar>(of_int (round_half_even (x * 10 ^ k)) - x * 10 ^ k) / 10 ^ k\<bar> \<le> (1/2) / 10 ^ k"
    by (simp add: abs_divide)
  then show ?thesis
    by (simp add: quantize_digits_def diff_divide_distrib)
qed

lemma quantize_mono: "x \<le> y \<Longrightarrow> quantize_digits k x \<le> quantize_digits k y"
  by (simp add: quantize_digits_def divide_right_mono round_half_even_mono)

lemma quantize_of_int [simp]: "quantize_digits k (of_int n) = of_int n"
proof -
  have "(of_int n :: rat) * 10 ^ k = of_int (n * 10 ^ k)" by simp
  then show ?thesis unfolding quantize_digits_def by (simp only: round_half_even_of_int) simp
qed

lemma quantize_0 [simp]: "quantize_digits k 0 = 0"
  using quantize_of_int [of k 0] by simp

lemma quantize_idem [simp]: "quantize_digits k (quantize_digits k x) = quantize_digits k x"
  by (simp add: quantize_digits_def)

lemma two_decimal_quantize [simp]: "two_decimal (quantize x)"
  by (simp add: two_decimal_def quantize_digits_def)

lemma quantize_two_decimal: "two_decimal x \<Longrightarrow> quantize x = x"
proof -
  assume "two_decimal x"
  then obtain n where "x * 10 ^ 2 = of_int n" by (auto simp: two_decimal_iff)
  then show ?thesis unfolding quantize_digits_def by (simp only: round_half_even_of_int) simp
qed

lemma two_decimal_numeric [simp]: "two_decimal (numeric_18_2 x)"
proof (cases "0 \<le> x * 100")
  case True
  then show ?thesis by (simp add: numeric_18_2_def two_decimal_def Let_def)
next
  case False
  have "- of_int \<lfloor>1/2 - x * 100\<rfloor> = (of_int (- \<lfloor>1/2 - x * 100\<rfloor>) :: rat)" by simp
  with False show ?thesis
    unfolding numeric_18_2_def two_decimal_def Let_def
    by (simp del: of_int_minus)
qed

lemma numeric_18_2_nonneg: "0 \<le> x \<Longrightarrow> 0 \<le> numeric_18_2 x"
  by (simp add: numeric_18_2_def Let_def)

lemma two_decimal_diff: "two_decimal x \<Longrightarrow> two_decimal y \<Longrightarrow> two_decimal (x - y)"
proof -
  assume "two_decimal x" "two_decimal y"
  then obtain m n where "x * 100 = of_int m" "y * 100 = of_int n"
    by (auto simp: two_decimal_iff)
  then have "(x - y) * 100 = of_int (m - n)"
    by (simp add: left_diff_distrib)
  then show ?thesis unfolding two_decimal_iff by blast
qed

lemma two_decimal_add: "two_decimal x \<Longrightarrow> two_decimal y \<Longrightarrow> two_decimal (x + y)"
proof -
  assume "two_decimal x" "two_decimal y"
  then obtain m n where "x * 100 = of_int m" "y * 100 = of_int n"
    by (auto simp: two_decimal_iff)
  then have "(x + y) * 100 = of_int (m + n)"
    by (simp add: distrib_right)
  then show ?thesis unfolding two_decimal_iff by blast
qed

lemma two_decimal_zero [simp]: "two_decimal 0"
  by (simp add: two_decimal_def)

lemma two_decimal_min: "two_decimal x \<Longrightarrow> two_decimal y \<Longrightarrow> two_decimal (min x y)"
  by (simp add: min_def)

subsection \<open>\<open>as_money\<close>\<close>

lemma as_money_Inr: "as_money v = Inr q \<longleftrightarrow> q = quantize v \<and> 0 \<le> q"
  by (auto simp: as_money_def ZERO_def Let_def)

lemma as_money_nonneg: "0 \<le> v \<Longrightarrow> as_money v = Inr (quantize v)"
  using quantize_mono [of 0 v 2] by (simp add: as_money_Inr)

lemma as_money_exact: "0 \<le> v \<Longrightarrow> two_decimal v \<Longrightarrow> as_money v = Inr v"
  by (simp add: as_money_nonneg quantize_two_decimal)

lemma as_money_raises_iff: "as_money v = Inl ValueError \<longleftrightarrow> quantize v < 0"
  by (simp add: as_money_def ZERO_def Let_def)

text \<open>
  \<^bold>\<open>Money quantisation.\<close> On a non-negative amount \<open>as_money\<close> returns a two-decimal
  value at most half a paisa away from its argument, no two-decimal value is nearer, a tie goes
  to the even paisa, and applying it again changes nothing.
\<close>

theorem as_money_correct:
  assumes "0 \<le> v"
  shows "\<exists>q. as_money v = Inr q \<and> 0 \<le> q \<and> two_decimal q \<and> as_money q = Inr q
           \<and> \<bar>q - v\<bar> \<le> 1/200 \<and> (\<forall>n::int. \<bar>q - v\<bar> \<le> \<bar>of_int n / 100 - v\<bar>)
           \<and> (v * 100 - of_int \<lfloor>v * 100\<rfloor> = 1/2 \<longrightarrow> even \<lfloor>q * 100\<rfloor>)"
proof -
  let ?q = "quantize v"
  have m: "as_money v = Inr ?q" and nn: "0 \<le> ?q"
    using as_money_nonneg [OF assms] as_money_Inr by auto
  have near: "\<bar>?q - v\<bar> \<le> \<bar>of_int n / 100 - v\<bar>" for n :: int
  proof -
    have "\<bar>of_int (round_half_even (v * 100)) - v * 100\<bar> / 100 \<le> \<bar>of_int n - v * 100\<bar> / 100"
      by (rule divide_right_mono [OF round_half_even_nearest]) simp
    also have "\<bar>of_int n - v * 100\<bar> / 100 = \<bar>of_int n / 100 - v\<bar>"
      using abs_divide [of "of_int n - v * 100" "100 :: rat"] by (simp add: diff_divide_distrib)
    also have "\<bar>of_int (round_half_even (v * 100)) - v * 100\<bar> / 100 = \<bar>?q - v\<bar>"
      using abs_divide [of "of_int (round_half_even (v * 100)) - v * 100" "100 :: rat"]
      by (simp add: quantize_digits_def diff_divide_distrib)
    finally show ?thesis .
  qed
  have tie: "even \<lfloor>?q * 100\<rfloor>" if "v * 100 - of_int \<lfloor>v * 100\<rfloor> = 1/2"
    using round_half_even_tie [OF that] by (simp add: quantize_digits_def)
  show ?thesis
    using m nn near tie quantize_error [of 2 v] as_money_exact [of ?q]
    by (intro exI [of _ ?q]) auto
qed

theorem as_money_correct_witness:
  "0 \<le> (10005/1000 :: rat) \<and> as_money (10005/1000) = Inr 10 \<and>
   (\<exists>q. as_money (10005/1000) = Inr q \<and> \<bar>q - 10005/1000\<bar> \<le> 1/200)"
proof -
  have "as_money (10005/1000) = Inr 10" by code_simp
  moreover have "0 \<le> (10005/1000 :: rat)" by simp
  ultimately show ?thesis
    using as_money_correct [of "10005/1000"] by blast
qed

end
