(* ===== verification/Enums.thy ===== *)
theory Enums
  imports Prelude
begin

text \<open>
  The closed vocabularies of the program: the \<^verbatim>\<open>StrEnum\<close>s of
  \<^verbatim>\<open>packages/db/recoverai_db/enums.py\<close>, \<^verbatim>\<open>AuditEventType\<close> of
  \<^verbatim>\<open>recoverai_domain/audit.py\<close> and \<^verbatim>\<open>MismatchReason\<close> of
  \<^verbatim>\<open>recoverai_domain/verification_types.py\<close>. Members are datatype constructors, with a
  prefix where two enums share a member name. A database column that only ever receives members
  of one enum is typed by that enum. Where the code converts between a member and its string
  (\<^verbatim>\<open>str(x)\<close>, \<^verbatim>\<open>RecoveryActionType(value)\<close>), the conversion is written out, and the locale
  \<open>str_enum\<close> proves once that the two directions are inverse.
\<close>

datatype RecoveryCaseStatus =
    Case_DETECTED
  | Case_TRIAGED
  | Case_INVESTIGATING
  | Case_DIAGNOSED
  | Case_SCORING
  | Case_STRATEGY_SELECTED
  | Case_POLICY_CHECK
  | Case_AWAITING_APPROVAL
  | Case_EXECUTING
  | Case_ACTION_COMPLETED
  | Case_VERIFYING
  | Case_RECOVERED
  | Case_NOT_RECOVERED
  | Case_RETRY_SCHEDULED
  | Case_ESCALATED
  | Case_STOPPED
  | Case_FAILED

definition TERMINAL_RECOVERY_STATUSES :: "RecoveryCaseStatus set" where
  "TERMINAL_RECOVERY_STATUSES = {Case_RECOVERED, Case_STOPPED}"

datatype RecoveryActionType =
    RETRY_NOW
  | RETRY_LATER
  | SEND_PAYMENT_LINK
  | SEND_REMINDER
  | OFFER_DISCOUNT
  | ESCALATE
  | DO_NOTHING

datatype RecoveryActionStatus =
    Act_PENDING
  | Act_PLANNED
  | Act_APPROVAL_REQUIRED
  | Act_APPROVED
  | Act_EXECUTING
  | Act_SUCCEEDED
  | Act_COMPLETED
  | Act_FAILED
  | Act_BLOCKED
  | Act_CANCELLED

datatype PaymentStatus =
    Pay_CREATED
  | Pay_AUTHORIZED
  | Pay_CAPTURED
  | Pay_FAILED
  | Pay_REFUNDED
  | Pay_PARTIALLY_REFUNDED
  | Pay_CANCELLED
  | Pay_UNKNOWN

datatype RecoveryCaseType =
    FAILED_PAYMENT
  | ABANDONED_CHECKOUT
  | SUBSCRIPTION_FAILURE

datatype RiskLevel =
    GREEN
  | YELLOW
  | RED

datatype ApprovalStatus =
    Appr_PENDING
  | Appr_APPROVED
  | Appr_REJECTED
  | Appr_EXPIRED
  | Appr_CANCELLED

datatype WebhookEventStatus =
    Hook_RECEIVED
  | Hook_PROCESSING
  | Hook_PROCESSED
  | Hook_FAILED
  | Hook_DEAD_LETTER

datatype IdempotencyKeyStatus =
    Idem_IN_PROGRESS
  | Idem_COMPLETED
  | Idem_FAILED

datatype NotificationChannel =
    Chan_EMAIL
  | Chan_SMS
  | Chan_WHATSAPP
  | Chan_PUSH

datatype NotificationStatus =
    Notif_PENDING
  | Notif_SENT
  | Notif_DELIVERED
  | Notif_FAILED
  | Notif_CANCELLED

datatype ActorType =
    Actor_SYSTEM
  | Actor_USER
  | Actor_AGENT
  | Actor_WORKER

datatype AgentRunStatus =
    Run_RUNNING
  | Run_COMPLETED
  | Run_FAILED

datatype ToolCallStatus =
    Call_PENDING
  | Call_SUCCESS
  | Call_FAILED
  | Call_BLOCKED
  | Call_APPROVAL_REQUIRED

datatype ToolPermission =
    Perm_VIEW_RECOVERY
  | Perm_VIEW_CUSTOMER
  | Perm_VIEW_PAYMENT
  | Perm_RETRY_PAYMENT
  | Perm_CREATE_PAYMENT_LINK
  | Perm_SEND_NOTIFICATION
  | Perm_OFFER_DISCOUNT
  | Perm_ESCALATE
  | Perm_APPROVE_RECOVERY_ACTION
  | Perm_PAUSE_RECOVERY

datatype MismatchReason =
    Mis_MERCHANT_MISMATCH
  | Mis_CUSTOMER_MISMATCH
  | Mis_ORDER_MISMATCH
  | Mis_PAYMENT_MISMATCH
  | Mis_AMOUNT_MISMATCH
  | Mis_CURRENCY_MISMATCH
  | Mis_OUTSIDE_RECOVERY_WINDOW
  | Mis_ALREADY_COUNTED
  | Mis_DUPLICATE_EVENT
  | Mis_NOT_CAPTURED
  | Mis_UNKNOWN

datatype AuditEventType =
    Aud_PROVIDER_EVENT_RECEIVED
  | Aud_DUPLICATE_EVENT_IGNORED
  | Aud_PAYMENT_UPDATED
  | Aud_RECOVERY_CASE_CREATED
  | Aud_RECOVERY_CASE_ATTACHED
  | Aud_PROVIDER_EVENT_PROCESSED
  | Aud_PROVIDER_EVENT_FAILED
  | Aud_UNKNOWN_EVENT_IGNORED
  | Aud_CASE_TRIAGED
  | Aud_CASE_INVESTIGATING
  | Aud_CASE_DIAGNOSED
  | Aud_RECOVERY_SCORING_STARTED
  | Aud_RECOVERY_STRATEGY_SELECTED
  | Aud_RECOVERY_POLICY_CHECKED
  | Aud_RECOVERY_EXECUTION_STARTED
  | Aud_RECOVERY_ACTION_COMPLETED
  | Aud_RECOVERY_VERIFICATION_STARTED
  | Aud_RECOVERY_VERIFIED
  | Aud_RECOVERY_VERIFICATION_FAILED
  | Aud_RECOVERY_AMOUNT_UPDATED
  | Aud_STATE_TRANSITION_REJECTED
  | Aud_RECOVERY_CASE_STOPPED
  | Aud_RECOVERY_CASE_ESCALATED
  | Aud_POLICY_EVALUATED
  | Aud_ACTION_PLANNED
  | Aud_APPROVAL_REQUESTED
  | Aud_APPROVAL_APPROVED
  | Aud_APPROVAL_REJECTED
  | Aud_ACTION_BLOCKED
  | Aud_ACTION_STARTED
  | Aud_ACTION_SUCCEEDED
  | Aud_ACTION_FAILED
  | Aud_ACTION_CANCELLED
  | Aud_ERV_OPTIMIZATION_RECORDED
  | Aud_AGENT_RUN_RECORDED
  | Aud_AGENT_LIMIT_EXCEEDED
  | Aud_AGENT_FALLBACK_USED

definition DEFAULT_CURRENCY :: string where
  "DEFAULT_CURRENCY = ''INR''"

subsection \<open>Members and their strings\<close>

fun case_status_value :: "RecoveryCaseStatus \<Rightarrow> string" where
  "case_status_value Case_DETECTED = ''DETECTED''"
| "case_status_value Case_TRIAGED = ''TRIAGED''"
| "case_status_value Case_INVESTIGATING = ''INVESTIGATING''"
| "case_status_value Case_DIAGNOSED = ''DIAGNOSED''"
| "case_status_value Case_SCORING = ''SCORING''"
| "case_status_value Case_STRATEGY_SELECTED = ''STRATEGY_SELECTED''"
| "case_status_value Case_POLICY_CHECK = ''POLICY_CHECK''"
| "case_status_value Case_AWAITING_APPROVAL = ''AWAITING_APPROVAL''"
| "case_status_value Case_EXECUTING = ''EXECUTING''"
| "case_status_value Case_ACTION_COMPLETED = ''ACTION_COMPLETED''"
| "case_status_value Case_VERIFYING = ''VERIFYING''"
| "case_status_value Case_RECOVERED = ''RECOVERED''"
| "case_status_value Case_NOT_RECOVERED = ''NOT_RECOVERED''"
| "case_status_value Case_RETRY_SCHEDULED = ''RETRY_SCHEDULED''"
| "case_status_value Case_ESCALATED = ''ESCALATED''"
| "case_status_value Case_STOPPED = ''STOPPED''"
| "case_status_value Case_FAILED = ''FAILED''"

definition all_case_statuses :: "RecoveryCaseStatus list" where
  "all_case_statuses =
     [Case_DETECTED, Case_TRIAGED, Case_INVESTIGATING, Case_DIAGNOSED,
      Case_SCORING, Case_STRATEGY_SELECTED, Case_POLICY_CHECK, Case_AWAITING_APPROVAL,
      Case_EXECUTING, Case_ACTION_COMPLETED, Case_VERIFYING, Case_RECOVERED,
      Case_NOT_RECOVERED, Case_RETRY_SCHEDULED, Case_ESCALATED, Case_STOPPED,
      Case_FAILED]"

fun action_value :: "RecoveryActionType \<Rightarrow> string" where
  "action_value RETRY_NOW = ''RETRY_NOW''"
| "action_value RETRY_LATER = ''RETRY_LATER''"
| "action_value SEND_PAYMENT_LINK = ''SEND_PAYMENT_LINK''"
| "action_value SEND_REMINDER = ''SEND_REMINDER''"
| "action_value OFFER_DISCOUNT = ''OFFER_DISCOUNT''"
| "action_value ESCALATE = ''ESCALATE''"
| "action_value DO_NOTHING = ''DO_NOTHING''"

definition all_actions :: "RecoveryActionType list" where
  "all_actions =
     [RETRY_NOW, RETRY_LATER, SEND_PAYMENT_LINK, SEND_REMINDER,
      OFFER_DISCOUNT, ESCALATE, DO_NOTHING]"

fun payment_status_value :: "PaymentStatus \<Rightarrow> string" where
  "payment_status_value Pay_CREATED = ''CREATED''"
| "payment_status_value Pay_AUTHORIZED = ''AUTHORIZED''"
| "payment_status_value Pay_CAPTURED = ''CAPTURED''"
| "payment_status_value Pay_FAILED = ''FAILED''"
| "payment_status_value Pay_REFUNDED = ''REFUNDED''"
| "payment_status_value Pay_PARTIALLY_REFUNDED = ''PARTIALLY_REFUNDED''"
| "payment_status_value Pay_CANCELLED = ''CANCELLED''"
| "payment_status_value Pay_UNKNOWN = ''UNKNOWN''"

fun mismatch_value :: "MismatchReason \<Rightarrow> string" where
  "mismatch_value Mis_MERCHANT_MISMATCH = ''MERCHANT_MISMATCH''"
| "mismatch_value Mis_CUSTOMER_MISMATCH = ''CUSTOMER_MISMATCH''"
| "mismatch_value Mis_ORDER_MISMATCH = ''ORDER_MISMATCH''"
| "mismatch_value Mis_PAYMENT_MISMATCH = ''PAYMENT_MISMATCH''"
| "mismatch_value Mis_AMOUNT_MISMATCH = ''AMOUNT_MISMATCH''"
| "mismatch_value Mis_CURRENCY_MISMATCH = ''CURRENCY_MISMATCH''"
| "mismatch_value Mis_OUTSIDE_RECOVERY_WINDOW = ''OUTSIDE_RECOVERY_WINDOW''"
| "mismatch_value Mis_ALREADY_COUNTED = ''ALREADY_COUNTED''"
| "mismatch_value Mis_DUPLICATE_EVENT = ''DUPLICATE_EVENT''"
| "mismatch_value Mis_NOT_CAPTURED = ''NOT_CAPTURED''"
| "mismatch_value Mis_UNKNOWN = ''UNKNOWN''"

fun risk_value :: "RiskLevel \<Rightarrow> string" where
  "risk_value GREEN = ''GREEN''"
| "risk_value YELLOW = ''YELLOW''"
| "risk_value RED = ''RED''"

fun webhook_status_value :: "WebhookEventStatus \<Rightarrow> string" where
  "webhook_status_value Hook_RECEIVED = ''RECEIVED''"
| "webhook_status_value Hook_PROCESSING = ''PROCESSING''"
| "webhook_status_value Hook_PROCESSED = ''PROCESSED''"
| "webhook_status_value Hook_FAILED = ''FAILED''"
| "webhook_status_value Hook_DEAD_LETTER = ''DEAD_LETTER''"

fun permission_value :: "ToolPermission \<Rightarrow> string" where
  "permission_value Perm_VIEW_RECOVERY = ''VIEW_RECOVERY''"
| "permission_value Perm_VIEW_CUSTOMER = ''VIEW_CUSTOMER''"
| "permission_value Perm_VIEW_PAYMENT = ''VIEW_PAYMENT''"
| "permission_value Perm_RETRY_PAYMENT = ''RETRY_PAYMENT''"
| "permission_value Perm_CREATE_PAYMENT_LINK = ''CREATE_PAYMENT_LINK''"
| "permission_value Perm_SEND_NOTIFICATION = ''SEND_NOTIFICATION''"
| "permission_value Perm_OFFER_DISCOUNT = ''OFFER_DISCOUNT''"
| "permission_value Perm_ESCALATE = ''ESCALATE''"
| "permission_value Perm_APPROVE_RECOVERY_ACTION = ''APPROVE_RECOVERY_ACTION''"
| "permission_value Perm_PAUSE_RECOVERY = ''PAUSE_RECOVERY''"

fun channel_value :: "NotificationChannel \<Rightarrow> string" where
  "channel_value Chan_EMAIL = ''EMAIL''"
| "channel_value Chan_SMS = ''SMS''"
| "channel_value Chan_WHATSAPP = ''WHATSAPP''"
| "channel_value Chan_PUSH = ''PUSH''"

definition all_channels :: "NotificationChannel list" where
  "all_channels = [Chan_EMAIL, Chan_SMS, Chan_WHATSAPP, Chan_PUSH]"

text \<open>Calling an enum class on a string: the member with that value, or \<^verbatim>\<open>ValueError\<close>.\<close>

definition parse_enum :: "('e \<Rightarrow> string) \<Rightarrow> 'e list \<Rightarrow> string \<Rightarrow> 'e res" where
  "parse_enum val members s =
     (case find (\<lambda>x. val x = s) members of None \<Rightarrow> Inl ValueError | Some x \<Rightarrow> Inr x)"

locale str_enum =
  fixes val :: "'e \<Rightarrow> string" and members :: "'e list"
  assumes vals_distinct: "distinct (map val members)"
    and members_complete: "x \<in> set members"
begin

lemma val_inj: "val x = val y \<Longrightarrow> x = y"
  using vals_distinct members_complete by (auto simp: distinct_map dest: inj_onD)

lemma parse_Inr_iff: "parse_enum val members s = Inr x \<longleftrightarrow> val x = s"
proof (cases "find (\<lambda>x. val x = s) members")
  case None
  then have "\<forall>x. val x \<noteq> s"
    using members_complete by (auto simp: find_None_iff)
  with None show ?thesis by (simp add: parse_enum_def)
next
  case (Some y)
  then have "val y = s" by (auto simp: find_Some_iff)
  with Some show ?thesis by (auto simp: parse_enum_def dest: val_inj)
qed

lemma parse_val [simp]: "parse_enum val members (val x) = Inr x"
  by (simp add: parse_Inr_iff)

lemma parse_raises_iff: "parse_enum val members s = Inl ValueError \<longleftrightarrow> s \<notin> range val"
proof (cases "find (\<lambda>x. val x = s) members")
  case None
  then have "\<forall>x. val x \<noteq> s"
    using members_complete by (auto simp: find_None_iff)
  with None show ?thesis by (auto simp: parse_enum_def)
next
  case (Some y)
  then have "val y = s" by (auto simp: find_Some_iff)
  with Some show ?thesis by (auto simp: parse_enum_def)
qed

end

interpretation case_status_enum: str_enum case_status_value all_case_statuses
proof
  show "distinct (map case_status_value all_case_statuses)"
    by (simp add: all_case_statuses_def)
  show "x \<in> set all_case_statuses" for x
    by (cases x) (simp_all add: all_case_statuses_def)
qed

interpretation action_enum: str_enum action_value all_actions
proof
  show "distinct (map action_value all_actions)"
    by (simp add: all_actions_def)
  show "x \<in> set all_actions" for x
    by (cases x) (simp_all add: all_actions_def)
qed

interpretation channel_enum: str_enum channel_value all_channels
proof
  show "distinct (map channel_value all_channels)"
    by (simp add: all_channels_def)
  show "x \<in> set all_channels" for x
    by (cases x) (simp_all add: all_channels_def)
qed

end
