(* ===== verification/Schema.thy ===== *)
theory Schema
  imports Money Enums
begin

text \<open>
  The database as the domain code sees it through one session: the rows of
  \<^verbatim>\<open>packages/db/recoverai_db/models\<close> as records, the tables as lists of rows, the queries
  of \<^verbatim>\<open>packages/db/recoverai_db/repositories\<close> as functions of the database, and the writes as
  programs. An ORM object is its primary key: the session's identity map gives one object per
  row, so reading an attribute reads the row's present contents, and reading through the key of
  a row that is gone raises \<^verbatim>\<open>ObjectDeletedError\<close>. A query without \<^verbatim>\<open>ORDER BY\<close> returns
  rows in insertion order.

  Not modelled: the prose \<^verbatim>\<open>summary\<close> and the metadata of audit rows, correlation ids, display
  columns no domain code reads. \<^verbatim>\<open>uuid.uuid4()\<close> is a supply of unused keys, \<^verbatim>\<open>datetime.now(UTC)\<close>
  reads a clock (microseconds since the epoch) that stands still during one program.
\<close>

subsection \<open>JSON columns\<close>

text \<open>
  \<open>JUuid\<close>, \<open>JDec\<close> and \<open>JTime\<close> are strings the code produced with \<^verbatim>\<open>str(uuid)\<close>,
  \<^verbatim>\<open>str(decimal)\<close> and \<^verbatim>\<open>isoformat()\<close>: these renderings are one-to-one on the values stored,
  so two such strings are equal exactly when the values are.
\<close>

datatype json =
    JNull | JBool bool | JInt int | JFloat rat | JStr string
  | JUuid uuid | JDec rat | JTime timestamp
  | JList "json list" | JObj "(string \<times> json) list"

type_synonym dict = "(string \<times> json) list"

definition dict_get :: "dict \<Rightarrow> string \<Rightarrow> json" where
  "dict_get d k = (case map_of d k of None \<Rightarrow> JNull | Some v \<Rightarrow> v)"

fun dict_set :: "string \<Rightarrow> json \<Rightarrow> dict \<Rightarrow> dict" where
  "dict_set k v [] = [(k, v)]"
| "dict_set k v ((k', v') # d) = (if k' = k then (k, v) # d else (k', v') # dict_set k v d)"

definition dict_update :: "dict \<Rightarrow> dict \<Rightarrow> dict" where
  "dict_update d e = fold (\<lambda>(k, v). dict_set k v) e d"

lemma map_of_dict_set [simp]: "map_of (dict_set k v d) = (map_of d)(k \<mapsto> v)"
  by (induction d) (auto simp: fun_eq_iff)

lemma dict_get_set [simp]: "dict_get (dict_set k v d) x = (if x = k then v else dict_get d x)"
  by (simp add: dict_get_def)

lemma dict_get_update_notin:
  "k \<notin> fst ` set e \<Longrightarrow> dict_get (dict_update d e) k = dict_get d k"
  by (induction e arbitrary: d) (auto simp: dict_update_def)

subsection \<open>Rows\<close>

record RecoveryCase =
  rc_id :: uuid
  rc_merchant_id :: uuid
  rc_customer_id :: uuid
  rc_payment_id :: "uuid option"
  rc_cart_id :: "uuid option"
  rc_subscription_id :: "uuid option"
  rc_case_type :: RecoveryCaseType
  rc_status :: RecoveryCaseStatus
  rc_amount_at_risk :: rat
  rc_amount_recovered :: rat
  rc_currency :: string
  rc_priority :: int
  rc_source_event_id :: "uuid option"
  rc_version :: int
  rc_opened_at :: timestamp
  rc_closed_at :: "timestamp option"
  rc_last_mismatch_reason :: "MismatchReason option"
  rc_verified_payment_id :: "uuid option"
  rc_verified_webhook_event_id :: "uuid option"
  rc_created_at :: timestamp

record Payment =
  pay_id :: uuid
  pay_merchant_id :: uuid
  pay_customer_id :: uuid
  pay_provider :: string
  pay_provider_payment_id :: "string option"
  pay_provider_order_id :: "string option"
  pay_provider_payment_link_id :: "string option"
  pay_amount :: rat
  pay_provider_amount_minor :: "int option"
  pay_currency :: string
  pay_status :: PaymentStatus
  pay_payment_method :: "string option"
  pay_failure_reason :: "string option"
  pay_failure_code :: "string option"
  pay_captured_at :: "timestamp option"
  pay_failed_at :: "timestamp option"

record PaymentAttempt =
  att_payment_id :: uuid
  att_attempt_number :: int
  att_status :: PaymentStatus
  att_amount :: rat
  att_currency :: string
  att_failure_code :: "string option"
  att_attempted_at :: timestamp

record Customer =
  cust_id :: uuid
  cust_merchant_id :: uuid
  cust_external_id :: "string option"
  cust_email :: "string option"
  cust_lifetime_value :: rat
  cust_metadata :: "dict option"

record Merchant =
  mer_id :: uuid
  mer_slug :: string
  mer_settings :: "dict option"

record RecoveryAction =
  ra_id :: uuid
  ra_merchant_id :: uuid
  ra_recovery_case_id :: uuid
  ra_action_type :: RecoveryActionType
  ra_status :: RecoveryActionStatus
  ra_idempotency_key :: string
  ra_attempt_number :: int
  ra_risk_level :: RiskLevel
  ra_provider :: "string option"
  ra_provider_reference :: "string option"
  ra_amount :: "rat option"
  ra_currency :: string
  ra_scheduled_for :: "timestamp option"
  ra_executed_at :: "timestamp option"
  ra_error_code :: "string option"
  ra_error_message :: "string option"
  ra_metadata :: dict
  ra_created_at :: timestamp

record RecoveryDecision =
  rd_id :: uuid
  rd_merchant_id :: uuid
  rd_recovery_case_id :: uuid
  rd_recovery_action_id :: "uuid option"
  rd_model_version :: "string option"
  rd_decision_version :: string
  rd_selected_action :: string
  rd_candidate_actions :: dict
  rd_expected_values :: dict
  rd_selected_expected_value :: "rat option"
  rd_policy_verdict :: string
  rd_decision_factors :: dict
  rd_created_at :: timestamp

record PolicyEvaluation =
  pe_merchant_id :: uuid
  pe_recovery_case_id :: uuid
  pe_policy_version :: string
  pe_action :: string
  pe_risk_level :: RiskLevel
  pe_allowed :: bool
  pe_requires_approval :: bool
  pe_reason :: string
  pe_policy_ids :: "string list"
  pe_evaluated_at :: timestamp

record Approval =
  ap_id :: uuid
  ap_merchant_id :: uuid
  ap_recovery_case_id :: uuid
  ap_recovery_action_id :: "uuid option"
  ap_status :: ApprovalStatus
  ap_requested_by :: "string option"
  ap_decided_by :: "string option"
  ap_decision_reason :: "string option"
  ap_decided_at :: "timestamp option"
  ap_expires_at :: "timestamp option"
  ap_created_at :: timestamp

record WebhookEvent =
  wh_id :: uuid
  wh_merchant_id :: uuid
  wh_provider :: string
  wh_event_id :: string
  wh_event_type :: string
  wh_signature_valid :: "bool option"
  wh_status :: WebhookEventStatus
  wh_payload :: dict
  wh_received_at :: timestamp
  wh_processed_at :: "timestamp option"
  wh_error_code :: "string option"

record IdempotencyKey =
  ik_id :: uuid
  ik_merchant_id :: uuid
  ik_key :: string
  ik_operation :: string
  ik_request_hash :: string
  ik_response_reference :: "uuid option"
  ik_status :: IdempotencyKeyStatus
  ik_completed_at :: "timestamp option"
  ik_expires_at :: timestamp
  ik_metadata :: dict

record Notification =
  nt_merchant_id :: uuid
  nt_customer_id :: uuid
  nt_recovery_case_id :: "uuid option"
  nt_channel :: NotificationChannel
  nt_status :: NotificationStatus
  nt_provider :: string
  nt_provider_reference :: string
  nt_sent_at :: "timestamp option"
  nt_created_at :: timestamp

record ToolCall =
  tc_id :: uuid
  tc_merchant_id :: uuid
  tc_recovery_case_id :: uuid
  tc_tool_name :: string
  tc_status :: ToolCallStatus
  tc_request_payload :: dict
  tc_idempotency_key :: string
  tc_error_code :: "string option"

record AgentRun =
  ag_id :: uuid
  ag_merchant_id :: uuid
  ag_recovery_case_id :: "uuid option"
  ag_agent_name :: string
  ag_agent_version :: string
  ag_status :: AgentRunStatus
  ag_input_summary :: dict
  ag_output_summary :: "dict option"
  ag_decision_factors :: "dict option"
  ag_error_message :: "string option"
  ag_started_at :: timestamp
  ag_completed_at :: "timestamp option"

record Cart =
  cart_id :: uuid
  cart_status :: string
  cart_total :: rat
  cart_discount :: rat
  cart_currency :: string
  cart_abandoned_at :: "timestamp option"

record Subscription =
  sub_id :: uuid
  sub_status :: string
  sub_amount :: rat
  sub_provider_subscription_id :: "string option"

record ModelPrediction =
  mp_merchant_id :: uuid
  mp_recovery_case_id :: uuid
  mp_action :: string
  mp_probability :: rat
  mp_model_version :: string
  mp_feature_version :: string
  mp_fingerprint :: string
  mp_source :: string
  mp_created_at :: timestamp
  mp_updated_at :: timestamp

record AuditEvent =
  au_merchant_id :: uuid
  au_case_id :: "uuid option"
  au_event_type :: AuditEventType
  au_actor_type :: ActorType
  au_action :: "string option"
  au_previous_state :: "string option"
  au_new_state :: "string option"
  au_idempotency_key :: "string option"
  au_created_at :: timestamp

record db =
  db_merchants :: "Merchant list"
  db_customers :: "Customer list"
  db_payments :: "Payment list"
  db_attempts :: "PaymentAttempt list"
  db_carts :: "Cart list"
  db_subscriptions :: "Subscription list"
  db_cases :: "RecoveryCase list"
  db_actions :: "RecoveryAction list"
  db_decisions :: "RecoveryDecision list"
  db_policy_evaluations :: "PolicyEvaluation list"
  db_approvals :: "Approval list"
  db_webhooks :: "WebhookEvent list"
  db_idempotency :: "IdempotencyKey list"
  db_notifications :: "Notification list"
  db_agent_runs :: "AgentRun list"
  db_tool_calls :: "ToolCall list"
  db_predictions :: "ModelPrediction list"
  db_audit :: "AuditEvent list"
  db_clock :: timestamp
  db_next_uuid :: uuid

type_synonym 'a dbprog = "(db, 'a) prog"

end
