(* ===== verification/Config.thy ===== *)
theory Config
  imports Schema
begin

text \<open>
  \<^verbatim>\<open>recoverai_domain/recovery_config.py\<close>: the recovery and policy settings, read from the
  environment and overridden by a merchant's stored settings. The conversions of Python the
  code applies to untyped values (\<^verbatim>\<open>int\<close>, \<^verbatim>\<open>Decimal\<close>, \<^verbatim>\<open>bool\<close>-like strings) are written out,
  with the exceptions they raise. Non-finite decimals (\<^verbatim>\<open>NaN\<close>, \<^verbatim>\<open>Infinity\<close>) are outside the
  model: \<open>py_decimal\<close> raises on them.
\<close>

subsection \<open>Conversions of the standard library\<close>

definition is_digit :: "char \<Rightarrow> bool" where
  "is_digit c = (let n = of_char c :: nat in 48 \<le> n \<and> n \<le> 57)"

definition digit_val :: "char \<Rightarrow> int" where
  "digit_val c = int (of_char c) - 48"

fun digits_from :: "int \<Rightarrow> string \<Rightarrow> int option" where
  "digits_from acc [] = Some acc"
| "digits_from acc (c # cs) =
     (if is_digit c then digits_from (acc * 10 + digit_val c) cs
      else if c = CHR ''_'' then
        (case cs of [] \<Rightarrow> None
         | d # ds \<Rightarrow> if is_digit d then digits_from (acc * 10 + digit_val d) ds else None)
      else None)"

definition unsigned_int :: "string \<Rightarrow> int option" where
  "unsigned_int s = (case s of [] \<Rightarrow> None
     | c # cs \<Rightarrow> if is_digit c then digits_from (digit_val c) cs else None)"

definition with_sign :: "(string \<Rightarrow> 'a option) \<Rightarrow> ('a \<Rightarrow> 'a) \<Rightarrow> string \<Rightarrow> 'a option" where
  "with_sign p neg s = (case s of [] \<Rightarrow> p []
     | c # cs \<Rightarrow> if c = CHR ''-'' then map_option neg (p cs)
                else if c = CHR ''+'' then p cs else p s)"

definition py_int :: "string \<Rightarrow> int res" where
  "py_int s = (case with_sign unsigned_int uminus (strip s) of
     None \<Rightarrow> Inl ValueError | Some n \<Rightarrow> Inr n)"

definition exponent_part :: "string \<Rightarrow> int option" where
  "exponent_part s = (case s of [] \<Rightarrow> Some 0
     | c # cs \<Rightarrow> if c = CHR ''e'' \<or> c = CHR ''E''
                then with_sign (\<lambda>t. if t \<noteq> [] \<and> list_all is_digit t
                                    then Some (foldl (\<lambda>a d. a * 10 + digit_val d) 0 t) else None)
                       uminus cs
                else None)"

definition scale10 :: "rat \<Rightarrow> int \<Rightarrow> rat" where
  "scale10 x e = (if 0 \<le> e then x * 10 ^ nat e else x / 10 ^ nat (- e))"

definition unsigned_decimal :: "string \<Rightarrow> rat option" where
  "unsigned_decimal s =
     (let whole = takeWhile is_digit s; rest = dropWhile is_digit s;
          (frac, rest') = (case rest of
             [] \<Rightarrow> ([], [])
           | c # cs \<Rightarrow> if c = CHR ''.'' then (takeWhile is_digit cs, dropWhile is_digit cs)
                      else ([], rest));
          mantissa = foldl (\<lambda>a d. a * 10 + digit_val d) 0 (whole @ frac)
      in if whole = [] \<and> frac = [] then None
         else case exponent_part rest' of None \<Rightarrow> None
              | Some e \<Rightarrow> Some (scale10 (of_int mantissa) (e - int (length frac))))"

definition py_decimal :: "string \<Rightarrow> rat res" where
  "py_decimal s =
     (case with_sign unsigned_decimal uminus (filter (\<lambda>c. c \<noteq> CHR ''_'') (strip s)) of
        None \<Rightarrow> Inl InvalidOperation | Some x \<Rightarrow> Inr x)"

definition trueish :: "string \<Rightarrow> bool" where
  "trueish s \<longleftrightarrow> lower (strip s) \<in> {''1'', ''true'', ''yes'', ''on''}"

fun show_nat :: "nat \<Rightarrow> string" where
  "show_nat n = (if n < 10 then [char_of (48 + n)] else show_nat (n div 10) @ [char_of (48 + n mod 10)])"

declare show_nat.simps [simp del]

definition show_int :: "int \<Rightarrow> string" where
  "show_int i = (if i < 0 then CHR ''-'' # show_nat (nat (- i)) else show_nat (nat i))"

text \<open>\<^verbatim>\<open>str(uuid)\<close>: 32 hexadecimal digits in groups of 8, 4, 4, 4 and 12.\<close>

definition hex_digit :: "nat \<Rightarrow> char" where
  "hex_digit d = (if d < 10 then char_of (48 + d) else char_of (87 + d))"

fun hex_fixed :: "nat \<Rightarrow> nat \<Rightarrow> string" where
  "hex_fixed 0 n = []"
| "hex_fixed (Suc k) n = hex_fixed k (n div 16) @ [hex_digit (n mod 16)]"

definition str_uuid :: "uuid \<Rightarrow> string" where
  "str_uuid n = (let h = hex_fixed 32 n in
     take 8 h @ ''-'' @ take 4 (drop 8 h) @ ''-'' @ take 4 (drop 12 h) @ ''-''
     @ take 4 (drop 16 h) @ ''-'' @ drop 20 h)"

lemma length_hex_fixed [simp]: "length (hex_fixed k n) = k"
  by (induction k n rule: hex_fixed.induct) simp_all

lemma hex_digit_inj: "a < 16 \<Longrightarrow> b < 16 \<Longrightarrow> hex_digit a = hex_digit b \<Longrightarrow> a = b"
  by (auto simp: hex_digit_def char_of_eq_iff take_bit_eq_mod split: if_splits)

lemma hex_fixed_inj: "n < 16 ^ k \<Longrightarrow> m < 16 ^ k \<Longrightarrow> hex_fixed k n = hex_fixed k m \<Longrightarrow> n = m"
proof (induction k arbitrary: n m)
  case (Suc k)
  then have "n div 16 = m div 16" and "n mod 16 = m mod 16"
    by (auto simp: less_mult_imp_div_less mult.commute intro: hex_digit_inj)
  then show ?case by (metis div_mult_mod_eq)
qed simp

lemma str_uuid_inj:
  assumes "n < 16 ^ 32" "m < 16 ^ 32" "str_uuid n = str_uuid m"
  shows "n = m"
proof -
  have join: "take k (drop i h) @ drop (k + i) h = drop i h" for k i and h :: string
    by (metis append_take_drop_id drop_drop)
  have split: "h = take 8 h @ take 4 (drop 8 h) @ take 4 (drop 12 h) @ take 4 (drop 16 h) @ drop 20 h"
    for h :: string
    using join [of 8 0 h] join [of 4 8 h] join [of 4 12 h] join [of 4 16 h] by simp
  from assms(3) have "take 8 (hex_fixed 32 n) = take 8 (hex_fixed 32 m)"
    "take 4 (drop 8 (hex_fixed 32 n)) = take 4 (drop 8 (hex_fixed 32 m))"
    "take 4 (drop 12 (hex_fixed 32 n)) = take 4 (drop 12 (hex_fixed 32 m))"
    "take 4 (drop 16 (hex_fixed 32 n)) = take 4 (drop 16 (hex_fixed 32 m))"
    "drop 20 (hex_fixed 32 n) = drop 20 (hex_fixed 32 m)"
    by (auto simp: str_uuid_def Let_def append_eq_append_conv)
  then have "hex_fixed 32 n = hex_fixed 32 m"
    by (subst split [of "hex_fixed 32 n"], subst split [of "hex_fixed 32 m"]) simp
  with assms(1,2) show ?thesis by (rule hex_fixed_inj)
qed

text \<open>\<^verbatim>\<open>bool(value)\<close> of a JSON value.\<close>

fun truthy :: "json \<Rightarrow> bool" where
  "truthy JNull = False"
| "truthy (JBool b) = b"
| "truthy (JInt i) = (i \<noteq> 0)"
| "truthy (JFloat r) = (r \<noteq> 0)"
| "truthy (JStr s) = (s \<noteq> [])"
| "truthy (JList xs) = (xs \<noteq> [])"
| "truthy (JObj d) = (d \<noteq> [])"
| "truthy _ = True"

text \<open>\<^verbatim>\<open>int(value)\<close> and \<^verbatim>\<open>Decimal(str(value))\<close> of a stored JSON value.\<close>

fun json_int :: "json \<Rightarrow> int res" where
  "json_int (JInt i) = Inr i"
| "json_int (JBool b) = Inr (if b then 1 else 0)"
| "json_int (JFloat r) = Inr (if 0 \<le> r then \<lfloor>r\<rfloor> else - \<lfloor>- r\<rfloor>)"
| "json_int (JStr s) = py_int s"
| "json_int JNull = Inl TypeError"
| "json_int (JList _) = Inl TypeError"
| "json_int (JObj _) = Inl TypeError"
| "json_int _ = Inl ValueError"

fun json_decimal :: "json \<Rightarrow> rat res" where
  "json_decimal (JInt i) = Inr (of_int i)"
| "json_decimal (JFloat r) = Inr r"
| "json_decimal (JDec r) = Inr r"
| "json_decimal (JStr s) = py_decimal s"
| "json_decimal _ = Inl InvalidOperation"

text \<open>The value, when it is not already a boolean, printed and compared with the true words.\<close>

fun json_flag :: "json \<Rightarrow> bool" where
  "json_flag (JBool b) = b"
| "json_flag (JInt i) = (i = 1)"
| "json_flag (JStr s) = trueish s"
| "json_flag _ = False"

subsection \<open>Settings\<close>

definition POLICY_VERSION :: string where
  "POLICY_VERSION = ''policy-v1''"

record RecoverySettings =
  recovery_window_hours :: int
  recovery_ordering_grace_minutes :: int
  high_value_approval_threshold :: rat
  medium_value_approval_threshold :: rat
  max_retry_attempts :: int
  max_discount_percent :: rat
  max_daily_discount_budget :: rat
  max_communications_per_day :: int
  quiet_hours_start :: int
  quiet_hours_end :: int
  automatic_recovery_enabled :: bool
  approval_ttl_minutes :: int
  policy_version :: string

definition default_settings :: RecoverySettings where
  "default_settings =
     \<lparr>recovery_window_hours = 72, recovery_ordering_grace_minutes = 60,
      high_value_approval_threshold = 25000, medium_value_approval_threshold = 5000,
      max_retry_attempts = 3, max_discount_percent = 10, max_daily_discount_budget = 5000,
      max_communications_per_day = 3, quiet_hours_start = 21, quiet_hours_end = 8,
      automatic_recovery_enabled = True, approval_ttl_minutes = 60,
      policy_version = POLICY_VERSION\<rparr>"

text \<open>The environment is a partial map from variable names to strings.\<close>

type_synonym environ = "string \<rightharpoonup> string"

definition env_or :: "(string \<Rightarrow> 'a res) \<Rightarrow> environ \<Rightarrow> string \<Rightarrow> 'a \<Rightarrow> 'a res" where
  "env_or conv env name d = (case env name of
     None \<Rightarrow> Inr d
   | Some raw \<Rightarrow> if strip raw = [] then Inr d else conv raw)"

definition int_env :: "environ \<Rightarrow> string \<Rightarrow> int \<Rightarrow> int res" where
  "int_env = env_or py_int"

definition decimal_env :: "environ \<Rightarrow> string \<Rightarrow> rat \<Rightarrow> rat res" where
  "decimal_env = env_or py_decimal"

definition bool_env :: "environ \<Rightarrow> string \<Rightarrow> bool \<Rightarrow> bool res" where
  "bool_env = env_or (\<lambda>raw. Inr (trueish raw))"

definition settings_from_env :: "environ \<Rightarrow> RecoverySettings res" where
  "settings_from_env env =
     bindE (int_env env ''RECOVERY_WINDOW_HOURS'' 72) (\<lambda>window.
     bindE (int_env env ''RECOVERY_ORDERING_GRACE_MINUTES'' 60) (\<lambda>grace.
     bindE (decimal_env env ''HIGH_VALUE_APPROVAL_THRESHOLD'' 25000) (\<lambda>high.
     bindE (decimal_env env ''MEDIUM_VALUE_APPROVAL_THRESHOLD'' 5000) (\<lambda>medium.
     bindE (int_env env ''MAX_RETRY_ATTEMPTS'' 3) (\<lambda>retries.
     bindE (decimal_env env ''MAX_DISCOUNT_PERCENT'' 10) (\<lambda>percent.
     bindE (decimal_env env ''MAX_DAILY_DISCOUNT_BUDGET'' 5000) (\<lambda>budget.
     bindE (int_env env ''MAX_COMMUNICATIONS_PER_DAY'' 3) (\<lambda>comms.
     bindE (int_env env ''QUIET_HOURS_START'' 21) (\<lambda>qs.
     bindE (int_env env ''QUIET_HOURS_END'' 8) (\<lambda>qe.
     bindE (bool_env env ''AUTOMATIC_RECOVERY_ENABLED'' True) (\<lambda>auto.
     bindE (int_env env ''APPROVAL_TTL_MINUTES'' 60) (\<lambda>ttl.
     Inr \<lparr>recovery_window_hours = window, recovery_ordering_grace_minutes = grace,
          high_value_approval_threshold = high, medium_value_approval_threshold = medium,
          max_retry_attempts = retries, max_discount_percent = percent,
          max_daily_discount_budget = budget, max_communications_per_day = comms,
          quiet_hours_start = qs, quiet_hours_end = qe, automatic_recovery_enabled = auto,
          approval_ttl_minutes = ttl,
          policy_version = (case env ''POLICY_VERSION'' of
             None \<Rightarrow> POLICY_VERSION | Some v \<Rightarrow> if v = [] then POLICY_VERSION else v)\<rparr>))))))))))))"

definition policy_section :: "dict option \<Rightarrow> dict" where
  "policy_section settings = (case settings of
     None \<Rightarrow> []
   | Some d \<Rightarrow> if d = [] then [] else
       (case dict_get d ''policy'' of JObj nested \<Rightarrow> nested | _ \<Rightarrow> d))"

definition value_or :: "(json \<Rightarrow> 'a res) \<Rightarrow> dict \<Rightarrow> string \<Rightarrow> 'a \<Rightarrow> 'a res" where
  "value_or conv d k v =
     (let raw = dict_get d k in if raw = JNull \<or> raw = JStr [] then Inr v else conv raw)"

definition int_value :: "dict \<Rightarrow> string \<Rightarrow> int \<Rightarrow> int res" where
  "int_value = value_or json_int"

definition decimal_value :: "dict \<Rightarrow> string \<Rightarrow> rat \<Rightarrow> rat res" where
  "decimal_value = value_or json_decimal"

definition bool_value :: "dict \<Rightarrow> string \<Rightarrow> bool \<Rightarrow> bool res" where
  "bool_value = value_or (\<lambda>raw. Inr (json_flag raw))"

text \<open>\<^verbatim>\<open>str(x or default)\<close> for the version label, which is stored as a string or an integer. The printed form
  of a float, a list or a dictionary is not modelled: such a label counts as missing.\<close>

definition version_value :: "dict \<Rightarrow> string \<Rightarrow> string \<Rightarrow> string" where
  "version_value d k v = (case dict_get d k of
     JStr s \<Rightarrow> if s = [] then v else s
   | JInt i \<Rightarrow> if i = 0 then v else show_int i
   | JBool b \<Rightarrow> if b then ''True'' else v
   | _ \<Rightarrow> v)"

definition merge_merchant :: "RecoverySettings \<Rightarrow> dict option \<Rightarrow> RecoverySettings res" where
  "merge_merchant self settings =
     (let policy = policy_section settings in
      if policy = [] then Inr self else
     bindE (int_value policy ''recovery_window_hours'' (recovery_window_hours self)) (\<lambda>window.
     bindE (int_value policy ''recovery_ordering_grace_minutes''
              (recovery_ordering_grace_minutes self)) (\<lambda>grace.
     bindE (decimal_value policy ''high_value_approval_threshold''
              (high_value_approval_threshold self)) (\<lambda>high.
     bindE (decimal_value policy ''medium_value_approval_threshold''
              (medium_value_approval_threshold self)) (\<lambda>medium.
     bindE (int_value policy ''max_retry_attempts'' (max_retry_attempts self)) (\<lambda>retries.
     bindE (decimal_value policy ''max_discount_percent'' (max_discount_percent self)) (\<lambda>percent.
     bindE (decimal_value policy ''max_daily_discount_budget''
              (max_daily_discount_budget self)) (\<lambda>budget.
     bindE (int_value policy ''max_communications_per_day''
              (max_communications_per_day self)) (\<lambda>comms.
     bindE (int_value policy ''quiet_hours_start'' (quiet_hours_start self)) (\<lambda>qs.
     bindE (int_value policy ''quiet_hours_end'' (quiet_hours_end self)) (\<lambda>qe.
     bindE (bool_value policy ''automatic_recovery_enabled''
              (automatic_recovery_enabled self)) (\<lambda>auto.
     bindE (int_value policy ''approval_ttl_minutes'' (approval_ttl_minutes self)) (\<lambda>ttl.
     Inr \<lparr>recovery_window_hours = window, recovery_ordering_grace_minutes = grace,
          high_value_approval_threshold = high, medium_value_approval_threshold = medium,
          max_retry_attempts = retries, max_discount_percent = percent,
          max_daily_discount_budget = budget, max_communications_per_day = comms,
          quiet_hours_start = qs, quiet_hours_end = qe, automatic_recovery_enabled = auto,
          approval_ttl_minutes = ttl,
          policy_version = version_value policy ''policy_version'' (policy_version self)\<rparr>)))))))))))))"

subsection \<open>Inheritance of settings\<close>

lemma value_or_absent: "dict_get d k = JNull \<Longrightarrow> value_or conv d k v = Inr v"
  by (simp add: value_or_def)

lemma env_or_unset: "env name = None \<Longrightarrow> env_or conv env name d = Inr d"
  by (simp add: env_or_def)

lemma settings_from_empty_env: "settings_from_env Map.empty = Inr default_settings"
  by (simp add: settings_from_env_def int_env_def decimal_env_def bool_env_def env_or_unset
      default_settings_def)

lemma merge_merchant_none: "merge_merchant self None = Inr self"
  by (simp add: merge_merchant_def policy_section_def)

text \<open>A flat settings dictionary and one nested under \<open>policy\<close> mean the same.\<close>

lemma merge_merchant_nested:
  assumes "dict_get d ''policy'' = JNull"
  shows "merge_merchant self (Some [(''policy'', JObj d)]) = merge_merchant self (Some d)"
  using assms by (cases "d = []") (auto simp: merge_merchant_def policy_section_def dict_get_def)

lemma merge_merchant_fields:
  assumes "merge_merchant self settings = Inr out"
  defines "p \<equiv> policy_section settings"
  shows "int_value p ''max_retry_attempts'' (max_retry_attempts self) = Inr (max_retry_attempts out)"
    and "decimal_value p ''max_discount_percent'' (max_discount_percent self)
           = Inr (max_discount_percent out)"
    and "decimal_value p ''high_value_approval_threshold'' (high_value_approval_threshold self)
           = Inr (high_value_approval_threshold out)"
    and "bool_value p ''automatic_recovery_enabled'' (automatic_recovery_enabled self)
           = Inr (automatic_recovery_enabled out)"
proof -
  have "int_value p ''max_retry_attempts'' (max_retry_attempts self) = Inr (max_retry_attempts out)
    \<and> decimal_value p ''max_discount_percent'' (max_discount_percent self)
        = Inr (max_discount_percent out)
    \<and> decimal_value p ''high_value_approval_threshold'' (high_value_approval_threshold self)
        = Inr (high_value_approval_threshold out)
    \<and> bool_value p ''automatic_recovery_enabled'' (automatic_recovery_enabled self)
        = Inr (automatic_recovery_enabled out)"
  proof (cases "p = []")
    case True
    with assms(1) have "out = self"
      by (simp add: merge_merchant_def p_def)
    with True show ?thesis
      by (simp add: int_value_def decimal_value_def bool_value_def value_or_def dict_get_def)
  next
    case False
    with assms(1) show ?thesis
      by (simp add: merge_merchant_def flip: p_def) (clarsimp simp: bindE_Inr_iff)
  qed
  then show "int_value p ''max_retry_attempts'' (max_retry_attempts self)
        = Inr (max_retry_attempts out)"
    and "decimal_value p ''max_discount_percent'' (max_discount_percent self)
        = Inr (max_discount_percent out)"
    and "decimal_value p ''high_value_approval_threshold'' (high_value_approval_threshold self)
        = Inr (high_value_approval_threshold out)"
    and "bool_value p ''automatic_recovery_enabled'' (automatic_recovery_enabled self)
        = Inr (automatic_recovery_enabled out)"
    by blast+
qed

end
