(* ===== verification/Repository.thy ===== *)
theory Repository
  imports Schema
begin

text \<open>
  Session primitives and the repositories: reading and writing rows, the audit log, and the
  two ways a recovery case may evolve that the later theories prove of every operation.
  \<open>case_lifecycle\<close> is what any operation may do to a case row, \<open>case_no_credit\<close> what an
  operation may do that is not allowed to touch recovered revenue. Both relate rows, are
  reflexive and transitive, and are lifted to databases together with the append-only audit
  log; the locale \<open>case_evolution\<close> gives the composition rules for both.
\<close>

subsection \<open>Session primitives\<close>

definition now :: "timestamp dbprog" where
  "now = gets db_clock"

definition uuid4 :: "uuid dbprog" where
  "uuid4 = (\<lambda>s. (Inr (db_next_uuid s), s\<lparr>db_next_uuid := Suc (db_next_uuid s)\<rparr>))"

definition get_case_unscoped :: "db \<Rightarrow> uuid \<Rightarrow> RecoveryCase option" where
  "get_case_unscoped s i = find_row rc_id i (db_cases s)"

definition session_get_payment :: "db \<Rightarrow> uuid \<Rightarrow> Payment option" where
  "session_get_payment s i = find_row pay_id i (db_payments s)"

definition session_get_action :: "db \<Rightarrow> uuid \<Rightarrow> RecoveryAction option" where
  "session_get_action s i = find_row ra_id i (db_actions s)"

definition session_get_approval :: "db \<Rightarrow> uuid \<Rightarrow> Approval option" where
  "session_get_approval s i = find_row ap_id i (db_approvals s)"

definition session_get_customer :: "db \<Rightarrow> uuid \<Rightarrow> Customer option" where
  "session_get_customer s i = find_row cust_id i (db_customers s)"

definition get_merchant :: "db \<Rightarrow> uuid \<Rightarrow> Merchant option" where
  "get_merchant s i = find_row mer_id i (db_merchants s)"

definition get_webhook :: "db \<Rightarrow> uuid \<Rightarrow> WebhookEvent option" where
  "get_webhook s i = find_row wh_id i (db_webhooks s)"

text \<open>Reading an attribute of an ORM object whose row is known by its key.\<close>

definition deref :: "(db \<Rightarrow> uuid \<Rightarrow> 'r option) \<Rightarrow> uuid \<Rightarrow> 'r dbprog" where
  "deref get i = (\<lambda>s. case get s i of None \<Rightarrow> (Inl ObjectDeletedError, s) | Some r \<Rightarrow> (Inr r, s))"

abbreviation read_case :: "uuid \<Rightarrow> RecoveryCase dbprog" where
  "read_case \<equiv> deref get_case_unscoped"

definition update_case :: "uuid \<Rightarrow> (RecoveryCase \<Rightarrow> RecoveryCase) \<Rightarrow> unit dbprog" where
  "update_case i f = modify (\<lambda>s. s\<lparr>db_cases := update_row rc_id i f (db_cases s)\<rparr>)"

definition update_payment :: "uuid \<Rightarrow> (Payment \<Rightarrow> Payment) \<Rightarrow> unit dbprog" where
  "update_payment i f = modify (\<lambda>s. s\<lparr>db_payments := update_row pay_id i f (db_payments s)\<rparr>)"

definition update_action :: "uuid \<Rightarrow> (RecoveryAction \<Rightarrow> RecoveryAction) \<Rightarrow> unit dbprog" where
  "update_action i f = modify (\<lambda>s. s\<lparr>db_actions := update_row ra_id i f (db_actions s)\<rparr>)"

definition update_approval :: "uuid \<Rightarrow> (Approval \<Rightarrow> Approval) \<Rightarrow> unit dbprog" where
  "update_approval i f = modify (\<lambda>s. s\<lparr>db_approvals := update_row ap_id i f (db_approvals s)\<rparr>)"

definition update_webhook :: "uuid \<Rightarrow> (WebhookEvent \<Rightarrow> WebhookEvent) \<Rightarrow> unit dbprog" where
  "update_webhook i f = modify (\<lambda>s. s\<lparr>db_webhooks := update_row wh_id i f (db_webhooks s)\<rparr>)"

subsection \<open>Repositories\<close>

definition get_customer :: "db \<Rightarrow> uuid \<Rightarrow> uuid \<Rightarrow> Customer option" where
  "get_customer s m i = find (\<lambda>c. cust_merchant_id c = m \<and> cust_id c = i) (db_customers s)"

definition get_by_external_id :: "db \<Rightarrow> uuid \<Rightarrow> string \<Rightarrow> Customer option" where
  "get_by_external_id s m x =
     find (\<lambda>c. cust_merchant_id c = m \<and> cust_external_id c = Some x) (db_customers s)"

definition get_payment :: "db \<Rightarrow> uuid \<Rightarrow> uuid \<Rightarrow> Payment option" where
  "get_payment s m i = find (\<lambda>p. pay_merchant_id p = m \<and> pay_id p = i) (db_payments s)"

definition get_by_provider_payment_id :: "db \<Rightarrow> uuid \<Rightarrow> string \<Rightarrow> string \<Rightarrow> Payment option" where
  "get_by_provider_payment_id s m prov ppid =
     find (\<lambda>p. pay_merchant_id p = m \<and> pay_provider p = prov
               \<and> pay_provider_payment_id p = Some ppid) (db_payments s)"

definition next_attempt_number :: "db \<Rightarrow> uuid \<Rightarrow> int" where
  "next_attempt_number s pid =
     (case map att_attempt_number (filter (\<lambda>a. att_payment_id a = pid) (db_attempts s)) of
        [] \<Rightarrow> 1 | n # ns \<Rightarrow> fold max ns n + 1)"

definition list_open_for_payment :: "db \<Rightarrow> uuid \<Rightarrow> uuid \<Rightarrow> RecoveryCase list" where
  "list_open_for_payment s m pid =
     filter (\<lambda>c. rc_merchant_id c = m \<and> rc_payment_id c = Some pid \<and> rc_closed_at c = None)
       (db_cases s)"

definition list_open_for_customer :: "db \<Rightarrow> uuid \<Rightarrow> uuid \<Rightarrow> RecoveryCase list" where
  "list_open_for_customer s m cid =
     filter (\<lambda>c. rc_merchant_id c = m \<and> rc_customer_id c = cid \<and> rc_closed_at c = None)
       (db_cases s)"

definition list_that_counted_payment :: "db \<Rightarrow> uuid \<Rightarrow> uuid \<Rightarrow> RecoveryCase list" where
  "list_that_counted_payment s m pid =
     filter (\<lambda>c. rc_merchant_id c = m \<and> rc_verified_payment_id c = Some pid
                 \<and> rc_amount_recovered c > 0) (db_cases s)"

definition get_by_provider_event_id :: "db \<Rightarrow> string \<Rightarrow> string \<Rightarrow> WebhookEvent option" where
  "get_by_provider_event_id s prov eid =
     find (\<lambda>w. wh_provider w = prov \<and> wh_event_id w = eid) (db_webhooks s)"

definition action_by_key :: "db \<Rightarrow> uuid \<Rightarrow> string \<Rightarrow> RecoveryAction option" where
  "action_by_key s m k =
     find (\<lambda>a. ra_merchant_id a = m \<and> ra_idempotency_key a = k) (db_actions s)"

subsection \<open>The audit log\<close>

definition record_audit ::
  "uuid \<Rightarrow> AuditEventType \<Rightarrow> uuid option \<Rightarrow> ActorType \<Rightarrow> string option \<Rightarrow>
   string option \<Rightarrow> string option \<Rightarrow> string option \<Rightarrow> unit dbprog" where
  "record_audit merchant event_type case_id actor action previous_state new_state key =
     modify (\<lambda>s. s\<lparr>db_audit := db_audit s @
       [\<lparr>au_merchant_id = merchant, au_case_id = case_id, au_event_type = event_type,
         au_actor_type = actor, au_action = action, au_previous_state = previous_state,
         au_new_state = new_state, au_idempotency_key = key, au_created_at = db_clock s\<rparr>]\<rparr>)"

subsection \<open>How a case may evolve\<close>

locale case_evolution =
  fixes K :: "RecoveryCase \<Rightarrow> RecoveryCase \<Rightarrow> bool"
  assumes K_refl: "K c c"
    and K_trans: "K c d \<Longrightarrow> K d e \<Longrightarrow> K c e"

text \<open>Every case is born detected, at version one, with nothing recovered and nothing verified.\<close>

definition fresh_case :: "RecoveryCase \<Rightarrow> bool" where
  "fresh_case c \<longleftrightarrow>
     rc_status c = Case_DETECTED \<and> rc_version c = 1 \<and> rc_amount_recovered c = 0
     \<and> rc_verified_payment_id c = None \<and> rc_verified_webhook_event_id c = None
     \<and> rc_last_mismatch_reason c = None"

definition db_evolves ::
  "(RecoveryCase \<Rightarrow> RecoveryCase \<Rightarrow> bool) \<Rightarrow> db \<Rightarrow> db \<Rightarrow> bool" where
  "db_evolves K s t \<longleftrightarrow>
     prefix (db_audit s) (db_audit t) \<and>
     (\<forall>i c. get_case_unscoped s i = Some c \<longrightarrow>
        (\<exists>d. get_case_unscoped t i = Some d \<and> K c d)) \<and>
     (\<forall>i d. get_case_unscoped s i = None \<longrightarrow> get_case_unscoped t i = Some d \<longrightarrow>
        (\<exists>c. fresh_case c \<and> K c d))"

lemma db_evolves_born:
  assumes "db_evolves K s t" and "get_case_unscoped t i = Some d"
  obtains (old) c where "get_case_unscoped s i = Some c" "K c d"
    | (born) c where "get_case_unscoped s i = None" "fresh_case c" "K c d"
proof (cases "get_case_unscoped s i")
  case None
  with assms have "\<exists>c. fresh_case c \<and> K c d" unfolding db_evolves_def by blast
  with None born show ?thesis by blast
next
  case (Some c)
  with assms have "\<exists>e. get_case_unscoped t i = Some e \<and> K c e" unfolding db_evolves_def by blast
  with Some assms(2) old show ?thesis by auto
qed

lemma db_evolvesD:
  assumes "db_evolves K s t" and "get_case_unscoped s i = Some c"
  obtains d where "get_case_unscoped t i = Some d" "K c d"
  using assms unfolding db_evolves_def by blast

lemma db_evolves_audit: "db_evolves K s t \<Longrightarrow> prefix (db_audit s) (db_audit t)"
  by (simp add: db_evolves_def)

lemma db_evolves_mono:
  "db_evolves K s t \<Longrightarrow> (\<And>c d. K c d \<Longrightarrow> L c d) \<Longrightarrow> db_evolves L s t"
  unfolding db_evolves_def by blast

sublocale case_evolution \<subseteq> step_frame "db_evolves K"
proof
  show "db_evolves K s s" for s
    by (auto simp: db_evolves_def K_refl)
  show "db_evolves K s u" if "db_evolves K s t" "db_evolves K t u" for s t u
  proof -
    have "\<exists>c. fresh_case c \<and> K c e"
      if "get_case_unscoped s i = None" "get_case_unscoped u i = Some e" for i e
      using \<open>db_evolves K t u\<close> that(2)
    proof (cases rule: db_evolves_born)
      case (old d)
      with \<open>db_evolves K s t\<close> that(1) show ?thesis
        unfolding db_evolves_def by (meson K_trans)
    qed blast
    with that show ?thesis
      unfolding db_evolves_def by (meson K_trans prefix_order.trans)
  qed
qed

context case_evolution
begin

lemma obeys_modify:
  "(\<And>s. db_cases (g s) = db_cases s \<and> db_audit (g s) = db_audit s) \<Longrightarrow>
   obeys (db_evolves K) (modify g)"
  by (auto simp: obeys_def modify_def db_evolves_def get_case_unscoped_def K_refl)

lemma obeys_uuid4: "obeys (db_evolves K) uuid4"
  by (auto simp: obeys_def uuid4_def db_evolves_def get_case_unscoped_def K_refl)

lemma obeys_now: "obeys (db_evolves K) now"
  by (simp add: now_def obeys_gets)

lemma obeys_deref: "obeys (db_evolves K) (deref g i)"
  by (auto simp: obeys_def deref_def frame_refl split: option.splits)

lemma obeys_record_audit: "obeys (db_evolves K) (record_audit m e c a act p n k)"
  by (auto simp: obeys_def record_audit_def modify_def db_evolves_def get_case_unscoped_def K_refl)

lemma obeys_update_rows:
  "obeys (db_evolves K) (update_payment i f)"
  "obeys (db_evolves K) (update_action i g)"
  "obeys (db_evolves K) (update_approval i h)"
  "obeys (db_evolves K) (update_webhook i k)"
  by (simp_all add: update_payment_def update_action_def update_approval_def update_webhook_def
      obeys_modify)

lemma obeys_update_case:
  assumes "\<And>c. rc_id (f c) = rc_id c" and "\<And>c. K c (f c)"
  shows "obeys (db_evolves K) (update_case i f)"
proof -
  have "find_row rc_id j (update_row rc_id i f rows) =
     (if j = i then map_option f (find_row rc_id j rows) else find_row rc_id j rows)" for j rows
    by (rule keyed_update.find_update_row) (unfold_locales, rule assms(1))
  then show ?thesis
    by (auto simp: obeys_def update_case_def modify_def db_evolves_def get_case_unscoped_def
        K_refl assms(2))
qed

lemma obeys_insert_case:
  assumes "\<And>s. fresh_case (r s)"
  shows "obeys (db_evolves K) (modify (\<lambda>s. s\<lparr>db_cases := db_cases s @ [r s]\<rparr>))"
proof -
  have "\<exists>c. fresh_case c \<and> K c (r s)" for s
    using assms K_refl by blast
  then show ?thesis
    by (auto simp: obeys_def modify_def db_evolves_def get_case_unscoped_def find_row_append K_refl
        split: option.splits if_splits)
qed

lemmas evolution_rules =
  obeys_ret obeys_raise obeys_gets obeys_lift obeys_bind obeys_seqp obeys_catch
  obeys_unless obeys_for_each obeys_if obeys_case_option obeys_case_list obeys_case_prod obeys_let
  obeys_uuid4 obeys_now obeys_deref obeys_record_audit obeys_update_rows

end

subsection \<open>A small database to evaluate on\<close>

definition demo_merchant :: Merchant where
  "demo_merchant = \<lparr>mer_id = 1, mer_slug = ''recoverai-demo'', mer_settings = None\<rparr>"

definition demo_customer :: Customer where
  "demo_customer = \<lparr>cust_id = 2, cust_merchant_id = 1, cust_external_id = Some ''cust_1'',
     cust_email = None, cust_lifetime_value = 12000, cust_metadata = None\<rparr>"

definition demo_payment :: Payment where
  "demo_payment = \<lparr>pay_id = 3, pay_merchant_id = 1, pay_customer_id = 2,
     pay_provider = ''SIMULATOR'', pay_provider_payment_id = Some ''pay_1'',
     pay_provider_order_id = Some ''order_1'', pay_provider_payment_link_id = None,
     pay_amount = 4000, pay_provider_amount_minor = Some 400000, pay_currency = ''INR'',
     pay_status = Pay_FAILED, pay_payment_method = Some ''card'',
     pay_failure_reason = Some ''TEMPORARY_BANK_ERROR'',
     pay_failure_code = Some ''TEMPORARY_BANK_ERROR'', pay_captured_at = None,
     pay_failed_at = Some 0\<rparr>"

definition demo_case :: RecoveryCase where
  "demo_case = \<lparr>rc_id = 4, rc_merchant_id = 1, rc_customer_id = 2, rc_payment_id = Some 3,
     rc_cart_id = None, rc_subscription_id = None, rc_case_type = FAILED_PAYMENT,
     rc_status = Case_DETECTED, rc_amount_at_risk = 4000, rc_amount_recovered = 0,
     rc_currency = ''INR'', rc_priority = 0, rc_source_event_id = None, rc_version = 1, rc_opened_at = 0,
     rc_closed_at = None, rc_last_mismatch_reason = None, rc_verified_payment_id = None,
     rc_verified_webhook_event_id = None, rc_created_at = 0\<rparr>"

definition demo_db :: db where
  "demo_db = \<lparr>db_merchants = [demo_merchant], db_customers = [demo_customer],
     db_payments = [demo_payment], db_attempts = [], db_carts = [], db_subscriptions = [],
     db_cases = [demo_case], db_actions = [], db_decisions = [], db_policy_evaluations = [],
     db_approvals = [], db_webhooks = [], db_idempotency = [], db_notifications = [],
     db_agent_runs = [], db_tool_calls = [], db_predictions = [], db_audit = [], db_clock = 43200000000, db_next_uuid = 100\<rparr>"

lemmas demo_defs = demo_merchant_def demo_customer_def demo_payment_def demo_case_def demo_db_def

lemma demo_db_case [simp]: "get_case_unscoped demo_db 4 = Some demo_case"
  by (simp add: get_case_unscoped_def find_row_def demo_db_def demo_case_def)

end
