(* ===== verification/StateMachine.thy ===== *)
theory StateMachine
  imports Repository
begin

text \<open>
  The case lifecycle: \<^verbatim>\<open>recoverai_domain/state_machine.py\<close> (the legal transitions) and
  \<^verbatim>\<open>recoverai_domain/transitions.py\<close> (locking a case, moving it, auditing the move). The
  lemmas give the shape of the transition graph, the exact effect of \<open>transition_case\<close> on
  every branch, and instantiate the evolution contracts of the repository layer.
\<close>

subsection \<open>The transition graph\<close>

definition LEGAL_TRANSITIONS :: "(RecoveryCaseStatus \<times> RecoveryCaseStatus) set" where
  "LEGAL_TRANSITIONS = {
     (Case_DETECTED, Case_TRIAGED),
     (Case_TRIAGED, Case_INVESTIGATING),
     (Case_TRIAGED, Case_SCORING),
     (Case_INVESTIGATING, Case_DIAGNOSED),
     (Case_DIAGNOSED, Case_SCORING),
     (Case_SCORING, Case_STRATEGY_SELECTED),
     (Case_STRATEGY_SELECTED, Case_POLICY_CHECK),
     (Case_POLICY_CHECK, Case_EXECUTING),
     (Case_POLICY_CHECK, Case_STOPPED),
     (Case_POLICY_CHECK, Case_ESCALATED),
     (Case_POLICY_CHECK, Case_AWAITING_APPROVAL),
     (Case_POLICY_CHECK, Case_RETRY_SCHEDULED),
     (Case_AWAITING_APPROVAL, Case_EXECUTING),
     (Case_AWAITING_APPROVAL, Case_STOPPED),
     (Case_AWAITING_APPROVAL, Case_ESCALATED),
     (Case_AWAITING_APPROVAL, Case_POLICY_CHECK),
     (Case_EXECUTING, Case_ACTION_COMPLETED),
     (Case_EXECUTING, Case_FAILED),
     (Case_ACTION_COMPLETED, Case_VERIFYING),
     (Case_VERIFYING, Case_RECOVERED),
     (Case_VERIFYING, Case_NOT_RECOVERED),
     (Case_VERIFYING, Case_RETRY_SCHEDULED),
     (Case_NOT_RECOVERED, Case_RETRY_SCHEDULED),
     (Case_NOT_RECOVERED, Case_ESCALATED),
     (Case_NOT_RECOVERED, Case_STOPPED),
     (Case_FAILED, Case_RETRY_SCHEDULED),
     (Case_FAILED, Case_ESCALATED),
     (Case_FAILED, Case_STOPPED),
     (Case_RETRY_SCHEDULED, Case_SCORING),
     (Case_ESCALATED, Case_STOPPED)}"

definition STARTING_STATUS :: RecoveryCaseStatus where
  "STARTING_STATUS = Case_DETECTED"

fun AUDIT_TYPE_FOR_TARGET :: "RecoveryCaseStatus \<Rightarrow> AuditEventType option" where
  "AUDIT_TYPE_FOR_TARGET Case_TRIAGED = Some Aud_CASE_TRIAGED"
| "AUDIT_TYPE_FOR_TARGET Case_INVESTIGATING = Some Aud_CASE_INVESTIGATING"
| "AUDIT_TYPE_FOR_TARGET Case_DIAGNOSED = Some Aud_CASE_DIAGNOSED"
| "AUDIT_TYPE_FOR_TARGET Case_SCORING = Some Aud_RECOVERY_SCORING_STARTED"
| "AUDIT_TYPE_FOR_TARGET Case_STRATEGY_SELECTED = Some Aud_RECOVERY_STRATEGY_SELECTED"
| "AUDIT_TYPE_FOR_TARGET Case_POLICY_CHECK = Some Aud_RECOVERY_POLICY_CHECKED"
| "AUDIT_TYPE_FOR_TARGET Case_AWAITING_APPROVAL = Some Aud_APPROVAL_REQUESTED"
| "AUDIT_TYPE_FOR_TARGET Case_EXECUTING = Some Aud_RECOVERY_EXECUTION_STARTED"
| "AUDIT_TYPE_FOR_TARGET Case_ACTION_COMPLETED = Some Aud_RECOVERY_ACTION_COMPLETED"
| "AUDIT_TYPE_FOR_TARGET Case_VERIFYING = Some Aud_RECOVERY_VERIFICATION_STARTED"
| "AUDIT_TYPE_FOR_TARGET Case_RECOVERED = Some Aud_RECOVERY_VERIFIED"
| "AUDIT_TYPE_FOR_TARGET Case_NOT_RECOVERED = Some Aud_RECOVERY_VERIFICATION_FAILED"
| "AUDIT_TYPE_FOR_TARGET Case_STOPPED = Some Aud_RECOVERY_CASE_STOPPED"
| "AUDIT_TYPE_FOR_TARGET Case_ESCALATED = Some Aud_RECOVERY_CASE_ESCALATED"
| "AUDIT_TYPE_FOR_TARGET Case_FAILED = Some Aud_RECOVERY_EXECUTION_STARTED"
| "AUDIT_TYPE_FOR_TARGET Case_RETRY_SCHEDULED = Some Aud_RECOVERY_VERIFICATION_FAILED"
| "AUDIT_TYPE_FOR_TARGET Case_DETECTED = None"

definition coerce_status :: "string \<Rightarrow> RecoveryCaseStatus res" where
  "coerce_status v = parse_enum case_status_value all_case_statuses v"

definition is_terminal :: "RecoveryCaseStatus \<Rightarrow> bool" where
  "is_terminal st \<longleftrightarrow> st \<in> TERMINAL_RECOVERY_STATUSES"

definition can_transition :: "RecoveryCaseStatus \<Rightarrow> RecoveryCaseStatus \<Rightarrow> bool" where
  "can_transition a b \<longleftrightarrow> (a, b) \<in> LEGAL_TRANSITIONS"

definition assert_legal_transition :: "RecoveryCaseStatus \<Rightarrow> RecoveryCaseStatus \<Rightarrow> unit res" where
  "assert_legal_transition a b =
     (if (a, b) \<notin> LEGAL_TRANSITIONS then Inl InvalidTransitionError else Inr ())"

subsection \<open>Moving a case\<close>

definition lock_recovery_case :: "uuid \<Rightarrow> uuid dbprog" where
  "lock_recovery_case i =
     bind (gets (\<lambda>s. get_case_unscoped s i)) (\<lambda>c.
       case c of
         None \<Rightarrow> raise (DomainError ''RECOVERY_CASE_NOT_FOUND'' False)
       | Some r \<Rightarrow> ret (rc_id r))"

definition transition_case ::
  "uuid \<Rightarrow> RecoveryCaseStatus \<Rightarrow> ActorType \<Rightarrow> int option \<Rightarrow> unit dbprog" where
  "transition_case i target actor expected_version =
     bind (read_case i) (\<lambda>c.
       let current = rc_status c in
       if expected_version \<noteq> None \<and> expected_version \<noteq> Some (rc_version c)
       then raise (ConcurrentCaseUpdateError i)
       else
         seqp
           (catch (lift (assert_legal_transition current target)) (\<lambda>e.
              seqp (record_audit (rc_merchant_id c) Aud_STATE_TRANSITION_REJECTED (Some i) actor
                      (Some ''reject_transition'') (Some (case_status_value current))
                      (Some (case_status_value target)) None)
                   (raise e)))
           (bind now (\<lambda>t.
              seqp (update_case i (\<lambda>r. r\<lparr>rc_status := target, rc_version := rc_version r + 1,
                      rc_closed_at := (if is_terminal target then Some t else None)\<rparr>))
                   (record_audit (rc_merchant_id c)
                      (case AUDIT_TYPE_FOR_TARGET target of
                         None \<Rightarrow> Aud_PAYMENT_UPDATED | Some a \<Rightarrow> a)
                      (Some i) actor (Some ''transition'')
                      (Some (case_status_value current)) (Some (case_status_value target)) None))))"

subsection \<open>Shape of the graph\<close>

lemma can_transition_simps [simp]:
  "can_transition a b \<Longrightarrow> \<not> is_terminal a"
  by (auto simp: can_transition_def LEGAL_TRANSITIONS_def is_terminal_def
      TERMINAL_RECOVERY_STATUSES_def)

lemma terminal_no_step: "is_terminal a \<Longrightarrow> (a, b) \<in> LEGAL_TRANSITIONS ^^ n \<Longrightarrow> n = 0 \<and> b = a"
proof (cases n)
  case (Suc k)
  assume "is_terminal a" and "(a, b) \<in> LEGAL_TRANSITIONS ^^ n"
  with Suc obtain c where "(a, c) \<in> LEGAL_TRANSITIONS"
    by (metis relpow_Suc_D2)
  with \<open>is_terminal a\<close> show ?thesis
    using can_transition_simps [of a c] by (simp add: can_transition_def)
qed simp

definition legal_path :: "RecoveryCaseStatus \<Rightarrow> RecoveryCaseStatus \<Rightarrow> bool" where
  "legal_path a b \<longleftrightarrow> (a, b) \<in> LEGAL_TRANSITIONS\<^sup>*"

lemma legal_path_step: "legal_path b c \<Longrightarrow> (a, b) \<in> LEGAL_TRANSITIONS \<Longrightarrow> legal_path a c"
  unfolding legal_path_def by (rule converse_rtrancl_into_rtrancl)

lemma legal_path_refl [simp]: "legal_path a a"
  by (simp add: legal_path_def)

lemma path_to_stopped: "legal_path a Case_STOPPED" if "a \<noteq> Case_RECOVERED"
proof -
  note edge = legal_path_step
  have pc: "legal_path Case_POLICY_CHECK Case_STOPPED"
    by (rule edge [of Case_STOPPED]) (simp_all add: LEGAL_TRANSITIONS_def)
  then have ss: "legal_path Case_STRATEGY_SELECTED Case_STOPPED"
    by (rule edge) (simp add: LEGAL_TRANSITIONS_def)
  then have sc: "legal_path Case_SCORING Case_STOPPED"
    by (rule edge) (simp add: LEGAL_TRANSITIONS_def)
  then have di: "legal_path Case_DIAGNOSED Case_STOPPED"
    by (rule edge) (simp add: LEGAL_TRANSITIONS_def)
  then have iv: "legal_path Case_INVESTIGATING Case_STOPPED"
    by (rule edge) (simp add: LEGAL_TRANSITIONS_def)
  then have tr: "legal_path Case_TRIAGED Case_STOPPED"
    by (rule edge) (simp add: LEGAL_TRANSITIONS_def)
  then have de: "legal_path Case_DETECTED Case_STOPPED"
    by (rule edge) (simp add: LEGAL_TRANSITIONS_def)
  have direct: "legal_path x Case_STOPPED"
    if "(x, Case_STOPPED) \<in> LEGAL_TRANSITIONS" for x
    using legal_path_refl that by (rule edge)
  have nr: "legal_path Case_NOT_RECOVERED Case_STOPPED" and fa: "legal_path Case_FAILED Case_STOPPED"
    and aw: "legal_path Case_AWAITING_APPROVAL Case_STOPPED"
    and es: "legal_path Case_ESCALATED Case_STOPPED"
    by (rule direct, simp add: LEGAL_TRANSITIONS_def)+
  from nr have ve: "legal_path Case_VERIFYING Case_STOPPED"
    by (rule edge) (simp add: LEGAL_TRANSITIONS_def)
  then have ac: "legal_path Case_ACTION_COMPLETED Case_STOPPED"
    by (rule edge) (simp add: LEGAL_TRANSITIONS_def)
  from fa have ex: "legal_path Case_EXECUTING Case_STOPPED"
    by (rule edge) (simp add: LEGAL_TRANSITIONS_def)
  from sc have rs: "legal_path Case_RETRY_SCHEDULED Case_STOPPED"
    by (rule edge) (simp add: LEGAL_TRANSITIONS_def)
  from that show ?thesis
    by (cases a) (simp_all add: pc ss sc di iv tr de nr fa aw es ve ac ex rs)
qed

text \<open>
  \<^bold>\<open>Shape of the lifecycle.\<close> The two terminal statuses are exactly the statuses no legal
  transition leaves; from every other status a terminal one can still be reached; revenue can
  only be marked recovered from \<open>VERIFYING\<close>; and a case that never passes the policy check
  never gets beyond \<open>STRATEGY_SELECTED\<close>, so neither execution nor recovery can bypass it.
\<close>

theorem lifecycle_shape:
  "(is_terminal a \<longleftrightarrow> (\<forall>b. \<not> can_transition a b))
   \<and> (\<exists>b. is_terminal b \<and> legal_path a b)
   \<and> (can_transition a Case_RECOVERED \<longleftrightarrow> a = Case_VERIFYING)
   \<and> ((STARTING_STATUS, a) \<in> {(x, y). can_transition x y \<and> y \<noteq> Case_POLICY_CHECK}\<^sup>*
        \<longrightarrow> a \<in> {Case_DETECTED, Case_TRIAGED, Case_INVESTIGATING, Case_DIAGNOSED,
                  Case_SCORING, Case_STRATEGY_SELECTED})"
proof (intro conjI impI)
  show "is_terminal a \<longleftrightarrow> (\<forall>b. \<not> can_transition a b)"
    by (cases a) (auto simp: is_terminal_def TERMINAL_RECOVERY_STATUSES_def can_transition_def
        LEGAL_TRANSITIONS_def)
  show "\<exists>b. is_terminal b \<and> legal_path a b"
  proof (cases "a = Case_RECOVERED")
    case True
    then show ?thesis
      by (intro exI [of _ a]) (simp add: is_terminal_def TERMINAL_RECOVERY_STATUSES_def)
  next
    case False
    then show ?thesis
      using path_to_stopped
      by (intro exI [of _ Case_STOPPED]) (simp add: is_terminal_def TERMINAL_RECOVERY_STATUSES_def)
  qed
  show "can_transition a Case_RECOVERED \<longleftrightarrow> a = Case_VERIFYING"
    by (cases a) (simp_all add: can_transition_def LEGAL_TRANSITIONS_def)
  assume "(STARTING_STATUS, a) \<in> {(x, y). can_transition x y \<and> y \<noteq> Case_POLICY_CHECK}\<^sup>*"
  then show "a \<in> {Case_DETECTED, Case_TRIAGED, Case_INVESTIGATING, Case_DIAGNOSED,
                  Case_SCORING, Case_STRATEGY_SELECTED}"
    by (induction rule: rtrancl_induct)
      (auto simp: STARTING_STATUS_def can_transition_def LEGAL_TRANSITIONS_def)
qed

theorem lifecycle_shape_witness:
  "(STARTING_STATUS, Case_TRIAGED) \<in> {(x, y). can_transition x y \<and> y \<noteq> Case_POLICY_CHECK}\<^sup>*
   \<and> \<not> can_transition Case_RECOVERED Case_DETECTED \<and> can_transition Case_VERIFYING Case_RECOVERED"
proof -
  have "(STARTING_STATUS, Case_TRIAGED) \<in> {(x, y). can_transition x y \<and> y \<noteq> Case_POLICY_CHECK}\<^sup>*"
    by (rule r_into_rtrancl) (simp add: STARTING_STATUS_def can_transition_def LEGAL_TRANSITIONS_def)
  moreover have "is_terminal Case_RECOVERED"
    by (simp add: is_terminal_def TERMINAL_RECOVERY_STATUSES_def)
  ultimately show ?thesis
    using lifecycle_shape [of Case_RECOVERED] lifecycle_shape [of Case_VERIFYING] by blast
qed

subsection \<open>What a transition does\<close>

lemma lock_recovery_case_eval [prog_simps]:
  "lock_recovery_case i s =
     (case get_case_unscoped s i of
        None \<Rightarrow> (Inl (DomainError ''RECOVERY_CASE_NOT_FOUND'' False), s)
      | Some c \<Rightarrow> (Inr i, s))"
  by (auto simp: lock_recovery_case_def prog_simps get_case_unscoped_def
      dest: find_row_Some_key split: option.splits)

definition moved_case :: "RecoveryCaseStatus \<Rightarrow> timestamp \<Rightarrow> RecoveryCase \<Rightarrow> RecoveryCase" where
  "moved_case target t r =
     r\<lparr>rc_status := target, rc_version := rc_version r + 1,
       rc_closed_at := (if is_terminal target then Some t else None)\<rparr>"

definition transition_audit ::
  "RecoveryCase \<Rightarrow> RecoveryCaseStatus \<Rightarrow> ActorType \<Rightarrow> timestamp \<Rightarrow> AuditEvent" where
  "transition_audit c target actor t =
     \<lparr>au_merchant_id = rc_merchant_id c, au_case_id = Some (rc_id c),
      au_event_type = (if can_transition (rc_status c) target
        then (case AUDIT_TYPE_FOR_TARGET target of None \<Rightarrow> Aud_PAYMENT_UPDATED | Some a \<Rightarrow> a)
        else Aud_STATE_TRANSITION_REJECTED),
      au_actor_type = actor,
      au_action = Some (if can_transition (rc_status c) target then ''transition''
                        else ''reject_transition''),
      au_previous_state = Some (case_status_value (rc_status c)),
      au_new_state = Some (case_status_value target),
      au_idempotency_key = None, au_created_at = t\<rparr>"

lemma update_case_eval [prog_simps]:
  "update_case i f s = (Inr (), s\<lparr>db_cases := update_row rc_id i f (db_cases s)\<rparr>)"
  by (simp add: update_case_def prog_simps)

lemma record_audit_eval [prog_simps]:
  "record_audit m e c a act p n k s = (Inr (), s\<lparr>db_audit := db_audit s @
     [\<lparr>au_merchant_id = m, au_case_id = c, au_event_type = e, au_actor_type = a, au_action = act,
       au_previous_state = p, au_new_state = n, au_idempotency_key = k,
       au_created_at = db_clock s\<rparr>]\<rparr>)"
  by (simp add: record_audit_def prog_simps)

lemma deref_eval [prog_simps]:
  "deref get i s = (case get s i of None \<Rightarrow> (Inl ObjectDeletedError, s) | Some r \<Rightarrow> (Inr r, s))"
  by (simp add: deref_def)

lemma now_eval [prog_simps]: "now s = (Inr (db_clock s), s)"
  by (simp add: now_def prog_simps)

lemma transition_case_eval:
  assumes c: "get_case_unscoped s i = Some c"
    and version: "expected = None \<or> expected = Some (rc_version c)"
  shows "transition_case i target actor expected s =
    (if can_transition (rc_status c) target
     then (Inr (), s\<lparr>db_cases := update_row rc_id i (moved_case target (db_clock s)) (db_cases s),
                     db_audit := db_audit s @ [transition_audit c target actor (db_clock s)]\<rparr>)
     else (Inl InvalidTransitionError,
           s\<lparr>db_audit := db_audit s @ [transition_audit c target actor (db_clock s)]\<rparr>))"
proof -
  have i: "rc_id c = i"
    using c by (auto simp: get_case_unscoped_def dest: find_row_Some_key)
  have f: "(\<lambda>r. r\<lparr>rc_status := target, rc_version := rc_version r + 1,
        rc_closed_at := (if is_terminal target then Some (db_clock s) else None)\<rparr>) =
      moved_case target (db_clock s)"
    by (simp add: fun_eq_iff moved_case_def)
  show ?thesis
    using c version i
    by (auto simp: transition_case_def prog_simps assert_legal_transition_def can_transition_def
        transition_audit_def Let_def f)
qed

lemma get_case_after_move:
  "get_case_unscoped (s\<lparr>db_cases := update_row rc_id i (moved_case target t) (db_cases s)\<rparr>) j =
     (if j = i then map_option (moved_case target t) (get_case_unscoped s j)
      else get_case_unscoped s j)"
  unfolding get_case_unscoped_def
  by (simp, intro conjI impI; subst keyed_update.find_update_row;
      unfold_locales?; simp add: moved_case_def)

lemma get_case_audit [simp]: "get_case_unscoped (s\<lparr>db_audit := a\<rparr>) j = get_case_unscoped s j"
  by (simp add: get_case_unscoped_def)

text \<open>
  C19. \<^bold>\<open>A transition, on every branch.\<close> With a stale expected version nothing changes and the
  retryable concurrency error is raised. A legal move sets the status, bumps the version by one,
  sets the closing time exactly for a terminal target, leaves every other case as it was and
  appends one audit row naming both states. An illegal move changes no case at all and appends
  one rejection row before it raises.
\<close>

theorem transition_case_spec:
  assumes "get_case_unscoped s i = Some c"
    and "transition_case i target actor expected s = (r, t)"
  shows "(expected \<noteq> None \<and> expected \<noteq> Some (rc_version c) \<longrightarrow>
            r = Inl (ConcurrentCaseUpdateError i) \<and> t = s)
    \<and> ((expected = None \<or> expected = Some (rc_version c)) \<and> can_transition (rc_status c) target \<longrightarrow>
         r = Inr () \<and> db_audit t = db_audit s @ [transition_audit c target actor (db_clock s)]
         \<and> (\<exists>d. get_case_unscoped t i = Some d \<and> rc_status d = target
                \<and> rc_version d = rc_version c + 1 \<and> (rc_closed_at d \<noteq> None \<longleftrightarrow> is_terminal target)
                \<and> rc_amount_recovered d = rc_amount_recovered c)
         \<and> (\<forall>j. j \<noteq> i \<longrightarrow> get_case_unscoped t j = get_case_unscoped s j))
    \<and> ((expected = None \<or> expected = Some (rc_version c)) \<and> \<not> can_transition (rc_status c) target \<longrightarrow>
         r = Inl InvalidTransitionError \<and> db_cases t = db_cases s
         \<and> db_audit t = db_audit s @ [transition_audit c target actor (db_clock s)])"
proof (cases "expected = None \<or> expected = Some (rc_version c)")
  case True
  with assms show ?thesis
    by (auto simp: transition_case_eval get_case_after_move moved_case_def split: if_splits)
next
  case False
  with assms show ?thesis by (auto simp: transition_case_def prog_simps)
qed

theorem transition_case_spec_witness:
  "\<exists>t. transition_case 4 Case_TRIAGED Actor_WORKER (Some 1) demo_db = (Inr (), t)
     \<and> (\<exists>d. get_case_unscoped t 4 = Some d \<and> rc_status d = Case_TRIAGED \<and> rc_version d = 2)"
proof -
  obtain r t where run: "transition_case 4 Case_TRIAGED Actor_WORKER (Some 1) demo_db = (r, t)"
    by fastforce
  have legal: "can_transition (rc_status demo_case) Case_TRIAGED" "rc_version demo_case = 1"
    by (simp_all add: can_transition_def LEGAL_TRANSITIONS_def demo_case_def)
  show ?thesis
    using transition_case_spec [OF demo_db_case run] legal run by fastforce
qed

subsection \<open>The evolution contracts\<close>

text \<open>
  What every operation of the program keeps of a case row: its identity, subject and exposure
  never change, and its status moved along the legal transitions, one version per move.
\<close>

definition case_lifecycle :: "RecoveryCase \<Rightarrow> RecoveryCase \<Rightarrow> bool" where
  "case_lifecycle c d \<longleftrightarrow>
     rc_id d = rc_id c \<and> rc_merchant_id d = rc_merchant_id c \<and> rc_customer_id d = rc_customer_id c
     \<and> rc_payment_id d = rc_payment_id c \<and> rc_cart_id d = rc_cart_id c
     \<and> rc_subscription_id d = rc_subscription_id c \<and> rc_currency d = rc_currency c
     \<and> rc_amount_at_risk d = rc_amount_at_risk c \<and> rc_opened_at d = rc_opened_at c
     \<and> (\<exists>n. rc_version d = rc_version c + int n
             \<and> (rc_status c, rc_status d) \<in> LEGAL_TRANSITIONS ^^ n)"

definition case_no_credit :: "RecoveryCase \<Rightarrow> RecoveryCase \<Rightarrow> bool" where
  "case_no_credit c d \<longleftrightarrow>
     case_lifecycle c d \<and> rc_amount_recovered d = rc_amount_recovered c
     \<and> rc_verified_payment_id d = rc_verified_payment_id c
     \<and> rc_verified_webhook_event_id d = rc_verified_webhook_event_id c
     \<and> rc_last_mismatch_reason d = rc_last_mismatch_reason c
     \<and> (rc_status d = Case_RECOVERED \<longrightarrow> rc_status c = Case_RECOVERED)"

lemma case_lifecycle_refl: "case_lifecycle c c"
proof -
  have "rc_version c = rc_version c + int 0 \<and> (rc_status c, rc_status c) \<in> LEGAL_TRANSITIONS ^^ 0"
    by simp
  then show ?thesis unfolding case_lifecycle_def by blast
qed

lemma case_lifecycle_trans:
  assumes "case_lifecycle c d" and "case_lifecycle d e"
  shows "case_lifecycle c e"
proof -
  from assms obtain m n where
      "rc_version d = rc_version c + int m" "(rc_status c, rc_status d) \<in> LEGAL_TRANSITIONS ^^ m"
      "rc_version e = rc_version d + int n" "(rc_status d, rc_status e) \<in> LEGAL_TRANSITIONS ^^ n"
    unfolding case_lifecycle_def by blast
  then have "rc_version e = rc_version c + int (m + n)"
    and "(rc_status c, rc_status e) \<in> LEGAL_TRANSITIONS ^^ (m + n)"
    by (auto simp: relpow_add)
  with assms show ?thesis unfolding case_lifecycle_def by fastforce
qed

interpretation lifecycle: case_evolution case_lifecycle
  by unfold_locales (fact case_lifecycle_refl, fact case_lifecycle_trans)

interpretation no_credit: case_evolution case_no_credit
  by unfold_locales
    (auto simp: case_no_credit_def case_lifecycle_refl intro: case_lifecycle_trans)

lemma case_no_credit_lifecycle: "case_no_credit c d \<Longrightarrow> case_lifecycle c d"
  by (simp add: case_no_credit_def)

lemma case_lifecycle_status: "case_lifecycle c d \<Longrightarrow> legal_path (rc_status c) (rc_status d)"
  by (auto simp: case_lifecycle_def legal_path_def dest: relpow_imp_rtrancl)

lemma case_lifecycle_terminal:
  "case_lifecycle c d \<Longrightarrow> is_terminal (rc_status c) \<Longrightarrow>
   rc_status d = rc_status c \<and> rc_version d = rc_version c"
  unfolding case_lifecycle_def by (fastforce dest: terminal_no_step)

text \<open>
  In between: what verification may do to a case it does not credit. It may leave a mark (the
  last mismatch reason, the event it looked at) but neither credits nor recovers.
\<close>

definition case_mark :: "RecoveryCase \<Rightarrow> RecoveryCase \<Rightarrow> bool" where
  "case_mark c d \<longleftrightarrow>
     case_lifecycle c d \<and> rc_amount_recovered d = rc_amount_recovered c
     \<and> rc_verified_payment_id d = rc_verified_payment_id c
     \<and> (rc_status d = Case_RECOVERED \<longrightarrow> rc_status c = Case_RECOVERED)"

interpretation mark: case_evolution case_mark
  by unfold_locales (auto simp: case_mark_def case_lifecycle_refl intro: case_lifecycle_trans)

lemma case_no_credit_mark: "case_no_credit c d \<Longrightarrow> case_mark c d"
  by (simp add: case_no_credit_def case_mark_def)

lemma moved_case_lifecycle:
  assumes "can_transition (rc_status c) target"
  shows "case_lifecycle c (moved_case target t c)"
proof -
  have "rc_version c + 1 = rc_version c + int 1" and "(rc_status c, target) \<in> LEGAL_TRANSITIONS ^^ 1"
    using assms by (simp_all add: can_transition_def)
  then show ?thesis
    unfolding case_lifecycle_def moved_case_def by fastforce
qed

lemma moved_case_no_credit:
  "can_transition (rc_status c) target \<Longrightarrow> target \<noteq> Case_RECOVERED \<Longrightarrow>
   case_no_credit c (moved_case target t c)"
  using moved_case_lifecycle [of c target t] by (simp add: case_no_credit_def moved_case_def)

context case_evolution
begin

lemma obeys_transition_case:
  assumes "\<And>c t. can_transition (rc_status c) target \<Longrightarrow> K c (moved_case target t c)"
  shows "obeys (db_evolves K) (transition_case i target actor expected)"
  unfolding obeys_def
proof
  fix s
  show "db_evolves K s (snd (transition_case i target actor expected s))"
  proof (cases "get_case_unscoped s i")
    case None
    then show ?thesis
      by (simp add: transition_case_def prog_simps frame_refl)
  next
    case (Some c)
    then show ?thesis
    proof (cases "expected = None \<or> expected = Some (rc_version c)")
      case True
      with Some show ?thesis
        by (auto simp: transition_case_eval db_evolves_def get_case_after_move assms K_refl
            split: if_splits)
    next
      case False
      with Some show ?thesis
        by (simp add: transition_case_def prog_simps frame_refl)
    qed
  qed
qed

lemma obeys_lock_recovery_case: "obeys (db_evolves K) (lock_recovery_case i)"
  unfolding lock_recovery_case_def by (intro evolution_rules)

end

text \<open>
  Marking a case recovered is the one transition that is not allowed to code which must leave
  recovered revenue alone; it is the verification's.
\<close>

lemma transition_case_no_credit:
  "target \<noteq> Case_RECOVERED \<Longrightarrow>
   obeys (db_evolves case_no_credit) (transition_case i target actor expected)"
  by (rule no_credit.obeys_transition_case) (rule moved_case_no_credit)

lemma transition_case_mark:
  "target \<noteq> Case_RECOVERED \<Longrightarrow>
   obeys (db_evolves case_mark) (transition_case i target actor expected)"
  by (rule mark.obeys_transition_case) (intro case_no_credit_mark moved_case_no_credit)

lemmas mark_rules =
  mark.evolution_rules mark.obeys_lock_recovery_case transition_case_mark

lemmas no_credit_rules =
  no_credit.evolution_rules no_credit.obeys_lock_recovery_case transition_case_no_credit

lemmas lifecycle_rules =
  lifecycle.evolution_rules lifecycle.obeys_lock_recovery_case
  lifecycle.obeys_transition_case [OF moved_case_lifecycle]

lemma no_credit_mark:
  "obeys (db_evolves case_no_credit) m \<Longrightarrow> obeys (db_evolves case_mark) m"
  by (erule obeys_mono) (erule db_evolves_mono, erule case_no_credit_mark)

lemma no_credit_lifecycle:
  "obeys (db_evolves case_no_credit) m \<Longrightarrow> obeys (db_evolves case_lifecycle) m"
  by (erule obeys_mono) (erule db_evolves_mono, erule case_no_credit_lifecycle)

end
