(* ===== verification/Integrity.thy ===== *)
theory Integrity
  imports StateMachine
begin

text \<open>
  The data integrity the tables promise: the \<^verbatim>\<open>CHECK\<close> constraints and partial unique index
  of \<^verbatim>\<open>models/recovery_case.py\<close> and \<^verbatim>\<open>models/payment.py\<close>, primary keys, the two-decimal
  money columns, and what the lifecycle adds (a case is closed exactly when its status is
  terminal). \<open>db_ok\<close> is the invariant; the rules say which single-row writes keep it.
\<close>

definition case_ok :: "RecoveryCase \<Rightarrow> bool" where
  "case_ok c \<longleftrightarrow>
     0 \<le> rc_amount_recovered c \<and> rc_amount_recovered c \<le> rc_amount_at_risk c
     \<and> two_decimal (rc_amount_at_risk c) \<and> two_decimal (rc_amount_recovered c)
     \<and> (rc_closed_at c \<noteq> None \<longleftrightarrow> is_terminal (rc_status c))"

definition payment_ok :: "Payment \<Rightarrow> bool" where
  "payment_ok p \<longleftrightarrow> 0 \<le> pay_amount p \<and> two_decimal (pay_amount p)"

definition same_open_subject :: "RecoveryCase \<Rightarrow> RecoveryCase \<Rightarrow> bool" where
  "same_open_subject c d \<longleftrightarrow>
     rc_closed_at c = None \<and> rc_closed_at d = None \<and> rc_merchant_id c = rc_merchant_id d
     \<and> rc_payment_id c \<noteq> None \<and> rc_payment_id c = rc_payment_id d"

definition db_ok :: "db \<Rightarrow> bool" where
  "db_ok s \<longleftrightarrow>
     distinct (map rc_id (db_cases s))
     \<and> (\<forall>c \<in> set (db_cases s). case_ok c \<and> rc_id c < db_next_uuid s)
     \<and> (\<forall>c \<in> set (db_cases s). \<forall>d \<in> set (db_cases s).
          same_open_subject c d \<longrightarrow> rc_id c = rc_id d)
     \<and> distinct (map pay_id (db_payments s))
     \<and> (\<forall>p \<in> set (db_payments s). payment_ok p)"

lemma demo_db_ok: "db_ok demo_db"
  by (simp add: db_ok_def demo_defs case_ok_def payment_ok_def is_terminal_def
      TERMINAL_RECOVERY_STATUSES_def two_decimal_def)

lemma db_ok_case: "db_ok s \<Longrightarrow> get_case_unscoped s i = Some c \<Longrightarrow> case_ok c"
  by (auto simp: db_ok_def get_case_unscoped_def dest: find_row_Some_in)

lemma db_ok_payment: "db_ok s \<Longrightarrow> session_get_payment s i = Some p \<Longrightarrow> payment_ok p"
  by (auto simp: db_ok_def session_get_payment_def dest: find_row_Some_in)

lemma db_ok_unique_open:
  assumes "db_ok s"
  shows "length (list_open_for_payment s m pid) \<le> 1"
proof -
  let ?L = "list_open_for_payment s m pid"
  have "c = d" if "c \<in> set ?L" "d \<in> set ?L" for c d
  proof -
    from that have "same_open_subject c d" "c \<in> set (db_cases s)" "d \<in> set (db_cases s)"
      by (auto simp: list_open_for_payment_def same_open_subject_def)
    with assms have "rc_id c = rc_id d" and "distinct (map rc_id (db_cases s))"
      by (auto simp: db_ok_def)
    with \<open>c \<in> set (db_cases s)\<close> \<open>d \<in> set (db_cases s)\<close> show ?thesis
      by (auto simp: distinct_map dest: inj_onD)
  qed
  moreover have "distinct ?L"
    using assms by (auto simp: db_ok_def list_open_for_payment_def distinct_map)
  moreover have "card (set ?L) \<le> Suc 0 \<longleftrightarrow> (\<forall>c \<in> set ?L. \<forall>d \<in> set ?L. c = d)"
    by (rule card_le_Suc0_iff_eq) simp
  ultimately show ?thesis
    using distinct_card [of ?L] by simp
qed

subsection \<open>Writes that keep the invariant\<close>

definition good_update :: "RecoveryCase \<Rightarrow> RecoveryCase \<Rightarrow> bool" where
  "good_update c d \<longleftrightarrow>
     case_ok d \<and> rc_id d = rc_id c \<and> rc_merchant_id d = rc_merchant_id c
     \<and> rc_payment_id d = rc_payment_id c \<and> (rc_closed_at d = None \<longrightarrow> rc_closed_at c = None)"

lemma update_rows_good:
  assumes ok: "distinct (map rc_id rows)" "\<forall>c \<in> set rows. case_ok c \<and> rc_id c < n"
      "\<forall>c \<in> set rows. \<forall>d \<in> set rows. same_open_subject c d \<longrightarrow> rc_id c = rc_id d"
    and good: "\<And>c. c \<in> set rows \<Longrightarrow> rc_id c = i \<Longrightarrow> good_update c (f c)"
  shows "distinct (map rc_id (update_row rc_id i f rows))
    \<and> (\<forall>c \<in> set (update_row rc_id i f rows). case_ok c \<and> rc_id c < n)
    \<and> (\<forall>c \<in> set (update_row rc_id i f rows). \<forall>d \<in> set (update_row rc_id i f rows).
         same_open_subject c d \<longrightarrow> rc_id c = rc_id d)"
proof -
  define g where "g = (\<lambda>r. if rc_id r = i then f r else r)"
  have rows: "update_row rc_id i f rows = map g rows"
    by (simp add: update_row_def g_def)
  have g: "good_update c (g c)" if "c \<in> set rows" for c
    using good [OF that] ok(2) that by (auto simp: g_def good_update_def)
  have ids: "map rc_id (map g rows) = map rc_id rows"
    using g by (simp add: good_update_def)
  have subj: "same_open_subject c d" if "c \<in> set rows" "d \<in> set rows" "same_open_subject (g c) (g d)"
    for c d
    using g [OF that(1)] g [OF that(2)] that(3)
    unfolding good_update_def same_open_subject_def by metis
  have "case_ok (g c) \<and> rc_id (g c) = rc_id c" if "c \<in> set rows" for c
    using g [OF that] by (simp add: good_update_def)
  with ok subj show ?thesis
    unfolding rows ids by auto
qed

lemma db_ok_update_case:
  assumes "db_ok s"
    and "\<And>c. get_case_unscoped s i = Some c \<Longrightarrow> good_update c (f c)"
  shows "db_ok (s\<lparr>db_cases := update_row rc_id i f (db_cases s)\<rparr>)"
proof -
  have "good_update c (f c)" if "c \<in> set (db_cases s)" "rc_id c = i" for c
  proof -
    from assms(1) that have "get_case_unscoped s i = Some c"
      using find_row_unique [of rc_id "db_cases s" c]
      by (simp add: get_case_unscoped_def db_ok_def)
    then show ?thesis by (rule assms(2))
  qed
  then have "distinct (map rc_id (update_row rc_id i f (db_cases s)))
    \<and> (\<forall>c \<in> set (update_row rc_id i f (db_cases s)). case_ok c \<and> rc_id c < db_next_uuid s)
    \<and> (\<forall>c \<in> set (update_row rc_id i f (db_cases s)).
         \<forall>d \<in> set (update_row rc_id i f (db_cases s)).
           same_open_subject c d \<longrightarrow> rc_id c = rc_id d)"
    using assms(1) unfolding db_ok_def by (intro update_rows_good) blast+
  then show ?thesis
    using assms(1) by (simp add: db_ok_def)
qed

lemma db_ok_other_tables:
  "db_cases t = db_cases s \<Longrightarrow> db_payments t = db_payments s \<Longrightarrow>
   db_next_uuid s \<le> db_next_uuid t \<Longrightarrow> db_ok s \<Longrightarrow> db_ok t"
  by (auto simp: db_ok_def)

lemma db_ok_audit [simp]: "db_ok (s\<lparr>db_audit := a\<rparr>) \<longleftrightarrow> db_ok s"
  by (simp add: db_ok_def)

lemma good_moved_case:
  "case_ok c \<Longrightarrow> can_transition (rc_status c) target \<Longrightarrow> good_update c (moved_case target t c)"
  using can_transition_simps [of "rc_status c" target]
  by (auto simp: good_update_def case_ok_def moved_case_def)

subsection \<open>The invariant as a contract\<close>

lemma keeps_ok_same:
  "(\<And>s r s'. m s = (r, s') \<Longrightarrow> db_cases s' = db_cases s \<and> db_payments s' = db_payments s
      \<and> db_next_uuid s \<le> db_next_uuid s') \<Longrightarrow> keeps db_ok m (\<lambda>_. True)"
  by (rule keepsI) (blast intro: db_ok_other_tables)

lemma keeps_ok_gets: "keeps db_ok (gets f) (\<lambda>_. True)"
  by (rule keeps_gets) simp

lemma keeps_ok_modify:
  "(\<And>s. db_cases (g s) = db_cases s \<and> db_payments (g s) = db_payments s
       \<and> db_next_uuid s \<le> db_next_uuid (g s)) \<Longrightarrow> keeps db_ok (modify g) (\<lambda>_. True)"
  by (rule keeps_ok_same) (auto simp: modify_def)

lemma keeps_ok_uuid4: "keeps db_ok uuid4 (\<lambda>_. True)"
  by (rule keeps_ok_same) (auto simp: uuid4_def)

lemma keeps_ok_now: "keeps db_ok now (\<lambda>_. True)"
  by (rule keeps_ok_same) (auto simp: prog_simps)

lemma keeps_ok_deref: "keeps db_ok (deref g i) (\<lambda>_. True)"
  by (rule keeps_ok_same) (auto simp: deref_def split: option.splits)

lemma keeps_ok_record_audit: "keeps db_ok (record_audit m e c a act p n k) (\<lambda>_. True)"
  by (rule keeps_ok_same) (auto simp: prog_simps)

lemma keeps_ok_update_rows:
  "keeps db_ok (update_action i g) (\<lambda>_. True)"
  "keeps db_ok (update_approval i h) (\<lambda>_. True)"
  "keeps db_ok (update_webhook i k) (\<lambda>_. True)"
  by (simp_all add: update_action_def update_approval_def update_webhook_def keeps_ok_modify)

lemma keeps_ok_transition_case:
  "keeps db_ok (transition_case i target actor expected) (\<lambda>_. True)"
proof (rule keepsI)
  fix s r s'
  assume ok: "db_ok s" and run: "transition_case i target actor expected s = (r, s')"
  have "db_ok s'"
  proof (cases "get_case_unscoped s i")
    case None
    with ok run show ?thesis by (auto simp: transition_case_def prog_simps)
  next
    case (Some c)
    have "db_ok (s\<lparr>db_cases := update_row rc_id i (moved_case target t) (db_cases s)\<rparr>)"
      if "can_transition (rc_status c) target" for t
      using ok Some that by (intro db_ok_update_case) (auto intro: good_moved_case db_ok_case)
    note moved = this
    show ?thesis
    proof (cases "expected = None \<or> expected = Some (rc_version c)")
      case True
      with ok run Some moved show ?thesis
        by (auto simp: transition_case_eval split: if_splits)
    next
      case False
      with ok run Some show ?thesis by (auto simp: transition_case_def prog_simps)
    qed
  qed
  then show "db_ok s' \<and> (\<forall>x. r = Inr x \<longrightarrow> True)" by simp
qed

lemma keeps_ok_lock: "keeps db_ok (lock_recovery_case i) (\<lambda>_. True)"
  by (rule keeps_ok_same) (auto simp: prog_simps split: option.splits)

lemma keeps_ok_bind:
  "keeps db_ok m (\<lambda>_. True) \<Longrightarrow> (\<And>x. keeps db_ok (f x) (\<lambda>_. True)) \<Longrightarrow>
   keeps db_ok (bind m f) (\<lambda>_. True)"
  by (rule keeps_bind)

lemma keeps_ok_seqp:
  "keeps db_ok m (\<lambda>_. True) \<Longrightarrow> keeps db_ok n (\<lambda>_. True) \<Longrightarrow> keeps db_ok (seqp m n) (\<lambda>_. True)"
  by (rule keeps_seqp)

lemma keeps_ok_basic:
  "keeps db_ok (ret x) (\<lambda>_. True)" "keeps db_ok (raise e) (\<lambda>_. True)" "keeps db_ok (lift r) (\<lambda>_. True)"
  by (simp_all add: keeps_ret keeps_raise keeps_lift)

lemma keeps_ok_unless: "keeps db_ok m (\<lambda>_. True) \<Longrightarrow> keeps db_ok (unless b m) (\<lambda>_. True)"
  by (simp add: keeps_unless)

lemma keeps_ok_let: "(\<And>x. keeps db_ok (f x) (\<lambda>_. True)) \<Longrightarrow> keeps db_ok (let x = v in f x) (\<lambda>_. True)"
  by (simp add: Let_def)

lemmas ok_rules =
  keeps_ok_basic keeps_ok_gets keeps_ok_bind keeps_ok_seqp keeps_catch keeps_ok_unless
  keeps_for_each keeps_if keeps_case_option keeps_case_list keeps_case_prod keeps_ok_let
  keeps_ok_uuid4 keeps_ok_now keeps_ok_deref keeps_ok_record_audit keeps_ok_update_rows
  keeps_ok_transition_case keeps_ok_lock

subsection \<open>No payment is counted twice\<close>

text \<open>
  Recovered revenue always names the payment it came from, no payment stands behind the
  recovered revenue of two cases of a merchant, and a case marked recovered has recovered all
  that was at risk. Operations that never touch recovered revenue keep this, whatever else they
  do.
\<close>

definition credit_ok :: "db \<Rightarrow> bool" where
  "credit_ok s \<longleftrightarrow>
     (\<forall>i c. get_case_unscoped s i = Some c \<longrightarrow> 0 < rc_amount_recovered c \<longrightarrow>
        rc_verified_payment_id c \<noteq> None) \<and>
     (\<forall>i j c d. get_case_unscoped s i = Some c \<longrightarrow> get_case_unscoped s j = Some d \<longrightarrow>
        0 < rc_amount_recovered c \<longrightarrow> 0 < rc_amount_recovered d \<longrightarrow>
        rc_merchant_id c = rc_merchant_id d \<longrightarrow>
        rc_verified_payment_id c = rc_verified_payment_id d \<longrightarrow> i = j) \<and>
     (\<forall>i c. get_case_unscoped s i = Some c \<longrightarrow> rc_status c = Case_RECOVERED \<longrightarrow>
        rc_amount_recovered c = rc_amount_at_risk c)"

lemma demo_credit_ok: "credit_ok demo_db"
  by (auto simp: credit_ok_def get_case_unscoped_def demo_defs find_row_def)

lemma mark_back:
  assumes "db_evolves case_mark s t" and "get_case_unscoped t i = Some d"
    and "0 < rc_amount_recovered d"
  obtains c where "get_case_unscoped s i = Some c" "rc_merchant_id d = rc_merchant_id c"
    "rc_amount_recovered d = rc_amount_recovered c"
    "rc_verified_payment_id d = rc_verified_payment_id c"
  using assms(1,2)
proof (cases rule: db_evolves_born)
  case (old c)
  then show ?thesis
    using that by (auto simp: case_mark_def case_lifecycle_def)
next
  case (born c)
  with assms(3) show ?thesis
    by (simp add: case_mark_def fresh_case_def)
qed

lemma credit_ok_mark:
  assumes evolves: "db_evolves case_mark s t" and ok: "credit_ok s"
  shows "credit_ok t"
proof -
  have "rc_verified_payment_id d \<noteq> None"
    if "get_case_unscoped t i = Some d" "0 < rc_amount_recovered d" for i d
    using mark_back [OF evolves that] ok that(2) unfolding credit_ok_def by metis
  moreover have "i = j"
    if d: "get_case_unscoped t i = Some d" "0 < rc_amount_recovered d"
      and e: "get_case_unscoped t j = Some e" "0 < rc_amount_recovered e"
      and eq: "rc_merchant_id d = rc_merchant_id e" "rc_verified_payment_id d = rc_verified_payment_id e"
    for i j d e
  proof -
    obtain c where "get_case_unscoped s i = Some c" "rc_merchant_id d = rc_merchant_id c"
      "rc_amount_recovered d = rc_amount_recovered c"
      "rc_verified_payment_id d = rc_verified_payment_id c"
      using mark_back [OF evolves d] by blast
    moreover obtain f where "get_case_unscoped s j = Some f" "rc_merchant_id e = rc_merchant_id f"
      "rc_amount_recovered e = rc_amount_recovered f"
      "rc_verified_payment_id e = rc_verified_payment_id f"
      using mark_back [OF evolves e] by blast
    ultimately show ?thesis
      using ok d e eq unfolding credit_ok_def by metis
  qed
  moreover have "rc_amount_recovered d = rc_amount_at_risk d"
    if "get_case_unscoped t i = Some d" "rc_status d = Case_RECOVERED" for i d
    using evolves that(1)
  proof (cases rule: db_evolves_born)
    case (old c)
    with ok that(2) show ?thesis
      unfolding credit_ok_def case_mark_def case_lifecycle_def by metis
  next
    case (born c)
    with that(2) show ?thesis by (simp add: case_mark_def fresh_case_def)
  qed
  ultimately show ?thesis unfolding credit_ok_def by blast
qed

lemma credit_ok_no_credit:
  "db_evolves case_no_credit s t \<Longrightarrow> credit_ok s \<Longrightarrow> credit_ok t"
  by (rule credit_ok_mark) (erule db_evolves_mono, erule case_no_credit_mark)

text \<open>Crediting one case keeps the invariant when no other case counted the payment.\<close>

lemma credit_ok_replace:
  assumes ok: "credit_ok s" and other: "\<And>j. j \<noteq> i \<Longrightarrow> get_case_unscoped t j = get_case_unscoped s j"
    and d: "get_case_unscoped t i = Some d" "rc_verified_payment_id d \<noteq> None"
      "rc_status d = Case_RECOVERED \<Longrightarrow> rc_amount_recovered d = rc_amount_at_risk d"
    and unique: "\<And>j c. j \<noteq> i \<Longrightarrow> get_case_unscoped s j = Some c \<Longrightarrow> 0 < rc_amount_recovered c \<Longrightarrow>
      rc_merchant_id c = rc_merchant_id d \<Longrightarrow> rc_verified_payment_id c \<noteq> rc_verified_payment_id d"
  shows "credit_ok t"
  unfolding credit_ok_def
proof (intro conjI allI impI)
  fix j c
  assume "get_case_unscoped t j = Some c" "0 < rc_amount_recovered c"
  then show "rc_verified_payment_id c \<noteq> None"
    using ok other [of j] d(1,2) unfolding credit_ok_def by (cases "j = i") auto
next
  fix j c
  assume "get_case_unscoped t j = Some c" "rc_status c = Case_RECOVERED"
  then show "rc_amount_recovered c = rc_amount_at_risk c"
    using ok other [of j] d(1,3) unfolding credit_ok_def by (cases "j = i") auto
next
  fix j k c e
  assume a: "get_case_unscoped t j = Some c" "get_case_unscoped t k = Some e"
    "0 < rc_amount_recovered c" "0 < rc_amount_recovered e"
    "rc_merchant_id c = rc_merchant_id e" "rc_verified_payment_id c = rc_verified_payment_id e"
  consider "j = i" "k = i" | "j = i" "k \<noteq> i" | "j \<noteq> i" "k = i" | "j \<noteq> i" "k \<noteq> i" by blast
  then show "j = k"
  proof cases
    case 2
    with a d(1) other [of k] unique [of k e] show ?thesis by simp
  next
    case 3
    with a d(1) other [of j] unique [of j c] show ?thesis by simp
  next
    case 4
    with a other [of j] other [of k] ok show ?thesis unfolding credit_ok_def by metis
  qed simp
qed

end
