(* ===== verification/Policy.thy ===== *)
theory Policy
  imports Config Integrity
begin

text \<open>
  The policy engine: \<^verbatim>\<open>policy_types.py\<close>, \<^verbatim>\<open>policy_engine.py\<close> and \<^verbatim>\<open>policy_context.py\<close> of
  \<^verbatim>\<open>recoverai_domain\<close>. The engine is the list of rule hits the code builds, folded as its loop
  does; the abstract side is \<open>policy_forbids\<close> and \<open>policy_needs_approval\<close>, one line per rule.
  The lemmas show that the fold implements the abstract side, that it fails closed, and what the
  persisted trail looks like. The context keeps the case row it was built from: the engine reads
  only the identity and exposure of the case, which no operation changes.
\<close>

subsection \<open>Action groups, proposals and results\<close>

definition AUTOMATIC_ACTIONS :: "RecoveryActionType list" where
  "AUTOMATIC_ACTIONS = [RETRY_NOW, RETRY_LATER, SEND_PAYMENT_LINK, SEND_REMINDER, OFFER_DISCOUNT]"

definition COMMUNICATION_ACTIONS :: "RecoveryActionType list" where
  "COMMUNICATION_ACTIONS = [SEND_REMINDER, SEND_PAYMENT_LINK, OFFER_DISCOUNT]"

definition RETRY_ACTIONS :: "RecoveryActionType list" where
  "RETRY_ACTIONS = [RETRY_NOW, RETRY_LATER]"

record ProposedAction =
  pa_action_type :: string
  pa_discount_percent :: "rat option"
  pa_discount_amount :: "rat option"

record PolicyEvaluationResult =
  pr_allowed :: bool
  pr_requires_approval :: bool
  pr_risk_level :: RiskLevel
  pr_reason :: string
  pr_policy_ids :: "string list"
  pr_policy_version :: string

record PolicyContext =
  ctx_case :: RecoveryCase
  ctx_merchant :: Merchant
  ctx_customer :: "Customer option"
  ctx_payment :: "Payment option"
  ctx_settings :: RecoverySettings
  ctx_now :: timestamp
  ctx_retry_count :: int
  ctx_communications_last_24h :: int
  ctx_discount_spent_today :: rat
  ctx_blocked_action_types :: "string list"
  ctx_customer_opted_out :: bool
  ctx_suspicious :: bool
  ctx_source_mismatch :: bool
  ctx_discount_eligible :: bool
  ctx_merchant_id :: uuid

record RuleHit =
  hit_policy_id :: string
  hit_allowed :: "bool option"
  hit_requires_approval :: "bool option"
  hit_risk_level :: "RiskLevel option"
  hit_reason :: string

definition propose :: "RecoveryActionType \<Rightarrow> ProposedAction" where
  "propose a = \<lparr>pa_action_type = action_value a, pa_discount_percent = None,
                pa_discount_amount = None\<rparr>"

subsection \<open>The rules\<close>

fun RISK_RANK :: "RiskLevel \<Rightarrow> nat" where
  "RISK_RANK GREEN = 0" | "RISK_RANK YELLOW = 1" | "RISK_RANK RED = 2"

definition deny :: "string \<Rightarrow> RiskLevel \<Rightarrow> string \<Rightarrow> RuleHit" where
  "deny pid risk why = \<lparr>hit_policy_id = pid, hit_allowed = Some False,
     hit_requires_approval = None, hit_risk_level = Some risk, hit_reason = why\<rparr>"

definition parse_action :: "string \<Rightarrow> RecoveryActionType option" where
  "parse_action v = (case parse_enum action_value all_actions v of Inl _ \<Rightarrow> None | Inr a \<Rightarrow> Some a)"

definition value_risk :: "PolicyContext \<Rightarrow> RecoveryActionType \<Rightarrow> RuleHit res" where
  "value_risk ctx action =
     bindE (as_money (rc_amount_at_risk (ctx_case ctx))) (\<lambda>amount.
       Inr (if action = ESCALATE \<or> action = DO_NOTHING then
              \<lparr>hit_policy_id = ''value_threshold'', hit_allowed = Some True,
               hit_requires_approval = Some False, hit_risk_level = Some GREEN,
               hit_reason = ''Human-path action does not require automatic recovery''\<rparr>
            else if amount > high_value_approval_threshold (ctx_settings ctx) then
              \<lparr>hit_policy_id = ''high_value_approval_threshold'', hit_allowed = Some True,
               hit_requires_approval = Some True, hit_risk_level = Some RED,
               hit_reason = ''High-value action requires human approval''\<rparr>
            else if amount > medium_value_approval_threshold (ctx_settings ctx) then
              \<lparr>hit_policy_id = ''medium_value_approval_threshold'', hit_allowed = Some True,
               hit_requires_approval = Some True, hit_risk_level = Some YELLOW,
               hit_reason = ''Medium-value action requires human approval''\<rparr>
            else
              \<lparr>hit_policy_id = ''value_threshold'', hit_allowed = Some True,
               hit_requires_approval = Some False, hit_risk_level = Some GREEN,
               hit_reason = ''Low-value action may execute automatically when other rules allow''\<rparr>))"

definition discount_rules ::
  "PolicyContext \<Rightarrow> ProposedAction \<Rightarrow> RecoverySettings \<Rightarrow> RuleHit list res" where
  "discount_rules ctx proposed settings =
     (case pa_discount_percent proposed of
        None \<Rightarrow> Inr [deny ''max_discount_percent'' RED ''Discount percentage is required'']
      | Some percent \<Rightarrow>
          bindE (case pa_discount_amount proposed of
                   Some a \<Rightarrow> Inr a
                 | None \<Rightarrow> bindE (as_money (rc_amount_at_risk (ctx_case ctx)))
                            (\<lambda>m. Inr (m * percent / 100))) (\<lambda>amount.
          Inr (
            (if percent > max_discount_percent settings then
               [deny ''max_discount_percent'' RED ''Discount exceeds the maximum allowed percentage'']
             else []) @
            (if \<not> ctx_discount_eligible ctx then
               [deny ''discount_eligibility'' RED ''Customer is not eligible for a discount'']
             else []) @
            (if ctx_discount_spent_today ctx + amount > max_daily_discount_budget settings then
               [deny ''daily_discount_budget'' RED ''Daily discount budget would be exceeded'']
             else []) @
            (if percent > 0 then
               [\<lparr>hit_policy_id = ''discount_recorded'', hit_allowed = None,
                 hit_requires_approval = None, hit_risk_level = Some YELLOW,
                 hit_reason = ''Discount is bounded by percentage and daily budget''\<rparr>]
             else []))))"

definition hour_of :: "timestamp \<Rightarrow> int" where
  "hour_of t = (t div 3600000000) mod 24"

definition in_quiet_hours :: "PolicyContext \<Rightarrow> RecoverySettings \<Rightarrow> bool" where
  "in_quiet_hours ctx settings =
     (let hour = hour_of (ctx_now ctx); start = quiet_hours_start settings;
          stop = quiet_hours_end settings in
      if start = stop then False
      else if start < stop then start \<le> hour \<and> hour < stop
      else hour \<ge> start \<or> hour < stop)"

definition communication_rules ::
  "PolicyContext \<Rightarrow> RecoveryActionType \<Rightarrow> RecoverySettings \<Rightarrow> RuleHit list" where
  "communication_rules ctx action settings =
     (if ctx_customer_opted_out ctx then
        [deny ''customer_communication_opt_out'' RED
           ''Customer has opted out of recovery communications''] else []) @
     (if ctx_communications_last_24h ctx \<ge> max_communications_per_day settings then
        [deny ''communication_frequency'' YELLOW
           ''Communication frequency limit has been reached''] else []) @
     (if action = SEND_REMINDER \<and> in_quiet_hours ctx settings then
        [deny ''quiet_hours'' YELLOW
           ''Quiet hours currently prohibit outbound reminders''] else [])"

definition restriction_rules ::
  "PolicyContext \<Rightarrow> RecoveryActionType \<Rightarrow> ProposedAction \<Rightarrow> RecoverySettings \<Rightarrow> RuleHit list res" where
  "restriction_rules ctx action proposed settings =
     bindE (if action = OFFER_DISCOUNT then discount_rules ctx proposed settings else Inr [])
       (\<lambda>discount_hits. Inr (
          (if action_value action \<in> set (ctx_blocked_action_types ctx) then
             [deny ''blocked_action_types'' RED
                (''Action '' @ action_value action @ '' is blocked by merchant policy'')] else []) @
          (if \<not> automatic_recovery_enabled settings \<and> action \<in> set AUTOMATIC_ACTIONS then
             [deny ''automatic_recovery_kill_switch'' RED
                ''Automatic recovery is disabled by the merchant kill switch''] else []) @
          (if (ctx_suspicious ctx \<or> ctx_source_mismatch ctx) \<and> action \<in> set AUTOMATIC_ACTIONS then
             [deny ''suspicious_source_mismatch'' RED
                ''Suspicious or source-mismatch cases cannot run automatic recovery''] else []) @
          (if action \<in> set RETRY_ACTIONS \<and> ctx_retry_count ctx \<ge> max_retry_attempts settings then
             [deny ''max_retry_attempts'' RED ''Retry attempt limit has been reached''] else []) @
          discount_hits @
          (if action \<in> set COMMUNICATION_ACTIONS then communication_rules ctx action settings
           else [])))"

subsection \<open>Evaluation\<close>

text \<open>One round of the loop over the hits; the accumulator is the loop's local variables.\<close>

fun apply_hit ::
  "bool \<times> bool \<times> RiskLevel \<times> string list \<times> string list \<Rightarrow> RuleHit \<Rightarrow>
   bool \<times> bool \<times> RiskLevel \<times> string list \<times> string list" where
  "apply_hit (allowed, requires_approval, risk, reasons, policy_ids) hit =
     (if hit_allowed hit = Some False then False else allowed,
      if hit_requires_approval hit = Some True then True else requires_approval,
      (case hit_risk_level hit of None \<Rightarrow> risk
       | Some r \<Rightarrow> if RISK_RANK r > RISK_RANK risk then r else risk),
      if hit_reason hit \<noteq> [] then reasons @ [hit_reason hit] else reasons,
      policy_ids @ [hit_policy_id hit])"

definition version_label :: "RecoverySettings \<Rightarrow> string" where
  "version_label settings = (if policy_version settings = [] then POLICY_VERSION
                             else policy_version settings)"

definition combine_hits :: "RecoverySettings \<Rightarrow> RuleHit list \<Rightarrow> PolicyEvaluationResult" where
  "combine_hits settings hits =
     (case foldl apply_hit (True, False, GREEN, [], []) hits of
        (allowed, requires_approval, risk, reasons, policy_ids) \<Rightarrow>
          let requires_approval' = (if \<not> allowed then False else requires_approval);
              reasons' = (if reasons = []
                          then [''Default safe policy allowed the proposed action''] else reasons)
          in \<lparr>pr_allowed = allowed, pr_requires_approval = requires_approval' \<and> allowed,
              pr_risk_level = risk, pr_reason = join ''; '' reasons', pr_policy_ids = policy_ids,
              pr_policy_version = version_label settings\<rparr>)"

definition evaluate_action :: "PolicyContext \<Rightarrow> ProposedAction \<Rightarrow> PolicyEvaluationResult res" where
  "evaluate_action ctx proposed =
     (let settings = ctx_settings ctx in
      case parse_action (pa_action_type proposed) of
        None \<Rightarrow> Inr \<lparr>pr_allowed = False, pr_requires_approval = False, pr_risk_level = RED,
                    pr_reason = ''Unknown action is rejected before execution'',
                    pr_policy_ids = [''closed_action_enum''],
                    pr_policy_version = version_label settings\<rparr>
      | Some parsed \<Rightarrow>
          bindE (value_risk ctx parsed) (\<lambda>value_hit.
          bindE (restriction_rules ctx parsed proposed settings) (\<lambda>hits.
          Inr (combine_hits settings (value_hit # hits)))))"

definition persist_policy_evaluation ::
  "PolicyContext \<Rightarrow> ProposedAction \<Rightarrow> PolicyEvaluationResult \<Rightarrow> ActorType \<Rightarrow> unit dbprog" where
  "persist_policy_evaluation ctx proposed result actor =
     seqp (modify (\<lambda>s. s\<lparr>db_policy_evaluations := db_policy_evaluations s @
             [\<lparr>pe_merchant_id = rc_merchant_id (ctx_case ctx),
               pe_recovery_case_id = rc_id (ctx_case ctx),
               pe_policy_version = pr_policy_version result,
               pe_action = pa_action_type proposed, pe_risk_level = pr_risk_level result,
               pe_allowed = pr_allowed result,
               pe_requires_approval = pr_requires_approval result,
               pe_reason = pr_reason result, pe_policy_ids = pr_policy_ids result,
               pe_evaluated_at = db_clock s\<rparr>]\<rparr>))
          (record_audit (rc_merchant_id (ctx_case ctx)) Aud_POLICY_EVALUATED
             (Some (rc_id (ctx_case ctx))) actor (Some (pa_action_type proposed)) None None None)"

definition evaluate_and_persist ::
  "PolicyContext \<Rightarrow> ProposedAction \<Rightarrow> ActorType \<Rightarrow> PolicyEvaluationResult dbprog" where
  "evaluate_and_persist ctx proposed actor =
     bind (lift (evaluate_action ctx proposed)) (\<lambda>result.
       seqp (persist_policy_evaluation ctx proposed result actor) (ret result))"

subsection \<open>Building the context\<close>

text \<open>
  \<^verbatim>\<open>frozenset(str(item) for item in raw)\<close>: only string members are kept, because the printed
  form of any other JSON value is never the name of an action.
\<close>

definition blocked_actions :: "dict \<Rightarrow> string list" where
  "blocked_actions policy = (case dict_get policy ''blocked_action_types'' of
     JList items \<Rightarrow> concat (map (\<lambda>j. case j of JStr x \<Rightarrow> [x] | _ \<Rightarrow> []) items)
   | _ \<Rightarrow> [])"

definition IDENTITY_MISMATCHES :: "MismatchReason list" where
  "IDENTITY_MISMATCHES = [Mis_MERCHANT_MISMATCH, Mis_CUSTOMER_MISMATCH, Mis_ORDER_MISMATCH,
     Mis_PAYMENT_MISMATCH]"

definition is_suspicious :: "RecoveryCase \<Rightarrow> dict \<Rightarrow> bool" where
  "is_suspicious c meta =
     (if json_flag (dict_get meta ''suspicious'') then True
      else case rc_last_mismatch_reason c of None \<Rightarrow> False | Some m \<Rightarrow> m \<in> set IDENTITY_MISMATCHES)"

definition is_source_mismatch :: "RecoveryCase \<Rightarrow> dict \<Rightarrow> bool" where
  "is_source_mismatch c meta =
     (if json_flag (dict_get meta ''source_mismatch'') then True
      else case rc_last_mismatch_reason c of None \<Rightarrow> False | Some m \<Rightarrow> m \<in> set IDENTITY_MISMATCHES)"

definition retry_count :: "db \<Rightarrow> RecoveryCase \<Rightarrow> int" where
  "retry_count s c = int (length (filter (\<lambda>a.
     ra_recovery_case_id a = rc_id c \<and> ra_action_type a \<in> set RETRY_ACTIONS
     \<and> ra_status a \<in> {Act_PENDING, Act_PLANNED, Act_APPROVAL_REQUIRED, Act_APPROVED,
                      Act_EXECUTING, Act_SUCCEEDED, Act_COMPLETED}) (db_actions s)))"

definition communications_last_24h :: "db \<Rightarrow> uuid \<Rightarrow> uuid \<Rightarrow> timestamp \<Rightarrow> int" where
  "communications_last_24h s m cust t = int (length (filter (\<lambda>n.
     nt_merchant_id n = m \<and> nt_customer_id n = cust \<and> nt_created_at n \<ge> t - 86400000000
     \<and> nt_status n \<noteq> Notif_CANCELLED) (db_notifications s)))"

definition start_of_day :: "timestamp \<Rightarrow> timestamp" where
  "start_of_day t = t - t mod 86400000000"

definition discount_spent_today :: "db \<Rightarrow> uuid \<Rightarrow> timestamp \<Rightarrow> rat" where
  "discount_spent_today s m t = sum_list (map (\<lambda>a. case ra_amount a of None \<Rightarrow> 0 | Some x \<Rightarrow> x)
     (filter (\<lambda>a. ra_merchant_id a = m \<and> ra_action_type a = OFFER_DISCOUNT
        \<and> ra_status a \<in> {Act_SUCCEEDED, Act_COMPLETED, Act_EXECUTING, Act_PENDING, Act_APPROVED,
                         Act_APPROVAL_REQUIRED}
        \<and> ra_created_at a \<ge> start_of_day t) (db_actions s)))"

definition policy_context_of ::
  "db \<Rightarrow> RecoveryCase \<Rightarrow> Merchant \<Rightarrow> RecoverySettings \<Rightarrow> timestamp \<Rightarrow> PolicyContext" where
  "policy_context_of s c merchant merged t =
     (let customer = get_customer s (rc_merchant_id c) (rc_customer_id c);
          payment = (case rc_payment_id c of None \<Rightarrow> None
                     | Some p \<Rightarrow> get_payment s (rc_merchant_id c) p);
          customer_meta = (case customer of None \<Rightarrow> []
            | Some cu \<Rightarrow> (case cust_metadata cu of None \<Rightarrow> [] | Some d \<Rightarrow> d))
      in \<lparr>ctx_case = c, ctx_merchant = merchant, ctx_customer = customer,
          ctx_payment = payment, ctx_settings = merged, ctx_now = t,
          ctx_retry_count = retry_count s c,
          ctx_communications_last_24h =
            communications_last_24h s (rc_merchant_id c) (rc_customer_id c) t,
          ctx_discount_spent_today = discount_spent_today s (rc_merchant_id c) t,
          ctx_blocked_action_types = blocked_actions (policy_section (mer_settings merchant)),
          ctx_customer_opted_out = json_flag (dict_get customer_meta ''communication_opt_out''),
          ctx_suspicious = is_suspicious c customer_meta,
          ctx_source_mismatch = is_source_mismatch c customer_meta,
          ctx_discount_eligible =
            (\<not> json_flag (dict_get customer_meta ''discount_ineligible'')),
          ctx_merchant_id = rc_merchant_id c\<rparr>)"

text \<open>The base settings are the processor's or, as \<^verbatim>\<open>load_recovery_settings\<close> does, the environment's.\<close>

definition build_policy_context :: "uuid \<Rightarrow> RecoverySettings \<Rightarrow> PolicyContext dbprog" where
  "build_policy_context i base =
     bind (read_case i) (\<lambda>c.
     bind now (\<lambda>t.
     bind (gets (\<lambda>s. get_merchant s (rc_merchant_id c))) (\<lambda>mer.
       case mer of
         None \<Rightarrow> raise ValueError
       | Some merchant \<Rightarrow>
           bind (lift (merge_merchant base (mer_settings merchant))) (\<lambda>merged.
           gets (\<lambda>s. policy_context_of s c merchant merged t)))))"

subsection \<open>What the rules mean\<close>

definition discount_forbidden :: "PolicyContext \<Rightarrow> ProposedAction \<Rightarrow> bool" where
  "discount_forbidden ctx p = (case pa_discount_percent p of None \<Rightarrow> True | Some percent \<Rightarrow>
     percent > max_discount_percent (ctx_settings ctx) \<or> \<not> ctx_discount_eligible ctx
     \<or> ctx_discount_spent_today ctx
        + (case pa_discount_amount p of Some a \<Rightarrow> a
           | None \<Rightarrow> quantize (rc_amount_at_risk (ctx_case ctx)) * percent / 100)
        > max_daily_discount_budget (ctx_settings ctx))"

definition communication_forbidden :: "PolicyContext \<Rightarrow> RecoveryActionType \<Rightarrow> bool" where
  "communication_forbidden ctx a \<longleftrightarrow>
     ctx_customer_opted_out ctx
     \<or> ctx_communications_last_24h ctx \<ge> max_communications_per_day (ctx_settings ctx)
     \<or> a = SEND_REMINDER \<and> in_quiet_hours ctx (ctx_settings ctx)"

definition policy_forbids :: "PolicyContext \<Rightarrow> RecoveryActionType \<Rightarrow> ProposedAction \<Rightarrow> bool" where
  "policy_forbids ctx a p \<longleftrightarrow>
     action_value a \<in> set (ctx_blocked_action_types ctx)
     \<or> a \<in> set AUTOMATIC_ACTIONS \<and>
         (\<not> automatic_recovery_enabled (ctx_settings ctx) \<or> ctx_suspicious ctx
          \<or> ctx_source_mismatch ctx)
     \<or> a \<in> set RETRY_ACTIONS \<and> ctx_retry_count ctx \<ge> max_retry_attempts (ctx_settings ctx)
     \<or> a = OFFER_DISCOUNT \<and> discount_forbidden ctx p
     \<or> a \<in> set COMMUNICATION_ACTIONS \<and> communication_forbidden ctx a"

definition policy_needs_approval :: "PolicyContext \<Rightarrow> RecoveryActionType \<Rightarrow> bool" where
  "policy_needs_approval ctx a \<longleftrightarrow>
     a \<noteq> ESCALATE \<and> a \<noteq> DO_NOTHING
     \<and> quantize (rc_amount_at_risk (ctx_case ctx))
        > min (high_value_approval_threshold (ctx_settings ctx))
              (medium_value_approval_threshold (ctx_settings ctx))"

text \<open>
  The risk level the rules demand: \<open>RED\<close> above the high value threshold and for every hard
  restriction, \<open>YELLOW\<close> above the medium threshold, for a reached message limit, for quiet hours
  and for any positive discount, \<open>GREEN\<close> otherwise.
\<close>

definition policy_red :: "PolicyContext \<Rightarrow> RecoveryActionType \<Rightarrow> ProposedAction \<Rightarrow> bool" where
  "policy_red ctx a p \<longleftrightarrow>
     a \<noteq> ESCALATE \<and> a \<noteq> DO_NOTHING
       \<and> quantize (rc_amount_at_risk (ctx_case ctx)) > high_value_approval_threshold (ctx_settings ctx)
     \<or> action_value a \<in> set (ctx_blocked_action_types ctx)
     \<or> a \<in> set AUTOMATIC_ACTIONS \<and>
         (\<not> automatic_recovery_enabled (ctx_settings ctx) \<or> ctx_suspicious ctx
          \<or> ctx_source_mismatch ctx)
     \<or> a \<in> set RETRY_ACTIONS \<and> ctx_retry_count ctx \<ge> max_retry_attempts (ctx_settings ctx)
     \<or> a = OFFER_DISCOUNT \<and> discount_forbidden ctx p
     \<or> a \<in> set COMMUNICATION_ACTIONS \<and> ctx_customer_opted_out ctx"

definition policy_yellow :: "PolicyContext \<Rightarrow> RecoveryActionType \<Rightarrow> ProposedAction \<Rightarrow> bool" where
  "policy_yellow ctx a p \<longleftrightarrow>
     a \<noteq> ESCALATE \<and> a \<noteq> DO_NOTHING
       \<and> quantize (rc_amount_at_risk (ctx_case ctx)) > medium_value_approval_threshold (ctx_settings ctx)
     \<or> a = OFFER_DISCOUNT \<and> (case pa_discount_percent p of None \<Rightarrow> False | Some q \<Rightarrow> q > 0)
     \<or> a \<in> set COMMUNICATION_ACTIONS \<and>
         (ctx_communications_last_24h ctx \<ge> max_communications_per_day (ctx_settings ctx)
          \<or> a = SEND_REMINDER \<and> in_quiet_hours ctx (ctx_settings ctx))"

definition policy_risk :: "PolicyContext \<Rightarrow> RecoveryActionType \<Rightarrow> ProposedAction \<Rightarrow> RiskLevel" where
  "policy_risk ctx a p = (if policy_red ctx a p then RED else if policy_yellow ctx a p then YELLOW
                          else GREEN)"

subsection \<open>The fold over the hits\<close>

definition hits_deny :: "RuleHit list \<Rightarrow> bool" where
  "hits_deny hs \<longleftrightarrow> (\<exists>h \<in> set hs. hit_allowed h = Some False)"

definition hits_approve :: "RuleHit list \<Rightarrow> bool" where
  "hits_approve hs \<longleftrightarrow> (\<exists>h \<in> set hs. hit_requires_approval h = Some True)"

definition hits_coloured :: "RuleHit list \<Rightarrow> bool" where
  "hits_coloured hs \<longleftrightarrow> (\<exists>h \<in> set hs. hit_risk_level h = Some YELLOW \<or> hit_risk_level h = Some RED)"

definition hits_red :: "RuleHit list \<Rightarrow> bool" where
  "hits_red hs \<longleftrightarrow> (\<exists>h \<in> set hs. hit_risk_level h = Some RED)"

lemma RISK_RANK_green [simp]: "RISK_RANK r > 0 \<longleftrightarrow> r \<noteq> GREEN"
  by (cases r) simp_all

lemma fold_hits:
  "\<exists>risk'. foldl apply_hit (al, ap, risk, rs, ids) hs =
     (al \<and> \<not> hits_deny hs, ap \<or> hits_approve hs, risk',
      rs @ filter (\<lambda>r. r \<noteq> []) (map hit_reason hs), ids @ map hit_policy_id hs)"
proof (induction hs arbitrary: al ap risk rs ids)
  case Nil
  then show ?case by (simp add: hits_deny_def hits_approve_def)
next
  case (Cons h hs)
  obtain al' ap' risk' rs' ids' where
    h: "apply_hit (al, ap, risk, rs, ids) h = (al', ap', risk', rs', ids')"
    by (cases "apply_hit (al, ap, risk, rs, ids) h") metis
  then have "al' \<longleftrightarrow> al \<and> hit_allowed h \<noteq> Some False"
    and "ap' \<longleftrightarrow> ap \<or> hit_requires_approval h = Some True"
    and "rs' = rs @ (if hit_reason h \<noteq> [] then [hit_reason h] else [])"
    and "ids' = ids @ [hit_policy_id h]"
    by (auto split: if_splits)
  then show ?case
    using Cons.IH [of al' ap' risk' rs' ids'] unfolding foldl_Cons h
    by (auto simp: hits_deny_def hits_approve_def)
qed

lemma apply_hit_coloured:
  assumes "apply_hit (al, ap, risk, rs, ids) h = (al', ap', risk', rs', ids')"
  shows "risk' = GREEN \<longleftrightarrow> risk = GREEN \<and> hit_risk_level h \<noteq> Some YELLOW \<and> hit_risk_level h \<noteq> Some RED"
  using assms by (cases risk; cases "hit_risk_level h"; cases "the (hit_risk_level h)") auto

lemma fold_risk:
  "fst (snd (snd (foldl apply_hit (al, ap, risk, rs, ids) hs))) = GREEN \<longleftrightarrow>
     risk = GREEN \<and> \<not> hits_coloured hs"
proof (induction hs arbitrary: al ap risk rs ids)
  case Nil
  then show ?case by (simp add: hits_coloured_def)
next
  case (Cons h hs)
  obtain al' ap' risk' rs' ids' where h: "apply_hit (al, ap, risk, rs, ids) h = (al', ap', risk', rs', ids')"
    by (cases "apply_hit (al, ap, risk, rs, ids) h") metis
  show ?case
    using apply_hit_coloured [OF h] Cons.IH [of al' ap' risk' rs' ids']
    by (auto simp: h hits_coloured_def simp del: apply_hit.simps)
qed

lemma hits_red_simps [simp]:
  "hits_red [] = False"
  "hits_red (xs @ ys) \<longleftrightarrow> hits_red xs \<or> hits_red ys"
  "hits_red (h # hs) \<longleftrightarrow> hit_risk_level h = Some RED \<or> hits_red hs"
  by (auto simp: hits_red_def)

lemma apply_hit_red:
  assumes "apply_hit (al, ap, risk, rs, ids) h = (al', ap', risk', rs', ids')"
  shows "risk' = RED \<longleftrightarrow> risk = RED \<or> hit_risk_level h = Some RED"
  using assms by (cases risk; cases "hit_risk_level h"; cases "the (hit_risk_level h)") auto

lemma fold_red:
  "fst (snd (snd (foldl apply_hit (al, ap, risk, rs, ids) hs))) = RED \<longleftrightarrow> risk = RED \<or> hits_red hs"
proof (induction hs arbitrary: al ap risk rs ids)
  case (Cons h hs)
  obtain al' ap' risk' rs' ids' where h: "apply_hit (al, ap, risk, rs, ids) h = (al', ap', risk', rs', ids')"
    by (cases "apply_hit (al, ap, risk, rs, ids) h") metis
  show ?case
    using apply_hit_red [OF h] Cons.IH [of al' ap' risk' rs' ids']
    by (auto simp: h simp del: apply_hit.simps)
qed simp

lemma combine_hits_risk:
  "pr_risk_level (combine_hits st hs)
     = (if hits_red hs then RED else if hits_coloured hs then YELLOW else GREEN)"
  using fold_risk [of True False GREEN "[]" "[]" hs] fold_red [of True False GREEN "[]" "[]" hs]
  by (cases "pr_risk_level (combine_hits st hs)")
     (auto simp: combine_hits_def Let_def split: prod.splits if_splits)

lemma combine_hits_fields:
  "pr_allowed (combine_hits st hs) = (\<not> hits_deny hs)"
  "pr_requires_approval (combine_hits st hs) = (\<not> hits_deny hs \<and> hits_approve hs)"
  "pr_policy_ids (combine_hits st hs) = map hit_policy_id hs"
  "pr_risk_level (combine_hits st hs) = GREEN \<longleftrightarrow> \<not> hits_coloured hs"
  "pr_policy_version (combine_hits st hs) = version_label st"
  using fold_hits [of True False GREEN "[]" "[]" hs] fold_risk [of True False GREEN "[]" "[]" hs]
  by (auto simp: combine_hits_def Let_def split: prod.splits)

lemma combine_hits_reason:
  "filter (\<lambda>r. r \<noteq> []) (map hit_reason hs) \<noteq> [] \<Longrightarrow>
   pr_reason (combine_hits st hs) = join ''; '' (filter (\<lambda>r. r \<noteq> []) (map hit_reason hs))"
  using fold_hits [of True False GREEN "[]" "[]" hs]
  by (auto simp: combine_hits_def Let_def split: prod.splits)

lemma deny_fields [simp]:
  "hit_allowed (deny p r w) = Some False" "hit_requires_approval (deny p r w) = None"
  "hit_risk_level (deny p r w) = Some r" "hit_reason (deny p r w) = w"
  "hit_policy_id (deny p r w) = p"
  by (simp_all add: deny_def)

lemma hits_append [simp]:
  "hits_deny (xs @ ys) \<longleftrightarrow> hits_deny xs \<or> hits_deny ys"
  "hits_approve (xs @ ys) \<longleftrightarrow> hits_approve xs \<or> hits_approve ys"
  "hits_deny [] = False" "hits_approve [] = False"
  "hits_deny (h # hs) \<longleftrightarrow> hit_allowed h = Some False \<or> hits_deny hs"
  "hits_approve (h # hs) \<longleftrightarrow> hit_requires_approval h = Some True \<or> hits_approve hs"
  by (auto simp: hits_deny_def hits_approve_def)

lemma hits_coloured_simps [simp]:
  "hits_coloured [] = False"
  "hits_coloured (xs @ ys) \<longleftrightarrow> hits_coloured xs \<or> hits_coloured ys"
  "hits_coloured (h # hs) \<longleftrightarrow>
     hit_risk_level h = Some YELLOW \<or> hit_risk_level h = Some RED \<or> hits_coloured hs"
  by (auto simp: hits_coloured_def)

subsection \<open>The rules against their meaning\<close>

lemma discount_rules_meaning:
  assumes "0 \<le> rc_amount_at_risk (ctx_case ctx)"
  obtains hs where "discount_rules ctx p (ctx_settings ctx) = Inr hs"
    "hits_deny hs \<longleftrightarrow> discount_forbidden ctx p" "\<not> hits_approve hs"
    "hits_deny hs \<Longrightarrow> hits_coloured hs"
proof (cases "pa_discount_percent p")
  case None
  then show ?thesis
    by (intro that, simp add: discount_rules_def) (simp_all add: discount_forbidden_def)
next
  case (Some percent)
  have am: "as_money (rc_amount_at_risk (ctx_case ctx)) = Inr (quantize (rc_amount_at_risk (ctx_case ctx)))"
    using assms by (rule as_money_nonneg)
  define amount where "amount = (case pa_discount_amount p of Some a \<Rightarrow> a
     | None \<Rightarrow> quantize (rc_amount_at_risk (ctx_case ctx)) * percent / 100)"
  have "(case pa_discount_amount p of Some a \<Rightarrow> Inr a
         | None \<Rightarrow> bindE (as_money (rc_amount_at_risk (ctx_case ctx)))
                     (\<lambda>m. Inr (m * percent / 100))) = Inr amount"
    by (simp add: am amount_def split: option.split)
  with Some show ?thesis
    by (intro that, simp add: discount_rules_def)
       (auto simp: discount_forbidden_def amount_def split: if_splits)
qed

lemma communication_rules_meaning:
  "hits_deny (communication_rules ctx a (ctx_settings ctx)) \<longleftrightarrow> communication_forbidden ctx a"
  "\<not> hits_approve (communication_rules ctx a (ctx_settings ctx))"
  "communication_forbidden ctx a \<Longrightarrow>
   hits_coloured (communication_rules ctx a (ctx_settings ctx))"
  by (auto simp: communication_rules_def communication_forbidden_def split: if_splits)

lemma restriction_rules_meaning:
  assumes "0 \<le> rc_amount_at_risk (ctx_case ctx)"
  obtains hs where "restriction_rules ctx a p (ctx_settings ctx) = Inr hs"
    "hits_deny hs \<longleftrightarrow> policy_forbids ctx a p" "\<not> hits_approve hs"
    "hits_deny hs \<Longrightarrow> hits_coloured hs"
proof -
  obtain ds where ds: "(if a = OFFER_DISCOUNT then discount_rules ctx p (ctx_settings ctx) else Inr []) = Inr ds"
    "hits_deny ds \<longleftrightarrow> a = OFFER_DISCOUNT \<and> discount_forbidden ctx p" "\<not> hits_approve ds"
    "hits_deny ds \<Longrightarrow> hits_coloured ds"
    by (cases "a = OFFER_DISCOUNT")
       (use discount_rules_meaning [OF assms, of p] in force, simp)
  have dcol: "a = OFFER_DISCOUNT \<Longrightarrow> discount_forbidden ctx p \<Longrightarrow> hits_coloured ds"
    using ds(2,4) by simp
  note comm = communication_rules_meaning [of ctx a]
  from ds(1) show ?thesis
  proof (rule_tac that)
    assume "(if a = OFFER_DISCOUNT then discount_rules ctx p (ctx_settings ctx) else Inr []) = Inr ds"
    then show "restriction_rules ctx a p (ctx_settings ctx) = Inr (
          (if action_value a \<in> set (ctx_blocked_action_types ctx) then
             [deny ''blocked_action_types'' RED
                (''Action '' @ action_value a @ '' is blocked by merchant policy'')] else []) @
          (if \<not> automatic_recovery_enabled (ctx_settings ctx) \<and> a \<in> set AUTOMATIC_ACTIONS then
             [deny ''automatic_recovery_kill_switch'' RED
                ''Automatic recovery is disabled by the merchant kill switch''] else []) @
          (if (ctx_suspicious ctx \<or> ctx_source_mismatch ctx) \<and> a \<in> set AUTOMATIC_ACTIONS then
             [deny ''suspicious_source_mismatch'' RED
                ''Suspicious or source-mismatch cases cannot run automatic recovery''] else []) @
          (if a \<in> set RETRY_ACTIONS \<and> ctx_retry_count ctx \<ge> max_retry_attempts (ctx_settings ctx) then
             [deny ''max_retry_attempts'' RED ''Retry attempt limit has been reached''] else []) @
          ds @
          (if a \<in> set COMMUNICATION_ACTIONS then communication_rules ctx a (ctx_settings ctx)
           else []))"
      by (simp only: restriction_rules_def bindE_simps)
  qed (auto simp: policy_forbids_def ds(2,3) comm intro: dcol dest: comm(3))
qed

lemma value_risk_meaning:
  assumes "0 \<le> rc_amount_at_risk (ctx_case ctx)"
  obtains h where "value_risk ctx a = Inr h" "hit_allowed h = Some True"
    "hit_requires_approval h = Some True \<longleftrightarrow> policy_needs_approval ctx a"
    "policy_needs_approval ctx a \<Longrightarrow> hits_coloured [h]" "hit_reason h \<noteq> []"
  using assms by (auto simp: value_risk_def as_money_nonneg policy_needs_approval_def min_def
      split: if_splits)

lemma value_risk_level:
  assumes "0 \<le> rc_amount_at_risk (ctx_case ctx)" and "value_risk ctx a = Inr h"
  shows "hits_red [h] \<longleftrightarrow> a \<noteq> ESCALATE \<and> a \<noteq> DO_NOTHING
       \<and> quantize (rc_amount_at_risk (ctx_case ctx)) > high_value_approval_threshold (ctx_settings ctx)"
    and "hits_coloured [h] \<longleftrightarrow> hits_red [h] \<or> a \<noteq> ESCALATE \<and> a \<noteq> DO_NOTHING
       \<and> quantize (rc_amount_at_risk (ctx_case ctx)) > medium_value_approval_threshold (ctx_settings ctx)"
  using assms by (auto simp: value_risk_def as_money_nonneg split: if_splits)

lemma discount_rules_level:
  assumes "0 \<le> rc_amount_at_risk (ctx_case ctx)" and "discount_rules ctx p (ctx_settings ctx) = Inr hs"
  shows "hits_red hs \<longleftrightarrow> discount_forbidden ctx p"
    and "hits_coloured hs \<longleftrightarrow> discount_forbidden ctx p
      \<or> (case pa_discount_percent p of None \<Rightarrow> False | Some q \<Rightarrow> q > 0)"
  using assms
  by (auto simp: discount_rules_def discount_forbidden_def as_money_nonneg split: option.splits if_splits)

lemma hits_if:
  "hits_red (if P then hs else []) \<longleftrightarrow> P \<and> hits_red hs"
  "hits_coloured (if P then hs else []) \<longleftrightarrow> P \<and> hits_coloured hs"
  by simp_all

lemma communication_rules_level:
  "hits_red (communication_rules ctx a st) \<longleftrightarrow> ctx_customer_opted_out ctx"
  "hits_coloured (communication_rules ctx a st) \<longleftrightarrow> ctx_customer_opted_out ctx
     \<or> ctx_communications_last_24h ctx \<ge> max_communications_per_day st
     \<or> a = SEND_REMINDER \<and> in_quiet_hours ctx st"
  by (auto simp: communication_rules_def)

lemma policy_risk_hits:
  assumes "0 \<le> rc_amount_at_risk (ctx_case ctx)" and "value_risk ctx a = Inr h"
    and "restriction_rules ctx a p (ctx_settings ctx) = Inr hs"
  shows "policy_risk ctx a p = (if hits_red (h # hs) then RED
      else if hits_coloured (h # hs) then YELLOW else GREEN)"
proof -
  obtain ds where ds: "(if a = OFFER_DISCOUNT then discount_rules ctx p (ctx_settings ctx) else Inr []) = Inr ds"
    using assms(3) by (auto simp: restriction_rules_def bindE_Inr_iff)
  have d: "hits_red ds \<longleftrightarrow> a = OFFER_DISCOUNT \<and> discount_forbidden ctx p"
    "hits_coloured ds \<longleftrightarrow> a = OFFER_DISCOUNT \<and> (discount_forbidden ctx p
       \<or> (case pa_discount_percent p of None \<Rightarrow> False | Some q \<Rightarrow> q > 0))"
    using discount_rules_level [OF assms(1)] ds by (auto split: if_splits)
  have hs: "hits_red hs \<longleftrightarrow> action_value a \<in> set (ctx_blocked_action_types ctx)
     \<or> a \<in> set AUTOMATIC_ACTIONS \<and> (\<not> automatic_recovery_enabled (ctx_settings ctx)
          \<or> ctx_suspicious ctx \<or> ctx_source_mismatch ctx)
     \<or> a \<in> set RETRY_ACTIONS \<and> ctx_retry_count ctx \<ge> max_retry_attempts (ctx_settings ctx)
     \<or> hits_red ds \<or> a \<in> set COMMUNICATION_ACTIONS \<and> ctx_customer_opted_out ctx"
    "hits_coloured hs \<longleftrightarrow> action_value a \<in> set (ctx_blocked_action_types ctx)
     \<or> a \<in> set AUTOMATIC_ACTIONS \<and> (\<not> automatic_recovery_enabled (ctx_settings ctx)
          \<or> ctx_suspicious ctx \<or> ctx_source_mismatch ctx)
     \<or> a \<in> set RETRY_ACTIONS \<and> ctx_retry_count ctx \<ge> max_retry_attempts (ctx_settings ctx)
     \<or> hits_coloured ds
     \<or> a \<in> set COMMUNICATION_ACTIONS \<and> (ctx_customer_opted_out ctx
          \<or> ctx_communications_last_24h ctx \<ge> max_communications_per_day (ctx_settings ctx)
          \<or> a = SEND_REMINDER \<and> in_quiet_hours ctx (ctx_settings ctx))"
    using assms(3) unfolding restriction_rules_def ds bindE_simps sum.inject
    by - (hypsubst, simp add: hits_if communication_rules_level del: if_split, blast)+
  note v = value_risk_level [OF assms(1,2)]
  have split: "hits_red (h # hs) \<longleftrightarrow> hits_red [h] \<or> hits_red hs"
    "hits_coloured (h # hs) \<longleftrightarrow> hits_coloured [h] \<or> hits_coloured hs"
    by simp_all
  have red: "hits_red (h # hs) \<longleftrightarrow> policy_red ctx a p"
    unfolding split(1) v(1) hs(1) d(1) policy_red_def by blast
  have "hits_coloured (h # hs) \<longleftrightarrow> policy_red ctx a p \<or> policy_yellow ctx a p"
    unfolding split(2) v hs(2) d(2) policy_red_def policy_yellow_def by blast
  with red show ?thesis by (simp add: policy_risk_def)
qed

lemma parse_action_value [simp]: "parse_action (action_value a) = Some a"
  by (simp add: parse_action_def)

lemma parse_action_None: "parse_action v = None \<longleftrightarrow> v \<notin> range action_value"
  using action_enum.parse_raises_iff [of v] action_enum.parse_Inr_iff [of v]
  by (auto simp: parse_action_def split: sum.splits)

lemma evaluate_action_hits:
  assumes "0 \<le> rc_amount_at_risk (ctx_case ctx)" and "pa_action_type p = action_value a"
  obtains h hs where "value_risk ctx a = Inr h" "restriction_rules ctx a p (ctx_settings ctx) = Inr hs"
    "evaluate_action ctx p = Inr (combine_hits (ctx_settings ctx) (h # hs))"
proof -
  obtain h where h: "value_risk ctx a = Inr h"
    using value_risk_meaning [OF assms(1)] by blast
  obtain hs where hs: "restriction_rules ctx a p (ctx_settings ctx) = Inr hs"
    using restriction_rules_meaning [OF assms(1)] by blast
  from h hs show ?thesis
    by (rule that) (simp add: evaluate_action_def assms(2) h hs)
qed

lemma evaluate_action_risk:
  assumes "0 \<le> rc_amount_at_risk (ctx_case ctx)" and "pa_action_type p = action_value a"
    and "evaluate_action ctx p = Inr r"
  shows "pr_risk_level r = policy_risk ctx a p"
proof -
  obtain h hs where h: "value_risk ctx a = Inr h" "restriction_rules ctx a p (ctx_settings ctx) = Inr hs"
    and "evaluate_action ctx p = Inr (combine_hits (ctx_settings ctx) (h # hs))"
    using evaluate_action_hits [OF assms(1,2)] by blast
  then have "r = combine_hits (ctx_settings ctx) (h # hs)"
    using assms(3) by simp
  then show ?thesis
    by (simp only: combine_hits_risk policy_risk_hits [OF assms(1) h])
qed

text \<open>
  C3. \<^bold>\<open>The policy engine implements its rules and fails closed.\<close> For a case whose exposure is
  not negative the engine always returns a verdict, stamped with the policy version of the
  settings. An action outside the closed enumeration is refused as \<open>RED\<close> and never asks for
  approval. A known action is allowed exactly when no rule of \<open>policy_forbids\<close> hits; it requires
  approval exactly when it is allowed and the exposure is above one of the two value thresholds
  (human-path actions excepted); and its risk level is \<open>policy_risk\<close>: \<open>RED\<close> when \<open>policy_red\<close>
  holds, else \<open>YELLOW\<close> when \<open>policy_yellow\<close> holds, else \<open>GREEN\<close>.
\<close>

theorem evaluate_action_refines:
  assumes "0 \<le> rc_amount_at_risk (ctx_case ctx)"
  shows "\<exists>r. evaluate_action ctx p = Inr r
    \<and> pr_policy_version r = version_label (ctx_settings ctx)
    \<and> (pa_action_type p \<notin> range action_value \<longrightarrow>
         \<not> pr_allowed r \<and> \<not> pr_requires_approval r \<and> pr_risk_level r = RED)
    \<and> (\<forall>a. pa_action_type p = action_value a \<longrightarrow>
         (pr_allowed r \<longleftrightarrow> \<not> policy_forbids ctx a p)
         \<and> (pr_requires_approval r \<longleftrightarrow> \<not> policy_forbids ctx a p \<and> policy_needs_approval ctx a)
         \<and> pr_risk_level r = policy_risk ctx a p
         \<and> (pr_risk_level r = GREEN \<longrightarrow> pr_allowed r \<and> \<not> pr_requires_approval r))"
proof (cases "parse_action (pa_action_type p)")
  case None
  then show ?thesis
    by (auto simp: evaluate_action_def parse_action_None [symmetric])
next
  case (Some a)
  then have a: "pa_action_type p = action_value a"
    using action_enum.parse_Inr_iff by (auto simp: parse_action_def split: sum.splits)
  obtain h where h: "value_risk ctx a = Inr h" "hit_allowed h = Some True"
    "hit_requires_approval h = Some True \<longleftrightarrow> policy_needs_approval ctx a"
    "policy_needs_approval ctx a \<Longrightarrow> hits_coloured [h]"
    using value_risk_meaning [OF assms, of a] by blast
  obtain hs where hs: "restriction_rules ctx a p (ctx_settings ctx) = Inr hs"
    "hits_deny hs \<longleftrightarrow> policy_forbids ctx a p" "\<not> hits_approve hs"
    "hits_deny hs \<Longrightarrow> hits_coloured hs"
    using restriction_rules_meaning [OF assms, of a p] by blast
  let ?r = "combine_hits (ctx_settings ctx) (h # hs)"
  have e: "evaluate_action ctx p = Inr ?r"
    by (simp add: evaluate_action_def a h hs)
  have lv: "pr_risk_level ?r = policy_risk ctx a p"
    by (simp only: combine_hits_risk policy_risk_hits [OF assms h(1) hs(1)])
  have fields: "pr_allowed ?r \<longleftrightarrow> \<not> policy_forbids ctx a p"
    "pr_requires_approval ?r \<longleftrightarrow> \<not> policy_forbids ctx a p \<and> policy_needs_approval ctx a"
    "pr_risk_level ?r = GREEN \<Longrightarrow> pr_allowed ?r \<and> \<not> pr_requires_approval ?r"
    "pr_policy_version ?r = version_label (ctx_settings ctx)"
    using h hs by (auto simp: combine_hits_fields)
  have inj: "a' = a" if "pa_action_type p = action_value a'" for a'
    using that a action_enum.val_inj by metis
  show ?thesis
  proof (intro exI [of _ ?r] conjI allI impI)
    fix a'
    assume "pa_action_type p = action_value a'"
    note inj [OF this, simp]
    show "pr_allowed ?r \<longleftrightarrow> \<not> policy_forbids ctx a' p"
      and "pr_requires_approval ?r \<longleftrightarrow> \<not> policy_forbids ctx a' p \<and> policy_needs_approval ctx a'"
      and "pr_risk_level ?r = policy_risk ctx a' p"
      using lv fields by simp_all
  qed (use a e fields in auto)
qed

definition demo_context :: PolicyContext where
  "demo_context = \<lparr>ctx_case = demo_case, ctx_merchant = demo_merchant,
     ctx_customer = Some demo_customer, ctx_payment = Some demo_payment,
     ctx_settings = default_settings, ctx_now = 43200000000, ctx_retry_count = 0,
     ctx_communications_last_24h = 0, ctx_discount_spent_today = 0,
     ctx_blocked_action_types = [], ctx_customer_opted_out = False, ctx_suspicious = False,
     ctx_source_mismatch = False, ctx_discount_eligible = True, ctx_merchant_id = 1\<rparr>"

lemma demo_context_risk: "0 \<le> rc_amount_at_risk (ctx_case demo_context)"
  by (simp add: demo_context_def demo_case_def)

theorem evaluate_action_refines_witness:
  "\<exists>r. evaluate_action demo_context (propose RETRY_LATER) = Inr r
     \<and> pr_allowed r \<and> \<not> pr_requires_approval r \<and> pr_risk_level r = GREEN"
proof -
  have free: "\<not> policy_forbids demo_context RETRY_LATER (propose RETRY_LATER)"
    "\<not> policy_needs_approval demo_context RETRY_LATER"
    "policy_risk demo_context RETRY_LATER (propose RETRY_LATER) = GREEN"
    by (simp_all add: policy_forbids_def policy_needs_approval_def policy_risk_def policy_red_def
        policy_yellow_def demo_context_def demo_defs
        default_settings_def AUTOMATIC_ACTIONS_def RETRY_ACTIONS_def COMMUNICATION_ACTIONS_def
        quantize_two_decimal two_decimal_def)
  have p: "pa_action_type (propose RETRY_LATER) = action_value RETRY_LATER"
    by (simp add: propose_def)
  obtain r where r: "evaluate_action demo_context (propose RETRY_LATER) = Inr r"
    and all: "\<forall>a. pa_action_type (propose RETRY_LATER) = action_value a \<longrightarrow>
      (pr_allowed r \<longleftrightarrow> \<not> policy_forbids demo_context a (propose RETRY_LATER))
      \<and> (pr_requires_approval r \<longleftrightarrow> \<not> policy_forbids demo_context a (propose RETRY_LATER)
           \<and> policy_needs_approval demo_context a)
      \<and> pr_risk_level r = policy_risk demo_context a (propose RETRY_LATER)
      \<and> (pr_risk_level r = GREEN \<longrightarrow> pr_allowed r \<and> \<not> pr_requires_approval r)"
    using evaluate_action_refines [OF demo_context_risk, of "propose RETRY_LATER"] by (elim exE conjE)
  show ?thesis
    using all [rule_format, OF p] r free by simp
qed

subsection \<open>Monotonicity\<close>

text \<open>\<open>stricter ctx ctx'\<close>: the same case and settings, with at least as much speaking against it.\<close>

definition stricter :: "PolicyContext \<Rightarrow> PolicyContext \<Rightarrow> bool" where
  "stricter ctx ctx' \<longleftrightarrow>
     ctx_case ctx' = ctx_case ctx \<and> ctx_settings ctx' = ctx_settings ctx \<and> ctx_now ctx' = ctx_now ctx
     \<and> ctx_retry_count ctx \<le> ctx_retry_count ctx'
     \<and> ctx_communications_last_24h ctx \<le> ctx_communications_last_24h ctx'
     \<and> ctx_discount_spent_today ctx \<le> ctx_discount_spent_today ctx'
     \<and> set (ctx_blocked_action_types ctx) \<subseteq> set (ctx_blocked_action_types ctx')
     \<and> (ctx_customer_opted_out ctx \<longrightarrow> ctx_customer_opted_out ctx')
     \<and> (ctx_suspicious ctx \<longrightarrow> ctx_suspicious ctx')
     \<and> (ctx_source_mismatch ctx \<longrightarrow> ctx_source_mismatch ctx')
     \<and> (ctx_discount_eligible ctx' \<longrightarrow> ctx_discount_eligible ctx)"

lemma policy_forbids_mono:
  assumes s: "stricter ctx ctx'" and f: "policy_forbids ctx a p"
  shows "policy_forbids ctx' a p"
proof -
  have q: "in_quiet_hours ctx' st = in_quiet_hours ctx st" for st
    using s by (simp add: stricter_def in_quiet_hours_def)
  have c: "communication_forbidden ctx a \<Longrightarrow> communication_forbidden ctx' a"
    using s by (auto simp: communication_forbidden_def stricter_def q)
  have d: "discount_forbidden ctx p \<Longrightarrow> discount_forbidden ctx' p"
    using s by (auto simp: discount_forbidden_def stricter_def split: option.splits)
  have r: "max_retry_attempts (ctx_settings ctx) \<le> ctx_retry_count ctx \<Longrightarrow>
           max_retry_attempts (ctx_settings ctx') \<le> ctx_retry_count ctx'"
    using s by (simp add: stricter_def)
  have rest: "set (ctx_blocked_action_types ctx) \<subseteq> set (ctx_blocked_action_types ctx')"
    "ctx_settings ctx' = ctx_settings ctx" "ctx_suspicious ctx \<Longrightarrow> ctx_suspicious ctx'"
    "ctx_source_mismatch ctx \<Longrightarrow> ctx_source_mismatch ctx'"
    using s by (simp_all add: stricter_def)
  from f show ?thesis
    unfolding policy_forbids_def rest(2) using c d r rest(1,3,4) unfolding rest(2) by blast
qed

lemma evaluate_action_allowed:
  assumes "0 \<le> rc_amount_at_risk (ctx_case ctx)" and "pa_action_type p = action_value a"
    and "evaluate_action ctx p = Inr r"
  shows "pr_allowed r \<longleftrightarrow> \<not> policy_forbids ctx a p"
proof -
  obtain h where h: "value_risk ctx a = Inr h" "hit_allowed h = Some True"
    using value_risk_meaning [OF assms(1), of a] by blast
  obtain hs where hs: "restriction_rules ctx a p (ctx_settings ctx) = Inr hs"
    "hits_deny hs \<longleftrightarrow> policy_forbids ctx a p"
    using restriction_rules_meaning [OF assms(1), of a p] by blast
  have "r = combine_hits (ctx_settings ctx) (h # hs)"
    using assms(3) by (simp add: evaluate_action_def assms(2) h hs)
  then show ?thesis using h hs by (simp add: combine_hits_fields)
qed

text \<open>
  C22. \<^bold>\<open>Policy is monotone.\<close> More retries, more messages, more discount already spent, a longer
  block list, an opt-out, a suspicion or a lost eligibility never turn a refused action into an
  allowed one.
\<close>

theorem policy_monotone:
  assumes "stricter ctx ctx'" and "0 \<le> rc_amount_at_risk (ctx_case ctx)"
    and "pa_action_type p = action_value a"
    and "evaluate_action ctx p = Inr r" and "evaluate_action ctx' p = Inr r'"
    and "pr_allowed r'"
  shows "pr_allowed r"
proof -
  have "ctx_case ctx' = ctx_case ctx"
    using assms(1) by (simp add: stricter_def)
  then have "0 \<le> rc_amount_at_risk (ctx_case ctx')"
    using assms(2) by simp
  then have "\<not> policy_forbids ctx' a p"
    using evaluate_action_allowed [OF _ assms(3,5)] assms(6) by blast
  then have "\<not> policy_forbids ctx a p"
    using policy_forbids_mono [OF assms(1)] by blast
  then show ?thesis
    using evaluate_action_allowed [OF assms(2,3,4)] by blast
qed

theorem policy_monotone_witness:
  "\<exists>r r'. evaluate_action demo_context (propose RETRY_NOW) = Inr r
     \<and> evaluate_action (demo_context\<lparr>ctx_retry_count := 2\<rparr>) (propose RETRY_NOW) = Inr r'
     \<and> pr_allowed r' \<and> pr_allowed r"
proof -
  let ?c = "demo_context\<lparr>ctx_retry_count := 2\<rparr>" and ?p = "propose RETRY_NOW"
  have p: "pa_action_type ?p = action_value RETRY_NOW" by (simp add: propose_def)
  have ge: "0 \<le> rc_amount_at_risk (ctx_case ?c)" using demo_context_risk by simp
  obtain r r' where r: "evaluate_action demo_context ?p = Inr r" "evaluate_action ?c ?p = Inr r'"
    using evaluate_action_hits [OF demo_context_risk p] evaluate_action_hits [OF ge p] by metis
  have s: "stricter demo_context ?c"
    by (simp add: stricter_def demo_context_def)
  have "\<not> policy_forbids ?c RETRY_NOW ?p"
    by (simp add: policy_forbids_def demo_context_def default_settings_def AUTOMATIC_ACTIONS_def
        RETRY_ACTIONS_def COMMUNICATION_ACTIONS_def)
  then have "pr_allowed r'"
    using evaluate_action_allowed [OF ge p r(2)] by simp
  with policy_monotone [OF s demo_context_risk p r] r show ?thesis by blast
qed

subsection \<open>Quiet hours\<close>

lemma mod_24_ring:
  assumes "0 \<le> (x::int)" "x < 24" "0 \<le> s" "s < 24"
  shows "(x - s) mod 24 = (if s \<le> x then x - s else x - s + 24)"
proof (cases "s \<le> x")
  case True
  with assms show ?thesis by simp
next
  case False
  have "(x - s) mod 24 = (x - s + 24) mod 24" by simp
  also have "\<dots> = x - s + 24" using False assms by (intro mod_pos_pos_trivial) auto
  finally show ?thesis using False by simp
qed

text \<open>
  \<^bold>\<open>Quiet hours wrap around midnight.\<close> With both bounds on the clock, the window is the
  arc that starts at the first bound and runs clockwise up to, not including, the second: an
  hour is quiet exactly when it is nearer to the start, going clockwise, than the end is. Equal
  bounds mean no quiet hours.
\<close>

theorem quiet_hours_arc:
  assumes "0 \<le> quiet_hours_start st" "quiet_hours_start st < 24"
    and "0 \<le> quiet_hours_end st" "quiet_hours_end st < 24"
  shows "in_quiet_hours ctx st \<longleftrightarrow>
    (hour_of (ctx_now ctx) - quiet_hours_start st) mod 24
      < (quiet_hours_end st - quiet_hours_start st) mod 24"
proof -
  have h: "0 \<le> hour_of (ctx_now ctx)" "hour_of (ctx_now ctx) < 24"
    by (simp_all add: hour_of_def)
  show ?thesis
    unfolding mod_24_ring [OF h assms(1,2)] mod_24_ring [OF assms(3,4,1,2)]
    using h assms by (auto simp: in_quiet_hours_def Let_def)
qed

theorem quiet_hours_arc_witness:
  "in_quiet_hours (demo_context\<lparr>ctx_now := 82800000000\<rparr>) default_settings
   \<and> \<not> in_quiet_hours demo_context default_settings"
  using quiet_hours_arc [of default_settings "demo_context\<lparr>ctx_now := 82800000000\<rparr>"]
    quiet_hours_arc [of default_settings demo_context]
  by (simp add: default_settings_def hour_of_def demo_context_def)

subsection \<open>Contracts\<close>

lemma build_policy_context_pure:
  "build_policy_context i base s = (r, s') \<Longrightarrow> s' = s"
  by (auto simp: build_policy_context_def prog_simps split: option.splits prod.splits sum.splits)

lemma build_policy_context_case:
  "build_policy_context i base s = (Inr ctx, s') \<Longrightarrow> get_case_unscoped s i = Some (ctx_case ctx)"
  by (auto simp: build_policy_context_def policy_context_of_def prog_simps Let_def
      split: option.splits prod.splits sum.splits)

lemma build_policy_context_eval:
  "get_case_unscoped s i = Some c \<Longrightarrow> get_merchant s (rc_merchant_id c) = Some m \<Longrightarrow>
   merge_merchant base (mer_settings m) = Inr st \<Longrightarrow>
   build_policy_context i base s = (Inr (policy_context_of s c m st (db_clock s)), s)"
  by (simp add: build_policy_context_def prog_simps)

lemma policy_context_of_fields [simp]:
  "ctx_case (policy_context_of s c m st t) = c"
  "ctx_settings (policy_context_of s c m st t) = st"
  "ctx_now (policy_context_of s c m st t) = t"
  by (simp_all add: policy_context_of_def Let_def)

lemma policy_verdict_case_irrelevant:
  assumes "rc_amount_at_risk d = rc_amount_at_risk (ctx_case ctx)"
  shows "policy_forbids (ctx\<lparr>ctx_case := d\<rparr>) a p = policy_forbids ctx a p"
    and "policy_needs_approval (ctx\<lparr>ctx_case := d\<rparr>) a = policy_needs_approval ctx a"
proof -
  have q: "in_quiet_hours (ctx\<lparr>ctx_case := d\<rparr>) st = in_quiet_hours ctx st" for st
    by (simp add: in_quiet_hours_def)
  have c: "communication_forbidden (ctx\<lparr>ctx_case := d\<rparr>) a = communication_forbidden ctx a"
    by (simp add: communication_forbidden_def q)
  have x: "discount_forbidden (ctx\<lparr>ctx_case := d\<rparr>) p = discount_forbidden ctx p"
    by (simp add: discount_forbidden_def assms split: option.split)
  show "policy_forbids (ctx\<lparr>ctx_case := d\<rparr>) a p = policy_forbids ctx a p"
    by (simp add: policy_forbids_def c x)
  show "policy_needs_approval (ctx\<lparr>ctx_case := d\<rparr>) a = policy_needs_approval ctx a"
    by (simp add: policy_needs_approval_def assms)
qed

lemma policy_risk_case_irrelevant:
  assumes "rc_amount_at_risk d = rc_amount_at_risk (ctx_case ctx)"
  shows "policy_risk (ctx\<lparr>ctx_case := d\<rparr>) a p = policy_risk ctx a p"
proof -
  have q: "in_quiet_hours (ctx\<lparr>ctx_case := d\<rparr>) st = in_quiet_hours ctx st" for st
    by (simp add: in_quiet_hours_def)
  have x: "discount_forbidden (ctx\<lparr>ctx_case := d\<rparr>) p = discount_forbidden ctx p"
    by (simp add: discount_forbidden_def assms split: option.split)
  have "policy_red (ctx\<lparr>ctx_case := d\<rparr>) a p = policy_red ctx a p"
    by (simp add: policy_red_def x assms)
  moreover have "policy_yellow (ctx\<lparr>ctx_case := d\<rparr>) a p = policy_yellow ctx a p"
    by (simp add: policy_yellow_def q assms)
  ultimately show ?thesis
    by (simp only: policy_risk_def)
qed

lemma evaluate_and_persist_eval:
  "evaluate_and_persist ctx p actor s =
    (case evaluate_action ctx p of Inl e \<Rightarrow> (Inl e, s)
     | Inr r \<Rightarrow> (Inr r, snd (persist_policy_evaluation ctx p r actor s)))"
  by (auto simp: evaluate_and_persist_def persist_policy_evaluation_def prog_simps split: sum.splits)

lemma evaluate_and_persist_result:
  "evaluate_and_persist ctx p actor s = (Inr r, s') \<Longrightarrow> evaluate_action ctx p = Inr r"
  by (auto simp: evaluate_and_persist_eval split: sum.splits)

lemma evaluate_and_persist_frame:
  "evaluate_and_persist ctx p actor s = (r, s') \<Longrightarrow>
     db_cases s' = db_cases s \<and> db_payments s' = db_payments s \<and> db_actions s' = db_actions s
     \<and> db_approvals s' = db_approvals s \<and> db_next_uuid s' = db_next_uuid s \<and> db_clock s' = db_clock s"
  by (auto simp: evaluate_and_persist_eval persist_policy_evaluation_def prog_simps
      split: sum.splits)

lemma build_policy_context_no_credit: "obeys (db_evolves case_no_credit) (build_policy_context i base)"
  unfolding build_policy_context_def by (intro no_credit_rules)

lemma evaluate_and_persist_no_credit:
  "obeys (db_evolves case_no_credit) (evaluate_and_persist ctx p actor)"
  unfolding evaluate_and_persist_def persist_policy_evaluation_def
  by (intro no_credit_rules no_credit.obeys_modify) simp_all

lemma keeps_ok_build_policy_context: "keeps db_ok (build_policy_context i base) (\<lambda>_. True)"
  unfolding build_policy_context_def by (intro ok_rules)

lemma keeps_ok_evaluate_and_persist: "keeps db_ok (evaluate_and_persist ctx p actor) (\<lambda>_. True)"
  unfolding evaluate_and_persist_def persist_policy_evaluation_def
  by (intro ok_rules keeps_ok_modify) simp_all

end
