(* ===== verification/Processor.thy ===== *)
theory Processor
  imports Policy
begin

text \<open>
  \<^verbatim>\<open>recoverai_domain/processor.py\<close>: the deterministic processor that walks a detected case to
  the policy check, selects an action, asks the policy engine and records the verdict. The
  lemmas give the outcome of a run for every verdict, show that a run on a case it has finished
  with is a no-op, and that the textual test it uses for escalation is exact.
\<close>

subsection \<open>Definitions\<close>

definition RETRYABLE_FAILURES :: "string list" where
  "RETRYABLE_FAILURES = [''TEMPORARY_BANK_ERROR'', ''NETWORK_TIMEOUT'', ''INSUFFICIENT_FUNDS'']"

definition PROCESS_STEPS :: "RecoveryCaseStatus list" where
  "PROCESS_STEPS = [Case_TRIAGED, Case_INVESTIGATING, Case_DIAGNOSED, Case_SCORING,
     Case_STRATEGY_SELECTED, Case_POLICY_CHECK]"

fun index_of :: "'a \<Rightarrow> 'a list \<Rightarrow> nat option" where
  "index_of x [] = None"
| "index_of x (y # ys) = (if y = x then Some 0 else map_option Suc (index_of x ys))"

definition already_past :: "RecoveryCaseStatus \<Rightarrow> RecoveryCaseStatus \<Rightarrow> bool" where
  "already_past current target =
     (let order = [Case_DETECTED, Case_TRIAGED, Case_INVESTIGATING, Case_DIAGNOSED, Case_SCORING,
        Case_STRATEGY_SELECTED, Case_POLICY_CHECK, Case_AWAITING_APPROVAL, Case_EXECUTING,
        Case_ACTION_COMPLETED] in
      case (index_of current order, index_of target order) of
        (Some i, Some j) \<Rightarrow> i > j | _ \<Rightarrow> False)"

fun walk_steps :: "uuid \<Rightarrow> ActorType \<Rightarrow> RecoveryCaseStatus list \<Rightarrow> unit dbprog" where
  "walk_steps i actor [] = ret ()"
| "walk_steps i actor (target # rest) =
     bind (read_case i) (\<lambda>c.
       let current = rc_status c in
       if current = target \<or> already_past current target then walk_steps i actor rest
       else if current = Case_POLICY_CHECK then ret ()
       else seqp (transition_case i target actor None) (walk_steps i actor rest))"

definition walk_to_policy_check :: "uuid \<Rightarrow> ActorType \<Rightarrow> unit dbprog" where
  "walk_to_policy_check i actor = walk_steps i actor PROCESS_STEPS"

definition selected_action :: "db \<Rightarrow> RecoveryCase \<Rightarrow> RecoveryActionType" where
  "selected_action s c =
     (let payment = (case rc_payment_id c of None \<Rightarrow> None
                     | Some p \<Rightarrow> get_payment s (rc_merchant_id c) p);
          failure = (case payment of None \<Rightarrow> ''''
                     | Some p \<Rightarrow> (case pay_failure_code p of None \<Rightarrow> '''' | Some f \<Rightarrow> f))
      in if failure \<in> set RETRYABLE_FAILURES then RETRY_LATER else SEND_PAYMENT_LINK)"

definition select_action :: "uuid \<Rightarrow> RecoveryActionType dbprog" where
  "select_action i = bind (read_case i) (\<lambda>c. gets (\<lambda>s. selected_action s c))"

definition planned_key :: "uuid \<Rightarrow> RecoveryActionType \<Rightarrow> string" where
  "planned_key i action = ''phase5:'' @ str_uuid i @ '':'' @ action_value action @ '':1''"

definition insert_action :: "(uuid \<Rightarrow> timestamp \<Rightarrow> RecoveryAction) \<Rightarrow> uuid dbprog" where
  "insert_action row =
     bind uuid4 (\<lambda>k.
     bind now (\<lambda>t.
     seqp (modify (\<lambda>s. s\<lparr>db_actions := db_actions s @ [row k t]\<rparr>)) (ret k)))"

definition insert_decision :: "(uuid \<Rightarrow> timestamp \<Rightarrow> RecoveryDecision) \<Rightarrow> uuid dbprog" where
  "insert_decision row =
     bind uuid4 (\<lambda>k.
     bind now (\<lambda>t.
     seqp (modify (\<lambda>s. s\<lparr>db_decisions := db_decisions s @ [row k t]\<rparr>)) (ret k)))"

definition record_planned_action ::
  "uuid \<Rightarrow> RecoveryActionType \<Rightarrow> RecoveryActionStatus \<Rightarrow> RiskLevel \<Rightarrow> dict option \<Rightarrow> uuid dbprog" where
  "record_planned_action i action status risk metadata =
     bind (read_case i) (\<lambda>c.
     let key = planned_key (rc_id c) action in
     bind (gets (\<lambda>s. action_by_key s (rc_merchant_id c) key)) (\<lambda>existing.
       case existing of
         Some a \<Rightarrow> ret (ra_id a)
       | None \<Rightarrow>
           bind (insert_action (\<lambda>k t.
             \<lparr>ra_id = k, ra_merchant_id = rc_merchant_id c, ra_recovery_case_id = rc_id c,
              ra_action_type = action, ra_status = status, ra_idempotency_key = key,
              ra_attempt_number = 1, ra_risk_level = risk, ra_provider = None,
              ra_provider_reference = None, ra_amount = Some (rc_amount_at_risk c),
              ra_currency = rc_currency c, ra_scheduled_for = None, ra_executed_at = None,
              ra_error_code = None, ra_error_message = None,
              ra_metadata = (case metadata of
                 Some m \<Rightarrow> m
               | None \<Rightarrow> [(''phase'', JInt 5), (''planned'', JBool True), (''executed'', JBool False),
                          (''rule'', JStr ''phase5_deterministic'')]),
              ra_created_at = t\<rparr>)) (\<lambda>k.
           seqp (insert_decision (\<lambda>d t.
                   \<lparr>rd_id = d, rd_merchant_id = rc_merchant_id c, rd_recovery_case_id = rc_id c,
                    rd_recovery_action_id = Some k, rd_model_version = None,
                    rd_decision_version = ''phase5-policy'',
                    rd_selected_action = action_value action,
                    rd_candidate_actions = [(''actions'', JList [JStr (action_value action)])],
                    rd_expected_values = [], rd_selected_expected_value = None,
                    rd_policy_verdict = (if status \<noteq> Act_BLOCKED then ''ALLOW'' else ''DENY''),
                    rd_decision_factors = [(''rule'', JStr ''phase5_deterministic''), (''failure_code'', JBool True)],
                    rd_created_at = t\<rparr>))
                (ret k))))"

fun tool_for_action :: "RecoveryActionType \<Rightarrow> string" where
  "tool_for_action RETRY_NOW = ''retry_payment''"
| "tool_for_action RETRY_LATER = ''schedule_retry''"
| "tool_for_action SEND_PAYMENT_LINK = ''create_payment_link''"
| "tool_for_action SEND_REMINDER = ''send_notification''"
| "tool_for_action OFFER_DISCOUNT = ''offer_discount''"
| "tool_for_action ESCALATE = ''escalate_to_human''"
| "tool_for_action DO_NOTHING = ''pause_recovery''"

definition json_opt :: "('a \<Rightarrow> json) \<Rightarrow> 'a option \<Rightarrow> json" where
  "json_opt f v = (case v of None \<Rightarrow> JNull | Some x \<Rightarrow> f x)"

definition case_fingerprint :: "RecoveryCase \<Rightarrow> json" where
  "case_fingerprint c = JObj
     [(''amount_at_risk'', JDec (rc_amount_at_risk c)),
      (''payment_id'', json_opt JUuid (rc_payment_id c)),
      (''customer_id'', JUuid (rc_customer_id c)),
      (''last_mismatch_reason'',
         json_opt (\<lambda>m. JStr (mismatch_value m)) (rc_last_mismatch_reason c)),
      (''amount_recovered'', JDec (rc_amount_recovered c))]"

definition insert_approval :: "(uuid \<Rightarrow> timestamp \<Rightarrow> Approval) \<Rightarrow> uuid dbprog" where
  "insert_approval row =
     bind uuid4 (\<lambda>k.
     bind now (\<lambda>t.
     seqp (modify (\<lambda>s. s\<lparr>db_approvals := db_approvals s @ [row k t]\<rparr>)) (ret k)))"

definition request_approval ::
  "uuid \<Rightarrow> RecoveryActionType \<Rightarrow> ActorType \<Rightarrow> PolicyContext \<Rightarrow> PolicyEvaluationResult \<Rightarrow> unit dbprog" where
  "request_approval i action actor ctx evaluation =
     bind now (\<lambda>t.
     bind (record_planned_action i action Act_APPROVAL_REQUIRED (pr_risk_level evaluation)
             (Some [(''phase'', JInt 5), (''planned'', JBool True), (''executed'', JBool False),
                    (''tool_name'', JStr (tool_for_action action)),
                    (''payload'', JObj (if action = RETRY_LATER
                                        then [(''scheduled_for'', JTime (t + 3600000000))] else [])),
                    (''policy_version'', JStr (pr_policy_version evaluation))])) (\<lambda>aid.
     bind (read_case i) (\<lambda>c.
     bind (insert_approval (\<lambda>k t.
             \<lparr>ap_id = k, ap_merchant_id = rc_merchant_id c, ap_recovery_case_id = rc_id c,
              ap_recovery_action_id = Some aid, ap_status = Appr_PENDING,
              ap_requested_by = Some ''processor'', ap_decided_by = None,
              ap_decision_reason = None, ap_decided_at = None,
              ap_expires_at = Some (t + approval_ttl_minutes (ctx_settings ctx) * 60000000),
              ap_created_at = t\<rparr>)) (\<lambda>apid.
     seqp (update_action aid (\<lambda>a. a\<lparr>ra_metadata :=
             dict_set ''idempotency_key'' (JStr (ra_idempotency_key a))
               (dict_set ''case_fingerprint'' (case_fingerprint c)
                 (dict_set ''approval_id'' (JUuid apid) (ra_metadata a)))\<rparr>))
          (transition_case i Case_AWAITING_APPROVAL actor None)))))"

definition block_case ::
  "uuid \<Rightarrow> RecoveryActionType \<Rightarrow> ActorType \<Rightarrow> PolicyEvaluationResult \<Rightarrow> unit dbprog" where
  "block_case i action actor evaluation =
     seqp (record_planned_action i action Act_BLOCKED (pr_risk_level evaluation)
             (Some [(''phase'', JInt 5), (''planned'', JBool True), (''executed'', JBool False),
                    (''policy_version'', JStr (pr_policy_version evaluation)),
                    (''reason'', JStr (pr_reason evaluation))]))
          (let suspicious = contains ''suspicious'' (lower (pr_reason evaluation));
               mismatch = contains ''mismatch'' (lower (pr_reason evaluation));
               target = (if suspicious \<or> mismatch then Case_ESCALATED else Case_STOPPED)
           in transition_case i target actor None)"

definition act_on_verdict ::
  "uuid \<Rightarrow> RecoveryActionType \<Rightarrow> ActorType \<Rightarrow> PolicyContext \<Rightarrow> PolicyEvaluationResult \<Rightarrow> uuid dbprog" where
  "act_on_verdict i action actor ctx evaluation =
     (if \<not> pr_allowed evaluation then
        seqp (block_case i action actor evaluation) (ret i)
      else if pr_requires_approval evaluation then
        seqp (request_approval i action actor ctx evaluation) (ret i)
      else
        seqp (record_planned_action i action Act_PENDING (pr_risk_level evaluation) None)
        (seqp (transition_case i Case_EXECUTING actor None)
        (seqp (transition_case i Case_ACTION_COMPLETED actor None)
              (ret i))))"

definition process_locked_case :: "RecoverySettings \<Rightarrow> uuid \<Rightarrow> ActorType \<Rightarrow> uuid dbprog" where
  "process_locked_case settings i actor =
     bind (read_case i) (\<lambda>c.
       if is_terminal (rc_status c) then ret i
       else if rc_status c \<in> {Case_ACTION_COMPLETED, Case_VERIFYING, Case_NOT_RECOVERED,
              Case_RETRY_SCHEDULED, Case_FAILED, Case_ESCALATED, Case_AWAITING_APPROVAL} then ret i
       else
         seqp (walk_to_policy_check i actor)
         (bind (read_case i) (\<lambda>c'.
            if rc_status c' \<noteq> Case_POLICY_CHECK then ret i
            else
              bind (select_action i) (\<lambda>action.
              bind (build_policy_context i settings) (\<lambda>ctx.
              bind (evaluate_and_persist ctx (propose action) actor) (\<lambda>evaluation.
              act_on_verdict i action actor ctx evaluation))))))"

definition process :: "RecoverySettings \<Rightarrow> uuid \<Rightarrow> ActorType \<Rightarrow> uuid dbprog" where
  "process settings case_id actor =
     bind (lock_recovery_case case_id) (\<lambda>i. process_locked_case settings i actor)"

definition process_recovery_case :: "environ \<Rightarrow> uuid \<Rightarrow> (string \<times> json) list dbprog" where
  "process_recovery_case env case_id =
     bind (lift (settings_from_env env)) (\<lambda>settings.
     bind (process settings case_id Actor_WORKER) (\<lambda>i.
     bind (read_case i) (\<lambda>c.
       ret [(''status'', JStr (case_status_value (rc_status c))), (''case_id'', JUuid (rc_id c)),
            (''version'', JStr (show_int (rc_version c)))])))"

subsection \<open>Contracts\<close>

lemma walk_no_credit: "obeys (db_evolves case_no_credit) (walk_steps i actor steps)"
  if "Case_RECOVERED \<notin> set steps"
  using that by (induction steps) (auto simp: Let_def intro!: no_credit_rules)

lemma insert_action_no_credit: "obeys (db_evolves case_no_credit) (insert_action row)"
  unfolding insert_action_def by (intro no_credit_rules no_credit.obeys_modify) simp_all

lemma insert_approval_no_credit: "obeys (db_evolves case_no_credit) (insert_approval row)"
  unfolding insert_approval_def by (intro no_credit_rules no_credit.obeys_modify) simp_all

lemma insert_decision_no_credit: "obeys (db_evolves case_no_credit) (insert_decision row')"
  unfolding insert_decision_def by (intro no_credit_rules no_credit.obeys_modify) simp_all

lemma record_planned_action_no_credit:
  "obeys (db_evolves case_no_credit) (record_planned_action i a st r m)"
  unfolding record_planned_action_def
  by (intro no_credit_rules insert_action_no_credit insert_decision_no_credit)

lemma block_case_no_credit: "obeys (db_evolves case_no_credit) (block_case i a actor ev)"
  unfolding block_case_def Let_def
  by (intro no_credit_rules record_planned_action_no_credit) (simp split: if_split)

lemma request_approval_no_credit:
  "obeys (db_evolves case_no_credit) (request_approval i a actor ctx ev)"
  unfolding request_approval_def
  by (intro no_credit_rules record_planned_action_no_credit insert_approval_no_credit) simp

lemma process_locked_case_no_credit:
  "obeys (db_evolves case_no_credit) (process_locked_case settings i actor)"
  unfolding process_locked_case_def walk_to_policy_check_def select_action_def
    act_on_verdict_def
  by (intro no_credit_rules walk_no_credit build_policy_context_no_credit
      evaluate_and_persist_no_credit block_case_no_credit request_approval_no_credit
      record_planned_action_no_credit) (simp_all add: PROCESS_STEPS_def)

lemma process_no_credit: "obeys (db_evolves case_no_credit) (process settings i actor)"
  unfolding process_def by (intro no_credit_rules process_locked_case_no_credit)

lemma keeps_ok_walk: "keeps db_ok (walk_steps i actor steps) (\<lambda>_. True)"
  by (induction steps) (auto simp: Let_def intro!: ok_rules)

lemma keeps_ok_insert_action: "keeps db_ok (insert_action row) (\<lambda>_. True)"
  unfolding insert_action_def by (intro ok_rules keeps_ok_modify) simp_all

lemma keeps_ok_insert_approval: "keeps db_ok (insert_approval row) (\<lambda>_. True)"
  unfolding insert_approval_def by (intro ok_rules keeps_ok_modify) simp_all

lemma keeps_ok_insert_decision: "keeps db_ok (insert_decision row') (\<lambda>_. True)"
  unfolding insert_decision_def by (intro ok_rules keeps_ok_modify) simp_all

lemma keeps_ok_record_planned_action: "keeps db_ok (record_planned_action i a st r m) (\<lambda>_. True)"
  unfolding record_planned_action_def
  by (intro ok_rules keeps_ok_insert_action keeps_ok_insert_decision)

lemma keeps_ok_process_locked_case:
  "keeps db_ok (process_locked_case settings i actor) (\<lambda>_. True)"
  unfolding process_locked_case_def walk_to_policy_check_def select_action_def
    act_on_verdict_def
    block_case_def request_approval_def
  by (intro ok_rules keeps_ok_walk keeps_ok_build_policy_context keeps_ok_evaluate_and_persist
      keeps_ok_record_planned_action keeps_ok_insert_approval)

lemma keeps_ok_process: "keeps db_ok (process settings i actor) (\<lambda>_. True)"
  unfolding process_def by (intro ok_rules keeps_ok_process_locked_case)

subsection \<open>The walk to the policy check\<close>

definition case_frame :: "db \<Rightarrow> db \<Rightarrow> bool" where
  "case_frame s t \<longleftrightarrow> t = s\<lparr>db_cases := db_cases t, db_audit := db_audit t\<rparr>"

interpretation case_frame: step_frame case_frame
proof
  show "case_frame s s" for s by (simp add: case_frame_def)
  show "case_frame s u" if "case_frame s t" "case_frame t u" for s t u
    using that unfolding case_frame_def by (cases s; cases t; cases u) simp
qed

lemma case_frameD:
  assumes "case_frame s t"
  shows "db_approvals t = db_approvals s" "db_actions t = db_actions s"
    "db_customers t = db_customers s" "db_payments t = db_payments s"
    "db_merchants t = db_merchants s" "db_notifications t = db_notifications s"
    "db_clock t = db_clock s" "db_decisions t = db_decisions s"
  using assms unfolding case_frame_def by (cases s; cases t; simp)+

lemma transition_step:
  assumes "get_case_unscoped s i = Some c" and "can_transition (rc_status c) target"
  obtains s' where "transition_case i target actor None s = (Inr (), s')"
    "get_case_unscoped s' i = Some (moved_case target (db_clock s) c)" "case_frame s s'"
  using assms by (simp add: transition_case_eval get_case_after_move case_frame_def)

definition walk_edge :: "RecoveryCaseStatus \<Rightarrow> RecoveryCaseStatus \<Rightarrow> bool" where
  "walk_edge a b \<longleftrightarrow> can_transition a b \<and> a \<noteq> b \<and> \<not> already_past a b \<and> a \<noteq> Case_POLICY_CHECK"

text \<open>\<open>same_exposure c d\<close>: what the policy check reads of the case is untouched.\<close>

definition same_exposure :: "RecoveryCase \<Rightarrow> RecoveryCase \<Rightarrow> bool" where
  "same_exposure c d \<longleftrightarrow> d = c\<lparr>rc_status := rc_status d, rc_version := rc_version d,
     rc_closed_at := rc_closed_at d\<rparr>"

lemma same_exposure_refl [simp]: "same_exposure c c"
  by (simp add: same_exposure_def)

lemma same_exposure_moved:
  "same_exposure c (moved_case target t d) \<longleftrightarrow> same_exposure c d"
  "same_exposure (moved_case target t c) d \<longleftrightarrow> same_exposure c d"
  by (cases c; cases d; simp add: same_exposure_def moved_case_def)+

lemma walk_chain:
  assumes "successively walk_edge (rc_status c # ts)" and "get_case_unscoped s i = Some c"
  shows "\<exists>s' d. walk_steps i actor ts s = (Inr (), s') \<and> get_case_unscoped s' i = Some d
           \<and> rc_status d = last (rc_status c # ts) \<and> same_exposure c d \<and> case_frame s s'"
  using assms
proof (induction ts arbitrary: c s)
  case Nil
  then show ?case by (auto simp: prog_simps case_frame.frame_refl)
next
  case (Cons t ts)
  then have e: "walk_edge (rc_status c) t" by simp
  then obtain s1 where s1: "transition_case i t actor None s = (Inr (), s1)"
    "get_case_unscoped s1 i = Some (moved_case t (db_clock s) c)" "case_frame s s1"
    using transition_step [OF Cons.prems(2)] by (auto simp: walk_edge_def)
  have "successively walk_edge (rc_status (moved_case t (db_clock s) c) # ts)"
    using Cons.prems(1) by (simp add: moved_case_def successively_Cons)
  from Cons.IH [OF this s1(2)] obtain s' d where "walk_steps i actor ts s1 = (Inr (), s')"
    "get_case_unscoped s' i = Some d" "rc_status d = last (t # ts)"
    "same_exposure c d" "case_frame s1 s'"
    by (auto simp: moved_case_def same_exposure_moved [unfolded moved_case_def])
  with e s1 Cons.prems(2) case_frame.frame_trans [OF s1(3)] show ?case
    by (auto simp: walk_edge_def prog_simps Let_def)
qed

lemma walk_skip:
  assumes "\<forall>t \<in> set pre. rc_status c = t \<or> already_past (rc_status c) t"
    and "get_case_unscoped s i = Some c"
  shows "walk_steps i actor (pre @ ts) s = walk_steps i actor ts s"
  using assms by (induction pre) (auto simp: prog_simps Let_def)

definition PRE_POLICY :: "RecoveryCaseStatus list" where
  "PRE_POLICY = [Case_DETECTED, Case_TRIAGED, Case_INVESTIGATING, Case_DIAGNOSED, Case_SCORING,
     Case_STRATEGY_SELECTED, Case_POLICY_CHECK]"

lemma length_PRE_POLICY: "length PRE_POLICY = 7"
  by (simp add: PRE_POLICY_def)

lemma walk_reaches_policy_check:
  assumes "rc_status c \<in> set PRE_POLICY" and c: "get_case_unscoped s i = Some c"
  shows "\<exists>s' d. walk_to_policy_check i actor s = (Inr (), s') \<and> get_case_unscoped s' i = Some d
           \<and> rc_status d = Case_POLICY_CHECK \<and> same_exposure c d \<and> case_frame s s'"
proof -
  obtain k where k: "k < 7" "rc_status c = PRE_POLICY ! k"
    using assms(1) by (metis in_set_conv_nth length_PRE_POLICY)
  let ?pre = "take k PROCESS_STEPS" and ?ts = "drop k PROCESS_STEPS"
  from k(1) have k': "k \<in> {0, 1, 2, 3, 4, 5, 6}" by auto
  have pre: "\<forall>t \<in> set ?pre. rc_status c = t \<or> already_past (rc_status c) t"
    using k' k(2) by (auto simp: PRE_POLICY_def PROCESS_STEPS_def already_past_def numeral_eq_Suc)
  have chain: "successively walk_edge (rc_status c # ?ts)"
    using k' k(2) by (auto simp: PRE_POLICY_def PROCESS_STEPS_def already_past_def walk_edge_def
        can_transition_def LEGAL_TRANSITIONS_def numeral_eq_Suc)
  have "last (rc_status c # ?ts) = Case_POLICY_CHECK"
    using k' k(2) by (auto simp: PRE_POLICY_def PROCESS_STEPS_def numeral_eq_Suc)
  moreover have "walk_to_policy_check i actor s = walk_steps i actor ?ts s"
    unfolding walk_to_policy_check_def using walk_skip [OF pre c, of actor ?ts] by simp
  ultimately show ?thesis
    using walk_chain [OF chain c] by simp
qed

subsection \<open>The escalation test\<close>

definition flagged :: "string \<Rightarrow> bool" where
  "flagged r \<longleftrightarrow> contains ''suspicious'' (lower r) \<or> contains ''mismatch'' (lower r)"

lemma flagged_join:
  assumes "rs \<noteq> []"
  shows "flagged (join ''; '' rs) \<longleftrightarrow> (\<exists>r \<in> set rs. flagged r)"
proof -
  have "contains ''suspicious'' (join ''; '' (map lower rs)) \<longleftrightarrow>
        (\<exists>x \<in> set (map lower rs). contains ''suspicious'' x)"
    by (rule contains_join) (use assms in simp_all)
  moreover have "contains ''mismatch'' (join ''; '' (map lower rs)) \<longleftrightarrow>
        (\<exists>x \<in> set (map lower rs). contains ''mismatch'' x)"
    by (rule contains_join) (use assms in simp_all)
  ultimately show ?thesis
    by (auto simp: flagged_def lower_join)
qed

lemma flagged_reasons:
  "\<not> flagged ''Discount percentage is required''"
  "\<not> flagged ''Discount exceeds the maximum allowed percentage''"
  "\<not> flagged ''Customer is not eligible for a discount''"
  "\<not> flagged ''Daily discount budget would be exceeded''"
  "\<not> flagged ''Discount is bounded by percentage and daily budget''"
  "\<not> flagged ''Customer has opted out of recovery communications''"
  "\<not> flagged ''Communication frequency limit has been reached''"
  "\<not> flagged ''Quiet hours currently prohibit outbound reminders''"
  "\<not> flagged ''Automatic recovery is disabled by the merchant kill switch''"
  "flagged ''Suspicious or source-mismatch cases cannot run automatic recovery''"
  "\<not> flagged ''Retry attempt limit has been reached''"
  "\<not> flagged ''Human-path action does not require automatic recovery''"
  "\<not> flagged ''High-value action requires human approval''"
  "\<not> flagged ''Medium-value action requires human approval''"
  "\<not> flagged ''Low-value action may execute automatically when other rules allow''"
  by code_simp+

lemma flagged_blocked:
  "\<not> flagged (''Action '' @ action_value a @ '' is blocked by merchant policy'')"
  by (cases a; hypsubst; code_simp)

lemma flagged_hits:
  assumes "restriction_rules ctx a p st = Inr hs"
  shows "(\<exists>h \<in> set hs. flagged (hit_reason h)) \<longleftrightarrow>
         (ctx_suspicious ctx \<or> ctx_source_mismatch ctx) \<and> a \<in> set AUTOMATIC_ACTIONS"
proof -
  obtain ds where ds: "(if a = OFFER_DISCOUNT then discount_rules ctx p st else Inr []) = Inr ds"
    using assms by (auto simp: restriction_rules_def bindE_Inr_iff)
  then have "\<forall>h \<in> set ds. \<not> flagged (hit_reason h)"
    by (auto simp: discount_rules_def bindE_Inr_iff flagged_reasons split: if_splits option.splits)
  moreover have "\<forall>h \<in> set (communication_rules ctx a st). \<not> flagged (hit_reason h)"
    by (auto simp: communication_rules_def flagged_reasons)
  ultimately show ?thesis
    using assms unfolding restriction_rules_def ds bindE_simps
    by (auto simp: flagged_reasons flagged_blocked simp del: append.simps)
qed

lemma flagged_value_risk: "value_risk ctx a = Inr h \<Longrightarrow> \<not> flagged (hit_reason h) \<and> hit_reason h \<noteq> []"
  by (auto simp: value_risk_def bindE_Inr_iff flagged_reasons split: if_splits)

text \<open>
  The reason text of a verdict contains one of the two words exactly when the suspicion rule
  fired, whatever other rules did.
\<close>

lemma flagged_verdict:
  assumes "0 \<le> rc_amount_at_risk (ctx_case ctx)" and "pa_action_type p = action_value a"
    and "evaluate_action ctx p = Inr ev"
  shows "flagged (pr_reason ev) \<longleftrightarrow>
         (ctx_suspicious ctx \<or> ctx_source_mismatch ctx) \<and> a \<in> set AUTOMATIC_ACTIONS"
proof -
  obtain h hs where h: "value_risk ctx a = Inr h" "restriction_rules ctx a p (ctx_settings ctx) = Inr hs"
    and ev: "ev = combine_hits (ctx_settings ctx) (h # hs)"
    using evaluate_action_hits [OF assms(1,2)] assms(3) by (metis sum.inject(2))
  let ?rs = "filter (\<lambda>r. r \<noteq> []) (map hit_reason (h # hs))"
  have ne: "?rs \<noteq> []" using flagged_value_risk [OF h(1)] by simp
  have empty: "\<not> flagged []" by code_simp
  have "flagged (pr_reason ev) \<longleftrightarrow> (\<exists>r \<in> set ?rs. flagged r)"
    unfolding ev combine_hits_reason [OF ne] using ne by (rule flagged_join)
  also have "\<dots> \<longleftrightarrow> (\<exists>h \<in> set hs. flagged (hit_reason h))"
    using flagged_value_risk [OF h(1)] empty by auto metis
  finally show ?thesis using flagged_hits [OF h(2)] by simp
qed

subsection \<open>Outcome of a run\<close>

lemma get_case_same: "db_cases s' = db_cases s \<Longrightarrow> get_case_unscoped s' i = get_case_unscoped s i"
  by (simp add: get_case_unscoped_def)

text \<open>
  \<open>plans c a st r s t\<close>: between the two states the planned action \<open>a\<close> of the case was recorded,
  with the given status and risk and the whole exposure as its amount, together with the decision
  that selected it; a planned action already stored under its key is reused.
\<close>

definition plans ::
  "RecoveryCase \<Rightarrow> RecoveryActionType \<Rightarrow> RecoveryActionStatus \<Rightarrow> RiskLevel \<Rightarrow> db \<Rightarrow> db \<Rightarrow> bool" where
  "plans c a st r s t \<longleftrightarrow>
     (case action_by_key s (rc_merchant_id c) (planned_key (rc_id c) a) of
        Some _ \<Rightarrow> map ra_id (db_actions t) = map ra_id (db_actions s)
                  \<and> db_decisions t = db_decisions s
      | None \<Rightarrow> (\<exists>x d. action_by_key t (rc_merchant_id c) (planned_key (rc_id c) a) = Some x
          \<and> map ra_id (db_actions t) = map ra_id (db_actions s) @ [ra_id x]
          \<and> ra_recovery_case_id x = rc_id c \<and> ra_action_type x = a \<and> ra_status x = st
          \<and> ra_risk_level x = r \<and> ra_amount x = Some (rc_amount_at_risk c)
          \<and> db_decisions t = db_decisions s @ [d] \<and> rd_recovery_action_id d = Some (ra_id x)
          \<and> rd_recovery_case_id d = rc_id c \<and> rd_selected_action d = action_value a
          \<and> rd_policy_verdict d = (if st \<noteq> Act_BLOCKED then ''ALLOW'' else ''DENY'')))"

lemma plans_cong:
  assumes "plans c a st r s t"
    and "db_actions s' = db_actions s" "db_decisions s' = db_decisions s"
    and "db_actions t' = db_actions t" "db_decisions t' = db_decisions t"
  shows "plans c a st r s' t'"
proof -
  have "action_by_key s' m k = action_by_key s m k" "action_by_key t' m k = action_by_key t m k"
    for m k
    by (simp_all add: action_by_key_def assms(2,4))
  then show ?thesis
    using assms(1) by (simp only: plans_def assms(2-5))
qed

lemma plans_same_exposure:
  assumes "same_exposure c d"
  shows "plans d a st r s t \<longleftrightarrow> plans c a st r s t"
proof -
  have "rc_id d = rc_id c" "rc_merchant_id d = rc_merchant_id c"
    "rc_amount_at_risk d = rc_amount_at_risk c"
    using assms unfolding same_exposure_def by (cases c; cases d; simp)+
  then show ?thesis by (simp only: plans_def)
qed

lemma find_append: "find P (xs @ ys) = (case find P xs of None \<Rightarrow> find P ys | Some x \<Rightarrow> Some x)"
  by (induction xs) simp_all

lemma plans_metadata:
  assumes "plans c a st r s t" and "db_decisions t' = db_decisions t"
    and "db_actions t' = update_row ra_id k (\<lambda>x. x\<lparr>ra_metadata := f x\<rparr>) (db_actions t)"
  shows "plans c a st r s t'"
proof -
  have keys: "map ra_id (db_actions t') = map ra_id (db_actions t)"
    by (simp add: assms(3) update_row_def)
  have "find P (update_row ra_id k (\<lambda>x. x\<lparr>ra_metadata := f x\<rparr>) rows)
      = map_option (\<lambda>x. if ra_id x = k then x\<lparr>ra_metadata := f x\<rparr> else x) (find P rows)"
    if "\<And>x y. P (x\<lparr>ra_metadata := y\<rparr>) = P x" for P rows
    using that by (induction rows) (auto simp: update_row_def)
  then have abk: "action_by_key t' m key
      = map_option (\<lambda>x. if ra_id x = k then x\<lparr>ra_metadata := f x\<rparr> else x) (action_by_key t m key)"
    for m key
    by (simp add: action_by_key_def assms(3))
  let ?key = "planned_key (rc_id c) a"
  show ?thesis
  proof (cases "action_by_key s (rc_merchant_id c) ?key")
    case None
    with assms(1) obtain x d where
      x: "action_by_key t (rc_merchant_id c) ?key = Some x"
      "map ra_id (db_actions t) = map ra_id (db_actions s) @ [ra_id x]"
      "ra_recovery_case_id x = rc_id c" "ra_action_type x = a" "ra_status x = st"
      "ra_risk_level x = r" "ra_amount x = Some (rc_amount_at_risk c)"
      and d: "db_decisions t = db_decisions s @ [d]" "rd_recovery_action_id d = Some (ra_id x)"
      "rd_recovery_case_id d = rc_id c" "rd_selected_action d = action_value a"
      "rd_policy_verdict d = (if st \<noteq> Act_BLOCKED then ''ALLOW'' else ''DENY'')"
      by (simp only: plans_def option.case) blast
    let ?y = "if ra_id x = k then x\<lparr>ra_metadata := f x\<rparr> else x"
    show ?thesis
      unfolding plans_def None option.case keys assms(2)
      by (intro exI [of _ ?y] exI [of _ d]) (use x d in \<open>simp add: abk\<close>)
  next
    case Some
    with assms(1) show ?thesis by (simp add: plans_def keys assms(2))
  qed
qed

lemma record_planned_action_run:
  assumes "get_case_unscoped s i = Some c"
  obtains k s' where "record_planned_action i a st r m s = (Inr k, s')"
    "db_cases s' = db_cases s" "db_clock s' = db_clock s" "db_approvals s' = db_approvals s"
    "plans c a st r s s'"
proof (cases "action_by_key s (rc_merchant_id c) (planned_key (rc_id c) a)")
  case None
  show ?thesis
    by (rule that, simp add: record_planned_action_def insert_action_def insert_decision_def uuid4_def prog_simps
        Let_def assms None split del: if_split)
       (use None in \<open>simp_all add: plans_def action_by_key_def find_append\<close>)
next
  case (Some x)
  show ?thesis
    by (rule that, simp add: record_planned_action_def prog_simps Let_def assms Some)
       (simp_all add: plans_def Some)
qed

lemma block_case_run:
  assumes c: "get_case_unscoped s i = Some c" and "rc_status c = Case_POLICY_CHECK"
  obtains s' d where "block_case i a actor ev s = (Inr (), s')" "get_case_unscoped s' i = Some d"
    "rc_status d = (if flagged (pr_reason ev) then Case_ESCALATED else Case_STOPPED)"
    "db_approvals s' = db_approvals s" "plans c a Act_BLOCKED (pr_risk_level ev) s s'"
proof -
  obtain k s1 where s1: "record_planned_action i a Act_BLOCKED (pr_risk_level ev)
      (Some [(''phase'', JInt 5), (''planned'', JBool True), (''executed'', JBool False),
             (''policy_version'', JStr (pr_policy_version ev)), (''reason'', JStr (pr_reason ev))]) s
      = (Inr k, s1)" "db_cases s1 = db_cases s" "db_approvals s1 = db_approvals s"
      "plans c a Act_BLOCKED (pr_risk_level ev) s s1"
    using record_planned_action_run [OF c] by blast
  let ?t = "if flagged (pr_reason ev) then Case_ESCALATED else Case_STOPPED"
  have "can_transition (rc_status c) ?t"
    using assms(2) by (simp add: can_transition_def LEGAL_TRANSITIONS_def)
  then obtain s2 where s2: "transition_case i ?t actor None s1 = (Inr (), s2)"
    "get_case_unscoped s2 i = Some (moved_case ?t (db_clock s1) c)" "case_frame s1 s2"
    using transition_step [of s1 i c ?t actor] c get_case_same [OF s1(2)] by auto
  note case_frameD(1) [OF s2(3)]
  moreover have "plans c a Act_BLOCKED (pr_risk_level ev) s s2"
    using s1(4) by (rule plans_cong) (simp_all add: case_frameD [OF s2(3)])
  ultimately show ?thesis
    using that [OF _ s2(2)] s1 s2(1)
    by (auto simp: block_case_def prog_simps Let_def moved_case_def flagged_def)
qed

lemma request_approval_run:
  assumes c: "get_case_unscoped s i = Some c" and "rc_status c = Case_POLICY_CHECK"
  obtains s' d a where "request_approval i act actor ctx ev s = (Inr (), s')"
    "get_case_unscoped s' i = Some d" "rc_status d = Case_AWAITING_APPROVAL"
    "db_approvals s' = db_approvals s @ [a]" "ap_status a = Appr_PENDING"
    "ap_recovery_case_id a = i"
    "ap_expires_at a = Some (db_clock s + approval_ttl_minutes (ctx_settings ctx) * 60000000)"
    "plans c act Act_APPROVAL_REQUIRED (pr_risk_level ev) s s'"
proof -
  have i: "rc_id c = i"
    using c by (auto simp: get_case_unscoped_def dest: find_row_Some_key)
  let ?meta = "Some [(''phase'', JInt 5), (''planned'', JBool True), (''executed'', JBool False),
                    (''tool_name'', JStr (tool_for_action act)),
                    (''payload'', JObj (if act = RETRY_LATER
                                then [(''scheduled_for'', JTime (db_clock s + 3600000000))] else [])),
                    (''policy_version'', JStr (pr_policy_version ev))]"
  obtain k s1 where s1: "record_planned_action i act Act_APPROVAL_REQUIRED (pr_risk_level ev) ?meta s
      = (Inr k, s1)" "db_cases s1 = db_cases s" "db_clock s1 = db_clock s"
      "db_approvals s1 = db_approvals s" "plans c act Act_APPROVAL_REQUIRED (pr_risk_level ev) s s1"
    using record_planned_action_run [OF c] by blast
  have c1: "get_case_unscoped s1 i = Some c" using c get_case_same [OF s1(2)] by simp
  define a where "a = \<lparr>ap_id = db_next_uuid s1, ap_merchant_id = rc_merchant_id c,
     ap_recovery_case_id = rc_id c, ap_recovery_action_id = Some k, ap_status = Appr_PENDING,
     ap_requested_by = Some ''processor'', ap_decided_by = None, ap_decision_reason = None,
     ap_decided_at = None,
     ap_expires_at = Some (db_clock s1 + approval_ttl_minutes (ctx_settings ctx) * 60000000),
     ap_created_at = db_clock s1\<rparr>"
  define s2 where "s2 = s1\<lparr>db_next_uuid := Suc (db_next_uuid s1),
     db_approvals := db_approvals s1 @ [a],
     db_actions := update_row ra_id k (\<lambda>x. x\<lparr>ra_metadata :=
        dict_set ''idempotency_key'' (JStr (ra_idempotency_key x))
          (dict_set ''case_fingerprint'' (case_fingerprint c)
            (dict_set ''approval_id'' (JUuid (db_next_uuid s1)) (ra_metadata x)))\<rparr>) (db_actions s1)\<rparr>"
  have c2: "get_case_unscoped s2 i = Some c"
    using c1 by (simp add: s2_def get_case_unscoped_def)
  have "can_transition (rc_status c) Case_AWAITING_APPROVAL"
    using assms(2) by (simp add: can_transition_def LEGAL_TRANSITIONS_def)
  then obtain s3 where s3: "transition_case i Case_AWAITING_APPROVAL actor None s2 = (Inr (), s3)"
    "get_case_unscoped s3 i = Some (moved_case Case_AWAITING_APPROVAL (db_clock s2) c)"
    "case_frame s2 s3"
    using transition_step [OF c2] by blast
  have run: "request_approval i act actor ctx ev s = (Inr (), s3)"
    using s1 c1 s3(1)
    by (simp add: request_approval_def prog_simps insert_approval_def uuid4_def update_action_def
        a_def s2_def)
  have "db_approvals s3 = db_approvals s @ [a]"
    using case_frameD(1) [OF s3(3)] s1(4) by (simp add: s2_def)
  moreover have "plans c act Act_APPROVAL_REQUIRED (pr_risk_level ev) s s2"
    using s1(5) by (rule plans_metadata) (simp_all add: s2_def)
  then have "plans c act Act_APPROVAL_REQUIRED (pr_risk_level ev) s s3"
    by (rule plans_cong) (simp_all add: case_frameD [OF s3(3)])
  ultimately show ?thesis
    using that [OF run s3(2)] s1(3) i by (simp add: moved_case_def a_def)
qed

definition verdict_status :: "PolicyContext \<Rightarrow> RecoveryActionType \<Rightarrow> RecoveryCaseStatus" where
  "verdict_status ctx a =
     (if policy_forbids ctx a (propose a) then
        (if ctx_suspicious ctx \<or> ctx_source_mismatch ctx then Case_ESCALATED else Case_STOPPED)
      else if policy_needs_approval ctx a then Case_AWAITING_APPROVAL else Case_ACTION_COMPLETED)"

definition verdict_action_status :: "PolicyContext \<Rightarrow> RecoveryActionType \<Rightarrow> RecoveryActionStatus" where
  "verdict_action_status ctx a =
     (if policy_forbids ctx a (propose a) then Act_BLOCKED
      else if policy_needs_approval ctx a then Act_APPROVAL_REQUIRED else Act_PENDING)"

lemma same_exposureD:
  assumes "same_exposure c d"
  shows "rc_id d = rc_id c" "rc_merchant_id d = rc_merchant_id c" "rc_customer_id d = rc_customer_id c"
    "rc_payment_id d = rc_payment_id c" "rc_last_mismatch_reason d = rc_last_mismatch_reason c"
    "rc_amount_at_risk d = rc_amount_at_risk c"
  using assms unfolding same_exposure_def by (cases c; cases d; simp)+

lemma walk_keeps_context:
  assumes "case_frame s t" and "same_exposure c d"
  shows "policy_context_of t d m st (db_clock t)
           = (policy_context_of s c m st (db_clock s))\<lparr>ctx_case := d\<rparr>"
    and "selected_action t d = selected_action s c"
    and "get_merchant t x = get_merchant s x"
  by (cases "rc_payment_id c"; simp add: policy_context_of_def selected_action_def Let_def retry_count_def
      communications_last_24h_def discount_spent_today_def is_suspicious_def is_source_mismatch_def
      get_customer_def get_payment_def get_merchant_def
      case_frameD [OF assms(1)] same_exposureD [OF assms(2)])+

lemma selected_automatic: "selected_action s c \<in> set AUTOMATIC_ACTIONS"
  by (simp add: selected_action_def Let_def AUTOMATIC_ACTIONS_def)

lemma evaluate_action_verdict:
  assumes "0 \<le> rc_amount_at_risk (ctx_case ctx)" and "a \<in> set AUTOMATIC_ACTIONS"
  obtains ev where "evaluate_action ctx (propose a) = Inr ev"
    "pr_allowed ev \<longleftrightarrow> \<not> policy_forbids ctx a (propose a)"
    "pr_requires_approval ev \<longleftrightarrow> \<not> policy_forbids ctx a (propose a) \<and> policy_needs_approval ctx a"
    "flagged (pr_reason ev) \<longleftrightarrow> ctx_suspicious ctx \<or> ctx_source_mismatch ctx"
proof -
  have p: "pa_action_type (propose a) = action_value a" by (simp add: propose_def)
  obtain h where h: "value_risk ctx a = Inr h" "hit_allowed h = Some True"
    "hit_requires_approval h = Some True \<longleftrightarrow> policy_needs_approval ctx a"
    using value_risk_meaning [OF assms(1), of a] by blast
  obtain hs where hs: "restriction_rules ctx a (propose a) (ctx_settings ctx) = Inr hs"
    "hits_deny hs \<longleftrightarrow> policy_forbids ctx a (propose a)" "\<not> hits_approve hs"
    using restriction_rules_meaning [OF assms(1), of a "propose a"] by blast
  let ?ev = "combine_hits (ctx_settings ctx) (h # hs)"
  have ev: "evaluate_action ctx (propose a) = Inr ?ev"
    by (simp add: evaluate_action_def p h hs)
  show ?thesis
    using that [OF ev] flagged_verdict [OF assms(1) p ev] assms(2) h hs
    by (simp add: combine_hits_fields)
qed

lemma evaluate_and_persist_run:
  assumes "evaluate_action ctx p = Inr ev"
  obtains s' where "evaluate_and_persist ctx p actor s = (Inr ev, s')"
    "db_cases s' = db_cases s" "db_approvals s' = db_approvals s" "db_clock s' = db_clock s"
    "db_actions s' = db_actions s" "db_decisions s' = db_decisions s"
  using assms by (simp add: evaluate_and_persist_eval persist_policy_evaluation_def prog_simps)

lemma plan_run:
  assumes c: "get_case_unscoped s i = Some c" and "rc_status c = Case_POLICY_CHECK"
  obtains s' d where "seqp (record_planned_action i a Act_PENDING r None)
        (seqp (transition_case i Case_EXECUTING actor None)
        (seqp (transition_case i Case_ACTION_COMPLETED actor None) (ret i))) s = (Inr i, s')"
    "get_case_unscoped s' i = Some d" "rc_status d = Case_ACTION_COMPLETED"
    "db_approvals s' = db_approvals s" "plans c a Act_PENDING r s s'"
proof -
  obtain k s1 where s1: "record_planned_action i a Act_PENDING r None s = (Inr k, s1)"
    "db_cases s1 = db_cases s" "db_approvals s1 = db_approvals s"
    "plans c a Act_PENDING r s s1"
    using record_planned_action_run [OF c] by blast
  have c1: "get_case_unscoped s1 i = Some c" using c get_case_same [OF s1(2)] by simp
  have "can_transition (rc_status c) Case_EXECUTING"
    using assms(2) by (simp add: can_transition_def LEGAL_TRANSITIONS_def)
  then obtain s2 where s2: "transition_case i Case_EXECUTING actor None s1 = (Inr (), s2)"
    "get_case_unscoped s2 i = Some (moved_case Case_EXECUTING (db_clock s1) c)" "case_frame s1 s2"
    using transition_step [OF c1] by blast
  have "can_transition (rc_status (moved_case Case_EXECUTING (db_clock s1) c)) Case_ACTION_COMPLETED"
    by (simp add: moved_case_def can_transition_def LEGAL_TRANSITIONS_def)
  then obtain s3 where s3: "transition_case i Case_ACTION_COMPLETED actor None s2 = (Inr (), s3)"
    "get_case_unscoped s3 i = Some (moved_case Case_ACTION_COMPLETED (db_clock s2)
       (moved_case Case_EXECUTING (db_clock s1) c))" "case_frame s2 s3"
    using transition_step [OF s2(2)] by blast
  have "plans c a Act_PENDING r s s3"
    using s1(4) by (rule plans_cong)
      (simp_all add: case_frameD [OF s2(3)] case_frameD [OF s3(3)])
  then show ?thesis
    using that [OF _ s3(2)] s1 s2(1) s3(1) case_frameD(1) [OF s2(3)] case_frameD(1) [OF s3(3)]
    by (simp add: prog_simps moved_case_def)
qed

lemma act_on_verdict_run:
  assumes c: "get_case_unscoped s i = Some c" "rc_status c = Case_POLICY_CHECK"
    and ev: "pr_allowed ev \<longleftrightarrow> \<not> policy_forbids ctx a (propose a)"
    "pr_requires_approval ev \<longleftrightarrow> \<not> policy_forbids ctx a (propose a) \<and> policy_needs_approval ctx a"
    "flagged (pr_reason ev) \<longleftrightarrow> ctx_suspicious ctx \<or> ctx_source_mismatch ctx"
    and st: "ctx_settings ctx' = ctx_settings ctx"
  shows "\<exists>s' d. act_on_verdict i a actor ctx' ev s = (Inr i, s') \<and> get_case_unscoped s' i = Some d
    \<and> rc_status d = verdict_status ctx a
    \<and> (if verdict_status ctx a = Case_AWAITING_APPROVAL
        then \<exists>ap. db_approvals s' = db_approvals s @ [ap] \<and> ap_status ap = Appr_PENDING
               \<and> ap_recovery_case_id ap = i
               \<and> ap_expires_at ap
                   = Some (db_clock s + approval_ttl_minutes (ctx_settings ctx) * 60000000)
        else db_approvals s' = db_approvals s)
    \<and> plans c a (verdict_action_status ctx a) (pr_risk_level ev) s s'"
proof -
  consider (refused) "policy_forbids ctx a (propose a)"
    | (approval) "\<not> policy_forbids ctx a (propose a)" "policy_needs_approval ctx a"
    | (planned) "\<not> policy_forbids ctx a (propose a)" "\<not> policy_needs_approval ctx a"
    by blast
  then show ?thesis
  proof cases
    case refused
    obtain s3 d where "block_case i a actor ev s = (Inr (), s3)" "get_case_unscoped s3 i = Some d"
      "rc_status d = (if flagged (pr_reason ev) then Case_ESCALATED else Case_STOPPED)"
      "db_approvals s3 = db_approvals s" "plans c a Act_BLOCKED (pr_risk_level ev) s s3"
      using block_case_run [OF c] by blast
    with refused ev show ?thesis
      by (auto simp: act_on_verdict_def prog_simps verdict_status_def verdict_action_status_def)
  next
    case approval
    obtain s3 d ap where "request_approval i a actor ctx' ev s = (Inr (), s3)"
      "get_case_unscoped s3 i = Some d" "rc_status d = Case_AWAITING_APPROVAL"
      "db_approvals s3 = db_approvals s @ [ap]" "ap_status ap = Appr_PENDING"
      "ap_recovery_case_id ap = i"
      "ap_expires_at ap = Some (db_clock s + approval_ttl_minutes (ctx_settings ctx') * 60000000)"
      "plans c a Act_APPROVAL_REQUIRED (pr_risk_level ev) s s3"
      using request_approval_run [OF c] by blast
    with approval ev st show ?thesis
      by (auto simp: act_on_verdict_def prog_simps verdict_status_def verdict_action_status_def)
  next
    case planned
    obtain s3 d where "seqp (record_planned_action i a Act_PENDING (pr_risk_level ev) None)
        (seqp (transition_case i Case_EXECUTING actor None)
        (seqp (transition_case i Case_ACTION_COMPLETED actor None) (ret i))) s = (Inr i, s3)"
      "get_case_unscoped s3 i = Some d" "rc_status d = Case_ACTION_COMPLETED"
      "db_approvals s3 = db_approvals s" "plans c a Act_PENDING (pr_risk_level ev) s s3"
      using plan_run [OF c] by blast
    with planned ev show ?thesis
      by (auto simp: act_on_verdict_def verdict_status_def verdict_action_status_def)
  qed
qed

text \<open>
  C5. \<^bold>\<open>Outcome of processing a case.\<close> Whenever the case is anywhere between detection and the
  policy check, and the merchant's settings can be read, processing succeeds and leaves the case
  in exactly the status its policy verdict demands: escalated when the selected action is
  refused and the case is suspicious, stopped when it is refused otherwise, waiting for approval
  (with exactly one new pending approval, expiring after the configured time) when approval is
  required, and completed otherwise. The planned action is recorded with the status of the
  verdict (blocked, approval required or pending), its risk level and the case's exposure, next
  to the decision row that selected it, unless the case already has one under its key; then that
  one is kept. Processing the case again changes nothing.
\<close>

theorem process_outcome:
  assumes ok: "db_ok s" and c: "get_case_unscoped s i = Some c"
    and pre: "rc_status c \<in> set PRE_POLICY"
    and m: "get_merchant s (rc_merchant_id c) = Some m"
    and st: "merge_merchant settings (mer_settings m) = Inr st"
  defines "ctx \<equiv> policy_context_of s c m st (db_clock s)" and "a \<equiv> selected_action s c"
  shows "\<exists>s' d. process settings i actor s = (Inr i, s') \<and> get_case_unscoped s' i = Some d
    \<and> rc_status d = verdict_status ctx a
    \<and> (if verdict_status ctx a = Case_AWAITING_APPROVAL
        then \<exists>ap. db_approvals s' = db_approvals s @ [ap] \<and> ap_status ap = Appr_PENDING
               \<and> ap_recovery_case_id ap = i
               \<and> ap_expires_at ap = Some (db_clock s + approval_ttl_minutes st * 60000000)
        else db_approvals s' = db_approvals s)
    \<and> plans c a (verdict_action_status ctx a) (policy_risk ctx a (propose a)) s s'
    \<and> process settings i actor' s' = (Inr i, s')"
proof -
  obtain s1 d1 where w: "walk_to_policy_check i actor s = (Inr (), s1)"
      "get_case_unscoped s1 i = Some d1" "rc_status d1 = Case_POLICY_CHECK"
      "same_exposure c d1" "case_frame s s1"
    using walk_reaches_policy_check [OF pre c] by blast
  note keep = walk_keeps_context [OF w(5,4)]
  define ctx1 where "ctx1 = ctx\<lparr>ctx_case := d1\<rparr>"
  have build: "build_policy_context i settings s1 = (Inr ctx1, s1)"
    using build_policy_context_eval [OF w(2) _ st] m
    by (simp add: keep same_exposureD [OF w(4)] ctx1_def ctx_def)
  have risk: "rc_amount_at_risk d1 = rc_amount_at_risk (ctx_case ctx)"
    by (simp add: ctx_def same_exposureD [OF w(4)])
  then have ge: "0 \<le> rc_amount_at_risk (ctx_case ctx1)"
    using db_ok_case [OF ok c] by (simp add: ctx1_def ctx_def case_ok_def)
  obtain ev where ev: "evaluate_action ctx1 (propose a) = Inr ev"
    "pr_allowed ev \<longleftrightarrow> \<not> policy_forbids ctx a (propose a)"
    "pr_requires_approval ev \<longleftrightarrow> \<not> policy_forbids ctx a (propose a) \<and> policy_needs_approval ctx a"
    "flagged (pr_reason ev) \<longleftrightarrow> ctx_suspicious ctx \<or> ctx_source_mismatch ctx"
    using evaluate_action_verdict [OF ge] selected_automatic [of s c]
    by (auto simp: ctx1_def a_def policy_verdict_case_irrelevant [OF risk])
  obtain s2 where s2: "evaluate_and_persist ctx1 (propose a) actor s1 = (Inr ev, s2)"
    "db_cases s2 = db_cases s1" "db_approvals s2 = db_approvals s1" "db_clock s2 = db_clock s1"
    "db_actions s2 = db_actions s1" "db_decisions s2 = db_decisions s1"
    using evaluate_and_persist_run [OF ev(1)] by blast
  have c2: "get_case_unscoped s2 i = Some d1" using w(2) get_case_same [OF s2(2)] by simp
  note same = s2(3-6) case_frameD(1,2,7,8) [OF w(5)]
  have "pr_risk_level ev = policy_risk ctx1 a (propose a)"
    using evaluate_action_risk [OF _ _ ev(1)] ge by (simp add: propose_def)
  then have lv: "pr_risk_level ev = policy_risk ctx a (propose a)"
    by (simp add: ctx1_def policy_risk_case_irrelevant [OF risk])
  have run: "process settings i actor s = act_on_verdict i a actor ctx1 ev s2"
    using pre c w build s2(1)
    by (auto simp: process_def process_locked_case_def prog_simps select_action_def
        is_terminal_def TERMINAL_RECOVERY_STATUSES_def PRE_POLICY_def keep a_def)
  have again: "process settings i actor' s' = (Inr i, s')"
    if "get_case_unscoped s' i = Some d" "rc_status d = verdict_status ctx a" for s' d
    using that by (auto simp: process_def process_locked_case_def prog_simps verdict_status_def
        is_terminal_def TERMINAL_RECOVERY_STATUSES_def)
  have plan: "plans c a st' r s s'" if "plans d1 a st' r s2 s'" for st' r s'
    using that unfolding plans_same_exposure [OF w(4)] by (rule plans_cong) (simp_all add: same)
  have "ctx_settings ctx1 = ctx_settings ctx" by (simp add: ctx1_def)
  moreover have "ctx_settings ctx = st" "db_approvals s2 = db_approvals s" "db_clock s2 = db_clock s"
    using same by (simp_all add: ctx_def)
  ultimately show ?thesis
    using act_on_verdict_run [OF c2 w(3) ev(2-4), of ctx1 actor] again plan lv unfolding run by metis
qed

theorem process_outcome_witness:
  "\<exists>s' d. process default_settings 4 Actor_WORKER demo_db = (Inr 4, s')
     \<and> get_case_unscoped s' 4 = Some d \<and> rc_status d = Case_ACTION_COMPLETED"
proof -
  have pre: "rc_status demo_case \<in> set PRE_POLICY"
    by (simp add: demo_case_def PRE_POLICY_def)
  have m: "get_merchant demo_db (rc_merchant_id demo_case) = Some demo_merchant"
    by (simp add: get_merchant_def demo_defs table_simps)
  have st: "merge_merchant default_settings (mer_settings demo_merchant) = Inr default_settings"
    by (simp add: demo_merchant_def merge_merchant_none)
  have a: "selected_action demo_db demo_case = RETRY_LATER"
    by (simp add: selected_action_def demo_defs get_payment_def RETRYABLE_FAILURES_def)
  have v: "verdict_status (policy_context_of demo_db demo_case demo_merchant default_settings
             (db_clock demo_db)) RETRY_LATER = Case_ACTION_COMPLETED"
    by (simp add: verdict_status_def policy_forbids_def policy_needs_approval_def
        policy_context_of_def get_customer_def retry_count_def default_settings_def demo_defs
        AUTOMATIC_ACTIONS_def RETRY_ACTIONS_def COMMUNICATION_ACTIONS_def is_suspicious_def
        is_source_mismatch_def dict_get_def blocked_actions_def policy_section_def
        quantize_two_decimal two_decimal_def)
  show ?thesis
    using process_outcome [OF demo_db_ok demo_db_case pre m st, of Actor_WORKER Actor_WORKER]
    unfolding a v by blast
qed

end
