(* ===== verification/Verification.thy ===== *)
theory Verification
  imports Processor
begin

text \<open>
  \<^verbatim>\<open>recoverai_domain/verification.py\<close> and \<^verbatim>\<open>verification_types.py\<close>: the only code that
  credits recovered revenue. The match result's prose \<^verbatim>\<open>reasons\<close> are kept because they are
  part of the returned value. The theorems say when revenue is credited, how much, that no payment
  is counted twice, and that verification may be repeated safely.
\<close>

subsection \<open>Results\<close>

record RecoveryMatchResult =
  mr_matched :: bool
  mr_case_id :: uuid
  mr_payment_id :: "uuid option"
  mr_amount_recovered :: rat
  mr_currency :: string
  mr_reasons :: "string list"
  mr_mismatch_reason :: "MismatchReason option"
  mr_remaining_exposure :: rat
  mr_capped_overpayment :: rat

text \<open>\<^verbatim>\<open>str\<close> of an amount that was quantised to two decimals.\<close>

definition show_money :: "rat \<Rightarrow> string" where
  "show_money q = (let n = nat \<lfloor>q * 100\<rfloor> in
     show_nat (n div 100) @ ''.'' @ show_nat (n mod 100 div 10) @ show_nat (n mod 10))"

subsection \<open>Matching a payment with a case\<close>

definition resolve_payment :: "db \<Rightarrow> RecoveryCase \<Rightarrow> uuid option \<Rightarrow> Payment option" where
  "resolve_payment s c payment_id =
     (case (case payment_id of Some p \<Rightarrow> Some p | None \<Rightarrow> rc_payment_id c) of
        None \<Rightarrow> None
      | Some target_id \<Rightarrow> session_get_payment s target_id)"

definition uncredited ::
  "RecoveryCase \<Rightarrow> uuid option \<Rightarrow> MismatchReason \<Rightarrow> string list \<Rightarrow> RecoveryMatchResult res" where
  "uncredited c pid reason reasons =
     bindE (as_money (rc_amount_recovered c)) (\<lambda>recovered.
     bindE (as_money (rc_amount_at_risk c - rc_amount_recovered c)) (\<lambda>remaining.
     Inr \<lparr>mr_matched = False, mr_case_id = rc_id c, mr_payment_id = pid,
          mr_amount_recovered = recovered, mr_currency = rc_currency c, mr_reasons = reasons,
          mr_mismatch_reason = Some reason, mr_remaining_exposure = remaining,
          mr_capped_overpayment = 0\<rparr>))"

definition duplicate_or_already_counted ::
  "db \<Rightarrow> RecoveryCase \<Rightarrow> Payment \<Rightarrow> uuid option \<Rightarrow> RecoveryMatchResult option res" where
  "duplicate_or_already_counted s c p webhook_event_id =
     (if webhook_event_id \<noteq> None \<and> rc_verified_webhook_event_id c \<noteq> None
         \<and> rc_verified_webhook_event_id c = webhook_event_id then
        bindE (uncredited c (Some (pay_id p)) Mis_DUPLICATE_EVENT
                 [''same capture event already verified'']) (\<lambda>r. Inr (Some r))
      else if rc_verified_payment_id c \<noteq> None \<and> rc_verified_payment_id c = Some (pay_id p) then
        bindE (uncredited c (Some (pay_id p)) Mis_ALREADY_COUNTED
                 [''this payment was already counted toward the case'']) (\<lambda>r. Inr (Some r))
      else
        let counted = list_that_counted_payment s (rc_merchant_id c) (pay_id p);
            other = filter (\<lambda>row. rc_id row \<noteq> rc_id c) counted in
        if other \<noteq> [] then
          bindE (uncredited c (Some (pay_id p)) Mis_ALREADY_COUNTED
                   [''payment already counted on another recovery case'']) (\<lambda>r. Inr (Some r))
        else Inr None)"

definition mismatch ::
  "RecoveryCase \<Rightarrow> Payment \<Rightarrow> MismatchReason \<Rightarrow> rat \<Rightarrow> string \<Rightarrow> RecoveryMatchResult" where
  "mismatch c p reason remaining detail =
     \<lparr>mr_matched = False, mr_case_id = rc_id c, mr_payment_id = Some (pay_id p),
      mr_amount_recovered = ZERO, mr_currency = rc_currency c, mr_reasons = [detail],
      mr_mismatch_reason = Some reason, mr_remaining_exposure = remaining,
      mr_capped_overpayment = 0\<rparr>"

definition inside_window :: "RecoverySettings \<Rightarrow> RecoveryCase \<Rightarrow> Payment \<Rightarrow> bool" where
  "inside_window settings c p = (case pay_captured_at p of
     None \<Rightarrow> False
   | Some captured_at \<Rightarrow>
       let grace = recovery_ordering_grace_minutes settings * 60000000;
           window = recovery_window_hours settings * 3600000000;
           earliest = rc_opened_at c - grace;
           latest = rc_opened_at c + window
       in earliest \<le> captured_at \<and> captured_at \<le> latest)"

definition linked_via_action :: "db \<Rightarrow> RecoveryCase \<Rightarrow> Payment \<Rightarrow> bool" where
  "linked_via_action s c p \<longleftrightarrow>
     (\<exists>a \<in> set (filter (\<lambda>a. ra_recovery_case_id a = rc_id c) (db_actions s)).
        (case ra_provider_reference a of
           None \<Rightarrow> False
         | Some r \<Rightarrow> r \<noteq> [] \<and> pay_provider_payment_id p = Some r)
        \<or> dict_get (ra_metadata a) ''new_payment_id'' = JUuid (pay_id p))"

definition nonempty :: "string option \<Rightarrow> bool" where
  "nonempty v = (case v of None \<Rightarrow> False | Some x \<Rightarrow> x \<noteq> [])"

text \<open>The order check of \<^verbatim>\<open>_evaluate\<close>: whether both orders are known, and whether they agree.\<close>

definition case_payment_of :: "db \<Rightarrow> RecoveryCase \<Rightarrow> Payment option" where
  "case_payment_of s c = (case rc_payment_id c of None \<Rightarrow> None
     | Some q \<Rightarrow> get_payment s (rc_merchant_id c) q)"

definition orders_known :: "db \<Rightarrow> RecoveryCase \<Rightarrow> Payment \<Rightarrow> bool" where
  "orders_known s c p = (case case_payment_of s c of None \<Rightarrow> False
     | Some q \<Rightarrow> nonempty (pay_provider_order_id q) \<and> nonempty (pay_provider_order_id p))"

definition order_conflict :: "db \<Rightarrow> RecoveryCase \<Rightarrow> Payment \<Rightarrow> bool" where
  "order_conflict s c p \<longleftrightarrow> orders_known s c p \<and> (case case_payment_of s c of None \<Rightarrow> False
     | Some q \<Rightarrow> pay_provider_order_id q \<noteq> pay_provider_order_id p)"

definition payment_unlinked :: "db \<Rightarrow> RecoveryCase \<Rightarrow> Payment \<Rightarrow> bool" where
  "payment_unlinked s c p \<longleftrightarrow>
     rc_payment_id c \<noteq> None \<and> rc_payment_id c \<noteq> Some (pay_id p)
     \<and> \<not> (orders_known s c p \<or> linked_via_action s c p)"

text \<open>The last part of \<^verbatim>\<open>_evaluate\<close>, once every identity check has passed.\<close>

definition credit_capture :: "RecoveryCase \<Rightarrow> Payment \<Rightarrow> rat \<Rightarrow> RecoveryMatchResult res" where
  "credit_capture c p remaining =
     bindE (as_money (pay_amount p)) (\<lambda>captured.
     if captured \<le> ZERO then
       Inr (mismatch c p Mis_AMOUNT_MISMATCH remaining ''captured amount is not positive'')
     else
       bindE (as_money (rc_amount_at_risk c)) (\<lambda>at_risk.
       let credited = min captured at_risk in
       bindE (if captured > at_risk then as_money (captured - credited) else Inr ZERO)
         (\<lambda>overpayment.
       let full = (captured \<ge> at_risk);
           reasons = [''merchant matches'', ''customer matches'',
             ''payment/order matches recovery context'', ''payment is CAPTURED'',
             ''capture is inside the recovery window'', ''payment was not previously counted'']
             @ (if captured < at_risk then
                  [''partial capture credited without treating full amount_at_risk as recovered'']
                else [])
             @ (if overpayment > ZERO then
                  [''overpayment capped at amount_at_risk; excess is not recovery revenue'']
                else []);
           amount = (if full then credited else captured) in
       bindE (as_money (at_risk - amount)) (\<lambda>exposure.
       Inr \<lparr>mr_matched = full, mr_case_id = rc_id c, mr_payment_id = Some (pay_id p),
            mr_amount_recovered = amount, mr_currency = rc_currency c, mr_reasons = reasons,
            mr_mismatch_reason = None, mr_remaining_exposure = exposure,
            mr_capped_overpayment = overpayment\<rparr>))))"

definition evaluate_match ::
  "RecoverySettings \<Rightarrow> db \<Rightarrow> RecoveryCase \<Rightarrow> Payment \<Rightarrow> RecoveryMatchResult res" where
  "evaluate_match settings s c p =
     bindE (as_money (rc_amount_at_risk c - rc_amount_recovered c)) (\<lambda>remaining.
     if pay_merchant_id p \<noteq> rc_merchant_id c then
       Inr (mismatch c p Mis_MERCHANT_MISMATCH remaining ''merchant does not match'')
     else if pay_customer_id p \<noteq> rc_customer_id c then
       Inr (mismatch c p Mis_CUSTOMER_MISMATCH remaining ''customer does not match'')
     else if order_conflict s c p then
       Inr (mismatch c p Mis_ORDER_MISMATCH remaining ''order does not match case'')
     else if payment_unlinked s c p then
       Inr (mismatch c p Mis_PAYMENT_MISMATCH remaining ''payment does not match case'')
     else if pay_currency p \<noteq> rc_currency c then
       Inr (mismatch c p Mis_CURRENCY_MISMATCH remaining ''currency does not match'')
     else if pay_status p \<noteq> Pay_CAPTURED then
       Inr (mismatch c p Mis_NOT_CAPTURED remaining ''payment is not CAPTURED'')
     else if pay_captured_at p = None then
       Inr (mismatch c p Mis_NOT_CAPTURED remaining ''captured_at is missing'')
     else if \<not> inside_window settings c p then
       Inr (mismatch c p Mis_OUTSIDE_RECOVERY_WINDOW remaining
              ''capture is outside the recovery window'')
     else credit_capture c p remaining)"

subsection \<open>Crediting\<close>

definition ensure_verifying :: "RecoverySettings \<Rightarrow> uuid \<Rightarrow> ActorType \<Rightarrow> unit dbprog" where
  "ensure_verifying settings i actor =
     bind (read_case i) (\<lambda>c.
       if rc_status c = Case_VERIFYING then ret ()
       else if rc_status c = Case_RECOVERED then ret ()
       else
         seqp (if rc_status c \<noteq> Case_ACTION_COMPLETED
               then seqp (process_locked_case settings i actor) (ret ()) else ret ())
         (bind (read_case i) (\<lambda>c'.
            if rc_status c' = Case_ACTION_COMPLETED
            then transition_case i Case_VERIFYING actor None else ret ())))"

definition audit_amount :: "RecoveryCase \<Rightarrow> ActorType \<Rightarrow> rat \<Rightarrow> rat \<Rightarrow> unit dbprog" where
  "audit_amount c actor previous credited =
     unless (previous = credited)
       (record_audit (rc_merchant_id c) Aud_RECOVERY_AMOUNT_UPDATED (Some (rc_id c)) actor
          (Some ''update_amount_recovered'') (Some (show_money previous))
          (Some (show_money credited)) None)"

definition apply_success ::
  "uuid \<Rightarrow> uuid \<Rightarrow> RecoveryMatchResult \<Rightarrow> uuid option \<Rightarrow> ActorType \<Rightarrow> unit dbprog" where
  "apply_success i pid m webhook_event_id actor =
     bind (read_case i) (\<lambda>c.
       if rc_status c \<noteq> Case_VERIFYING then ret ()
       else
         bind (lift (as_money (rc_amount_recovered c))) (\<lambda>previous.
         bind (lift (as_money (mr_amount_recovered m))) (\<lambda>credited.
         bind (lift (as_money (rc_amount_at_risk c))) (\<lambda>at_risk.
           if credited > at_risk then raise (DomainError ''RECOVERY_AMOUNT_OVERFLOW'' False)
           else
             seqp (update_case i (\<lambda>r. r\<lparr>rc_amount_recovered := credited,
                     rc_verified_payment_id := Some pid,
                     rc_verified_webhook_event_id := webhook_event_id,
                     rc_last_mismatch_reason := None\<rparr>))
             (seqp (audit_amount c actor previous credited)
                   (transition_case i Case_RECOVERED actor None))))))"

definition persist_failure ::
  "uuid \<Rightarrow> RecoveryMatchResult \<Rightarrow> uuid option \<Rightarrow> ActorType \<Rightarrow> unit dbprog" where
  "persist_failure i result webhook_event_id actor =
     (let reason = (case mr_mismatch_reason result of None \<Rightarrow> Mis_UNKNOWN | Some r \<Rightarrow> r) in
      seqp (update_case i (\<lambda>r. r\<lparr>rc_last_mismatch_reason := Some reason\<rparr>))
      (seqp (unless (\<not> (webhook_event_id \<noteq> None \<and> mr_mismatch_reason result = Some Mis_DUPLICATE_EVENT))
              (update_case i (\<lambda>r. r\<lparr>rc_verified_webhook_event_id := webhook_event_id\<rparr>)))
      (seqp
        (if mr_mismatch_reason result = None \<and> mr_amount_recovered result > ZERO
            \<and> mr_remaining_exposure result > ZERO then
           bind (read_case i) (\<lambda>c.
           bind (lift (as_money (rc_amount_recovered c))) (\<lambda>previous.
           bind (lift (as_money (min (mr_amount_recovered result) (rc_amount_at_risk c)))) (\<lambda>credited.
             seqp (update_case i (\<lambda>r. r\<lparr>rc_amount_recovered := credited,
                     rc_verified_payment_id := (case mr_payment_id result of
                        None \<Rightarrow> rc_verified_payment_id r | Some p \<Rightarrow> Some p),
                     rc_verified_webhook_event_id := webhook_event_id\<rparr>))
                  (audit_amount c actor previous credited))))
         else ret ())
      (bind (read_case i) (\<lambda>c.
         if rc_status c = Case_VERIFYING then
           transition_case i Case_NOT_RECOVERED actor None
         else if mr_mismatch_reason result \<noteq> None then
           record_audit (rc_merchant_id c) Aud_RECOVERY_VERIFICATION_FAILED (Some (rc_id c)) actor
             (Some ''verify_failed'') (Some (case_status_value (rc_status c)))
             (Some (case_status_value (rc_status c))) None
         else ret ())))))"

definition audit_no_credit :: "uuid \<Rightarrow> RecoveryMatchResult \<Rightarrow> ActorType \<Rightarrow> unit dbprog" where
  "audit_no_credit i result actor =
     seqp (update_case i (\<lambda>r. r\<lparr>rc_last_mismatch_reason := mr_mismatch_reason result\<rparr>))
     (bind (read_case i) (\<lambda>c.
        record_audit (rc_merchant_id c) Aud_RECOVERY_VERIFICATION_FAILED (Some (rc_id c)) actor
          (Some ''verify_idempotent'') (Some (case_status_value (rc_status c)))
          (Some (case_status_value (rc_status c))) None))"

definition settle_match ::
  "RecoverySettings \<Rightarrow> uuid \<Rightarrow> Payment \<Rightarrow> RecoveryMatchResult \<Rightarrow> uuid option \<Rightarrow> ActorType \<Rightarrow>
   RecoveryMatchResult dbprog" where
  "settle_match settings i p m webhook_event_id actor =
     seqp (ensure_verifying settings i actor)
     (seqp (if mr_matched m then apply_success i (pay_id p) m webhook_event_id actor
            else persist_failure i m webhook_event_id actor)
           (ret m))"

definition verify_payment ::
  "RecoverySettings \<Rightarrow> uuid \<Rightarrow> RecoveryCase \<Rightarrow> Payment \<Rightarrow> uuid option \<Rightarrow> ActorType \<Rightarrow>
   RecoveryMatchResult dbprog" where
  "verify_payment settings i c p webhook_event_id actor =
     bind (bind (gets (\<lambda>s. duplicate_or_already_counted s c p webhook_event_id)) lift) (\<lambda>duplicate.
       case duplicate of
         Some d \<Rightarrow> seqp (audit_no_credit i d actor) (ret d)
       | None \<Rightarrow>
           bind (bind (gets (\<lambda>s. evaluate_match settings s c p)) lift) (\<lambda>m.
             if rc_status c = Case_RECOVERED then
               bind (lift (as_money (rc_amount_recovered c))) (\<lambda>recovered.
               ret \<lparr>mr_matched = True, mr_case_id = rc_id c, mr_payment_id = Some (pay_id p),
                    mr_amount_recovered = recovered, mr_currency = rc_currency c,
                    mr_reasons = [''already recovered; verification is idempotent''],
                    mr_mismatch_reason = None, mr_remaining_exposure = ZERO,
                    mr_capped_overpayment = 0\<rparr>)
             else
               settle_match settings i p (m\<lparr>mr_payment_id := Some (pay_id p)\<rparr>)
                 webhook_event_id actor))"

definition verify_case ::
  "RecoverySettings \<Rightarrow> uuid \<Rightarrow> uuid option \<Rightarrow> uuid option \<Rightarrow> ActorType \<Rightarrow>
   RecoveryMatchResult dbprog" where
  "verify_case settings case_id payment_id webhook_event_id actor =
     bind (lock_recovery_case case_id) (\<lambda>i.
     bind (read_case i) (\<lambda>c.
       if is_terminal (rc_status c) \<and> rc_status c = Case_STOPPED then
         lift (uncredited c None Mis_UNKNOWN [''case is STOPPED''])
       else
         bind (gets (\<lambda>s. resolve_payment s c payment_id)) (\<lambda>payment.
           case payment of
             None \<Rightarrow>
               bind (lift (as_money (rc_amount_at_risk c - rc_amount_recovered c))) (\<lambda>remaining.
               let result = \<lparr>mr_matched = False, mr_case_id = rc_id c, mr_payment_id = None,
                     mr_amount_recovered = ZERO, mr_currency = rc_currency c, mr_reasons = [],
                     mr_mismatch_reason = Some Mis_PAYMENT_MISMATCH,
                     mr_remaining_exposure = remaining, mr_capped_overpayment = 0\<rparr> in
               seqp (persist_failure i result webhook_event_id actor) (ret result))
           | Some p \<Rightarrow> verify_payment settings i c p webhook_event_id actor)))"

subsection \<open>What a match means\<close>

lemma case_ok_money:
  assumes "case_ok c"
  shows "as_money (rc_amount_at_risk c) = Inr (rc_amount_at_risk c)"
    and "as_money (rc_amount_recovered c) = Inr (rc_amount_recovered c)"
    and "as_money (rc_amount_at_risk c - rc_amount_recovered c)
           = Inr (rc_amount_at_risk c - rc_amount_recovered c)"
  using assms by (auto simp: case_ok_def intro!: as_money_exact two_decimal_diff)

lemma payment_ok_money: "payment_ok p \<Longrightarrow> as_money (pay_amount p) = Inr (pay_amount p)"
  by (simp add: payment_ok_def as_money_exact)

text \<open>
  The conditions under which a payment earns a case any credit, without the money arithmetic.
\<close>

definition payment_matches ::
  "RecoverySettings \<Rightarrow> db \<Rightarrow> RecoveryCase \<Rightarrow> Payment \<Rightarrow> bool" where
  "payment_matches settings s c p \<longleftrightarrow>
     pay_merchant_id p = rc_merchant_id c \<and> pay_customer_id p = rc_customer_id c
     \<and> \<not> order_conflict s c p \<and> \<not> payment_unlinked s c p
     \<and> pay_currency p = rc_currency c \<and> pay_status p = Pay_CAPTURED
     \<and> inside_window settings c p \<and> 0 < pay_amount p"

lemma mismatch_fields [simp]:
  "mr_mismatch_reason (mismatch c p r x d) = Some r" "mr_matched (mismatch c p r x d) = False"
  "mr_amount_recovered (mismatch c p r x d) = 0" "mr_payment_id (mismatch c p r x d) = Some (pay_id p)"
  by (simp_all add: mismatch_def ZERO_def)

lemma credit_capture_amounts:
  assumes c: "case_ok c" and p: "payment_ok p" and pos: "0 < pay_amount p"
  shows "\<exists>reasons over. credit_capture c p remaining = Inr
    \<lparr>mr_matched = (rc_amount_at_risk c \<le> pay_amount p), mr_case_id = rc_id c,
     mr_payment_id = Some (pay_id p),
     mr_amount_recovered = min (pay_amount p) (rc_amount_at_risk c),
     mr_currency = rc_currency c, mr_reasons = reasons, mr_mismatch_reason = None,
     mr_remaining_exposure = rc_amount_at_risk c - min (pay_amount p) (rc_amount_at_risk c),
     mr_capped_overpayment = over\<rparr>"
proof -
  have two: "two_decimal (pay_amount p)" "two_decimal (rc_amount_at_risk c)"
    using c p by (simp_all add: case_ok_def payment_ok_def)
  have zero: "as_money 0 = Inr 0" by (intro as_money_exact) simp_all
  note money = case_ok_money [OF c] payment_ok_money [OF p]
  consider (over) "rc_amount_at_risk c < pay_amount p" | (exact) "rc_amount_at_risk c = pay_amount p"
    | (partial) "pay_amount p < rc_amount_at_risk c" by linarith
  then show ?thesis
  proof cases
    case over
    then have "as_money (pay_amount p - rc_amount_at_risk c) = Inr (pay_amount p - rc_amount_at_risk c)"
      using two by (intro as_money_exact two_decimal_diff) auto
    with over pos show ?thesis
      by (simp add: credit_capture_def money ZERO_def Let_def min_def zero)
  next
    case exact
    with pos money show ?thesis
      by (simp add: credit_capture_def ZERO_def Let_def zero)
  next
    case partial
    then have "as_money (rc_amount_at_risk c - pay_amount p) = Inr (rc_amount_at_risk c - pay_amount p)"
      using two by (intro as_money_exact two_decimal_diff) auto
    with partial pos show ?thesis
      by (simp add: credit_capture_def money ZERO_def Let_def min_def)
  qed
qed

lemma evaluate_match_matches:
  assumes "case_ok c" and "payment_matches settings s c p"
  shows "evaluate_match settings s c p
           = credit_capture c p (rc_amount_at_risk c - rc_amount_recovered c)"
proof -
  have "pay_captured_at p \<noteq> None"
    using assms(2) by (auto simp: payment_matches_def inside_window_def split: option.splits)
  then show ?thesis
    using assms(2) by (auto simp: evaluate_match_def payment_matches_def case_ok_money [OF assms(1)])
qed

lemma evaluate_match_fails:
  assumes c: "case_ok c" and p: "payment_ok p" and m: "\<not> payment_matches settings s c p"
  shows "\<exists>reason detail. evaluate_match settings s c p
           = Inr (mismatch c p reason (rc_amount_at_risk c - rc_amount_recovered c) detail)"
proof -
  have "0 \<le> pay_amount p" using p by (simp add: payment_ok_def)
  then have zero: "credit_capture c p x = Inr (mismatch c p Mis_AMOUNT_MISMATCH x ''captured amount is not positive'')"
    if "\<not> 0 < pay_amount p" for x
    using that unfolding credit_capture_def payment_ok_money [OF p] bindE_simps ZERO_def by simp
  define P where "P y \<longleftrightarrow> (\<exists>reason detail. y =
     Inr (mismatch c p reason (rc_amount_at_risk c - rc_amount_recovered c) detail))"
    for y :: "RecoveryMatchResult res"
  have leaf: "P (Inr (mismatch c p r (rc_amount_at_risk c - rc_amount_recovered c) d))" for r d
    by (auto simp: P_def)
  have capture: "P (credit_capture c p (rc_amount_at_risk c - rc_amount_recovered c))"
    if "\<not> 0 < pay_amount p"
    using zero [OF that] leaf by simp
  have branch: "(b \<Longrightarrow> P x) \<Longrightarrow> (\<not> b \<Longrightarrow> P y) \<Longrightarrow> P (if b then x else y)" for b x y
    by simp
  have "P (evaluate_match settings s c p)"
    unfolding evaluate_match_def case_ok_money(3) [OF c] bindE_simps
    by (intro branch leaf capture) (use m in \<open>simp add: payment_matches_def\<close>)
  then show ?thesis by (simp add: P_def)
qed

lemma no_other_counted:
  assumes ok: "db_ok s" and none: "duplicate_or_already_counted s c p w = Inr None"
    and d: "get_case_unscoped s j = Some d" "j \<noteq> rc_id c" "0 < rc_amount_recovered d"
      "rc_merchant_id d = rc_merchant_id c"
  shows "rc_verified_payment_id d \<noteq> Some (pay_id p)"
proof
  assume "rc_verified_payment_id d = Some (pay_id p)"
  with d have "d \<in> set (filter (\<lambda>row. rc_id row \<noteq> rc_id c)
      (list_that_counted_payment s (rc_merchant_id c) (pay_id p)))"
    by (auto simp: list_that_counted_payment_def get_case_unscoped_def
        dest: find_row_Some_in find_row_Some_key)
  with none show False
    by (auto simp: duplicate_or_already_counted_def Let_def bindE_Inr_iff filter_empty_conv
        split: if_splits)
qed

lemma duplicate_not_new:
  "duplicate_or_already_counted s c p w = Inr None \<Longrightarrow> rc_verified_payment_id c \<noteq> Some (pay_id p)"
  by (auto simp: duplicate_or_already_counted_def Let_def bindE_Inr_iff split: if_splits)

subsection \<open>Contracts of the parts\<close>

lemma ensure_verifying_no_credit: "obeys (db_evolves case_no_credit) (ensure_verifying settings i actor)"
  unfolding ensure_verifying_def
  by (intro no_credit_rules process_locked_case_no_credit) simp_all

lemma audit_amount_mark: "obeys (db_evolves case_mark) (audit_amount c actor x y)"
  unfolding audit_amount_def by (intro mark_rules)

text \<open>A write that leaves identity, exposure, credit and status alone is a mark.\<close>

lemma mark_same_status:
  assumes "rc_status d = rc_status c" "rc_version d = rc_version c"
    "rc_amount_recovered d = rc_amount_recovered c"
    "rc_verified_payment_id d = rc_verified_payment_id c"
    "rc_id d = rc_id c" "rc_merchant_id d = rc_merchant_id c" "rc_customer_id d = rc_customer_id c"
    "rc_payment_id d = rc_payment_id c" "rc_cart_id d = rc_cart_id c"
    "rc_subscription_id d = rc_subscription_id c" "rc_currency d = rc_currency c"
    "rc_amount_at_risk d = rc_amount_at_risk c" "rc_opened_at d = rc_opened_at c"
  shows "case_mark c d"
  using assms unfolding case_mark_def case_lifecycle_def by (auto intro: exI [of _ 0])

lemma audit_no_credit_mark: "obeys (db_evolves case_mark) (audit_no_credit i m actor)"
  unfolding audit_no_credit_def
  by (intro mark_rules mark.obeys_update_case) (simp_all add: mark_same_status)

lemma persist_failure_mark:
  assumes "mr_mismatch_reason m \<noteq> None"
  shows "obeys (db_evolves case_mark) (persist_failure i m w actor)"
  using assms unfolding persist_failure_def
  by (intro mark_rules mark.obeys_update_case audit_amount_mark) (simp_all add: mark_same_status)

lemma keeps_ok_update_case:
  assumes "\<And>c. case_ok c \<Longrightarrow> good_update c (f c)"
  shows "keeps db_ok (update_case i f) (\<lambda>_. True)"
  using assms by (intro keepsI) (auto simp: prog_simps intro!: db_ok_update_case dest: db_ok_case)

lemma keeps_ok_ensure_verifying: "keeps db_ok (ensure_verifying settings i actor) (\<lambda>_. True)"
  unfolding ensure_verifying_def by (intro ok_rules keeps_ok_process_locked_case)

lemma keeps_ok_audit_amount: "keeps db_ok (audit_amount c actor x y) (\<lambda>_. True)"
  unfolding audit_amount_def by (intro ok_rules)

lemma keeps_ok_audit_no_credit: "keeps db_ok (audit_no_credit i m actor) (\<lambda>_. True)"
  unfolding audit_no_credit_def
  by (intro ok_rules keeps_ok_update_case) (simp add: good_update_def case_ok_def)

definition credit_write :: "rat \<Rightarrow> uuid option \<Rightarrow> uuid option \<Rightarrow> MismatchReason option \<Rightarrow> RecoveryCase \<Rightarrow> RecoveryCase" where
  "credit_write a pid w mis r = r\<lparr>rc_amount_recovered := a, rc_verified_payment_id := pid,
     rc_verified_webhook_event_id := w, rc_last_mismatch_reason := mis\<rparr>"

lemma credit_write_fields [simp]:
  "rc_id (credit_write a p w mis r) = rc_id r" "rc_status (credit_write a p w mis r) = rc_status r"
  "rc_merchant_id (credit_write a p w mis r) = rc_merchant_id r"
  "rc_amount_at_risk (credit_write a p w mis r) = rc_amount_at_risk r"
  "rc_amount_recovered (credit_write a p w mis r) = a"
  "rc_verified_payment_id (credit_write a p w mis r) = p"
  by (simp_all add: credit_write_def)

lemma credit_write_good:
  "case_ok c \<Longrightarrow> 0 \<le> a \<Longrightarrow> a \<le> rc_amount_at_risk c \<Longrightarrow> two_decimal a \<Longrightarrow>
   good_update c (credit_write a p w mis c)"
  by (simp add: good_update_def case_ok_def credit_write_def)

lemma credit_write_lifecycle: "case_lifecycle c (credit_write a p w mis c)"
  unfolding case_lifecycle_def credit_write_def by (auto intro: exI [of _ 0])

lemma get_case_update:
  assumes "\<And>r. rc_id (f r) = rc_id r"
  shows "get_case_unscoped (s\<lparr>db_cases := update_row rc_id i f (db_cases s)\<rparr>) j =
     (if j = i then map_option f (get_case_unscoped s j) else get_case_unscoped s j)"
proof -
  have "keyed_update rc_id f" by unfold_locales (rule assms)
  then show ?thesis by (simp add: get_case_unscoped_def keyed_update.find_update_row)
qed

lemma audit_amount_frame:
  "\<exists>a. audit_amount c actor x y s = (Inr (), s\<lparr>db_audit := a\<rparr>)"
  by (auto simp: audit_amount_def prog_simps intro: exI [of _ "db_audit s"])

lemma transition_step_all:
  assumes c: "get_case_unscoped s i = Some c" and step: "can_transition (rc_status c) target"
    and ok: "db_ok s"
  obtains t where "transition_case i target actor None s = (Inr (), t)"
    "get_case_unscoped t i = Some (moved_case target (db_clock s) c)"
    "\<And>j. j \<noteq> i \<Longrightarrow> get_case_unscoped t j = get_case_unscoped s j" "db_ok t"
proof -
  let ?t = "s\<lparr>db_cases := update_row rc_id i (moved_case target (db_clock s)) (db_cases s),
     db_audit := db_audit s @ [transition_audit c target actor (db_clock s)]\<rparr>"
  have run: "transition_case i target actor None s = (Inr (), ?t)"
    using c step by (simp add: transition_case_eval)
  from run show ?thesis
    by (rule that) (use c keepsD [OF keeps_ok_transition_case ok run] in
        \<open>simp_all add: get_case_after_move\<close>)
qed

lemma update_case_run:
  assumes c: "get_case_unscoped s i = Some c" and ok: "db_ok s"
    and f: "\<And>r. rc_id (f r) = rc_id r" "good_update c (f c)"
  obtains t where "update_case i f s = (Inr (), t)" "get_case_unscoped t i = Some (f c)"
    "\<And>j. j \<noteq> i \<Longrightarrow> get_case_unscoped t j = get_case_unscoped s j" "db_ok t" "db_clock t = db_clock s"
proof -
  have "db_ok (s\<lparr>db_cases := update_row rc_id i f (db_cases s)\<rparr>)"
    using ok c f(2) by (intro db_ok_update_case) auto
  with c show ?thesis
    by (intro that [of "s\<lparr>db_cases := update_row rc_id i f (db_cases s)\<rparr>"])
      (simp_all add: prog_simps get_case_update [OF f(1)])
qed

text \<open>The write of a credit, with the audit row that goes with it.\<close>

lemma credit_write_run:
  assumes c: "get_case_unscoped s i = Some c" and ok: "db_ok s"
    and f: "\<And>r. rc_id (f r) = rc_id r" "good_update c (f c)"
  obtains t where "seqp (update_case i f) (audit_amount c' actor x a) s = (Inr (), t)"
    "get_case_unscoped t i = Some (f c)"
    "\<And>j. j \<noteq> i \<Longrightarrow> get_case_unscoped t j = get_case_unscoped s j" "db_ok t" "db_clock t = db_clock s"
proof -
  obtain s1 where s1: "update_case i f s = (Inr (), s1)" "get_case_unscoped s1 i = Some (f c)"
    "\<And>j. j \<noteq> i \<Longrightarrow> get_case_unscoped s1 j = get_case_unscoped s j" "db_ok s1" "db_clock s1 = db_clock s"
    using update_case_run [OF assms] by metis
  obtain au where au: "audit_amount c' actor x a s1 = (Inr (), s1\<lparr>db_audit := au\<rparr>)"
    using audit_amount_frame by blast
  show ?thesis
    using s1 au by (intro that [of "s1\<lparr>db_audit := au\<rparr>"]) (simp_all add: bind_eval)
qed

text \<open>A full match, credited and marked recovered.\<close>

lemma apply_success_run:
  assumes c: "get_case_unscoped s i = Some c" "rc_status c = Case_VERIFYING" and ok: "db_ok s"
    and a: "as_money (mr_amount_recovered m) = Inr a" "a \<le> rc_amount_at_risk c"
  obtains t where "apply_success i pid m w actor s = (Inr (), t)"
    "get_case_unscoped t i
       = Some (moved_case Case_RECOVERED (db_clock s) (credit_write a (Some pid) w None c))"
    "\<And>j. j \<noteq> i \<Longrightarrow> get_case_unscoped t j = get_case_unscoped s j" "db_ok t"
proof -
  let ?c1 = "credit_write a (Some pid) w None c"
  have "0 \<le> a" "two_decimal a" using a(1) by (simp_all add: as_money_Inr)
  then have gd: "good_update c ?c1"
    using a(2) db_ok_case [OF ok c(1)] by (intro credit_write_good) auto
  obtain s1 where s1: "seqp (update_case i (credit_write a (Some pid) w None))
      (audit_amount c actor (rc_amount_recovered c) a) s = (Inr (), s1)"
    "get_case_unscoped s1 i = Some ?c1" "\<And>j. j \<noteq> i \<Longrightarrow> get_case_unscoped s1 j = get_case_unscoped s j"
    "db_ok s1" "db_clock s1 = db_clock s"
    using credit_write_run [OF c(1) ok credit_write_fields(1) gd] by blast
  have "can_transition (rc_status ?c1) Case_RECOVERED"
    using c(2) by (simp add: can_transition_def LEGAL_TRANSITIONS_def)
  then obtain t where t: "transition_case i Case_RECOVERED actor None s1 = (Inr (), t)"
    "get_case_unscoped t i = Some (moved_case Case_RECOVERED (db_clock s) ?c1)"
    "\<And>j. j \<noteq> i \<Longrightarrow> get_case_unscoped t j = get_case_unscoped s1 j" "db_ok t"
    using transition_step_all [OF s1(2) _ s1(4)] s1(5) by metis
  have w: "(\<lambda>r. r\<lparr>rc_amount_recovered := a, rc_verified_payment_id := Some pid,
      rc_verified_webhook_event_id := w, rc_last_mismatch_reason := None\<rparr>) = credit_write a (Some pid) w None"
    by (simp add: fun_eq_iff credit_write_def)
  have "apply_success i pid m w actor s = (Inr (), t)"
    using c a s1(1) t(1)
    by (auto simp: apply_success_def prog_simps case_ok_money [OF db_ok_case [OF ok c(1)]] w
        split: prod.splits sum.splits)
  then show ?thesis
    using t s1(3) by (intro that) simp_all
qed

text \<open>A partial match: credited, with the case left unrecovered.\<close>

lemma persist_failure_partial_run:
  assumes c: "get_case_unscoped s i = Some c" and ok: "db_ok s"
    and m: "mr_mismatch_reason m = None" "mr_payment_id m = Some pid" "mr_amount_recovered m = a"
      "mr_remaining_exposure m = rc_amount_at_risk c - a"
    and a: "0 < a" "a < rc_amount_at_risk c" "two_decimal a"
  obtains t d where "persist_failure i m w actor s = (Inr (), t)" "get_case_unscoped t i = Some d"
    "d = (if rc_status c = Case_VERIFYING then moved_case Case_NOT_RECOVERED (db_clock s) else id)
           (credit_write a (Some pid) w (Some Mis_UNKNOWN) c)"
    "\<And>j. j \<noteq> i \<Longrightarrow> get_case_unscoped t j = get_case_unscoped s j" "db_ok t"
proof -
  let ?f = "\<lambda>r. r\<lparr>rc_last_mismatch_reason := Some Mis_UNKNOWN\<rparr>"
  let ?g = "\<lambda>r. r\<lparr>rc_amount_recovered := a, rc_verified_payment_id := Some pid,
    rc_verified_webhook_event_id := w\<rparr>"
  let ?d = "credit_write a (Some pid) w (Some Mis_UNKNOWN) c"
  have ok_c: "case_ok c" by (rule db_ok_case [OF ok c])
  then have fg: "good_update c (?f c)" by (simp add: good_update_def case_ok_def)
  have ids: "rc_id (?f r) = rc_id r" "rc_id (?g r) = rc_id r" for r by simp_all
  obtain s1 where s1: "update_case i ?f s = (Inr (), s1)" "get_case_unscoped s1 i = Some (?f c)"
    "\<And>j. j \<noteq> i \<Longrightarrow> get_case_unscoped s1 j = get_case_unscoped s j" "db_ok s1" "db_clock s1 = db_clock s"
    using update_case_run [OF c ok ids(1) fg] by blast
  have gg: "good_update (?f c) (?g (?f c))"
    using ok_c a by (simp add: good_update_def case_ok_def)
  obtain s2 where s2: "seqp (update_case i ?g) (audit_amount (?f c) actor (rc_amount_recovered c) a) s1
      = (Inr (), s2)" "get_case_unscoped s2 i = Some (?g (?f c))"
    "\<And>j. j \<noteq> i \<Longrightarrow> get_case_unscoped s2 j = get_case_unscoped s1 j" "db_ok s2" "db_clock s2 = db_clock s1"
    using credit_write_run [OF s1(2,4) ids(2) gg] by blast
  have d: "?g (?f c) = ?d" by (simp add: credit_write_def)
  have am: "as_money (min a (rc_amount_at_risk c)) = Inr a"
    using a by (simp add: min_def as_money_exact)
  have run: "persist_failure i m w actor s = (if rc_status c = Case_VERIFYING
      then transition_case i Case_NOT_RECOVERED actor None s2 else (Inr (), s2))"
  proof -
    let ?B = "bind (read_case i) (\<lambda>c. bind (lift (as_money (rc_amount_recovered c))) (\<lambda>previous.
        bind (lift (as_money (min a (rc_amount_at_risk c)))) (\<lambda>credited.
        seqp (update_case i (\<lambda>r. r\<lparr>rc_amount_recovered := credited, rc_verified_payment_id := Some pid,
            rc_verified_webhook_event_id := w\<rparr>)) (audit_amount c actor previous credited))))"
    have block: "?B s1 = (Inr (), s2)"
      using s1(2) s2(1) by (simp add: bind_eval(1) prog_eval deref_eval case_ok_money [OF ok_c] am)
    have steps: "seqp (update_case i ?f) n s = n s1" "seqp (unless True k) n s1 = n s1" for n k
      by (rule seqp_run, rule s1(1)) (simp add: bind_eval(2) unless_eval)
    show ?thesis
      using a s2(2)
      by (simp add: persist_failure_def m ZERO_def steps seqp_run [of ?B s1 "()" s2, OF block]
          bind_eval(1) deref_eval prog_eval)
  qed
  show ?thesis
  proof (cases "rc_status c = Case_VERIFYING")
    case True
    then have "can_transition (rc_status ?d) Case_NOT_RECOVERED"
      by (simp add: can_transition_def LEGAL_TRANSITIONS_def)
    then obtain t where "transition_case i Case_NOT_RECOVERED actor None s2 = (Inr (), t)"
      "get_case_unscoped t i = Some (moved_case Case_NOT_RECOVERED (db_clock s2) ?d)"
      "\<And>j. j \<noteq> i \<Longrightarrow> get_case_unscoped t j = get_case_unscoped s2 j" "db_ok t"
      using transition_step_all [OF _ _ s2(4)] s2(2) unfolding d by metis
    with True run s1(3,5) s2(3,5) show ?thesis
      by (intro that [of t "moved_case Case_NOT_RECOVERED (db_clock s) ?d"]) simp_all
  next
    case False
    with run s1(3) s2(2,3,4) show ?thesis by (intro that [of s2 ?d]) (simp_all add: d)
  qed
qed

subsection \<open>The two kinds of runs\<close>

text \<open>
  A run either only marks cases, or it credits the one case it was asked to verify: the
  processor runs first (\<open>s1\<close>), then that row changes and no other.
\<close>

definition credit_step ::
  "RecoverySettings \<Rightarrow> db \<Rightarrow> uuid \<Rightarrow> uuid option \<Rightarrow> uuid option \<Rightarrow> db \<Rightarrow> bool" where
  "credit_step settings s i payment_id w t \<longleftrightarrow>
     (\<exists>c p d s1. get_case_unscoped s i = Some c \<and> \<not> is_terminal (rc_status c)
        \<and> resolve_payment s c payment_id = Some p
        \<and> duplicate_or_already_counted s c p w = Inr None \<and> payment_matches settings s c p
        \<and> db_evolves case_no_credit s s1 \<and> get_case_unscoped t i = Some d \<and> case_lifecycle c d
        \<and> (\<forall>j. j \<noteq> i \<longrightarrow> get_case_unscoped t j = get_case_unscoped s1 j)
        \<and> rc_amount_recovered d = min (pay_amount p) (rc_amount_at_risk c)
        \<and> rc_verified_payment_id d = Some (pay_id p)
        \<and> (rc_status d = Case_RECOVERED \<longrightarrow> rc_amount_at_risk c \<le> pay_amount p))"

lemma keeps_ok_persist_mismatch:
  assumes "mr_mismatch_reason m \<noteq> None"
  shows "keeps db_ok (persist_failure i m w actor) (\<lambda>_. True)"
  using assms unfolding persist_failure_def
  by (intro ok_rules keeps_ok_update_case keeps_ok_audit_amount)
     (simp_all add: good_update_def case_ok_def)

lemma settle_credit:
  assumes ok: "db_ok s" and c1: "get_case_unscoped s i = Some c1" "case_no_credit c c1"
    and c: "rc_status c \<noteq> Case_RECOVERED" and p: "payment_ok p" "0 < pay_amount p"
    and m: "mr_matched m = (rc_amount_at_risk c \<le> pay_amount p)" "mr_payment_id m = Some (pay_id p)"
      "mr_amount_recovered m = min (pay_amount p) (rc_amount_at_risk c)" "mr_mismatch_reason m = None"
      "mr_remaining_exposure m = rc_amount_at_risk c - min (pay_amount p) (rc_amount_at_risk c)"
    and run: "(if mr_matched m then apply_success i (pay_id p) m w actor
               else persist_failure i m w actor) s = (r, t)"
  shows "db_ok t \<and> (t = s \<or> (\<exists>d. get_case_unscoped t i = Some d \<and> case_lifecycle c d
      \<and> (\<forall>j. j \<noteq> i \<longrightarrow> get_case_unscoped t j = get_case_unscoped s j)
      \<and> rc_amount_recovered d = min (pay_amount p) (rc_amount_at_risk c)
      \<and> rc_verified_payment_id d = Some (pay_id p)
      \<and> (rc_status d = Case_RECOVERED \<longrightarrow> rc_amount_at_risk c \<le> pay_amount p)))"
proof -
  have life: "case_lifecycle c c1" and risk: "rc_amount_at_risk c1 = rc_amount_at_risk c"
    and open1: "rc_status c1 \<noteq> Case_RECOVERED"
    using c1(2) c by (auto simp: case_no_credit_def case_lifecycle_def)
  have ok1: "case_ok c1" by (rule db_ok_case [OF ok c1(1)])
  let ?a = "min (pay_amount p) (rc_amount_at_risk c)"
  have a: "two_decimal ?a" "0 \<le> ?a"
    using p ok1 risk by (auto simp: payment_ok_def case_ok_def intro: two_decimal_min)
  show ?thesis
  proof (cases "mr_matched m")
    case True
    show ?thesis
    proof (cases "rc_status c1 = Case_VERIFYING")
      case False
      with True run c1(1) ok show ?thesis by (auto simp: apply_success_def prog_simps)
    next
      case verifying: True
      have "as_money (mr_amount_recovered m) = Inr ?a" unfolding m using a by (simp add: as_money_exact)
      then obtain t' where t': "apply_success i (pay_id p) m w actor s = (Inr (), t')"
        "get_case_unscoped t' i = Some (moved_case Case_RECOVERED (db_clock s)
           (credit_write ?a (Some (pay_id p)) w None c1))"
        "\<And>j. j \<noteq> i \<Longrightarrow> get_case_unscoped t' j = get_case_unscoped s j" "db_ok t'"
        using apply_success_run [OF c1(1) verifying ok] risk by (metis min.cobounded2)
      have "case_lifecycle c (moved_case Case_RECOVERED (db_clock s)
           (credit_write ?a (Some (pay_id p)) w None c1))"
        by (rule case_lifecycle_trans [OF case_lifecycle_trans [OF life credit_write_lifecycle]
              moved_case_lifecycle])
          (simp add: verifying can_transition_def LEGAL_TRANSITIONS_def)
      with t' run True m(1) show ?thesis by (auto simp: moved_case_def)
    qed
  next
    case False
    with m(1) have lt: "pay_amount p < rc_amount_at_risk c1" "?a = pay_amount p" using risk by auto
    then obtain t' d where t': "persist_failure i m w actor s = (Inr (), t')"
      "get_case_unscoped t' i = Some d"
      "d = (if rc_status c1 = Case_VERIFYING then moved_case Case_NOT_RECOVERED (db_clock s) else id)
             (credit_write ?a (Some (pay_id p)) w (Some Mis_UNKNOWN) c1)"
      "\<And>j. j \<noteq> i \<Longrightarrow> get_case_unscoped t' j = get_case_unscoped s j" "db_ok t'"
      using persist_failure_partial_run [OF c1(1) ok m(4,2,3), of w actor] a m(5) p(2) risk by auto
    have wr: "case_lifecycle c (credit_write ?a (Some (pay_id p)) w (Some Mis_UNKNOWN) c1)"
      by (rule case_lifecycle_trans [OF life credit_write_lifecycle])
    have "case_lifecycle c d"
      using wr case_lifecycle_trans [OF wr moved_case_lifecycle [of _ Case_NOT_RECOVERED]]
      unfolding t'(3) by (auto simp: can_transition_def LEGAL_TRANSITIONS_def)
    with t' run False open1 show ?thesis by (auto simp: moved_case_def)
  qed
qed

lemma settle_match_tail:
  "settle_match settings i p m w actor s = (r, t) \<Longrightarrow>
   ensure_verifying settings i actor s = (Inr (), s1) \<Longrightarrow>
   \<exists>r'. (if mr_matched m then apply_success i (pay_id p) m w actor
          else persist_failure i m w actor) s1 = (r', t)"
  by (auto simp: settle_match_def bind_eval prog_eval split: prod.splits sum.splits if_splits)

lemma settle_match_cases:
  assumes ok: "db_ok s" and c: "get_case_unscoped s i = Some c" "\<not> is_terminal (rc_status c)"
    and p: "payment_ok p" "resolve_payment s c pid = Some p"
    and dup: "duplicate_or_already_counted s c p w = Inr None"
    and m: "evaluate_match settings s c p = Inr m"
    and run: "settle_match settings i p (m\<lparr>mr_payment_id := Some (pay_id p)\<rparr>) w actor s = (r, t)"
  shows "db_ok t \<and> (db_evolves case_mark s t \<or> credit_step settings s i pid w t)"
proof -
  let ?m = "m\<lparr>mr_payment_id := Some (pay_id p)\<rparr>"
  obtain r1 s1 where e: "ensure_verifying settings i actor s = (r1, s1)" by fastforce
  have ok1: "db_ok s1" by (rule keepsD [OF keeps_ok_ensure_verifying ok e])
  have ev1: "db_evolves case_no_credit s s1" by (rule obeysD [OF ensure_verifying_no_credit e])
  then have mk1: "db_evolves case_mark s s1"
    by (rule db_evolves_mono) (rule case_no_credit_mark)
  obtain c1 where c1: "get_case_unscoped s1 i = Some c1" "case_no_credit c c1"
    using db_evolvesD [OF ev1 c(1)] by blast
  have ok_c: "case_ok c" by (rule db_ok_case [OF ok c(1)])
  have nr: "rc_status c \<noteq> Case_RECOVERED"
    using c(2) by (auto simp: is_terminal_def TERMINAL_RECOVERY_STATUSES_def)
  consider (raised) x where "r1 = Inl x" | (went) "r1 = Inr ()" by (cases r1) auto
  then show ?thesis
  proof cases
    case raised
    with run e ok1 mk1 show ?thesis by (simp add: settle_match_def prog_simps)
  next
    case went
    then obtain r' where run': "(if mr_matched ?m then apply_success i (pay_id p) ?m w actor
        else persist_failure i ?m w actor) s1 = (r', t)"
      using settle_match_tail [OF run] e by blast
    show ?thesis
    proof (cases "payment_matches settings s c p")
      case False
      then obtain reason detail where
        "m = mismatch c p reason (rc_amount_at_risk c - rc_amount_recovered c) detail"
        using evaluate_match_fails [OF ok_c p(1) False] m by auto
      then have fail: "\<not> mr_matched ?m" "mr_mismatch_reason ?m \<noteq> None" by simp_all
      then have t: "persist_failure i ?m w actor s1 = (r', t)" using run' by simp
      show ?thesis
        using keepsD [OF keeps_ok_persist_mismatch [OF fail(2)] ok1 t]
          mark.frame_trans [OF mk1 obeysD [OF persist_failure_mark [OF fail(2)] t]] by simp
    next
      case True
      then have pos: "0 < pay_amount p" by (simp add: payment_matches_def)
      obtain reasons over where "m = \<lparr>mr_matched = (rc_amount_at_risk c \<le> pay_amount p),
          mr_case_id = rc_id c, mr_payment_id = Some (pay_id p),
          mr_amount_recovered = min (pay_amount p) (rc_amount_at_risk c),
          mr_currency = rc_currency c, mr_reasons = reasons, mr_mismatch_reason = None,
          mr_remaining_exposure = rc_amount_at_risk c - min (pay_amount p) (rc_amount_at_risk c),
          mr_capped_overpayment = over\<rparr>"
        using credit_capture_amounts [OF ok_c p(1) pos] evaluate_match_matches [OF ok_c True] m
        by (metis sum.inject(2))
      with settle_credit [OF ok1 c1 nr p(1) pos _ _ _ _ _ run'] have "db_ok t \<and> (t = s1 \<or>
          (\<exists>d. get_case_unscoped t i = Some d \<and> case_lifecycle c d
            \<and> (\<forall>j. j \<noteq> i \<longrightarrow> get_case_unscoped t j = get_case_unscoped s1 j)
            \<and> rc_amount_recovered d = min (pay_amount p) (rc_amount_at_risk c)
            \<and> rc_verified_payment_id d = Some (pay_id p)
            \<and> (rc_status d = Case_RECOVERED \<longrightarrow> rc_amount_at_risk c \<le> pay_amount p)))"
        by simp
      with mk1 c p(2) dup True ev1 show ?thesis unfolding credit_step_def by blast
    qed
  qed
qed

lemma resolve_payment_ok: "db_ok s \<Longrightarrow> resolve_payment s c pid = Some p \<Longrightarrow> payment_ok p"
  by (auto simp: resolve_payment_def dest: db_ok_payment split: option.splits)

lemma verify_payment_cases:
  assumes ok: "db_ok s" and c: "get_case_unscoped s i = Some c"
    and p: "resolve_payment s c pid = Some p" and open_c: "rc_status c \<noteq> Case_STOPPED"
    and run: "verify_payment settings i c p w actor s = (r, t)"
  shows "db_ok t \<and> (db_evolves case_mark s t \<or> credit_step settings s i pid w t)"
proof -
  note pok = resolve_payment_ok [OF ok p]
  consider (raise) e where "duplicate_or_already_counted s c p w = Inl e"
    | (dup) d where "duplicate_or_already_counted s c p w = Inr (Some d)"
    | (new) "duplicate_or_already_counted s c p w = Inr None"
    by (metis option.exhaust sum.exhaust)
  then show ?thesis
  proof cases
    case raise
    with run ok show ?thesis by (simp add: verify_payment_def prog_simps mark.frame_refl)
  next
    case dup
    obtain r2 t2 where t2: "audit_no_credit i d actor s = (r2, t2)" by fastforce
    then have "t = t2"
      using run dup by (auto simp: verify_payment_def prog_simps split: sum.splits)
    then show ?thesis
      using keepsD [OF keeps_ok_audit_no_credit ok t2] obeysD [OF audit_no_credit_mark t2] by simp
  next
    case new
    obtain m where m: "evaluate_match settings s c p = Inr m"
      using evaluate_match_fails [OF db_ok_case [OF ok c] pok]
        evaluate_match_matches [OF db_ok_case [OF ok c]]
        credit_capture_amounts [OF db_ok_case [OF ok c] pok] payment_matches_def by metis
    show ?thesis
    proof (cases "rc_status c = Case_RECOVERED")
      case True
      with run new m ok case_ok_money [OF db_ok_case [OF ok c]] show ?thesis
        by (auto simp: verify_payment_def prog_simps mark.frame_refl)
    next
      case False
      with open_c have nt: "\<not> is_terminal (rc_status c)"
        by (simp add: is_terminal_def TERMINAL_RECOVERY_STATUSES_def)
      from False run new m have "settle_match settings i p (m\<lparr>mr_payment_id := Some (pay_id p)\<rparr>) w actor s = (r, t)"
        by (simp add: verify_payment_def bind_eval(1) prog_eval)
      from settle_match_cases [OF ok c nt pok p new m this] show ?thesis .
    qed
  qed
qed

lemma verify_case_cases:
  assumes ok: "db_ok s" and run: "verify_case settings i pid w actor s = (r, t)"
  shows "db_ok t \<and> (db_evolves case_mark s t \<or> credit_step settings s i pid w t)"
proof (cases "get_case_unscoped s i")
  case None
  with run ok show ?thesis by (simp add: verify_case_def prog_simps mark.frame_refl)
next
  case (Some c)
  show ?thesis
  proof (cases "is_terminal (rc_status c) \<and> rc_status c = Case_STOPPED")
    case True
    with run ok Some show ?thesis
      by (auto simp: verify_case_def bind_eval(1) lock_recovery_case_eval deref_eval prog_eval
          mark.frame_refl)
  next
    case False
    show ?thesis
    proof (cases "resolve_payment s c pid")
      case None
      let ?m = "\<lparr>mr_matched = False, mr_case_id = rc_id c, mr_payment_id = None,
        mr_amount_recovered = ZERO, mr_currency = rc_currency c, mr_reasons = [],
        mr_mismatch_reason = Some Mis_PAYMENT_MISMATCH,
        mr_remaining_exposure = rc_amount_at_risk c - rc_amount_recovered c, mr_capped_overpayment = 0\<rparr>"
      obtain r2 t2 where t2: "persist_failure i ?m w actor s = (r2, t2)" by fastforce
      then have "t = t2"
        using run Some False None
        by (auto simp: verify_case_def bind_eval lock_recovery_case_eval deref_eval prog_eval
            case_ok_money [OF db_ok_case [OF ok Some]] Let_def split: sum.splits)
      then show ?thesis
        using keepsD [OF keeps_ok_persist_mismatch ok t2] obeysD [OF persist_failure_mark t2] by simp
    next
      case p: (Some p)
      have "verify_payment settings i c p w actor s = (r, t)"
        using run Some False p
        by (simp add: verify_case_def bind_eval(1) lock_recovery_case_eval deref_eval prog_eval)
      moreover have "rc_status c \<noteq> Case_STOPPED"
        using False by (auto simp: is_terminal_def TERMINAL_RECOVERY_STATUSES_def)
      ultimately show ?thesis using verify_payment_cases [OF ok Some p] by blast
    qed
  qed
qed

lemma credit_step_credit_ok:
  assumes ok: "db_ok s" "credit_ok s" and step: "credit_step settings s i pid w t"
  shows "credit_ok t"
proof -
  obtain c p d s1 where c: "get_case_unscoped s i = Some c"
      and none: "duplicate_or_already_counted s c p w = Inr None"
      and s1: "db_evolves case_no_credit s s1"
      and d: "get_case_unscoped t i = Some d" "case_lifecycle c d"
        "rc_amount_recovered d = min (pay_amount p) (rc_amount_at_risk c)"
        "rc_verified_payment_id d = Some (pay_id p)"
        "rc_status d = Case_RECOVERED \<longrightarrow> rc_amount_at_risk c \<le> pay_amount p"
      and others: "\<forall>j. j \<noteq> i \<longrightarrow> get_case_unscoped t j = get_case_unscoped s1 j"
    using step unfolding credit_step_def by blast
  have i: "rc_id c = i"
    using c by (auto simp: get_case_unscoped_def dest: find_row_Some_key)
  have "db_evolves case_mark s s1"
    using s1 by (rule db_evolves_mono) (rule case_no_credit_mark)
  note source = mark_back [OF this]
  have same: "rc_merchant_id d = rc_merchant_id c" "rc_amount_at_risk d = rc_amount_at_risk c"
    using d(2) by (simp_all add: case_lifecycle_def)
  show ?thesis
  proof (rule credit_ok_replace [of s1 i t d])
    show "credit_ok s1" by (rule credit_ok_no_credit [OF s1 ok(2)])
    show "rc_verified_payment_id e \<noteq> rc_verified_payment_id d"
      if "j \<noteq> i" "get_case_unscoped s1 j = Some e" "0 < rc_amount_recovered e"
        "rc_merchant_id e = rc_merchant_id d" for j e
      using source [OF that(2,3)] no_other_counted [OF ok(1) none, of j] that i same d(4) by metis
  qed (use others d same in auto)
qed

text \<open>
  C1. \<^bold>\<open>No payment is counted twice.\<close> Verifying any case with any payment and any event keeps the
  database well formed and the revenue invariant: recovered revenue names its payment, no payment
  backs the recovered revenue of two cases of the merchant, a recovered case has recovered exactly
  what was at risk, and recovered revenue never exceeds the exposure.
\<close>

theorem verify_no_double_count:
  assumes "db_ok s" and "credit_ok s" and "verify_case settings i pid w actor s = (r, t)"
  shows "db_ok t \<and> credit_ok t"
  using verify_case_cases [OF assms(1,3)] credit_ok_mark [OF _ assms(2)]
    credit_step_credit_ok [OF assms(1,2)] by blast

definition captured_payment :: Payment where
  "captured_payment = demo_payment\<lparr>pay_status := Pay_CAPTURED, pay_captured_at := Some 3600000000\<rparr>"

definition verifying_db :: db where
  "verifying_db = demo_db\<lparr>db_payments := [captured_payment],
     db_cases := [demo_case\<lparr>rc_status := Case_VERIFYING\<rparr>]\<rparr>"

lemma verifying_db_ok: "db_ok verifying_db" "credit_ok verifying_db"
  by (simp_all add: verifying_db_def captured_payment_def db_ok_def demo_defs case_ok_def payment_ok_def
      is_terminal_def TERMINAL_RECOVERY_STATUSES_def two_decimal_def credit_ok_def
      get_case_unscoped_def find_row_def)

lemma verifying_db_case:
  "get_case_unscoped verifying_db 4 = Some (demo_case\<lparr>rc_status := Case_VERIFYING\<rparr>)"
  by (simp add: verifying_db_def get_case_unscoped_def find_row_def demo_case_def)

theorem verify_no_double_count_witness:
  "db_ok verifying_db \<and> credit_ok verifying_db
   \<and> credit_ok (snd (verify_case default_settings 4 (Some 3) (Some 7) Actor_WORKER verifying_db))"
  using verify_no_double_count [OF verifying_db_ok, of default_settings 4 "Some 3" "Some 7" Actor_WORKER]
    verifying_db_ok by (cases "verify_case default_settings 4 (Some 3) (Some 7) Actor_WORKER verifying_db") auto

text \<open>
  C2. \<^bold>\<open>Revenue is credited only for a matching capture.\<close> Whenever verification changes the
  recovered amount of any case, it is the case it was asked to verify, and there is a payment that
  is captured, of the same merchant, customer and currency, linked to the case by payment, order or
  action, captured inside the recovery window, counted by no other case of the merchant; and the
  new amount is the captured amount capped at the exposure, so an overpayment is never revenue.
  The case was not closed, and is marked recovered only when the capture covers the whole exposure.
\<close>

theorem verify_credit_sound:
  assumes ok: "db_ok s" and run: "verify_case settings i pid w actor s = (r, t)"
    and c: "get_case_unscoped s j = Some c" and d: "get_case_unscoped t j = Some d"
    and change: "rc_amount_recovered d \<noteq> rc_amount_recovered c"
  shows "j = i \<and> \<not> is_terminal (rc_status c) \<and> (\<exists>p. resolve_payment s c pid = Some p \<and> payment_matches settings s c p
    \<and> rc_amount_recovered d = min (pay_amount p) (rc_amount_at_risk c)
    \<and> rc_verified_payment_id d = Some (pay_id p)
    \<and> (\<forall>k e. k \<noteq> i \<longrightarrow> get_case_unscoped s k = Some e \<longrightarrow> 0 < rc_amount_recovered e \<longrightarrow>
         rc_merchant_id e = rc_merchant_id c \<longrightarrow> rc_verified_payment_id e \<noteq> Some (pay_id p))
    \<and> (rc_status d = Case_RECOVERED \<longrightarrow> rc_amount_at_risk c \<le> pay_amount p))"
  using verify_case_cases [OF ok run]
proof (elim conjE disjE)
  assume "db_evolves case_mark s t"
  from db_evolvesD [OF this c] d change show ?thesis
    by (auto simp: case_mark_def)
next
  assume "credit_step settings s i pid w t"
  then obtain c' p d' s1 where nt: "\<not> is_terminal (rc_status c')"
    and x: "get_case_unscoped s i = Some c'" "resolve_payment s c' pid = Some p"
    "duplicate_or_already_counted s c' p w = Inr None" "payment_matches settings s c' p"
    "db_evolves case_no_credit s s1" "get_case_unscoped t i = Some d'"
    "\<forall>j. j \<noteq> i \<longrightarrow> get_case_unscoped t j = get_case_unscoped s1 j"
    "rc_amount_recovered d' = min (pay_amount p) (rc_amount_at_risk c')"
    "rc_verified_payment_id d' = Some (pay_id p)"
    "rc_status d' = Case_RECOVERED \<longrightarrow> rc_amount_at_risk c' \<le> pay_amount p"
    unfolding credit_step_def by blast
  have "j = i"
  proof (rule ccontr)
    assume "j \<noteq> i"
    with x(7) d have "get_case_unscoped s1 j = Some d" by simp
    with db_evolvesD [OF x(5) c] change show False by (auto simp: case_no_credit_def)
  qed
  moreover have "rc_id c' = i"
    using x(1) by (auto simp: get_case_unscoped_def dest: find_row_Some_key)
  ultimately show ?thesis
    using nt x c d no_other_counted [OF ok x(3)] by auto
qed

subsection \<open>Verification makes progress, once\<close>

lemma ensure_verifying_run:
  assumes "get_case_unscoped s i = Some c" "rc_status c \<in> {Case_ACTION_COMPLETED, Case_VERIFYING}"
    and "db_ok s"
  obtains s1 c1 where "ensure_verifying settings i actor s = (Inr (), s1)"
    "get_case_unscoped s1 i = Some c1" "rc_status c1 = Case_VERIFYING" "db_ok s1"
    "rc_amount_at_risk c1 = rc_amount_at_risk c"
proof (cases "rc_status c = Case_VERIFYING")
  case True
  with assms show ?thesis by (intro that [of s c]) (simp_all add: ensure_verifying_def prog_simps)
next
  case False
  with assms(2) have "can_transition (rc_status c) Case_VERIFYING" "rc_status c = Case_ACTION_COMPLETED"
    by (auto simp: can_transition_def LEGAL_TRANSITIONS_def)
  then obtain t where "transition_case i Case_VERIFYING actor None s = (Inr (), t)"
    "get_case_unscoped t i = Some (moved_case Case_VERIFYING (db_clock s) c)" "db_ok t"
    using transition_step_all [OF assms(1) _ assms(3)] by metis
  with assms(1) \<open>rc_status c = Case_ACTION_COMPLETED\<close> show ?thesis
    by (intro that [of t "moved_case Case_VERIFYING (db_clock s) c"])
      (simp_all add: ensure_verifying_def prog_simps moved_case_def)
qed

lemma verify_full_run:
  assumes ok: "db_ok s" and c: "get_case_unscoped s i = Some c"
    and st: "rc_status c \<in> {Case_ACTION_COMPLETED, Case_VERIFYING}"
    and p: "resolve_payment s c pid = Some p" "payment_matches settings s c p"
      "rc_amount_at_risk c \<le> pay_amount p"
    and new: "duplicate_or_already_counted s c p w = Inr None"
  obtains m t d where "verify_case settings i pid w actor s = (Inr m, t)" "mr_matched m"
    "get_case_unscoped t i = Some d" "rc_status d = Case_RECOVERED"
    "rc_amount_recovered d = rc_amount_at_risk c" "rc_verified_payment_id d = Some (pay_id p)"
    "rc_closed_at d \<noteq> None"
proof -
  have ok_c: "case_ok c" and ok_p: "payment_ok p"
    using db_ok_case [OF ok c] resolve_payment_ok [OF ok p(1)] by auto
  have pos: "0 < pay_amount p" using p(2) by (simp add: payment_matches_def)
  obtain m0 where m0: "evaluate_match settings s c p = Inr m0" "mr_matched m0"
    "mr_amount_recovered m0 = rc_amount_at_risk c"
  proof -
    obtain reasons over where "evaluate_match settings s c p = Inr
        \<lparr>mr_matched = (rc_amount_at_risk c \<le> pay_amount p), mr_case_id = rc_id c,
         mr_payment_id = Some (pay_id p),
         mr_amount_recovered = min (pay_amount p) (rc_amount_at_risk c),
         mr_currency = rc_currency c, mr_reasons = reasons, mr_mismatch_reason = None,
         mr_remaining_exposure = rc_amount_at_risk c - min (pay_amount p) (rc_amount_at_risk c),
         mr_capped_overpayment = over\<rparr>"
      using credit_capture_amounts [OF ok_c ok_p pos] evaluate_match_matches [OF ok_c p(2)] by metis
    then show thesis using p(3) by (intro that) (auto simp: min_def)
  qed
  let ?m = "m0\<lparr>mr_payment_id := Some (pay_id p)\<rparr>"
  obtain s1 c1 where s1: "ensure_verifying settings i actor s = (Inr (), s1)"
    "get_case_unscoped s1 i = Some c1" "rc_status c1 = Case_VERIFYING" "db_ok s1"
    "rc_amount_at_risk c1 = rc_amount_at_risk c"
    using ensure_verifying_run [OF c st ok] by blast
  have "as_money (mr_amount_recovered ?m) = Inr (rc_amount_at_risk c)"
    using m0(3) case_ok_money [OF ok_c] by simp
  then obtain t where t: "apply_success i (pay_id p) ?m w actor s1 = (Inr (), t)"
    "get_case_unscoped t i = Some (moved_case Case_RECOVERED (db_clock s1)
       (credit_write (rc_amount_at_risk c) (Some (pay_id p)) w None c1))"
    using apply_success_run [OF s1(2,3,4)] s1(5) by (metis order_refl)
  have "verify_payment settings i c p w actor s = (Inr ?m, t)"
    using new m0 st s1(1) t(1)
    by (auto simp: verify_payment_def settle_match_def bind_eval prog_eval)
  then have "verify_case settings i pid w actor s = (Inr ?m, t)"
    using c p(1) st
    by (auto simp: verify_case_def bind_eval(1) lock_recovery_case_eval deref_eval prog_eval)
  from that [OF this _ t(2)] show ?thesis
    using m0(2) by (simp add: moved_case_def is_terminal_def TERMINAL_RECOVERY_STATUSES_def)
qed

text \<open>
  C4. \<^bold>\<open>A covering capture recovers the case, once.\<close> When the planned action has completed (or
  verification already started) and an uncounted matching payment covers the exposure, verification
  reports a match, credits exactly the exposure, names the payment and closes the case as recovered.
  Any later verification, of any payment and any event, leaves status, amount and payment alone.
\<close>

theorem verify_recovers_once:
  assumes ok: "db_ok s" and c: "get_case_unscoped s i = Some c"
    and st: "rc_status c \<in> {Case_ACTION_COMPLETED, Case_VERIFYING}"
    and p: "resolve_payment s c pid = Some p" "payment_matches settings s c p"
      "rc_amount_at_risk c \<le> pay_amount p"
    and new: "duplicate_or_already_counted s c p w = Inr None"
  shows "\<exists>m t d. verify_case settings i pid w actor s = (Inr m, t) \<and> mr_matched m
    \<and> get_case_unscoped t i = Some d \<and> rc_status d = Case_RECOVERED
    \<and> rc_amount_recovered d = rc_amount_at_risk c \<and> rc_verified_payment_id d = Some (pay_id p)
    \<and> (\<forall>pid' w' actor' r' t'. verify_case settings i pid' w' actor' t = (r', t') \<longrightarrow>
         (\<exists>d'. get_case_unscoped t' i = Some d' \<and> rc_status d' = Case_RECOVERED
               \<and> rc_amount_recovered d' = rc_amount_recovered d
               \<and> rc_verified_payment_id d' = rc_verified_payment_id d))"
proof -
  obtain m t d where t: "verify_case settings i pid w actor s = (Inr m, t)" "mr_matched m"
    "get_case_unscoped t i = Some d" "rc_status d = Case_RECOVERED"
    "rc_amount_recovered d = rc_amount_at_risk c" "rc_verified_payment_id d = Some (pay_id p)"
    using verify_full_run [OF assms] by blast
  have closed: "is_terminal (rc_status d)"
    using t(4) by (simp add: is_terminal_def TERMINAL_RECOVERY_STATUSES_def)
  have "\<exists>d'. get_case_unscoped t' i = Some d' \<and> rc_status d' = Case_RECOVERED
      \<and> rc_amount_recovered d' = rc_amount_recovered d
      \<and> rc_verified_payment_id d' = rc_verified_payment_id d"
    if "verify_case settings i pid' w' actor' t = (r', t')" for pid' w' actor' r' t'
  proof -
    have "\<not> credit_step settings t i pid' w' t'"
      using t(3) closed by (auto simp: credit_step_def)
    then have "db_evolves case_mark t t'"
      using verify_case_cases [OF _ that] verify_case_cases [OF ok t(1)] by blast
    then obtain d' where d': "get_case_unscoped t' i = Some d'" "case_mark d d'"
      using db_evolvesD t(3) by metis
    then have "rc_status d' = rc_status d"
      using case_lifecycle_terminal closed by (simp add: case_mark_def)
    with d' t(4) show ?thesis by (simp add: case_mark_def)
  qed
  with t show ?thesis by blast
qed

lemma verifying_db_facts:
  defines "c \<equiv> demo_case\<lparr>rc_status := Case_VERIFYING\<rparr>"
  shows "rc_status c \<in> {Case_ACTION_COMPLETED, Case_VERIFYING}"
    and "resolve_payment verifying_db c (Some 3) = Some captured_payment"
    and "payment_matches default_settings verifying_db c captured_payment"
    and "rc_amount_at_risk c \<le> pay_amount captured_payment"
    and "duplicate_or_already_counted verifying_db c captured_payment (Some 7) = Inr None"
  by (simp_all add: c_def verifying_db_def captured_payment_def demo_defs resolve_payment_def
      session_get_payment_def table_simps payment_matches_def order_conflict_def orders_known_def
      case_payment_of_def get_payment_def payment_unlinked_def inside_window_def
      default_settings_def duplicate_or_already_counted_def list_that_counted_payment_def nonempty_def)

theorem verify_recovers_once_witness:
  "\<exists>m t d. verify_case default_settings 4 (Some 3) (Some 7) Actor_WORKER verifying_db = (Inr m, t)
     \<and> mr_matched m \<and> get_case_unscoped t 4 = Some d \<and> rc_status d = Case_RECOVERED
     \<and> rc_amount_recovered d = 4000"
  using verify_recovers_once [OF verifying_db_ok(1) verifying_db_case verifying_db_facts,
      of Actor_WORKER] by (auto simp: demo_case_def)

theorem verify_credit_sound_witness:
  "\<exists>r t d. verify_case default_settings 4 (Some 3) (Some 7) Actor_WORKER verifying_db = (r, t)
     \<and> get_case_unscoped t 4 = Some d \<and> rc_amount_recovered d \<noteq> 0
     \<and> (\<exists>p. payment_matches default_settings verifying_db (demo_case\<lparr>rc_status := Case_VERIFYING\<rparr>) p
            \<and> rc_amount_recovered d = min (pay_amount p) 4000)"
proof -
  let ?c = "demo_case\<lparr>rc_status := Case_VERIFYING\<rparr>"
  obtain m t d where t: "verify_case default_settings 4 (Some 3) (Some 7) Actor_WORKER verifying_db = (Inr m, t)"
    "get_case_unscoped t 4 = Some d" "rc_amount_recovered d = rc_amount_at_risk ?c"
    using verify_full_run [OF verifying_db_ok(1) verifying_db_case verifying_db_facts] by metis
  have "rc_amount_recovered d \<noteq> rc_amount_recovered ?c" "rc_amount_at_risk ?c = 4000"
    using t(3) by (simp_all add: demo_case_def)
  with verify_credit_sound [OF verifying_db_ok(1) t(1) verifying_db_case t(2)] t show ?thesis
    by auto
qed

subsection \<open>Partial captures\<close>

text \<open>
  \<^bold>\<open>A partial capture replaces what was credited.\<close> A matching capture below the exposure is
  credited in full, the case becomes not recovered (not a mismatch of its identity), and the new
  recovered amount is the captured amount, whatever the amount recovered before: two partial
  captures do not add up, and a smaller second one lowers the recovered amount.
\<close>

theorem verify_partial_capture:
  assumes ok: "db_ok s" and c: "get_case_unscoped s i = Some c"
    and st: "rc_status c \<in> {Case_ACTION_COMPLETED, Case_VERIFYING}"
    and p: "resolve_payment s c pid = Some p" "payment_matches settings s c p"
      "pay_amount p < rc_amount_at_risk c"
    and new: "duplicate_or_already_counted s c p w = Inr None"
  shows "\<exists>m t d. verify_case settings i pid w actor s = (Inr m, t) \<and> \<not> mr_matched m
    \<and> mr_mismatch_reason m = None \<and> mr_remaining_exposure m = rc_amount_at_risk c - pay_amount p
    \<and> get_case_unscoped t i = Some d \<and> rc_status d = Case_NOT_RECOVERED
    \<and> rc_amount_recovered d = pay_amount p \<and> rc_verified_payment_id d = Some (pay_id p)"
proof -
  have ok_c: "case_ok c" and ok_p: "payment_ok p"
    using db_ok_case [OF ok c] resolve_payment_ok [OF ok p(1)] by auto
  have pos: "0 < pay_amount p" using p(2) by (simp add: payment_matches_def)
  obtain reasons over where m0: "evaluate_match settings s c p = Inr
      \<lparr>mr_matched = (rc_amount_at_risk c \<le> pay_amount p), mr_case_id = rc_id c,
       mr_payment_id = Some (pay_id p),
       mr_amount_recovered = min (pay_amount p) (rc_amount_at_risk c),
       mr_currency = rc_currency c, mr_reasons = reasons, mr_mismatch_reason = None,
       mr_remaining_exposure = rc_amount_at_risk c - min (pay_amount p) (rc_amount_at_risk c),
       mr_capped_overpayment = over\<rparr>" (is "_ = Inr ?m")
    using credit_capture_amounts [OF ok_c ok_p pos] evaluate_match_matches [OF ok_c p(2)] by metis
  obtain s1 c1 where s1: "ensure_verifying settings i actor s = (Inr (), s1)"
    "get_case_unscoped s1 i = Some c1" "rc_status c1 = Case_VERIFYING" "db_ok s1"
    "rc_amount_at_risk c1 = rc_amount_at_risk c"
    using ensure_verifying_run [OF c st ok] by blast
  have m: "mr_mismatch_reason ?m = None" "mr_payment_id ?m = Some (pay_id p)"
    "mr_amount_recovered ?m = pay_amount p" "mr_remaining_exposure ?m = rc_amount_at_risk c1 - pay_amount p"
    using p(3) s1(5) by simp_all
  have two: "two_decimal (pay_amount p)" and lt: "pay_amount p < rc_amount_at_risk c1"
    using ok_p p(3) s1(5) by (simp_all add: payment_ok_def)
  obtain t' d where t': "persist_failure i ?m w actor s1 = (Inr (), t')" "get_case_unscoped t' i = Some d"
    "d = moved_case Case_NOT_RECOVERED (db_clock s1)
           (credit_write (pay_amount p) (Some (pay_id p)) w (Some Mis_UNKNOWN) c1)"
    using persist_failure_partial_run [OF s1(2,4) m pos lt two] unfolding if_P [OF s1(3)] by blast
  have "verify_payment settings i c p w actor s = (Inr ?m, t')"
    using new m0 st s1(1) t'(1) p(3)
    by (auto simp: verify_payment_def settle_match_def bind_eval prog_eval)
  then have "verify_case settings i pid w actor s = (Inr ?m, t')"
    using c p(1) st
    by (auto simp: verify_case_def bind_eval(1) lock_recovery_case_eval deref_eval prog_eval)
  with t'(2,3) p(3) show ?thesis by (auto simp: moved_case_def)
qed

text \<open>A case that already recovered 3000 of 4000 and then sees a capture of 1000.\<close>

definition second_partial_db :: db where
  "second_partial_db = verifying_db\<lparr>
     db_payments := [captured_payment\<lparr>pay_amount := 1000\<rparr>],
     db_cases := [demo_case\<lparr>rc_status := Case_VERIFYING, rc_amount_recovered := 3000,
                    rc_verified_payment_id := Some 9\<rparr>]\<rparr>"

theorem verify_partial_capture_witness:
  "\<exists>m t d. verify_case default_settings 4 (Some 3) (Some 7) Actor_WORKER second_partial_db = (Inr m, t)
     \<and> map_option rc_amount_recovered (get_case_unscoped second_partial_db 4) = Some 3000
     \<and> get_case_unscoped t 4 = Some d \<and> rc_amount_recovered d = 1000"
proof -
  let ?c = "demo_case\<lparr>rc_status := Case_VERIFYING, rc_amount_recovered := 3000,
              rc_verified_payment_id := Some 9\<rparr>"
  let ?p = "captured_payment\<lparr>pay_amount := 1000\<rparr>"
  note defs = second_partial_db_def verifying_db_def captured_payment_def demo_defs
  have ok: "db_ok second_partial_db"
    by (simp add: defs db_ok_def case_ok_def payment_ok_def is_terminal_def
        TERMINAL_RECOVERY_STATUSES_def two_decimal_def)
  have c: "get_case_unscoped second_partial_db 4 = Some ?c"
    by (simp add: defs get_case_unscoped_def find_row_def)
  have st: "rc_status ?c \<in> {Case_ACTION_COMPLETED, Case_VERIFYING}" by simp
  have p: "resolve_payment second_partial_db ?c (Some 3) = Some ?p"
    by (simp add: defs resolve_payment_def session_get_payment_def table_simps)
  have mt: "payment_matches default_settings second_partial_db ?c ?p"
    by (simp add: defs payment_matches_def order_conflict_def orders_known_def case_payment_of_def
        get_payment_def payment_unlinked_def inside_window_def default_settings_def nonempty_def)
  have lt: "pay_amount ?p < rc_amount_at_risk ?c" by (simp add: demo_case_def)
  have new: "duplicate_or_already_counted second_partial_db ?c ?p (Some 7) = Inr None"
    by (simp add: defs duplicate_or_already_counted_def list_that_counted_payment_def)
  show ?thesis
    using verify_partial_capture [OF ok c st p mt lt new, of Actor_WORKER] c by auto
qed

subsection \<open>Lifecycle\<close>

lemma apply_success_lifecycle: "obeys (db_evolves case_lifecycle) (apply_success i pid m w actor)"
  unfolding apply_success_def audit_amount_def
  by (intro lifecycle_rules lifecycle.obeys_update_case)
     (simp_all add: credit_write_lifecycle [unfolded credit_write_def])

lemma same_status_lifecycle: "case_mark c d \<Longrightarrow> case_lifecycle c d"
  by (simp add: case_mark_def)

lemma persist_failure_lifecycle: "obeys (db_evolves case_lifecycle) (persist_failure i m w actor)"
proof -
  have w: "case_lifecycle c (c\<lparr>rc_amount_recovered := a, rc_verified_payment_id := p,
      rc_verified_webhook_event_id := e\<rparr>)" for c a p e
    using credit_write_lifecycle [of c a p e "rc_last_mismatch_reason c"]
    by (simp add: credit_write_def)
  show ?thesis
    unfolding persist_failure_def audit_amount_def
    by (intro lifecycle_rules lifecycle.obeys_update_case)
       (simp_all add: w same_status_lifecycle mark_same_status)
qed

lemma verify_case_lifecycle:
  "obeys (db_evolves case_lifecycle) (verify_case settings i pid w actor)"
  unfolding verify_case_def verify_payment_def settle_match_def audit_no_credit_def
  by (intro lifecycle_rules lifecycle.obeys_update_case persist_failure_lifecycle
      apply_success_lifecycle no_credit_lifecycle [OF ensure_verifying_no_credit])
     (simp_all add: same_status_lifecycle mark_same_status)

end
