(* ===== verification/Events.thy ===== *)
theory Events
  imports Config Integrity
begin

text \<open>
  Provider events and their normalisation: \<^verbatim>\<open>recoverai_domain/events.py\<close>,
  \<^verbatim>\<open>recoverai_domain/normalize.py\<close> and \<^verbatim>\<open>provider_event_from_row\<close> of \<^verbatim>\<open>processing.py\<close>.
  The parts of the standard library that are out of reach of a definition (printing of floats and
  containers, \<^verbatim>\<open>datetime.fromisoformat\<close>, the hashes behind \<^verbatim>\<open>uuid.uuid5\<close> and \<^verbatim>\<open>hashlib.sha256\<close>, the
  first number of \<^verbatim>\<open>random.Random(seed)\<close>, pydantic's conversion of a value that is not an integer
  to an integer field) are the fields of the parameter \<open>Host\<close>. The lemmas show that normalisation
  either yields an event with all the fields the handlers need or raises an ingestion error, and
  that printing and parsing of identifiers are inverse.
\<close>

subsection \<open>Events\<close>

record Host =
  host_str :: "json \<Rightarrow> string"
  host_fromisoformat :: "string \<Rightarrow> timestamp option"
  host_uuid5 :: "uuid \<Rightarrow> string \<Rightarrow> uuid"
  host_sha256 :: "string \<Rightarrow> string"
  host_random :: "string \<Rightarrow> rat"
  host_int_field :: "json \<Rightarrow> int option"

datatype DomainEventType =
    PAYMENT_FAILED | PAYMENT_CAPTURED | PAYMENT_REFUNDED | PAYMENT_CANCELLED
  | PAYMENT_AUTHORIZED | PAYMENT_CREATED

fun event_type_value :: "DomainEventType \<Rightarrow> string" where
  "event_type_value PAYMENT_FAILED = ''PAYMENT_FAILED''"
| "event_type_value PAYMENT_CAPTURED = ''PAYMENT_CAPTURED''"
| "event_type_value PAYMENT_REFUNDED = ''PAYMENT_REFUNDED''"
| "event_type_value PAYMENT_CANCELLED = ''PAYMENT_CANCELLED''"
| "event_type_value PAYMENT_AUTHORIZED = ''PAYMENT_AUTHORIZED''"
| "event_type_value PAYMENT_CREATED = ''PAYMENT_CREATED''"

definition EVENT_TYPE_MAP :: "(string \<times> DomainEventType) list" where
  "EVENT_TYPE_MAP =
     [(''payment.failed'', PAYMENT_FAILED), (''payment.captured'', PAYMENT_CAPTURED),
      (''payment.refunded'', PAYMENT_REFUNDED), (''payment.cancelled'', PAYMENT_CANCELLED),
      (''payment.authorized'', PAYMENT_AUTHORIZED), (''payment.created'', PAYMENT_CREATED),
      (''PAYMENT_FAILED'', PAYMENT_FAILED), (''PAYMENT_CAPTURED'', PAYMENT_CAPTURED),
      (''PAYMENT_REFUNDED'', PAYMENT_REFUNDED), (''PAYMENT_CANCELLED'', PAYMENT_CANCELLED)]"

record ProviderEvent =
  pv_provider :: string
  pv_event_id :: string
  pv_event_type :: string
  pv_occurred_at :: timestamp
  pv_provider_resource_id :: string
  pv_merchant_reference :: string
  pv_payload :: dict
  pv_signature_valid :: "bool option"

record DomainPaymentEvent =
  ev_event_type :: DomainEventType
  ev_provider :: string
  ev_provider_event_id :: string
  ev_webhook_event_id :: uuid
  ev_merchant_id :: uuid
  ev_occurred_at :: timestamp
  ev_provider_payment_id :: string
  ev_provider_order_id :: "string option"
  ev_merchant_reference :: string
  ev_amount :: rat
  ev_currency :: string
  ev_status :: string
  ev_failure_code :: "string option"
  ev_attempt_number :: int
  ev_customer_id :: "uuid option"
  ev_customer_external_id :: "string option"
  ev_payment_method :: "string option"

datatype NormalizedEvent =
    Payment_Event DomainPaymentEvent
  | Unknown_Event string

subsection \<open>Reading payloads\<close>

definition json_str :: "Host \<Rightarrow> json \<Rightarrow> string" where
  "json_str h v = (case v of
     JStr s \<Rightarrow> s | JInt i \<Rightarrow> show_int i | JBool b \<Rightarrow> if b then ''True'' else ''False''
   | JNull \<Rightarrow> ''None'' | JUuid u \<Rightarrow> str_uuid u | _ \<Rightarrow> host_str h v)"

fun payload_str :: "Host \<Rightarrow> dict \<Rightarrow> string list \<Rightarrow> string option" where
  "payload_str h payload [] = None"
| "payload_str h payload (key # keys) =
     (let v = dict_get payload key in
      if v \<noteq> JNull \<and> strip (json_str h v) \<noteq> [] then Some (json_str h v)
      else payload_str h payload keys)"

definition require_decimal :: "dict \<Rightarrow> rat res" where
  "require_decimal payload = (case dict_get payload ''amount'' of
     JNull \<Rightarrow> Inl (IngestionError ''INVALID_PROVIDER_EVENT'' 400)
   | raw \<Rightarrow> (case json_decimal raw of
       Inl _ \<Rightarrow> Inl (IngestionError ''INVALID_PROVIDER_EVENT'' 400) | Inr d \<Rightarrow> Inr d))"

text \<open>
  \<^verbatim>\<open>uuid.UUID(text)\<close>: the prefixes and braces are dropped, dashes removed, and 32 hexadecimal
  digits must remain (signs, blanks and underscores, which \<^verbatim>\<open>int\<close> would also take, are refused).
\<close>

fun remove_all :: "string \<Rightarrow> string \<Rightarrow> string" where
  "remove_all pat [] = []"
| "remove_all pat (c # s) =
     (if pat \<noteq> [] \<and> prefix pat (c # s) then remove_all pat (drop (length pat) (c # s))
      else c # remove_all pat s)"

definition strip_braces :: "string \<Rightarrow> string" where
  "strip_braces s = (let brace = (\<lambda>c. c = CHR ''{'' \<or> c = CHR ''}'') in
     rev (dropWhile brace (rev (dropWhile brace s))))"

definition hex_val :: "char \<Rightarrow> nat option" where
  "hex_val c = (let n = of_char c :: nat in
     if 48 \<le> n \<and> n \<le> 57 then Some (n - 48)
     else if 97 \<le> n \<and> n \<le> 102 then Some (n - 87)
     else if 65 \<le> n \<and> n \<le> 70 then Some (n - 55) else None)"

fun hex_read :: "nat \<Rightarrow> string \<Rightarrow> nat option" where
  "hex_read acc [] = Some acc"
| "hex_read acc (c # cs) = (case hex_val c of None \<Rightarrow> None | Some d \<Rightarrow> hex_read (acc * 16 + d) cs)"

definition parse_uuid :: "string \<Rightarrow> uuid option" where
  "parse_uuid s =
     (let hex = filter (\<lambda>c. c \<noteq> CHR ''-'')
                  (strip_braces (remove_all ''uuid:'' (remove_all ''urn:'' s))) in
      if length hex \<noteq> 32 then None else hex_read 0 hex)"

definition optional_uuid :: "Host \<Rightarrow> json \<Rightarrow> uuid option res" where
  "optional_uuid h v =
     (if v = JNull \<or> v = JStr [] then Inr None
      else case parse_uuid (json_str h v) of
             None \<Rightarrow> Inl (IngestionError ''INVALID_PROVIDER_EVENT'' 400)
           | Some u \<Rightarrow> Inr (Some u))"

definition attempt_of :: "dict \<Rightarrow> int res" where
  "attempt_of payload =
     (case json_int (case map_of payload ''attempt_number'' of None \<Rightarrow> JInt 1 | Some v \<Rightarrow> v) of
        Inl _ \<Rightarrow> Inl (IngestionError ''INVALID_PROVIDER_EVENT'' 400)
      | Inr n \<Rightarrow> Inr n)"

definition normalize_provider_event ::
  "Host \<Rightarrow> ProviderEvent \<Rightarrow> uuid \<Rightarrow> uuid \<Rightarrow> NormalizedEvent res" where
  "normalize_provider_event h event webhook_event_id merchant_id =
     (case map_of EVENT_TYPE_MAP (pv_event_type event) of
        None \<Rightarrow> Inr (Unknown_Event (pv_event_type event))
      | Some domain_type \<Rightarrow>
          let payload = pv_payload event;
              provider_payment_id =
                (case payload_str h payload [''provider_payment_id'', ''payment_id''] of
                   Some x \<Rightarrow> x | None \<Rightarrow> pv_provider_resource_id event) in
          if provider_payment_id = [] then Inl (IngestionError ''INVALID_PAYMENT_REFERENCE'' 400)
          else
            bindE (require_decimal payload) (\<lambda>amount.
            bindE (attempt_of payload) (\<lambda>attempt_number.
            bindE (optional_uuid h (dict_get payload ''customer_id'')) (\<lambda>customer_id.
            Inr (Payment_Event
              \<lparr>ev_event_type = domain_type, ev_provider = pv_provider event,
               ev_provider_event_id = pv_event_id event, ev_webhook_event_id = webhook_event_id,
               ev_merchant_id = merchant_id, ev_occurred_at = pv_occurred_at event,
               ev_provider_payment_id = provider_payment_id,
               ev_provider_order_id = payload_str h payload [''provider_order_id'', ''order_id''],
               ev_merchant_reference = pv_merchant_reference event, ev_amount = amount,
               ev_currency = (case payload_str h payload [''currency''] of
                                Some x \<Rightarrow> x | None \<Rightarrow> ''INR''),
               ev_status = (case payload_str h payload [''status''] of
                              Some x \<Rightarrow> x | None \<Rightarrow> event_type_value domain_type),
               ev_failure_code = payload_str h payload [''failure_reason'', ''failure_code''],
               ev_attempt_number = attempt_number, ev_customer_id = customer_id,
               ev_customer_external_id = payload_str h payload [''customer_external_id''],
               ev_payment_method = payload_str h payload [''payment_method'']\<rparr>)))))"

text \<open>The first truthy value, as the chain of \<^verbatim>\<open>or\<close> picks it.\<close>

fun first_truthy :: "dict \<Rightarrow> string list \<Rightarrow> json option" where
  "first_truthy d [] = None"
| "first_truthy d (k # ks) = (if truthy (dict_get d k) then Some (dict_get d k) else first_truthy d ks)"

fun replace_Z :: "string \<Rightarrow> string" where
  "replace_Z [] = []"
| "replace_Z (c # s) = (if c = CHR ''Z'' then ''+00:00'' @ replace_Z s else c # replace_Z s)"

definition occurred_at_of :: "Host \<Rightarrow> dict \<Rightarrow> timestamp \<Rightarrow> timestamp" where
  "occurred_at_of h payload received_at = (case dict_get payload ''occurred_at'' of
     JTime t \<Rightarrow> t
   | JStr raw \<Rightarrow> if strip raw = [] then received_at
                else (case host_fromisoformat h (replace_Z raw) of
                        None \<Rightarrow> received_at | Some t \<Rightarrow> t)
   | _ \<Rightarrow> received_at)"

definition provider_event_from_row :: "Host \<Rightarrow> WebhookEvent \<Rightarrow> ProviderEvent" where
  "provider_event_from_row h row =
     (let payload = wh_payload row in
      \<lparr>pv_provider = wh_provider row, pv_event_id = wh_event_id row,
       pv_event_type = wh_event_type row,
       pv_occurred_at = occurred_at_of h payload (wh_received_at row),
       pv_provider_resource_id =
         (case first_truthy payload
                 [''provider_payment_id'', ''provider_resource_id'', ''payment_id''] of
            None \<Rightarrow> '''' | Some v \<Rightarrow> json_str h v),
       pv_merchant_reference =
         (case first_truthy payload [''merchant_reference''] of
            None \<Rightarrow> str_uuid (wh_merchant_id row) | Some v \<Rightarrow> json_str h v),
       pv_payload = payload, pv_signature_valid = wh_signature_valid row\<rparr>)"

subsection \<open>Reading back printed identifiers\<close>

lemma hex_val_digit: "d < 16 \<Longrightarrow> hex_val (hex_digit d) = Some d"
  by (auto simp: hex_val_def hex_digit_def take_bit_eq_mod Let_def)

lemma hex_read_append:
  "hex_read acc (a @ b) = (case hex_read acc a of None \<Rightarrow> None | Some x \<Rightarrow> hex_read x b)"
  by (induction a arbitrary: acc) (auto split: option.splits)

lemma hex_read_fixed: "n < 16 ^ k \<Longrightarrow> hex_read acc (hex_fixed k n) = Some (acc * 16 ^ k + n)"
proof (induction k n arbitrary: acc rule: hex_fixed.induct)
  case (2 k n)
  have "n div 16 < 16 ^ k" using 2(2) by (simp add: less_mult_imp_div_less mult.commute)
  then show ?case
    using 2(1) by (simp add: hex_read_append hex_val_digit algebra_simps)
qed simp

lemma set_hex_fixed: "c \<in> set (hex_fixed k n) \<Longrightarrow> \<exists>d < 16. c = hex_digit d"
  by (induction k n rule: hex_fixed.induct) (auto intro: exI [of _ "_ mod 16"])

lemma hex_digit_plain: "d < 16 \<Longrightarrow> hex_digit d \<notin> {CHR ''-'', CHR ''{'', CHR ''}'', CHR ''u''}"
  by (auto simp: hex_digit_def char_of_eq_iff take_bit_eq_mod split: if_splits)

lemma str_uuid_chars:
  assumes "c \<in> set (str_uuid n)"
  shows "c \<notin> {CHR ''{'', CHR ''}'', CHR ''u''}"
proof -
  have "c = CHR ''-'' \<or> c \<in> set (hex_fixed 32 n)"
    using assms by (auto simp: str_uuid_def Let_def dest: in_set_takeD in_set_dropD)
  then show ?thesis
    using set_hex_fixed [of c 32 n] hex_digit_plain by fastforce
qed

lemma remove_all_absent:
  "p \<noteq> [] \<Longrightarrow> hd p \<notin> set s \<Longrightarrow> remove_all p s = s"
  by (induction p s rule: remove_all.induct) (auto simp: neq_Nil_conv)

lemma strip_braces_absent:
  assumes "\<forall>c \<in> set s. c \<noteq> CHR ''{'' \<and> c \<noteq> CHR ''}''"
  shows "strip_braces s = s"
proof -
  have drop: "dropWhile (\<lambda>c. c = CHR ''{'' \<or> c = CHR ''}'') t = t"
    if "\<forall>c \<in> set t. c \<noteq> CHR ''{'' \<and> c \<noteq> CHR ''}''" for t
    using that by (cases t) auto
  show ?thesis
    unfolding strip_braces_def Let_def drop [OF assms]
    by (subst drop) (use assms in auto)
qed

lemma filter_str_uuid: "filter (\<lambda>c. c \<noteq> CHR ''-'') (str_uuid n) = hex_fixed 32 n"
proof -
  let ?h = "hex_fixed 32 n"
  have keep: "filter (\<lambda>c. c \<noteq> CHR ''-'') xs = xs" if "set xs \<subseteq> set ?h" for xs
    using that set_hex_fixed [of _ 32 n] hex_digit_plain
    by (intro filter_True ballI) (metis insertI1 subsetD)
  have sets: "set (take i (drop j ?h)) \<subseteq> set ?h" "set (drop j ?h) \<subseteq> set ?h" "set (take i ?h) \<subseteq> set ?h"
    for i j by (auto dest: in_set_takeD in_set_dropD)
  have join: "take k (drop i h) @ drop (k + i) h = drop i h" for k i and h :: string
    by (metis append_take_drop_id drop_drop)
  show ?thesis
    unfolding str_uuid_def Let_def filter_append keep [OF sets(1)] keep [OF sets(2)] keep [OF sets(3)]
    using join [of 4 8 ?h] join [of 4 12 ?h] join [of 4 16 ?h] by simp
qed

text \<open>
  \<^bold>\<open>Identifiers survive printing and parsing.\<close> A 128-bit identifier printed by the code is read
  back unchanged when it arrives in an event, and printing is one-to-one, so distinct cases get
  distinct idempotency keys.
\<close>

theorem uuid_roundtrip:
  assumes "n < 16 ^ 32"
  shows "parse_uuid (str_uuid n) = Some n
    \<and> optional_uuid h (JStr (str_uuid n)) = Inr (Some n)
    \<and> (\<forall>m. m < 16 ^ 32 \<longrightarrow> str_uuid m = str_uuid n \<longrightarrow> m = n)"
proof -
  have u: "CHR ''u'' \<notin> set (str_uuid n)" and b: "\<forall>c \<in> set (str_uuid n). c \<noteq> CHR ''{'' \<and> c \<noteq> CHR ''}''"
    using str_uuid_chars by auto
  have p: "parse_uuid (str_uuid n) = Some n"
    using assms hex_read_fixed [of n 32 0] u
    by (simp add: parse_uuid_def remove_all_absent strip_braces_absent [OF b] filter_str_uuid)
  moreover have "str_uuid n \<noteq> []" by (simp add: str_uuid_def Let_def)
  ultimately show ?thesis
    using str_uuid_inj [OF _ assms] by (simp add: optional_uuid_def json_str_def)
qed

theorem uuid_roundtrip_witness: "parse_uuid (str_uuid 255) = Some 255"
  using uuid_roundtrip [of 255 undefined] by simp

subsection \<open>Normalisation\<close>

text \<open>
  \<^bold>\<open>Normalisation is total and typed.\<close> Every provider event normalises to an unknown event, when
  its type is not in the table, or to a payment event with a non-empty payment reference, the
  amount the payload states and the identity of the stored row, or it is refused with an ingestion
  error of status 400, which is never retryable.
\<close>

theorem normalize_total:
  "case normalize_provider_event h e wid mid of
     Inl err \<Rightarrow> (\<exists>code. err = IngestionError code 400) \<and> \<not> is_retryable err \<and> is_domain_error err
   | Inr (Unknown_Event raw) \<Rightarrow> raw = pv_event_type e \<and> map_of EVENT_TYPE_MAP raw = None
   | Inr (Payment_Event ev) \<Rightarrow> map_of EVENT_TYPE_MAP (pv_event_type e) = Some (ev_event_type ev)
       \<and> ev_provider_payment_id ev \<noteq> [] \<and> require_decimal (pv_payload e) = Inr (ev_amount ev)
       \<and> ev_merchant_id ev = mid \<and> ev_webhook_event_id ev = wid
       \<and> ev_occurred_at ev = pv_occurred_at e"
proof (cases "map_of EVENT_TYPE_MAP (pv_event_type e)")
  case None
  then show ?thesis by (simp add: normalize_provider_event_def)
next
  case (Some ty)
  have dec: "require_decimal d = Inl x \<Longrightarrow> x = IngestionError ''INVALID_PROVIDER_EVENT'' 400" for d x
    by (auto simp: require_decimal_def split: json.splits sum.splits)
  have att: "attempt_of d = Inl x \<Longrightarrow> x = IngestionError ''INVALID_PROVIDER_EVENT'' 400" for d x
    by (auto simp: attempt_of_def split: sum.splits)
  have uid: "optional_uuid h v = Inl x \<Longrightarrow> x = IngestionError ''INVALID_PROVIDER_EVENT'' 400" for v x
    by (auto simp: optional_uuid_def split: if_splits option.splits)
  define ppid where "ppid = (case payload_str h (pv_payload e) [''provider_payment_id'', ''payment_id''] of
      Some x \<Rightarrow> x | None \<Rightarrow> pv_provider_resource_id e)"
  show ?thesis
  proof (cases "ppid = []")
    case True
    then show ?thesis
      unfolding normalize_provider_event_def Some option.case Let_def by (fold ppid_def) simp
  next
    case False
    note body = normalize_provider_event_def Some option.case Let_def
      if_not_P [OF False [unfolded ppid_def]]
    consider (amount) x where "require_decimal (pv_payload e) = Inl x"
      | (attempt) a x where "require_decimal (pv_payload e) = Inr a" "attempt_of (pv_payload e) = Inl x"
      | (customer) a n x where "require_decimal (pv_payload e) = Inr a" "attempt_of (pv_payload e) = Inr n"
          "optional_uuid h (dict_get (pv_payload e) ''customer_id'') = Inl x"
      | (fine) a n u where "require_decimal (pv_payload e) = Inr a" "attempt_of (pv_payload e) = Inr n"
          "optional_uuid h (dict_get (pv_payload e) ''customer_id'') = Inr u"
      by (metis sum.exhaust)
    then show ?thesis
    proof cases
      case amount
      from dec [OF this] amount show ?thesis unfolding body by simp
    next
      case attempt
      from att [OF attempt(2)] attempt show ?thesis unfolding body by simp
    next
      case customer
      from uid [OF customer(3)] customer show ?thesis unfolding body by simp
    next
      case fine
      from fine False [unfolded ppid_def] show ?thesis
        unfolding body by (simp add: Some del: payload_str.simps)
    qed
  qed
qed

end
