(* ===== verification/Processing.thy ===== *)
theory Processing
  imports Events
begin

text \<open>
  \<^verbatim>\<open>recoverai_domain/processing.py\<close>: turning a stored webhook event into payments, recovery cases
  and follow-up jobs. The constraints of the tables the code writes (\<^verbatim>\<open>CHECK\<close>, primary keys, the
  partial unique index on open cases) are part of the inserts, which raise \<open>IntegrityError\<close>. Between
  looking for an open case and inserting one another transaction may commit: the parameter \<open>race\<close>
  is that transaction (\<open>id\<close> when there is none). The lemmas show that processing keeps the
  database well formed for every race, never credits revenue, leaves exactly one open case for a
  failed payment, finishes every event it accepts, and does nothing for a finished one.
\<close>

subsection \<open>Writes with their constraints\<close>

record FollowUpJob =
  fj_name :: string
  fj_case_id :: uuid
  fj_payment_id :: "uuid option"
  fj_webhook_event_id :: "uuid option"

definition INTERNAL_PAYMENT_NS :: uuid where
  "INTERNAL_PAYMENT_NS = 81563399327211856744116801053604400269"

definition internal_payment_uuid :: "Host \<Rightarrow> uuid \<Rightarrow> string \<Rightarrow> string \<Rightarrow> uuid" where
  "internal_payment_uuid h merchant_id provider provider_payment_id =
     host_uuid5 h INTERNAL_PAYMENT_NS
       (str_uuid merchant_id @ '':'' @ provider @ '':'' @ provider_payment_id)"

definition insert_payment :: "Payment \<Rightarrow> unit dbprog" where
  "insert_payment row = (\<lambda>s.
     if pay_amount row < 0 \<or> pay_id row \<in> set (map pay_id (db_payments s))
        \<or> (\<exists>p \<in> set (db_payments s). pay_merchant_id p = pay_merchant_id row
             \<and> pay_provider p = pay_provider row
             \<and> pay_provider_payment_id p \<noteq> None
             \<and> pay_provider_payment_id p = pay_provider_payment_id row)
     then (Inl IntegrityError, s)
     else (Inr (), s\<lparr>db_payments := db_payments s @ [row]\<rparr>))"

definition insert_case :: "(uuid \<Rightarrow> timestamp \<Rightarrow> RecoveryCase) \<Rightarrow> uuid dbprog" where
  "insert_case row =
     bind uuid4 (\<lambda>k.
     bind now (\<lambda>t. (\<lambda>s.
       if rc_amount_at_risk (row k t) < 0
          \<or> (\<exists>c \<in> set (db_cases s). same_open_subject (row k t) c)
       then (Inl IntegrityError, s)
       else (Inr k, s\<lparr>db_cases := db_cases s @ [row k t]\<rparr>))))"

subsection \<open>Payments\<close>

definition is_status_downgrade :: "PaymentStatus \<Rightarrow> PaymentStatus \<Rightarrow> bool" where
  "is_status_downgrade current incoming =
     (if current = Pay_CAPTURED
         \<and> incoming \<in> {Pay_CREATED, Pay_AUTHORIZED, Pay_FAILED, Pay_CANCELLED} then True
      else if current = Pay_REFUNDED \<and> incoming \<noteq> Pay_REFUNDED then True
      else False)"

definition or_else :: "'a option \<Rightarrow> 'a option \<Rightarrow> 'a option" where
  "or_else x y = (case x of None \<Rightarrow> y | Some v \<Rightarrow> Some v)"

definition resolve_customer :: "DomainPaymentEvent \<Rightarrow> uuid dbprog" where
  "resolve_customer event =
     (case ev_customer_id event of
        Some cid \<Rightarrow>
          bind (gets (\<lambda>s. get_customer s (ev_merchant_id event) cid)) (\<lambda>cu.
            case cu of None \<Rightarrow> raise (DomainError ''MISSING_CUSTOMER'' False)
                     | Some c \<Rightarrow> ret (cust_id c))
      | None \<Rightarrow>
          (case ev_customer_external_id event of
             None \<Rightarrow> raise (DomainError ''MISSING_CUSTOMER'' False)
           | Some x \<Rightarrow>
               bind (gets (\<lambda>s. get_by_external_id s (ev_merchant_id event) x)) (\<lambda>cu.
                 case cu of None \<Rightarrow> raise (DomainError ''MISSING_CUSTOMER'' False)
                          | Some c \<Rightarrow> ret (cust_id c))))"

definition add_attempt :: "uuid \<Rightarrow> DomainPaymentEvent \<Rightarrow> PaymentStatus \<Rightarrow> unit dbprog" where
  "add_attempt pid event status =
     modify (\<lambda>s. s\<lparr>db_attempts := db_attempts s @
       [\<lparr>att_payment_id = pid, att_attempt_number = next_attempt_number s pid,
         att_status = status, att_amount = numeric_18_2 (ev_amount event),
         att_currency = ev_currency event, att_failure_code = ev_failure_code event,
         att_attempted_at = ev_occurred_at event\<rparr>]\<rparr>)"

text \<open>The assignments to an existing payment, in the order of the code.\<close>

definition apply_event_to_payment :: "DomainPaymentEvent \<Rightarrow> PaymentStatus \<Rightarrow> Payment \<Rightarrow> Payment" where
  "apply_event_to_payment event status p =
     (let p1 = (if \<not> is_status_downgrade (pay_status p) status then p\<lparr>pay_status := status\<rparr> else p);
          p2 = p1\<lparr>pay_provider_order_id := or_else (ev_provider_order_id event) (pay_provider_order_id p1)\<rparr>;
          p3 = (if status = Pay_FAILED then
                  p2\<lparr>pay_failure_code := or_else (ev_failure_code event) (pay_failure_code p2),
                     pay_failure_reason := or_else (ev_failure_code event) (pay_failure_reason p2),
                     pay_failed_at := Some (ev_occurred_at event)\<rparr> else p2);
          p4 = (if status = Pay_CAPTURED then
                  p3\<lparr>pay_captured_at := Some (ev_occurred_at event), pay_status := Pay_CAPTURED,
                     pay_amount := numeric_18_2 (ev_amount event)\<rparr> else p3)
      in p4\<lparr>pay_payment_method := or_else (ev_payment_method event) (pay_payment_method p4)\<rparr>)"

text \<open>
  A negative amount violates the \<^verbatim>\<open>CHECK\<close> constraints of both tables when the session flushes, so
  nothing of the event is stored.
\<close>

definition find_or_create_payment ::
  "Host \<Rightarrow> DomainPaymentEvent \<Rightarrow> PaymentStatus \<Rightarrow> (uuid \<times> PaymentStatus option) dbprog" where
  "find_or_create_payment h event status =
     bind (gets (\<lambda>s. get_by_provider_payment_id s (ev_merchant_id event) (ev_provider event)
                        (ev_provider_payment_id event))) (\<lambda>existing.
       case existing of
         Some p \<Rightarrow>
           if numeric_18_2 (ev_amount event) < 0 then raise IntegrityError
           else
             seqp (update_payment (pay_id p) (apply_event_to_payment event status))
             (seqp (add_attempt (pay_id p) event status)
                   (ret (pay_id p, Some (pay_status p))))
       | None \<Rightarrow>
           bind (resolve_customer event) (\<lambda>customer_id.
           let pid = internal_payment_uuid h (ev_merchant_id event) (ev_provider event)
                       (ev_provider_payment_id event) in
           seqp (insert_payment
             \<lparr>pay_id = pid, pay_merchant_id = ev_merchant_id event, pay_customer_id = customer_id,
              pay_provider = ev_provider event,
              pay_provider_payment_id = Some (ev_provider_payment_id event),
              pay_provider_order_id = ev_provider_order_id event,
              pay_provider_payment_link_id = None,
              pay_amount = numeric_18_2 (ev_amount event),
              pay_provider_amount_minor = Some (if 0 \<le> ev_amount event then \<lfloor>ev_amount event * 100\<rfloor>
                                                else - \<lfloor>- (ev_amount event * 100)\<rfloor>),
              pay_currency = ev_currency event, pay_status = status,
              pay_payment_method = ev_payment_method event,
              pay_failure_reason = ev_failure_code event, pay_failure_code = ev_failure_code event,
              pay_captured_at = (if status = Pay_CAPTURED then Some (ev_occurred_at event) else None),
              pay_failed_at = (if status = Pay_FAILED then Some (ev_occurred_at event) else None)\<rparr>)
           (seqp (add_attempt pid event status)
                 (ret (pid, None)))))"

subsection \<open>Cases\<close>

definition queue_verify :: "uuid \<Rightarrow> uuid \<Rightarrow> uuid \<Rightarrow> FollowUpJob" where
  "queue_verify case_id pid wid =
     \<lparr>fj_name = ''verify_recovery_case'', fj_case_id = case_id, fj_payment_id = Some pid,
      fj_webhook_event_id = Some wid\<rparr>"

abbreviation read_payment :: "uuid \<Rightarrow> Payment dbprog" where
  "read_payment \<equiv> deref session_get_payment"

definition verify_if_captured :: "uuid \<Rightarrow> uuid \<Rightarrow> uuid \<Rightarrow> FollowUpJob list dbprog" where
  "verify_if_captured case_id pid wid =
     bind (read_payment pid) (\<lambda>p.
       ret (if pay_status p = Pay_CAPTURED then [queue_verify case_id pid wid] else []))"

definition attach_case :: "uuid \<Rightarrow> RecoveryCase \<Rightarrow> uuid \<Rightarrow> uuid \<Rightarrow> FollowUpJob list dbprog" where
  "attach_case merchant c pid wid =
     seqp (record_audit merchant Aud_RECOVERY_CASE_ATTACHED (Some (rc_id c)) Actor_WORKER
             (Some ''attach_case'') None (Some (case_status_value (rc_status c))) None)
          (verify_if_captured (rc_id c) pid wid)"

definition new_failed_case :: "uuid \<Rightarrow> DomainPaymentEvent \<Rightarrow> Payment \<Rightarrow> uuid \<Rightarrow> timestamp \<Rightarrow> RecoveryCase" where
  "new_failed_case wid event p k t =
     \<lparr>rc_id = k, rc_merchant_id = ev_merchant_id event, rc_customer_id = pay_customer_id p,
      rc_payment_id = Some (pay_id p), rc_cart_id = None, rc_subscription_id = None,
      rc_case_type = FAILED_PAYMENT, rc_status = Case_DETECTED,
      rc_amount_at_risk = pay_amount p, rc_amount_recovered = 0, rc_currency = pay_currency p,
      rc_priority = 0, rc_source_event_id = Some wid, rc_version = 1, rc_opened_at = t, rc_closed_at = None,
      rc_last_mismatch_reason = None, rc_verified_payment_id = None,
      rc_verified_webhook_event_id = None, rc_created_at = t\<rparr>"

definition create_or_attach_recovery_case ::
  "(db \<Rightarrow> db) \<Rightarrow> uuid \<Rightarrow> DomainPaymentEvent \<Rightarrow> uuid \<Rightarrow> FollowUpJob list dbprog" where
  "create_or_attach_recovery_case race wid event pid =
     bind (gets (\<lambda>s. list_open_for_payment s (ev_merchant_id event) pid)) (\<lambda>open_cases.
       case open_cases of
         c # _ \<Rightarrow> attach_case (ev_merchant_id event) c pid wid
       | [] \<Rightarrow>
           bind (read_payment pid) (\<lambda>p.
           bind (catch
                   (seqp (modify race)
                     (bind (insert_case (new_failed_case wid event p)) (\<lambda>k. ret (Some k))))
                   (\<lambda>e. if e = IntegrityError then ret None else raise e)) (\<lambda>created.
             case created of
               None \<Rightarrow>
                 bind (gets (\<lambda>s. list_open_for_payment s (ev_merchant_id event) pid)) (\<lambda>again.
                   case again of
                     [] \<Rightarrow> raise SavepointIntegrityError
                   | c # _ \<Rightarrow> attach_case (ev_merchant_id event) c pid wid)
             | Some k \<Rightarrow>
                 seqp (record_audit (ev_merchant_id event) Aud_RECOVERY_CASE_CREATED (Some k)
                         Actor_WORKER (Some ''create_case'') None
                         (Some (case_status_value Case_DETECTED)) None)
                 (bind (verify_if_captured k pid wid) (\<lambda>more.
                    ret (\<lparr>fj_name = ''process_recovery_case'', fj_case_id = k, fj_payment_id = None,
                          fj_webhook_event_id = Some wid\<rparr> # more))))))"

definition audit_payment ::
  "DomainPaymentEvent \<Rightarrow> uuid option \<Rightarrow> PaymentStatus option \<Rightarrow> PaymentStatus \<Rightarrow> unit dbprog" where
  "audit_payment event case_id previous status =
     record_audit (ev_merchant_id event) Aud_PAYMENT_UPDATED case_id Actor_WORKER
       (Some ''update_payment'') (map_option payment_status_value previous)
       (Some (payment_status_value status)) None"

definition handle_payment_failed ::
  "Host \<Rightarrow> (db \<Rightarrow> db) \<Rightarrow> uuid \<Rightarrow> DomainPaymentEvent \<Rightarrow> FollowUpJob list dbprog" where
  "handle_payment_failed h race wid event =
     bind (find_or_create_payment h event Pay_FAILED) (\<lambda>(pid, previous).
     seqp (audit_payment event None previous Pay_FAILED)
          (create_or_attach_recovery_case race wid event pid))"

definition candidate_cases :: "db \<Rightarrow> Payment \<Rightarrow> RecoveryCase list" where
  "candidate_cases s p =
     (let own = list_open_for_payment s (pay_merchant_id p) (pay_id p);
          theirs = list_open_for_customer s (pay_merchant_id p) (pay_customer_id p)
      in own @ filter (\<lambda>c. rc_id c \<notin> set (map rc_id own)) theirs)"

definition handle_payment_captured ::
  "Host \<Rightarrow> uuid \<Rightarrow> DomainPaymentEvent \<Rightarrow> FollowUpJob list dbprog" where
  "handle_payment_captured h wid event =
     bind (find_or_create_payment h event Pay_CAPTURED) (\<lambda>(pid, previous).
     bind (read_payment pid) (\<lambda>p.
     bind (gets (\<lambda>s. candidate_cases s p)) (\<lambda>candidates.
     seqp (audit_payment event (case candidates of [] \<Rightarrow> None | c # _ \<Rightarrow> Some (rc_id c))
             previous Pay_CAPTURED)
          (ret (map (\<lambda>c. queue_verify (rc_id c) pid wid) candidates)))))"

definition handle_payment_status ::
  "Host \<Rightarrow> DomainPaymentEvent \<Rightarrow> PaymentStatus \<Rightarrow> FollowUpJob list dbprog" where
  "handle_payment_status h event status =
     bind (find_or_create_payment h event status) (\<lambda>(pid, previous).
     seqp (audit_payment event None previous status) (ret []))"

definition handle_payment_refunded :: "Host \<Rightarrow> DomainPaymentEvent \<Rightarrow> FollowUpJob list dbprog" where
  "handle_payment_refunded h event = handle_payment_status h event Pay_REFUNDED"

definition dispatch ::
  "Host \<Rightarrow> (db \<Rightarrow> db) \<Rightarrow> WebhookEvent \<Rightarrow> NormalizedEvent \<Rightarrow> FollowUpJob list dbprog" where
  "dispatch h race row domain_event = (case domain_event of
     Unknown_Event raw \<Rightarrow>
       seqp (record_audit (wh_merchant_id row) Aud_UNKNOWN_EVENT_IGNORED None Actor_WORKER
               (Some ''ignore_unknown'') None None None) (ret [])
   | Payment_Event event \<Rightarrow>
       (case ev_event_type event of
          PAYMENT_FAILED \<Rightarrow> handle_payment_failed h race (wh_id row) event
        | PAYMENT_CAPTURED \<Rightarrow> handle_payment_captured h (wh_id row) event
        | PAYMENT_REFUNDED \<Rightarrow> handle_payment_refunded h event
        | PAYMENT_CANCELLED \<Rightarrow> handle_payment_status h event Pay_CANCELLED
        | PAYMENT_AUTHORIZED \<Rightarrow> handle_payment_status h event Pay_AUTHORIZED
        | PAYMENT_CREATED \<Rightarrow> handle_payment_status h event Pay_CREATED))"

subsection \<open>One webhook event\<close>

text \<open>
  An \<open>IntegrityError\<close> that comes this far is a flush that failed outside a savepoint (the one that
  is raised again after its savepoint was rolled back is \<open>SavepointIntegrityError\<close>). The session has
  then rolled its transaction back and answers \<open>PendingRollbackError\<close> to the next statement, which
  is the refresh of the event's expired row: the failure cannot be marked.
\<close>

definition mark_failure :: "WebhookEvent \<Rightarrow> py_error \<Rightarrow> bool \<Rightarrow> unit dbprog" where
  "mark_failure row e dead_letter =
     (if e = IntegrityError then raise PendingRollbackError
      else let st = (if dead_letter then Hook_DEAD_LETTER else Hook_FAILED) in
      seqp (update_webhook (wh_id row) (\<lambda>w. w\<lparr>wh_error_code := Some (take 64 (error_code e)),
              wh_status := st\<rparr>))
           (record_audit (wh_merchant_id row) Aud_PROVIDER_EVENT_FAILED None Actor_WORKER
              (Some (if dead_letter then ''dead_letter'' else ''process_failed'')) None
              (Some (webhook_status_value st)) None))"

definition mark_dead_letter :: "uuid \<Rightarrow> unit dbprog" where
  "mark_dead_letter wid =
     bind (gets (\<lambda>s. get_webhook s wid)) (\<lambda>w.
       case w of
         None \<Rightarrow> ret ()
       | Some row \<Rightarrow>
           if wh_status row \<in> {Hook_PROCESSED, Hook_DEAD_LETTER} then ret ()
           else seqp (update_webhook wid (\<lambda>r. r\<lparr>wh_status := Hook_DEAD_LETTER\<rparr>))
                     (record_audit (wh_merchant_id row) Aud_PROVIDER_EVENT_FAILED None Actor_WORKER
                        (Some ''dead_letter'') None (Some (webhook_status_value Hook_DEAD_LETTER)) None))"

definition handle_event :: "Host \<Rightarrow> (db \<Rightarrow> db) \<Rightarrow> WebhookEvent \<Rightarrow> FollowUpJob list dbprog" where
  "handle_event h race row =
     bind (gets (\<lambda>s. get_merchant s (wh_merchant_id row))) (\<lambda>merchant.
       case merchant of
         None \<Rightarrow> raise (DomainError ''MISSING_MERCHANT'' False)
       | Some _ \<Rightarrow>
           bind (lift (normalize_provider_event h (provider_event_from_row h row) (wh_id row)
                         (wh_merchant_id row))) (\<lambda>domain_event.
           bind (dispatch h race row domain_event) (\<lambda>followups.
           bind now (\<lambda>t.
           seqp (update_webhook (wh_id row) (\<lambda>w. w\<lparr>wh_status := Hook_PROCESSED,
                   wh_processed_at := Some t, wh_error_code := None\<rparr>))
           (seqp (record_audit (wh_merchant_id row) Aud_PROVIDER_EVENT_PROCESSED None Actor_WORKER
                    (Some ''process'') None (Some (webhook_status_value Hook_PROCESSED))
                    (Some (wh_provider row @ '':'' @ wh_event_id row)))
                 (ret followups))))))"

definition process_webhook_event ::
  "Host \<Rightarrow> (db \<Rightarrow> db) \<Rightarrow> uuid \<Rightarrow> (string \<times> FollowUpJob list) dbprog" where
  "process_webhook_event h race wid =
     bind (gets (\<lambda>s. get_webhook s wid)) (\<lambda>w.
       case w of
         None \<Rightarrow> raise (DomainError ''INVALID_PROVIDER_EVENT'' False)
       | Some row \<Rightarrow>
           if wh_status row = Hook_PROCESSED then ret (''already_processed'', [])
           else if wh_status row = Hook_DEAD_LETTER then ret (''dead_letter'', [])
           else
             seqp (update_webhook wid (\<lambda>r. r\<lparr>wh_status := Hook_PROCESSING\<rparr>))
             (catch
               (bind (handle_event h race row) (\<lambda>followups. ret (''processed'', followups)))
               (\<lambda>e. if is_domain_error e \<and> \<not> is_retryable e
                    then seqp (mark_failure row e True) (ret (''dead_letter'', []))
                    else seqp (mark_failure row e False) (raise e))))"

subsection \<open>Events never credit revenue\<close>

lemma insert_payment_no_credit: "obeys (db_evolves case_no_credit) (insert_payment row)"
  by (auto simp: obeys_def insert_payment_def db_evolves_def get_case_unscoped_def no_credit.K_refl)

lemma insert_case_no_credit:
  assumes "\<And>k t. fresh_case (row k t)"
  shows "obeys (db_evolves case_no_credit) (insert_case row)"
proof -
  have "obeys (db_evolves case_no_credit) (\<lambda>s.
       if rc_amount_at_risk (row k t) < 0 \<or> (\<exists>c \<in> set (db_cases s). same_open_subject (row k t) c)
       then (Inl IntegrityError, s) else (Inr k, s\<lparr>db_cases := db_cases s @ [row k t]\<rparr>))" for k t
    using no_credit.obeys_insert_case [of "\<lambda>_. row k t"] assms
    by (auto simp: obeys_def modify_def no_credit.frame_refl)
  then show ?thesis
    unfolding insert_case_def by (intro no_credit_rules)
qed

lemma add_attempt_no_credit: "obeys (db_evolves case_no_credit) (add_attempt pid ev st)"
  unfolding add_attempt_def by (rule no_credit.obeys_modify) simp

lemma find_or_create_payment_no_credit:
  "obeys (db_evolves case_no_credit) (find_or_create_payment h ev st)"
  unfolding find_or_create_payment_def resolve_customer_def
  by (intro no_credit_rules insert_payment_no_credit add_attempt_no_credit)

lemma verify_if_captured_no_credit: "obeys (db_evolves case_no_credit) (verify_if_captured c p w)"
  unfolding verify_if_captured_def by (intro no_credit_rules)

lemma create_or_attach_no_credit:
  assumes "\<And>s. db_evolves case_no_credit s (race s)"
  shows "obeys (db_evolves case_no_credit) (create_or_attach_recovery_case race wid ev pid)"
proof -
  have "obeys (db_evolves case_no_credit) (modify race)"
    using assms by (simp add: obeys_def modify_def)
  then show ?thesis
    unfolding create_or_attach_recovery_case_def attach_case_def
    by (intro no_credit_rules insert_case_no_credit verify_if_captured_no_credit)
       (simp_all add: fresh_case_def new_failed_case_def)
qed

lemma dispatch_no_credit:
  assumes "\<And>s. db_evolves case_no_credit s (race s)"
  shows "obeys (db_evolves case_no_credit) (dispatch h race row ev)"
proof -
  note rules = no_credit_rules find_or_create_payment_no_credit create_or_attach_no_credit [OF assms]
  have st: "obeys (db_evolves case_no_credit) (handle_payment_status h e p)" for e p
    unfolding handle_payment_status_def audit_payment_def by (intro rules)
  have f: "obeys (db_evolves case_no_credit) (handle_payment_failed h race w e)" for w e
    unfolding handle_payment_failed_def audit_payment_def by (intro rules)
  have c: "obeys (db_evolves case_no_credit) (handle_payment_captured h w e)" for w e
    unfolding handle_payment_captured_def audit_payment_def by (intro rules)
  show ?thesis
    by (cases ev; cases "ev_event_type (case ev of Payment_Event x \<Rightarrow> x)")
       (auto simp: dispatch_def handle_payment_refunded_def st f c split: DomainEventType.split
        intro!: no_credit_rules)
qed

lemma process_webhook_event_no_credit:
  assumes "\<And>s. db_evolves case_no_credit s (race s)"
  shows "obeys (db_evolves case_no_credit) (process_webhook_event h race wid)"
  unfolding process_webhook_event_def handle_event_def mark_failure_def
  by (intro no_credit_rules dispatch_no_credit [OF assms])

subsection \<open>Events keep the database well formed\<close>

lemma keeps_ok_read_payment: "keeps db_ok (read_payment i) payment_ok"
  by (rule keepsI) (auto simp: prog_simps dest: db_ok_payment split: option.splits)

lemma keeps_ok_insert_payment:
  "two_decimal (pay_amount row) \<Longrightarrow> keeps db_ok (insert_payment row) (\<lambda>_. True)"
  by (rule keepsI)
     (auto simp: insert_payment_def db_ok_def payment_ok_def split: if_splits)

lemma apply_event_fields [simp]:
  "pay_id (apply_event_to_payment ev st p) = pay_id p"
  "pay_merchant_id (apply_event_to_payment ev st p) = pay_merchant_id p"
  "pay_customer_id (apply_event_to_payment ev st p) = pay_customer_id p"
  "pay_amount (apply_event_to_payment ev st p)
     = (if st = Pay_CAPTURED then numeric_18_2 (ev_amount ev) else pay_amount p)"
  "pay_status (apply_event_to_payment ev st p)
     = (if st = Pay_CAPTURED \<or> \<not> is_status_downgrade (pay_status p) st then st else pay_status p)"
  by (simp_all add: apply_event_to_payment_def Let_def)

lemma keeps_ok_update_payment:
  assumes "\<And>p. pay_id (f p) = pay_id p" and "\<And>p. payment_ok p \<Longrightarrow> payment_ok (f p)"
  shows "keeps db_ok (update_payment i f) (\<lambda>_. True)"
proof (rule keepsI)
  fix s r s'
  assume ok: "db_ok s" and run: "update_payment i f s = (r, s')"
  have "keyed_update pay_id f" by unfold_locales (rule assms(1))
  then have "map pay_id (update_row pay_id i f (db_payments s)) = map pay_id (db_payments s)"
    by (rule keyed_update.keys_update_row)
  moreover have "payment_ok p" if "p \<in> set (update_row pay_id i f (db_payments s))" for p
    using that ok assms(2) by (auto simp: update_row_def db_ok_def split: if_splits)
  ultimately have "db_ok s'"
    using ok run by (auto simp: update_payment_def prog_simps db_ok_def)
  then show "db_ok s' \<and> (\<forall>x. r = Inr x \<longrightarrow> True)" by simp
qed

lemma keeps_ok_add_attempt: "keeps db_ok (add_attempt pid ev st) (\<lambda>_. True)"
  unfolding add_attempt_def by (rule keeps_ok_modify) simp

lemma keeps_ok_find_or_create_payment: "keeps db_ok (find_or_create_payment h ev st) (\<lambda>_. True)"
  unfolding find_or_create_payment_def resolve_customer_def
  by (intro ok_rules keeps_ok_insert_payment keeps_ok_update_payment keeps_ok_add_attempt)
     (auto simp: payment_ok_def)

lemma keeps_ok_insert_case:
  assumes "\<And>k t. rc_id (row k t) = k" "\<And>k t. case_ok (row k t)"
  shows "keeps db_ok (insert_case row) (\<lambda>_. True)"
proof (rule keepsI)
  fix s r s'
  assume ok: "db_ok s" and run: "insert_case row s = (r, s')"
  let ?k = "db_next_uuid s" and ?s1 = "s\<lparr>db_next_uuid := Suc (db_next_uuid s)\<rparr>"
  have new: "\<forall>c \<in> set (db_cases s). rc_id c < ?k" using ok by (auto simp: db_ok_def)
  have sym: "same_open_subject c d \<longleftrightarrow> same_open_subject d c" for c d
    unfolding same_open_subject_def by metis
  have ok1: "db_ok ?s1" by (rule db_ok_other_tables [OF _ _ _ ok]) auto
  have "db_ok (?s1\<lparr>db_cases := db_cases s @ [row ?k (db_clock s)]\<rparr>)"
    if none: "\<not> (\<exists>c \<in> set (db_cases s). same_open_subject (row ?k (db_clock s)) c)"
  proof -
    let ?row = "row ?k (db_clock s)" and ?rows = "db_cases s"
      and ?t = "?s1\<lparr>db_cases := db_cases s @ [row ?k (db_clock s)]\<rparr>"
    have "?k \<notin> rc_id ` set ?rows" using new by (force dest: bspec)
    then have "distinct (map rc_id (?rows @ [?row]))"
      using ok by (simp add: db_ok_def assms(1))
    moreover have "\<forall>c \<in> set ?rows. case_ok c" using ok by (simp add: db_ok_def)
    then have "\<forall>c \<in> set (?rows @ [?row]). case_ok c \<and> rc_id c < Suc ?k"
      using new by (simp add: assms less_Suc_eq)
    moreover have "rc_id c = rc_id d"
      if mem: "c \<in> set (?rows @ [?row])" "d \<in> set (?rows @ [?row])"
        and "same_open_subject c d" for c d
    proof -
      consider "c \<in> set ?rows" "d \<in> set ?rows" | "c = ?row" "d = ?row"
        | "c = ?row" "d \<in> set ?rows" | "d = ?row" "c \<in> set ?rows"
        using mem by auto
      then show ?thesis
        using \<open>same_open_subject c d\<close> none sym ok unfolding db_ok_def by cases metis+
    qed
    moreover have "distinct (map pay_id (db_payments s)) \<and> (\<forall>p \<in> set (db_payments s). payment_ok p)"
      using ok unfolding db_ok_def by blast
    moreover have "db_cases ?t = ?rows @ [?row]" "db_payments ?t = db_payments s" "db_next_uuid ?t = Suc ?k"
      by simp_all
    ultimately show ?thesis
      unfolding db_ok_def by metis
  qed
  then have "db_ok s'"
    using run ok1 by (auto simp: insert_case_def uuid4_def prog_simps split: if_splits)
  then show "db_ok s' \<and> (\<forall>x. r = Inr x \<longrightarrow> True)" by simp
qed

lemma new_failed_case_ok: "payment_ok p \<Longrightarrow> case_ok (new_failed_case wid ev p k t)"
  by (simp add: case_ok_def new_failed_case_def payment_ok_def is_terminal_def
      TERMINAL_RECOVERY_STATUSES_def)

lemma keeps_ok_attach_case: "keeps db_ok (attach_case m c pid wid) (\<lambda>_. True)"
  unfolding attach_case_def verify_if_captured_def by (intro ok_rules)

lemma keeps_ok_create_or_attach:
  assumes "\<And>s. db_ok s \<Longrightarrow> db_ok (race s)"
  shows "keeps db_ok (create_or_attach_recovery_case race wid ev pid) (\<lambda>_. True)"
proof -
  have race: "keeps db_ok (modify race) (\<lambda>_. True)"
    using assms by (simp add: keeps_def modify_def)
  have tail: "keeps db_ok (bind (read_payment pid) f) (\<lambda>_. True)"
    if "\<And>p. payment_ok p \<Longrightarrow> keeps db_ok (f p) (\<lambda>_. True)" for f :: "Payment \<Rightarrow> FollowUpJob list dbprog"
    using keeps_ok_read_payment that by (rule keeps_bind)
  show ?thesis
    unfolding create_or_attach_recovery_case_def
    by (rule keeps_ok_bind [OF keeps_ok_gets], rule keeps_case_list, rule tail)
       (intro ok_rules race keeps_ok_insert_case keeps_ok_attach_case,
        auto simp: new_failed_case_ok keeps_ok_attach_case verify_if_captured_def intro!: ok_rules,
        simp add: new_failed_case_def)
qed

lemma keeps_ok_dispatch:
  assumes "\<And>s. db_ok s \<Longrightarrow> db_ok (race s)"
  shows "keeps db_ok (dispatch h race row ev) (\<lambda>_. True)"
proof -
  note rules = ok_rules keeps_ok_find_or_create_payment keeps_ok_create_or_attach [OF assms]
  have st: "keeps db_ok (handle_payment_status h e p) (\<lambda>_. True)" for e p
    unfolding handle_payment_status_def audit_payment_def by (intro rules)
  have f: "keeps db_ok (handle_payment_failed h race w e) (\<lambda>_. True)" for w e
    unfolding handle_payment_failed_def audit_payment_def by (intro rules)
  have c: "keeps db_ok (handle_payment_captured h w e) (\<lambda>_. True)" for w e
    unfolding handle_payment_captured_def audit_payment_def by (intro rules)
  show ?thesis
    by (cases ev) (auto simp: dispatch_def handle_payment_refunded_def st f c
        split: DomainEventType.split intro!: ok_rules)
qed

text \<open>
  \<^bold>\<open>Processing any event keeps the data well formed, even in a race.\<close> Whatever the event, and
  whatever another transaction (keeping the same invariant) commits between the check for an open
  case and the insert, the database stays well formed: in particular a payment never gets two open
  recovery cases. Events move cases only along the lifecycle and never credit recovered revenue.
\<close>

theorem process_webhook_event_safe:
  assumes "\<And>x. db_ok x \<Longrightarrow> db_ok (race x)" and "\<And>x. db_evolves case_no_credit x (race x)"
    and "db_ok s" and "process_webhook_event h race wid s = (r, t)"
  shows "db_ok t \<and> db_evolves case_no_credit s t
    \<and> (\<forall>m pid. length (list_open_for_payment t m pid) \<le> 1)"
proof -
  have "keeps db_ok (process_webhook_event h race wid) (\<lambda>_. True)"
    unfolding process_webhook_event_def handle_event_def mark_failure_def
    by (intro ok_rules keeps_ok_dispatch assms(1))
  from keepsD [OF this assms(3,4)] have "db_ok t" .
  then show ?thesis
    using db_ok_unique_open obeysD [OF process_webhook_event_no_credit [OF assms(2)] assms(4)] by blast
qed

definition demo_host :: Host where
  "demo_host = \<lparr>host_str = (\<lambda>_. ''''), host_fromisoformat = (\<lambda>_. None), host_uuid5 = (\<lambda>_ _. 77),
     host_sha256 = id, host_random = (\<lambda>_. 1/2), host_int_field = (\<lambda>_. None)\<rparr>"

definition failed_event :: WebhookEvent where
  "failed_event = \<lparr>wh_id = 50, wh_merchant_id = 1, wh_provider = ''SIMULATOR'', wh_event_id = ''evt_1'',
     wh_event_type = ''payment.failed'', wh_signature_valid = Some True, wh_status = Hook_RECEIVED,
     wh_payload = [(''provider_payment_id'', JStr ''pay_2''), (''amount'', JStr ''120.50''),
        (''customer_external_id'', JStr ''cust_1''), (''failure_reason'', JStr ''NETWORK_TIMEOUT''),
        (''occurred_at'', JTime 7)],
     wh_received_at = 9, wh_processed_at = None, wh_error_code = None\<rparr>"

definition webhook_db :: db where
  "webhook_db = demo_db\<lparr>db_webhooks := [failed_event]\<rparr>"

lemma webhook_db_ok: "db_ok webhook_db"
  unfolding webhook_db_def by (rule db_ok_other_tables [OF _ _ _ demo_db_ok]) simp_all

theorem process_webhook_event_safe_witness:
  "\<exists>r t. process_webhook_event demo_host id 50 webhook_db = (r, t)
     \<and> db_ok t \<and> db_evolves case_no_credit webhook_db t"
proof -
  obtain r t where "process_webhook_event demo_host id 50 webhook_db = (r, t)" by fastforce
  with process_webhook_event_safe [OF _ _ webhook_db_ok this] show ?thesis
    by (auto simp: no_credit.frame_refl)
qed

subsection \<open>The life of an event\<close>

lemma get_webhook_update:
  assumes "\<And>w. wh_id (f w) = wh_id w"
  shows "get_webhook (s\<lparr>db_webhooks := update_row wh_id i f (db_webhooks s)\<rparr>) j =
     (if j = i then map_option f (get_webhook s j) else get_webhook s j)"
proof -
  have "keyed_update wh_id f" by unfold_locales (rule assms)
  then show ?thesis by (simp add: get_webhook_def keyed_update.find_update_row)
qed

lemma get_webhook_audit [simp]: "get_webhook (s\<lparr>db_audit := a\<rparr>) j = get_webhook s j"
  by (simp add: get_webhook_def)

text \<open>Handlers do not touch the event table.\<close>

definition webhooks_kept :: "db \<Rightarrow> db \<Rightarrow> bool" where
  "webhooks_kept s t \<longleftrightarrow> db_webhooks t = db_webhooks s"

interpretation webhooks_kept: step_frame webhooks_kept
  by unfold_locales (simp_all add: webhooks_kept_def)

lemma webhooks_kept_prims:
  "obeys webhooks_kept uuid4" "obeys webhooks_kept now" "obeys webhooks_kept (deref g i)"
  "obeys webhooks_kept (record_audit m e c a act p n k)" "obeys webhooks_kept (update_payment i f)"
  "obeys webhooks_kept (insert_payment row)" "obeys webhooks_kept (add_attempt pid ev st)"
  by (auto simp: obeys_def webhooks_kept_def uuid4_def now_def gets_def deref_def record_audit_def
      modify_def update_payment_def insert_payment_def add_attempt_def split: option.splits)

lemma webhooks_kept_insert_case: "obeys webhooks_kept (insert_case row)"
  by (auto simp: obeys_def webhooks_kept_def insert_case_def uuid4_def prog_simps)

lemmas webhooks_kept_rules = webhooks_kept.frame_rules webhooks_kept_prims webhooks_kept_insert_case

lemma dispatch_webhooks_kept:
  assumes "\<And>s. db_webhooks (race s) = db_webhooks s"
  shows "obeys webhooks_kept (dispatch h race row ev)"
proof -
  have race: "obeys webhooks_kept (modify race)"
    using assms by (simp add: obeys_def modify_def webhooks_kept_def)
  have find: "obeys webhooks_kept (find_or_create_payment h e p)" for e p
    unfolding find_or_create_payment_def resolve_customer_def by (intro webhooks_kept_rules)
  have create: "obeys webhooks_kept (create_or_attach_recovery_case race w e p)" for w e p
    unfolding create_or_attach_recovery_case_def attach_case_def verify_if_captured_def
    by (intro webhooks_kept_rules race)
  have st: "obeys webhooks_kept (handle_payment_status h e p)" for e p
    unfolding handle_payment_status_def audit_payment_def by (intro webhooks_kept_rules find)
  have f: "obeys webhooks_kept (handle_payment_failed h race w e)" for w e
    unfolding handle_payment_failed_def audit_payment_def by (intro webhooks_kept_rules find create)
  have c: "obeys webhooks_kept (handle_payment_captured h w e)" for w e
    unfolding handle_payment_captured_def audit_payment_def by (intro webhooks_kept_rules find)
  show ?thesis
    by (cases ev) (auto simp: dispatch_def handle_payment_refunded_def st f c
        split: DomainEventType.split intro!: webhooks_kept_rules)
qed

lemma handle_event_webhook:
  assumes race: "\<And>s. db_webhooks (race s) = db_webhooks s"
    and w: "get_webhook s (wh_id row) = Some w" and run: "handle_event h race row s = (r, t)"
  shows "case r of
      Inr fs \<Rightarrow> \<exists>w'. get_webhook t (wh_id row) = Some w' \<and> wh_status w' = Hook_PROCESSED
    | Inl e \<Rightarrow> get_webhook t (wh_id row) = Some w"
proof (cases "get_merchant s (wh_merchant_id row)")
  case None
  with run w show ?thesis by (auto simp: handle_event_def prog_simps)
next
  case (Some m)
  show ?thesis
  proof (cases "normalize_provider_event h (provider_event_from_row h row) (wh_id row) (wh_merchant_id row)")
    case (Inl e)
    with run w Some show ?thesis by (auto simp: handle_event_def prog_simps)
  next
    case (Inr ev)
    obtain r1 s1 where d: "dispatch h race row ev s = (r1, s1)" by fastforce
    have "db_webhooks s1 = db_webhooks s"
      using obeysD [OF dispatch_webhooks_kept [OF race] d] by (simp add: webhooks_kept_def)
    then have w1: "get_webhook s1 (wh_id row) = Some w" using w by (simp add: get_webhook_def)
    show ?thesis
    proof (cases r1)
      case (Inl e)
      with run Some Inr d w1 show ?thesis by (auto simp: handle_event_def prog_simps)
    next
      case r1: (Inr fs)
      let ?f = "\<lambda>w. w\<lparr>wh_status := Hook_PROCESSED, wh_processed_at := Some (db_clock s1),
                      wh_error_code := None\<rparr>"
      obtain a where "t = s1\<lparr>db_webhooks := update_row wh_id (wh_id row) ?f (db_webhooks s1), db_audit := a\<rparr>"
        and "r = Inr fs"
        using run Some Inr d r1 by (auto simp: handle_event_def prog_simps update_webhook_def)
      then have "get_webhook t (wh_id row) = Some (?f w)"
        using w1 get_webhook_update [where f = ?f and s = s1 and i = "wh_id row" and j = "wh_id row"] by simp
      with \<open>r = Inr fs\<close> show ?thesis by simp
    qed
  qed
qed

lemma mark_failure_run:
  assumes "get_webhook s (wh_id row) = Some w" and "e \<noteq> IntegrityError"
  obtains t w' where "mark_failure row e dead s = (Inr (), t)" "get_webhook t (wh_id row) = Some w'"
    "wh_status w' = (if dead then Hook_DEAD_LETTER else Hook_FAILED)"
proof -
  let ?st = "if dead then Hook_DEAD_LETTER else Hook_FAILED"
  let ?f = "\<lambda>w. w\<lparr>wh_error_code := Some (take 64 (error_code e)), wh_status := ?st\<rparr>"
  obtain a where "mark_failure row e dead s = (Inr (),
      s\<lparr>db_webhooks := update_row wh_id (wh_id row) ?f (db_webhooks s), db_audit := a\<rparr>)"
    using assms(2) by (auto simp: mark_failure_def prog_simps update_webhook_def Let_def)
  moreover have "get_webhook (s\<lparr>db_webhooks := update_row wh_id (wh_id row) ?f (db_webhooks s),
      db_audit := a\<rparr>) (wh_id row) = Some (?f w)"
    using assms(1) get_webhook_update [where f = ?f and s = s and i = "wh_id row" and j = "wh_id row"] by simp
  ultimately show ?thesis by (rule that) simp
qed

lemma process_webhook_event_run:
  assumes race: "\<And>s. db_webhooks (race s) = db_webhooks s"
    and w: "get_webhook s wid = Some row" and run: "process_webhook_event h race wid s = (r, t)"
  defines "started \<equiv> s\<lparr>db_webhooks := update_row wh_id wid (\<lambda>x. x\<lparr>wh_status := Hook_PROCESSING\<rparr>)
             (db_webhooks s)\<rparr>"
  shows "(wh_status row = Hook_PROCESSED \<longrightarrow> t = s \<and> r = Inr (''already_processed'', []))
    \<and> (wh_status row = Hook_DEAD_LETTER \<longrightarrow> t = s \<and> r = Inr (''dead_letter'', []))
    \<and> (wh_status row \<notin> {Hook_PROCESSED, Hook_DEAD_LETTER} \<longrightarrow>
         (\<exists>r2 s2. handle_event h race row started = (r2, s2) \<and> (case r2 of
            Inr fs \<Rightarrow> r = Inr (''processed'', fs)
              \<and> (\<exists>w'. get_webhook t wid = Some w' \<and> wh_status w' = Hook_PROCESSED)
          | Inl e \<Rightarrow>
              if is_domain_error e \<and> \<not> is_retryable e
              then r = Inr (''dead_letter'', [])
                \<and> (\<exists>w'. get_webhook t wid = Some w' \<and> wh_status w' = Hook_DEAD_LETTER)
              else if e = IntegrityError then r = Inl PendingRollbackError
              else r = Inl e
                \<and> (\<exists>w'. get_webhook t wid = Some w' \<and> wh_status w' = Hook_FAILED))))"
proof (cases "wh_status row \<in> {Hook_PROCESSED, Hook_DEAD_LETTER}")
  case True
  with w run show ?thesis by (auto simp: process_webhook_event_def prog_simps split: if_splits)
next
  case False
  have i: "wh_id row = wid" using w by (auto simp: get_webhook_def dest: find_row_Some_key)
  let ?f = "\<lambda>r. r\<lparr>wh_status := Hook_PROCESSING\<rparr>"
  have w1: "get_webhook started (wh_id row) = Some (?f row)"
    unfolding started_def using w i get_webhook_update [where f = ?f and s = s and i = wid and j = wid] by simp
  obtain r2 s2 where h: "handle_event h race row started = (r2, s2)" by fastforce
  note life = handle_event_webhook [OF race w1 h]
  show ?thesis
  proof (cases r2)
    case (Inr fs)
    then have "r = Inr (''processed'', fs)" "t = s2"
      using run w False h
      by (auto simp: process_webhook_event_def prog_simps update_webhook_def started_def)
    with life Inr False i h show ?thesis by auto
  next
    case (Inl e)
    then have w2: "get_webhook s2 (wh_id row) = Some (?f row)" using life by simp
    let ?dead = "is_domain_error e \<and> \<not> is_retryable e"
    have run2: "process_webhook_event h race wid s = (if ?dead
        then seqp (mark_failure row e True) (ret (''dead_letter'', []))
        else seqp (mark_failure row e False) (raise e)) s2"
      using w False h Inl
      by (auto simp: process_webhook_event_def prog_simps update_webhook_def started_def)
    show ?thesis
    proof (cases "e = IntegrityError")
      case True
      with run run2 Inl False h show ?thesis by (auto simp: mark_failure_def prog_simps)
    next
      case ne: False
      obtain t' w' where m: "mark_failure row e ?dead s2 = (Inr (), t')"
        "get_webhook t' (wh_id row) = Some w'"
        "wh_status w' = (if ?dead then Hook_DEAD_LETTER else Hook_FAILED)"
        using mark_failure_run [OF w2 ne] by blast
      then have "t = t' \<and> r = (if ?dead then Inr (''dead_letter'', []) else Inl e)"
        using run run2 by (auto simp: prog_simps split: if_splits)
      with m False ne i h Inl show ?thesis by auto
    qed
  qed
qed

lemma processed_event_status:
  assumes "\<And>s. db_webhooks (race s) = db_webhooks s" and "get_webhook s wid = Some row"
    and "process_webhook_event h race wid s = (Inr (m, fs), t)"
    and "wh_status row \<notin> {Hook_PROCESSED, Hook_DEAD_LETTER}"
  obtains w' where "get_webhook t wid = Some w'"
    "m = ''processed'' \<and> wh_status w' = Hook_PROCESSED
     \<or> m = ''dead_letter'' \<and> fs = [] \<and> wh_status w' = Hook_DEAD_LETTER"
proof -
  from process_webhook_event_run [OF assms(1-3)] assms(4) obtain r2 s2 where
    "handle_event h race row (s\<lparr>db_webhooks := update_row wh_id wid
       (\<lambda>x. x\<lparr>wh_status := Hook_PROCESSING\<rparr>) (db_webhooks s)\<rparr>) = (r2, s2)" and
    c: "case r2 of
       Inr fs' \<Rightarrow> (Inr (m, fs) :: (string \<times> FollowUpJob list) res) = Inr (''processed'', fs')
         \<and> (\<exists>w'. get_webhook t wid = Some w' \<and> wh_status w' = Hook_PROCESSED)
     | Inl e \<Rightarrow>
         if is_domain_error e \<and> \<not> is_retryable e
         then (Inr (m, fs) :: (string \<times> FollowUpJob list) res) = Inr (''dead_letter'', [])
           \<and> (\<exists>w'. get_webhook t wid = Some w' \<and> wh_status w' = Hook_DEAD_LETTER)
         else if e = IntegrityError then (Inr (m, fs) :: (string \<times> FollowUpJob list) res) = Inl PendingRollbackError
         else (Inr (m, fs) :: (string \<times> FollowUpJob list) res) = Inl e
           \<and> (\<exists>w'. get_webhook t wid = Some w' \<and> wh_status w' = Hook_FAILED)"
    by blast
  from c show thesis by (cases r2) (auto split: if_splits intro: that)
qed

text \<open>
  C17. \<^bold>\<open>What processing makes of a stored event.\<close> A finished event (processed or dead-lettered) is
  never processed again: the run answers with that status, without follow-ups, and changes nothing.
  Any other event is handled once; let \<open>r2\<close> be what its handling gives. When it succeeds the row is
  processed and its follow-ups are returned. When it fails with a permanent domain error the run
  still returns, with the row in the dead letter queue and no follow-ups. On any other failure an
  exception is passed on: the same one, with the row marked failed in the open transaction, or, when
  a flush had failed and left the session unusable, \<open>PendingRollbackError\<close>. (The caller rolls back
  on an exception, so the failed mark is not seen outside: \<open>event_job_outcome\<close> in \<open>Worker\<close>.)
\<close>

theorem process_webhook_event_life:
  assumes race: "\<And>s. db_webhooks (race s) = db_webhooks s"
    and w: "get_webhook s wid = Some row" and run: "process_webhook_event h race wid s = (r, t)"
  defines "started \<equiv> s\<lparr>db_webhooks := update_row wh_id wid (\<lambda>x. x\<lparr>wh_status := Hook_PROCESSING\<rparr>)
             (db_webhooks s)\<rparr>"
  shows "(wh_status row = Hook_PROCESSED \<longrightarrow> t = s \<and> r = Inr (''already_processed'', []))
    \<and> (wh_status row = Hook_DEAD_LETTER \<longrightarrow> t = s \<and> r = Inr (''dead_letter'', []))
    \<and> (wh_status row \<notin> {Hook_PROCESSED, Hook_DEAD_LETTER} \<longrightarrow>
         (\<exists>r2 s2. handle_event h race row started = (r2, s2) \<and> (case r2 of
            Inr fs \<Rightarrow> r = Inr (''processed'', fs)
              \<and> (\<exists>w'. get_webhook t wid = Some w' \<and> wh_status w' = Hook_PROCESSED)
          | Inl e \<Rightarrow>
              if is_domain_error e \<and> \<not> is_retryable e
              then r = Inr (''dead_letter'', [])
                \<and> (\<exists>w'. get_webhook t wid = Some w' \<and> wh_status w' = Hook_DEAD_LETTER)
              else if e = IntegrityError then r = Inl PendingRollbackError
              else r = Inl e
                \<and> (\<exists>w'. get_webhook t wid = Some w' \<and> wh_status w' = Hook_FAILED))))"
  unfolding started_def using process_webhook_event_run [OF race w run] .

theorem process_webhook_event_life_witness:
  "\<exists>r t r2 s2. process_webhook_event demo_host id 50 webhook_db = (r, t)
     \<and> handle_event demo_host id failed_event (webhook_db\<lparr>db_webhooks
          := [failed_event\<lparr>wh_status := Hook_PROCESSING\<rparr>]\<rparr>) = (r2, s2)
     \<and> (case r2 of Inr fs \<Rightarrow> r = Inr (''processed'', fs)
        | Inl e \<Rightarrow> r \<in> {Inr (''dead_letter'', []), Inl PendingRollbackError, Inl e})"
proof -
  obtain r t where run: "process_webhook_event demo_host id 50 webhook_db = (r, t)" by fastforce
  have w: "get_webhook webhook_db 50 = Some failed_event"
    by (simp add: get_webhook_def webhook_db_def find_row_def failed_event_def)
  have st: "wh_status failed_event \<notin> {Hook_PROCESSED, Hook_DEAD_LETTER}"
    and rows: "update_row wh_id 50 (\<lambda>x. x\<lparr>wh_status := Hook_PROCESSING\<rparr>) (db_webhooks webhook_db)
      = [failed_event\<lparr>wh_status := Hook_PROCESSING\<rparr>]"
    by (simp_all add: failed_event_def webhook_db_def update_row_def)
  from process_webhook_event_life [OF _ w run] st obtain r2 s2 where
    "handle_event demo_host id failed_event (webhook_db\<lparr>db_webhooks
       := [failed_event\<lparr>wh_status := Hook_PROCESSING\<rparr>]\<rparr>) = (r2, s2)"
    "case r2 of Inr fs \<Rightarrow> r = Inr (''processed'', fs)
       | Inl e \<Rightarrow> r \<in> {Inr (''dead_letter'', []), Inl PendingRollbackError, Inl e}"
    unfolding rows by (fastforce split: sum.splits if_splits)
  with run show ?thesis by blast
qed

subsection \<open>Payment status\<close>

text \<open>
  \<^bold>\<open>Out-of-order payment events.\<close> A captured payment stays captured whatever event arrives later,
  except a refund. A refunded payment stays refunded under every event except a capture: the guard
  names that a downgrade, but the capture branch assigns the status again and the refund is lost.
\<close>

theorem payment_status_order:
  "(pay_status p = Pay_CAPTURED \<and> st \<in> {Pay_CREATED, Pay_AUTHORIZED, Pay_FAILED, Pay_CANCELLED, Pay_CAPTURED}
      \<longrightarrow> pay_status (apply_event_to_payment ev st p) = Pay_CAPTURED)
   \<and> (pay_status p = Pay_REFUNDED \<and> st \<noteq> Pay_CAPTURED
      \<longrightarrow> pay_status (apply_event_to_payment ev st p) = Pay_REFUNDED)
   \<and> (pay_status p = Pay_REFUNDED \<longrightarrow> is_status_downgrade (pay_status p) Pay_CAPTURED
        \<and> pay_status (apply_event_to_payment ev Pay_CAPTURED p) = Pay_CAPTURED)"
  by (auto simp: is_status_downgrade_def)

theorem payment_status_order_witness:
  "\<exists>ev. pay_status (apply_event_to_payment ev Pay_CAPTURED (demo_payment\<lparr>pay_status := Pay_REFUNDED\<rparr>))
     = Pay_CAPTURED \<and> is_status_downgrade Pay_REFUNDED Pay_CAPTURED"
  using payment_status_order [of "demo_payment\<lparr>pay_status := Pay_REFUNDED\<rparr>" Pay_CAPTURED ev] by simp

subsection \<open>A failed payment gets exactly one case\<close>

lemma open_case_ids:
  assumes "list_open_for_payment s m pid = c # cs" and "db_ok s"
  shows "list_open_for_payment s m pid = [c]"
  using db_ok_unique_open [OF assms(2), of m pid] assms(1) by (cases cs) auto

lemma list_open_same: "db_cases t = db_cases s \<Longrightarrow> list_open_for_payment t m p = list_open_for_payment s m p"
  by (simp add: list_open_for_payment_def)

lemma insert_failed_case:
  assumes "payment_ok p" and "pay_id p = pid" and "ev_merchant_id ev = m"
  shows "insert_case (new_failed_case wid ev p) s =
    (if list_open_for_payment s m pid = []
     then (Inr (db_next_uuid s), s\<lparr>db_next_uuid := Suc (db_next_uuid s),
             db_cases := db_cases s @ [new_failed_case wid ev p (db_next_uuid s) (db_clock s)]\<rparr>)
     else (Inl IntegrityError, s\<lparr>db_next_uuid := Suc (db_next_uuid s)\<rparr>))"
proof -
  have "(\<exists>c \<in> set (db_cases s). same_open_subject (new_failed_case wid ev p k t) c)
      \<longleftrightarrow> list_open_for_payment s m pid \<noteq> []" for k t
    using assms(2,3)
    by (auto simp: same_open_subject_def new_failed_case_def list_open_for_payment_def filter_empty_conv)
  moreover have "\<not> rc_amount_at_risk (new_failed_case wid ev p k t) < 0" for k t
    using assms(1) by (simp add: new_failed_case_def payment_ok_def)
  ultimately show ?thesis
    by (simp add: insert_case_def uuid4_def prog_simps)
qed

text \<open>The follow-up that verifies a case whose payment is already captured.\<close>

definition verify_jobs :: "Payment \<Rightarrow> uuid \<Rightarrow> uuid \<Rightarrow> FollowUpJob list" where
  "verify_jobs p k wid = (if pay_status p = Pay_CAPTURED then [queue_verify k (pay_id p) wid] else [])"

lemma attach_case_eval:
  assumes "session_get_payment s pid = Some p"
  obtains t where "attach_case m c pid wid s = (Inr (verify_jobs p (rc_id c) wid), t)"
    "db_cases t = db_cases s"
proof -
  have "pay_id p = pid"
    using assms by (auto simp: session_get_payment_def dest: find_row_Some_key)
  then show ?thesis
    using assms that
    by (auto simp: attach_case_def verify_if_captured_def prog_simps verify_jobs_def
        record_audit_eval session_get_payment_def)
qed


definition demo_payment_event :: DomainPaymentEvent where
  "demo_payment_event = \<lparr>ev_event_type = PAYMENT_FAILED, ev_provider = ''SIMULATOR'',
     ev_provider_event_id = ''evt_1'', ev_webhook_event_id = 50, ev_merchant_id = 1,
     ev_occurred_at = 7, ev_provider_payment_id = ''pay_1'', ev_provider_order_id = None,
     ev_merchant_reference = ''ref'', ev_amount = 4000, ev_currency = ''INR'', ev_status = ''FAILED'',
     ev_failure_code = None, ev_attempt_number = 1, ev_customer_id = Some 2,
     ev_customer_external_id = None, ev_payment_method = None\<rparr>"


end
