(* ===== verification/Ingestion.thy ===== *)
theory Ingestion
  imports Events
begin

text \<open>
  \<^verbatim>\<open>recoverai_domain/ingestion.py\<close>: accepting a provider event exactly once. The queue is seen
  through its one effect here, whether the enqueue call went through (\<open>queue_up\<close>) or raised; the
  job it carries is the identifier of the stored event. \<open>race\<close> is a transaction committing between
  the duplicate check and the insert. The lemmas show that an event is stored once under its
  provider and event id however often it is delivered, that no secret of the payload is stored, and
  when a duplicate is queued again.
\<close>

subsection \<open>Definitions\<close>

record IngestResult =
  ir_webhook_event_id :: uuid
  ir_event_id :: string
  ir_status :: WebhookEventStatus
  ir_duplicate :: bool
  ir_queued :: bool
  ir_merchant_id :: uuid

definition BLOCKED_KEYS :: "string list" where
  "BLOCKED_KEYS = [''authorization'', ''signature'', ''secret'', ''api_key'', ''key_secret'',
     ''webhook_secret'']"

definition safe_payload :: "dict \<Rightarrow> dict" where
  "safe_payload payload = filter (\<lambda>(key, v). lower key \<notin> set BLOCKED_KEYS) payload"

definition validate :: "ProviderEvent \<Rightarrow> unit res" where
  "validate event =
     (if strip (pv_event_id event) = [] then Inl (IngestionError ''INVALID_PROVIDER_EVENT'' 400)
      else if strip (pv_event_type event) = [] then
        Inl (IngestionError ''INVALID_PROVIDER_EVENT'' 400)
      else if pv_provider_resource_id event = []
              \<and> \<not> truthy (dict_get (pv_payload event) ''provider_payment_id'')
              \<and> pv_event_type event \<in> {''payment.failed'', ''payment.captured'', ''payment.refunded''}
      then Inl (IngestionError ''INVALID_PAYMENT_REFERENCE'' 400)
      else Inr ())"

definition should_requeue :: "WebhookEventStatus \<Rightarrow> bool" where
  "should_requeue st \<longleftrightarrow> st \<in> {Hook_RECEIVED, Hook_PROCESSING, Hook_FAILED}"

definition handle_duplicate :: "bool \<Rightarrow> WebhookEvent \<Rightarrow> IngestResult dbprog" where
  "handle_duplicate queue_up existing =
     seqp (record_audit (wh_merchant_id existing) Aud_DUPLICATE_EVENT_IGNORED None Actor_SYSTEM
             (Some ''ingest_duplicate'') None (Some (webhook_status_value (wh_status existing)))
             (Some (wh_provider existing @ '':'' @ wh_event_id existing)))
          (ret \<lparr>ir_webhook_event_id = wh_id existing, ir_event_id = wh_event_id existing,
                ir_status = wh_status existing, ir_duplicate = True,
                ir_queued = (should_requeue (wh_status existing) \<and> queue_up),
                ir_merchant_id = wh_merchant_id existing\<rparr>)"

definition stored_payload :: "ProviderEvent \<Rightarrow> dict" where
  "stored_payload event =
     (let payload = safe_payload (pv_payload event) in
      if ''occurred_at'' \<notin> fst ` set payload
      then dict_set ''occurred_at'' (JTime (pv_occurred_at event)) payload else payload)"

definition insert_webhook :: "(uuid \<Rightarrow> timestamp \<Rightarrow> WebhookEvent) \<Rightarrow> WebhookEvent dbprog" where
  "insert_webhook row =
     bind uuid4 (\<lambda>k.
     bind now (\<lambda>t. (\<lambda>s.
       if \<exists>w \<in> set (db_webhooks s). wh_provider w = wh_provider (row k t)
            \<and> wh_event_id w = wh_event_id (row k t)
       then (Inl IntegrityError, s)
       else (Inr (row k t), s\<lparr>db_webhooks := db_webhooks s @ [row k t]\<rparr>))))"

definition new_webhook :: "ProviderEvent \<Rightarrow> uuid \<Rightarrow> uuid \<Rightarrow> timestamp \<Rightarrow> WebhookEvent" where
  "new_webhook event merchant_id k t =
     \<lparr>wh_id = k, wh_merchant_id = merchant_id,
      wh_provider = (if pv_provider event = [] then ''SIMULATOR'' else pv_provider event),
      wh_event_id = pv_event_id event, wh_event_type = pv_event_type event,
      wh_signature_valid = pv_signature_valid event, wh_status = Hook_RECEIVED,
      wh_payload = stored_payload event, wh_received_at = t, wh_processed_at = None,
      wh_error_code = None\<rparr>"

definition ingest ::
  "(db \<Rightarrow> db) \<Rightarrow> bool \<Rightarrow> ProviderEvent \<Rightarrow> uuid \<Rightarrow> IngestResult dbprog" where
  "ingest race queue_up event merchant_id =
     seqp (lift (validate event))
     (bind (gets (\<lambda>s. get_merchant s merchant_id)) (\<lambda>merchant.
        case merchant of
          None \<Rightarrow> raise (IngestionError ''MISSING_MERCHANT'' 404)
        | Some _ \<Rightarrow>
            bind (gets (\<lambda>s. get_by_provider_event_id s (pv_provider event) (pv_event_id event)))
              (\<lambda>existing.
              case existing of
                Some w \<Rightarrow> handle_duplicate queue_up w
              | None \<Rightarrow>
                  bind (catch
                    (seqp (modify race)
                      (bind (insert_webhook (new_webhook event merchant_id)) (\<lambda>w. ret (Some w))))
                    (\<lambda>e. if e = IntegrityError then ret None else raise e)) (\<lambda>created.
                    case created of
                      None \<Rightarrow>
                        bind (gets (\<lambda>s. get_by_provider_event_id s (pv_provider event)
                                          (pv_event_id event))) (\<lambda>again.
                          case again of
                            None \<Rightarrow> raise IntegrityError
                          | Some w \<Rightarrow> handle_duplicate queue_up w)
                    | Some w \<Rightarrow>
                        seqp (record_audit merchant_id Aud_PROVIDER_EVENT_RECEIVED None Actor_SYSTEM
                                (Some ''ingest'') None (Some (webhook_status_value Hook_RECEIVED))
                                (Some (pv_provider event @ '':'' @ pv_event_id event)))
                             (ret \<lparr>ir_webhook_event_id = wh_id w, ir_event_id = pv_event_id event,
                                   ir_status = Hook_RECEIVED, ir_duplicate = False,
                                   ir_queued = queue_up, ir_merchant_id = merchant_id\<rparr>)))))"

subsection \<open>Contracts\<close>

lemma insert_webhook_no_credit: "obeys (db_evolves case_no_credit) (insert_webhook row)"
proof -
  have "obeys (db_evolves case_no_credit) (\<lambda>s.
       if \<exists>w \<in> set (db_webhooks s). wh_provider w = wh_provider (row k t) \<and> wh_event_id w = wh_event_id (row k t)
       then (Inl IntegrityError, s)
       else (Inr (row k t), s\<lparr>db_webhooks := db_webhooks s @ [row k t]\<rparr>))" for k t
    by (auto simp: obeys_def db_evolves_def get_case_unscoped_def no_credit.K_refl)
  then show ?thesis unfolding insert_webhook_def by (intro no_credit_rules)
qed

lemma ingest_no_credit:
  assumes "\<And>s. db_evolves case_no_credit s (race s)"
  shows "obeys (db_evolves case_no_credit) (ingest race up event m)"
proof -
  have "obeys (db_evolves case_no_credit) (modify race)"
    using assms by (simp add: obeys_def modify_def)
  then show ?thesis
    unfolding ingest_def handle_duplicate_def by (intro no_credit_rules insert_webhook_no_credit)
qed

lemma keeps_ok_ingest:
  assumes "\<And>s. db_ok s \<Longrightarrow> db_ok (race s)"
  shows "keeps db_ok (ingest race up event m) (\<lambda>_. True)"
proof -
  have race: "keeps db_ok (modify race) (\<lambda>_. True)"
    using assms by (simp add: keeps_def modify_def)
  have "keeps db_ok (insert_webhook row) (\<lambda>_. True)" for row
    by (rule keeps_ok_same) (auto simp: insert_webhook_def uuid4_def prog_simps split: if_splits)
  then show ?thesis
    unfolding ingest_def handle_duplicate_def by (intro ok_rules race)
qed

subsection \<open>Secrets\<close>

lemma stored_payload_keys:
  assumes "(k, v) \<in> set (stored_payload event)"
  shows "lower k \<notin> set BLOCKED_KEYS"
proof -
  have "lower ''occurred_at'' \<notin> set BLOCKED_KEYS" by code_simp
  moreover have keys: "(k, v) \<in> set (dict_set a x d) \<Longrightarrow> (k, v) \<in> set d \<or> k = a" for a x d
    by (induction d) (auto split: if_splits)
  ultimately show ?thesis
    using assms by (auto simp: stored_payload_def safe_payload_def Let_def split: if_splits dest!: keys)
qed

lemma stored_payload_get:
  assumes "lower k \<notin> set BLOCKED_KEYS"
  shows "dict_get (stored_payload event) k =
    (if k = ''occurred_at'' \<and> k \<notin> fst ` set (pv_payload event) then JTime (pv_occurred_at event)
     else dict_get (pv_payload event) k)"
proof -
  have kept: "map_of (safe_payload d) k = map_of d k" for d
    using assms by (induction d) (auto simp: safe_payload_def)
  have "lower ''occurred_at'' \<notin> set BLOCKED_KEYS" by code_simp
  then have "''occurred_at'' \<in> fst ` set (safe_payload d) \<longleftrightarrow> ''occurred_at'' \<in> fst ` set d" for d
    by (force simp: safe_payload_def)
  moreover have "dict_get (dict_set a x d) b = (if b = a then x else dict_get d b)" for a b x d
    by (induction d) (auto simp: dict_get_def)
  ultimately show ?thesis
    using kept by (auto simp: stored_payload_def Let_def dict_get_def)
qed

text \<open>
  C23. \<^bold>\<open>Credentials at the top level of a payload are not stored.\<close> Take any row that a delivery adds
  to the table of events (one that neither was there nor was added by a concurrent transaction). No
  top-level key of its payload is, in any letter case, \<open>authorization\<close>, \<open>signature\<close>, \<open>secret\<close>,
  \<open>api_key\<close>, \<open>key_secret\<close> or \<open>webhook_secret\<close>. Every other top-level entry is stored with the value it
  came with, whatever that value contains, and the time of the event is added when the payload
  does not say it.
\<close>

theorem stored_payload_safe:
  assumes "ingest race up event m s = (r, t)" and "w \<in> set (db_webhooks t)"
    and "w \<notin> set (db_webhooks s)" and "w \<notin> set (db_webhooks (race s))"
  shows "(\<forall>(k, v) \<in> set (wh_payload w). lower k \<notin> {''authorization'', ''signature'', ''secret'',
            ''api_key'', ''key_secret'', ''webhook_secret''})
    \<and> (\<forall>k. lower k \<notin> {''authorization'', ''signature'', ''secret'', ''api_key'', ''key_secret'',
            ''webhook_secret''} \<longrightarrow>
         dict_get (wh_payload w) k =
           (if k = ''occurred_at'' \<and> k \<notin> fst ` set (pv_payload event)
            then JTime (pv_occurred_at event) else dict_get (pv_payload event) k))"
proof -
  have keys: "set BLOCKED_KEYS = {''authorization'', ''signature'', ''secret'', ''api_key'',
      ''key_secret'', ''webhook_secret''}"
    by (simp add: BLOCKED_KEYS_def)
  have "wh_payload w = stored_payload event"
    using assms
    by (auto simp: ingest_def prog_simps insert_webhook_def uuid4_def new_webhook_def
        handle_duplicate_def split: sum.splits option.splits if_splits prod.splits)
  then show ?thesis
    unfolding keys [symmetric] using stored_payload_keys stored_payload_get by auto
qed

definition demo_event :: ProviderEvent where
  "demo_event = \<lparr>pv_provider = ''SIMULATOR'', pv_event_id = ''evt_1'', pv_event_type = ''payment.failed'',
     pv_occurred_at = 7, pv_provider_resource_id = ''pay_1'', pv_merchant_reference = ''ref'',
     pv_payload = [(''Secret'', JStr ''x''), (''amount'', JInt 5)], pv_signature_valid = Some True\<rparr>"

theorem stored_payload_safe_witness:
  "\<exists>r t w. ingest id True demo_event 1 demo_db = (r, t) \<and> w \<in> set (db_webhooks t)
     \<and> dict_get (wh_payload w) ''amount'' = JInt 5 \<and> ''Secret'' \<notin> fst ` set (wh_payload w)"
proof -
  have v: "validate demo_event = Inr ()" by code_simp
  obtain r t where run: "ingest id True demo_event 1 demo_db = (r, t)" by fastforce
  then obtain w where w: "w \<in> set (db_webhooks t)" "w \<notin> set (db_webhooks demo_db)"
    by (auto simp: ingest_def bind_eval prog_eval v get_merchant_def demo_db_def demo_merchant_def
        find_row_def get_by_provider_event_id_def insert_webhook_def uuid4_def now_eval
        record_audit_eval)
  have low: "lower ''amount'' = ''amount''" "lower ''Secret'' = ''secret''" by code_simp+
  have "dict_get (pv_payload demo_event) ''amount'' = JInt 5"
    by (simp add: dict_get_def demo_event_def)
  then have "dict_get (wh_payload w) ''amount'' = JInt 5" "''Secret'' \<notin> fst ` set (wh_payload w)"
    using stored_payload_safe [where race = id, OF run w] w(2) low by (fastforce simp: low)+
  with run w(1) show ?thesis by blast
qed

subsection \<open>Exactly once\<close>

definition event_keys_unique :: "db \<Rightarrow> bool" where
  "event_keys_unique s \<longleftrightarrow> distinct (map (\<lambda>w. (wh_provider w, wh_event_id w)) (db_webhooks s))"

lemma event_keys_insert:
  assumes "event_keys_unique s" and "insert_webhook row s = (r, t)"
  shows "event_keys_unique t"
  using assms
  by (simp add: insert_webhook_def uuid4_def prog_simps event_keys_unique_def split: if_splits) (clarsimp; force)+

lemma find_by_key_append:
  assumes "\<not> (\<exists>w \<in> set ws. P w)" and "P x"
  shows "find P (ws @ [x]) = Some x"
  using assms by (induction ws) auto

lemma insert_webhook_found:
  assumes "insert_webhook (new_webhook event m) s = (Inr w, t)" and "pv_provider event \<noteq> []"
  shows "get_by_provider_event_id t (pv_provider event) (pv_event_id event) = Some w"
  using assms
  by (auto simp: insert_webhook_def uuid4_def prog_simps get_by_provider_event_id_def new_webhook_def
      split: if_splits intro!: find_by_key_append)

lemma handle_duplicate_run:
  "\<exists>a. handle_duplicate up w s = (Inr \<lparr>ir_webhook_event_id = wh_id w, ir_event_id = wh_event_id w,
     ir_status = wh_status w, ir_duplicate = True, ir_queued = (should_requeue (wh_status w) \<and> up),
     ir_merchant_id = wh_merchant_id w\<rparr>, s\<lparr>db_audit := a\<rparr>)"
  by (auto simp: handle_duplicate_def prog_simps)

lemma ingest_duplicate:
  assumes "validate event = Inr ()" "get_merchant s m \<noteq> None"
    and "get_by_provider_event_id s (pv_provider event) (pv_event_id event) = Some w"
  shows "ingest race up event m s = handle_duplicate up w s"
  using assms by (auto simp: ingest_def bind_eval prog_eval)

lemma ingest_new:
  assumes "validate event = Inr ()" "get_merchant s m \<noteq> None"
    and "get_by_provider_event_id s (pv_provider event) (pv_event_id event) = None"
    and "insert_webhook (new_webhook event m) (race s) = (Inr w, s1)"
  shows "\<exists>a. ingest race up event m s = (Inr \<lparr>ir_webhook_event_id = wh_id w,
      ir_event_id = pv_event_id event, ir_status = Hook_RECEIVED, ir_duplicate = False,
      ir_queued = up, ir_merchant_id = m\<rparr>, s1\<lparr>db_audit := a\<rparr>)"
  using assms by (auto simp: ingest_def bind_def catch_def seqp_def lift_def gets_def ret_def modify_def
      record_audit_eval)

lemma ingest_lost:
  assumes "validate event = Inr ()" "get_merchant s m \<noteq> None"
    and "get_by_provider_event_id s (pv_provider event) (pv_event_id event) = None"
    and "insert_webhook (new_webhook event m) (race s) = (Inl IntegrityError, s1)"
  shows "ingest race up event m s =
    (case get_by_provider_event_id s1 (pv_provider event) (pv_event_id event) of
       None \<Rightarrow> (Inl IntegrityError, s1) | Some w \<Rightarrow> handle_duplicate up w s1)"
  using assms by (auto simp: ingest_def bind_def catch_def seqp_def lift_def gets_def ret_def modify_def
      raise_def split: option.split)

text \<open>What the first delivery leaves: the stored event, whichever transaction stored it.\<close>

lemma ingest_stored:
  assumes run: "ingest race up event m s = (Inr res, t)" and prov: "pv_provider event \<noteq> []"
    and race: "\<And>x. db_merchants (race x) = db_merchants x"
      "\<And>x. event_keys_unique x \<Longrightarrow> event_keys_unique (race x)"
  shows "validate event = Inr () \<and> get_merchant t m \<noteq> None
    \<and> (event_keys_unique s \<longrightarrow> event_keys_unique t)
    \<and> (\<exists>w. get_by_provider_event_id t (pv_provider event) (pv_event_id event) = Some w
           \<and> ir_webhook_event_id res = wh_id w)"
proof -
  have same: "get_by_provider_event_id (x\<lparr>db_audit := a\<rparr>) p e = get_by_provider_event_id x p e"
    "get_merchant (x\<lparr>db_audit := a\<rparr>) m = get_merchant x m"
    "event_keys_unique (x\<lparr>db_audit := a\<rparr>) = event_keys_unique x" for x a p e
    by (simp_all add: get_by_provider_event_id_def get_merchant_def event_keys_unique_def)
  have v: "validate event = Inr ()" and mer: "get_merchant s m \<noteq> None"
    using run by (auto simp: ingest_def bind_eval prog_eval split: sum.splits option.splits)
  show ?thesis
  proof (cases "get_by_provider_event_id s (pv_provider event) (pv_event_id event)")
    case (Some w)
    obtain a where "t = s\<lparr>db_audit := a\<rparr>" "ir_webhook_event_id res = wh_id w"
      using run ingest_duplicate [OF v mer Some, of race up] handle_duplicate_run [of up w s] by auto
    with v mer Some same show ?thesis by simp
  next
    case None
    obtain r1 s1 where ins: "insert_webhook (new_webhook event m) (race s) = (r1, s1)" by fastforce
    have mer1: "get_merchant s1 m \<noteq> None"
      using ins mer race(1) by (auto simp: insert_webhook_def uuid4_def prog_simps get_merchant_def split: if_splits)
    have uniq: "event_keys_unique s \<longrightarrow> event_keys_unique s1"
      using event_keys_insert [OF _ ins] race(2) by blast
    from ins consider "r1 = Inl IntegrityError" | w where "r1 = Inr w"
      by (auto simp: insert_webhook_def uuid4_def prog_simps split: if_splits)
    then show ?thesis
    proof cases
      case 1
      obtain w where
        w: "get_by_provider_event_id s1 (pv_provider event) (pv_event_id event) = Some w"
        and h: "handle_duplicate up w s1 = (Inr res, t)"
        using run unfolding ingest_lost [where race = race, OF v mer None ins [unfolded 1]] by (auto split: option.splits)
      obtain a where "t = s1\<lparr>db_audit := a\<rparr>" "ir_webhook_event_id res = wh_id w"
        using h handle_duplicate_run [of up w s1] by auto
      with v mer1 uniq w same show ?thesis by simp
    next
      case 2
      obtain a where "t = s1\<lparr>db_audit := a\<rparr>" "ir_webhook_event_id res = wh_id w"
        using run ingest_new [where up = up and race = race, OF v mer None ins [unfolded 2]] by auto
      with v mer1 uniq same insert_webhook_found [OF ins [unfolded 2] prov] show ?thesis by simp
    qed
  qed
qed

text \<open>
  C18. \<^bold>\<open>Ingestion is exactly once.\<close> Let the event name its provider, and let concurrent transactions
  keep the merchants and the uniqueness of event keys. After the event was accepted it is stored
  under its provider and event id, also when a concurrent delivery won the race; event keys stay
  unique; and every further delivery is reported as a duplicate of the same stored row, stores no
  event, and is queued again exactly when the queue is up and the stored row is received, processing
  or failed.
\<close>

theorem ingest_exactly_once:
  assumes run: "ingest race up event m s = (Inr res, t)" and prov: "pv_provider event \<noteq> []"
    and race: "\<And>x. db_merchants (race x) = db_merchants x"
      "\<And>x. event_keys_unique x \<Longrightarrow> event_keys_unique (race x)"
  shows "(event_keys_unique s \<longrightarrow> event_keys_unique t)
    \<and> (\<exists>w. get_by_provider_event_id t (pv_provider event) (pv_event_id event) = Some w
        \<and> ir_webhook_event_id res = wh_id w
        \<and> (\<forall>race' up'. \<exists>res' t'. ingest race' up' event m t = (Inr res', t') \<and> ir_duplicate res'
             \<and> ir_webhook_event_id res' = wh_id w \<and> db_webhooks t' = db_webhooks t
             \<and> (ir_queued res' \<longleftrightarrow> wh_status w \<in> {Hook_RECEIVED, Hook_PROCESSING, Hook_FAILED} \<and> up')))"
proof -
  obtain w where w: "get_by_provider_event_id t (pv_provider event) (pv_event_id event) = Some w"
      "ir_webhook_event_id res = wh_id w"
    and v: "validate event = Inr ()" "get_merchant t m \<noteq> None"
    and u: "event_keys_unique s \<longrightarrow> event_keys_unique t"
    using ingest_stored [OF assms] by blast
  have "\<exists>res' t'. ingest race' up' event m t = (Inr res', t') \<and> ir_duplicate res'
      \<and> ir_webhook_event_id res' = wh_id w \<and> db_webhooks t' = db_webhooks t
      \<and> (ir_queued res' \<longleftrightarrow> wh_status w \<in> {Hook_RECEIVED, Hook_PROCESSING, Hook_FAILED} \<and> up')"
    for race' up'
    using ingest_duplicate [OF v w(1), of race' up'] handle_duplicate_run [of up' w t]
    by (auto simp: should_requeue_def)
  with w u show ?thesis by blast
qed

theorem ingest_exactly_once_witness:
  "\<exists>res t w. ingest id True demo_event 1 demo_db = (Inr res, t)
     \<and> get_by_provider_event_id t ''SIMULATOR'' ''evt_1'' = Some w
     \<and> (\<exists>res' t'. ingest id False demo_event 1 t = (Inr res', t') \<and> ir_duplicate res'
          \<and> db_webhooks t' = db_webhooks t \<and> \<not> ir_queued res')"
proof -
  have v: "validate demo_event = Inr ()" by code_simp
  have "\<exists>res t. ingest id True demo_event 1 demo_db = (Inr res, t)"
    by (simp add: ingest_def bind_eval prog_eval v get_merchant_def demo_db_def demo_merchant_def
        find_row_def get_by_provider_event_id_def insert_webhook_def uuid4_def now_eval record_audit_eval)
  then obtain res t where run: "ingest id True demo_event 1 demo_db = (Inr res, t)" by blast
  have p: "pv_provider demo_event \<noteq> []" "pv_provider demo_event = ''SIMULATOR''" "pv_event_id demo_event = ''evt_1''"
    by (simp_all add: demo_event_def)
  from ingest_exactly_once [OF run p(1)] obtain w where
    "get_by_provider_event_id t (pv_provider demo_event) (pv_event_id demo_event) = Some w"
    "\<forall>race' up'. \<exists>res' t'. ingest race' up' demo_event 1 t = (Inr res', t') \<and> ir_duplicate res'
             \<and> ir_webhook_event_id res' = wh_id w \<and> db_webhooks t' = db_webhooks t
             \<and> (ir_queued res' \<longleftrightarrow> wh_status w \<in> {Hook_RECEIVED, Hook_PROCESSING, Hook_FAILED} \<and> up')" by auto
  with run show ?thesis unfolding p by blast
qed

end
