(* ===== verification/Worker.thy ===== *)
theory Worker
  imports Verification Processing Ingestion
begin

text \<open>
  \<^verbatim>\<open>recoverai_worker/jobs.py\<close> and \<^verbatim>\<open>recoverai_domain/followups.py\<close>: the transactions around the
  domain services. A job runs one service in a session that is committed when the service returns
  and rolled back when it raises; a processed event leaves follow-up jobs, which are queued, or
  applied at once when the queue is down. The queue library is seen through what the code asks of
  it: whether it will run a failed job again (\<open>RqJob\<close>) and at which of the enqueue calls it breaks.
  A transaction that committed in between (\<open>race\<close>) survives the rollback. The lemmas show that jobs
  keep the invariants of the database, what an event is left as when its job fails, and that
  follow-ups can be lost.
\<close>

subsection \<open>Verification as a job result\<close>

definition to_public_dict :: "RecoveryMatchResult \<Rightarrow> dict" where
  "to_public_dict r =
     [(''matched'', JBool (mr_matched r)), (''case_id'', JStr (str_uuid (mr_case_id r))),
      (''amount_recovered'', JStr (show_money (mr_amount_recovered r))),
      (''currency'', JStr (mr_currency r))]
     @ (case mr_payment_id r of None \<Rightarrow> [] | Some p \<Rightarrow> [(''payment_id'', JStr (str_uuid p))])
     @ (if mr_matched r then [(''reasons'', JList (map JStr (mr_reasons r)))]
        else [(''mismatch_reason'', case mr_mismatch_reason r of
                 None \<Rightarrow> JNull | Some m \<Rightarrow> JStr (mismatch_value m))])"

definition verify_recovery_case ::
  "environ \<Rightarrow> uuid \<Rightarrow> uuid option \<Rightarrow> uuid option \<Rightarrow> dict dbprog" where
  "verify_recovery_case env case_id payment_id webhook_event_id =
     bind (lift (settings_from_env env)) (\<lambda>settings.
     bind (verify_case settings case_id payment_id webhook_event_id Actor_WORKER) (\<lambda>result.
       ret (to_public_dict result)))"

fun apply_followups :: "environ \<Rightarrow> FollowUpJob list \<Rightarrow> dict list dbprog" where
  "apply_followups env [] = ret []"
| "apply_followups env (item # items) =
     bind (if fj_name item = ''process_recovery_case'' then
             bind (process_recovery_case env (fj_case_id item)) (\<lambda>r. ret [r])
           else if fj_name item = ''verify_recovery_case'' then
             bind (verify_recovery_case env (fj_case_id item) (fj_payment_id item)
                     (fj_webhook_event_id item)) (\<lambda>r. ret [r])
           else ret []) (\<lambda>first.
     bind (apply_followups env items) (\<lambda>rest. ret (first @ rest)))"

subsection \<open>Jobs\<close>

text \<open>
  A session: committed when the body returns, rolled back when it raises. The key counter goes back
  too: a key drawn in a transaction that was rolled back is in no table. The body runs as a whole: apart from the
  places where the code expects another commit (each has its own \<open>race\<close>), and what was committed by the time of a
  rollback, other transactions come before or after it.
\<close>

definition transaction :: "(db \<Rightarrow> db) \<Rightarrow> 'a dbprog \<Rightarrow> 'a dbprog" where
  "transaction race body = (\<lambda>s. case body s of
     (Inr x, t) \<Rightarrow> (Inr x, t)
   | (Inl e, t) \<Rightarrow> (Inl e, race s))"

definition domain_job :: "uuid \<Rightarrow> dict \<Rightarrow> dict dbprog \<Rightarrow> dict dbprog" where
  "domain_job case_id extra body =
     catch (transaction id body)
       (\<lambda>e. if is_domain_error e \<and> \<not> is_retryable e
            then ret ([(''status'', JStr ''error''), (''code'', JStr (error_code e)),
                       (''case_id'', JStr (str_uuid case_id))] @ extra)
            else raise e)"

definition process_recovery_case_job :: "environ \<Rightarrow> uuid \<Rightarrow> dict dbprog" where
  "process_recovery_case_job env case_id =
     domain_job case_id [] (process_recovery_case env case_id)"

definition verify_recovery_case_job ::
  "environ \<Rightarrow> uuid \<Rightarrow> uuid option \<Rightarrow> uuid option \<Rightarrow> dict dbprog" where
  "verify_recovery_case_job env case_id payment_id webhook_event_id =
     domain_job case_id [(''matched'', JBool False)]
       (verify_recovery_case env case_id payment_id webhook_event_id)"

text \<open>The queued job the library runs: its \<open>retries_left\<close> when it is an integer, and what its
  \<open>should_retry\<close> answers.\<close>

record RqJob =
  rq_retries_left :: "int option"
  rq_should_retry :: bool

definition will_retry :: "RqJob option \<Rightarrow> bool" where
  "will_retry job = (case job of
     None \<Rightarrow> False
   | Some j \<Rightarrow> (case rq_retries_left j of Some n \<Rightarrow> n > 0 | None \<Rightarrow> rq_should_retry j))"

datatype Job =
    Job_process_provider_event uuid
  | Job_process_recovery_case uuid
  | Job_verify_recovery_case uuid "uuid option" "uuid option"

definition job_of_followup :: "FollowUpJob \<Rightarrow> Job list" where
  "job_of_followup item =
     (if fj_name item = ''process_recovery_case'' then [Job_process_recovery_case (fj_case_id item)]
      else if fj_name item = ''verify_recovery_case''
      then [Job_verify_recovery_case (fj_case_id item) (fj_payment_id item) (fj_webhook_event_id item)]
      else [])"

text \<open>
  The enqueue calls that went through, and whether all did: \<open>breaks_at = Some n\<close> is a queue that
  accepts \<open>n\<close> jobs and then raises.
\<close>

definition enqueue_followups :: "nat option \<Rightarrow> FollowUpJob list \<Rightarrow> Job list \<times> bool" where
  "enqueue_followups breaks_at followups =
     (if followups = [] then ([], True)
      else let jobs = concat (map job_of_followup followups) in
        case breaks_at of None \<Rightarrow> (jobs, True) | Some n \<Rightarrow> (take n jobs, False))"

record world =
  w_db :: db
  w_queue :: "Job list"

definition on_db :: "'a dbprog \<Rightarrow> (world, 'a) prog" where
  "on_db m = (\<lambda>w. case m (w_db w) of (r, t) \<Rightarrow> (r, w\<lparr>w_db := t\<rparr>))"

definition enqueue :: "Job list \<Rightarrow> (world, unit) prog" where
  "enqueue jobs = modify (\<lambda>w. w\<lparr>w_queue := w_queue w @ jobs\<rparr>)"

definition apply_followups_now :: "environ \<Rightarrow> FollowUpJob list \<Rightarrow> unit dbprog" where
  "apply_followups_now env followups =
     transaction id (seqp (apply_followups env followups) (ret ()))"

definition process_provider_event ::
  "Host \<Rightarrow> environ \<Rightarrow> (db \<Rightarrow> db) \<Rightarrow> RqJob option \<Rightarrow> nat option \<Rightarrow> uuid \<Rightarrow>
   (world, string \<times> FollowUpJob list) prog" where
  "process_provider_event h env race current_job breaks_at wid =
     bind (catch
             (on_db (transaction race (process_webhook_event h race wid)))
             (\<lambda>e. seqp (if will_retry current_job then ret ()
                        else on_db (transaction id (mark_dead_letter wid)))
                       (raise e))) (\<lambda>(status, followups).
     let (jobs, ok) = enqueue_followups breaks_at followups in
     seqp (enqueue jobs)
     (seqp (if ok then ret () else on_db (apply_followups_now env followups))
           (ret (status, followups))))"

subsection \<open>Safe operations\<close>

text \<open>
  The contract all state-changing operations share: the database stays well formed, revenue stays
  consistent, cases move only along the lifecycle, and the audit trail only grows.
\<close>

definition sound :: "db \<Rightarrow> bool" where
  "sound s \<longleftrightarrow> db_ok s \<and> credit_ok s"

definition safe :: "'a dbprog \<Rightarrow> bool" where
  "safe m \<longleftrightarrow> keeps sound m (\<lambda>_. True) \<and> obeys (db_evolves case_lifecycle) m"

lemma safeD:
  assumes "safe m" "sound s" "m s = (r, t)"
  shows "sound t" "db_evolves case_lifecycle s t"
  using assms keepsD [of sound m _ s r t] obeysD [of _ m s r t] unfolding safe_def by blast+

lemma safe_no_credit:
  assumes "keeps db_ok m (\<lambda>_. True)" and "obeys (db_evolves case_no_credit) m"
  shows "safe m"
proof -
  have "keeps sound m (\<lambda>_. True)"
  proof (rule keepsI)
    fix s r t
    assume s: "sound s" and run: "m s = (r, t)"
    show "sound t \<and> (\<forall>x. r = Inr x \<longrightarrow> True)"
      using s keepsD [OF assms(1) _ run] credit_ok_no_credit [OF obeysD [OF assms(2) run]]
      by (simp add: sound_def)
  qed
  then show ?thesis using no_credit_lifecycle [OF assms(2)] by (simp add: safe_def)
qed

lemma safe_basic: "safe (ret x)" "safe (raise e)" "safe (lift r)" "safe (gets f)"
  unfolding safe_def by (simp_all add: keeps_ret keeps_raise keeps_lift keeps_gets lifecycle.frame_rules)

lemma safe_bind: "safe m \<Longrightarrow> (\<And>x. safe (f x)) \<Longrightarrow> safe (bind m f)"
  unfolding safe_def by (auto intro: keeps_bind lifecycle.obeys_bind)

lemma safe_seqp: "safe m \<Longrightarrow> safe n \<Longrightarrow> safe (seqp m n)"
  unfolding seqp_def by (rule safe_bind)

lemma safe_if: "(b \<Longrightarrow> safe m) \<Longrightarrow> (\<not> b \<Longrightarrow> safe n) \<Longrightarrow> safe (if b then m else n)"
  by simp

lemma safe_catch: "safe m \<Longrightarrow> (\<And>e. safe (g e)) \<Longrightarrow> safe (catch m g)"
  unfolding safe_def by (auto intro: keeps_catch lifecycle.obeys_catch)

lemmas safe_rules = safe_basic safe_bind safe_seqp safe_if safe_catch

lemma safe_deref: "safe (deref g i)"
  by (intro safe_no_credit keeps_ok_deref no_credit.obeys_deref)

lemma safe_process: "safe (process settings i actor)"
  by (intro safe_no_credit keeps_ok_process process_no_credit)

lemma safe_verify_case: "safe (verify_case settings i pid w actor)"
proof -
  have "keeps sound (verify_case settings i pid w actor) (\<lambda>_. True)"
  proof (rule keepsI)
    fix s r t
    assume "sound s" and run: "verify_case settings i pid w actor s = (r, t)"
    then have "db_ok s" "credit_ok s" by (simp_all add: sound_def)
    with verify_case_cases [OF _ run] credit_ok_mark [of s t] credit_step_credit_ok [of s settings i pid w t]
    show "sound t \<and> (\<forall>x. r = Inr x \<longrightarrow> True)" unfolding sound_def by blast
  qed
  then show ?thesis using verify_case_lifecycle by (simp add: safe_def)
qed

lemma safe_process_recovery_case: "safe (process_recovery_case env i)"
  unfolding process_recovery_case_def by (intro safe_rules safe_process safe_deref)

lemma safe_verify_recovery_case: "safe (verify_recovery_case env i pid w)"
  unfolding verify_recovery_case_def by (intro safe_rules safe_verify_case)

lemma safe_apply_followups: "safe (apply_followups env items)"
proof (induction items)
  case (Cons item items)
  show ?case
    unfolding apply_followups.simps
    by (intro safe_rules Cons safe_process_recovery_case safe_verify_recovery_case)
qed (simp add: safe_basic)

text \<open>A transaction on top of a safe body is safe, whatever committed in between.\<close>

definition safe_race :: "(db \<Rightarrow> db) \<Rightarrow> bool" where
  "safe_race race \<longleftrightarrow> (\<forall>x. (db_ok x \<longrightarrow> db_ok (race x)) \<and> db_evolves case_no_credit x (race x))"

lemma safe_race_id: "safe_race id"
  by (simp add: safe_race_def no_credit.frame_refl)

lemma safe_raceD:
  assumes "safe_race race"
  shows "sound x \<Longrightarrow> sound (race x)" "db_evolves case_lifecycle x (race x)"
proof -
  have r: "db_ok x \<longrightarrow> db_ok (race x)" "db_evolves case_no_credit x (race x)"
    using assms by (simp_all add: safe_race_def)
  show "db_evolves case_lifecycle x (race x)"
    using r(2) by (rule db_evolves_mono) (rule case_no_credit_lifecycle)
  show "sound x \<Longrightarrow> sound (race x)"
    using r credit_ok_no_credit [OF r(2)] by (simp add: sound_def)
qed

lemma transaction_state:
  "transaction race m s = (r, t) \<Longrightarrow> (\<exists>x. r = Inr x \<and> m s = (Inr x, t)) \<or> t = race s"
  by (auto simp: transaction_def split: prod.splits sum.splits)

lemma safe_transaction:
  assumes "safe_race race" "safe m"
  shows "safe (transaction race m)"
proof -
  have "sound s \<longrightarrow> sound t" "db_evolves case_lifecycle s t" if "transaction race m s = (r, t)" for s r t
    using transaction_state [OF that] safe_raceD [OF assms(1), of s] safeD [OF assms(2), of s]
      obeysD [of "db_evolves case_lifecycle" m s] assms(2)
    unfolding safe_def by blast+
  then show ?thesis
    by (simp add: safe_def keeps_def obeys_def prod_eq_iff)
qed

lemma safe_domain_job: "safe m \<Longrightarrow> safe (domain_job i extra m)"
  unfolding domain_job_def by (intro safe_rules safe_transaction safe_race_id)

lemma safe_process_webhook_event:
  assumes "safe_race race"
  shows "safe (process_webhook_event h race wid)"
proof (rule safe_no_credit)
  show "keeps db_ok (process_webhook_event h race wid) (\<lambda>_. True)"
    using assms unfolding process_webhook_event_def handle_event_def mark_failure_def safe_race_def
    by (intro ok_rules keeps_ok_dispatch) blast
  show "obeys (db_evolves case_no_credit) (process_webhook_event h race wid)"
    using assms by (intro process_webhook_event_no_credit) (simp add: safe_race_def)
qed

lemma safe_mark_dead_letter: "safe (mark_dead_letter wid)"
  unfolding mark_dead_letter_def
  by (intro safe_no_credit ok_rules no_credit_rules)
subsection \<open>Worlds\<close>

definition world_ok :: "world \<Rightarrow> world \<Rightarrow> bool" where
  "world_ok v w \<longleftrightarrow> (sound (w_db v) \<longrightarrow> sound (w_db w)) \<and> db_evolves case_lifecycle (w_db v) (w_db w)"

interpretation worlds: step_frame world_ok
  by unfold_locales
     (auto simp: world_ok_def lifecycle.frame_refl intro: lifecycle.frame_trans)

lemma worlds_on_db: "safe m \<Longrightarrow> obeys world_ok (on_db m)"
  using safeD(1) obeysD [of "db_evolves case_lifecycle" m]
  by (auto simp: obeys_def world_ok_def on_db_def safe_def split: prod.splits dest: keepsD)

lemma worlds_enqueue: "obeys world_ok (enqueue jobs)"
  by (simp add: obeys_def world_ok_def enqueue_def modify_def lifecycle.frame_refl)

text \<open>
  \<^bold>\<open>Every job is safe.\<close> Whatever a worker job runs (an event with its follow-ups queued or
  applied, a case, a verification), whether it succeeds, fails and is retried, or is given up,
  whatever transaction commits in between and wherever the queue breaks: the database stays well
  formed, recovered revenue stays consistent, cases move only along the lifecycle and the audit
  trail only grows.
\<close>

theorem jobs_safe:
  assumes race: "safe_race race" and s: "sound s"
  shows "sound (w_db (snd (process_provider_event h env race job breaks wid \<lparr>w_db = s, w_queue = q\<rparr>)))
    \<and> sound (snd (process_recovery_case_job env i s))
    \<and> sound (snd (verify_recovery_case_job env i pid w s))
    \<and> db_evolves case_lifecycle s
        (w_db (snd (process_provider_event h env race job breaks wid \<lparr>w_db = s, w_queue = q\<rparr>)))
    \<and> db_evolves case_lifecycle s (snd (process_recovery_case_job env i s))
    \<and> db_evolves case_lifecycle s (snd (verify_recovery_case_job env i pid w s))"
proof -
  have "obeys world_ok (process_provider_event h env race job breaks wid)"
    unfolding process_provider_event_def apply_followups_now_def
    by (intro worlds.frame_rules worlds_on_db worlds_enqueue safe_transaction race safe_race_id
        safe_process_webhook_event safe_mark_dead_letter safe_rules safe_apply_followups)
  then have "world_ok \<lparr>w_db = s, w_queue = q\<rparr>
      (snd (process_provider_event h env race job breaks wid \<lparr>w_db = s, w_queue = q\<rparr>))"
    by (simp add: obeys_def)
  moreover have "safe (process_recovery_case_job env i)" "safe (verify_recovery_case_job env i pid w)"
    unfolding process_recovery_case_job_def verify_recovery_case_job_def
    by (intro safe_domain_job safe_process_recovery_case safe_verify_recovery_case)+
  moreover have "sound (snd (m s))" "db_evolves case_lifecycle s (snd (m s))" if "safe m" for m :: "dict dbprog"
    using safeD [OF that s prod.collapse [symmetric]] by simp_all
  ultimately show ?thesis
    using s by (simp add: world_ok_def)
qed

theorem jobs_safe_witness:
  "sound verifying_db
   \<and> sound (w_db (snd (process_provider_event demo_host Map.empty id None (Some 0) 50
        \<lparr>w_db = verifying_db, w_queue = []\<rparr>)))
   \<and> sound (snd (verify_recovery_case_job Map.empty 4 (Some 3) (Some 7) verifying_db))"
proof -
  have "sound verifying_db" using verifying_db_ok by (simp add: sound_def)
  then show ?thesis using jobs_safe [OF safe_race_id] by blast
qed

subsection \<open>What a job leaves of its event\<close>

lemma webhooks_kept_more:
  "obeys webhooks_kept (modify (\<lambda>s. s\<lparr>db_actions := f s\<rparr>))"
  "obeys webhooks_kept (modify (\<lambda>s. s\<lparr>db_approvals := g s\<rparr>))"
  "obeys webhooks_kept (modify (\<lambda>s. s\<lparr>db_decisions := d s\<rparr>))"
  "obeys webhooks_kept (modify (\<lambda>s. s\<lparr>db_policy_evaluations := k s\<rparr>))"
  "obeys webhooks_kept (update_case i u)" "obeys webhooks_kept (update_action j v)"
  by (simp_all add: obeys_def webhooks_kept_def modify_def update_case_def update_action_def)

lemmas kept_rules = webhooks_kept_rules webhooks_kept_more

lemma kept_transition: "obeys webhooks_kept (transition_case i target actor v)"
  unfolding transition_case_def by (intro kept_rules)

lemma kept_lock: "obeys webhooks_kept (lock_recovery_case i)"
  unfolding lock_recovery_case_def by (intro kept_rules)

lemma kept_walk: "obeys webhooks_kept (walk_steps i actor steps)"
  by (induction steps) (auto simp: Let_def intro!: kept_rules kept_transition)

lemma kept_planned: "obeys webhooks_kept (record_planned_action i a st r m)"
  unfolding record_planned_action_def insert_action_def insert_decision_def by (intro kept_rules)

lemma kept_act: "obeys webhooks_kept (act_on_verdict i a actor ctx ev)"
  unfolding act_on_verdict_def block_case_def request_approval_def insert_approval_def Let_def
  by (intro kept_rules kept_transition kept_planned)

lemma kept_process: "obeys webhooks_kept (process_locked_case settings i actor)"
  unfolding process_locked_case_def walk_to_policy_check_def select_action_def build_policy_context_def
    evaluate_and_persist_def persist_policy_evaluation_def
  by (intro kept_rules kept_walk kept_act)

lemma kept_settle: "obeys webhooks_kept (settle_match settings i p m w actor)"
  unfolding settle_match_def ensure_verifying_def apply_success_def persist_failure_def audit_amount_def Let_def
  by (intro kept_rules kept_transition kept_process)

lemma kept_verify: "obeys webhooks_kept (verify_case settings i pid w actor)"
  unfolding verify_case_def verify_payment_def persist_failure_def audit_amount_def audit_no_credit_def Let_def
  by (intro kept_rules kept_transition kept_lock kept_settle)

lemma kept_followups: "obeys webhooks_kept (apply_followups env items)"
proof (induction items)
  case (Cons item items)
  have "obeys webhooks_kept (process_recovery_case env i)" for i
    unfolding process_recovery_case_def process_def by (intro kept_rules kept_lock kept_process)
  moreover have "obeys webhooks_kept (verify_recovery_case env i pid w)" for i pid w
    unfolding verify_recovery_case_def by (intro kept_rules kept_verify)
  ultimately show ?case
    unfolding apply_followups.simps by (intro kept_rules Cons)
qed (simp add: webhooks_kept.obeys_ret)

lemma mark_dead_letter_run:
  assumes "get_webhook s wid = Some row" "wh_status row \<noteq> Hook_PROCESSED"
  obtains t w' where "mark_dead_letter wid s = (Inr (), t)" "get_webhook t wid = Some w'"
    "wh_status w' = Hook_DEAD_LETTER"
proof (cases "wh_status row = Hook_DEAD_LETTER")
  case True
  with assms that show ?thesis by (auto simp: mark_dead_letter_def prog_simps)
next
  case False
  let ?f = "\<lambda>r. r\<lparr>wh_status := Hook_DEAD_LETTER\<rparr>"
  obtain a where run: "mark_dead_letter wid s = (Inr (),
      s\<lparr>db_webhooks := update_row wh_id wid ?f (db_webhooks s), db_audit := a\<rparr>)"
    using assms False by (auto simp: mark_dead_letter_def prog_simps update_webhook_def)
  have "get_webhook (s\<lparr>db_webhooks := update_row wh_id wid ?f (db_webhooks s), db_audit := a\<rparr>) wid
      = Some (?f row)"
    using assms get_webhook_update [where f = ?f and s = s and i = wid and j = wid] by simp
  with run show ?thesis by (rule that) simp
qed

lemma apply_now_keeps_event:
  assumes "apply_followups_now env fs s = (r, t)"
  shows "get_webhook t wid = get_webhook s wid"
proof -
  have "obeys webhooks_kept (seqp (apply_followups env fs) (ret ()))"
    by (intro kept_rules kept_followups)
  with transaction_state [OF assms [unfolded apply_followups_now_def]] have "db_webhooks t = db_webhooks s"
    by (auto dest!: obeysD simp: webhooks_kept_def)
  then show ?thesis by (simp add: get_webhook_def)
qed

text \<open>
  C21. \<^bold>\<open>What a job leaves of its event.\<close> Let the job run on an event that is not finished. When the
  processing raises, nothing is queued and the exception is passed on: if the job will be retried,
  the whole transaction is undone, so the event keeps the status it had (the FAILED mark that the
  service wrote is undone with it) and can be processed again; if not, the event ends in the dead
  letter queue. When the processing returns, the event is finished for good, and with a working queue
  exactly its follow-ups are queued, in order.
\<close>

theorem event_job_outcome:
  assumes race: "\<And>x. db_webhooks (race x) = db_webhooks x"
    and w: "get_webhook (w_db v) wid = Some row" "wh_status row \<notin> {Hook_PROCESSED, Hook_DEAD_LETTER}"
    and run: "process_provider_event h env race job breaks wid v = (r, v')"
  shows "case fst (process_webhook_event h race wid (w_db v)) of
      Inl e \<Rightarrow> r = Inl e \<and> w_queue v' = w_queue v
        \<and> (if will_retry job then w_db v' = race (w_db v)
             \<and> get_webhook (w_db v') wid = Some row
           else \<exists>w'. get_webhook (w_db v') wid = Some w' \<and> wh_status w' = Hook_DEAD_LETTER)
    | Inr (m, fs) \<Rightarrow>
        (\<exists>w'. get_webhook (w_db v') wid = Some w' \<and> wh_status w' \<in> {Hook_PROCESSED, Hook_DEAD_LETTER})
        \<and> (breaks = None \<longrightarrow> r = Inr (m, fs) \<and> w_queue v' = w_queue v @ concat (map job_of_followup fs))"
proof -
  obtain r1 t1 where p: "process_webhook_event h race wid (w_db v) = (r1, t1)" by fastforce
  show ?thesis
  proof (cases r1)
    case (Inl e)
    have undone: "get_webhook (race (w_db v)) wid = Some row" using w(1) race by (simp add: get_webhook_def)
    from w(2) have "wh_status row \<noteq> Hook_PROCESSED" by simp
    then obtain t w' where "mark_dead_letter wid (race (w_db v)) = (Inr (), t)" "get_webhook t wid = Some w'"
        "wh_status w' = Hook_DEAD_LETTER"
      using mark_dead_letter_run [OF undone] by blast
    with run p Inl undone show ?thesis
      by (auto simp: process_provider_event_def prog_simps on_db_def transaction_def split: if_splits)
  next
    case (Inr x)
    obtain m fs where x: "x = (m, fs)" by fastforce
    obtain w' where w': "get_webhook t1 wid = Some w'"
        "wh_status w' \<in> {Hook_PROCESSED, Hook_DEAD_LETTER}"
      using processed_event_status [OF race w(1) p [unfolded Inr x] w(2)] by blast
    obtain jobs ok where q: "enqueue_followups breaks fs = (jobs, ok)" by fastforce
    obtain r2 t2 where a: "apply_followups_now env fs t1 = (r2, t2)" by fastforce
    have none: "breaks = None \<longrightarrow> ok \<and> jobs = concat (map job_of_followup fs)"
      using q by (auto simp: enqueue_followups_def Let_def split: if_splits)
    have "w_db v' = (if ok then t1 else t2)" "ok \<longrightarrow> r = Inr (m, fs)" "w_queue v' = w_queue v @ jobs"
      using run p Inr x q a
      by (auto simp: process_provider_event_def prog_simps on_db_def transaction_def enqueue_def
          split: if_splits sum.splits)
    with w' none apply_now_keeps_event [OF a, of wid] p Inr x show ?thesis by auto
  qed
qed

theorem event_job_outcome_witness:
  "\<exists>r v'. process_provider_event demo_host Map.empty id None None 50 \<lparr>w_db = webhook_db, w_queue = []\<rparr> = (r, v')
     \<and> (\<exists>w'. get_webhook (w_db v') 50 = Some w' \<and> wh_status w' \<noteq> Hook_RECEIVED)"
proof -
  let ?v = "\<lparr>w_db = webhook_db, w_queue = []\<rparr>"
  obtain r v' where run: "process_provider_event demo_host Map.empty id None None 50 ?v = (r, v')"
    by fastforce
  have w: "get_webhook (w_db ?v) 50 = Some failed_event"
      "wh_status failed_event \<notin> {Hook_PROCESSED, Hook_DEAD_LETTER}"
    by (simp_all add: get_webhook_def webhook_db_def find_row_def failed_event_def)
  have "\<exists>w'. get_webhook (w_db v') 50 = Some w' \<and> wh_status w' \<noteq> Hook_RECEIVED"
    using event_job_outcome [OF _ w run]
    by (auto simp: will_retry_def split: sum.splits)
  with run show ?thesis by blast
qed

text \<open>
  C24. \<^bold>\<open>Follow-ups can be lost.\<close> When the queue breaks and applying the follow-ups in the worker fails,
  the job raises although its event was committed as processed. Running the job again, as the queue
  does, answers that the event was already processed and runs no follow-up: it changes nothing.
\<close>

theorem followups_lost_on_retry:
  assumes race: "\<And>x. db_webhooks (race x) = db_webhooks x"
    and ev: "fst (process_webhook_event h race wid (w_db v)) = Inr (m, fs)" "fs \<noteq> []"
    and run: "process_provider_event h env race job breaks wid v = (Inl e, v')"
  shows "process_provider_event h env' race' job' breaks' wid v' = (Inr (''already_processed'', []), v')"
proof -
  obtain t1 where p: "process_webhook_event h race wid (w_db v) = (Inr (m, fs), t1)"
    using ev(1) by (cases "process_webhook_event h race wid (w_db v)") simp
  obtain row where w: "get_webhook (w_db v) wid = Some row"
    using p by (auto simp: process_webhook_event_def prog_simps split: option.splits)
  have open_event: "wh_status row \<notin> {Hook_PROCESSED, Hook_DEAD_LETTER}"
    using p w ev(2) by (auto simp: process_webhook_event_def prog_simps)
  obtain w' where w': "get_webhook t1 wid = Some w'" "wh_status w' = Hook_PROCESSED"
    using processed_event_status [OF race w p open_event] ev(2) by blast
  obtain jobs ok where q: "enqueue_followups breaks fs = (jobs, ok)" by fastforce
  obtain r2 t2 where a: "apply_followups_now env fs t1 = (r2, t2)" by fastforce
  have "w_db v' = t2"
    using run p q a by (auto simp: process_provider_event_def prog_simps on_db_def transaction_def enqueue_def
        split: if_splits sum.splits)
  with w' apply_now_keeps_event [OF a, of wid] have "get_webhook (w_db v') wid = Some w'" by simp
  with w'(2) show ?thesis
    by (simp add: process_provider_event_def prog_simps on_db_def transaction_def process_webhook_event_def
        enqueue_followups_def enqueue_def)
qed

definition captured_event :: WebhookEvent where
  "captured_event = failed_event\<lparr>wh_event_type := ''payment.captured'',
     wh_payload := [(''provider_payment_id'', JStr ''pay_1''), (''amount'', JInt 100), (''occurred_at'', JTime 7)]\<rparr>"
definition captured_db :: db where "captured_db = demo_db\<lparr>db_webhooks := [captured_event]\<rparr>"

definition captured_domain_event :: "DomainPaymentEvent \<Rightarrow> bool" where
  "captured_domain_event ev \<longleftrightarrow> ev_event_type ev = PAYMENT_CAPTURED \<and> ev_provider ev = ''SIMULATOR''
  \<and> ev_merchant_id ev = 1 \<and> ev_provider_payment_id ev = ''pay_1'' \<and> ev_amount ev = 100"

lemma captured_normal:
  obtains ev where "normalize_provider_event demo_host (provider_event_from_row demo_host captured_event) 50 1 = Inr (Payment_Event ev)"
    "captured_domain_event ev"
proof -
  have "case normalize_provider_event demo_host (provider_event_from_row demo_host captured_event) 50 1 of
      Inr (Payment_Event ev) \<Rightarrow> captured_domain_event ev | _ \<Rightarrow> False"
    by code_simp
  then show ?thesis using that by (auto split: sum.splits NormalizedEvent.splits)
qed

lemma captured_followups:
  "fst (process_webhook_event demo_host id 50 captured_db) = Inr (''processed'', [queue_verify 4 3 50])"
proof -
  obtain ev where n: "normalize_provider_event demo_host (provider_event_from_row demo_host captured_event) 50 1
      = Inr (Payment_Event ev)" and ev: "captured_domain_event ev" by (rule captured_normal)
  have row: "wh_id captured_event = 50" "wh_merchant_id captured_event = 1" "wh_status captured_event = Hook_RECEIVED"
    by (simp_all add: captured_event_def failed_event_def)
  have d: "\<exists>t. dispatch demo_host id captured_event (Payment_Event ev) (captured_db\<lparr>db_webhooks := x\<rparr>) = (Inr [queue_verify 4 3 50], t)" for x
    using ev row by (simp add: captured_domain_event_def dispatch_def handle_payment_captured_def
      find_or_create_payment_def get_by_provider_payment_id_def captured_db_def demo_db_def demo_payment_def
      prog_simps numeric_18_2_def update_payment_def update_row_def add_attempt_def session_get_payment_def
      find_row_def candidate_cases_def list_open_for_payment_def list_open_for_customer_def audit_payment_def demo_case_def
      deref_def image_def)
  show ?thesis
    using d [of "update_row wh_id 50 (\<lambda>r. r\<lparr>wh_status := Hook_PROCESSING\<rparr>) [captured_event]"] n row
    by (auto simp: process_webhook_event_def handle_event_def prog_simps get_webhook_def captured_db_def
        find_row_def update_webhook_def get_merchant_def demo_db_def demo_merchant_def)
qed

lemma bad_window: "\<exists>e. settings_from_env [''RECOVERY_WINDOW_HOURS'' \<mapsto> ''soon''] = Inl e"
proof -
  have "case int_env [''RECOVERY_WINDOW_HOURS'' \<mapsto> ''soon''] ''RECOVERY_WINDOW_HOURS'' 72 of Inl e \<Rightarrow> True | Inr _ \<Rightarrow> False"
    by code_simp
  then show ?thesis by (auto simp: settings_from_env_def bindE_def split: sum.splits)
qed

theorem followups_lost_on_retry_witness:
  "\<exists>e v'. process_provider_event demo_host [''RECOVERY_WINDOW_HOURS'' \<mapsto> ''soon''] id None (Some 0) 50
        \<lparr>w_db = captured_db, w_queue = []\<rparr> = (Inl e, v')
     \<and> process_provider_event demo_host Map.empty id None None 50 v' = (Inr (''already_processed'', []), v')"
proof -
  let ?v = "\<lparr>w_db = captured_db, w_queue = []\<rparr>"
  let ?env = "[''RECOVERY_WINDOW_HOURS'' \<mapsto> ''soon'']"
  obtain t where p: "process_webhook_event demo_host id 50 captured_db = (Inr (''processed'', [queue_verify 4 3 50]), t)"
    using captured_followups by (cases "process_webhook_event demo_host id 50 captured_db") simp
  obtain e where "settings_from_env ?env = Inl e" using bad_window by blast
  then have "apply_followups_now ?env [queue_verify 4 3 50] t = (Inl e, t)"
    by (simp add: apply_followups_now_def transaction_def prog_simps queue_verify_def verify_recovery_case_def)
  with p obtain v' where run: "process_provider_event demo_host ?env id None (Some 0) 50 ?v = (Inl e, v')"
    by (simp add: process_provider_event_def prog_simps on_db_def transaction_def enqueue_followups_def enqueue_def)
  have "fst (process_webhook_event demo_host id 50 (w_db ?v)) = Inr (''processed'', [queue_verify 4 3 50])"
    by (simp add: captured_followups)
  from followups_lost_on_retry [OF _ this _ run] run show ?thesis by fastforce
qed

end
