(* ===== verification/Tools.thy ===== *)
theory Tools
  imports Worker "HOL-Library.List_Lexorder" "HOL-Library.Char_ord" "HOL-Library.Multiset"
begin

text \<open>
  The ground the recovery tools stand on, from \<^verbatim>\<open>recoverai_domain/tools\<close>: the mapping of actions to
  tools (\<^verbatim>\<open>permissions.py\<close>), the input models and the registry (\<^verbatim>\<open>schemas.py\<close>, \<^verbatim>\<open>registry.py\<close>), the
  removal of sensitive keys, the canonical hash of a request and the table of idempotency keys
  (\<^verbatim>\<open>idempotency.py\<close>). An input model is the list of its fields with their kinds; extra fields are
  refused. \<^verbatim>\<open>json.dumps\<close> with sorted keys is written out; what it delegates to printing of floats and
  decimals goes through \<open>Host\<close>. The store of idempotency keys is the locale \<open>idempotency_store\<close>,
  interpreted on the table, with the insertion race of the code as a parameter.
\<close>

subsection \<open>Actions and tools\<close>

fun TOOL_BY_ACTION :: "RecoveryActionType \<Rightarrow> string" where
  "TOOL_BY_ACTION RETRY_NOW = ''retry_payment''"
| "TOOL_BY_ACTION RETRY_LATER = ''schedule_retry''"
| "TOOL_BY_ACTION SEND_PAYMENT_LINK = ''create_payment_link''"
| "TOOL_BY_ACTION SEND_REMINDER = ''send_notification''"
| "TOOL_BY_ACTION OFFER_DISCOUNT = ''offer_discount''"
| "TOOL_BY_ACTION ESCALATE = ''escalate_to_human''"
| "TOOL_BY_ACTION DO_NOTHING = ''pause_recovery''"

definition ACTION_BY_TOOL :: "(string \<times> RecoveryActionType) list" where
  "ACTION_BY_TOOL = map (\<lambda>a. (TOOL_BY_ACTION a, a)) all_actions"

definition action_for_tool :: "string \<Rightarrow> RecoveryActionType option" where
  "action_for_tool name = map_of ACTION_BY_TOOL name"

definition tool_name_for_action :: "string \<Rightarrow> string option" where
  "tool_name_for_action action = (case parse_enum action_value all_actions action of
     Inl _ \<Rightarrow> None | Inr a \<Rightarrow> Some (TOOL_BY_ACTION a))"

subsection \<open>Input models and the registry\<close>

datatype field_kind = Optional_str | Optional_int | Required_str | Channel_default_email

type_synonym input_model = "(string \<times> field_kind) list"

definition INPUT_MODELS :: "(string \<times> input_model) list" where
  "INPUT_MODELS =
     [(''get_customer_history'', []),
      (''get_payment_details'', []),
      (''get_cart_details'', []),
      (''get_subscription_details'', []),
      (''get_recovery_case'', []),
      (''calculate_recovery_probability'', [(''action'', Optional_str)]),
      (''retry_payment'', [(''attempt_number'', Optional_int)]),
      (''schedule_retry'', [(''scheduled_for'', Required_str)]),
      (''create_payment_link'', [(''description'', Optional_str)]),
      (''send_notification'', [(''channel'', Channel_default_email), (''subject'', Optional_str),
         (''body_preview'', Optional_str)]),
      (''offer_discount'', [(''discount_percent'', Required_str)]),
      (''check_payment_status'', [(''provider_payment_id'', Optional_str)]),
      (''check_subscription_status'', []),
      (''escalate_to_human'', [(''reason'', Optional_str)]),
      (''pause_recovery'', [(''reason'', Optional_str)])]"

record ToolSpec =
  spec_name :: string
  spec_version :: string
  spec_input_model :: input_model
  spec_risk_level :: RiskLevel
  spec_required_permission :: ToolPermission
  spec_timeout_seconds :: int
  spec_side_effect :: bool

definition tool_spec :: "string \<Rightarrow> RiskLevel \<Rightarrow> ToolPermission \<Rightarrow> int \<Rightarrow> bool \<Rightarrow> string \<times> ToolSpec" where
  "tool_spec name risk permission timeout side_effect =
     (name, \<lparr>spec_name = name, spec_version = ''v1'',
        spec_input_model = (case map_of INPUT_MODELS name of None \<Rightarrow> [] | Some m \<Rightarrow> m),
        spec_risk_level = risk, spec_required_permission = permission,
        spec_timeout_seconds = timeout, spec_side_effect = side_effect\<rparr>)"

definition TOOL_SPECS :: "(string \<times> ToolSpec) list" where
  "TOOL_SPECS =
     [tool_spec ''get_customer_history'' GREEN Perm_VIEW_CUSTOMER 10 False,
      tool_spec ''get_payment_details'' GREEN Perm_VIEW_PAYMENT 10 False,
      tool_spec ''get_cart_details'' GREEN Perm_VIEW_RECOVERY 10 False,
      tool_spec ''get_subscription_details'' GREEN Perm_VIEW_RECOVERY 10 False,
      tool_spec ''get_recovery_case'' GREEN Perm_VIEW_RECOVERY 10 False,
      tool_spec ''calculate_recovery_probability'' GREEN Perm_VIEW_RECOVERY 10 False,
      tool_spec ''retry_payment'' YELLOW Perm_RETRY_PAYMENT 30 True,
      tool_spec ''schedule_retry'' GREEN Perm_RETRY_PAYMENT 10 True,
      tool_spec ''create_payment_link'' YELLOW Perm_CREATE_PAYMENT_LINK 30 True,
      tool_spec ''send_notification'' GREEN Perm_SEND_NOTIFICATION 15 True,
      tool_spec ''offer_discount'' YELLOW Perm_OFFER_DISCOUNT 15 True,
      tool_spec ''check_payment_status'' GREEN Perm_VIEW_PAYMENT 15 False,
      tool_spec ''check_subscription_status'' GREEN Perm_VIEW_RECOVERY 10 False,
      tool_spec ''escalate_to_human'' GREEN Perm_ESCALATE 10 True,
      tool_spec ''pause_recovery'' GREEN Perm_PAUSE_RECOVERY 10 True]"

definition require_tool :: "string \<Rightarrow> ToolSpec res" where
  "require_tool name = (case map_of TOOL_SPECS name of
     None \<Rightarrow> Inl (ToolValidationError ''UNKNOWN_TOOL'') | Some spec \<Rightarrow> Inr spec)"

text \<open>
  Validation of one field: a string, an integer (a value that is not already one is converted as the
  validation library does), or the value of an enumeration. The result is the value in the
  validated dictionary, or nothing when the value is refused.
\<close>

fun is_json_str :: "json \<Rightarrow> bool" where
  "is_json_str (JStr _) = True"
| "is_json_str (JUuid _) = True"
| "is_json_str (JDec _) = True"
| "is_json_str (JTime _) = True"
| "is_json_str _ = False"

definition read_str :: "json \<Rightarrow> json option" where
  "read_str v = (if is_json_str v then Some v else None)"

definition read_field :: "Host \<Rightarrow> field_kind \<Rightarrow> json option \<Rightarrow> json option" where
  "read_field h kind given = (case kind of
     Required_str \<Rightarrow> (case given of None \<Rightarrow> None | Some v \<Rightarrow> read_str v)
   | Optional_str \<Rightarrow> (case given of None \<Rightarrow> Some JNull | Some v \<Rightarrow> if v = JNull then Some JNull else read_str v)
   | Optional_int \<Rightarrow> (case given of
        None \<Rightarrow> Some JNull
      | Some JNull \<Rightarrow> Some JNull
      | Some (JInt i) \<Rightarrow> Some (JInt i)
      | Some v \<Rightarrow> map_option JInt (host_int_field h v))
   | Channel_default_email \<Rightarrow> (case given of
        None \<Rightarrow> Some (JStr (channel_value Chan_EMAIL))
      | Some (JStr s) \<Rightarrow> (case parse_enum channel_value all_channels s of
          Inl _ \<Rightarrow> None | Inr c \<Rightarrow> Some (JStr (channel_value c)))
      | Some _ \<Rightarrow> None))"

fun read_fields :: "Host \<Rightarrow> input_model \<Rightarrow> dict \<Rightarrow> dict option" where
  "read_fields h [] payload = Some []"
| "read_fields h ((name, kind) # model) payload =
     (case read_field h kind (map_of payload name) of
        None \<Rightarrow> None
      | Some v \<Rightarrow> (case read_fields h model payload of None \<Rightarrow> None | Some rest \<Rightarrow> Some ((name, v) # rest)))"

definition validate_input :: "Host \<Rightarrow> ToolSpec \<Rightarrow> dict \<Rightarrow> dict res" where
  "validate_input h spec payload =
     (if \<not> fst ` set payload \<subseteq> fst ` set (spec_input_model spec)
      then Inl (ToolValidationError ''INVALID_TOOL_INPUT'')
      else case read_fields h (spec_input_model spec) payload of
             None \<Rightarrow> Inl (ToolValidationError ''INVALID_TOOL_INPUT'') | Some d \<Rightarrow> Inr d)"

subsection \<open>Sensitive keys and the request hash\<close>

definition SENSITIVE_KEY_FRAGMENTS :: "string list" where
  "SENSITIVE_KEY_FRAGMENTS =
     [''authorization'', ''secret'', ''api_key'', ''password'', ''card_number'', ''cvv'', ''pan'',
      ''token'', ''credential'']"

definition sensitive_key :: "string \<Rightarrow> bool" where
  "sensitive_key key = list_ex (\<lambda>fragment. contains fragment (lower key)) SENSITIVE_KEY_FRAGMENTS"

fun sanitize_payload :: "json \<Rightarrow> json"
  and sanitize_items :: "dict \<Rightarrow> dict"
  and sanitize_list :: "json list \<Rightarrow> json list" where
  "sanitize_payload (JObj d) = JObj (sanitize_items d)"
| "sanitize_payload (JList xs) = JList (sanitize_list xs)"
| "sanitize_payload v = v"
| "sanitize_items [] = []"
| "sanitize_items ((key, item) # d) =
     (if sensitive_key key then sanitize_items d else (key, sanitize_payload item) # sanitize_items d)"
| "sanitize_list [] = []"
| "sanitize_list (x # xs) = sanitize_payload x # sanitize_list xs"

definition json_escape :: "char \<Rightarrow> string" where
  "json_escape c = (let n = of_char c :: nat in
     if c = CHR 0x22 then [CHR 0x5C, CHR 0x22]
     else if c = CHR 0x5C then [CHR 0x5C, CHR 0x5C]
     else if n = 10 then CHR 0x5C # ''n''
     else if n = 13 then CHR 0x5C # ''r''
     else if n = 9 then CHR 0x5C # ''t''
     else if n = 12 then CHR 0x5C # ''f''
     else if n = 8 then CHR 0x5C # ''b''
     else if 32 \<le> n \<and> n \<le> 126 then [c]
     else CHR 0x5C # CHR ''u'' # hex_fixed 4 n)"

definition quoted :: "string \<Rightarrow> string" where
  "quoted s = CHR 0x22 # concat (map json_escape s) @ [CHR 0x22]"

text \<open>\<^verbatim>\<open>json.dumps(value, sort_keys=True, default=str, separators=(",", ":"))\<close>\<close>

fun dumps :: "Host \<Rightarrow> json \<Rightarrow> string"
  and dumps_items :: "Host \<Rightarrow> dict \<Rightarrow> (string \<times> string) list"
  and dumps_list :: "Host \<Rightarrow> json list \<Rightarrow> string list" where
  "dumps h JNull = ''null''"
| "dumps h (JBool b) = (if b then ''true'' else ''false'')"
| "dumps h (JInt i) = show_int i"
| "dumps h (JFloat r) = host_str h (JFloat r)"
| "dumps h (JList xs) = ''['' @ join '','' (dumps_list h xs) @ '']''"
| "dumps h (JObj d) =
     ''{'' @ join '','' (map (\<lambda>(k, text). quoted k @ '':'' @ text) (sort_key fst (dumps_items h d))) @ ''}''"
| "dumps h v = quoted (json_str h v)"
| "dumps_items h [] = []"
| "dumps_items h ((k, v) # d) = (k, dumps h v) # dumps_items h d"
| "dumps_list h [] = []"
| "dumps_list h (x # xs) = dumps h x # dumps_list h xs"

definition canonical_request_hash :: "Host \<Rightarrow> dict \<Rightarrow> string" where
  "canonical_request_hash h payload = host_sha256 h (dumps h (sanitize_payload (JObj payload)))"

subsection \<open>Idempotency keys\<close>

definition IDEMPOTENCY_TTL_HOURS :: int where
  "IDEMPOTENCY_TTL_HOURS = 24"

definition idempotency_record :: "db \<Rightarrow> uuid \<Rightarrow> string \<Rightarrow> IdempotencyKey option" where
  "idempotency_record s merchant key =
     find (\<lambda>r. ik_merchant_id r = merchant \<and> ik_key r = key) (db_idempotency s)"

definition update_idempotency :: "uuid \<Rightarrow> (IdempotencyKey \<Rightarrow> IdempotencyKey) \<Rightarrow> unit dbprog" where
  "update_idempotency i f = modify (\<lambda>s. s\<lparr>db_idempotency := update_row ik_id i f (db_idempotency s)\<rparr>)"

text \<open>The unique constraint on merchant and key.\<close>

definition insert_idempotency :: "(uuid \<Rightarrow> timestamp \<Rightarrow> IdempotencyKey) \<Rightarrow> uuid dbprog" where
  "insert_idempotency row =
     bind uuid4 (\<lambda>k.
     bind now (\<lambda>t. (\<lambda>s.
       if idempotency_record s (ik_merchant_id (row k t)) (ik_key (row k t)) \<noteq> None
       then (Inl IntegrityError, s)
       else (Inr k, s\<lparr>db_idempotency := db_idempotency s @ [row k t]\<rparr>))))"

record IdempotencyOutcome =
  io_record :: uuid
  io_replay :: bool

definition replay_existing :: "IdempotencyKey \<Rightarrow> string \<Rightarrow> IdempotencyOutcome dbprog" where
  "replay_existing r request_hash =
     (if ik_request_hash r \<noteq> request_hash then raise (IdempotencyConflictError (ik_key r))
      else ret \<lparr>io_record = ik_id r, io_replay = True\<rparr>)"

definition begin_idempotent_operation ::
  "(db \<Rightarrow> db) \<Rightarrow> uuid \<Rightarrow> string \<Rightarrow> string \<Rightarrow> string \<Rightarrow> IdempotencyOutcome dbprog" where
  "begin_idempotent_operation race merchant_id key operation request_hash =
     bind (gets (\<lambda>s. idempotency_record s merchant_id key)) (\<lambda>existing.
       case existing of
         Some r \<Rightarrow> replay_existing r request_hash
       | None \<Rightarrow>
           bind (catch
             (seqp (modify race)
               (bind (insert_idempotency (\<lambda>k t.
                  \<lparr>ik_id = k, ik_merchant_id = merchant_id, ik_key = key, ik_operation = operation,
                   ik_request_hash = request_hash, ik_response_reference = None,
                   ik_status = Idem_IN_PROGRESS, ik_completed_at = None,
                   ik_expires_at = t + IDEMPOTENCY_TTL_HOURS * 3600000000, ik_metadata = []\<rparr>))
                 (\<lambda>k. ret (Some k))))
             (\<lambda>e. if e = IntegrityError then ret None else raise e)) (\<lambda>created.
             case created of
               Some k \<Rightarrow> ret \<lparr>io_record = k, io_replay = False\<rparr>
             | None \<Rightarrow>
                 bind (gets (\<lambda>s. idempotency_record s merchant_id key)) (\<lambda>raced.
                   case raced of
                     None \<Rightarrow> raise IntegrityError
                   | Some r \<Rightarrow> replay_existing r request_hash)))"

definition complete_idempotent_operation :: "uuid \<Rightarrow> dict \<Rightarrow> uuid \<Rightarrow> unit dbprog" where
  "complete_idempotent_operation i response response_reference =
     bind now (\<lambda>t. update_idempotency i (\<lambda>r. r\<lparr>ik_status := Idem_COMPLETED, ik_completed_at := Some t,
        ik_response_reference := Some response_reference,
        ik_metadata := dict_set ''result'' (JObj response) (ik_metadata r)\<rparr>))"

definition fail_idempotent_operation :: "uuid \<Rightarrow> string \<Rightarrow> unit dbprog" where
  "fail_idempotent_operation i code =
     bind now (\<lambda>t. update_idempotency i (\<lambda>r. r\<lparr>ik_status := Idem_FAILED, ik_completed_at := Some t,
        ik_metadata := dict_set ''error_code'' (JStr code) (ik_metadata r)\<rparr>))"

subsection \<open>The registry\<close>

lemma action_for_tool_iff: "action_for_tool name = Some a \<longleftrightarrow> name = TOOL_BY_ACTION a"
  by (cases a) (auto simp: action_for_tool_def ACTION_BY_TOOL_def all_actions_def)

lemma TOOL_SPECS_fields:
  assumes "map_of TOOL_SPECS name = Some spec"
  shows "spec_name spec = name" "(name, spec_input_model spec) \<in> set INPUT_MODELS"
    "spec_side_effect spec \<longleftrightarrow> action_for_tool name \<noteq> None"
proof -
  have "list_all (\<lambda>(n, spec). spec_name spec = n \<and> (n, spec_input_model spec) \<in> set INPUT_MODELS
      \<and> (spec_side_effect spec \<longleftrightarrow> action_for_tool n \<noteq> None)) TOOL_SPECS"
    by code_simp
  with map_of_SomeD [OF assms] show "spec_name spec = name"
    "(name, spec_input_model spec) \<in> set INPUT_MODELS"
    "spec_side_effect spec \<longleftrightarrow> action_for_tool name \<noteq> None"
    by (auto simp: list_all_iff)
qed

text \<open>
  \<^bold>\<open>The registry is complete.\<close> Every recovery action has exactly one tool and back: the tools
  with side effects are exactly those of the actions, all of them are registered, so an action always
  resolves to a tool, and no read-only tool performs an action. A name outside the registry is
  refused.
\<close>

theorem registry_complete:
  "(case require_tool name of
      Inl e \<Rightarrow> e = ToolValidationError ''UNKNOWN_TOOL'' \<and> action_for_tool name = None
    | Inr spec \<Rightarrow> spec_name spec = name
        \<and> (spec_side_effect spec \<longleftrightarrow> (\<exists>a. action_for_tool name = Some a \<and> name = TOOL_BY_ACTION a)))
   \<and> (\<exists>spec. require_tool (TOOL_BY_ACTION a) = Inr spec \<and> spec_side_effect spec)
   \<and> action_for_tool (TOOL_BY_ACTION a) = Some a
   \<and> tool_name_for_action (action_value a) = Some (TOOL_BY_ACTION a)"
proof (intro conjI)
  show "case require_tool name of
      Inl e \<Rightarrow> e = ToolValidationError ''UNKNOWN_TOOL'' \<and> action_for_tool name = None
    | Inr spec \<Rightarrow> spec_name spec = name
        \<and> (spec_side_effect spec \<longleftrightarrow> (\<exists>a. action_for_tool name = Some a \<and> name = TOOL_BY_ACTION a))"
  proof (cases "map_of TOOL_SPECS name")
    case None
    then have "name \<noteq> TOOL_BY_ACTION b" for b
      by (cases b) (auto simp: TOOL_SPECS_def tool_spec_def split: if_splits)
    then have "action_for_tool name = None" by (metis action_for_tool_iff not_None_eq)
    with None show ?thesis by (simp add: require_tool_def)
  next
    case (Some spec)
    with TOOL_SPECS_fields [OF Some] show ?thesis by (auto simp: require_tool_def action_for_tool_iff)
  qed
  show "\<exists>spec. require_tool (TOOL_BY_ACTION a) = Inr spec \<and> spec_side_effect spec"
    by (cases a) (simp_all add: require_tool_def TOOL_SPECS_def tool_spec_def)
  show "action_for_tool (TOOL_BY_ACTION a) = Some a" by (simp add: action_for_tool_iff)
  show "tool_name_for_action (action_value a) = Some (TOOL_BY_ACTION a)"
    by (simp add: tool_name_for_action_def)
qed

subsection \<open>Validated input\<close>

lemma read_fields_keys: "read_fields h model payload = Some d \<Longrightarrow> map fst d = map fst model"
  by (induction h model payload arbitrary: d rule: read_fields.induct) (auto split: option.splits)

lemma read_field_flat: "read_field h kind given = Some v \<Longrightarrow> sanitize_payload v = v"
  by (cases v) (auto simp: read_field_def read_str_def split: field_kind.splits option.splits json.splits
      sum.splits if_splits)

lemma read_fields_flat: "read_fields h model payload = Some d \<Longrightarrow> (k, v) \<in> set d \<Longrightarrow> sanitize_payload v = v"
  by (induction h model payload arbitrary: d rule: read_fields.induct)
     (auto split: option.splits dest: read_field_flat)

lemma sanitize_items_filter:
  "sanitize_items d = map (\<lambda>(k, v). (k, sanitize_payload v)) (filter (\<lambda>(k, v). \<not> sensitive_key k) d)"
  by (induction d) auto

lemma sanitize_list_map: "sanitize_list xs = map sanitize_payload xs"
  by (induction xs) auto

lemma INPUT_MODELS_open: "\<not> sensitive_key k" if "(k, kind) \<in> set model" "(n, model) \<in> set INPUT_MODELS"
proof -
  have "list_all (\<lambda>(n, model). list_all (\<lambda>(k, kind). \<not> sensitive_key k) model) INPUT_MODELS" by code_simp
  with that show ?thesis by (auto simp: list_all_iff)
qed

text \<open>All keys of a value, at any depth.\<close>

fun json_keys :: "json \<Rightarrow> string list"
  and item_keys :: "dict \<Rightarrow> string list"
  and list_keys :: "json list \<Rightarrow> string list" where
  "json_keys (JObj d) = item_keys d"
| "json_keys (JList xs) = list_keys xs"
| "json_keys v = []"
| "item_keys [] = []"
| "item_keys ((k, v) # d) = k # json_keys v @ item_keys d"
| "list_keys [] = []"
| "list_keys (x # xs) = json_keys x @ list_keys xs"

lemma sanitized_keys:
  "list_all (\<lambda>k. \<not> sensitive_key k) (json_keys (sanitize_payload v))"
  "list_all (\<lambda>k. \<not> sensitive_key k) (item_keys (sanitize_items d))"
  "list_all (\<lambda>k. \<not> sensitive_key k) (list_keys (sanitize_list xs))"
  by (induction v and d and xs rule: sanitize_payload_sanitize_items_sanitize_list.induct) simp_all

lemma sanitize_id:
  "list_all (\<lambda>k. \<not> sensitive_key k) (json_keys v) \<Longrightarrow> sanitize_payload v = v"
  "list_all (\<lambda>k. \<not> sensitive_key k) (item_keys d) \<Longrightarrow> sanitize_items d = d"
  "list_all (\<lambda>k. \<not> sensitive_key k) (list_keys xs) \<Longrightarrow> sanitize_list xs = xs"
  by (induction v and d and xs rule: sanitize_payload_sanitize_items_sanitize_list.induct) simp_all

text \<open>
  \<^bold>\<open>Stored payloads carry no secrets.\<close> After sanitising, no key at any depth contains a sensitive
  fragment in any letter case, sanitising again changes nothing, a value without such keys is left
  exactly as it was, and every other entry of an object is kept, with its value sanitised.
\<close>

theorem sanitize_payload_clean:
  "(\<forall>k \<in> set (json_keys (sanitize_payload v)).
      \<forall>fragment \<in> set SENSITIVE_KEY_FRAGMENTS. \<not> contains fragment (lower k))
   \<and> sanitize_payload (sanitize_payload v) = sanitize_payload v
   \<and> ((\<forall>k \<in> set (json_keys v). \<not> sensitive_key k) \<longrightarrow> sanitize_payload v = v)
   \<and> map_of (sanitize_items d) key =
       (if sensitive_key key then None else map_option sanitize_payload (map_of d key))"
proof (intro conjI)
  show "\<forall>k \<in> set (json_keys (sanitize_payload v)).
      \<forall>fragment \<in> set SENSITIVE_KEY_FRAGMENTS. \<not> contains fragment (lower k)"
    using sanitized_keys(1) [of v] by (simp add: list_all_iff sensitive_key_def list_ex_iff)
  show "sanitize_payload (sanitize_payload v) = sanitize_payload v"
    by (rule sanitize_id(1) [OF sanitized_keys(1)])
  show "map_of (sanitize_items d) key =
      (if sensitive_key key then None else map_option sanitize_payload (map_of d key))"
    by (induction d) auto
qed (simp add: sanitize_id(1) list_all_iff)

theorem sanitize_payload_clean_witness:
  "sanitize_payload (JObj [(''Card_Number'', JStr ''4111''), (''amount'', JInt 5)]) = JObj [(''amount'', JInt 5)]
   \<and> sanitize_payload (JObj [(''amount'', JInt 5)]) = JObj [(''amount'', JInt 5)]"
proof -
  have "sensitive_key ''Card_Number''" "\<not> sensitive_key ''amount''" by code_simp+
  then show ?thesis
    using sanitize_payload_clean [of "JObj [(''amount'', JInt 5)]" "[]" "[]"] by simp
qed

text \<open>
  The same JSON value: objects with the same entries in any order. The entries of an object have
  distinct keys.
\<close>

inductive same_json :: "json \<Rightarrow> json \<Rightarrow> bool" where
  same_refl: "same_json v v"
| same_list: "list_all2 same_json xs ys \<Longrightarrow> same_json (JList xs) (JList ys)"
| same_obj: "list_all2 (\<lambda>x y. fst x = fst y \<and> same_json (snd x) (snd y)) d e' \<Longrightarrow> mset e' = mset e \<Longrightarrow>
     distinct (map fst d) \<Longrightarrow> same_json (JObj d) (JObj e)"

lemma dumps_items_map: "dumps_items h d = map (\<lambda>(k, v). (k, dumps h v)) d"
  by (induction d) auto

lemma dumps_list_map: "dumps_list h xs = map (dumps h) xs"
  by (induction xs) auto

lemma sort_key_unique:
  assumes "mset xs = mset ys" and "distinct (map fst xs)"
  shows "sort_key fst xs = sort_key fst (ys :: ('k::linorder \<times> 'v) list)"
proof (rule map_sorted_distinct_set_unique [where f = fst])
  have same: "set xs = set ys" using assms(1) by (metis set_mset_mset)
  have "distinct (map fst ys)"
    using assms by (metis mset_map mset_eq_imp_distinct_iff)
  then show "distinct (map fst (sort_key fst ys))" "distinct (map fst (sort_key fst xs))"
    using assms(2) by (metis mset_map mset_sort mset_eq_imp_distinct_iff)+
  show "inj_on fst (set (sort_key fst xs) \<union> set (sort_key fst ys))"
    using assms(2) same by (simp add: distinct_map)
  show "set (sort_key fst xs) = set (sort_key fst ys)" using same by simp
qed simp_all

lemma dumps_same: "same_json v w \<Longrightarrow> dumps h (sanitize_payload v) = dumps h (sanitize_payload w)"
proof (induction rule: same_json.induct)
  case (same_list xs ys)
  then have "map (\<lambda>x. dumps h (sanitize_payload x)) xs = map (\<lambda>x. dumps h (sanitize_payload x)) ys"
    by (induction rule: list_all2_induct) auto
  then show ?case by (simp add: sanitize_list_map dumps_list_map comp_def)
next
  case (same_obj d e' e)
  define enc where "enc = (\<lambda>d. dumps_items h (sanitize_items d))"
  have enc: "enc d = map (\<lambda>(k, v). (k, dumps h (sanitize_payload v))) (filter (\<lambda>(k, v). \<not> sensitive_key k) d)" for d
    by (auto simp: enc_def dumps_items_map sanitize_items_filter)
  have "enc d = enc e'" using same_obj(1) by (induction rule: list_all2_induct) (auto simp: enc)
  moreover have "mset (enc e') = mset (enc e)" using same_obj(2) by (simp add: enc)
  moreover have "distinct (map fst (enc d))"
    using same_obj(3) by (auto simp: enc distinct_map inj_on_def comp_def split_beta)
  ultimately have "sort_key fst (enc d) = sort_key fst (enc e)"
    by (metis sort_key_unique)
  then show ?case by (simp add: enc_def)
qed simp

lemma map_of_mset:
  "mset e = mset d \<Longrightarrow> distinct (map fst d) \<Longrightarrow> map_of e = map_of d"
  by (metis map_of_eqI mset_map mset_eq_imp_distinct_iff set_mset_mset map_of_inject_set)

lemma read_fields_cong: "map_of e = map_of d \<Longrightarrow> read_fields h model e = read_fields h model d"
  by (induction h model d rule: read_fields.induct) (auto split: option.splits)

text \<open>
  C26. \<^bold>\<open>Requests are compared by content.\<close> The order of the entries of a request's input does not
  matter for what is accepted. An accepted input has exactly the fields of the tool's model, and
  none of them is lost to sanitising, so the hash covers the whole input; and requests that are the
  same JSON value, whatever the order of keys at any depth, have the same hash.
\<close>

theorem request_hash_canonical:
  assumes "require_tool name = Inr spec" and "distinct (map fst payload)"
  shows "(mset payload' = mset payload \<longrightarrow> validate_input h spec payload' = validate_input h spec payload)
    \<and> (validate_input h spec payload = Inr d \<longrightarrow>
         map fst d = map fst (spec_input_model spec) \<and> sanitize_items d = d)
    \<and> (same_json (JObj x) (JObj y) \<longrightarrow> canonical_request_hash h x = canonical_request_hash h y)"
proof (intro conjI impI)
  assume same: "mset payload' = mset payload"
  then have "set payload' = set payload" by (metis set_mset_mset)
  moreover have "read_fields h model payload' = read_fields h model payload" for model
    by (rule read_fields_cong [OF map_of_mset [OF same assms(2)]])
  ultimately show "validate_input h spec payload' = validate_input h spec payload"
    by (simp add: validate_input_def)
next
  assume "validate_input h spec payload = Inr d"
  then have d: "read_fields h (spec_input_model spec) payload = Some d"
    by (auto simp: validate_input_def split: if_splits option.splits)
  from read_fields_keys [OF this] show keys: "map fst d = map fst (spec_input_model spec)" .
  have "(name, spec_input_model spec) \<in> set INPUT_MODELS"
    using assms(1) by (auto simp: require_tool_def dest: TOOL_SPECS_fields split: option.splits)
  then have open_key: "\<not> sensitive_key (fst x)" if "x \<in> set d" for x
    using that INPUT_MODELS_open [of _ _ "spec_input_model spec" name] keys
    by (metis image_eqI list.set_map prod.collapse image_iff)
  have "(\<lambda>(k, v). (k, sanitize_payload v)) x = x" if "x \<in> set d" for x
    using read_fields_flat [OF d, of "fst x" "snd x"] that by (simp add: split_beta)
  moreover have "filter (\<lambda>(k, v). \<not> sensitive_key k) d = d"
    using open_key by (intro filter_True) (simp add: split_beta)
  ultimately show "sanitize_items d = d"
    unfolding sanitize_items_filter by (simp add: map_idI)
next
  assume "same_json (JObj x) (JObj y)"
  then show "canonical_request_hash h x = canonical_request_hash h y"
    unfolding canonical_request_hash_def by (simp only: dumps_same)
qed

theorem request_hash_canonical_witness:
  "validate_input demo_host
     (the (map_of TOOL_SPECS ''send_notification'')) [(''subject'', JStr ''s''), (''channel'', JStr ''SMS'')]
   = validate_input demo_host
     (the (map_of TOOL_SPECS ''send_notification'')) [(''channel'', JStr ''SMS''), (''subject'', JStr ''s'')]
   \<and> canonical_request_hash demo_host [(''a'', JInt 1), (''b'', JInt 2)]
     = canonical_request_hash demo_host [(''b'', JInt 2), (''a'', JInt 1)]"
proof -
  have r: "require_tool ''send_notification'' = Inr (the (map_of TOOL_SPECS ''send_notification''))"
    by (simp add: require_tool_def TOOL_SPECS_def tool_spec_def)
  have "same_json (JObj [(''a'', JInt 1), (''b'', JInt 2)]) (JObj [(''b'', JInt 2), (''a'', JInt 1)])"
    by (rule same_obj [where e' = "[(''a'', JInt 1), (''b'', JInt 2)]"]) (auto intro: same_refl)
  then show ?thesis
    using request_hash_canonical [OF r, of "[(''channel'', JStr ''SMS''), (''subject'', JStr ''s'')]"
        "[(''subject'', JStr ''s''), (''channel'', JStr ''SMS'')]" demo_host "[]"
        "[(''a'', JInt 1), (''b'', JInt 2)]" "[(''b'', JInt 2), (''a'', JInt 1)]"]
    by simp
qed

subsection \<open>The store of idempotency keys\<close>

text \<open>\<open>keys_kept lookup s t\<close>: every key known in \<open>s\<close> is known in \<open>t\<close>, for the same request.\<close>

definition keys_kept :: "('s \<Rightarrow> uuid \<Rightarrow> string \<Rightarrow> IdempotencyKey option) \<Rightarrow> 's \<Rightarrow> 's \<Rightarrow> bool" where
  "keys_kept lookup s t \<longleftrightarrow> (\<forall>m k r. lookup s m k = Some r \<longrightarrow>
     (\<exists>r'. lookup t m k = Some r' \<and> ik_id r' = ik_id r \<and> ik_request_hash r' = ik_request_hash r))"

locale idempotency_store =
  fixes lookup :: "'s \<Rightarrow> uuid \<Rightarrow> string \<Rightarrow> IdempotencyKey option"
    and start :: "('s \<Rightarrow> 's) \<Rightarrow> uuid \<Rightarrow> string \<Rightarrow> string \<Rightarrow> string \<Rightarrow> ('s, IdempotencyOutcome) prog"
    and finish :: "uuid \<Rightarrow> (IdempotencyKey \<Rightarrow> IdempotencyKey) \<Rightarrow> ('s, unit) prog"
  assumes start_known: "lookup s m k = Some r \<Longrightarrow> start race m k op hash s =
      (if ik_request_hash r = hash then Inr \<lparr>io_record = ik_id r, io_replay = True\<rparr>
       else Inl (IdempotencyConflictError k), s)"
    and start_new: "lookup s m k = None \<Longrightarrow> lookup (race s) m k = None \<Longrightarrow>
      \<exists>r t. start race m k op hash s = (Inr \<lparr>io_record = ik_id r, io_replay = False\<rparr>, t)
        \<and> lookup t m k = Some r \<and> ik_request_hash r = hash \<and> ik_status r = Idem_IN_PROGRESS
        \<and> ik_metadata r = [] \<and> (\<forall>m' k'. (m', k') \<noteq> (m, k) \<longrightarrow> lookup t m' k' = lookup (race s) m' k')"
    and start_raced: "lookup s m k = None \<Longrightarrow> lookup (race s) m k = Some r \<Longrightarrow>
      \<exists>t. start race m k op hash s =
        (if ik_request_hash r = hash then Inr \<lparr>io_record = ik_id r, io_replay = True\<rparr>
         else Inl (IdempotencyConflictError k), t) \<and> lookup t = lookup (race s)"
    and finish_found: "(\<And>r. ik_merchant_id (f r) = ik_merchant_id r \<and> ik_key (f r) = ik_key r) \<Longrightarrow>
      finish i f s = (x, t) \<Longrightarrow> lookup s m k = Some r \<Longrightarrow> lookup t m k = Some (if ik_id r = i then f r else r)"
begin

lemma keys_kept_refl: "keys_kept lookup s s"
  by (auto simp: keys_kept_def)

lemma keys_kept_trans: "keys_kept lookup s t \<Longrightarrow> keys_kept lookup t u \<Longrightarrow> keys_kept lookup s u"
  unfolding keys_kept_def by metis

lemma keys_kept_start:
  assumes "keys_kept lookup s (race s)" and "start race m k op hash s = (x, t)"
  shows "keys_kept lookup s t"
proof (cases "lookup s m k")
  case (Some r)
  with start_known [OF Some, of race op hash] assms(2) show ?thesis
    by (auto simp: keys_kept_refl split: if_splits)
next
  case None
  show ?thesis
  proof (cases "lookup (race s) m k")
    case (Some r)
    with start_raced [of s m k race r op hash, OF None Some] assms show ?thesis by (auto simp: keys_kept_def)
  next
    case new: None
    obtain t' where t': "t = t'" "\<forall>m' k'. (m', k') \<noteq> (m, k) \<longrightarrow> lookup t' m' k' = lookup (race s) m' k'"
      using start_new [of s m k race op hash, OF None new] assms(2) by auto
    show ?thesis
      unfolding keys_kept_def
    proof (intro allI impI)
      fix m' k' r
      assume r: "lookup s m' k' = Some r"
      with None have "(m', k') \<noteq> (m, k)" by auto
      with t' r assms(1) show "\<exists>r'. lookup t m' k' = Some r' \<and> ik_id r' = ik_id r \<and> ik_request_hash r' = ik_request_hash r"
        unfolding keys_kept_def by simp
    qed
  qed
qed

lemma keys_kept_finish:
  assumes f: "\<And>r. ik_merchant_id (f r) = ik_merchant_id r \<and> ik_key (f r) = ik_key r"
      "\<And>r. ik_id (f r) = ik_id r \<and> ik_request_hash (f r) = ik_request_hash r"
    and "finish i f s = (x, t)"
  shows "keys_kept lookup s t"
  unfolding keys_kept_def
proof (intro allI impI)
  fix m k r
  assume "lookup s m k = Some r"
  from finish_found [OF f(1) assms(3) this] f(2)
  show "\<exists>r'. lookup t m k = Some r' \<and> ik_id r' = ik_id r \<and> ik_request_hash r' = ik_request_hash r"
    by simp
qed

lemma start_records:
  assumes "start race m k op hash s = (Inr out, t)"
  shows "\<exists>r. lookup t m k = Some r \<and> ik_id r = io_record out \<and> ik_request_hash r = hash"
proof (cases "lookup s m k")
  case (Some r)
  with start_known [OF Some, of race op hash] assms show ?thesis by (auto split: if_splits)
next
  case None
  show ?thesis
  proof (cases "lookup (race s) m k")
    case (Some r)
    with start_raced [of s m k race r op hash, OF None Some] assms show ?thesis by (auto split: if_splits)
  next
    case new: None
    from start_new [of s m k race op hash, OF None new] assms show ?thesis by auto
  qed
qed

lemma second_start:
  assumes "start race m k op hash s = (Inr out, t)" and "keys_kept lookup t u"
  shows "start race' m k op' hash' u =
    (if hash' = hash then Inr \<lparr>io_record = io_record out, io_replay = True\<rparr>
     else Inl (IdempotencyConflictError k), u)"
proof -
  obtain r where "lookup t m k = Some r" "ik_id r = io_record out" "ik_request_hash r = hash"
    using start_records [OF assms(1)] by blast
  then obtain r' where "lookup u m k = Some r'" "ik_id r' = io_record out" "ik_request_hash r' = hash"
    using assms(2) unfolding keys_kept_def by metis
  then show ?thesis using start_known [of u m k r' race' op' hash'] by auto
qed

end

lemma idempotency_record_append:
  "idempotency_record (s\<lparr>db_idempotency := db_idempotency s @ [r]\<rparr>) m k =
     (case idempotency_record s m k of Some x \<Rightarrow> Some x
      | None \<Rightarrow> if ik_merchant_id r = m \<and> ik_key r = k then Some r else None)"
proof -
  have "find P (xs @ [r]) = (case find P xs of Some x \<Rightarrow> Some x | None \<Rightarrow> if P r then Some r else None)"
    for P and xs :: "IdempotencyKey list"
    by (induction xs) auto
  then show ?thesis by (simp add: idempotency_record_def)
qed

lemma idempotency_record_key:
  "idempotency_record s m k = Some r \<Longrightarrow> ik_merchant_id r = m \<and> ik_key r = k"
  by (auto simp: idempotency_record_def find_Some_iff)

lemma idempotency_record_uuid [simp]: "idempotency_record (s\<lparr>db_next_uuid := n\<rparr>) = idempotency_record s"
  by (simp add: idempotency_record_def fun_eq_iff)

lemma find_update_row_other:
  assumes "\<And>r. P (f r) = P r"
  shows "find P (update_row key i f rows) = map_option (\<lambda>r. if key r = i then f r else r) (find P rows)"
  using assms by (induction rows) (auto simp: update_row_def)

interpretation idem: idempotency_store idempotency_record begin_idempotent_operation update_idempotency
proof
  fix s m k r race op hash
  assume "idempotency_record s m k = Some r"
  then show "begin_idempotent_operation race m k op hash s =
      (if ik_request_hash r = hash then Inr \<lparr>io_record = ik_id r, io_replay = True\<rparr>
       else Inl (IdempotencyConflictError k), s)"
    using idempotency_record_key [of s m k r]
    by (simp add: begin_idempotent_operation_def replay_existing_def prog_simps)
next
  fix s m k race op hash
  assume new: "idempotency_record s m k = None" "idempotency_record (race s) m k = None"
  show "\<exists>r t. begin_idempotent_operation race m k op hash s =
        (Inr \<lparr>io_record = ik_id r, io_replay = False\<rparr>, t)
        \<and> idempotency_record t m k = Some r \<and> ik_request_hash r = hash \<and> ik_status r = Idem_IN_PROGRESS
        \<and> ik_metadata r = []
        \<and> (\<forall>m' k'. (m', k') \<noteq> (m, k) \<longrightarrow> idempotency_record t m' k' = idempotency_record (race s) m' k')"
    using new
    by (auto simp: begin_idempotent_operation_def insert_idempotency_def uuid4_def now_def prog_simps
        idempotency_record_append [of "race s\<lparr>db_next_uuid := _\<rparr>", simplified] split: option.split)
next
  fix s m k race r op hash
  assume "idempotency_record s m k = None" and raced: "idempotency_record (race s) m k = Some r"
  then show "\<exists>t. begin_idempotent_operation race m k op hash s =
        (if ik_request_hash r = hash then Inr \<lparr>io_record = ik_id r, io_replay = True\<rparr>
         else Inl (IdempotencyConflictError k), t) \<and> idempotency_record t = idempotency_record (race s)"
    using idempotency_record_key [OF raced]
    by (auto simp: begin_idempotent_operation_def insert_idempotency_def uuid4_def now_def
        replay_existing_def prog_simps)
next
  fix f i s x t m k r
  assume f: "\<And>r. ik_merchant_id (f r) = ik_merchant_id r \<and> ik_key (f r) = ik_key r"
    and "update_idempotency i f s = (x, t)" "idempotency_record s m k = Some r"
  then show "idempotency_record t m k = Some (if ik_id r = i then f r else r)"
    by (auto simp: update_idempotency_def prog_simps idempotency_record_def find_update_row_other)
qed

interpretation idem_keys: step_frame "keys_kept idempotency_record"
  by unfold_locales (rule idem.keys_kept_refl, rule idem.keys_kept_trans)

lemma keys_kept_update:
  assumes "\<And>r. ik_merchant_id (f r) = ik_merchant_id r \<and> ik_key (f r) = ik_key r"
    "\<And>r. ik_id (f r) = ik_id r \<and> ik_request_hash (f r) = ik_request_hash r"
  shows "obeys (keys_kept idempotency_record) (update_idempotency i f)"
  unfolding obeys_def using idem.keys_kept_finish [OF assms] by (metis prod.collapse)

lemma keys_kept_finishing:
  "obeys (keys_kept idempotency_record) (complete_idempotent_operation i response ref)"
  "obeys (keys_kept idempotency_record) (fail_idempotent_operation i code)"
  unfolding complete_idempotent_operation_def fail_idempotent_operation_def now_def
  by (intro idem_keys.frame_rules keys_kept_update; simp)+

text \<open>
  C25. \<^bold>\<open>One request per key.\<close> When an operation was begun under a key, every later request of the
  merchant with that key either replays the same record, when it is the same request, or is refused
  as a conflict, and changes nothing; also when a concurrent request won the race for the key. A
  request is new exactly when nobody else recorded the key first; completing or failing an operation
  never frees its key.
\<close>

theorem idempotency_contract:
  assumes "begin_idempotent_operation race m k op hash s = (Inr out, t)"
    and "keys_kept idempotency_record t u"
  shows "begin_idempotent_operation race' m k op' hash' u =
      (if hash' = hash then Inr \<lparr>io_record = io_record out, io_replay = True\<rparr>
       else Inl (IdempotencyConflictError k), u)
    \<and> (io_replay out \<longleftrightarrow> idempotency_record s m k \<noteq> None \<or> idempotency_record (race s) m k \<noteq> None)
    \<and> keys_kept idempotency_record u (snd (complete_idempotent_operation i response ref u))
    \<and> keys_kept idempotency_record u (snd (fail_idempotent_operation i code u))"
proof -
  have "io_replay out \<longleftrightarrow> idempotency_record s m k \<noteq> None \<or> idempotency_record (race s) m k \<noteq> None"
    using assms(1) idem.start_known [of s m k _ race op hash] idem.start_new [of s m k race op hash]
      idem.start_raced [of s m k race _ op hash]
    by (cases "idempotency_record s m k"; cases "idempotency_record (race s) m k") (auto split: if_splits)
  with idem.second_start [OF assms] keys_kept_finishing show ?thesis unfolding obeys_def by blast
qed

theorem idempotency_contract_witness:
  "\<exists>out t. begin_idempotent_operation id 1 ''key'' ''retry_payment'' ''h1'' demo_db = (Inr out, t)
     \<and> \<not> io_replay out
     \<and> fst (begin_idempotent_operation id 1 ''key'' ''retry_payment'' ''h1'' t)
         = Inr \<lparr>io_record = io_record out, io_replay = True\<rparr>
     \<and> fst (begin_idempotent_operation id 1 ''key'' ''retry_payment'' ''h2'' t)
         = Inl (IdempotencyConflictError ''key'')"
proof -
  have none: "idempotency_record demo_db 1 ''key'' = None" by (simp add: idempotency_record_def demo_db_def)
  then obtain out t where run: "begin_idempotent_operation id 1 ''key'' ''retry_payment'' ''h1'' demo_db = (Inr out, t)"
    using idem.start_new [of demo_db 1 "''key''" id "''retry_payment''" "''h1''"] by auto
  from idempotency_contract [OF run idem.keys_kept_refl, where race' = id and op' = "''retry_payment''"] none run
  show ?thesis by (intro exI [of _ out] exI [of _ t]) simp
qed

subsection \<open>Contracts\<close>

text \<open>
  The contract of everything but verification: the database stays well formed and revenue is not
  touched. One set of rules for both halves.
\<close>

definition creditless :: "'a dbprog \<Rightarrow> bool" where
  "creditless m \<longleftrightarrow> keeps db_ok m (\<lambda>_. True) \<and> obeys (db_evolves case_no_credit) m"

lemma creditlessI:
  "keeps db_ok m (\<lambda>_. True) \<Longrightarrow> obeys (db_evolves case_no_credit) m \<Longrightarrow> creditless m"
  by (simp add: creditless_def)

lemma creditless_safe: "creditless m \<Longrightarrow> safe m"
  unfolding creditless_def by (blast intro: safe_no_credit)

lemma creditlessD:
  assumes "creditless m" and "m s = (r, t)"
  shows "db_ok s \<Longrightarrow> db_ok t" "db_evolves case_no_credit s t"
  using assms unfolding creditless_def by (blast dest: keepsD obeysD)+

lemma creditless_basic:
  "creditless (ret x)" "creditless (raise e)" "creditless (lift r)" "creditless (gets f)"
  "creditless now" "creditless uuid4" "creditless (deref g i)" "creditless (record_audit m ev c a act p n k)"
  "creditless (update_action i fa)" "creditless (update_approval i fp)" "creditless (lock_recovery_case i)"
  by (intro creditlessI ok_rules no_credit_rules)+

lemma creditless_transition:
  "target \<noteq> Case_RECOVERED \<Longrightarrow> creditless (transition_case i target actor expected)"
  by (intro creditlessI ok_rules no_credit_rules)

lemma creditless_bind: "creditless m \<Longrightarrow> (\<And>x. creditless (f x)) \<Longrightarrow> creditless (bind m f)"
  unfolding creditless_def by (auto intro: keeps_bind no_credit.obeys_bind)

lemma creditless_seqp: "creditless m \<Longrightarrow> creditless n \<Longrightarrow> creditless (seqp m n)"
  unfolding seqp_def by (rule creditless_bind)

lemma creditless_catch: "creditless m \<Longrightarrow> (\<And>e. creditless (g e)) \<Longrightarrow> creditless (catch m g)"
  unfolding creditless_def by (auto intro: keeps_catch no_credit.obeys_catch)

lemma creditless_if: "(b \<Longrightarrow> creditless m) \<Longrightarrow> (\<not> b \<Longrightarrow> creditless n) \<Longrightarrow> creditless (if b then m else n)"
  by simp

lemma creditless_unless: "(\<not> b \<Longrightarrow> creditless m) \<Longrightarrow> creditless (unless b m)"
  by (simp add: unless_def creditless_basic)

lemma creditless_case_option:
  "(v = None \<Longrightarrow> creditless m) \<Longrightarrow> (\<And>x. v = Some x \<Longrightarrow> creditless (f x)) \<Longrightarrow>
   creditless (case v of None \<Rightarrow> m | Some x \<Rightarrow> f x)"
  by (cases v) simp_all

lemma creditless_case_sum:
  "(\<And>e. v = Inl e \<Longrightarrow> creditless (f e)) \<Longrightarrow> (\<And>x. v = Inr x \<Longrightarrow> creditless (g x)) \<Longrightarrow>
   creditless (case v of Inl e \<Rightarrow> f e | Inr x \<Rightarrow> g x)"
  by (cases v) simp_all

lemma creditless_let: "(\<And>x. creditless (f x)) \<Longrightarrow> creditless (let x = v in f x)"
  by (simp add: Let_def)

lemmas creditless_rules =
  creditless_basic creditless_bind creditless_seqp creditless_catch creditless_if creditless_unless
  creditless_case_option creditless_case_sum creditless_let

lemma creditless_other:
  assumes "\<And>s r t. m s = (r, t) \<Longrightarrow> db_cases t = db_cases s \<and> db_payments t = db_payments s
      \<and> db_audit t = db_audit s \<and> db_next_uuid s \<le> db_next_uuid t"
  shows "creditless m"
proof (rule creditlessI)
  show "keeps db_ok m (\<lambda>_. True)" by (rule keeps_ok_same) (use assms in blast)
  have "db_evolves case_no_credit s (snd (m s))" for s
    using assms [of s "fst (m s)" "snd (m s)"]
    by (simp add: db_evolves_def get_case_unscoped_def no_credit.K_refl)
  then show "obeys (db_evolves case_no_credit) m" by (simp add: obeys_def)
qed

lemma creditless_modify:
  "(\<And>s. db_cases (g s) = db_cases s \<and> db_payments (g s) = db_payments s \<and> db_audit (g s) = db_audit s
      \<and> db_next_uuid s \<le> db_next_uuid (g s)) \<Longrightarrow> creditless (modify g)"
  by (rule creditless_other) (auto simp: modify_def)

lemma creditless_race: "safe_race race \<Longrightarrow> creditless (modify race)"
  by (rule creditlessI) (auto simp: safe_race_def keeps_def obeys_def modify_def)

lemma creditless_idempotency:
  "creditless (update_idempotency i f)" "creditless (insert_idempotency row)"
  "creditless (complete_idempotent_operation i response ref)" "creditless (fail_idempotent_operation i code)"
  by (rule creditless_other; auto simp: update_idempotency_def insert_idempotency_def uuid4_def now_def prog_simps
      complete_idempotent_operation_def fail_idempotent_operation_def split: if_splits)+

lemma creditless_begin: "safe_race race \<Longrightarrow> creditless (begin_idempotent_operation race m k op hash)"
  unfolding begin_idempotent_operation_def replay_existing_def
  by (intro creditless_rules creditless_race creditless_idempotency)

lemma creditless_ingest:
  assumes "safe_race race"
  shows "creditless (ingest race up event m)"
  using assms unfolding safe_race_def
  by (intro creditlessI keeps_ok_ingest ingest_no_credit) blast+

lemma creditless_policy:
  "creditless (build_policy_context i settings)" "creditless (evaluate_and_persist ctx proposed actor)"
  by (intro creditlessI keeps_ok_build_policy_context build_policy_context_no_credit
      keeps_ok_evaluate_and_persist evaluate_and_persist_no_credit)+

end
