(* ===== verification/Simulator.thy ===== *)
theory Simulator
  imports Events
begin

text \<open>
  \<^verbatim>\<open>packages/providers/recoverai_providers\<close>: the provider-neutral requests and snapshots
  (\<^verbatim>\<open>models.py\<close>), the capture probabilities and outcomes of a simulated attempt (\<^verbatim>\<open>outcomes.py\<close>), the
  action-conditioned recovery probabilities (\<^verbatim>\<open>interventions.py\<close>), the deterministic identifiers and
  events (\<^verbatim>\<open>events.py\<close>) and the in-memory provider itself (\<^verbatim>\<open>provider.py\<close>). The provider is a state
  (\<open>Simulator\<close>) with operations in the program monad; its lock makes each operation atomic. A provider
  is seen by its clients through the locale \<open>payment_provider\<close>, the contract of \<^verbatim>\<open>base.py\<close>, which is
  interpreted on the simulator. Decimal divisions are exact; floats are their rational values.
  \<^verbatim>\<open>sha256\<close> and the first number of a seeded generator are fields of the parameter \<open>Host\<close>.
\<close>

subsection \<open>Requests and snapshots\<close>

datatype FailureReason =
    TEMPORARY_BANK_ERROR | INSUFFICIENT_FUNDS | EXPIRED_CARD | DECLINED | NETWORK_TIMEOUT
  | MANDATE_FAILURE | CUSTOMER_CANCELLED | UNKNOWN_FAILURE

fun failure_value :: "FailureReason \<Rightarrow> string" where
  "failure_value TEMPORARY_BANK_ERROR = ''TEMPORARY_BANK_ERROR''"
| "failure_value INSUFFICIENT_FUNDS = ''INSUFFICIENT_FUNDS''"
| "failure_value EXPIRED_CARD = ''EXPIRED_CARD''"
| "failure_value DECLINED = ''DECLINED''"
| "failure_value NETWORK_TIMEOUT = ''NETWORK_TIMEOUT''"
| "failure_value MANDATE_FAILURE = ''MANDATE_FAILURE''"
| "failure_value CUSTOMER_CANCELLED = ''CUSTOMER_CANCELLED''"
| "failure_value UNKNOWN_FAILURE = ''UNKNOWN''"

definition all_failures :: "FailureReason list" where
  "all_failures = [TEMPORARY_BANK_ERROR, INSUFFICIENT_FUNDS, EXPIRED_CARD, DECLINED, NETWORK_TIMEOUT,
     MANDATE_FAILURE, CUSTOMER_CANCELLED, UNKNOWN_FAILURE]"

record CustomerHistory =
  ch_prior_failures :: int
  ch_prior_captures :: int
  ch_lifetime_value :: rat

definition default_history :: CustomerHistory where
  "default_history = \<lparr>ch_prior_failures = 0, ch_prior_captures = 0, ch_lifetime_value = 0\<rparr>"

record CreateOrderRequest =
  co_merchant_reference :: string
  co_amount :: rat
  co_currency :: string
  co_metadata :: dict

record CreatePaymentRequest =
  cp_merchant_reference :: string
  cp_amount :: rat
  cp_currency :: string
  cp_customer_reference :: "string option"
  cp_provider_order_id :: "string option"
  cp_attempt_number :: int
  cp_customer_history :: CustomerHistory
  cp_intended_status :: "PaymentStatus option"
  cp_failure_reason :: "FailureReason option"
  cp_metadata :: dict

record CreatePaymentLinkRequest =
  cl_merchant_reference :: string
  cl_amount :: rat
  cl_currency :: string
  cl_customer_reference :: "string option"
  cl_description :: json
  cl_metadata :: dict

record PaymentLinkSnapshot =
  ls_provider :: string
  ls_provider_payment_link_id :: string
  ls_merchant_reference :: string
  ls_amount :: rat
  ls_currency :: string
  ls_status :: string
  ls_url :: string
  ls_simulated :: bool
  ls_metadata :: dict

record OrderSnapshot =
  os_provider :: string
  os_provider_order_id :: string
  os_merchant_reference :: string
  os_amount :: rat
  os_currency :: string
  os_status :: PaymentStatus
  os_metadata :: dict

record PaymentSnapshot =
  ps_provider :: string
  ps_provider_payment_id :: string
  ps_provider_order_id :: "string option"
  ps_merchant_reference :: string
  ps_amount :: rat
  ps_currency :: string
  ps_status :: PaymentStatus
  ps_attempt_number :: int
  ps_failure_reason :: "FailureReason option"
  ps_payment_method :: "string option"
  ps_occurred_at :: timestamp
  ps_metadata :: dict

definition SIMULATOR :: string where
  "SIMULATOR = ''SIMULATOR''"

subsection \<open>Outcomes of an attempt\<close>

definition NEVER_CAPTURE :: "FailureReason list" where
  "NEVER_CAPTURE = [CUSTOMER_CANCELLED, MANDATE_FAILURE]"

definition capture_probability :: "FailureReason option \<Rightarrow> int \<Rightarrow> CustomerHistory \<Rightarrow> rat" where
  "capture_probability failure_reason attempt_number history =
     (let attempt = of_int (max attempt_number 1);
          prior_fail = of_int (max (ch_prior_failures history) 0) in
      case failure_reason of
        Some CUSTOMER_CANCELLED \<Rightarrow> 0
      | Some MANDATE_FAILURE \<Rightarrow> 0
      | Some EXPIRED_CARD \<Rightarrow> 2/100
      | Some TEMPORARY_BANK_ERROR \<Rightarrow>
          min (max (25/100 + 15/100 * (attempt - 1) - 3/100 * prior_fail) (5/100)) (80/100)
      | Some NETWORK_TIMEOUT \<Rightarrow> min (20/100 + 15/100 * (attempt - 1)) (75/100)
      | Some INSUFFICIENT_FUNDS \<Rightarrow>
          min (max (8/100 + 4/100 * (attempt - 1) - 2/100 * prior_fail) (2/100)) (35/100)
      | Some DECLINED \<Rightarrow> min (12/100 + 5/100 * (attempt - 1)) (40/100)
      | _ \<Rightarrow> min (15/100 + 5/100 * attempt) (50/100))"

definition roll_attempt_outcome ::
  "rat \<Rightarrow> FailureReason option \<Rightarrow> int \<Rightarrow> CustomerHistory \<Rightarrow> PaymentStatus option \<Rightarrow>
   PaymentStatus \<times> FailureReason option" where
  "roll_attempt_outcome draw failure_reason attempt_number history intended_status =
     (case intended_status of
        Some status \<Rightarrow>
          if status = Pay_FAILED then
            (status, Some (case failure_reason of Some r \<Rightarrow> r | None \<Rightarrow> UNKNOWN_FAILURE))
          else if status = Pay_CANCELLED then
            (status, Some (case failure_reason of Some r \<Rightarrow> r | None \<Rightarrow> CUSTOMER_CANCELLED))
          else (status, None)
      | None \<Rightarrow>
          let reason = (case failure_reason of Some r \<Rightarrow> r | None \<Rightarrow> UNKNOWN_FAILURE) in
          if reason = CUSTOMER_CANCELLED then (Pay_CANCELLED, Some reason)
          else if draw < capture_probability (Some reason) attempt_number history
          then (Pay_CAPTURED, None)
          else (Pay_FAILED, Some reason))"

subsection \<open>Interventions\<close>

record InterventionContext =
  ic_failure_reason :: "FailureReason option"
  ic_attempt_number :: int
  ic_history :: CustomerHistory
  ic_historical_success_rate :: rat
  ic_historical_recovery_rate :: rat
  ic_communication_count :: int
  ic_previous_discount_usage :: rat
  ic_cart_age_hours :: "rat option"
  ic_customer_lifetime_value :: rat
  ic_amount :: rat
  ic_hour_of_day :: int
  ic_case_type :: string

definition clip_prob :: "rat \<Rightarrow> rat" where
  "clip_prob v = (if v < 0 then 0 else if v > 95/100 then 95/100 else quantize_digits 4 v)"

definition dec :: "rat \<Rightarrow> rat" where
  "dec v = quantize_digits 6 v"

text \<open>The local variables all branches share.\<close>

record InterventionTerms =
  it_retry_base :: rat
  it_success :: rat
  it_loyalty :: rat
  it_fatigue :: rat
  it_discount_used :: rat
  it_cart_pen :: rat
  it_attempt_pen :: rat
  it_high_amount_pen :: rat
  it_quiet_hour :: bool
  it_abandoned :: bool

definition intervention_terms :: "InterventionContext \<Rightarrow> InterventionTerms" where
  "intervention_terms ctx =
     (let attempt = max (ic_attempt_number ctx) 1;
          success = dec (min (max (ic_historical_success_rate ctx) 0) 1);
          prior_recovery = dec (min (max (ic_historical_recovery_rate ctx) 0) 1);
          amount_ratio = (if ic_customer_lifetime_value ctx > 0
             then min (ic_amount ctx / ic_customer_lifetime_value ctx) 5 else 0) in
      \<lparr>it_retry_base = capture_probability (ic_failure_reason ctx) attempt (ic_history ctx),
       it_success = success,
       it_loyalty = 12/100 * success + 8/100 * prior_recovery,
       it_fatigue = min 1 (of_int (max (ic_communication_count ctx) 0) / 8),
       it_discount_used = dec (min (max (ic_previous_discount_usage ctx) 0) 1),
       it_cart_pen = (case ic_cart_age_hours ctx of
          None \<Rightarrow> 0 | Some hours \<Rightarrow> min (28/100) (max hours 0 / 720 * (28/100))),
       it_attempt_pen = 45/1000 * of_int (max (attempt - 1) 0),
       it_high_amount_pen = 4/100 * max (amount_ratio - 1) 0,
       it_quiet_hour = (ic_hour_of_day ctx \<ge> 21 \<or> ic_hour_of_day ctx < 8),
       it_abandoned = (ic_case_type ctx = ''ABANDONED_CHECKOUT'')\<rparr>)"

definition hard_failure_probability :: "FailureReason \<Rightarrow> rat \<Rightarrow> RecoveryActionType \<Rightarrow> rat" where
  "hard_failure_probability reason success action =
     (if action = ESCALATE then clip_prob (4/100 + 4/100 * success)
      else if action = DO_NOTHING then 1/100
      else if action = SEND_PAYMENT_LINK \<and> reason = MANDATE_FAILURE
      then clip_prob (3/100 + 5/100 * success)
      else 1/100)"

definition action_score :: "InterventionTerms \<Rightarrow> FailureReason option \<Rightarrow> RecoveryActionType \<Rightarrow> rat" where
  "action_score t reason action = (case action of
     RETRY_NOW \<Rightarrow>
       let p = it_retry_base t + it_loyalty t - it_cart_pen t - it_attempt_pen t - it_high_amount_pen t in
       (case reason of
          Some INSUFFICIENT_FUNDS \<Rightarrow> p * (62/100)
        | Some TEMPORARY_BANK_ERROR \<Rightarrow> min (90/100) (p + 10/100)
        | Some NETWORK_TIMEOUT \<Rightarrow> min (85/100) (p + 6/100)
        | Some EXPIRED_CARD \<Rightarrow> min p (6/100)
        | _ \<Rightarrow> p)
   | RETRY_LATER \<Rightarrow>
       let p = it_retry_base t + it_loyalty t - it_cart_pen t - 2/100 * it_attempt_pen t
               - it_high_amount_pen t in
       (case reason of
          Some INSUFFICIENT_FUNDS \<Rightarrow>
            min (58/100) (it_retry_base t * (215/100) + it_loyalty t - it_cart_pen t)
        | Some TEMPORARY_BANK_ERROR \<Rightarrow> it_retry_base t + it_loyalty t - 3/100
        | Some EXPIRED_CARD \<Rightarrow> min p (7/100)
        | _ \<Rightarrow> p)
   | SEND_PAYMENT_LINK \<Rightarrow>
       (case reason of
          Some EXPIRED_CARD \<Rightarrow> 42/100 + 22/100 * it_success t - it_cart_pen t
        | Some DECLINED \<Rightarrow> 22/100 + it_loyalty t
        | Some TEMPORARY_BANK_ERROR \<Rightarrow> it_retry_base t * (55/100) + 8/100
        | _ \<Rightarrow> 18/100 + it_loyalty t + 8/100 * it_success t - it_cart_pen t - it_attempt_pen t)
       + (if it_abandoned t then 6/100 else 0)
   | SEND_REMINDER \<Rightarrow>
       (14/100 + 20/100 * it_success t - 22/100 * it_fatigue t - it_cart_pen t - it_attempt_pen t
        - (if it_quiet_hour t then 5/100 else 0) + (if it_abandoned t then 4/100 else 0))
       * (if reason = Some EXPIRED_CARD then 45/100 else 1)
   | OFFER_DISCOUNT \<Rightarrow>
       let novelty = 1 - 70/100 * it_discount_used t in
       (20/100 + 16/100 * it_success t + 8/100 * novelty - it_cart_pen t - it_high_amount_pen t
        + (if reason = Some INSUFFICIENT_FUNDS then 6/100 else 0)
        + (if it_abandoned t then 5/100 else 0)) * novelty
   | DO_NOTHING \<Rightarrow>
       25/1000 + 6/100 * it_success t - 15/1000 * it_fatigue t
       - (if it_abandoned t then it_cart_pen t * (5/10) else 0)
   | ESCALATE \<Rightarrow> 8/100 + 12/100 * it_success t - 3/100 * it_fatigue t)"

definition intervention_recovery_probability :: "InterventionContext \<Rightarrow> string \<Rightarrow> rat res" where
  "intervention_recovery_probability ctx action =
     bindE (parse_enum action_value all_actions action) (\<lambda>parsed.
     let t = intervention_terms ctx in
     case ic_failure_reason ctx of
       Some reason \<Rightarrow>
         if reason \<in> set NEVER_CAPTURE
         then Inr (hard_failure_probability reason (it_success t) parsed)
         else Inr (clip_prob (action_score t (Some reason) parsed))
     | None \<Rightarrow> Inr (clip_prob (action_score t None parsed)))"

subsection \<open>Identifiers and events\<close>

fun status_to_event :: "PaymentStatus \<Rightarrow> string option" where
  "status_to_event Pay_CREATED = Some ''payment.created''"
| "status_to_event Pay_AUTHORIZED = Some ''payment.authorized''"
| "status_to_event Pay_CAPTURED = Some ''payment.captured''"
| "status_to_event Pay_FAILED = Some ''payment.failed''"
| "status_to_event Pay_REFUNDED = Some ''payment.refunded''"
| "status_to_event Pay_CANCELLED = Some ''payment.cancelled''"
| "status_to_event _ = None"

definition event_type_for_status :: "PaymentStatus \<Rightarrow> string" where
  "event_type_for_status status = (case status_to_event status of
     None \<Rightarrow> ''payment.'' @ lower (payment_status_value status) | Some e \<Rightarrow> e)"

definition deterministic_event_id :: "Host \<Rightarrow> int \<Rightarrow> string \<Rightarrow> string \<Rightarrow> int \<Rightarrow> string" where
  "deterministic_event_id h seed provider_payment_id event_type attempt_number =
     ''evt_sim_'' @ take 20 (host_sha256 h
       (show_int seed @ '':'' @ provider_payment_id @ '':'' @ event_type @ '':'' @ show_int attempt_number))"

definition deterministic_payment_id :: "Host \<Rightarrow> int \<Rightarrow> string \<Rightarrow> int \<Rightarrow> string" where
  "deterministic_payment_id h seed merchant_reference n =
     ''pay_sim_'' @ take 16 (host_sha256 h
       (show_int seed @ '':pay:'' @ merchant_reference @ '':'' @ show_int n))"

definition deterministic_order_id :: "Host \<Rightarrow> int \<Rightarrow> string \<Rightarrow> int \<Rightarrow> string" where
  "deterministic_order_id h seed merchant_reference n =
     ''order_sim_'' @ take 16 (host_sha256 h
       (show_int seed @ '':order:'' @ merchant_reference @ '':'' @ show_int n))"

definition deterministic_payment_link_id :: "Host \<Rightarrow> int \<Rightarrow> string \<Rightarrow> int \<Rightarrow> string" where
  "deterministic_payment_link_id h seed merchant_reference n =
     ''plink_sim_'' @ take 16 (host_sha256 h
       (show_int seed @ '':plink:'' @ merchant_reference @ '':'' @ show_int n))"

definition str_or_null :: "string option \<Rightarrow> json" where
  "str_or_null x = (case x of None \<Rightarrow> JNull | Some s \<Rightarrow> JStr s)"

definition build_provider_event ::
  "Host \<Rightarrow> PaymentSnapshot \<Rightarrow> int \<Rightarrow> dict \<Rightarrow> timestamp option \<Rightarrow> string option \<Rightarrow> timestamp \<Rightarrow> ProviderEvent" where
  "build_provider_event h snapshot seed extra_payload occurred_at event_type t =
     (let resolved_type = (case event_type of Some e \<Rightarrow> e | None \<Rightarrow> event_type_for_status (ps_status snapshot));
          moment = (case occurred_at of Some x \<Rightarrow> x | None \<Rightarrow> t);
          payload =
            [(''provider_payment_id'', JStr (ps_provider_payment_id snapshot)),
             (''provider_order_id'', str_or_null (ps_provider_order_id snapshot)),
             (''amount'', JDec (ps_amount snapshot)), (''currency'', JStr (ps_currency snapshot)),
             (''status'', JStr (payment_status_value (ps_status snapshot))),
             (''attempt_number'', JInt (ps_attempt_number snapshot)),
             (''failure_reason'', str_or_null (map_option failure_value (ps_failure_reason snapshot))),
             (''payment_method'', str_or_null (ps_payment_method snapshot)),
             (''merchant_reference'', JStr (ps_merchant_reference snapshot)),
             (''occurred_at'', JTime moment)]
      in \<lparr>pv_provider = SIMULATOR,
          pv_event_id = deterministic_event_id h seed (ps_provider_payment_id snapshot) resolved_type
                          (ps_attempt_number snapshot),
          pv_event_type = resolved_type, pv_occurred_at = moment,
          pv_provider_resource_id = ps_provider_payment_id snapshot,
          pv_merchant_reference = ps_merchant_reference snapshot,
          pv_payload = dict_update payload extra_payload, pv_signature_valid = Some True\<rparr>)"

subsection \<open>The simulated provider\<close>

record Simulator =
  sim_seed :: int
  sim_sequence :: int
  sim_orders :: "string \<rightharpoonup> OrderSnapshot"
  sim_payments :: "string \<rightharpoonup> PaymentSnapshot"
  sim_order_payments :: "string \<rightharpoonup> string list"
  sim_payment_links :: "string \<rightharpoonup> PaymentLinkSnapshot"

definition new_simulator :: "int \<Rightarrow> Simulator" where
  "new_simulator seed = \<lparr>sim_seed = seed, sim_sequence = 0, sim_orders = Map.empty,
     sim_payments = Map.empty, sim_order_payments = Map.empty, sim_payment_links = Map.empty\<rparr>"

type_synonym 'a simprog = "(Simulator, 'a) prog"

definition next_sequence :: "int simprog" where
  "next_sequence = seqp (modify (\<lambda>s. s\<lparr>sim_sequence := sim_sequence s + 1\<rparr>)) (gets sim_sequence)"

definition sim_draw :: "Host \<Rightarrow> int \<Rightarrow> string \<Rightarrow> int \<Rightarrow> rat" where
  "sim_draw h seed payment_id attempt =
     host_random h (join '':'' [show_int seed, payment_id, show_int attempt])"

definition PROVIDER_NOT_FOUND :: py_error where
  "PROVIDER_NOT_FOUND = ProviderError ''PROVIDER_RESOURCE_NOT_FOUND''"

definition add_order_payments :: "string \<Rightarrow> (string list \<Rightarrow> string list) \<Rightarrow> Simulator \<Rightarrow> Simulator" where
  "add_order_payments oid f s =
     s\<lparr>sim_order_payments := (sim_order_payments s)(oid \<mapsto>
        f (case sim_order_payments s oid of None \<Rightarrow> [] | Some ids \<Rightarrow> ids))\<rparr>"

definition create_order :: "Host \<Rightarrow> CreateOrderRequest \<Rightarrow> OrderSnapshot simprog" where
  "create_order h req =
     bind next_sequence (\<lambda>n.
     bind (gets sim_seed) (\<lambda>seed.
     let oid = deterministic_order_id h seed (co_merchant_reference req) n;
         order = \<lparr>os_provider = SIMULATOR, os_provider_order_id = oid,
                  os_merchant_reference = co_merchant_reference req, os_amount = co_amount req,
                  os_currency = co_currency req, os_status = Pay_CREATED,
                  os_metadata = co_metadata req\<rparr> in
     seqp (modify (\<lambda>s. s\<lparr>sim_orders := (sim_orders s)(oid \<mapsto> order)\<rparr>))
     (seqp (modify (add_order_payments oid id))
           (ret order))))"

definition order_for_payment :: "Host \<Rightarrow> CreatePaymentRequest \<Rightarrow> string simprog" where
  "order_for_payment h req = (case cp_provider_order_id req of
     None \<Rightarrow>
       bind (create_order h \<lparr>co_merchant_reference = cp_merchant_reference req,
               co_amount = cp_amount req, co_currency = cp_currency req, co_metadata = []\<rparr>)
         (\<lambda>order. ret (os_provider_order_id order))
   | Some oid \<Rightarrow>
       bind (gets (\<lambda>s. sim_orders s oid)) (\<lambda>known.
         seqp (unless (known \<noteq> None) (modify (\<lambda>s. s\<lparr>sim_orders := (sim_orders s)(oid \<mapsto>
                 \<lparr>os_provider = SIMULATOR, os_provider_order_id = oid,
                  os_merchant_reference = cp_merchant_reference req, os_amount = cp_amount req,
                  os_currency = cp_currency req, os_status = Pay_CREATED, os_metadata = []\<rparr>)\<rparr>)))
              (ret oid)))"

definition new_snapshot ::
  "Host \<Rightarrow> timestamp \<Rightarrow> CreatePaymentRequest \<Rightarrow> int \<Rightarrow> string \<Rightarrow> string \<Rightarrow> PaymentSnapshot" where
  "new_snapshot h t req seed pid oid =
     (let (status, failure_reason) =
            roll_attempt_outcome (sim_draw h seed pid (cp_attempt_number req)) (cp_failure_reason req)
              (cp_attempt_number req) (cp_customer_history req) (cp_intended_status req)
      in \<lparr>ps_provider = SIMULATOR, ps_provider_payment_id = pid,
          ps_provider_order_id = Some oid, ps_merchant_reference = cp_merchant_reference req,
          ps_amount = cp_amount req, ps_currency = cp_currency req, ps_status = status,
          ps_attempt_number = cp_attempt_number req, ps_failure_reason = failure_reason,
          ps_payment_method = Some ''card'', ps_occurred_at = t, ps_metadata = cp_metadata req\<rparr>)"

definition create_payment :: "Host \<Rightarrow> timestamp \<Rightarrow> CreatePaymentRequest \<Rightarrow> PaymentSnapshot simprog" where
  "create_payment h t req =
     bind next_sequence (\<lambda>n.
     bind (gets sim_seed) (\<lambda>seed.
     let pid = deterministic_payment_id h seed (cp_merchant_reference req) n in
     bind (order_for_payment h req) (\<lambda>oid.
     let snapshot = new_snapshot h t req seed pid oid in
     seqp (modify (\<lambda>s. s\<lparr>sim_payments := (sim_payments s)(pid \<mapsto> snapshot)\<rparr>))
     (seqp (modify (add_order_payments oid (\<lambda>ids. ids @ [pid])))
           (ret snapshot)))))"

definition fetch_payment :: "string \<Rightarrow> PaymentSnapshot simprog" where
  "fetch_payment pid = bind (gets (\<lambda>s. sim_payments s pid)) (\<lambda>p.
     case p of None \<Rightarrow> raise PROVIDER_NOT_FOUND | Some x \<Rightarrow> ret x)"

definition fetch_order_payments :: "string \<Rightarrow> PaymentSnapshot list simprog" where
  "fetch_order_payments oid = bind (gets id) (\<lambda>s.
     if sim_orders s oid = None \<and> sim_order_payments s oid = None then raise PROVIDER_NOT_FOUND
     else ret (map the (filter (\<lambda>p. p \<noteq> None)
            (map (sim_payments s) (case sim_order_payments s oid of None \<Rightarrow> [] | Some ids \<Rightarrow> ids)))))"

definition refund_payment :: "timestamp \<Rightarrow> string \<Rightarrow> PaymentSnapshot simprog" where
  "refund_payment t pid = bind (gets (\<lambda>s. sim_payments s pid)) (\<lambda>p.
     case p of
       None \<Rightarrow> raise PROVIDER_NOT_FOUND
     | Some payment \<Rightarrow>
         if ps_status payment \<notin> {Pay_CAPTURED, Pay_AUTHORIZED}
         then raise (ProviderError ''PROVIDER_REFUND_INVALID_STATE'')
         else
           let refunded = payment\<lparr>ps_status := Pay_REFUNDED, ps_occurred_at := t,
                                  ps_failure_reason := None\<rparr> in
           seqp (modify (\<lambda>s. s\<lparr>sim_payments := (sim_payments s)(pid \<mapsto> refunded)\<rparr>))
                (ret refunded))"

definition create_payment_link :: "Host \<Rightarrow> CreatePaymentLinkRequest \<Rightarrow> PaymentLinkSnapshot simprog" where
  "create_payment_link h req =
     bind next_sequence (\<lambda>n.
     bind (gets sim_seed) (\<lambda>seed.
     let link_id = deterministic_payment_link_id h seed (cl_merchant_reference req) n;
         snapshot = \<lparr>ls_provider = SIMULATOR, ls_provider_payment_link_id = link_id,
           ls_merchant_reference = cl_merchant_reference req, ls_amount = cl_amount req,
           ls_currency = cl_currency req, ls_status = ''CREATED'',
           ls_url = ''sim://payment-link/'' @ link_id, ls_simulated = True,
           ls_metadata = dict_update (cl_metadata req)
             [(''simulated'', JBool True), (''description'', cl_description req),
              (''customer_reference'', str_or_null (cl_customer_reference req))]\<rparr> in
     seqp (modify (\<lambda>s. s\<lparr>sim_payment_links := (sim_payment_links s)(link_id \<mapsto> snapshot)\<rparr>))
          (ret snapshot)))"

definition fetch_payment_link :: "string \<Rightarrow> PaymentLinkSnapshot simprog" where
  "fetch_payment_link lid = bind (gets (\<lambda>s. sim_payment_links s lid)) (\<lambda>l.
     case l of None \<Rightarrow> raise PROVIDER_NOT_FOUND | Some x \<Rightarrow> ret x)"

definition cancel_payment_link :: "string \<Rightarrow> PaymentLinkSnapshot simprog" where
  "cancel_payment_link lid = bind (gets (\<lambda>s. sim_payment_links s lid)) (\<lambda>l.
     case l of
       None \<Rightarrow> raise PROVIDER_NOT_FOUND
     | Some link \<Rightarrow>
         let cancelled = link\<lparr>ls_status := ''CANCELLED''\<rparr> in
         seqp (modify (\<lambda>s. s\<lparr>sim_payment_links := (sim_payment_links s)(lid \<mapsto> cancelled)\<rparr>))
              (ret cancelled))"

definition upper_char :: "char \<Rightarrow> char" where
  "upper_char c = (let n = of_char c :: nat in if 97 \<le> n \<and> n \<le> 122 then char_of (n - 32) else c)"

definition get_payment_provider :: "string option \<Rightarrow> int \<Rightarrow> Simulator res" where
  "get_payment_provider name seed =
     (let resolved = map upper_char
            (case name of None \<Rightarrow> SIMULATOR | Some n \<Rightarrow> if n = [] then SIMULATOR else n) in
      if resolved \<in> {SIMULATOR, ''LOCAL'', ''LOCAL_SIMULATION''} then Inr (new_simulator seed)
      else Inl (ProviderError ''PROVIDER_NOT_CONFIGURED''))"

subsection \<open>Probabilities\<close>

text \<open>
  \<^bold>\<open>Simulated captures.\<close> The probability of a capture lies between zero and four fifths, is zero
  exactly for the two failures that never capture, and does not fall with further attempts. So,
  for a draw that is not negative, an attempt after a cancelled or mandate failure is never captured,
  and a captured attempt reports no failure.
\<close>

theorem capture_probability_sound:
  assumes "0 \<le> draw" and "n \<le> n'"
  shows "0 \<le> capture_probability reason n history \<and> capture_probability reason n history \<le> 80/100
    \<and> (capture_probability reason n history = 0 \<longleftrightarrow> reason \<in> Some ` set NEVER_CAPTURE)
    \<and> capture_probability reason n history \<le> capture_probability reason n' history
    \<and> (reason \<in> Some ` set NEVER_CAPTURE \<longrightarrow>
         fst (roll_attempt_outcome draw reason n history None) \<noteq> Pay_CAPTURED)
    \<and> (fst (roll_attempt_outcome draw reason n history intended) = Pay_CAPTURED \<longrightarrow>
         snd (roll_attempt_outcome draw reason n history intended) = None)"
proof -
  define a a' f :: rat where "a = of_int (max n 1)" and "a' = of_int (max n' 1)"
    and "f = of_int (max (ch_prior_failures history) 0)"
  have a: "1 \<le> a" "a \<le> a'" and f: "0 \<le> f" using assms(2) by (simp_all add: a_def a'_def f_def)
  note unfolded = capture_probability_def Let_def a_def [symmetric] a'_def [symmetric] f_def [symmetric]
  have bounded: "0 < min x c \<and> min x c \<le> 80/100" if "0 < x" "0 < c" "c \<le> 80/100" for x c :: rat
    using that by (simp add: min_def)
  have range: "if reason \<in> Some ` set NEVER_CAPTURE then capture_probability reason n history = 0
      else 0 < capture_probability reason n history \<and> capture_probability reason n history \<le> 80/100"
  proof (cases reason)
    case None
    have "0 < capture_probability reason n history \<and> capture_probability reason n history \<le> 80/100"
      unfolding unfolded None option.case by (rule bounded) (use a(1) in simp_all)
    with None show ?thesis by auto
  next
    case (Some r)
    show ?thesis
      unfolding unfolded Some option.case NEVER_CAPTURE_def
      by (cases r; simp only: FailureReason.case list.set image_insert image_empty insert_iff empty_iff
          option.inject FailureReason.distinct simp_thms if_True if_False;
          (rule bounded)?; use a(1) in \<open>simp add: less_max_iff_disj field_simps\<close>)
  qed
  have up: "capture_probability reason n history \<le> capture_probability reason n' history"
  proof (cases reason)
    case None
    show ?thesis unfolding unfolded None option.case by (intro min.mono) (use a(2) in simp_all)
  next
    case (Some r)
    show ?thesis
      unfolding unfolded Some option.case
      by (cases r; simp only: FailureReason.case; (intro min.mono max.mono)?; use a(2) in \<open>simp add: field_simps\<close>)
  qed
  have never: "reason \<in> Some ` set NEVER_CAPTURE \<longrightarrow>
      fst (roll_attempt_outcome draw reason n history None) \<noteq> Pay_CAPTURED"
    using assms(1) by (auto simp: roll_attempt_outcome_def NEVER_CAPTURE_def capture_probability_def)
  have clean: "fst (roll_attempt_outcome draw reason n history intended) = Pay_CAPTURED \<longrightarrow>
      snd (roll_attempt_outcome draw reason n history intended) = None"
    by (auto simp: roll_attempt_outcome_def Let_def split: option.split)
  from range up never clean show ?thesis by (simp split: if_splits)
qed

theorem capture_probability_sound_witness:
  "capture_probability (Some NETWORK_TIMEOUT) 1 default_history
     \<le> capture_probability (Some NETWORK_TIMEOUT) 3 default_history
   \<and> fst (roll_attempt_outcome 0 (Some MANDATE_FAILURE) 1 default_history None) \<noteq> Pay_CAPTURED"
proof -
  have "Some MANDATE_FAILURE \<in> Some ` set NEVER_CAPTURE" by (simp add: NEVER_CAPTURE_def)
  then show ?thesis
    using capture_probability_sound [of 0 1 3 "Some NETWORK_TIMEOUT" default_history]
      capture_probability_sound [of 0 1 1 "Some MANDATE_FAILURE" default_history] by simp
qed

lemma quantize_range: "0 \<le> v \<Longrightarrow> v \<le> 95/100 \<Longrightarrow> 0 \<le> quantize_digits 4 v \<and> quantize_digits 4 v \<le> 95/100"
proof -
  assume "0 \<le> v" "v \<le> 95/100"
  moreover have "quantize_digits 4 (95/100) = 95/100" "quantize_digits 4 0 = 0"
    by (simp_all add: quantize_digits_def round_half_even_def Let_def)
  ultimately show ?thesis using quantize_mono [of 0 v 4] quantize_mono [of v "95/100" 4] by simp
qed

lemma clip_prob_range: "0 \<le> clip_prob v \<and> clip_prob v \<le> 95/100"
  using quantize_range [of v] by (auto simp: clip_prob_def)

lemma hard_failure_range:
  "0 \<le> hard_failure_probability reason (it_success (intervention_terms ctx)) a
   \<and> hard_failure_probability reason (it_success (intervention_terms ctx)) a \<le> 8/100"
proof -
  define x where "x = it_success (intervention_terms ctx)"
  have "quantize_digits 6 0 = 0" "quantize_digits 6 1 = 1"
    by (simp_all add: quantize_digits_def round_half_even_def Let_def)
  then have "0 \<le> dec (min (max v 0) 1) \<and> dec (min (max v 0) 1) \<le> 1" for v
    using quantize_mono [of 0 "min (max v 0) 1" 6] quantize_mono [of "min (max v 0) 1" 1 6]
    by (simp add: dec_def)
  then have x: "0 \<le> x" "x \<le> 1" by (simp_all add: x_def intervention_terms_def Let_def)
  have small: "clip_prob y \<le> 8/100" if "0 \<le> y" "y \<le> 8/100" for y
  proof -
    have "quantize_digits 4 (8/100) = 8/100"
      by (simp add: quantize_digits_def round_half_even_def Let_def)
    then show ?thesis using quantize_mono [of y "8/100" 4] that by (simp add: clip_prob_def)
  qed
  have "clip_prob (4/100 + 4/100 * x) \<le> 8/100" "clip_prob (3/100 + 5/100 * x) \<le> 8/100"
    by (rule small; use x in simp)+
  then show ?thesis
    unfolding x_def [symmetric] hard_failure_probability_def
    using clip_prob_range [of "4/100 + 4/100 * x"] clip_prob_range [of "3/100 + 5/100 * x"] by simp
qed

lemma intervention_total:
  "\<exists>p. intervention_recovery_probability ctx (action_value a) = Inr p \<and> 0 \<le> p \<and> p \<le> 95/100
     \<and> (ic_failure_reason ctx \<in> Some ` set NEVER_CAPTURE \<longrightarrow> p \<le> 8/100)"
proof -
  have "hard_failure_probability r (it_success (intervention_terms ctx)) a \<le> 95/100" for r
    using hard_failure_range [of r ctx a] by simp
  then show ?thesis
    using hard_failure_range [of _ ctx a] clip_prob_range
    by (auto simp: intervention_recovery_probability_def Let_def split: option.splits)
qed

text \<open>
  \<^bold>\<open>Recovery probabilities are probabilities.\<close> For every context, a known action gets a
  probability between zero and 0.95 (nothing is certain to recover), at most 0.08 after a failure
  that never captures; an unknown action is refused.
\<close>

theorem intervention_probability_range:
  "case intervention_recovery_probability ctx action of
     Inl e \<Rightarrow> e = ValueError \<and> action \<notin> range action_value
   | Inr p \<Rightarrow> action \<in> range action_value \<and> 0 \<le> p \<and> p \<le> 95/100
       \<and> (if ic_failure_reason ctx \<in> Some ` set NEVER_CAPTURE then p \<le> 8/100 else True)"
proof (cases "action \<in> range action_value")
  case True
  then obtain a where "action = action_value a" by blast
  with intervention_total [of ctx a] show ?thesis by auto
next
  case False
  then have "parse_enum action_value all_actions action = Inl ValueError"
    by (simp add: action_enum.parse_raises_iff)
  with False show ?thesis by (simp add: intervention_recovery_probability_def)
qed

subsection \<open>The contract of a provider\<close>

locale payment_provider =
  fixes create :: "timestamp \<Rightarrow> CreatePaymentRequest \<Rightarrow> ('s, PaymentSnapshot) prog"
    and fetch :: "string \<Rightarrow> ('s, PaymentSnapshot) prog"
    and refund :: "timestamp \<Rightarrow> string \<Rightarrow> ('s, PaymentSnapshot) prog"
  assumes fetch_reads: "fetch i s = (r, s') \<Longrightarrow> s' = s"
    and create_echoes: "create t req s = (r, s') \<Longrightarrow> \<exists>p. r = Inr p \<and> ps_amount p = cp_amount req
          \<and> ps_currency p = cp_currency req \<and> ps_merchant_reference p = cp_merchant_reference req
          \<and> ps_attempt_number p = cp_attempt_number req \<and> ps_occurred_at p = t"
    and fetch_created: "create t req s = (Inr p, s') \<Longrightarrow> fetch (ps_provider_payment_id p) s' = (Inr p, s')"
    and fetch_others: "create t req s = (Inr p, s') \<Longrightarrow> i \<noteq> ps_provider_payment_id p \<Longrightarrow>
          fst (fetch i s') = fst (fetch i s)"
    and refund_ok: "refund t i s = (Inr p, s') \<Longrightarrow>
          (\<exists>q. fetch i s = (Inr q, s) \<and> ps_status q \<in> {Pay_CAPTURED, Pay_AUTHORIZED}
             \<and> ps_amount p = ps_amount q) \<and> ps_status p = Pay_REFUNDED \<and> fetch i s' = (Inr p, s')"
    and refund_fails: "refund t i s = (Inl e, s') \<Longrightarrow> s' = s"
begin

lemma refund_once:
  assumes "refund t i s = (Inr p, s1)"
  shows "\<exists>e. refund t' i s1 = (Inl e, s1)"
proof (cases "refund t' i s1")
  case (Pair r s2)
  show ?thesis
  proof (cases r)
    case (Inl e)
    with Pair refund_fails show ?thesis by blast
  next
    case (Inr q)
    with Pair have "refund t' i s1 = (Inr q, s2)" by simp
    from refund_ok [OF this] refund_ok [OF assms] show ?thesis by auto
  qed
qed

lemma refund_created:
  assumes "create t req s = (Inr p, s1)"
  shows "(\<exists>q s2. refund t' (ps_provider_payment_id p) s1 = (Inr q, s2) \<and> ps_amount q = cp_amount req)
    \<or> (\<exists>e. refund t' (ps_provider_payment_id p) s1 = (Inl e, s1))"
proof (cases "refund t' (ps_provider_payment_id p) s1")
  case (Pair r s2)
  show ?thesis
  proof (cases r)
    case (Inl e)
    with Pair refund_fails show ?thesis by blast
  next
    case (Inr q)
    with Pair have "refund t' (ps_provider_payment_id p) s1 = (Inr q, s2)" by simp
    moreover have "ps_amount p = cp_amount req" using create_echoes [OF assms] by simp
    ultimately show ?thesis using refund_ok [of t' "ps_provider_payment_id p" s1 q s2] fetch_created [OF assms] by auto
  qed
qed

end

lemma new_snapshot_fields [simp]:
  "ps_provider_payment_id (new_snapshot h t req seed pid oid) = pid"
  "ps_amount (new_snapshot h t req seed pid oid) = cp_amount req"
  "ps_currency (new_snapshot h t req seed pid oid) = cp_currency req"
  "ps_merchant_reference (new_snapshot h t req seed pid oid) = cp_merchant_reference req"
  "ps_attempt_number (new_snapshot h t req seed pid oid) = cp_attempt_number req"
  "ps_occurred_at (new_snapshot h t req seed pid oid) = t"
  "ps_provider (new_snapshot h t req seed pid oid) = SIMULATOR"
  "ps_provider_order_id (new_snapshot h t req seed pid oid) = Some oid"
  by (simp_all add: new_snapshot_def split: prod.split)

definition next_payment_id :: "Host \<Rightarrow> Simulator \<Rightarrow> string \<Rightarrow> string" where
  "next_payment_id h s reference = deterministic_payment_id h (sim_seed s) reference (sim_sequence s + 1)"

lemma create_payment_run:
  obtains oid s1 where
    "create_payment h t req s =
       (Inr (new_snapshot h t req (sim_seed s) (next_payment_id h s (cp_merchant_reference req)) oid), s1)"
    "sim_payments s1 = (sim_payments s)(next_payment_id h s (cp_merchant_reference req) \<mapsto>
       new_snapshot h t req (sim_seed s) (next_payment_id h s (cp_merchant_reference req)) oid)"
proof -
  let ?s = "s\<lparr>sim_sequence := sim_sequence s + 1\<rparr>"
  have "\<exists>oid s2. order_for_payment h req ?s = (Inr oid, s2) \<and> sim_payments s2 = sim_payments s"
    by (cases "cp_provider_order_id req")
       (auto simp: order_for_payment_def create_order_def next_sequence_def prog_simps Let_def add_order_payments_def)
  then obtain oid s2 where o: "order_for_payment h req ?s = (Inr oid, s2)" "sim_payments s2 = sim_payments s" by blast
  have "\<exists>s1. create_payment h t req s =
       (Inr (new_snapshot h t req (sim_seed s) (next_payment_id h s (cp_merchant_reference req)) oid), s1)
    \<and> sim_payments s1 = (sim_payments s)(next_payment_id h s (cp_merchant_reference req) \<mapsto>
       new_snapshot h t req (sim_seed s) (next_payment_id h s (cp_merchant_reference req)) oid)"
    using o by (simp add: create_payment_def next_sequence_def prog_simps Let_def add_order_payments_def
        next_payment_id_def)
  then show ?thesis using that by blast
qed

interpretation simulator: payment_provider "create_payment h" fetch_payment refund_payment for h
proof
  fix t req s r s'
  assume "create_payment h t req s = (r, s')"
  then show "\<exists>p. r = Inr p \<and> ps_amount p = cp_amount req \<and> ps_currency p = cp_currency req
      \<and> ps_merchant_reference p = cp_merchant_reference req
      \<and> ps_attempt_number p = cp_attempt_number req \<and> ps_occurred_at p = t"
    by - (rule create_payment_run [of h t req s], auto)
next
  fix t req s p s'
  assume "create_payment h t req s = (Inr p, s')"
  then show "fetch_payment (ps_provider_payment_id p) s' = (Inr p, s')"
    by - (rule create_payment_run [of h t req s], auto simp: fetch_payment_def prog_simps)
next
  fix t req s p s' i
  assume "create_payment h t req s = (Inr p, s')" "i \<noteq> ps_provider_payment_id p"
  then show "fst (fetch_payment i s') = fst (fetch_payment i s)"
    by - (rule create_payment_run [of h t req s], auto simp: fetch_payment_def prog_simps split: option.split)
qed (auto simp: fetch_payment_def refund_payment_def prog_simps Let_def split: option.splits if_splits)

text \<open>
  \<^bold>\<open>The simulator keeps its books.\<close> A created payment is for the requested amount and can be
  fetched as it was created, other payments are untouched; a refund succeeds only for a captured or
  authorised payment, for the same amount, and never twice.
\<close>

theorem simulator_books:
  assumes "create_payment h t req s = (Inr p, s1)"
  shows "ps_amount p = cp_amount req
    \<and> fetch_payment (ps_provider_payment_id p) s1 = (Inr p, s1)
    \<and> (i \<noteq> ps_provider_payment_id p \<longrightarrow> fst (fetch_payment i s1) = fst (fetch_payment i s))
    \<and> (refund_payment t' i s1 = (Inr q, s2) \<longrightarrow>
         ps_status q = Pay_REFUNDED \<and> (\<exists>e. refund_payment t'' i s2 = (Inl e, s2))
         \<and> (\<exists>x. fetch_payment i s1 = (Inr x, s1) \<and> ps_status x \<in> {Pay_CAPTURED, Pay_AUTHORIZED}
               \<and> ps_amount q = ps_amount x))"
  using simulator.create_echoes [OF assms] simulator.fetch_created [OF assms]
    simulator.fetch_others [OF assms, of i] simulator.refund_once [of t' i s1 q s2 t'']
    simulator.refund_ok [of t' i s1 q s2] by blast

definition demo_request :: CreatePaymentRequest where
  "demo_request = \<lparr>cp_merchant_reference = ''case'', cp_amount = 50, cp_currency = ''INR'',
     cp_customer_reference = None, cp_provider_order_id = Some ''order_1'', cp_attempt_number = 1,
     cp_customer_history = default_history, cp_intended_status = Some Pay_CAPTURED,
     cp_failure_reason = None, cp_metadata = []\<rparr>"

theorem simulator_books_witness:
  "\<exists>p s1. create_payment \<lparr>host_str = (\<lambda>_. []), host_fromisoformat = (\<lambda>_. None), host_uuid5 = (\<lambda>_ _. 0),
       host_sha256 = id, host_random = (\<lambda>_. 0),
       host_int_field = (\<lambda>_. None)\<rparr> 7 demo_request (new_simulator 42) = (Inr p, s1)
     \<and> ps_amount p = 50 \<and> fetch_payment (ps_provider_payment_id p) s1 = (Inr p, s1)"
proof -
  let ?h = "\<lparr>host_str = (\<lambda>_. []), host_fromisoformat = (\<lambda>_. None), host_uuid5 = (\<lambda>_ _. 0),
       host_sha256 = id, host_random = (\<lambda>_. 0),
       host_int_field = (\<lambda>_. None)\<rparr>"
  obtain p s1 where run: "create_payment ?h 7 demo_request (new_simulator 42) = (Inr p, s1)"
    by (rule create_payment_run [of ?h 7 demo_request "new_simulator 42"]) blast
  then show ?thesis using simulator_books [OF run] by (auto simp: demo_request_def)
qed

end
