(* ===== verification/Prediction.thy ===== *)
theory Prediction
  imports Tools Simulator
begin

text \<open>
  The recovery probability of a case under an action, \<^verbatim>\<open>packages/eval/recoverai_eval\<close>: the snapshot of a
  case (\<^verbatim>\<open>schema.py\<close>, \<^verbatim>\<open>inference/domain.py\<close>), the features derived from it (\<^verbatim>\<open>features/engineering.py\<close>), the
  rule-based fallback (\<^verbatim>\<open>inference/fallback.py\<close>), the prediction with its fallback (\<^verbatim>\<open>inference/api.py\<close>) and
  the stored predictions (\<^verbatim>\<open>inference/persist.py\<close>, \<^verbatim>\<open>repositories/ml.py\<close>). A trained model is a file read
  by scikit-learn: it is the parameter \<open>MlBundle\<close>, a function of the features with its metadata, or the
  error of loading it. Floats are their rational values.
\<close>

subsection \<open>Snapshots of a case\<close>

fun case_type_value :: "RecoveryCaseType \<Rightarrow> string" where
  "case_type_value FAILED_PAYMENT = ''FAILED_PAYMENT''"
| "case_type_value ABANDONED_CHECKOUT = ''ABANDONED_CHECKOUT''"
| "case_type_value SUBSCRIPTION_FAILURE = ''SUBSCRIPTION_FAILURE''"

record CaseContext =
  cc_amount :: rat
  cc_failure_reason :: string
  cc_attempt_number :: int
  cc_merchant_category :: "string option"
  cc_payment_method :: "string option"
  cc_bank :: "string option"
  cc_historical_success_rate :: "rat option"
  cc_historical_recovery_rate :: "rat option"
  cc_customer_lifetime_value :: "rat option"
  cc_days_since_last_purchase :: "rat option"
  cc_cart_age_hours :: "rat option"
  cc_cart_value :: "rat option"
  cc_subscription_state :: "string option"
  cc_communication_count :: "int option"
  cc_days_since_last_contact :: "rat option"
  cc_previous_discount_usage :: "rat option"
  cc_hour_of_day :: "int option"
  cc_day_of_week :: "int option"
  cc_customer_segment :: "string option"
  cc_case_type :: "string option"
  cc_prior_failures :: "int option"
  cc_prior_captures :: "int option"
  cc_merchant_id :: "string option"
  cc_recovery_case_id :: "string option"
  cc_customer_id :: "string option"

definition opt_within :: "('a \<Rightarrow> bool) \<Rightarrow> 'a option \<Rightarrow> bool" where
  "opt_within P x = (case x of None \<Rightarrow> True | Some v \<Rightarrow> P v)"

definition valid_context :: "CaseContext \<Rightarrow> bool" where
  "valid_context c \<longleftrightarrow> 0 \<le> cc_amount c \<and> cc_failure_reason c \<noteq> [] \<and> 1 \<le> cc_attempt_number c
     \<and> opt_within (\<lambda>r. 0 \<le> r \<and> r \<le> 1) (cc_historical_success_rate c)
     \<and> opt_within (\<lambda>r. 0 \<le> r \<and> r \<le> 1) (cc_historical_recovery_rate c)
     \<and> opt_within (\<lambda>r. 0 \<le> r) (cc_customer_lifetime_value c)
     \<and> opt_within (\<lambda>r. 0 \<le> r) (cc_days_since_last_purchase c)
     \<and> opt_within (\<lambda>r. 0 \<le> r) (cc_cart_age_hours c)
     \<and> opt_within (\<lambda>r. 0 \<le> r) (cc_cart_value c)
     \<and> opt_within (\<lambda>n. 0 \<le> n) (cc_communication_count c)
     \<and> opt_within (\<lambda>r. 0 \<le> r) (cc_days_since_last_contact c)
     \<and> opt_within (\<lambda>r. 0 \<le> r \<and> r \<le> 1) (cc_previous_discount_usage c)
     \<and> opt_within (\<lambda>n. 0 \<le> n \<and> n \<le> 23) (cc_hour_of_day c)
     \<and> opt_within (\<lambda>n. 0 \<le> n \<and> n \<le> 6) (cc_day_of_week c)
     \<and> opt_within (\<lambda>n. 0 \<le> n) (cc_prior_failures c)
     \<and> opt_within (\<lambda>n. 0 \<le> n) (cc_prior_captures c)"

definition max_opt :: "timestamp list \<Rightarrow> timestamp option" where
  "max_opt xs = (case xs of [] \<Rightarrow> None | x # xs' \<Rightarrow> Some (fold max xs' x))"

text \<open>A duration in microseconds as a non-negative number of units.\<close>

definition elapsed :: "int \<Rightarrow> timestamp \<Rightarrow> timestamp \<Rightarrow> rat" where
  "elapsed unit_us earlier later = max (of_int (later - earlier) / of_int unit_us) 0"

definition DAY :: int where "DAY = 86400000000"
definition HOUR :: int where "HOUR = 3600000000"

definition weekday :: "timestamp \<Rightarrow> int" where
  "weekday t = (t div DAY + 3) mod 7"

record CustomerRecord =
  cr_prior_failures :: int
  cr_prior_captures :: int
  cr_historical_success :: "rat option"
  cr_historical_recovery :: "rat option"
  cr_days_since_purchase :: "rat option"
  cr_communications :: int
  cr_days_since_contact :: "rat option"

definition customer_record :: "db \<Rightarrow> uuid \<Rightarrow> uuid option \<Rightarrow> timestamp \<Rightarrow> CustomerRecord" where
  "customer_record s merchant_id customer_id opened_at = (case customer_id of
     None \<Rightarrow> \<lparr>cr_prior_failures = 0, cr_prior_captures = 0, cr_historical_success = None,
             cr_historical_recovery = None, cr_days_since_purchase = None, cr_communications = 0,
             cr_days_since_contact = None\<rparr>
   | Some cid \<Rightarrow>
       let payments = filter (\<lambda>p. pay_merchant_id p = merchant_id \<and> pay_customer_id p = cid) (db_payments s);
           captures = length (filter (\<lambda>p. pay_status p = Pay_CAPTURED) payments);
           failures = length (filter (\<lambda>p. pay_status p = Pay_FAILED) payments);
           recovered = length (filter (\<lambda>p. pay_status p = Pay_CAPTURED \<and> pay_captured_at p \<noteq> None) payments);
           last_capture = max_opt (map the (filter (\<lambda>t. t \<noteq> None) (map pay_captured_at payments)));
           messages = filter (\<lambda>n. nt_merchant_id n = merchant_id \<and> nt_customer_id n = cid) (db_notifications s);
           last_sent = max_opt (map the (filter (\<lambda>t. t \<noteq> None) (map nt_sent_at messages))) in
       \<lparr>cr_prior_failures = int failures, cr_prior_captures = int captures,
        cr_historical_success = (if captures + failures = 0 then None
           else Some (of_nat captures / of_nat (captures + failures))),
        cr_historical_recovery = (if payments = [] then None
           else Some (of_nat recovered / of_nat (max (length payments) 1))),
        cr_days_since_purchase = map_option (\<lambda>t. elapsed DAY t opened_at) last_capture,
        cr_communications = int (length messages),
        cr_days_since_contact = map_option (\<lambda>t. elapsed DAY t opened_at) last_sent\<rparr>)"

definition case_context_from_domain ::
  "db \<Rightarrow> RecoveryCase \<Rightarrow> int \<Rightarrow> uuid option \<Rightarrow> Payment option \<Rightarrow> rat option \<Rightarrow> CaseContext res" where
  "case_context_from_domain s c attempt_number customer_id payment lifetime_value =
     (let cr = customer_record s (rc_merchant_id c) customer_id (rc_opened_at c);
          cart = (case rc_cart_id c of None \<Rightarrow> None | Some i \<Rightarrow> find_row cart_id i (db_carts s));
          subscription = (case rc_subscription_id c of None \<Rightarrow> None
                          | Some i \<Rightarrow> find_row sub_id i (db_subscriptions s));
          failure = (case payment of None \<Rightarrow> None | Some p \<Rightarrow> pay_failure_code p);
          ctx = \<lparr>cc_amount = rc_amount_at_risk c,
            cc_failure_reason = (case failure of None \<Rightarrow> ''UNKNOWN'' | Some f \<Rightarrow> if f = [] then ''UNKNOWN'' else f),
            cc_attempt_number = max attempt_number 1, cc_merchant_category = None,
            cc_payment_method = (case payment of None \<Rightarrow> None | Some p \<Rightarrow> pay_payment_method p),
            cc_bank = None, cc_historical_success_rate = cr_historical_success cr,
            cc_historical_recovery_rate = cr_historical_recovery cr,
            cc_customer_lifetime_value = lifetime_value,
            cc_days_since_last_purchase = cr_days_since_purchase cr,
            cc_cart_age_hours = (case cart of None \<Rightarrow> None
               | Some k \<Rightarrow> map_option (\<lambda>t. elapsed HOUR t (rc_opened_at c)) (cart_abandoned_at k)),
            cc_cart_value = map_option cart_total cart,
            cc_subscription_state = Some (case subscription of None \<Rightarrow> ''NONE'' | Some x \<Rightarrow> sub_status x),
            cc_communication_count = Some (cr_communications cr),
            cc_days_since_last_contact = cr_days_since_contact cr, cc_previous_discount_usage = None,
            cc_hour_of_day = Some (hour_of (rc_opened_at c)),
            cc_day_of_week = Some (weekday (rc_opened_at c)), cc_customer_segment = None,
            cc_case_type = Some (case_type_value (rc_case_type c)),
            cc_prior_failures = Some (cr_prior_failures cr), cc_prior_captures = Some (cr_prior_captures cr),
            cc_merchant_id = Some (str_uuid (rc_merchant_id c)), cc_recovery_case_id = Some (str_uuid (rc_id c)),
            cc_customer_id = map_option str_uuid customer_id\<rparr>
      in if valid_context ctx then Inr ctx else Inl ValueError)"

subsection \<open>Features\<close>

definition FEATURE_VERSION :: string where
  "FEATURE_VERSION = ''features-v1''"

definition LEAKAGE_FIELDS :: "string list" where
  "LEAKAGE_FIELDS = [''recovered'', ''recovery_time_hours'', ''amount_recovered'', ''true_probability'',
     ''label'', ''outcome'', ''captured'']"

definition NUMERIC_FEATURES :: "string list" where
  "NUMERIC_FEATURES = [''amount'', ''attempt_number'', ''historical_success_rate'',
     ''historical_recovery_rate'', ''customer_lifetime_value'', ''days_since_last_purchase'',
     ''cart_age_hours'', ''cart_value'', ''communication_count'', ''days_since_last_contact'',
     ''previous_discount_usage'', ''hour_of_day'', ''day_of_week'', ''prior_failures'', ''prior_captures'',
     ''customer_success_ratio'', ''recent_failure_count'', ''communication_fatigue'',
     ''amount_to_clv_ratio'']"

definition CATEGORICAL_FEATURES :: "string list" where
  "CATEGORICAL_FEATURES = [''merchant_category'', ''payment_method'', ''bank'', ''failure_reason'',
     ''subscription_state'', ''customer_segment'', ''case_type'', ''action'', ''failure_action_interaction'']"

definition opt_or :: "'a \<Rightarrow> 'a option \<Rightarrow> 'a" where
  "opt_or d x = (case x of None \<Rightarrow> d | Some v \<Rightarrow> v)"

definition derive_features :: "CaseContext \<Rightarrow> string \<Rightarrow> dict" where
  "derive_features c action =
     (let clv = opt_or 0 (cc_customer_lifetime_value c); comms = opt_or 0 (cc_communication_count c) in
      [(''amount'', JFloat (cc_amount c)),
       (''attempt_number'', JInt (cc_attempt_number c)),
       (''historical_success_rate'', json_opt JFloat (cc_historical_success_rate c)),
       (''historical_recovery_rate'', json_opt JFloat (cc_historical_recovery_rate c)),
       (''customer_lifetime_value'', json_opt JFloat (cc_customer_lifetime_value c)),
       (''days_since_last_purchase'', json_opt JFloat (cc_days_since_last_purchase c)),
       (''cart_age_hours'', json_opt JFloat (cc_cart_age_hours c)),
       (''cart_value'', json_opt JFloat (cc_cart_value c)),
       (''communication_count'', JInt comms),
       (''days_since_last_contact'', json_opt JFloat (cc_days_since_last_contact c)),
       (''previous_discount_usage'', json_opt JFloat (cc_previous_discount_usage c)),
       (''hour_of_day'', json_opt JInt (cc_hour_of_day c)),
       (''day_of_week'', json_opt JInt (cc_day_of_week c)),
       (''prior_failures'', json_opt JInt (cc_prior_failures c)),
       (''prior_captures'', json_opt JInt (cc_prior_captures c)),
       (''customer_success_ratio'', json_opt JFloat (cc_historical_success_rate c)),
       (''recent_failure_count'', JInt (max (cc_attempt_number c - 1) (opt_or 0 (cc_prior_failures c)))),
       (''communication_fatigue'', JFloat (min 1 (of_int comms / 8))),
       (''amount_to_clv_ratio'', if clv > 0 then JFloat (cc_amount c / clv) else JNull),
       (''merchant_category'', json_opt JStr (cc_merchant_category c)),
       (''payment_method'', json_opt JStr (cc_payment_method c)),
       (''bank'', json_opt JStr (cc_bank c)),
       (''failure_reason'', JStr (cc_failure_reason c)),
       (''subscription_state'', json_opt JStr (cc_subscription_state c)),
       (''customer_segment'', json_opt JStr (cc_customer_segment c)),
       (''case_type'', json_opt JStr (cc_case_type c)),
       (''action'', JStr action),
       (''failure_action_interaction'', JStr (cc_failure_reason c @ ''|'' @ action))])"

definition feature_frame :: "dict \<Rightarrow> dict" where
  "feature_frame row = map (\<lambda>k. (k, dict_get row k)) (NUMERIC_FEATURES @ CATEGORICAL_FEATURES)"

subsection \<open>Prediction\<close>

definition parse_known_action :: "string \<Rightarrow> string res" where
  "parse_known_action action =
     (if action \<notin> set (map action_value all_actions) then Inl (InferenceError ''INVALID_ACTION'')
      else Inr action)"

definition FALLBACK_VERSION :: string where
  "FALLBACK_VERSION = ''MODEL_FALLBACK''"

definition fallback_context :: "CaseContext \<Rightarrow> InterventionContext" where
  "fallback_context c =
     (let clv = opt_or 0 (cc_customer_lifetime_value c) in
      \<lparr>ic_failure_reason = Some (case parse_enum failure_value all_failures (cc_failure_reason c) of
          Inl _ \<Rightarrow> UNKNOWN_FAILURE | Inr r \<Rightarrow> r),
       ic_attempt_number = cc_attempt_number c,
       ic_history = \<lparr>ch_prior_failures = opt_or 0 (cc_prior_failures c),
          ch_prior_captures = opt_or 0 (cc_prior_captures c), ch_lifetime_value = clv\<rparr>,
       ic_historical_success_rate = opt_or 0 (cc_historical_success_rate c),
       ic_historical_recovery_rate = opt_or 0 (cc_historical_recovery_rate c),
       ic_communication_count = opt_or 0 (cc_communication_count c),
       ic_previous_discount_usage = opt_or 0 (cc_previous_discount_usage c),
       ic_cart_age_hours = cc_cart_age_hours c, ic_customer_lifetime_value = clv,
       ic_amount = cc_amount c, ic_hour_of_day = opt_or 12 (cc_hour_of_day c),
       ic_case_type = (case cc_case_type c of None \<Rightarrow> ''FAILED_PAYMENT''
          | Some t \<Rightarrow> if t = [] then ''FAILED_PAYMENT'' else t)\<rparr>)"

definition fallback_probability :: "CaseContext \<Rightarrow> string \<Rightarrow> rat res" where
  "fallback_probability c action =
     bindE (parse_known_action action) (\<lambda>parsed.
     bindE (intervention_recovery_probability (fallback_context c) parsed) (\<lambda>value.
     Inr (min (max value 0) 1)))"

record RecoveryProbability =
  rp_probability :: rat
  rp_model_version :: string
  rp_feature_version :: string
  rp_source :: string
  rp_diagnostics :: dict

record MlBundle =
  ml_predict_proba :: "dict \<Rightarrow> rat"
  ml_metadata :: dict

definition validate_probability :: "rat \<Rightarrow> rat res" where
  "validate_probability v =
     (if v < 0 \<or> v > 1 then Inl (InferenceError ''INVALID_PROBABILITY'') else Inr v)"

definition ml_predict :: "Host \<Rightarrow> MlBundle res \<Rightarrow> CaseContext \<Rightarrow> string \<Rightarrow> RecoveryProbability res" where
  "ml_predict h ml c action =
     bindE ml (\<lambda>b.
     bindE (validate_probability (ml_predict_proba b (feature_frame (derive_features c action)))) (\<lambda>p.
     let version = dict_get (ml_metadata b) ''model_version'';
         features = dict_get (ml_metadata b) ''feature_version'' in
     Inr \<lparr>rp_probability = p,
          rp_model_version = (if truthy version then json_str h version else ''unknown''),
          rp_feature_version = (if truthy features then json_str h features else FEATURE_VERSION),
          rp_source = ''ml'',
          rp_diagnostics = [(''algorithm'', dict_get (ml_metadata b) ''algorithm'')]\<rparr>))"

fun is_inference_error :: "py_error \<Rightarrow> bool" where
  "is_inference_error (InferenceError _) = True"
| "is_inference_error _ = False"

definition predict_recovery_probability ::
  "Host \<Rightarrow> MlBundle res \<Rightarrow> bool \<Rightarrow> CaseContext \<Rightarrow> string \<Rightarrow> RecoveryProbability res" where
  "predict_recovery_probability h ml allow_fallback c action =
     bindE (parse_known_action action) (\<lambda>parsed.
     case ml_predict h ml c parsed of
       Inr scored \<Rightarrow> Inr scored
     | Inl e \<Rightarrow>
         if \<not> is_inference_error e \<or> \<not> allow_fallback then Inl e
         else
           bindE (fallback_probability c parsed) (\<lambda>value.
           bindE (validate_probability value) (\<lambda>p.
           Inr \<lparr>rp_probability = p, rp_model_version = FALLBACK_VERSION,
                rp_feature_version = FEATURE_VERSION, rp_source = ''MODEL_FALLBACK'',
                rp_diagnostics = [(''reason'', JStr ''trained_model_unavailable_or_unloadable'')]\<rparr>)))"

subsection \<open>Stored predictions\<close>

definition prediction_fingerprint :: "Host \<Rightarrow> uuid \<Rightarrow> uuid \<Rightarrow> string \<Rightarrow> string \<Rightarrow> string \<Rightarrow> string" where
  "prediction_fingerprint h merchant_id case_id action model_version feature_version =
     host_sha256 h (join ''|'' [str_uuid merchant_id, str_uuid case_id, action, model_version, feature_version])"

definition get_by_fingerprint :: "db \<Rightarrow> string \<Rightarrow> ModelPrediction option" where
  "get_by_fingerprint s fp = find (\<lambda>p. mp_fingerprint p = fp) (db_predictions s)"

definition later_prediction :: "ModelPrediction \<Rightarrow> ModelPrediction \<Rightarrow> ModelPrediction" where
  "later_prediction p best =
     (if mp_updated_at p > mp_updated_at best
         \<or> mp_updated_at p = mp_updated_at best \<and> mp_created_at p > mp_created_at best
      then p else best)"

definition get_latest_for_action :: "db \<Rightarrow> uuid \<Rightarrow> string \<Rightarrow> ModelPrediction option" where
  "get_latest_for_action s case_id action =
     (case filter (\<lambda>p. mp_recovery_case_id p = case_id \<and> mp_action p = action) (db_predictions s) of
        [] \<Rightarrow> None | p # ps \<Rightarrow> Some (fold later_prediction ps p))"

definition upsert_prediction :: "(timestamp \<Rightarrow> ModelPrediction) \<Rightarrow> unit dbprog" where
  "upsert_prediction row =
     bind now (\<lambda>t.
     bind (gets (\<lambda>s. get_by_fingerprint s (mp_fingerprint (row t)))) (\<lambda>existing.
       case existing of
         Some _ \<Rightarrow> modify (\<lambda>s. s\<lparr>db_predictions :=
           update_row mp_fingerprint (mp_fingerprint (row t))
             (\<lambda>p. p\<lparr>mp_probability := mp_probability (row t), mp_source := mp_source (row t),
                    mp_updated_at := t\<rparr>) (db_predictions s)\<rparr>)
       | None \<Rightarrow> modify (\<lambda>s. s\<lparr>db_predictions := db_predictions s @ [row t]\<rparr>)))"

definition persist_prediction ::
  "Host \<Rightarrow> uuid \<Rightarrow> uuid \<Rightarrow> string \<Rightarrow> rat \<Rightarrow> string \<Rightarrow> string \<Rightarrow> string \<Rightarrow> string dbprog" where
  "persist_prediction h merchant_id case_id action probability model_version feature_version source =
     (if probability < 0 \<or> probability > 1 then raise ValueError
      else
        let fp = prediction_fingerprint h merchant_id case_id action model_version feature_version in
        seqp (upsert_prediction (\<lambda>t.
                \<lparr>mp_merchant_id = merchant_id, mp_recovery_case_id = case_id, mp_action = action,
                 mp_probability = quantize_digits 6 probability, mp_model_version = model_version,
                 mp_feature_version = feature_version, mp_fingerprint = fp, mp_source = source,
                 mp_created_at = t, mp_updated_at = t\<rparr>))
             (ret fp))"

subsection \<open>Features and probabilities\<close>

text \<open>The features are exactly the declared columns, in their order, and none names an outcome.\<close>

lemma derive_features_columns:
  "map fst (derive_features c action) = NUMERIC_FEATURES @ CATEGORICAL_FEATURES"
  "set LEAKAGE_FIELDS \<inter> fst ` set (derive_features c action) = {}"
proof -
  show cols: "map fst (derive_features c action) = NUMERIC_FEATURES @ CATEGORICAL_FEATURES"
    by (simp add: derive_features_def Let_def NUMERIC_FEATURES_def CATEGORICAL_FEATURES_def)
  have "set LEAKAGE_FIELDS \<inter> set (NUMERIC_FEATURES @ CATEGORICAL_FEATURES) = {}" by code_simp
  then show "set LEAKAGE_FIELDS \<inter> fst ` set (derive_features c action) = {}"
    unfolding cols [symmetric] by simp
qed

lemma feature_frame_features: "feature_frame (derive_features c action) = derive_features c action"
proof -
  have "distinct (map fst (derive_features c action))"
    unfolding derive_features_columns(1) by code_simp
  then have "map (\<lambda>k. (k, dict_get d k)) (map fst d) = d" if "d = derive_features c action" for d
    using that by (auto simp: dict_get_def comp_def intro!: map_idI)
  then show ?thesis unfolding feature_frame_def derive_features_columns(1) [of c action, symmetric] by blast
qed

lemma parse_known_iff: "parse_known_action action = Inr x \<longleftrightarrow> x = action \<and> action \<in> range action_value"
  using action_enum.members_complete by (auto simp: parse_known_action_def)

lemma fallback_total:
  "action \<in> range action_value \<Longrightarrow> \<exists>p. fallback_probability c action = Inr p \<and> 0 \<le> p \<and> p \<le> 95/100"
proof -
  assume "action \<in> range action_value"
  then obtain a where a: "action = action_value a" by blast
  obtain p where "intervention_recovery_probability (fallback_context c) action = Inr p" "0 \<le> p" "p \<le> 95/100"
    using intervention_total [of "fallback_context c" a] a by blast
  then show ?thesis
    by (simp add: fallback_probability_def a parse_known_iff [THEN iffD2] max_absorb1 min_absorb1)
qed

lemma predict_known:
  assumes "\<And>e. ml = Inl e \<Longrightarrow> is_inference_error e"
  shows "\<exists>rp. predict_recovery_probability h ml True c (action_value a) = Inr rp
    \<and> 0 \<le> rp_probability rp \<and> rp_probability rp \<le> 1
    \<and> (case ml_predict h ml c (action_value a) of
         Inr scored \<Rightarrow> rp = scored | Inl _ \<Rightarrow> rp_source rp = ''MODEL_FALLBACK'' \<and> rp_probability rp \<le> 95/100)"
proof (cases "ml_predict h ml c (action_value a)")
  case (Inl e)
  have e: "is_inference_error e"
    using Inl assms by (auto simp: ml_predict_def validate_probability_def Let_def bindE_def split: sum.splits if_splits)
  obtain p where p: "fallback_probability c (action_value a) = Inr p" "0 \<le> p" "p \<le> 95/100"
    using fallback_total [of "action_value a" c] by auto
  have "validate_probability p = Inr p" using p by (simp add: validate_probability_def)
  then show ?thesis
    using Inl e p by (simp add: predict_recovery_probability_def parse_known_iff [THEN iffD2])
next
  case (Inr scored)
  then have "0 \<le> rp_probability scored \<and> rp_probability scored \<le> 1"
    by (auto simp: ml_predict_def validate_probability_def Let_def bindE_def split: sum.splits if_splits)
  with Inr show ?thesis by (simp add: predict_recovery_probability_def parse_known_iff [THEN iffD2])
qed

subsection \<open>Snapshots are valid\<close>

lemma elapsed_nonneg: "0 \<le> elapsed u a b"
  by (simp add: elapsed_def)

lemma opt_within_map: "opt_within P (map_option f x) \<longleftrightarrow> opt_within (\<lambda>v. P (f v)) x"
  by (cases x) (simp_all add: opt_within_def)

lemma ratio_unit: "a \<le> b \<Longrightarrow> 0 \<le> (of_nat a / of_nat b :: rat) \<and> (of_nat a / of_nat b :: rat) \<le> 1"
  by (cases "b = 0") (simp_all add: divide_le_eq)

lemma customer_record_valid:
  "opt_within (\<lambda>r. 0 \<le> r \<and> r \<le> 1) (cr_historical_success (customer_record s m cid t))"
  "opt_within (\<lambda>r. 0 \<le> r \<and> r \<le> 1) (cr_historical_recovery (customer_record s m cid t))"
  "opt_within (\<lambda>r. 0 \<le> r) (cr_days_since_purchase (customer_record s m cid t))"
  "opt_within (\<lambda>r. 0 \<le> r) (cr_days_since_contact (customer_record s m cid t))"
  "0 \<le> cr_communications (customer_record s m cid t)"
  "0 \<le> cr_prior_failures (customer_record s m cid t)" "0 \<le> cr_prior_captures (customer_record s m cid t)"
proof -
  have part: "length (filter P xs) \<le> max (length xs) 1" for P and xs :: "Payment list"
    using length_filter_le [of P xs] by (rule le_trans) simp
  show "opt_within (\<lambda>r. 0 \<le> r \<and> r \<le> 1) (cr_historical_success (customer_record s m cid t))"
    using ratio_unit [OF le_add1] by (cases cid) (auto simp: customer_record_def opt_within_def Let_def)
  show "opt_within (\<lambda>r. 0 \<le> r \<and> r \<le> 1) (cr_historical_recovery (customer_record s m cid t))"
    using ratio_unit [OF part]
    by (cases cid) (simp_all add: customer_record_def opt_within_def Let_def del: filter_filter)
qed (cases cid; simp add: customer_record_def Let_def opt_within_map elapsed_nonneg; simp add: opt_within_def split: option.split)+

lemma case_context_total:
  assumes "0 \<le> rc_amount_at_risk c" "opt_within (\<lambda>v. 0 \<le> v) lifetime" "\<forall>k \<in> set (db_carts s). 0 \<le> cart_total k"
  shows "\<exists>ctx. case_context_from_domain s c n cid payment lifetime = Inr ctx \<and> valid_context ctx
    \<and> cc_amount ctx = rc_amount_at_risk c"
proof -
  have cart: "0 \<le> cart_total k" if "find_row cart_id i (db_carts s) = Some k" for i k
    using assms(3) find_row_Some_in [OF that] by blast
  have clock: "0 \<le> hour_of t \<and> hour_of t \<le> 23" "0 \<le> weekday t \<and> weekday t \<le> 6" for t
    by (simp_all add: hour_of_def weekday_def)
  show ?thesis
    using assms(1,2) cart clock customer_record_valid [of s "rc_merchant_id c" cid "rc_opened_at c"]
    unfolding case_context_from_domain_def Let_def
    by (auto simp: valid_context_def opt_within_map elapsed_nonneg split: option.split)
       (auto simp: opt_within_def elapsed_nonneg split: option.splits)
qed

text \<open>
  \<^bold>\<open>Every case can be scored.\<close> In a well-formed database, the snapshot of any case is valid, the model
  is given exactly the declared features, none of which tells the outcome, and every action gets a
  probability between zero and one: the model's, or, when the model is missing, broken or out of
  range, the rule-based one, which is marked as such and never above 0.95.
\<close>

theorem prediction_total:
  assumes "db_ok s" and "get_case_unscoped s i = Some c"
    and "opt_within (\<lambda>v. 0 \<le> v) lifetime" and "\<forall>k \<in> set (db_carts s). 0 \<le> cart_total k"
    and "\<And>e. ml = Inl e \<Longrightarrow> is_inference_error e"
  shows "\<exists>ctx rp. case_context_from_domain s c n cid payment lifetime = Inr ctx
    \<and> predict_recovery_probability h ml True ctx (action_value a) = Inr rp
    \<and> 0 \<le> rp_probability rp \<and> rp_probability rp \<le> 1
    \<and> map fst (feature_frame (derive_features ctx (action_value a))) = NUMERIC_FEATURES @ CATEGORICAL_FEATURES
    \<and> set LEAKAGE_FIELDS \<inter> fst ` set (derive_features ctx (action_value a)) = {}
    \<and> (case ml of
         Inr b \<Rightarrow> (let p = ml_predict_proba b (derive_features ctx (action_value a)) in
                   if 0 \<le> p \<and> p \<le> 1 then rp_probability rp = p \<and> rp_source rp = ''ml''
                   else rp_source rp = ''MODEL_FALLBACK'' \<and> rp_probability rp \<le> 95/100)
       | Inl _ \<Rightarrow> rp_source rp = ''MODEL_FALLBACK'' \<and> rp_probability rp \<le> 95/100)"
proof -
  have "0 \<le> rc_amount_at_risk c" using db_ok_case [OF assms(1,2)] by (auto simp: case_ok_def)
  then obtain ctx where ctx: "case_context_from_domain s c n cid payment lifetime = Inr ctx"
    using case_context_total assms(3,4) by blast
  obtain rp where rp: "predict_recovery_probability h ml True ctx (action_value a) = Inr rp"
    "0 \<le> rp_probability rp" "rp_probability rp \<le> 1"
    "case ml_predict h ml ctx (action_value a) of
       Inr scored \<Rightarrow> rp = scored | Inl _ \<Rightarrow> rp_source rp = ''MODEL_FALLBACK'' \<and> rp_probability rp \<le> 95/100"
    using predict_known [of ml h ctx a, OF assms(5)] by blast
  have "case ml of
         Inr b \<Rightarrow> (let p = ml_predict_proba b (derive_features ctx (action_value a)) in
                   if 0 \<le> p \<and> p \<le> 1 then rp_probability rp = p \<and> rp_source rp = ''ml''
                   else rp_source rp = ''MODEL_FALLBACK'' \<and> rp_probability rp \<le> 95/100)
       | Inl _ \<Rightarrow> rp_source rp = ''MODEL_FALLBACK'' \<and> rp_probability rp \<le> 95/100"
    using rp(4) by (cases ml)
      (auto simp: ml_predict_def feature_frame_features validate_probability_def Let_def split: if_splits)
  with ctx rp(1-3) show ?thesis
    by (simp add: feature_frame_features derive_features_columns)
qed

theorem prediction_total_witness:
  "\<exists>ctx rp. case_context_from_domain demo_db demo_case 1 (Some 2) (Some demo_payment) (Some 12000) = Inr ctx
     \<and> predict_recovery_probability demo_host (Inl (InferenceError ''MODEL_UNAVAILABLE'')) True ctx ''RETRY_NOW''
         = Inr rp \<and> rp_source rp = ''MODEL_FALLBACK''"
  using prediction_total [of demo_db 4 demo_case "Some 12000" "Inl (InferenceError ''MODEL_UNAVAILABLE'')" 1
      "Some 2" "Some demo_payment" demo_host RETRY_NOW]
  by (auto simp: demo_db_ok opt_within_def) (auto simp: demo_db_def)


lemma creditless_persist_prediction: "creditless (persist_prediction h m c action p mv fv source)"
  unfolding persist_prediction_def upsert_prediction_def
  by (intro creditless_rules creditless_modify) simp_all

end
