(* ===== verification/Handlers.thy ===== *)
theory Handlers
  imports Prediction
begin

text \<open>
  \<^verbatim>\<open>recoverai_domain/tools/handlers.py\<close>: what each tool does once it may run, and how its outcome moves
  the case. A handler reads and writes the session and the payment provider and returns a
  \<open>HandlerResult\<close>. The provider is seen through the record \<open>Provider\<close>: one service object is created per
  request and each handler calls it at most once, so a call is a function of the request;
  \<open>sim_provider\<close> is the simulator behind that interface. The context carries the parameters of the
  model: the commit a concurrent transaction may make during ingestion, the trained model and the
  prose of exceptions. \<open>hr_queued\<close> lists the events a handler put on the queue.
\<close>

subsection \<open>Providers, contexts and results\<close>

record Provider =
  prov_name :: string
  prov_create_payment :: "timestamp \<Rightarrow> CreatePaymentRequest \<Rightarrow> PaymentSnapshot res"
  prov_create_payment_link :: "CreatePaymentLinkRequest \<Rightarrow> PaymentLinkSnapshot res"
  prov_fetch_payment :: "string \<Rightarrow> PaymentSnapshot res"

definition sim_provider :: "Host \<Rightarrow> Simulator \<Rightarrow> Provider" where
  "sim_provider h sim = \<lparr>prov_name = SIMULATOR,
     prov_create_payment = (\<lambda>t req. fst (create_payment h t req sim)),
     prov_create_payment_link = (\<lambda>req. fst (create_payment_link h req sim)),
     prov_fetch_payment = (\<lambda>pid. fst (fetch_payment pid sim))\<rparr>"

record HandlerResult =
  hr_success :: bool
  hr_output :: dict
  hr_provider :: "string option"
  hr_provider_reference :: "string option"
  hr_amount :: "rat option"
  hr_error_code :: "string option"
  hr_error_message :: "string option"
  hr_case_status :: "RecoveryCaseStatus option"
  hr_simulated :: bool
  hr_metadata :: dict
  hr_queued :: "uuid list"

record HandlerContext =
  hc_case :: uuid
  hc_merchant_id :: uuid
  hc_customer :: "uuid option"
  hc_payment :: "uuid option"
  hc_provider :: Provider
  hc_payload :: dict
  hc_attempt_number :: int
  hc_idempotency_key :: string
  hc_queue :: "bool option"
  hc_race :: "db \<Rightarrow> db"
  hc_model :: "MlBundle res"
  hc_error_text :: "py_error \<Rightarrow> string"

definition succeeded :: "dict \<Rightarrow> HandlerResult" where
  "succeeded output = \<lparr>hr_success = True, hr_output = output, hr_provider = None,
     hr_provider_reference = None, hr_amount = None, hr_error_code = None, hr_error_message = None,
     hr_case_status = None, hr_simulated = True, hr_metadata = [], hr_queued = []\<rparr>"

definition failed :: "string \<Rightarrow> string \<Rightarrow> HandlerResult" where
  "failed code message = (succeeded [])\<lparr>hr_success := False, hr_error_code := Some code,
     hr_error_message := Some message\<rparr>"

text \<open>A provider error becomes the result of the handler.\<close>

definition provider_failed :: "HandlerContext \<Rightarrow> py_error \<Rightarrow> HandlerResult dbprog" where
  "provider_failed ctx e = (case e of
     ProviderError code \<Rightarrow>
       ret ((failed code (hc_error_text ctx e))\<lparr>hr_provider := Some (prov_name (hc_provider ctx))\<rparr>)
   | _ \<Rightarrow> raise e)"

definition read_customer :: "uuid \<Rightarrow> Customer dbprog" where
  "read_customer = deref session_get_customer"

definition with_payment :: "HandlerContext \<Rightarrow> string \<Rightarrow> (Payment \<Rightarrow> HandlerResult dbprog) \<Rightarrow> HandlerResult dbprog" where
  "with_payment ctx message f = (case hc_payment ctx of
     None \<Rightarrow> ret (failed ''MISSING_PAYMENT'' message)
   | Some pid \<Rightarrow> bind (read_payment pid) f)"

subsection \<open>Read-only tools\<close>

definition payment_dict :: "Payment \<Rightarrow> dict" where
  "payment_dict p =
     [(''payment_id'', JUuid (pay_id p)), (''provider'', JStr (pay_provider p)),
      (''provider_payment_id'', str_or_null (pay_provider_payment_id p)),
      (''provider_order_id'', str_or_null (pay_provider_order_id p)),
      (''status'', JStr (payment_status_value (pay_status p))), (''amount'', JDec (pay_amount p)),
      (''currency'', JStr (pay_currency p)), (''failure_code'', str_or_null (pay_failure_code p))]"

text \<open>Newest first; rows are appended in the order of their creation.\<close>

definition list_for_customer :: "db \<Rightarrow> uuid \<Rightarrow> uuid \<Rightarrow> Payment list" where
  "list_for_customer s merchant customer =
     rev (filter (\<lambda>p. pay_merchant_id p = merchant \<and> pay_customer_id p = customer) (db_payments s))"

definition handle_get_customer_history :: "HandlerContext \<Rightarrow> HandlerResult dbprog" where
  "handle_get_customer_history ctx = (case hc_customer ctx of
     None \<Rightarrow> ret (failed ''MISSING_CUSTOMER'' ''Customer not found'')
   | Some cid \<Rightarrow>
       bind (read_customer cid) (\<lambda>customer.
       bind (gets (\<lambda>s. list_for_customer s (hc_merchant_id ctx) cid)) (\<lambda>payments.
       ret (succeeded
         [(''customer_id'', JUuid cid), (''email'', str_or_null (cust_email customer)),
          (''lifetime_value'', JDec (cust_lifetime_value customer)),
          (''payments'', JList (map (\<lambda>p. JObj
             [(''id'', JUuid (pay_id p)), (''status'', JStr (payment_status_value (pay_status p))),
              (''amount'', JDec (pay_amount p)),
              (''provider_payment_id'', str_or_null (pay_provider_payment_id p))]) payments))]))))"

definition handle_get_payment_details :: "HandlerContext \<Rightarrow> HandlerResult dbprog" where
  "handle_get_payment_details ctx = with_payment ctx ''Payment not found'' (\<lambda>p.
     ret ((succeeded (payment_dict p))\<lparr>hr_provider := Some (pay_provider p),
            hr_provider_reference := pay_provider_payment_id p\<rparr>))"

definition handle_get_cart_details :: "HandlerContext \<Rightarrow> HandlerResult dbprog" where
  "handle_get_cart_details ctx =
     bind (read_case (hc_case ctx)) (\<lambda>c.
     bind (gets (\<lambda>s. case rc_cart_id c of None \<Rightarrow> None | Some i \<Rightarrow> find_row cart_id i (db_carts s))) (\<lambda>cart.
       case cart of
         None \<Rightarrow> ret (succeeded [(''cart'', JNull)])
       | Some k \<Rightarrow> ret (succeeded
           [(''cart_id'', JUuid (cart_id k)), (''status'', JStr (cart_status k)),
            (''total'', JDec (cart_total k)), (''discount'', JDec (cart_discount k)),
            (''currency'', JStr (cart_currency k))])))"

definition handle_get_subscription_details :: "HandlerContext \<Rightarrow> HandlerResult dbprog" where
  "handle_get_subscription_details ctx =
     bind (read_case (hc_case ctx)) (\<lambda>c.
     bind (gets (\<lambda>s. case rc_subscription_id c of None \<Rightarrow> None
                     | Some i \<Rightarrow> find_row sub_id i (db_subscriptions s))) (\<lambda>row.
       case row of
         None \<Rightarrow> ret (succeeded [(''subscription'', JNull)])
       | Some x \<Rightarrow> ret (succeeded
           [(''subscription_id'', JUuid (sub_id x)), (''status'', JStr (sub_status x)),
            (''amount'', JDec (sub_amount x)),
            (''provider_subscription_id'', str_or_null (sub_provider_subscription_id x))])))"

definition handle_get_recovery_case :: "HandlerContext \<Rightarrow> HandlerResult dbprog" where
  "handle_get_recovery_case ctx =
     bind (read_case (hc_case ctx)) (\<lambda>c.
     ret (succeeded
       [(''case_id'', JUuid (rc_id c)), (''status'', JStr (case_status_value (rc_status c))),
        (''amount_at_risk'', JDec (rc_amount_at_risk c)),
        (''amount_recovered'', JDec (rc_amount_recovered c)), (''currency'', JStr (rc_currency c)),
        (''version'', JInt (rc_version c))]))"

definition read_opt :: "('k \<Rightarrow> 'r dbprog) \<Rightarrow> 'k option \<Rightarrow> 'r option dbprog" where
  "read_opt f x = (case x of None \<Rightarrow> ret None | Some k \<Rightarrow> bind (f k) (\<lambda>r. ret (Some r)))"

definition handle_calculate_recovery_probability :: "Host \<Rightarrow> HandlerContext \<Rightarrow> HandlerResult dbprog" where
  "handle_calculate_recovery_probability h ctx =
     (let given = dict_get (hc_payload ctx) ''action'';
          action = (if truthy given then json_str h given else action_value RETRY_NOW) in
      catch
        (bind (read_case (hc_case ctx)) (\<lambda>c.
         bind (read_opt read_payment (hc_payment ctx)) (\<lambda>payment.
         bind (read_opt read_customer (hc_customer ctx)) (\<lambda>customer.
         bind (gets (\<lambda>s. case_context_from_domain s c (hc_attempt_number ctx) (hc_customer ctx) payment
                           (map_option cust_lifetime_value customer))) (\<lambda>r.
         bind (lift r) (\<lambda>context.
         bind (lift (predict_recovery_probability h (hc_model ctx) True context action)) (\<lambda>scored.
         seqp (persist_prediction h (hc_merchant_id ctx) (rc_id c) action (rp_probability scored)
                 (rp_model_version scored) (rp_feature_version scored) (rp_source scored))
              (ret (succeeded
                 [(''probability'', JFloat (rp_probability scored)),
                  (''model_version'', JStr (rp_model_version scored)),
                  (''feature_version'', JStr (rp_feature_version scored)),
                  (''source'', JStr (rp_source scored)), (''action'', JStr action),
                  (''diagnostics'', JObj (rp_diagnostics scored))])))))))))
        (\<lambda>e. if is_inference_error e then ret (failed (error_code e) (hc_error_text ctx e)) else raise e))"

definition snapshot_dict :: "PaymentSnapshot \<Rightarrow> dict" where
  "snapshot_dict p =
     [(''provider'', JStr (ps_provider p)), (''provider_payment_id'', JStr (ps_provider_payment_id p)),
      (''provider_order_id'', str_or_null (ps_provider_order_id p)),
      (''merchant_reference'', JStr (ps_merchant_reference p)), (''amount'', JDec (ps_amount p)),
      (''currency'', JStr (ps_currency p)), (''status'', JStr (payment_status_value (ps_status p))),
      (''attempt_number'', JInt (ps_attempt_number p)),
      (''failure_reason'', str_or_null (map_option failure_value (ps_failure_reason p))),
      (''payment_method'', str_or_null (ps_payment_method p)), (''occurred_at'', JTime (ps_occurred_at p)),
      (''metadata'', JObj (ps_metadata p))]"

definition local_payment_status :: "HandlerContext \<Rightarrow> HandlerResult dbprog" where
  "local_payment_status ctx = with_payment ctx ''Payment not found'' (\<lambda>p.
     ret ((succeeded (payment_dict p))\<lparr>hr_provider := Some (pay_provider p)\<rparr>))"

definition handle_check_payment_status :: "Host \<Rightarrow> HandlerContext \<Rightarrow> HandlerResult dbprog" where
  "handle_check_payment_status h ctx =
     (let pid = dict_get (hc_payload ctx) ''provider_payment_id'' in
      if \<not> truthy pid then local_payment_status ctx
      else case prov_fetch_payment (hc_provider ctx) (json_str h pid) of
             Inr p \<Rightarrow> ret ((succeeded (snapshot_dict p))\<lparr>hr_provider := Some (ps_provider p),
                            hr_provider_reference := Some (ps_provider_payment_id p)\<rparr>)
           | Inl e \<Rightarrow> if e = PROVIDER_NOT_FOUND then local_payment_status ctx else provider_failed ctx e)"

definition handle_check_subscription_status :: "HandlerContext \<Rightarrow> HandlerResult dbprog" where
  "handle_check_subscription_status ctx = handle_get_subscription_details ctx"

subsection \<open>Tools with side effects\<close>

text \<open>
  The request of a retry. The validated payload has no \<^verbatim>\<open>intended_status\<close> (it is not a field of the
  input model), so the outcome of the attempt is the provider's.
\<close>

definition retry_failure_reason :: "Payment \<Rightarrow> FailureReason option" where
  "retry_failure_reason p = (case pay_failure_code p of
     None \<Rightarrow> None
   | Some code \<Rightarrow> if code = [] then None
                 else Some (case parse_enum failure_value all_failures code of
                              Inl _ \<Rightarrow> UNKNOWN_FAILURE | Inr r \<Rightarrow> r))"

definition retry_request ::
  "HandlerContext \<Rightarrow> Payment \<Rightarrow> Customer option \<Rightarrow> int \<Rightarrow> CreatePaymentRequest" where
  "retry_request ctx original customer attempt_number =
     \<lparr>cp_merchant_reference = str_uuid (hc_case ctx), cp_amount = pay_amount original,
      cp_currency = pay_currency original, cp_customer_reference = Some (str_uuid (pay_customer_id original)),
      cp_provider_order_id = pay_provider_order_id original, cp_attempt_number = attempt_number,
      cp_customer_history = (case customer of None \<Rightarrow> default_history
         | Some cu \<Rightarrow> default_history\<lparr>ch_lifetime_value := cust_lifetime_value cu\<rparr>),
      cp_intended_status = None, cp_failure_reason = retry_failure_reason original,
      cp_metadata = [(''recovery_case_id'', JUuid (hc_case ctx)),
         (''original_provider_payment_id'', str_or_null (pay_provider_payment_id original)),
         (''idempotency_key'', JStr (hc_idempotency_key ctx))]\<rparr>"

definition retried_payment :: "Host \<Rightarrow> HandlerContext \<Rightarrow> Payment \<Rightarrow> PaymentSnapshot \<Rightarrow> Payment" where
  "retried_payment h ctx original p =
     \<lparr>pay_id = internal_payment_uuid h (hc_merchant_id ctx) (ps_provider p) (ps_provider_payment_id p),
      pay_merchant_id = hc_merchant_id ctx, pay_customer_id = pay_customer_id original,
      pay_provider = ps_provider p, pay_provider_payment_id = Some (ps_provider_payment_id p),
      pay_provider_order_id = ps_provider_order_id p, pay_provider_payment_link_id = None,
      pay_amount = numeric_18_2 (ps_amount p), pay_provider_amount_minor = None,
      pay_currency = ps_currency p, pay_status = ps_status p, pay_payment_method = ps_payment_method p,
      pay_failure_reason = None, pay_failure_code = map_option failure_value (ps_failure_reason p),
      pay_captured_at = (if ps_status p = Pay_CAPTURED then Some (ps_occurred_at p) else None),
      pay_failed_at = (if ps_status p = Pay_FAILED then Some (ps_occurred_at p) else None)\<rparr>"

lemma retried_payment_fields [simp]:
  "pay_amount (retried_payment h ctx original p) = numeric_18_2 (ps_amount p)"
  "pay_customer_id (retried_payment h ctx original p) = pay_customer_id original"
  "pay_provider_payment_id (retried_payment h ctx original p) = Some (ps_provider_payment_id p)"
  "pay_status (retried_payment h ctx original p) = ps_status p"
  by (simp_all add: retried_payment_def)

text \<open>A payment has at most one attempt of a number, and amounts are not negative.\<close>

definition insert_attempt :: "PaymentAttempt \<Rightarrow> unit dbprog" where
  "insert_attempt a = (\<lambda>s.
     if att_amount a < 0 \<or> (\<exists>b \<in> set (db_attempts s). att_payment_id b = att_payment_id a
          \<and> att_attempt_number b = att_attempt_number a)
     then (Inl IntegrityError, s)
     else (Inr (), s\<lparr>db_attempts := db_attempts s @ [a]\<rparr>))"

definition announce_retry :: "Host \<Rightarrow> HandlerContext \<Rightarrow> PaymentSnapshot \<Rightarrow> uuid list dbprog" where
  "announce_retry h ctx p = (case hc_queue ctx of
     None \<Rightarrow> ret []
   | Some up \<Rightarrow>
       if ps_provider p \<noteq> SIMULATOR then ret []
       else
         bind now (\<lambda>t.
         bind (ingest (hc_race ctx) up
                 (build_provider_event h p (t div 1000000) [(''source'', JStr ''retry_payment'')] None None t)
                 (hc_merchant_id ctx)) (\<lambda>res.
         ret (if ir_queued res then [ir_webhook_event_id res] else []))))"

definition retry_result ::
  "Host \<Rightarrow> HandlerContext \<Rightarrow> Payment \<Rightarrow> Payment \<Rightarrow> PaymentSnapshot \<Rightarrow> int \<Rightarrow> uuid list \<Rightarrow> HandlerResult" where
  "retry_result h ctx original refreshed p attempt_number queued =
     (let new_id = pay_id (retried_payment h ctx original p) in
      (succeeded
        [(''original_provider_payment_id'', str_or_null (pay_provider_payment_id original)),
         (''original_status'', JStr (payment_status_value (pay_status refreshed))),
         (''new_provider_payment_id'', JStr (ps_provider_payment_id p)),
         (''new_payment_id'', JUuid new_id),
         (''provider_status'', JStr (payment_status_value (ps_status p))),
         (''attempt_number'', JInt attempt_number), (''provider'', JStr (ps_provider p)),
         (''simulated'', JBool (ps_provider p = SIMULATOR))])
      \<lparr>hr_provider := Some (ps_provider p), hr_provider_reference := Some (ps_provider_payment_id p),
       hr_amount := Some (ps_amount p), hr_case_status := Some Case_ACTION_COMPLETED,
       hr_metadata := [(''new_payment_id'', JUuid new_id), (''executed'', JBool True)],
       hr_queued := queued\<rparr>)"

definition handle_retry_payment :: "Host \<Rightarrow> HandlerContext \<Rightarrow> HandlerResult dbprog" where
  "handle_retry_payment h ctx = with_payment ctx ''Retry requires a case payment'' (\<lambda>original.
     bind (gets (\<lambda>s. case dict_get (hc_payload ctx) ''attempt_number'' of
                       JInt n \<Rightarrow> if n \<noteq> 0 then n else next_attempt_number s (pay_id original)
                     | _ \<Rightarrow> next_attempt_number s (pay_id original))) (\<lambda>attempt_number.
     bind (read_opt read_customer (hc_customer ctx)) (\<lambda>customer.
     bind now (\<lambda>t.
     case prov_create_payment (hc_provider ctx) t (retry_request ctx original customer attempt_number) of
       Inl e \<Rightarrow> provider_failed ctx e
     | Inr p \<Rightarrow>
         seqp (insert_payment (retried_payment h ctx original p))
         (bind (announce_retry h ctx p) (\<lambda>queued.
          seqp (insert_attempt
                 \<lparr>att_payment_id = pay_id original, att_attempt_number = attempt_number,
                  att_status = ps_status p, att_amount = numeric_18_2 (ps_amount p),
                  att_currency = ps_currency p,
                  att_failure_code = map_option failure_value (ps_failure_reason p),
                  att_attempted_at = ps_occurred_at p\<rparr>)
          (bind (read_payment (pay_id original)) (\<lambda>refreshed.
           if pay_provider_payment_id refreshed \<noteq> pay_provider_payment_id original
           then ret (failed ''ORIGINAL_PAYMENT_MUTATED'' ''Original failed payment must remain historical'')
           else ret (retry_result h ctx original refreshed p attempt_number queued)))))))))"

definition scheduled_time :: "Host \<Rightarrow> json \<Rightarrow> timestamp res" where
  "scheduled_time h v = (case v of
     JTime t \<Rightarrow> Inr t
   | _ \<Rightarrow> (case host_fromisoformat h (replace_Z (json_str h v)) of None \<Rightarrow> Inl ValueError | Some t \<Rightarrow> Inr t))"

definition handle_schedule_retry :: "Host \<Rightarrow> HandlerContext \<Rightarrow> HandlerResult dbprog" where
  "handle_schedule_retry h ctx = (case map_of (hc_payload ctx) ''scheduled_for'' of
     None \<Rightarrow> raise KeyError
   | Some v \<Rightarrow>
       bind (lift (scheduled_time h v)) (\<lambda>t.
       ret ((succeeded
         [(''scheduled_for'', JTime t), (''executed'', JBool False),
          (''note'', JStr ''Future workers must re-check payment, case, policy, and idempotency'')])
         \<lparr>hr_case_status := Some Case_RETRY_SCHEDULED,
          hr_metadata := [(''scheduled_for'', JTime t), (''executed'', JBool False)]\<rparr>)))"

definition handle_create_payment_link :: "HandlerContext \<Rightarrow> HandlerResult dbprog" where
  "handle_create_payment_link ctx =
     bind (read_case (hc_case ctx)) (\<lambda>c.
     bind (lift (as_money (rc_amount_at_risk c))) (\<lambda>amount.
     case prov_create_payment_link (hc_provider ctx)
            \<lparr>cl_merchant_reference = str_uuid (rc_id c), cl_amount = amount, cl_currency = rc_currency c,
             cl_customer_reference = Some (str_uuid (rc_customer_id c)),
             cl_description = dict_get (hc_payload ctx) ''description'',
             cl_metadata = [(''recovery_case_id'', JUuid (rc_id c)), (''simulated'', JBool True)]\<rparr> of
       Inl e \<Rightarrow> provider_failed ctx e
     | Inr l \<Rightarrow>
         seqp (case hc_payment ctx of
                 None \<Rightarrow> ret ()
               | Some pid \<Rightarrow> update_payment pid (\<lambda>p. p\<lparr>pay_provider_payment_link_id :=
                               Some (ls_provider_payment_link_id l)\<rparr>))
              (ret ((succeeded
                [(''provider'', JStr (ls_provider l)),
                 (''provider_payment_link_id'', JStr (ls_provider_payment_link_id l)),
                 (''url'', JStr (ls_url l)), (''status'', JStr (ls_status l)),
                 (''simulated'', JBool (ls_simulated l))])
                \<lparr>hr_provider := Some (ls_provider l),
                 hr_provider_reference := Some (ls_provider_payment_link_id l),
                 hr_amount := Some (ls_amount l), hr_case_status := Some Case_ACTION_COMPLETED,
                 hr_simulated := ls_simulated l\<rparr>))))"

text \<open>The channel of a notification: the validated one, which is always the value of a channel.\<close>

definition channel_of :: "json \<Rightarrow> NotificationChannel" where
  "channel_of v = (case v of
     JStr x \<Rightarrow> (case parse_enum channel_value all_channels x of Inl _ \<Rightarrow> Chan_EMAIL | Inr c \<Rightarrow> c)
   | _ \<Rightarrow> Chan_EMAIL)"

definition handle_send_notification :: "HandlerContext \<Rightarrow> HandlerResult dbprog" where
  "handle_send_notification ctx = (case hc_customer ctx of
     None \<Rightarrow> ret (failed ''MISSING_CUSTOMER'' ''Notification requires a customer'')
   | Some cid \<Rightarrow>
       let channel = channel_of (dict_get (hc_payload ctx) ''channel'');
           reference = ''notif_sim_'' @ take 24 (hc_idempotency_key ctx) in
       bind uuid4 (\<lambda>k.
       bind now (\<lambda>t.
       seqp (modify (\<lambda>s. s\<lparr>db_notifications := db_notifications s @
               [\<lparr>nt_merchant_id = hc_merchant_id ctx, nt_customer_id = cid,
                 nt_recovery_case_id = Some (hc_case ctx), nt_channel = channel,
                 nt_status = Notif_SENT, nt_provider = SIMULATOR, nt_provider_reference = reference,
                 nt_sent_at = Some t, nt_created_at = t\<rparr>]\<rparr>))
            (ret ((succeeded
              [(''notification_id'', JUuid k), (''channel'', JStr (channel_value channel)),
               (''status'', JStr ''SENT''), (''provider'', JStr SIMULATOR), (''simulated'', JBool True)])
              \<lparr>hr_provider := Some SIMULATOR, hr_provider_reference := Some reference,
               hr_case_status := Some Case_ACTION_COMPLETED\<rparr>)))))"

definition update_cart :: "uuid \<Rightarrow> (Cart \<Rightarrow> Cart) \<Rightarrow> unit dbprog" where
  "update_cart i f = modify (\<lambda>s. s\<lparr>db_carts := update_row cart_id i f (db_carts s)\<rparr>)"

definition handle_offer_discount :: "HandlerContext \<Rightarrow> HandlerResult dbprog" where
  "handle_offer_discount ctx = (case map_of (hc_payload ctx) ''discount_percent'' of
     None \<Rightarrow> raise KeyError
   | Some v \<Rightarrow>
       bind (lift (json_decimal v)) (\<lambda>percent.
       bind (read_case (hc_case ctx)) (\<lambda>c.
       bind (lift (as_money (rc_amount_at_risk c))) (\<lambda>at_risk.
       bind (lift (as_money (at_risk * percent / 100))) (\<lambda>amount.
       bind (gets (\<lambda>s. case rc_cart_id c of None \<Rightarrow> None | Some i \<Rightarrow> find_row cart_id i (db_carts s))) (\<lambda>cart.
       seqp (case cart of
               None \<Rightarrow> ret ()
             | Some k \<Rightarrow> bind (lift (as_money (cart_discount k + amount))) (\<lambda>d.
                          update_cart (cart_id k) (\<lambda>x. x\<lparr>cart_discount := d\<rparr>)))
            (ret ((succeeded
              [(''discount_percent'', JDec percent), (''discount_amount'', JDec amount),
               (''currency'', JStr (rc_currency c)), (''executed'', JBool True)])
              \<lparr>hr_amount := Some amount, hr_case_status := Some Case_ACTION_COMPLETED,
               hr_metadata := [(''discount_percent'', JDec percent), (''executed'', JBool True)]\<rparr>))))))))"

definition reason_or :: "HandlerContext \<Rightarrow> string \<Rightarrow> json" where
  "reason_or ctx otherwise = (let r = dict_get (hc_payload ctx) ''reason'' in if truthy r then r else JStr otherwise)"

definition handle_escalate_to_human :: "HandlerContext \<Rightarrow> HandlerResult dbprog" where
  "handle_escalate_to_human ctx =
     ret ((succeeded
       [(''escalated'', JBool True), (''reason'', reason_or ctx ''Escalated to a human operator''),
        (''amount_recovered_claimed'', JBool False)])
       \<lparr>hr_case_status := Some Case_ESCALATED, hr_metadata := [(''executed'', JBool True)]\<rparr>)"

definition handle_pause_recovery :: "HandlerContext \<Rightarrow> HandlerResult dbprog" where
  "handle_pause_recovery ctx =
     ret ((succeeded [(''stopped'', JBool True), (''reason'', reason_or ctx ''Automatic recovery paused'')])
       \<lparr>hr_case_status := Some Case_STOPPED, hr_metadata := [(''executed'', JBool True)]\<rparr>)"

subsection \<open>Dispatch and the case's status\<close>

definition HANDLERS :: "Host \<Rightarrow> (string \<times> (HandlerContext \<Rightarrow> HandlerResult dbprog)) list" where
  "HANDLERS h =
     [(''get_customer_history'', handle_get_customer_history),
      (''get_payment_details'', handle_get_payment_details),
      (''get_cart_details'', handle_get_cart_details),
      (''get_subscription_details'', handle_get_subscription_details),
      (''get_recovery_case'', handle_get_recovery_case),
      (''calculate_recovery_probability'', handle_calculate_recovery_probability h),
      (''retry_payment'', handle_retry_payment h),
      (''schedule_retry'', handle_schedule_retry h),
      (''create_payment_link'', handle_create_payment_link),
      (''send_notification'', handle_send_notification),
      (''offer_discount'', handle_offer_discount),
      (''check_payment_status'', handle_check_payment_status h),
      (''check_subscription_status'', handle_check_subscription_status),
      (''escalate_to_human'', handle_escalate_to_human),
      (''pause_recovery'', handle_pause_recovery)]"

definition run_handler :: "Host \<Rightarrow> string \<Rightarrow> HandlerContext \<Rightarrow> HandlerResult dbprog" where
  "run_handler h name ctx = (case map_of (HANDLERS h) name of None \<Rightarrow> raise KeyError | Some f \<Rightarrow> f ctx)"

definition apply_case_outcome :: "uuid \<Rightarrow> HandlerResult \<Rightarrow> ActorType \<Rightarrow> unit dbprog" where
  "apply_case_outcome i result actor = (case hr_case_status result of
     None \<Rightarrow> ret ()
   | Some target \<Rightarrow>
       bind (read_case i) (\<lambda>c.
       let current = rc_status c in
       if current = target then ret ()
       else if target = Case_ACTION_COMPLETED then
         seqp (unless (current \<notin> {Case_POLICY_CHECK, Case_AWAITING_APPROVAL})
                 (transition_case i Case_EXECUTING actor None))
         (bind (read_case i) (\<lambda>c'.
            unless (rc_status c' \<noteq> Case_EXECUTING) (transition_case i Case_ACTION_COMPLETED actor None)))
       else if target = Case_RETRY_SCHEDULED then
         unless (current \<noteq> Case_POLICY_CHECK) (transition_case i Case_RETRY_SCHEDULED actor None)
       else
         unless (\<not> (target \<in> {Case_ESCALATED, Case_STOPPED}
                    \<and> current \<in> {Case_POLICY_CHECK, Case_AWAITING_APPROVAL, Case_FAILED, Case_NOT_RECOVERED}))
           (transition_case i target actor None)))"

subsection \<open>Contracts\<close>

lemma creditless_insert_payment:
  "two_decimal (pay_amount row) \<Longrightarrow> creditless (insert_payment row)"
  by (intro creditlessI keeps_ok_insert_payment insert_payment_no_credit)

lemma creditless_update_payment:
  "(\<And>p. pay_id (f p) = pay_id p) \<Longrightarrow> (\<And>p. payment_ok p \<Longrightarrow> payment_ok (f p)) \<Longrightarrow>
   creditless (update_payment i f)"
  by (intro creditlessI keeps_ok_update_payment no_credit_rules)

lemma creditless_insert_attempt: "creditless (insert_attempt a)"
  by (rule creditless_other) (auto simp: insert_attempt_def split: if_splits)

lemma creditless_update_cart: "creditless (update_cart i f)"
  unfolding update_cart_def by (rule creditless_modify) simp

lemma creditless_provider_failed: "creditless (provider_failed ctx e)"
  unfolding provider_failed_def by (cases e) (simp_all add: creditless_basic)

lemma creditless_with_payment: "(\<And>p. creditless (f p)) \<Longrightarrow> creditless (with_payment ctx msg f)"
  unfolding with_payment_def by (intro creditless_rules)

lemma creditless_read_opt: "(\<And>k. creditless (f k)) \<Longrightarrow> creditless (read_opt f x)"
  unfolding read_opt_def by (intro creditless_rules)

lemma creditless_announce_retry: "safe_race (hc_race ctx) \<Longrightarrow> creditless (announce_retry h ctx p)"
  unfolding announce_retry_def by (intro creditless_rules creditless_ingest)

lemmas handler_rules =
  creditless_rules creditless_provider_failed creditless_with_payment creditless_read_opt
  creditless_announce_retry creditless_insert_attempt creditless_update_cart creditless_insert_payment
  creditless_update_payment creditless_persist_prediction

lemmas read_handler_defs =
  handle_get_customer_history_def handle_get_payment_details_def handle_get_cart_details_def
  handle_get_subscription_details_def handle_get_recovery_case_def handle_calculate_recovery_probability_def
  handle_check_payment_status_def handle_check_subscription_status_def local_payment_status_def
  read_customer_def

lemmas effect_handler_defs =
  handle_schedule_retry_def handle_send_notification_def
  handle_offer_discount_def handle_escalate_to_human_def handle_pause_recovery_def

lemma creditless_read_handlers:
  "creditless (handle_get_customer_history ctx)" "creditless (handle_get_payment_details ctx)"
  "creditless (handle_get_cart_details ctx)" "creditless (handle_get_subscription_details ctx)"
  "creditless (handle_get_recovery_case ctx)" "creditless (handle_calculate_recovery_probability h ctx)"
  "creditless (handle_check_payment_status h ctx)" "creditless (handle_check_subscription_status ctx)"
  unfolding read_handler_defs by (intro handler_rules)+

lemma creditless_effect_handlers:
  "creditless (handle_schedule_retry h ctx)" "creditless (handle_send_notification ctx)"
  "creditless (handle_offer_discount ctx)" "creditless (handle_escalate_to_human ctx)"
  "creditless (handle_pause_recovery ctx)"
  unfolding effect_handler_defs by (intro handler_rules creditless_modify; simp)+

lemma creditless_create_payment_link: "creditless (handle_create_payment_link ctx)"
  unfolding handle_create_payment_link_def
  by (intro handler_rules) (simp_all add: payment_ok_def)

lemma creditless_retry_payment:
  assumes "safe_race (hc_race ctx)"
  shows "creditless (handle_retry_payment h ctx)"
  unfolding handle_retry_payment_def read_customer_def
  by (intro handler_rules assms) (simp add: retried_payment_def two_decimal_numeric)

lemma creditless_run_handler:
  assumes "safe_race (hc_race ctx)"
  shows "creditless (run_handler h name ctx)"
proof -
  have "creditless (f ctx)" if "(n, f) \<in> set (HANDLERS h)" for n f
    using that assms unfolding HANDLERS_def
    by (auto intro: creditless_read_handlers creditless_effect_handlers creditless_create_payment_link
        creditless_retry_payment)
  then show ?thesis
    unfolding run_handler_def by (intro creditless_rules) (auto dest: map_of_SomeD)
qed

lemma creditless_apply_case_outcome: "creditless (apply_case_outcome i result actor)"
  unfolding apply_case_outcome_def by (intro creditless_rules creditless_transition) auto

subsection \<open>Retrying a payment\<close>

text \<open>A retry without a queue, written out.\<close>

definition booked_retry ::
  "Host \<Rightarrow> HandlerContext \<Rightarrow> Payment \<Rightarrow> PaymentSnapshot \<Rightarrow> int \<Rightarrow> db \<Rightarrow> HandlerResult res \<times> db" where
  "booked_retry h ctx original p n s =
     (let new = retried_payment h ctx original p in
      if insert_payment new s = (Inl IntegrityError, s) then (Inl IntegrityError, s)
      else if \<exists>b \<in> set (db_attempts s). att_payment_id b = pay_id original \<and> att_attempt_number b = n
      then (Inl IntegrityError, s\<lparr>db_payments := db_payments s @ [new]\<rparr>)
      else (Inr (retry_result h ctx original original p n []),
        s\<lparr>db_payments := db_payments s @ [new],
          db_attempts := db_attempts s @ [\<lparr>att_payment_id = pay_id original, att_attempt_number = n,
            att_status = ps_status p, att_amount = numeric_18_2 (ps_amount p), att_currency = ps_currency p,
            att_failure_code = map_option failure_value (ps_failure_reason p),
            att_attempted_at = ps_occurred_at p\<rparr>]\<rparr>))"

lemma handle_retry_run:
  assumes ctx: "hc_payment ctx = Some pid" "hc_queue ctx = None" "hc_provider ctx = sim_provider h sim"
    and original: "session_get_payment s pid = Some original"
    and customer: "\<And>cid. hc_customer ctx = Some cid \<Longrightarrow> session_get_customer s cid \<noteq> None"
  obtains p n where
    "handle_retry_payment h ctx s =
       booked_retry h ctx original p n s"
    "ps_provider p = SIMULATOR" "ps_amount p = pay_amount original"
    "ps_provider_payment_id p = next_payment_id h sim (str_uuid (hc_case ctx))"
    "ps_occurred_at p = db_clock s"
proof -
  define n where "n = (case dict_get (hc_payload ctx) ''attempt_number'' of
                       JInt n \<Rightarrow> if n \<noteq> 0 then n else next_attempt_number s (pay_id original)
                     | _ \<Rightarrow> next_attempt_number s (pay_id original))"
  obtain cu where cu: "read_opt read_customer (hc_customer ctx) s = (Inr cu, s)"
    using customer by (cases "hc_customer ctx") (auto simp: read_opt_def read_customer_def deref_def prog_simps)
  have ref: "cp_merchant_reference (retry_request ctx original cu n) = str_uuid (hc_case ctx)"
    by (simp add: retry_request_def)
  obtain oid s1 where "create_payment h (db_clock s) (retry_request ctx original cu n) sim =
      (Inr (new_snapshot h (db_clock s) (retry_request ctx original cu n) (sim_seed sim)
        (next_payment_id h sim (cp_merchant_reference (retry_request ctx original cu n))) oid), s1)"
    by (rule create_payment_run)
  note run = this [unfolded ref]
  define p where "p = new_snapshot h (db_clock s) (retry_request ctx original cu n) (sim_seed sim)
        (next_payment_id h sim (str_uuid (hc_case ctx))) oid"
  have id: "pay_id original = pid" using original by (auto simp: session_get_payment_def dest: find_row_Some_key)
  have amount: "ps_amount p = pay_amount original" by (simp add: p_def retry_request_def)
  have prov: "prov_create_payment (hc_provider ctx) (db_clock s) (retry_request ctx original cu n) = Inr p"
    using run by (simp add: ctx sim_provider_def p_def)
  let ?new = "retried_payment h ctx original p"
  have ins: "insert_payment ?new s = (Inr (), s\<lparr>db_payments := db_payments s @ [?new]\<rparr>)"
    "\<not> numeric_18_2 (ps_amount p) < 0" if "insert_payment ?new s \<noteq> (Inl IntegrityError, s)"
    using that by (auto simp: insert_payment_def retried_payment_def split: if_splits)
  have still: "session_get_payment (s\<lparr>db_payments := db_payments s @ [?new], db_attempts := x\<rparr>) pid = Some original" for x
    using original by (simp add: session_get_payment_def find_row_append)
  show ?thesis
  proof (rule that [of p n])
    show "handle_retry_payment h ctx s =
       booked_retry h ctx original p n s"
    proof (cases "insert_payment ?new s = (Inl IntegrityError, s)")
      case True
      then show ?thesis
        unfolding handle_retry_payment_def with_payment_def ctx(1) option.case
        using original cu prov
        by (simp add: prog_simps deref_def n_def [symmetric] now_def booked_retry_def)
    next
      case False
      with ins [OF this] show ?thesis
        unfolding handle_retry_payment_def with_payment_def ctx(1) option.case
        using original cu prov still
        by (simp add: prog_simps deref_def n_def [symmetric] now_def announce_retry_def ctx(2)
            insert_attempt_def booked_retry_def Let_def id [symmetric])
    qed
  qed (simp_all add: p_def retry_request_def)
qed

text \<open>
  \<^bold>\<open>A retry leaves history alone.\<close> Retrying the payment of a case (with the simulator and no queue)
  either fails on a constraint or adds exactly one payment and one attempt: a new payment, of the
  original's amount and customer, under the reference the provider gave, and an attempt of the
  original under a number not used before. The original payment, the cases and the audit trail are
  as they were.
\<close>

theorem retry_payment_books:
  assumes "hc_payment ctx = Some pid" "hc_queue ctx = None" "hc_provider ctx = sim_provider h sim"
    and original: "session_get_payment s pid = Some original"
    and "\<And>cid. hc_customer ctx = Some cid \<Longrightarrow> session_get_customer s cid \<noteq> None"
    and run: "handle_retry_payment h ctx s = (r, t)"
  shows "session_get_payment t pid = Some original \<and> db_cases t = db_cases s \<and> db_audit t = db_audit s
    \<and> (case r of
         Inl e \<Rightarrow> e = IntegrityError
       | Inr res \<Rightarrow> \<exists>new a. db_payments t = db_payments s @ [new] \<and> db_attempts t = db_attempts s @ [a]
           \<and> pay_id new \<noteq> pid \<and> pay_amount new = numeric_18_2 (pay_amount original)
           \<and> pay_customer_id new = pay_customer_id original
           \<and> pay_provider_payment_id new = hr_provider_reference res
           \<and> att_payment_id a = pid \<and> att_amount a = pay_amount new \<and> att_status a = pay_status new
           \<and> (\<forall>b \<in> set (db_attempts s). att_payment_id b = pid \<longrightarrow> att_attempt_number b \<noteq> att_attempt_number a)
           \<and> hr_success res \<and> hr_case_status res = Some Case_ACTION_COMPLETED)"
proof -
  obtain p n where p: "handle_retry_payment h ctx s =
       booked_retry h ctx original p n s" "ps_amount p = pay_amount original"
    by (rule handle_retry_run [OF assms(1-5)])
  have other: "pay_id (retried_payment h ctx original p) \<noteq> pid"
    if "insert_payment (retried_payment h ctx original p) s \<noteq> (Inl IntegrityError, s)"
  proof -
    have "pid \<in> pay_id ` set (db_payments s)"
      using original by (metis session_get_payment_def find_row_Some_in find_row_Some_key imageI)
    with that show ?thesis by (auto simp: insert_payment_def)
  qed
  have keep: "session_get_payment (s\<lparr>db_payments := db_payments s @ [x], db_attempts := y\<rparr>) i = Some original"
    "session_get_payment (s\<lparr>db_payments := db_payments s @ [x]\<rparr>) i = Some original"
    if "session_get_payment s i = Some original" for x y i
    using that by (simp_all add: session_get_payment_def find_row_append)
  have id: "pay_id original = pid"
    using original by (auto simp: session_get_payment_def dest: find_row_Some_key)
  show ?thesis
    using run other original unfolding p(1) booked_retry_def Let_def
    by (auto simp: id keep retry_result_def succeeded_def Let_def p(2) split: if_splits)
qed

definition demo_context_of :: "Host \<Rightarrow> HandlerContext" where
  "demo_context_of h = \<lparr>hc_case = 4, hc_merchant_id = 1, hc_customer = Some 2, hc_payment = Some 3,
     hc_provider = sim_provider h (new_simulator 42), hc_payload = [(''attempt_number'', JNull)],
     hc_attempt_number = 1, hc_idempotency_key = ''key'', hc_queue = None, hc_race = id,
     hc_model = Inl (InferenceError ''MODEL_UNAVAILABLE''), hc_error_text = error_code\<rparr>"

lemma demo_retry_facts:
  "hc_payment (demo_context_of demo_host) = Some 3" "hc_queue (demo_context_of demo_host) = None"
  "hc_provider (demo_context_of demo_host) = sim_provider demo_host (new_simulator 42)"
  "session_get_payment demo_db 3 = Some demo_payment"
  "hc_customer (demo_context_of demo_host) = Some cid \<Longrightarrow> session_get_customer demo_db cid \<noteq> None"
  by (simp_all add: demo_context_of_def session_get_payment_def session_get_customer_def find_row_def demo_defs)

lemma demo_retry_succeeds: "\<exists>res t. handle_retry_payment demo_host (demo_context_of demo_host) demo_db = (Inr res, t)"
proof -
  let ?ctx = "demo_context_of demo_host"
  obtain p n where run: "handle_retry_payment demo_host ?ctx demo_db =
       booked_retry demo_host ?ctx demo_payment p n demo_db"
    "ps_amount p = pay_amount demo_payment"
    "ps_provider_payment_id p = next_payment_id demo_host (new_simulator 42) (str_uuid (hc_case ?ctx))"
    by (rule handle_retry_run [OF demo_retry_facts])
  have "ps_provider_payment_id p \<noteq> ''pay_1''"
    unfolding run(3) next_payment_id_def deterministic_payment_id_def by simp
  moreover have "pay_id (retried_payment demo_host ?ctx demo_payment p) = 77"
    by (simp add: retried_payment_def internal_payment_uuid_def demo_host_def)
  moreover have "0 \<le> numeric_18_2 4000" by (rule numeric_18_2_nonneg) simp
  ultimately have "insert_payment (retried_payment demo_host ?ctx demo_payment p) demo_db \<noteq> (Inl IntegrityError, demo_db)"
    using run(2) by (auto simp: insert_payment_def demo_defs retried_payment_def)
  moreover have "db_attempts demo_db = []" by (simp add: demo_db_def)
  ultimately show ?thesis unfolding run(1) booked_retry_def by simp
qed

theorem retry_payment_books_witness:
  "\<exists>res t new. handle_retry_payment demo_host (demo_context_of demo_host) demo_db = (Inr res, t)
     \<and> db_payments t = [demo_payment, new] \<and> session_get_payment t 3 = Some demo_payment"
proof -
  obtain res t where run: "handle_retry_payment demo_host (demo_context_of demo_host) demo_db = (Inr res, t)"
    using demo_retry_succeeds by blast
  have "db_payments demo_db = [demo_payment]" by (simp add: demo_db_def)
  moreover obtain new where "db_payments t = db_payments demo_db @ [new]" "session_get_payment t 3 = Some demo_payment"
    using retry_payment_books [OF demo_retry_facts run] by auto
  ultimately show ?thesis using run by auto
qed

text \<open>
  C27. \<^bold>\<open>A second retry collides.\<close> The tool service creates a fresh simulator with the same seed for every
  request, so the second retry of a case gets the payment identifier of the first one again: it
  fails on the unique constraint and nothing is recorded, whatever attempt number it is given.
\<close>

theorem second_retry_collides:
  assumes "hc_payment ctx = Some pid" "hc_queue ctx = None" "hc_provider ctx = sim_provider h (new_simulator 42)"
    and "session_get_payment s pid = Some original"
    and "\<And>cid. hc_customer ctx = Some cid \<Longrightarrow> session_get_customer s cid \<noteq> None"
    and first: "handle_retry_payment h ctx s = (Inr res, t)"
    and same: "hc_payment ctx' = Some pid" "hc_queue ctx' = None"
      "hc_provider ctx' = sim_provider h (new_simulator 42)" "hc_case ctx' = hc_case ctx"
      "hc_merchant_id ctx' = hc_merchant_id ctx" "hc_customer ctx' = hc_customer ctx"
  shows "handle_retry_payment h ctx' t = (Inl IntegrityError, t)"
proof -
  obtain p n where p: "handle_retry_payment h ctx s =
       booked_retry h ctx original p n s"
    "ps_provider p = SIMULATOR" "ps_provider_payment_id p = next_payment_id h (new_simulator 42) (str_uuid (hc_case ctx))"
    by (rule handle_retry_run [OF assms(1-5)])
  from first have t: "t = s\<lparr>db_payments := db_payments s @ [retried_payment h ctx original p], db_attempts := db_attempts t\<rparr>"
    unfolding p(1) booked_retry_def Let_def by (auto split: if_splits)
  have there: "retried_payment h ctx original p \<in> set (db_payments t)" by (subst t) simp
  have original: "session_get_payment t pid = Some original"
    using assms(4) by (subst t) (simp add: session_get_payment_def find_row_append)
  have customers: "session_get_customer t cid \<noteq> None" if "hc_customer ctx' = Some cid" for cid
    using assms(5) that same(6) by (subst t) (simp add: session_get_customer_def)
  show ?thesis
  proof (rule handle_retry_run [OF same(1-3) original customers], assumption)
    fix q m
    assume q: "ps_provider q = SIMULATOR"
      "ps_provider_payment_id q = next_payment_id h (new_simulator 42) (str_uuid (hc_case ctx'))"
      and run: "handle_retry_payment h ctx' t =
       booked_retry h ctx' original q m t"
    have "pay_id (retried_payment h ctx' original q) = pay_id (retried_payment h ctx original p)"
      using p(2,3) q same by (simp add: retried_payment_def)
    with there have "insert_payment (retried_payment h ctx' original q) t = (Inl IntegrityError, t)"
      by (force simp: insert_payment_def)
    then show "handle_retry_payment h ctx' t = (Inl IntegrityError, t)" unfolding run booked_retry_def by simp
  qed
qed

theorem second_retry_collides_witness:
  "\<exists>res t. handle_retry_payment demo_host (demo_context_of demo_host) demo_db = (Inr res, t)
     \<and> handle_retry_payment demo_host ((demo_context_of demo_host)\<lparr>hc_payload := [(''attempt_number'', JInt 5)]\<rparr>) t
         = (Inl IntegrityError, t)"
proof -
  obtain res t where run: "handle_retry_payment demo_host (demo_context_of demo_host) demo_db = (Inr res, t)"
    using demo_retry_succeeds by blast
  from second_retry_collides [OF demo_retry_facts run,
      of "(demo_context_of demo_host)\<lparr>hc_payload := [(''attempt_number'', JInt 5)]\<rparr>"]
  have "handle_retry_payment demo_host ((demo_context_of demo_host)\<lparr>hc_payload := [(''attempt_number'', JInt 5)]\<rparr>) t
      = (Inl IntegrityError, t)"
    by (simp add: demo_context_of_def)
  with run show ?thesis by blast
qed

end
