(* ===== verification/Execution.thy ===== *)
theory Execution
  imports Handlers
begin

text \<open>
  \<^verbatim>\<open>recoverai_domain/tools/execution.py\<close>: the only way a tool runs. A request is resolved, validated and
  checked against merchant, permission and the state of the case; its idempotency key either
  replays an earlier result or opens a new tool call; the policy engine decides whether the tool is
  blocked, waits for approval or runs; the outcome is written to the action, the case, the key and
  the tool call. A domain error after the key was opened marks key and tool call as failed and is
  raised again. The record \<open>ToolService\<close> holds what the service object holds, together with the
  parameters of the model: the commit of a concurrent transaction, the trained model and the prose
  of exceptions. Latencies and the response column of a tool call are not modelled.
\<close>

subsection \<open>Requests, services and results\<close>

definition SIDE_EFFECT_EXECUTE_STATES :: "RecoveryCaseStatus list" where
  "SIDE_EFFECT_EXECUTE_STATES = [Case_POLICY_CHECK, Case_AWAITING_APPROVAL, Case_EXECUTING,
     Case_ACTION_COMPLETED, Case_RETRY_SCHEDULED, Case_NOT_RECOVERED, Case_FAILED]"

record ToolExecutionResult =
  tr_status :: string
  tr_tool_name :: string
  tr_allowed :: bool
  tr_requires_approval :: bool
  tr_reason :: string
  tr_action_id :: "uuid option"
  tr_approval_id :: "uuid option"
  tr_tool_call_id :: "uuid option"
  tr_provider :: "string option"
  tr_provider_reference :: "string option"
  tr_simulated :: bool
  tr_policy_version :: "string option"
  tr_idempotency_key :: "string option"
  tr_output :: dict
  tr_risk_level :: "string option"
  tr_replayed :: bool

definition result_public_dict :: "ToolExecutionResult \<Rightarrow> dict" where
  "result_public_dict r =
     [(''status'', JStr (tr_status r)), (''tool_name'', JStr (tr_tool_name r)),
      (''allowed'', JBool (tr_allowed r)), (''requires_approval'', JBool (tr_requires_approval r)),
      (''reason'', JStr (tr_reason r)), (''action_id'', json_opt JUuid (tr_action_id r)),
      (''approval_id'', json_opt JUuid (tr_approval_id r)),
      (''tool_call_id'', json_opt JUuid (tr_tool_call_id r)),
      (''provider'', str_or_null (tr_provider r)),
      (''provider_reference'', str_or_null (tr_provider_reference r)),
      (''simulated'', JBool (tr_simulated r)), (''policy_version'', str_or_null (tr_policy_version r)),
      (''idempotency_key'', str_or_null (tr_idempotency_key r)), (''output'', JObj (tr_output r)),
      (''risk_level'', str_or_null (tr_risk_level r)), (''replayed'', JBool (tr_replayed r))]"

definition stored_uuid :: "Host \<Rightarrow> json \<Rightarrow> uuid option res" where
  "stored_uuid h v =
     (if \<not> truthy v then Inr None
      else case v of JUuid u \<Rightarrow> Inr (Some u)
           | _ \<Rightarrow> (case parse_uuid (json_str h v) of None \<Rightarrow> Inl ValueError | Some u \<Rightarrow> Inr (Some u)))"

definition stored_str :: "json \<Rightarrow> string option" where
  "stored_str v = (case v of JStr x \<Rightarrow> Some x | _ \<Rightarrow> None)"

definition stored_bool :: "dict \<Rightarrow> string \<Rightarrow> bool \<Rightarrow> bool" where
  "stored_bool d k otherwise = (case map_of d k of None \<Rightarrow> otherwise | Some v \<Rightarrow> truthy v)"

definition str_or :: "Host \<Rightarrow> json \<Rightarrow> string \<Rightarrow> string" where
  "str_or h v otherwise = (if truthy v then json_str h v else otherwise)"

definition result_from_stored :: "Host \<Rightarrow> dict \<Rightarrow> ToolExecutionResult res" where
  "result_from_stored h d =
     bindE (stored_uuid h (dict_get d ''action_id'')) (\<lambda>action_id.
     bindE (stored_uuid h (dict_get d ''approval_id'')) (\<lambda>approval_id.
     bindE (stored_uuid h (dict_get d ''tool_call_id'')) (\<lambda>tool_call_id.
     Inr \<lparr>tr_status = str_or h (dict_get d ''status'') ''SUCCEEDED'',
          tr_tool_name = str_or h (dict_get d ''tool_name'') '''',
          tr_allowed = stored_bool d ''allowed'' True,
          tr_requires_approval = stored_bool d ''requires_approval'' False,
          tr_reason = str_or h (dict_get d ''reason'') '''',
          tr_action_id = action_id, tr_approval_id = approval_id, tr_tool_call_id = tool_call_id,
          tr_provider = stored_str (dict_get d ''provider''),
          tr_provider_reference = stored_str (dict_get d ''provider_reference''),
          tr_simulated = stored_bool d ''simulated'' True,
          tr_policy_version = stored_str (dict_get d ''policy_version''),
          tr_idempotency_key = stored_str (dict_get d ''idempotency_key''),
          tr_output = (case dict_get d ''output'' of JObj x \<Rightarrow> x | _ \<Rightarrow> []),
          tr_risk_level = stored_str (dict_get d ''risk_level''), tr_replayed = True\<rparr>)))"

record ToolService =
  ts_settings :: RecoverySettings
  ts_provider :: Provider
  ts_queue :: "bool option"
  ts_race :: "db \<Rightarrow> db"
  ts_model :: "MlBundle res"
  ts_error_text :: "py_error \<Rightarrow> string"

record ExecuteRequest =
  xr_tool_name :: "string option"
  xr_action :: "string option"
  xr_payload :: dict
  xr_idempotency_key :: string
  xr_merchant_id :: "uuid option"
  xr_actor_type :: ActorType
  xr_actor_id :: "string option"
  xr_granted_permissions :: "string list option"
  xr_existing_action_id :: "uuid option"
  xr_approval_id :: "uuid option"
  xr_approved_execution :: bool

subsection \<open>Small steps\<close>

definition proposed_from_payload :: "RecoveryActionType \<Rightarrow> dict \<Rightarrow> ProposedAction res" where
  "proposed_from_payload action payload =
     bindE (case dict_get payload ''discount_percent'' of
              JNull \<Rightarrow> Inr None
            | v \<Rightarrow> bindE (json_decimal v) (\<lambda>d. Inr (Some d))) (\<lambda>percent.
     Inr \<lparr>pa_action_type = action_value action, pa_discount_percent = percent, pa_discount_amount = None\<rparr>)"

definition next_action_attempt :: "db \<Rightarrow> uuid \<Rightarrow> RecoveryActionType \<Rightarrow> int" where
  "next_action_attempt s case_id action =
     (case map ra_attempt_number
             (filter (\<lambda>a. ra_recovery_case_id a = case_id \<and> ra_action_type a = action) (db_actions s)) of
        [] \<Rightarrow> 1 | n # ns \<Rightarrow> fold max ns n + 1)"

definition tool_call_status :: "string \<Rightarrow> ToolCallStatus" where
  "tool_call_status status =
     (if status = ''FAILED'' then Call_FAILED
      else if status = ''BLOCKED'' then Call_BLOCKED
      else if status = ''APPROVAL_REQUIRED'' then Call_APPROVAL_REQUIRED
      else Call_SUCCESS)"

definition resolve_tool :: "string option \<Rightarrow> string option \<Rightarrow> ToolSpec res" where
  "resolve_tool tool_name action =
     (if tool_name \<noteq> None \<and> tool_name \<noteq> Some [] then require_tool (the tool_name)
      else if action \<noteq> None \<and> action \<noteq> Some [] then
        (case parse_enum action_value all_actions (the action) of
           Inl _ \<Rightarrow> Inl (ToolValidationError ''UNKNOWN_ACTION'')
         | Inr parsed \<Rightarrow> require_tool (TOOL_BY_ACTION parsed))
      else Inl (ToolValidationError ''UNKNOWN_TOOL''))"

definition assert_merchant :: "uuid \<Rightarrow> uuid option \<Rightarrow> unit dbprog" where
  "assert_merchant i merchant_id =
     bind (read_case i) (\<lambda>c.
       if merchant_id \<noteq> None \<and> merchant_id \<noteq> Some (rc_merchant_id c)
       then raise (ToolValidationError ''MERCHANT_MISMATCH'')
       else bind (gets (\<lambda>s. get_merchant s (rc_merchant_id c))) (\<lambda>m.
         case m of None \<Rightarrow> raise (ToolValidationError ''MISSING_MERCHANT'') | Some _ \<Rightarrow> ret ()))"

definition upsert_action ::
  "uuid \<Rightarrow> RecoveryActionType \<Rightarrow> string \<Rightarrow> RecoveryActionStatus \<Rightarrow> RiskLevel \<Rightarrow> uuid option \<Rightarrow>
   string option \<Rightarrow> string option \<Rightarrow> dict \<Rightarrow> uuid dbprog" where
  "upsert_action i action key status risk existing_action_id code message metadata =
     bind (read_case i) (\<lambda>c.
     bind (gets (\<lambda>s. case (case existing_action_id of None \<Rightarrow> None | Some aid \<Rightarrow> session_get_action s aid) of
                       Some a \<Rightarrow> Some a
                     | None \<Rightarrow> action_by_key s (rc_merchant_id c) key)) (\<lambda>existing.
       case existing of
         Some a \<Rightarrow>
           seqp (update_action (ra_id a) (\<lambda>r. r\<lparr>ra_status := status, ra_error_code := code,
                   ra_error_message := message, ra_metadata := dict_update (ra_metadata r) metadata,
                   ra_risk_level := risk\<rparr>))
                (ret (ra_id a))
       | None \<Rightarrow>
           bind (gets (\<lambda>s. next_action_attempt s (rc_id c) action)) (\<lambda>attempt.
           bind (insert_action (\<lambda>k t.
             \<lparr>ra_id = k, ra_merchant_id = rc_merchant_id c, ra_recovery_case_id = rc_id c,
              ra_action_type = action, ra_status = status, ra_idempotency_key = key,
              ra_attempt_number = attempt, ra_risk_level = risk, ra_provider = None,
              ra_provider_reference = None, ra_amount = Some (rc_amount_at_risk c),
              ra_currency = rc_currency c, ra_scheduled_for = None, ra_executed_at = None,
              ra_error_code = code, ra_error_message = message,
              ra_metadata = (if metadata = [] then [(''executed'', JBool False)] else metadata),
              ra_created_at = t\<rparr>)) (\<lambda>k.
           seqp (record_audit (rc_merchant_id c) Aud_ACTION_PLANNED (Some (rc_id c)) Actor_SYSTEM
                   (Some (action_value action)) None None (Some key))
                (ret k)))))"

definition create_approval ::
  "uuid \<Rightarrow> uuid \<Rightarrow> string option \<Rightarrow> int \<Rightarrow> dict \<Rightarrow> string \<Rightarrow> string \<Rightarrow> uuid dbprog" where
  "create_approval i action_id actor_id ttl_minutes payload tool_name key =
     bind (read_case i) (\<lambda>c.
     bind (insert_approval (\<lambda>k t.
             \<lparr>ap_id = k, ap_merchant_id = rc_merchant_id c, ap_recovery_case_id = rc_id c,
              ap_recovery_action_id = Some action_id, ap_status = Appr_PENDING,
              ap_requested_by = actor_id, ap_decided_by = None, ap_decision_reason = None,
              ap_decided_at = None, ap_expires_at = Some (t + ttl_minutes * 60000000),
              ap_created_at = t\<rparr>)) (\<lambda>k.
     seqp (update_action action_id (\<lambda>a. a\<lparr>ra_metadata := dict_update (ra_metadata a)
             [(''approval_id'', JUuid k), (''case_version'', JInt (rc_version c)),
              (''case_fingerprint'', case_fingerprint c), (''tool_name'', JStr tool_name),
              (''payload'', JObj payload), (''idempotency_key'', JStr key)]\<rparr>))
          (ret k)))"

definition assert_usable_approval :: "uuid \<Rightarrow> uuid option \<Rightarrow> uuid option \<Rightarrow> unit dbprog" where
  "assert_usable_approval i approval_id action_id = (case approval_id of
     None \<Rightarrow> raise (ToolValidationError ''APPROVAL_REQUIRED'')
   | Some apid \<Rightarrow>
       bind (read_case i) (\<lambda>c.
       bind (gets (\<lambda>s. session_get_approval s apid)) (\<lambda>approval.
         case approval of
           None \<Rightarrow> raise (ToolValidationError ''APPROVAL_NOT_FOUND'')
         | Some ap \<Rightarrow>
             if ap_recovery_case_id ap \<noteq> rc_id c then raise (ToolValidationError ''APPROVAL_NOT_FOUND'')
             else if ap_status ap \<noteq> Appr_APPROVED then raise (ToolValidationError ''APPROVAL_NOT_APPROVED'')
             else bind now (\<lambda>t.
               if (case ap_expires_at ap of None \<Rightarrow> False | Some e \<Rightarrow> e \<le> t)
               then seqp (update_approval apid (\<lambda>a. a\<lparr>ap_status := Appr_EXPIRED\<rparr>))
                         (raise (ToolValidationError ''APPROVAL_EXPIRED''))
               else bind (gets (\<lambda>s. case action_id of None \<Rightarrow> None | Some aid \<Rightarrow> session_get_action s aid))
                 (\<lambda>action. case action of
                    None \<Rightarrow> ret ()
                  | Some a \<Rightarrow>
                      let fingerprint = dict_get (ra_metadata a) ''case_fingerprint'' in
                      if truthy fingerprint \<and> fingerprint \<noteq> case_fingerprint c
                      then raise (ToolValidationError ''STALE_APPROVAL'') else ret ())))))"

definition update_tool_call :: "uuid \<Rightarrow> (ToolCall \<Rightarrow> ToolCall) \<Rightarrow> unit dbprog" where
  "update_tool_call i f = modify (\<lambda>s. s\<lparr>db_tool_calls := update_row tc_id i f (db_tool_calls s)\<rparr>)"

definition finish_tool_call :: "uuid \<Rightarrow> ToolCallStatus \<Rightarrow> timestamp \<Rightarrow> string option \<Rightarrow> unit dbprog" where
  "finish_tool_call i status started_at code =
     bind now (\<lambda>t. update_tool_call i (\<lambda>c. c\<lparr>tc_status := status, tc_error_code := code,
       tc_request_payload := dict_set ''completed_at'' (JTime t)
         (dict_set ''started_at'' (JTime started_at) (tc_request_payload c))\<rparr>))"

definition insert_tool_call :: "(uuid \<Rightarrow> ToolCall) \<Rightarrow> uuid dbprog" where
  "insert_tool_call row = bind uuid4 (\<lambda>k.
     seqp (modify (\<lambda>s. s\<lparr>db_tool_calls := db_tool_calls s @ [row k]\<rparr>)) (ret k))"

subsection \<open>Running a tool\<close>

definition tool_result :: "string \<Rightarrow> ToolSpec \<Rightarrow> PolicyEvaluationResult \<Rightarrow> ToolExecutionResult" where
  "tool_result status spec ev = \<lparr>tr_status = status, tr_tool_name = spec_name spec, tr_allowed = True,
     tr_requires_approval = False, tr_reason = pr_reason ev, tr_action_id = None, tr_approval_id = None,
     tr_tool_call_id = None, tr_provider = None, tr_provider_reference = None, tr_simulated = True,
     tr_policy_version = Some (pr_policy_version ev), tr_idempotency_key = None, tr_output = [],
     tr_risk_level = Some (risk_value (pr_risk_level ev)), tr_replayed = False\<rparr>"

definition tool_audit :: "uuid \<Rightarrow> ExecuteRequest \<Rightarrow> AuditEventType \<Rightarrow> string \<Rightarrow> unit dbprog" where
  "tool_audit i req event action =
     bind (read_case i) (\<lambda>c. record_audit (rc_merchant_id c) event (Some (rc_id c)) (xr_actor_type req)
       (Some action) None None (Some (xr_idempotency_key req)))"

definition block_tool ::
  "uuid \<Rightarrow> ExecuteRequest \<Rightarrow> ToolSpec \<Rightarrow> RecoveryActionType \<Rightarrow> PolicyEvaluationResult \<Rightarrow> ToolExecutionResult dbprog" where
  "block_tool i req spec action ev =
     bind (upsert_action i action (xr_idempotency_key req) Act_BLOCKED (pr_risk_level ev)
             (xr_existing_action_id req) (Some ''POLICY_DENIED'') (Some (pr_reason ev)) []) (\<lambda>aid.
     seqp (tool_audit i req Aud_ACTION_BLOCKED (action_value action))
          (ret ((tool_result ''BLOCKED'' spec ev)\<lparr>tr_allowed := False, tr_action_id := Some aid\<rparr>)))"

definition run_metadata :: "ToolSpec \<Rightarrow> dict \<Rightarrow> dict" where
  "run_metadata spec validated = [(''payload'', JObj validated), (''tool_name'', JStr (spec_name spec)),
     (''executed'', JBool False)]"

definition request_tool_approval ::
  "uuid \<Rightarrow> ExecuteRequest \<Rightarrow> ToolSpec \<Rightarrow> RecoveryActionType \<Rightarrow> dict \<Rightarrow> PolicyContext \<Rightarrow> PolicyEvaluationResult \<Rightarrow>
   ToolExecutionResult dbprog" where
  "request_tool_approval i req spec action validated ctx ev =
     bind (upsert_action i action (xr_idempotency_key req) Act_APPROVAL_REQUIRED (pr_risk_level ev)
             (xr_existing_action_id req) None None (run_metadata spec validated)) (\<lambda>aid.
     bind (create_approval i aid (xr_actor_id req) (approval_ttl_minutes (ctx_settings ctx)) validated
             (spec_name spec) (xr_idempotency_key req)) (\<lambda>apid.
     bind (read_case i) (\<lambda>c.
     seqp (unless (rc_status c \<noteq> Case_POLICY_CHECK)
             (transition_case i Case_AWAITING_APPROVAL (xr_actor_type req) None))
     (seqp (tool_audit i req Aud_APPROVAL_REQUESTED (action_value action))
           (ret ((tool_result ''APPROVAL_REQUIRED'' spec ev)\<lparr>tr_requires_approval := True,
                   tr_action_id := Some aid, tr_approval_id := Some apid,
                   tr_output := [(''approval_id'', JUuid apid)]\<rparr>))))))"

definition start_action ::
  "uuid \<Rightarrow> ExecuteRequest \<Rightarrow> ToolSpec \<Rightarrow> RecoveryActionType \<Rightarrow> dict \<Rightarrow> PolicyEvaluationResult \<Rightarrow> uuid dbprog" where
  "start_action i req spec action validated ev =
     bind (upsert_action i action (xr_idempotency_key req) Act_EXECUTING (pr_risk_level ev)
             (xr_existing_action_id req) None None (run_metadata spec validated)) (\<lambda>aid.
     bind (read_case i) (\<lambda>c.
     seqp (unless (spec_name spec \<in> {''schedule_retry'', ''escalate_to_human'', ''pause_recovery''}
                   \<or> rc_status c \<notin> {Case_POLICY_CHECK, Case_AWAITING_APPROVAL})
             (transition_case i Case_EXECUTING (xr_actor_type req) None))
     (seqp (tool_audit i req Aud_ACTION_STARTED (action_value action))
           (ret aid))))"

definition record_handled :: "uuid \<Rightarrow> HandlerResult \<Rightarrow> unit dbprog" where
  "record_handled aid handled =
     bind now (\<lambda>t.
     update_action aid (\<lambda>a.
       let meta = dict_update (ra_metadata a) (hr_metadata handled);
           executed = (case map_of meta ''executed'' of None \<Rightarrow> hr_success handled | Some v \<Rightarrow> truthy v) in
       a\<lparr>ra_provider := hr_provider handled, ra_provider_reference := hr_provider_reference handled,
         ra_amount := (case hr_amount handled of None \<Rightarrow> ra_amount a | Some x \<Rightarrow> Some x),
         ra_executed_at := (if executed then Some t else ra_executed_at a),
         ra_metadata := dict_set ''executed'' (JBool executed) meta,
         ra_status := (if hr_success handled then Act_SUCCEEDED else Act_FAILED),
         ra_error_code := (if hr_success handled then None else hr_error_code handled),
         ra_error_message := (if hr_success handled then None else hr_error_message handled),
         ra_scheduled_for := (case map_of (hr_metadata handled) ''scheduled_for'' of
            Some (JTime u) \<Rightarrow> Some u | _ \<Rightarrow> ra_scheduled_for a)\<rparr>))"

definition finish_handled ::
  "uuid \<Rightarrow> ExecuteRequest \<Rightarrow> ToolSpec \<Rightarrow> RecoveryActionType option \<Rightarrow> PolicyEvaluationResult \<Rightarrow> uuid option \<Rightarrow>
   HandlerResult \<Rightarrow> ToolExecutionResult dbprog" where
  "finish_handled i req spec mapped ev aid handled =
     (let label = (case mapped of Some a \<Rightarrow> action_value a | None \<Rightarrow> spec_name spec) in
      if hr_success handled then
        seqp (apply_case_outcome i handled (xr_actor_type req))
        (seqp (unless (\<not> spec_side_effect spec) (tool_audit i req Aud_ACTION_SUCCEEDED label))
              (ret ((tool_result ''SUCCEEDED'' spec ev)\<lparr>tr_action_id := aid,
                      tr_approval_id := xr_approval_id req, tr_provider := hr_provider handled,
                      tr_provider_reference := hr_provider_reference handled,
                      tr_simulated := hr_simulated handled, tr_output := hr_output handled\<rparr>)))
      else
        bind (read_case i) (\<lambda>c.
        seqp (unless (\<not> (spec_side_effect spec \<and> rc_status c = Case_EXECUTING))
                (transition_case i Case_FAILED (xr_actor_type req) None))
        (seqp (tool_audit i req Aud_ACTION_FAILED label)
              (ret ((tool_result ''FAILED'' spec ev)\<lparr>tr_action_id := aid,
                      tr_reason := (case hr_error_message handled of
                         Some m \<Rightarrow> if m = [] then ''Tool failed'' else m | None \<Rightarrow> ''Tool failed''),
                      tr_provider := hr_provider handled, tr_output := hr_output handled\<rparr>)))))"

definition read_only_evaluation :: "PolicyContext \<Rightarrow> PolicyEvaluationResult" where
  "read_only_evaluation ctx = \<lparr>pr_allowed = True, pr_requires_approval = False, pr_risk_level = GREEN,
     pr_reason = ''Read-only tool'', pr_policy_ids = [''read_only''],
     pr_policy_version = policy_version (ctx_settings ctx)\<rparr>"

definition run_tool ::
  "Host \<Rightarrow> ToolService \<Rightarrow> uuid \<Rightarrow> ExecuteRequest \<Rightarrow> ToolSpec \<Rightarrow> RecoveryActionType option \<Rightarrow> uuid option \<Rightarrow>
   uuid option \<Rightarrow> dict \<Rightarrow> PolicyEvaluationResult \<Rightarrow> ToolExecutionResult dbprog" where
  "run_tool h svc i req spec mapped customer payment validated ev =
     bind (case mapped of
              Some action \<Rightarrow> if spec_side_effect spec
                then bind (start_action i req spec action validated ev) (\<lambda>aid. ret (Some aid)) else ret None
            | None \<Rightarrow> ret None) (\<lambda>aid.
      bind (case aid of
              None \<Rightarrow> ret 1
            | Some k \<Rightarrow> bind (deref session_get_action k) (\<lambda>a. ret (ra_attempt_number a))) (\<lambda>attempt.
      bind (read_case i) (\<lambda>c.
      bind (run_handler h (spec_name spec)
              \<lparr>hc_case = i, hc_merchant_id = rc_merchant_id c, hc_customer = customer,
               hc_payment = payment, hc_provider = ts_provider svc, hc_payload = validated,
               hc_attempt_number = attempt, hc_idempotency_key = xr_idempotency_key req,
               hc_queue = ts_queue svc, hc_race = ts_race svc, hc_model = ts_model svc,
               hc_error_text = ts_error_text svc\<rparr>) (\<lambda>handled.
      seqp (case aid of None \<Rightarrow> ret () | Some k \<Rightarrow> record_handled k handled)
           (finish_handled i req spec mapped ev aid handled)))))"

definition perform_tool ::
  "Host \<Rightarrow> ToolService \<Rightarrow> uuid \<Rightarrow> ExecuteRequest \<Rightarrow> ToolSpec \<Rightarrow> RecoveryActionType option \<Rightarrow> uuid option \<Rightarrow>
   uuid option \<Rightarrow> dict \<Rightarrow> PolicyEvaluationResult \<Rightarrow> ToolExecutionResult dbprog" where
  "perform_tool h svc i req spec mapped customer payment validated ev =
     seqp (unless (\<not> xr_approved_execution req)
             (assert_usable_approval i (xr_approval_id req) (xr_existing_action_id req)))
          (run_tool h svc i req spec mapped customer payment validated ev)"

definition run_after_idempotency ::
  "Host \<Rightarrow> ToolService \<Rightarrow> uuid \<Rightarrow> ExecuteRequest \<Rightarrow> ToolSpec \<Rightarrow> uuid option \<Rightarrow> uuid option \<Rightarrow> dict \<Rightarrow>
   ToolExecutionResult dbprog" where
  "run_after_idempotency h svc i req spec customer payment validated =
     (let mapped = action_for_tool (spec_name spec) in
      bind (case mapped of
              Some action \<Rightarrow> bind (lift (proposed_from_payload action validated)) (\<lambda>p. ret (Some p))
            | None \<Rightarrow> ret None) (\<lambda>proposed.
      bind (build_policy_context i (ts_settings svc)) (\<lambda>ctx.
      bind (case proposed of
              Some p \<Rightarrow> evaluate_and_persist ctx p (xr_actor_type req)
            | None \<Rightarrow> ret (read_only_evaluation ctx)) (\<lambda>ev.
      bind (read_case i) (\<lambda>c.
      if spec_side_effect spec \<and> rc_status c \<notin> set SIDE_EFFECT_EXECUTE_STATES
      then raise (ToolValidationError ''INVALID_CASE_STATE'')
      else case mapped of
             None \<Rightarrow> perform_tool h svc i req spec mapped customer payment validated ev
           | Some action \<Rightarrow>
               if \<not> pr_allowed ev then block_tool i req spec action ev
               else if pr_requires_approval ev \<and> \<not> xr_approved_execution req
               then request_tool_approval i req spec action validated ctx ev
               else perform_tool h svc i req spec mapped customer payment validated ev)))))"

subsection \<open>The service\<close>

datatype replay_decision = Replay dict | Proceed | In_progress

definition replay_of :: "IdempotencyKey \<Rightarrow> bool \<Rightarrow> replay_decision" where
  "replay_of r approved_execution =
     (let stored = (case dict_get (ik_metadata r) ''result'' of JObj d \<Rightarrow> Some d | _ \<Rightarrow> None) in
      if ik_status r = Idem_COMPLETED \<and> stored \<noteq> None then Replay (the stored)
      else if ik_status r = Idem_IN_PROGRESS \<and> approved_execution then Proceed
      else if ik_status r = Idem_IN_PROGRESS \<and> stored \<noteq> None then Replay (the stored)
      else if ik_status r = Idem_IN_PROGRESS then In_progress
      else if stored \<noteq> None then Replay (the stored)
      else Proceed)"

definition hash_payload :: "ToolSpec \<Rightarrow> string option \<Rightarrow> dict \<Rightarrow> dict" where
  "hash_payload spec action validated =
     [(''tool_name'', JStr (spec_name spec)),
      (''action'', JStr (case action_for_tool (spec_name spec) of
          Some a \<Rightarrow> action_value a
        | None \<Rightarrow> (case action of Some x \<Rightarrow> if x = [] then spec_name spec else x | None \<Rightarrow> spec_name spec))),
      (''input'', JObj validated)]"

definition settle_result ::
  "uuid \<Rightarrow> uuid \<Rightarrow> timestamp \<Rightarrow> string \<Rightarrow> ToolExecutionResult \<Rightarrow> ToolExecutionResult dbprog" where
  "settle_result rid tcid started_at key result =
     seqp (if tr_status result = ''APPROVAL_REQUIRED''
           then update_idempotency rid (\<lambda>r. r\<lparr>ik_metadata :=
                  dict_set ''result'' (JObj (result_public_dict result)) (ik_metadata r)\<rparr>)
           else complete_idempotent_operation rid (result_public_dict result)
                  (case tr_action_id result of Some a \<Rightarrow> a | None \<Rightarrow> tcid))
     (seqp (finish_tool_call tcid (tool_call_status (tr_status result)) started_at
              (if tr_status result \<noteq> ''FAILED'' then None else Some ''TOOL_FAILED''))
           (ret (result\<lparr>tr_tool_call_id := Some tcid, tr_idempotency_key := Some key\<rparr>)))"

fun is_conflict :: "py_error \<Rightarrow> bool" where
  "is_conflict (IdempotencyConflictError _) = True"
| "is_conflict _ = False"

fun actor_value :: "ActorType \<Rightarrow> string" where
  "actor_value Actor_SYSTEM = ''SYSTEM''"
| "actor_value Actor_USER = ''USER''"
| "actor_value Actor_AGENT = ''AGENT''"
| "actor_value Actor_WORKER = ''WORKER''"

definition fresh_run ::
  "Host \<Rightarrow> ToolService \<Rightarrow> uuid \<Rightarrow> ExecuteRequest \<Rightarrow> ToolSpec \<Rightarrow> dict \<Rightarrow> uuid \<Rightarrow> timestamp \<Rightarrow>
   ToolExecutionResult dbprog" where
  "fresh_run h svc i req spec validated rid started_at =
     bind (read_case i) (\<lambda>c.
     bind (gets (\<lambda>s. map_option cust_id (session_get_customer s (rc_customer_id c)))) (\<lambda>customer.
     bind (gets (\<lambda>s. case rc_payment_id c of None \<Rightarrow> None
                     | Some p \<Rightarrow> map_option pay_id (session_get_payment s p))) (\<lambda>payment.
     bind (insert_tool_call (\<lambda>k.
       \<lparr>tc_id = k, tc_merchant_id = rc_merchant_id c, tc_recovery_case_id = rc_id c,
        tc_tool_name = spec_name spec, tc_status = Call_PENDING,
        tc_request_payload = sanitize_items (dict_update validated
          [(''required_permission'', JStr (permission_value (spec_required_permission spec))),
           (''actor_type'', JStr (actor_value (xr_actor_type req))),
           (''actor_id'', str_or_null (xr_actor_id req))]),
        tc_idempotency_key = xr_idempotency_key req, tc_error_code = None\<rparr>)) (\<lambda>tcid.
     bind (catch (run_after_idempotency h svc i req spec customer payment validated)
             (\<lambda>e. if is_domain_error e \<and> \<not> is_conflict e
                  then seqp (fail_idempotent_operation rid (error_code e))
                       (seqp (finish_tool_call tcid Call_FAILED started_at (Some (error_code e)))
                             (raise e))
                  else raise e)) (\<lambda>result.
     settle_result rid tcid started_at (xr_idempotency_key req) result)))))"

definition run_once ::
  "Host \<Rightarrow> ToolService \<Rightarrow> uuid \<Rightarrow> ExecuteRequest \<Rightarrow> ToolSpec \<Rightarrow> dict \<Rightarrow> timestamp \<Rightarrow> uuid \<Rightarrow>
   ToolExecutionResult dbprog" where
  "run_once h svc i req spec validated started_at merchant_id =
     bind (begin_idempotent_operation (ts_race svc) merchant_id (xr_idempotency_key req)
             (spec_name spec) (canonical_request_hash h (hash_payload spec (xr_action req) validated))) (\<lambda>idem.
     bind (if io_replay idem
           then bind (gets (\<lambda>s. idempotency_record s merchant_id (xr_idempotency_key req))) (\<lambda>r.
                  case r of None \<Rightarrow> raise ObjectDeletedError
                  | Some rec \<Rightarrow> ret (replay_of rec (xr_approved_execution req)))
           else ret Proceed) (\<lambda>decision.
     case decision of
       Replay stored \<Rightarrow> lift (result_from_stored h stored)
     | In_progress \<Rightarrow> raise (DomainError ''IDEMPOTENCY_IN_PROGRESS'' True)
     | Proceed \<Rightarrow> fresh_run h svc i req spec validated (io_record idem) started_at))"

definition execute :: "Host \<Rightarrow> ToolService \<Rightarrow> uuid \<Rightarrow> ExecuteRequest \<Rightarrow> ToolExecutionResult dbprog" where
  "execute h svc case_id req =
     bind now (\<lambda>started_at.
     bind (lift (resolve_tool (xr_tool_name req) (xr_action req))) (\<lambda>spec.
     bind (lift (validate_input h spec (xr_payload req))) (\<lambda>validated.
     bind (lock_recovery_case case_id) (\<lambda>i.
     seqp (assert_merchant i (xr_merchant_id req))
     (seqp (unless (case xr_granted_permissions req of None \<Rightarrow> True
                    | Some granted \<Rightarrow> permission_value (spec_required_permission spec) \<in> set granted)
              (raise (ToolValidationError ''PERMISSION_DENIED'')))
     (bind (read_case i) (\<lambda>c.
      if is_terminal (rc_status c) then raise (ToolValidationError ''CASE_TERMINAL'')
      else run_once h svc i req spec validated started_at (rc_merchant_id c))))))))"

definition evaluate_tool ::
  "ToolService \<Rightarrow> uuid \<Rightarrow> string \<Rightarrow> dict \<Rightarrow> ActorType \<Rightarrow> uuid option \<Rightarrow> PolicyEvaluationResult dbprog" where
  "evaluate_tool svc case_id action payload actor merchant_id =
     bind (lock_recovery_case case_id) (\<lambda>i.
     seqp (assert_merchant i merchant_id)
     (bind (lift (case parse_enum action_value all_actions action of
                    Inl _ \<Rightarrow> Inl (ToolValidationError ''UNKNOWN_ACTION'') | Inr a \<Rightarrow> Inr a)) (\<lambda>parsed.
      bind (build_policy_context i (ts_settings svc)) (\<lambda>ctx.
      bind (lift (proposed_from_payload parsed payload)) (\<lambda>proposed.
      evaluate_and_persist ctx proposed actor)))))"

subsection \<open>Contracts\<close>

lemma creditless_tables:
  "creditless (insert_action row_a)" "creditless (insert_approval row_p)"
  "creditless (update_tool_call k g)" "creditless (insert_tool_call row_t)"
  by (rule creditless_other; auto simp: insert_action_def insert_approval_def update_tool_call_def
      insert_tool_call_def uuid4_def now_def prog_simps)+

lemma creditless_steps:
  "creditless (assert_merchant i m)" "creditless (upsert_action i a key st risk ex code msg meta)"
  "creditless (create_approval i aid who ttl payload name key)" "creditless (assert_usable_approval i ap ex)"
  "creditless (finish_tool_call k call_status t error)" "creditless (tool_audit i req event act)"
  unfolding assert_merchant_def upsert_action_def create_approval_def assert_usable_approval_def
    finish_tool_call_def tool_audit_def
  by (intro creditless_rules creditless_tables)+

lemmas execution_rules =
  creditless_rules creditless_tables creditless_steps creditless_policy creditless_idempotency

lemma creditless_perform_tool:
  assumes "safe_race (ts_race svc)"
  shows "creditless (perform_tool h svc i req spec mapped customer payment validated ev)"
  unfolding perform_tool_def run_tool_def start_action_def record_handled_def finish_handled_def
  by (intro execution_rules creditless_run_handler creditless_apply_case_outcome creditless_transition)
     (simp_all add: assms)

lemma creditless_run_after_idempotency:
  assumes "safe_race (ts_race svc)"
  shows "creditless (run_after_idempotency h svc i req spec customer payment validated)"
  unfolding run_after_idempotency_def block_tool_def request_tool_approval_def
  by (intro execution_rules creditless_perform_tool creditless_transition assms) simp_all

lemma creditless_fresh_run:
  "safe_race (ts_race svc) \<Longrightarrow> creditless (fresh_run h svc i req spec validated rid started)"
  unfolding fresh_run_def settle_result_def
  by (intro execution_rules creditless_run_after_idempotency)

lemma creditless_run_once:
  assumes "safe_race (ts_race svc)"
  shows "creditless (run_once h svc i req spec validated started m)"
proof -
  have "creditless (case decision of Replay stored \<Rightarrow> lift (result_from_stored h stored)
        | In_progress \<Rightarrow> raise (DomainError ''IDEMPOTENCY_IN_PROGRESS'' True)
        | Proceed \<Rightarrow> fresh_run h svc i req spec validated rid started)" for decision rid
    using assms by (cases decision) (simp_all add: creditless_basic creditless_fresh_run)
  then show ?thesis
    unfolding run_once_def by (intro execution_rules creditless_begin assms)
qed

lemma creditless_execute:
  "safe_race (ts_race svc) \<Longrightarrow> creditless (execute h svc case_id req)"
  unfolding execute_def by (intro execution_rules creditless_run_once)

lemma creditless_evaluate_tool: "creditless (evaluate_tool svc i action payload actor m)"
  unfolding evaluate_tool_def by (intro execution_rules)

end
