(* ===== verification/ToolGate.thy ===== *)
theory ToolGate
  imports Execution
begin

text \<open>
  What the tool execution service (\<^verbatim>\<open>recoverai_domain/tools/execution.py\<close>) guarantees: the tables a
  step leaves alone, the policy gate in front of every side effect, and the replay of a request.
\<close>

subsection \<open>Tables a step leaves alone\<close>

definition untouched :: "(db \<Rightarrow> 'a) \<Rightarrow> db \<Rightarrow> db \<Rightarrow> bool" where
  "untouched f s t \<longleftrightarrow> f t = f s"

interpretation untouched: step_frame "untouched f" for f
  by unfold_locales (simp_all add: untouched_def)

lemma untouched_reads:
  "obeys (untouched f) now" "obeys (untouched f) (deref g i)" "obeys (untouched f) (lock_recovery_case i)"
  by (auto simp: obeys_def untouched_def now_def gets_def deref_def lock_recovery_case_def prog_simps
      split: option.split)

lemma untouched_modify: "(\<And>s. f (g s) = f s) \<Longrightarrow> obeys (untouched f) (modify g)"
  by (simp add: obeys_def untouched_def modify_def)

text \<open>
  The service writes its own books: cases, actions, evaluations, tool calls and the audit trail, and
  approvals; the handlers write payments, attempts, notifications, carts and predictions. Each locale
  is about a part \<open>f\<close> of the database outside some of these tables, which the steps that write only
  such tables leave alone.
\<close>

locale outside_actions =
  fixes f :: "db \<Rightarrow> 'a"
  assumes f_uuid: "f (s\<lparr>db_next_uuid := n\<rparr>) = f s"
    and f_audit: "f (s\<lparr>db_audit := a\<rparr>) = f s"
    and f_cases: "f (s\<lparr>db_cases := c\<rparr>) = f s"
    and f_actions: "f (s\<lparr>db_actions := ac\<rparr>) = f s"
    and f_evaluations: "f (s\<lparr>db_policy_evaluations := pe\<rparr>) = f s"
    and f_tool_calls: "f (s\<lparr>db_tool_calls := tc\<rparr>) = f s"
begin

lemma actions_rows:
  "obeys (untouched f) uuid4" "obeys (untouched f) (record_audit m ev c a act p n k)"
  "obeys (untouched f) (update_case i u)" "obeys (untouched f) (update_action i v)"
  "obeys (untouched f) (insert_action row)" "obeys (untouched f) (insert_tool_call call)"
  "obeys (untouched f) (update_tool_call i x)"
  by (auto simp: obeys_def untouched_def uuid4_def now_def record_audit_def update_case_def update_action_def
      insert_action_def insert_tool_call_def update_tool_call_def prog_simps
      f_uuid f_audit f_cases f_actions f_tool_calls)

lemmas actions_rules = untouched.frame_rules untouched_reads actions_rows

lemma actions_transition: "obeys (untouched f) (transition_case i target actor v)"
  unfolding transition_case_def by (intro actions_rules)

lemma actions_policy:
  "obeys (untouched f) (build_policy_context i base)"
  "obeys (untouched f) (evaluate_and_persist ctx p actor)"
  unfolding build_policy_context_def evaluate_and_persist_def persist_policy_evaluation_def
  by (intro actions_rules untouched_modify f_evaluations)+

lemma actions_steps:
  "obeys (untouched f) (upsert_action i a key st risk ex code msg meta)"
  "obeys (untouched f) (tool_audit i req event act)"
  "obeys (untouched f) (finish_tool_call k call_status started code)"
  unfolding upsert_action_def tool_audit_def finish_tool_call_def Let_def
  by (intro actions_rules)+

lemma actions_block: "obeys (untouched f) (block_tool i req spec action ev)"
  unfolding block_tool_def by (intro actions_rules actions_steps)

lemma actions_start: "obeys (untouched f) (start_action i req spec action validated ev)"
  unfolding start_action_def by (intro actions_rules actions_steps actions_transition)

lemma actions_finish:
  "obeys (untouched f) (record_handled aid handled)"
  "obeys (untouched f) (finish_handled i req spec mapped ev act handled)"
  unfolding record_handled_def finish_handled_def apply_case_outcome_def Let_def
  by (intro actions_rules actions_steps actions_transition)+

end

locale outside_books = outside_actions +
  assumes f_approvals: "f (s\<lparr>db_approvals := ap\<rparr>) = f s"
begin

lemma books_rows: "obeys (untouched f) (update_approval i w)" "obeys (untouched f) (insert_approval apr)"
  by (auto simp: obeys_def untouched_def uuid4_def now_def update_approval_def insert_approval_def prog_simps
      f_uuid f_approvals)

lemma books_steps:
  "obeys (untouched f) (create_approval i aid who ttl payload name key)"
  "obeys (untouched f) (assert_usable_approval i ap ex)"
  unfolding create_approval_def assert_usable_approval_def Let_def by (intro actions_rules books_rows)+

lemma books_request: "obeys (untouched f) (request_tool_approval i req spec action validated ctx ev)"
  unfolding request_tool_approval_def
  by (intro actions_rules actions_steps books_steps actions_transition)

end

locale outside_handlers = outside_actions +
  assumes f_payments: "f (s\<lparr>db_payments := pa\<rparr>) = f s"
    and f_attempts: "f (s\<lparr>db_attempts := at'\<rparr>) = f s"
    and f_notifications: "f (s\<lparr>db_notifications := no\<rparr>) = f s"
    and f_carts: "f (s\<lparr>db_carts := ca\<rparr>) = f s"
    and f_predictions: "f (s\<lparr>db_predictions := pr\<rparr>) = f s"
begin

lemma handlers_rows:
  "obeys (untouched f) (insert_payment row)" "obeys (untouched f) (update_payment i u)"
  "obeys (untouched f) (insert_attempt a)" "obeys (untouched f) (update_cart i v)"
  by (auto simp: obeys_def untouched_def insert_payment_def update_payment_def insert_attempt_def
      update_cart_def prog_simps f_payments f_attempts f_carts)

lemma handlers_persist: "obeys (untouched f) (persist_prediction h m i a p src mv fv)"
  unfolding persist_prediction_def upsert_prediction_def
  by (intro actions_rules untouched_modify f_predictions)

lemma handlers_provider_failed: "obeys (untouched f) (provider_failed ctx e)"
  unfolding provider_failed_def by (cases e) (simp_all add: actions_rules)

lemma handlers_small:
  "(\<And>p. obeys (untouched f) (g p)) \<Longrightarrow> obeys (untouched f) (with_payment ctx msg g)"
  "(\<And>k. obeys (untouched f) (q k)) \<Longrightarrow> obeys (untouched f) (read_opt q x)"
  unfolding with_payment_def read_opt_def by (auto intro!: actions_rules)

lemma handlers_case_sum:
  "(\<And>e. obeys (untouched f) (g e)) \<Longrightarrow> (\<And>x. obeys (untouched f) (k x)) \<Longrightarrow>
   obeys (untouched f) (case v of Inl e \<Rightarrow> g e | Inr x \<Rightarrow> k x)"
  by (cases v) simp_all

lemmas handlers_rules =
  actions_rules handlers_rows handlers_persist handlers_provider_failed handlers_small handlers_case_sum

lemma handlers_read_handlers:
  "obeys (untouched f) (handle_get_customer_history ctx)" "obeys (untouched f) (handle_get_payment_details ctx)"
  "obeys (untouched f) (handle_get_cart_details ctx)" "obeys (untouched f) (handle_get_subscription_details ctx)"
  "obeys (untouched f) (handle_get_recovery_case ctx)"
  "obeys (untouched f) (handle_calculate_recovery_probability h ctx)"
  "obeys (untouched f) (handle_check_payment_status h ctx)" "obeys (untouched f) (handle_check_subscription_status ctx)"
  unfolding read_handler_defs by (intro handlers_rules)+

lemma handlers_effect_handlers:
  "obeys (untouched f) (handle_schedule_retry h ctx)" "obeys (untouched f) (handle_send_notification ctx)"
  "obeys (untouched f) (handle_offer_discount ctx)" "obeys (untouched f) (handle_escalate_to_human ctx)"
  "obeys (untouched f) (handle_pause_recovery ctx)" "obeys (untouched f) (handle_create_payment_link ctx)"
  unfolding effect_handler_defs handle_create_payment_link_def
  by (intro handlers_rules untouched_modify f_notifications)+

lemma handlers_retry_payment:
  assumes "hc_queue ctx = None"
  shows "obeys (untouched f) (handle_retry_payment h ctx)"
proof -
  have "obeys (untouched f) (announce_retry h ctx p)" for p
    using assms by (simp add: announce_retry_def untouched.obeys_ret)
  then show ?thesis
    unfolding handle_retry_payment_def read_customer_def by (intro handlers_rules)
qed

lemma handlers_run_handler:
  assumes "hc_queue ctx = None"
  shows "obeys (untouched f) (run_handler h name ctx)"
proof -
  have "obeys (untouched f) (g ctx)" if "(n, g) \<in> set (HANDLERS h)" for n g
    using that assms unfolding HANDLERS_def
    by (auto intro: handlers_read_handlers handlers_effect_handlers handlers_retry_payment)
  then show ?thesis
    unfolding run_handler_def
    by (cases "map_of (HANDLERS h) name") (auto dest: map_of_SomeD simp: handlers_rules)
qed

lemma handlers_run_tool:
  assumes "ts_queue svc = None"
  shows "obeys (untouched f) (run_tool h svc i req spec mapped customer payment validated ev)"
  unfolding run_tool_def
  by (intro actions_rules actions_start actions_finish handlers_run_handler) (simp add: assms)

end

locale outside_tools = outside_books + outside_handlers
begin

lemma tools_perform:
  "ts_queue svc = None \<Longrightarrow> obeys (untouched f) (perform_tool h svc i req spec mapped customer payment validated ev)"
  unfolding perform_tool_def by (intro actions_rules books_steps handlers_run_tool)

lemma tools_run_after_idempotency:
  assumes "ts_queue svc = None"
  shows "obeys (untouched f) (run_after_idempotency h svc i req spec customer payment validated)"
  unfolding run_after_idempotency_def Let_def
  by (intro actions_rules actions_policy actions_block books_request tools_perform assms)

end

interpretation keys: outside_tools db_idempotency
  by unfold_locales simp_all

text \<open>What a customer or a provider can notice: payments, attempts, messages and discounts.\<close>

definition effects :: "db \<Rightarrow> Payment list \<times> PaymentAttempt list \<times> Notification list \<times> Cart list" where
  "effects s = (db_payments s, db_attempts s, db_notifications s, db_carts s)"

interpretation effects: outside_books effects
  by unfold_locales (simp_all add: effects_def)

interpretation approvals: outside_handlers db_approvals
  by unfold_locales simp_all

subsection \<open>The policy gate\<close>

lemma bind_InrE:
  assumes "bind m f s = (Inr y, u)"
  obtains x t where "m s = (Inr x, t)" "f x t = (Inr y, u)"
  using assms by (auto simp: bind_def split: prod.splits sum.splits)

lemma seqp_InrE:
  assumes "seqp m n s = (Inr y, u)"
  obtains x t where "m s = (Inr x, t)" "n t = (Inr y, u)"
  using assms unfolding seqp_def by (rule bind_InrE)

lemma get_case_unscoped_id: "get_case_unscoped s i = Some c \<Longrightarrow> rc_id c = i"
  unfolding get_case_unscoped_def by (rule find_row_Some_key)

lemma read_case_InrE:
  assumes "read_case i s = (Inr c, t)"
  obtains "t = s" "get_case_unscoped s i = Some c"
  using assms by (auto simp: prog_simps split: option.splits)

lemma lock_InrE:
  assumes "lock_recovery_case i s = (Inr j, t)"
  obtains c where "j = i" "t = s" "get_case_unscoped s i = Some c"
  using assms by (auto simp: lock_recovery_case_def prog_simps dest: get_case_unscoped_id split: option.splits)

lemma assert_merchant_InrE:
  assumes "assert_merchant i m s = (Inr x, t)"
  obtains c where "t = s" "get_case_unscoped s i = Some c" "m \<in> {None, Some (rc_merchant_id c)}"
    "get_merchant s (rc_merchant_id c) \<noteq> None"
  using assms by (auto simp: assert_merchant_def prog_simps split: option.splits if_splits)

text \<open>An approval that licenses an execution now: approved, of this case, not expired.\<close>

definition usable_approval :: "db \<Rightarrow> uuid \<Rightarrow> uuid option \<Rightarrow> bool" where
  "usable_approval s i approval_id \<longleftrightarrow> (\<exists>k ap. approval_id = Some k \<and> session_get_approval s k = Some ap
     \<and> ap_recovery_case_id ap = i \<and> ap_status ap = Appr_APPROVED
     \<and> (\<forall>e. ap_expires_at ap = Some e \<longrightarrow> db_clock s < e))"

lemma assert_usable_approval_sound:
  assumes "assert_usable_approval i approval_id action_id s = (Inr x, t)"
  shows "t = s \<and> usable_approval s i approval_id"
proof (cases approval_id)
  case (Some k)
  from assms obtain ap where "session_get_approval s k = Some ap" "ap_recovery_case_id ap = i"
      "ap_status ap = Appr_APPROVED" "\<forall>e. ap_expires_at ap = Some e \<longrightarrow> db_clock s < e" "t = s"
    by (auto simp: Some assert_usable_approval_def prog_simps now_def Let_def update_approval_def         dest: get_case_unscoped_id
        split: option.splits if_splits)
  with Some show ?thesis by (auto simp: usable_approval_def)
qed (use assms in \<open>simp add: assert_usable_approval_def prog_simps\<close>)

lemma block_tool_status:
  "block_tool i req spec action ev s = (Inr r, t) \<Longrightarrow> tr_status r = ''BLOCKED'' \<and> \<not> tr_allowed r"
  unfolding block_tool_def tool_result_def by (auto simp: prog_eval elim!: bind_InrE seqp_InrE)

lemma request_tool_approval_status:
  "request_tool_approval i req spec action validated ctx ev s = (Inr r, t) \<Longrightarrow>
   tr_status r = ''APPROVAL_REQUIRED'' \<and> tr_requires_approval r"
  unfolding request_tool_approval_def tool_result_def by (auto simp: prog_eval elim!: bind_InrE seqp_InrE)

lemma finish_handled_status:
  assumes "finish_handled i req spec mapped ev aid handled s = (Inr r, t)"
  shows "tr_status r = (if hr_success handled then ''SUCCEEDED'' else ''FAILED'')"
  using assms unfolding finish_handled_def tool_result_def
  by (auto simp: prog_eval Let_def elim!: bind_InrE seqp_InrE split: if_splits)

lemma perform_tool_status:
  assumes "perform_tool h svc i req spec mapped customer payment validated ev s = (Inr r, t)"
  shows "tr_status r \<in> {''SUCCEEDED'', ''FAILED''} \<and> (xr_approved_execution req \<longrightarrow> usable_approval s i (xr_approval_id req))"
proof -
  from assms obtain x s1 where gate: "unless (\<not> xr_approved_execution req)
        (assert_usable_approval i (xr_approval_id req) (xr_existing_action_id req)) s = (Inr x, s1)"
      and "\<exists>aid handled s2. finish_handled i req spec mapped ev aid handled s2 = (Inr r, t)"
    unfolding perform_tool_def run_tool_def by (blast elim!: bind_InrE seqp_InrE)
  then show ?thesis
    using assert_usable_approval_sound [of i "xr_approval_id req" "xr_existing_action_id req" s x s1]
    by (auto simp: unless_def dest!: finish_handled_status split: if_splits)
qed

text \<open>
  C8. \<^bold>\<open>Every side effect passes the policy.\<close> Let a tool that stands for a recovery action run to a
  result. The policy was evaluated on the case as it is; when it forbids the action the result is
  BLOCKED, when it demands an approval that the request does not bring the result is
  APPROVAL_REQUIRED, and in both cases no payment, attempt, message or cart changed. The tool itself
  ran only when the policy allows the action, and an approved execution only with an approved,
  unexpired approval of this very case.
\<close>

theorem tool_policy_gate:
  assumes run: "run_after_idempotency h svc i req spec customer payment validated s = (Inr r, t)"
    and tool: "spec_name spec = TOOL_BY_ACTION action"
  shows "\<exists>ctx p ev. build_policy_context i (ts_settings svc) s = (Inr ctx, s)
    \<and> proposed_from_payload action validated = Inr p \<and> evaluate_action ctx p = Inr ev
    \<and> (if \<not> pr_allowed ev then tr_status r = ''BLOCKED'' \<and> effects t = effects s
       else if pr_requires_approval ev \<and> \<not> xr_approved_execution req
       then tr_status r = ''APPROVAL_REQUIRED'' \<and> effects t = effects s
       else tr_status r \<in> {''SUCCEEDED'', ''FAILED''}
         \<and> (\<not> pr_requires_approval ev \<and> \<not> xr_approved_execution req
            \<or> usable_approval s i (xr_approval_id req)))"
proof -
  have mapped: "action_for_tool (spec_name spec) = Some action" by (simp add: action_for_tool_iff tool)
  from run obtain p ctx ev s0 s1 where p: "proposed_from_payload action validated = Inr p"
      and ctx0: "build_policy_context i (ts_settings svc) s = (Inr ctx, s0)"
      and ev0: "evaluate_and_persist ctx p (xr_actor_type req) s0 = (Inr ev, s1)"
      and rest: "(if \<not> pr_allowed ev then block_tool i req spec action ev
               else if pr_requires_approval ev \<and> \<not> xr_approved_execution req
               then request_tool_approval i req spec action validated ctx ev
               else perform_tool h svc i req spec (Some action) customer payment validated ev) s1 = (Inr r, t)"
    unfolding run_after_idempotency_def Let_def mapped
    by (auto simp: prog_eval elim!: bind_InrE read_case_InrE split: if_splits)
  note ctx = ctx0 [unfolded build_policy_context_pure [OF ctx0]]
    and ev = ev0 [unfolded build_policy_context_pure [OF ctx0]]
  have e: "evaluate_action ctx p = Inr ev" using ev by (rule evaluate_and_persist_result)
  have same: "effects s1 = effects s" "db_clock s1 = db_clock s" "db_approvals s1 = db_approvals s"
    using obeysD [OF effects.actions_policy(2) ev] evaluate_and_persist_frame [OF ev]
    by (auto simp: untouched_def)
  have approval: "usable_approval s1 i k = usable_approval s i k" for k
    using same by (simp add: usable_approval_def session_get_approval_def)
  have quiet: "effects t = effects s1" if "\<not> pr_allowed ev \<or> pr_requires_approval ev \<and> \<not> xr_approved_execution req"
    using rest that obeysD [OF effects.actions_block, of i req spec action ev s1]
      obeysD [OF effects.books_request, of i req spec action validated ctx ev s1]
    by (auto simp: untouched_def split: if_splits)
  show ?thesis
    using p ctx e rest quiet same(1) approval
      block_tool_status [of i req spec action ev s1 r t]
      request_tool_approval_status [of i req spec action validated ctx ev s1 r t]
      perform_tool_status [of h svc i req spec "Some action" customer payment validated ev s1 r t]
    by (intro exI [of _ ctx] exI [of _ p] exI [of _ ev]) (auto split: if_splits)
qed

text \<open>With the kill switch on, a request for an automatic action returns a result.\<close>

lemma upsert_action_total:
  assumes "get_case_unscoped s i = Some c"
  shows "\<exists>k t. upsert_action i action key st risk ex code msg meta s = (Inr k, t) \<and> db_cases t = db_cases s"
  using assms
  by (auto simp: upsert_action_def prog_simps insert_action_def update_action_def uuid4_def now_def record_audit_def
      split: option.split)

definition halted :: "RecoverySettings \<Rightarrow> uuid \<Rightarrow> RecoveryActionType \<Rightarrow> ToolSpec \<Rightarrow> dict \<Rightarrow> db \<Rightarrow> bool" where
  "halted settings i action spec validated s \<longleftrightarrow>
     action \<in> set AUTOMATIC_ACTIONS \<and> spec_name spec = TOOL_BY_ACTION action
     \<and> proposed_from_payload action validated = Inr (propose action)
     \<and> (\<exists>c m st. get_case_unscoped s i = Some c \<and> 0 \<le> rc_amount_at_risk c
         \<and> rc_status c \<in> set SIDE_EFFECT_EXECUTE_STATES \<and> get_merchant s (rc_merchant_id c) = Some m
         \<and> merge_merchant settings (mer_settings m) = Inr st \<and> \<not> automatic_recovery_enabled st)"

lemma halted_verdict:
  assumes "halted settings i action spec validated s"
  shows "\<exists>ctx ev. build_policy_context i settings s = (Inr ctx, s)
    \<and> evaluate_action ctx (propose action) = Inr ev \<and> \<not> pr_allowed ev"
proof -
  obtain c m st where auto: "action \<in> set AUTOMATIC_ACTIONS"
      and c: "get_case_unscoped s i = Some c" "0 \<le> rc_amount_at_risk c"
      and m: "get_merchant s (rc_merchant_id c) = Some m" "merge_merchant settings (mer_settings m) = Inr st"
        "\<not> automatic_recovery_enabled st"
    using assms unfolding halted_def by blast
  let ?ctx = "policy_context_of s c m st (db_clock s)"
  obtain ev where "evaluate_action ?ctx (propose action) = Inr ev" "\<not> pr_allowed ev"
    by (rule evaluate_action_verdict [of ?ctx action]) (use auto c(2) m(3) in \<open>auto simp: policy_forbids_def\<close>)
  with build_policy_context_eval [OF c(1) m(1,2)] show ?thesis by blast
qed

lemma run_after_halted:
  assumes "halted (ts_settings svc) i action spec validated s"
  shows "\<exists>r t. run_after_idempotency h svc i req spec customer payment validated s = (Inr r, t)"
proof -
  obtain ctx ev where ev: "build_policy_context i (ts_settings svc) s = (Inr ctx, s)"
      "evaluate_action ctx (propose action) = Inr ev" "\<not> pr_allowed ev"
    using halted_verdict [OF assms] by blast
  obtain c where tool: "spec_name spec = TOOL_BY_ACTION action"
      "proposed_from_payload action validated = Inr (propose action)"
      and c: "get_case_unscoped s i = Some c" "rc_status c \<in> set SIDE_EFFECT_EXECUTE_STATES"
    using assms unfolding halted_def by blast
  obtain s1 where s1: "evaluate_and_persist ctx (propose action) (xr_actor_type req) s = (Inr ev, s1)"
      "db_cases s1 = db_cases s"
    using ev(2) by (auto simp: evaluate_and_persist_eval persist_policy_evaluation_def prog_simps record_audit_def)
  have c1: "get_case_unscoped s1 i = Some c" using c(1) s1(2) by (simp add: get_case_unscoped_def)
  obtain k t where up: "upsert_action i action (xr_idempotency_key req) Act_BLOCKED (pr_risk_level ev)
      (xr_existing_action_id req) (Some ''POLICY_DENIED'') (Some (pr_reason ev)) [] s1 = (Inr k, t)" "db_cases t = db_cases s1"
    using upsert_action_total [OF c1] by blast
  have ct: "get_case_unscoped t i = Some c" using c1 up(2) by (simp add: get_case_unscoped_def)
  have a: "action_for_tool (spec_name spec) = Some action" by (simp only: action_for_tool_iff tool)
  have "run_after_idempotency h svc i req spec customer payment validated s = block_tool i req spec action ev s1"
    using ev c(2) c1 s1(1) by (simp add: run_after_idempotency_def Let_def a tool(2) prog_simps)
  also have "\<exists>r u. block_tool i req spec action ev s1 = (Inr r, u)"
    using up(1) ct by (simp add: block_tool_def prog_simps tool_audit_def record_audit_def)
  finally show ?thesis .
qed

lemma settle_result_total: "\<exists>r' t'. settle_result rid tcid started key r t = (Inr r', t')"
  by (simp add: settle_result_def complete_idempotent_operation_def update_idempotency_def finish_tool_call_def
      update_tool_call_def prog_simps now_def)

lemma halted_books:
  "halted st i a spec v (s\<lparr>db_next_uuid := n\<rparr>) = halted st i a spec v s"
  "halted st i a spec v (s\<lparr>db_tool_calls := calls\<rparr>) = halted st i a spec v s"
  "halted st i a spec v (s\<lparr>db_idempotency := ks\<rparr>) = halted st i a spec v s"
  by (simp_all add: halted_def get_case_unscoped_def get_merchant_def)

lemma fresh_run_halted:
  assumes "halted (ts_settings svc) i action spec validated s"
  shows "\<exists>r t. fresh_run h svc i req spec validated rid started s = (Inr r, t)"
proof -
  obtain c where c: "get_case_unscoped s i = Some c" using assms unfolding halted_def by blast
  have run: "run_after_idempotency h svc i req spec customer payment validated
      (s\<lparr>db_next_uuid := n, db_tool_calls := calls\<rparr>) \<noteq> (Inl e, t)" for n calls customer payment e t
    using run_after_halted [of svc i action spec validated "s\<lparr>db_next_uuid := n, db_tool_calls := calls\<rparr>" h req customer payment]
    by (auto simp: assms halted_books)
  show ?thesis
    using c
    by (auto simp: fresh_run_def insert_tool_call_def uuid4_def prog_simps run settle_result_total
        split: prod.split sum.split)
qed

definition demo_service :: "RecoverySettings \<Rightarrow> ToolService" where
  "demo_service settings = \<lparr>ts_settings = settings, ts_provider = sim_provider demo_host (new_simulator 42),
     ts_queue = None, ts_race = id, ts_model = Inl (InferenceError ''MODEL_UNAVAILABLE''), ts_error_text = error_code\<rparr>"

definition tool_request :: "string \<Rightarrow> dict \<Rightarrow> ExecuteRequest" where
  "tool_request name payload = \<lparr>xr_tool_name = Some name, xr_action = None, xr_payload = payload,
     xr_idempotency_key = ''key'', xr_merchant_id = None, xr_actor_type = Actor_SYSTEM, xr_actor_id = None,
     xr_granted_permissions = None, xr_existing_action_id = None, xr_approval_id = None,
     xr_approved_execution = False\<rparr>"

definition policy_check_db :: "IdempotencyKey list \<Rightarrow> ToolCall list \<Rightarrow> uuid \<Rightarrow> db" where
  "policy_check_db ks calls n = demo_db\<lparr>db_cases := [demo_case\<lparr>rc_status := Case_POLICY_CHECK\<rparr>],
     db_idempotency := ks, db_tool_calls := calls, db_next_uuid := n\<rparr>"

definition halted_settings :: RecoverySettings where
  "halted_settings = default_settings\<lparr>automatic_recovery_enabled := False\<rparr>"

definition reminder_spec :: ToolSpec where
  "reminder_spec = snd (tool_spec ''send_notification'' GREEN Perm_SEND_NOTIFICATION 15 True)"

definition reminder_input :: dict where
  "reminder_input = [(''channel'', JStr ''EMAIL''), (''subject'', JNull), (''body_preview'', JNull)]"

lemma reminder_facts:
  "spec_name reminder_spec = TOOL_BY_ACTION SEND_REMINDER"
  "proposed_from_payload SEND_REMINDER reminder_input = Inr (propose SEND_REMINDER)"
  "ts_settings (demo_service st) = st" "ts_queue (demo_service st) = None" "ts_race (demo_service st) = id"
  by (simp_all add: reminder_spec_def tool_spec_def proposed_from_payload_def reminder_input_def dict_get_def
      propose_def demo_service_def)

lemma reminder_halted: "halted halted_settings 4 SEND_REMINDER reminder_spec reminder_input (policy_check_db ks calls n)"
  by (simp add: halted_def reminder_facts AUTOMATIC_ACTIONS_def policy_check_db_def get_case_unscoped_def
      get_merchant_def find_row_def demo_defs SIDE_EFFECT_EXECUTE_STATES_def merge_merchant_none halted_settings_def)

theorem tool_policy_gate_witness:
  "\<exists>r t. run_after_idempotency demo_host (demo_service halted_settings) 4 (tool_request ''send_notification'' [])
     reminder_spec (Some 2) (Some 3) reminder_input (policy_check_db [] [] 10) = (Inr r, t)
     \<and> tr_status r = ''BLOCKED'' \<and> db_notifications t = []"
proof -
  obtain r t where run: "run_after_idempotency demo_host (demo_service halted_settings) 4
      (tool_request ''send_notification'' []) reminder_spec (Some 2) (Some 3) reminder_input
      (policy_check_db [] [] 10) = (Inr r, t)"
    using run_after_halted [of "demo_service halted_settings"] reminder_halted reminder_facts(3) by metis
  have "tr_status r = ''BLOCKED'' \<and> effects t = effects (policy_check_db [] [] 10)"
    using tool_policy_gate [OF run reminder_facts(1)] halted_verdict [OF reminder_halted [of "[]" "[]" 10]]
    by (auto simp: reminder_facts)
  with run show ?thesis by (auto simp: effects_def policy_check_db_def demo_db_def)
qed

subsection \<open>Replaying a request\<close>

text \<open>What a repeated request is told of a result: all of it but the tool call and the key.\<close>

definition replayed :: "ToolExecutionResult \<Rightarrow> ToolExecutionResult" where
  "replayed r = r\<lparr>tr_tool_call_id := None, tr_idempotency_key := None, tr_replayed := True\<rparr>"

lemma replayed_status: "replayed a = replayed b \<Longrightarrow> tr_status a = tr_status b"
  by (drule arg_cong [of _ _ tr_status]) (simp add: replayed_def)

lemma stored_parts:
  "stored_uuid h (json_opt JUuid x) = Inr x" "stored_str (str_or_null y) = y" "str_or h (JStr z) d = (if z = [] then d else z)"
  by (auto simp: stored_uuid_def json_opt_def stored_str_def str_or_null_def str_or_def json_str_def split: option.split)

lemma result_roundtrip:
  assumes "tr_status r \<noteq> []"
  shows "result_from_stored h (result_public_dict r) = Inr (r\<lparr>tr_replayed := True\<rparr>)"
  using assms
  by (simp add: result_from_stored_def result_public_dict_def dict_get_def stored_parts stored_bool_def)

lemma run_after_status:
  assumes "run_after_idempotency h svc i req spec customer payment validated s = (Inr r, t)"
  shows "tr_status r \<noteq> []"
  using assms unfolding run_after_idempotency_def Let_def
  by (auto elim!: bind_InrE simp: prog_eval dest!: block_tool_status request_tool_approval_status perform_tool_status
      split: option.splits if_splits)

lemma settle_result_stores:
  assumes "settle_result rid tcid started key result s = (Inr r, t)"
    and "idempotency_record s m k = Some x" "ik_id x = rid"
  shows "replayed r = replayed result \<and> (\<exists>y. idempotency_record t m k = Some y
      \<and> ik_request_hash y = ik_request_hash x \<and> ik_id y = ik_id x
      \<and> dict_get (ik_metadata y) ''result'' = JObj (result_public_dict result))"
proof -
  obtain f s1 where up: "update_idempotency rid f s = (Inr (), s1)" "finish_tool_call tcid
        (tool_call_status (tr_status result)) started (if tr_status result \<noteq> ''FAILED'' then None else Some ''TOOL_FAILED'') s1 = (Inr (), t)"
      and f: "\<And>r. ik_merchant_id (f r) = ik_merchant_id r \<and> ik_key (f r) = ik_key r"
        "ik_request_hash (f x) = ik_request_hash x" "ik_id (f x) = ik_id x"
        "dict_get (ik_metadata (f x)) ''result'' = JObj (result_public_dict result)"
      and r: "replayed r = replayed result"
    using assms(1) unfolding settle_result_def complete_idempotent_operation_def
    by (auto elim!: seqp_InrE bind_InrE simp: prog_eval now_def replayed_def dict_get_set split: if_splits)
  have "idempotency_record s1 m k = Some (f x)"
    using idem.finish_found [OF f(1) up(1) assms(2)] assms(3) by simp
  moreover have "db_idempotency t = db_idempotency s1"
    using obeysD [OF keys.actions_steps(3) up(2)] by (simp add: untouched_def)
  ultimately show ?thesis using r f by (simp add: idempotency_record_def)
qed

lemma fresh_run_stores:
  assumes "fresh_run h svc i req spec validated rid started s = (Inr r, t)" and "ts_queue svc = None"
    and x: "idempotency_record s m k = Some x" "ik_id x = rid"
  shows "\<exists>y result. idempotency_record t m k = Some y \<and> ik_request_hash y = ik_request_hash x
    \<and> dict_get (ik_metadata y) ''result'' = JObj (result_public_dict result)
    \<and> tr_status result \<noteq> [] \<and> replayed r = replayed result"
proof -
  from assms(1) obtain c row customer payment tcid s1 s2 result where
      call: "insert_tool_call row s = (Inr tcid, s1)"
      and run: "run_after_idempotency h svc i req spec customer payment validated s1 = (Inr result, s2)"
      and settle: "settle_result rid tcid started (xr_idempotency_key req) result s2 = (Inr r, t)"
    unfolding fresh_run_def
    by (auto elim!: bind_InrE seqp_InrE read_case_InrE simp: prog_eval catch_def split: prod.splits sum.splits if_splits)
  have "db_idempotency s2 = db_idempotency s"
    using obeysD [OF keys.actions_rows(6) call] obeysD [OF keys.tools_run_after_idempotency [OF assms(2)] run]
    by (simp add: untouched_def)
  then have "idempotency_record s2 m k = Some x" using x(1) by (simp add: idempotency_record_def)
  from settle_result_stores [OF settle this x(2)] run_after_status [OF run] show ?thesis by blast
qed

definition request_admitted :: "ExecuteRequest \<Rightarrow> ToolSpec \<Rightarrow> uuid \<Rightarrow> bool" where
  "request_admitted req spec merchant \<longleftrightarrow> xr_merchant_id req \<in> {None, Some merchant}
     \<and> (case xr_granted_permissions req of None \<Rightarrow> True
        | Some granted \<Rightarrow> permission_value (spec_required_permission spec) \<in> set granted)"

lemma execute_admitted:
  assumes "resolve_tool (xr_tool_name req) (xr_action req) = Inr spec"
    and "validate_input h spec (xr_payload req) = Inr validated"
    and d: "get_case_unscoped u i = Some d" "get_merchant u (rc_merchant_id d) \<noteq> None"
      "\<not> is_terminal (rc_status d)" "request_admitted req spec (rc_merchant_id d)"
  shows "execute h svc i req u = run_once h svc i req spec validated (db_clock u) (rc_merchant_id d) u"
  using assms get_case_unscoped_id [OF d(1)]
  by (auto simp: execute_def now_def prog_simps assert_merchant_def request_admitted_def
      lock_recovery_case_def split: option.splits)

lemma execute_InrE:
  assumes "execute h svc i req s = (Inr r, t)"
  obtains spec validated c where
    "resolve_tool (xr_tool_name req) (xr_action req) = Inr spec"
    "validate_input h spec (xr_payload req) = Inr validated"
    "get_case_unscoped s i = Some c" "\<not> is_terminal (rc_status c)" "request_admitted req spec (rc_merchant_id c)"
    "run_once h svc i req spec validated (db_clock s) (rc_merchant_id c) s = (Inr r, t)"
  using assms unfolding execute_def request_admitted_def now_def
  by (elim bind_InrE seqp_InrE lock_InrE assert_merchant_InrE read_case_InrE)
     (auto simp: prog_eval unless_def split: if_splits)

lemma replay_of_stored:
  "dict_get (ik_metadata y) ''result'' = JObj stored \<Longrightarrow> replay_of y False = Replay stored"
  by (cases "ik_status y") (auto simp: replay_of_def Let_def)

lemma replay_of_Replay:
  "replay_of y False = Replay stored \<Longrightarrow> dict_get (ik_metadata y) ''result'' = JObj stored"
  by (auto simp: replay_of_def Let_def split: if_splits json.splits)

lemma run_once_known_key:
  assumes "idempotency_record u m (xr_idempotency_key req) = Some y"
    and "ik_request_hash y = canonical_request_hash h (hash_payload spec (xr_action req) validated)"
    and "dict_get (ik_metadata y) ''result'' = JObj stored" and "\<not> xr_approved_execution req"
  shows "run_once h svc i req spec validated started m u = (result_from_stored h stored, u)"
  using assms replay_of_stored [OF assms(3)]
  by (simp add: run_once_def prog_simps idem.start_known [OF assms(1)])

lemma run_once_stores:
  assumes run: "run_once h svc i req spec validated started m s = (Inr r, t)"
    and "ts_queue svc = None" and "\<not> xr_approved_execution req"
  shows "\<exists>y stored. idempotency_record t m (xr_idempotency_key req) = Some y
    \<and> ik_request_hash y = canonical_request_hash h (hash_payload spec (xr_action req) validated)
    \<and> dict_get (ik_metadata y) ''result'' = JObj stored
    \<and> (\<exists>r'. result_from_stored h stored = Inr r' \<and> replayed r' = replayed r \<and> tr_replayed r')"
proof -
  from run obtain out s1 decision s2 where start: "begin_idempotent_operation (ts_race svc) m
        (xr_idempotency_key req) (spec_name spec)
        (canonical_request_hash h (hash_payload spec (xr_action req) validated)) s = (Inr out, s1)"
      and decide: "(if io_replay out
           then bind (gets (\<lambda>s. idempotency_record s m (xr_idempotency_key req))) (\<lambda>r.
                  case r of None \<Rightarrow> raise ObjectDeletedError
                  | Some rec \<Rightarrow> ret (replay_of rec (xr_approved_execution req)))
           else ret Proceed) s1 = (Inr decision, s2)"
      and act: "(case decision of Replay stored \<Rightarrow> lift (result_from_stored h stored)
           | In_progress \<Rightarrow> raise (DomainError ''IDEMPOTENCY_IN_PROGRESS'' True)
           | Proceed \<Rightarrow> fresh_run h svc i req spec validated (io_record out) started) s2 = (Inr r, t)"
    unfolding run_once_def by (elim bind_InrE)
  have s2: "s2 = s1" using decide by (auto simp: prog_simps split: if_splits option.splits)
  obtain x where x: "idempotency_record s1 m (xr_idempotency_key req) = Some x" "ik_id x = io_record out"
      "ik_request_hash x = canonical_request_hash h (hash_payload spec (xr_action req) validated)"
    using idem.start_records [OF start] by blast
  show ?thesis
  proof (cases decision)
    case (Replay stored)
    with decide x(1) assms(3) have "replay_of x False = Replay stored" by (auto simp: prog_simps split: if_splits)
    from replay_of_Replay [OF this] x act s2 Replay show ?thesis
      by (auto simp: prog_eval result_from_stored_def bindE_Inr_iff)
  next
    case Proceed
    with act s2 have "fresh_run h svc i req spec validated (io_record out) started s1 = (Inr r, t)" by simp
    from fresh_run_stores [OF this assms(2) x(1,2)] x(3) show ?thesis
      by (auto simp: result_roundtrip replayed_def)
  qed (use act in \<open>simp add: prog_eval\<close>)
qed

lemma execute_closed:
  assumes "resolve_tool (xr_tool_name req) (xr_action req) = Inr spec"
    and "validate_input h spec (xr_payload req) = Inr validated"
    and d: "get_case_unscoped u i = Some d" "get_merchant u (rc_merchant_id d) \<noteq> None"
      "is_terminal (rc_status d)" "request_admitted req spec (rc_merchant_id d)"
  shows "execute h svc i req u = (Inl (ToolValidationError ''CASE_TERMINAL''), u)"
  using assms get_case_unscoped_id [OF d(1)]
  by (auto simp: execute_def now_def prog_simps assert_merchant_def request_admitted_def
      lock_recovery_case_def split: option.splits)

text \<open>
  C10. \<^bold>\<open>A tool runs once per key.\<close> Let a request be run without a queue and not as the execution of an approved
  action, and let it return a result (an executed one, a blocked one, a failed one or one that waits for approval).
  The same request (same tool, input and idempotency key) at any later time, when the key's record is as
  the first run left it and the case still belongs to the same merchant, changes nothing: no second payment, message or
  approval. While the case is open it returns the first result again, marked as replayed; once
  the case is closed, be it by the first run itself, it raises \<^verbatim>\<open>CASE_TERMINAL\<close> instead.
\<close>

theorem execute_replays:
  assumes "execute h svc i req s = (Inr r, t)" and "ts_queue svc = None" and "\<not> xr_approved_execution req"
    and c: "get_case_unscoped s i = Some c"
    and d: "get_case_unscoped u i = Some d" "rc_merchant_id d = rc_merchant_id c" "get_merchant u (rc_merchant_id c) \<noteq> None"
    and key: "idempotency_record u (rc_merchant_id c) (xr_idempotency_key req)
      = idempotency_record t (rc_merchant_id c) (xr_idempotency_key req)"
  shows "if is_terminal (rc_status d)
    then execute h svc' i req u = (Inl (ToolValidationError ''CASE_TERMINAL''), u)
    else \<exists>r'. execute h svc' i req u = (Inr r', u) \<and> tr_replayed r' \<and> replayed r' = replayed r"
proof -
  obtain spec validated where run: "resolve_tool (xr_tool_name req) (xr_action req) = Inr spec"
    "validate_input h spec (xr_payload req) = Inr validated" "request_admitted req spec (rc_merchant_id c)"
    "run_once h svc i req spec validated (db_clock s) (rc_merchant_id c) s = (Inr r, t)"
    using assms(1) c by (auto elim!: execute_InrE)
  show ?thesis
  proof (cases "is_terminal (rc_status d)")
    case True
    then show ?thesis using execute_closed [OF run(1,2) d(1) _ True] d(2,3) run(3) by simp
  next
    case False
    obtain y stored r' where y: "idempotency_record u (rc_merchant_id d) (xr_idempotency_key req) = Some y"
      "ik_request_hash y = canonical_request_hash h (hash_payload spec (xr_action req) validated)"
      "dict_get (ik_metadata y) ''result'' = JObj stored"
      and r': "result_from_stored h stored = Inr r'" "replayed r' = replayed r" "tr_replayed r'"
      using run_once_stores [OF run(4) assms(2,3)] key d(2) by auto
    have "execute h svc' i req u = run_once h svc' i req spec validated (db_clock u) (rc_merchant_id d) u"
      using execute_admitted [OF run(1,2) d(1) _ False] d(2,3) run(3) by simp
    with run_once_known_key [OF y assms(3)] r' False show ?thesis by simp
  qed
qed

lemma demo_reminder_resolved:
  "resolve_tool (Some ''send_notification'') act = Inr reminder_spec"
  "validate_input h reminder_spec [] = Inr reminder_input"
  by (simp_all add: resolve_tool_def require_tool_def TOOL_SPECS_def tool_spec_def reminder_spec_def INPUT_MODELS_def
      validate_input_def read_field_def reminder_input_def)

lemma execute_halted:
  assumes "halted (ts_settings svc) i action spec validated s"
    and "resolve_tool (xr_tool_name req) (xr_action req) = Inr spec"
    and "validate_input h spec (xr_payload req) = Inr validated"
    and c: "get_case_unscoped s i = Some c" "request_admitted req spec (rc_merchant_id c)"
    and new: "idempotency_record s (rc_merchant_id c) (xr_idempotency_key req) = None" "ts_race svc = id"
  shows "\<exists>r t. execute h svc i req s = (Inr r, t)"
proof -
  have "get_merchant s (rc_merchant_id c) \<noteq> None" "rc_status c \<in> set SIDE_EFFECT_EXECUTE_STATES"
    using assms(1) c(1) by (auto simp: halted_def)
  moreover from this(2) have "\<not> is_terminal (rc_status c)"
    by (auto simp: SIDE_EFFECT_EXECUTE_STATES_def is_terminal_def TERMINAL_RECOVERY_STATUSES_def)
  ultimately have "execute h svc i req s = run_once h svc i req spec validated (db_clock s) (rc_merchant_id c) s"
    using execute_admitted [OF assms(2,3) c(1) _ _ c(2)] by blast
  moreover have "\<exists>r t. fresh_run h svc i req spec validated rid started
      (s\<lparr>db_next_uuid := n, db_idempotency := ks\<rparr>) = (Inr r, t)" for rid started n ks
    by (rule fresh_run_halted [where action = action]) (simp add: assms(1) halted_books)
  ultimately show ?thesis
    using new by (simp add: run_once_def begin_idempotent_operation_def insert_idempotency_def uuid4_def now_def prog_simps)
qed

lemma demo_execute_runs:
  "\<exists>r t. execute demo_host (demo_service halted_settings) 4 (tool_request ''send_notification'' [])
     (policy_check_db [] [] 10) = (Inr r, t)"
proof (rule execute_halted [where action = SEND_REMINDER and spec = reminder_spec and validated = reminder_input
      and c = "demo_case\<lparr>rc_status := Case_POLICY_CHECK\<rparr>"])
  show "halted (ts_settings (demo_service halted_settings)) 4 SEND_REMINDER reminder_spec reminder_input
      (policy_check_db [] [] 10)"
    by (simp only: reminder_facts reminder_halted)
qed (simp_all add: reminder_facts tool_request_def demo_reminder_resolved request_admitted_def policy_check_db_def
    get_case_unscoped_def find_row_def demo_case_def idempotency_record_def)

theorem execute_replays_witness:
  "\<exists>r t r'. execute demo_host (demo_service halted_settings) 4 (tool_request ''send_notification'' [])
       (policy_check_db [] [] 10) = (Inr r, t)
     \<and> execute demo_host (demo_service default_settings) 4 (tool_request ''send_notification'' [])
         (policy_check_db (db_idempotency t) [] 30) = (Inr r', policy_check_db (db_idempotency t) [] 30)
     \<and> tr_status r' = tr_status r \<and> tr_replayed r'"
proof -
  obtain r t where run: "execute demo_host (demo_service halted_settings) 4 (tool_request ''send_notification'' [])
       (policy_check_db [] [] 10) = (Inr r, t)"
    using demo_execute_runs by blast
  have open_case: "\<not> is_terminal (rc_status (demo_case\<lparr>rc_status := Case_POLICY_CHECK\<rparr>))"
    by (simp add: is_terminal_def TERMINAL_RECOVERY_STATUSES_def)
  have "if is_terminal (rc_status (demo_case\<lparr>rc_status := Case_POLICY_CHECK\<rparr>))
       then execute demo_host (demo_service default_settings) 4 (tool_request ''send_notification'' [])
         (policy_check_db (db_idempotency t) [] 30)
         = (Inl (ToolValidationError ''CASE_TERMINAL''), policy_check_db (db_idempotency t) [] 30)
       else \<exists>r'. execute demo_host (demo_service default_settings) 4 (tool_request ''send_notification'' [])
         (policy_check_db (db_idempotency t) [] 30) = (Inr r', policy_check_db (db_idempotency t) [] 30)
       \<and> tr_replayed r' \<and> replayed r' = replayed r"
    by (rule execute_replays [OF run, where c = "demo_case\<lparr>rc_status := Case_POLICY_CHECK\<rparr>"])
       (simp_all add: reminder_facts tool_request_def policy_check_db_def get_case_unscoped_def find_row_def demo_defs
          get_merchant_def idempotency_record_def)
  then have "\<exists>r'. execute demo_host (demo_service default_settings) 4 (tool_request ''send_notification'' [])
         (policy_check_db (db_idempotency t) [] 30) = (Inr r', policy_check_db (db_idempotency t) [] 30)
       \<and> tr_replayed r' \<and> replayed r' = replayed r"
    unfolding if_not_P [OF open_case] .
  then obtain r' where r': "execute demo_host (demo_service default_settings) 4 (tool_request ''send_notification'' [])
         (policy_check_db (db_idempotency t) [] 30) = (Inr r', policy_check_db (db_idempotency t) [] 30)"
      "tr_replayed r'" "replayed r' = replayed r" by blast
  with run replayed_status [OF r'(3)] show ?thesis by blast
qed

end
