(* ===== verification/Approvals.thy ===== *)
theory Approvals
  imports ToolGate
begin

text \<open>
  \<^verbatim>\<open>recoverai_domain/tools/approvals.py\<close>: an operator approves or rejects a waiting action. Approving marks
  approval and action and sends the stored request through the execution service again; rejecting
  cancels the action, fails its key and escalates a waiting case. The execution service that the
  approval service creates has no queue.
\<close>

subsection \<open>Operations\<close>

definition load_action :: "uuid \<Rightarrow> uuid \<Rightarrow> RecoveryAction dbprog" where
  "load_action merchant_id action_id =
     bind (gets (\<lambda>s. session_get_action s action_id)) (\<lambda>action. case action of
       None \<Rightarrow> raise (ToolValidationError ''ACTION_NOT_FOUND'')
     | Some a \<Rightarrow> if ra_merchant_id a \<noteq> merchant_id then raise (ToolValidationError ''ACTION_NOT_FOUND'')
                else ret a)"

text \<open>The newest approval of an action; of several created at the same time the first one stored.\<close>

definition newer_approval :: "Approval \<Rightarrow> Approval \<Rightarrow> Approval" where
  "newer_approval a b = (if ap_created_at a < ap_created_at b then b else a)"

definition latest_approval :: "db \<Rightarrow> uuid \<Rightarrow> uuid \<Rightarrow> Approval option" where
  "latest_approval s case_id action_id =
     (case filter (\<lambda>a. ap_recovery_case_id a = case_id \<and> ap_recovery_action_id a = Some action_id) (db_approvals s) of
        [] \<Rightarrow> None | a # rest \<Rightarrow> Some (foldl newer_approval a rest))"

definition pending_approval :: "uuid \<Rightarrow> uuid \<Rightarrow> Approval dbprog" where
  "pending_approval case_id action_id =
     bind (gets (\<lambda>s. latest_approval s case_id action_id)) (\<lambda>approval. case approval of
       None \<Rightarrow> raise (ToolValidationError ''APPROVAL_NOT_FOUND'') | Some a \<Rightarrow> ret a)"

definition approval_expired :: "Approval \<Rightarrow> timestamp \<Rightarrow> bool" where
  "approval_expired a t = (ap_status a = Appr_PENDING \<and> (case ap_expires_at a of None \<Rightarrow> False | Some e \<Rightarrow> e \<le> t))"

definition expire_if_needed :: "Approval \<Rightarrow> unit dbprog" where
  "expire_if_needed a =
     bind now (\<lambda>t. unless (\<not> approval_expired a t)
       (update_approval (ap_id a) (\<lambda>r. r\<lparr>ap_status := Appr_EXPIRED\<rparr>)))"

definition find_decision :: "uuid \<Rightarrow> uuid \<Rightarrow> uuid option \<Rightarrow> (RecoveryCase \<times> RecoveryAction \<times> uuid) dbprog" where
  "find_decision case_id action_id merchant_id =
     bind (lock_recovery_case case_id) (\<lambda>i.
     bind (read_case i) (\<lambda>c.
       if merchant_id \<noteq> None \<and> merchant_id \<noteq> Some (rc_merchant_id c)
       then raise (ToolValidationError ''MERCHANT_MISMATCH'')
       else
         bind (load_action (rc_merchant_id c) action_id) (\<lambda>action.
         bind (pending_approval (rc_id c) (ra_id action)) (\<lambda>approval.
         seqp (expire_if_needed approval)
              (ret (c, action, ap_id approval))))))"

definition decision_audit :: "RecoveryCase \<Rightarrow> RecoveryAction \<Rightarrow> ActorType \<Rightarrow> AuditEventType \<Rightarrow> unit dbprog" where
  "decision_audit c action actor event =
     record_audit (rc_merchant_id c) event (Some (rc_id c)) actor (Some (action_value (ra_action_type action)))
       None None (Some (ra_idempotency_key action))"

definition approved_request ::
  "Host \<Rightarrow> RecoveryCase \<Rightarrow> RecoveryAction \<Rightarrow> uuid \<Rightarrow> ActorType \<Rightarrow> string option \<Rightarrow> ExecuteRequest" where
  "approved_request h c action approval_id actor actor_id =
     (let tool_name = str_or h (dict_get (ra_metadata action) ''tool_name'') '''' in
      \<lparr>xr_tool_name = (if tool_name = [] then None else Some tool_name),
       xr_action = Some (action_value (ra_action_type action)),
       xr_payload = (case dict_get (ra_metadata action) ''payload'' of JObj d \<Rightarrow> d | _ \<Rightarrow> []),
       xr_idempotency_key = ra_idempotency_key action, xr_merchant_id = Some (rc_merchant_id c),
       xr_actor_type = actor, xr_actor_id = actor_id, xr_granted_permissions = None,
       xr_existing_action_id = Some (ra_id action), xr_approval_id = Some approval_id,
       xr_approved_execution = True\<rparr>)"

definition approve_action ::
  "Host \<Rightarrow> ToolService \<Rightarrow> uuid \<Rightarrow> uuid \<Rightarrow> ActorType \<Rightarrow> string option \<Rightarrow> uuid option \<Rightarrow> ToolExecutionResult dbprog" where
  "approve_action h svc case_id action_id actor actor_id merchant_id =
     bind (find_decision case_id action_id merchant_id) (\<lambda>(c, action, approval_id).
     bind (deref session_get_approval approval_id) (\<lambda>approval.
       if ap_status approval = Appr_EXPIRED then raise (ToolValidationError ''APPROVAL_EXPIRED'')
       else if ap_status approval \<noteq> Appr_PENDING then raise (ToolValidationError ''APPROVAL_NOT_PENDING'')
       else if ra_status action \<notin> {Act_APPROVAL_REQUIRED, Act_APPROVED, Act_PENDING}
       then raise (ToolValidationError ''ACTION_NOT_APPROVABLE'')
       else
         bind now (\<lambda>t.
         seqp (update_approval approval_id (\<lambda>r. r\<lparr>ap_status := Appr_APPROVED, ap_decided_by := actor_id,
                 ap_decided_at := Some t\<rparr>))
         (seqp (update_action (ra_id action) (\<lambda>r. r\<lparr>ra_status := Act_APPROVED\<rparr>))
         (seqp (decision_audit c action actor Aud_APPROVAL_APPROVED)
               (execute h (svc\<lparr>ts_queue := None\<rparr>) (rc_id c)
                  (approved_request h c action approval_id actor actor_id)))))))"

definition reason_given :: "string option \<Rightarrow> string \<Rightarrow> string" where
  "reason_given reason otherwise = (case reason of None \<Rightarrow> otherwise | Some r \<Rightarrow> if r = [] then otherwise else r)"

definition mark_rejected ::
  "RecoveryCase \<Rightarrow> RecoveryAction \<Rightarrow> uuid \<Rightarrow> ActorType \<Rightarrow> string option \<Rightarrow> string option \<Rightarrow> unit dbprog" where
  "mark_rejected c action approval_id actor actor_id reason =
     bind now (\<lambda>t.
     seqp (update_approval approval_id (\<lambda>r. r\<lparr>ap_status := Appr_REJECTED, ap_decided_by := actor_id,
             ap_decided_at := Some t, ap_decision_reason := Some (reason_given reason ''Rejected by operator'')\<rparr>))
     (seqp (update_action (ra_id action) (\<lambda>r. r\<lparr>ra_status := Act_CANCELLED\<rparr>))
     (bind (gets (\<lambda>s. idempotency_record s (rc_merchant_id c) (ra_idempotency_key action))) (\<lambda>key_row.
     seqp (case key_row of None \<Rightarrow> ret ()
           | Some r \<Rightarrow> fail_idempotent_operation (ik_id r) ''APPROVAL_REJECTED'')
     (seqp (decision_audit c action actor Aud_APPROVAL_REJECTED)
           (decision_audit c action actor Aud_ACTION_CANCELLED))))))"

definition reject_action ::
  "uuid \<Rightarrow> uuid \<Rightarrow> ActorType \<Rightarrow> string option \<Rightarrow> string option \<Rightarrow> uuid option \<Rightarrow> dict dbprog" where
  "reject_action case_id action_id actor actor_id reason merchant_id =
     bind (find_decision case_id action_id merchant_id) (\<lambda>(c, action, approval_id).
     seqp (mark_rejected c action approval_id actor actor_id reason)
     (bind (read_case (rc_id c)) (\<lambda>c'.
     seqp (unless (rc_status c' \<noteq> Case_AWAITING_APPROVAL)
             (transition_case (rc_id c) Case_ESCALATED actor None))
     (bind (read_case (rc_id c)) (\<lambda>d.
     ret [(''status'', JStr ''REJECTED''), (''action_id'', JUuid (ra_id action)),
          (''approval_id'', JUuid approval_id),
          (''case_status'', JStr (case_status_value (rc_status d)))])))))"

definition cancel_action ::
  "uuid \<Rightarrow> uuid \<Rightarrow> string option \<Rightarrow> string option \<Rightarrow> uuid option \<Rightarrow> dict dbprog" where
  "cancel_action case_id action_id actor_id reason merchant_id =
     reject_action case_id action_id Actor_USER actor_id
       (Some (reason_given reason ''Cancelled by merchant operator'')) merchant_id"

subsection \<open>Contracts\<close>

lemma creditless_find_decision: "creditless (find_decision i a m)"
  unfolding find_decision_def load_action_def pending_approval_def expire_if_needed_def
  by (intro creditless_rules)

lemma creditless_case_prod: "(\<And>x y. creditless (f x y)) \<Longrightarrow> creditless (case v of (x, y) \<Rightarrow> f x y)"
  by (cases v) simp

lemma creditless_approve_action:
  "safe_race (ts_race svc) \<Longrightarrow> creditless (approve_action h svc i a actor who m)"
  unfolding approve_action_def decision_audit_def
  by (intro creditless_rules creditless_find_decision creditless_case_prod creditless_execute) simp

lemma creditless_reject_action:
  "creditless (reject_action i a actor who reason m)"
  "creditless (cancel_action i a who reason m)"
  unfolding cancel_action_def reject_action_def mark_rejected_def decision_audit_def
  by (intro creditless_rules creditless_find_decision creditless_case_prod creditless_idempotency
      creditless_transition; simp)+

subsection \<open>The newest approval\<close>

lemma foldl_newer_in: "foldl newer_approval a rest \<in> set (a # rest)"
  by (induction rest arbitrary: a) (auto simp: newer_approval_def split: if_splits)

lemma latest_approval_in:
  assumes "latest_approval s i aid = Some ap"
  shows "ap \<in> set (db_approvals s) \<and> ap_recovery_case_id ap = i \<and> ap_recovery_action_id ap = Some aid"
proof -
  obtain a rest where f: "filter (\<lambda>a. ap_recovery_case_id a = i \<and> ap_recovery_action_id a = Some aid) (db_approvals s) = a # rest"
      and "ap = foldl newer_approval a rest"
    using assms by (auto simp: latest_approval_def split: list.splits)
  then have "ap \<in> set (a # rest)" using foldl_newer_in by metis
  then show ?thesis unfolding f [symmetric] by simp
qed

lemma latest_approval_get:
  assumes "distinct (map ap_id (db_approvals s))" and "latest_approval s i aid = Some ap"
  shows "session_get_approval s (ap_id ap) = Some ap"
  using assms latest_approval_in [OF assms(2)] by (simp add: session_get_approval_def find_row_unique)

lemma foldl_newer_map:
  assumes "\<And>r. ap_created_at (g r) = ap_created_at r"
  shows "foldl newer_approval (g a) (map g rest) = g (foldl newer_approval a rest)"
proof (induction rest arbitrary: a)
  case (Cons b rest)
  have "newer_approval (g a) (g b) = g (newer_approval a b)" by (simp add: newer_approval_def assms)
  with Cons show ?case by simp
qed simp

lemma latest_approval_update:
  assumes "\<And>r. ap_created_at (f r) = ap_created_at r \<and> ap_recovery_case_id (f r) = ap_recovery_case_id r
      \<and> ap_recovery_action_id (f r) = ap_recovery_action_id r"
    and "latest_approval s i aid = Some ap"
  shows "latest_approval (s\<lparr>db_approvals := update_row ap_id k f (db_approvals s)\<rparr>) i aid
    = Some (if ap_id ap = k then f ap else ap)"
proof -
  define g where "g = (\<lambda>r. if ap_id r = k then f r else r)"
  have g: "ap_created_at (g r) = ap_created_at r" "ap_recovery_case_id (g r) = ap_recovery_case_id r"
    "ap_recovery_action_id (g r) = ap_recovery_action_id r" for r
    using assms(1) by (simp_all add: g_def)
  have "filter (\<lambda>a. ap_recovery_case_id a = i \<and> ap_recovery_action_id a = Some aid) (update_row ap_id k f rows)
      = map g (filter (\<lambda>a. ap_recovery_case_id a = i \<and> ap_recovery_action_id a = Some aid) rows)" for rows
    by (induction rows) (auto simp: update_row_def g_def assms(1))
  with assms(2) show ?thesis
    by (auto simp: latest_approval_def foldl_newer_map [OF g(1)] split: list.splits) (simp_all add: g_def)
qed

subsection \<open>Decisions\<close>

interpretation expire_key: keyed_update ap_id "\<lambda>r. r\<lparr>ap_status := Appr_EXPIRED\<rparr>"
  by unfold_locales simp

interpretation approve_key: keyed_update ap_id "\<lambda>r. r\<lparr>ap_status := Appr_APPROVED, ap_decided_by := who, ap_decided_at := t\<rparr>"
  for who t
  by unfold_locales simp

definition expired_if :: "Approval \<Rightarrow> db \<Rightarrow> db" where
  "expired_if ap s = (if approval_expired ap (db_clock s)
     then s\<lparr>db_approvals := update_row ap_id (ap_id ap) (\<lambda>r. r\<lparr>ap_status := Appr_EXPIRED\<rparr>) (db_approvals s)\<rparr> else s)"

lemma expire_if_needed_eval: "expire_if_needed ap s = (Inr (), expired_if ap s)"
  by (simp add: expire_if_needed_def expired_if_def now_def prog_simps update_approval_def)

lemma load_action_eval:
  "load_action m aid s = (case session_get_action s aid of
     None \<Rightarrow> (Inl (ToolValidationError ''ACTION_NOT_FOUND''), s)
   | Some a \<Rightarrow> if ra_merchant_id a \<noteq> m then (Inl (ToolValidationError ''ACTION_NOT_FOUND''), s) else (Inr a, s))"
  by (simp add: load_action_def prog_simps split: option.split)

lemma find_decision_eval:
  "find_decision i aid m s = (case get_case_unscoped s i of
     None \<Rightarrow> (Inl (DomainError ''RECOVERY_CASE_NOT_FOUND'' False), s)
   | Some c \<Rightarrow>
       if m \<noteq> None \<and> m \<noteq> Some (rc_merchant_id c) then (Inl (ToolValidationError ''MERCHANT_MISMATCH''), s)
       else case session_get_action s aid of
         None \<Rightarrow> (Inl (ToolValidationError ''ACTION_NOT_FOUND''), s)
       | Some a \<Rightarrow>
           if ra_merchant_id a \<noteq> rc_merchant_id c then (Inl (ToolValidationError ''ACTION_NOT_FOUND''), s)
           else case latest_approval s i aid of
             None \<Rightarrow> (Inl (ToolValidationError ''APPROVAL_NOT_FOUND''), s)
           | Some ap \<Rightarrow> (Inr (c, a, ap_id ap), expired_if ap s))"
proof (cases "get_case_unscoped s i")
  case (Some c)
  then have c: "rc_id c = i" by (rule get_case_unscoped_id)
  show ?thesis
  proof (cases "session_get_action s aid")
    case a: (Some a)
    then have "ra_id a = aid" unfolding session_get_action_def by (rule find_row_Some_key)
    with Some c a show ?thesis
      by (auto simp: find_decision_def lock_recovery_case_def load_action_eval pending_approval_def
          expire_if_needed_eval prog_simps split: option.split)
  qed (simp add: Some c find_decision_def lock_recovery_case_def load_action_eval prog_simps)
qed (simp add: find_decision_def lock_recovery_case_def prog_simps)

lemma approve_decided:
  assumes "distinct (map ap_id (db_approvals u))" and ap: "latest_approval u i aid = Some ap"
    and "ap_status ap \<noteq> Appr_PENDING"
  shows "\<exists>e. approve_action h svc i aid actor who m u = (Inl e, u)"
proof -
  have "session_get_approval u (ap_id ap) = Some ap" by (rule latest_approval_get [OF assms(1,2)])
  moreover have "expired_if ap u = u" using assms(3) by (simp add: expired_if_def approval_expired_def)
  ultimately show ?thesis
    using assms(3) by (auto simp: approve_action_def find_decision_eval ap prog_simps split: option.split)
qed

lemma perform_tool_approvals:
  assumes "perform_tool h svc i req spec mapped customer payment validated ev s = (Inr r, t)"
    and "ts_queue svc = None"
  shows "db_approvals t = db_approvals s"
proof -
  from assms(1) obtain x s1 where gate: "unless (\<not> xr_approved_execution req)
        (assert_usable_approval i (xr_approval_id req) (xr_existing_action_id req)) s = (Inr x, s1)"
    and rest: "run_tool h svc i req spec mapped customer payment validated ev s1 = (Inr r, t)"
    unfolding perform_tool_def by (rule seqp_InrE)
  have "s1 = s"
    using gate assert_usable_approval_sound by (auto simp: unless_def prog_eval split: if_splits)
  with obeysD [OF approvals.handlers_run_tool [OF assms(2)] rest] show ?thesis by (simp add: untouched_def)
qed

lemma run_after_approvals:
  assumes "run_after_idempotency h svc i req spec customer payment validated s = (Inr r, t)"
    and "ts_queue svc = None" and "xr_approved_execution req"
  shows "db_approvals t = db_approvals s"
proof -
  have policy: "db_approvals s' = db_approvals s" if "build_policy_context i (ts_settings svc) s = (x, s')" for x s'
    using obeysD [OF approvals.actions_policy(1) that] by (simp add: untouched_def)
  have persist: "db_approvals s' = db_approvals s0" if "evaluate_and_persist ctx p a s0 = (x, s')" for ctx p a x s0 s'
    using obeysD [OF approvals.actions_policy(2) that] by (simp add: untouched_def)
  have block: "db_approvals s' = db_approvals s0" if "block_tool i req spec a ev s0 = (x, s')" for a ev x s0 s'
    using obeysD [OF approvals.actions_block that] by (simp add: untouched_def)
  from assms(1,3) show ?thesis
    unfolding run_after_idempotency_def Let_def
    by (auto elim!: bind_InrE read_case_InrE simp: prog_eval
        dest!: policy persist block perform_tool_approvals [OF _ assms(2)] split: option.splits if_splits)
qed

lemma fresh_run_approvals:
  assumes "fresh_run h svc i req spec validated rid started s = (Inr r, t)"
    and "ts_queue svc = None" and "xr_approved_execution req"
  shows "db_approvals t = db_approvals s"
proof -
  from assms(1) obtain row customer payment tcid s1 s2 result where
      call: "insert_tool_call row s = (Inr tcid, s1)"
      and run: "run_after_idempotency h svc i req spec customer payment validated s1 = (Inr result, s2)"
      and settle: "settle_result rid tcid started (xr_idempotency_key req) result s2 = (Inr r, t)"
    unfolding fresh_run_def
    by (auto elim!: bind_InrE seqp_InrE read_case_InrE simp: prog_eval catch_def split: prod.splits sum.splits if_splits)
  have "obeys (untouched db_approvals) (settle_result rid tcid started (xr_idempotency_key req) result)"
    unfolding settle_result_def complete_idempotent_operation_def update_idempotency_def
    by (intro approvals.actions_rules approvals.actions_steps untouched_modify) simp_all
  from obeysD [OF this settle] obeysD [OF approvals.actions_rows(6) call] run_after_approvals [OF run assms(2,3)]
  show ?thesis by (simp add: untouched_def)
qed

lemma execute_approvals:
  assumes run: "execute h svc i req s = (Inr r, t)"
    and "ts_queue svc = None" and "xr_approved_execution req"
    and race: "\<And>x. db_approvals (ts_race svc x) = db_approvals x"
  shows "db_approvals t = db_approvals s"
proof -
  obtain spec validated mer where once: "run_once h svc i req spec validated (db_clock s) mer s = (Inr r, t)"
    using run by (rule execute_InrE) (rule that)
  have start: "obeys (untouched db_approvals) (begin_idempotent_operation (ts_race svc) m k op hash)" for m k op hash
    unfolding begin_idempotent_operation_def replay_existing_def insert_idempotency_def
    by (intro approvals.actions_rules untouched_modify race)
       (simp add: obeys_def untouched_def)
  from once obtain out s1 decision s2 where "begin_idempotent_operation (ts_race svc) mer
        (xr_idempotency_key req) (spec_name spec)
        (canonical_request_hash h (hash_payload spec (xr_action req) validated)) s = (Inr out, s1)"
      and decide: "(if io_replay out
           then bind (gets (\<lambda>s. idempotency_record s mer (xr_idempotency_key req))) (\<lambda>r.
                  case r of None \<Rightarrow> raise ObjectDeletedError
                  | Some rec \<Rightarrow> ret (replay_of rec (xr_approved_execution req)))
           else ret Proceed) s1 = (Inr decision, s2)"
      and act: "(case decision of Replay stored \<Rightarrow> lift (result_from_stored h stored)
           | In_progress \<Rightarrow> raise (DomainError ''IDEMPOTENCY_IN_PROGRESS'' True)
           | Proceed \<Rightarrow> fresh_run h svc i req spec validated (io_record out) (db_clock s)) s2 = (Inr r, t)"
    unfolding run_once_def by (elim bind_InrE)
  moreover from this(1) have "db_approvals s1 = db_approvals s"
    using obeysD [OF start] by (simp add: untouched_def)
  moreover have "s2 = s1" using decide by (auto simp: prog_simps split: if_splits option.splits)
  ultimately show ?thesis
    by (auto simp: prog_eval dest: fresh_run_approvals [OF _ assms(2,3)] split: replay_decision.splits)
qed

text \<open>
  C11. \<^bold>\<open>An approval is used once.\<close> Approving an action succeeds only on its newest approval, when that is
  pending and not expired, and leaves it approved by the operator. From then on, until somebody
  writes an approval, approving the action again raises and changes nothing, so the action does not
  run a second time.
\<close>

theorem approve_once:
  assumes ids: "distinct (map ap_id (db_approvals s))"
    and run: "approve_action h svc i aid actor who m s = (Inr r, t)"
    and race: "\<And>x. db_approvals (ts_race svc x) = db_approvals x"
    and u: "db_approvals u = db_approvals t"
  shows "\<exists>ap. latest_approval s i aid = Some ap \<and> ap_status ap = Appr_PENDING \<and> \<not> approval_expired ap (db_clock s)
    \<and> latest_approval t i aid = Some (ap\<lparr>ap_status := Appr_APPROVED, ap_decided_by := who,
        ap_decided_at := Some (db_clock s)\<rparr>)
    \<and> (\<exists>e. approve_action h svc' i aid actor' who' m' u = (Inl e, u))"
proof -
  let ?f = "\<lambda>r. r\<lparr>ap_status := Appr_APPROVED, ap_decided_by := who, ap_decided_at := Some (db_clock s)\<rparr>"
  obtain c a ap where found: "find_decision i aid m s = (Inr (c, a, ap_id ap), expired_if ap s)"
      "latest_approval s i aid = Some ap"
    using run unfolding approve_action_def find_decision_eval
    by (auto simp: prog_simps split: option.splits if_splits)
  have same: "session_get_approval s (ap_id ap) = Some ap" by (rule latest_approval_get [OF ids found(2)])
  then have deref: "session_get_approval (expired_if ap s) (ap_id ap)
      = Some (if approval_expired ap (db_clock s) then ap\<lparr>ap_status := Appr_EXPIRED\<rparr> else ap)"
    by (simp add: expired_if_def session_get_approval_def expire_key.find_update_row)
  have fresh: "\<not> approval_expired ap (db_clock s)" "ap_status ap = Appr_PENDING"
    using run deref unfolding approve_action_def
    by (auto simp: prog_simps found(1) split: if_splits)
  then have "expired_if ap s = s" by (simp add: expired_if_def)
  with run fresh same obtain sa sb s1 x y where up: "update_approval (ap_id ap) ?f s = (Inr (), sa)"
      "update_action (ra_id a) (\<lambda>r. r\<lparr>ra_status := Act_APPROVED\<rparr>) sa = (Inr x, sb)"
      "decision_audit c a actor Aud_APPROVAL_APPROVED sb = (Inr y, s1)"
      and exec: "execute h (svc\<lparr>ts_queue := None\<rparr>) (rc_id c) (approved_request h c a (ap_id ap) actor who) s1 = (Inr r, t)"
    unfolding approve_action_def now_def
    by (auto simp: prog_eval deref_def found(1) split: if_splits elim!: bind_InrE seqp_InrE)
  have s1: "db_approvals s1 = update_row ap_id (ap_id ap) ?f (db_approvals s)"
    using up(1) obeysD [OF approvals.actions_rows(4) up(2)]
      obeysD [OF approvals.actions_rows(2) up(3) [unfolded decision_audit_def]]
    by (auto simp: update_approval_def prog_eval untouched_def)
  have flag: "xr_approved_execution (approved_request h c a (ap_id ap) actor who)" by (simp add: approved_request_def Let_def)
  have t: "db_approvals t = update_row ap_id (ap_id ap) ?f (db_approvals s)"
    using execute_approvals [OF exec _ flag] race s1 by simp
  have latest: "latest_approval v i aid = Some (?f ap)" if "db_approvals v = db_approvals t" for v
    using latest_approval_update [OF _ found(2), of ?f "ap_id ap"] that t by (simp add: latest_approval_def)
  have "distinct (map ap_id (db_approvals u))" using ids u t by (simp add: approve_key.keys_update_row)
  then have "\<exists>e. approve_action h svc' i aid actor' who' m' u = (Inl e, u)"
    by (rule approve_decided [OF _ latest [OF u]]) simp
  with found(2) fresh latest [OF refl] show ?thesis by blast
qed
definition waiting_action :: RecoveryAction where
  "waiting_action = \<lparr>ra_id = 5, ra_merchant_id = 1, ra_recovery_case_id = 4, ra_action_type = SEND_REMINDER,
     ra_status = Act_APPROVAL_REQUIRED, ra_idempotency_key = ''key'', ra_attempt_number = 1, ra_risk_level = YELLOW,
     ra_provider = None, ra_provider_reference = None, ra_amount = Some 4000, ra_currency = ''INR'',
     ra_scheduled_for = None, ra_executed_at = None, ra_error_code = None, ra_error_message = None,
     ra_metadata = [(''tool_name'', JStr ''send_notification''), (''payload'', JObj [])], ra_created_at = 0\<rparr>"

definition waiting_approval :: Approval where
  "waiting_approval = \<lparr>ap_id = 6, ap_merchant_id = 1, ap_recovery_case_id = 4, ap_recovery_action_id = Some 5,
     ap_status = Appr_PENDING, ap_requested_by = None, ap_decided_by = None, ap_decision_reason = None,
     ap_decided_at = None, ap_expires_at = None, ap_created_at = 0\<rparr>"

definition waiting_db :: "RecoveryAction \<Rightarrow> Approval \<Rightarrow> db" where
  "waiting_db a ap = demo_db\<lparr>db_cases := [demo_case\<lparr>rc_status := Case_AWAITING_APPROVAL\<rparr>],
     db_actions := [a], db_approvals := [ap]\<rparr>"

lemma demo_approve_runs:
  "\<exists>r t. approve_action demo_host (demo_service halted_settings) 4 5 Actor_USER (Some ''op'') None
     (waiting_db waiting_action waiting_approval) = (Inr r, t)"
proof -
  let ?c = "demo_case\<lparr>rc_status := Case_AWAITING_APPROVAL\<rparr>" and ?s = "waiting_db waiting_action waiting_approval"
  let ?svc = "(demo_service halted_settings)\<lparr>ts_queue := None\<rparr>"
  let ?req = "approved_request demo_host ?c waiting_action 6 Actor_USER (Some ''op'')"
  have "\<exists>r t. execute demo_host ?svc 4 ?req (?s\<lparr>db_approvals := x, db_actions := y, db_audit := z\<rparr>) = (Inr r, t)" for x y z
    by (rule execute_halted [where action = SEND_REMINDER and spec = reminder_spec and validated = reminder_input
          and c = ?c])
       (simp_all add: halted_def reminder_facts AUTOMATIC_ACTIONS_def waiting_db_def get_case_unscoped_def
          get_merchant_def find_row_def demo_defs SIDE_EFFECT_EXECUTE_STATES_def merge_merchant_none halted_settings_def
          approved_request_def waiting_action_def dict_get_def stored_parts demo_reminder_resolved request_admitted_def
          idempotency_record_def)
  moreover have "find_decision 4 5 None ?s = (Inr (?c, waiting_action, 6), ?s)"
    by (simp add: find_decision_eval waiting_db_def get_case_unscoped_def session_get_action_def find_row_def
        demo_defs waiting_action_def latest_approval_def waiting_approval_def expired_if_def approval_expired_def)
  ultimately show ?thesis
    by (simp add: approve_action_def prog_simps now_def update_approval_def update_action_def decision_audit_def record_audit_def
       waiting_db_def session_get_approval_def find_row_def waiting_approval_def waiting_action_def demo_case_def)
qed

theorem approve_once_witness:
  "\<exists>r t e. approve_action demo_host (demo_service halted_settings) 4 5 Actor_USER (Some ''op'') None
       (waiting_db waiting_action waiting_approval) = (Inr r, t)
     \<and> approve_action demo_host (demo_service default_settings) 4 5 Actor_USER (Some ''op'') None t = (Inl e, t)"
proof -
  obtain r t where run: "approve_action demo_host (demo_service halted_settings) 4 5 Actor_USER (Some ''op'') None
      (waiting_db waiting_action waiting_approval) = (Inr r, t)"
    using demo_approve_runs by blast
  have "distinct (map ap_id (db_approvals (waiting_db waiting_action waiting_approval)))"
    "\<And>x. db_approvals (ts_race (demo_service halted_settings) x) = db_approvals x"
    by (simp_all add: waiting_db_def demo_service_def)
  from approve_once [OF this(1) run this(2) refl, of "demo_service default_settings" Actor_USER "Some ''op''" None] run
  show ?thesis by blast
qed

interpretation cancel_key: keyed_update ra_id "\<lambda>r. r\<lparr>ra_status := Act_CANCELLED\<rparr>"
  by unfold_locales simp

lemma escalate_waiting:
  assumes "get_case_unscoped s i = Some c"
  shows "\<exists>t c'. unless (rc_status c \<noteq> Case_AWAITING_APPROVAL) (transition_case i Case_ESCALATED actor None) s = (Inr (), t)
    \<and> get_case_unscoped t i = Some c' \<and> db_approvals t = db_approvals s \<and> db_actions t = db_actions s
    \<and> db_idempotency t = db_idempotency s \<and> effects t = effects s
    \<and> rc_status c' = (if rc_status c = Case_AWAITING_APPROVAL then Case_ESCALATED else rc_status c)"
  using assms
  by (auto simp: prog_simps transition_case_eval can_transition_def LEGAL_TRANSITIONS_def effects_def
      get_case_unscoped_def get_case_after_move [unfolded get_case_unscoped_def, simplified] moved_case_def)

lemma latest_after_reject:
  assumes "latest_approval s i aid = Some ap"
    and "db_approvals t = update_row ap_id (ap_id ap) (\<lambda>r. r\<lparr>ap_status := Appr_REJECTED, ap_decided_by := who,
       ap_decided_at := x, ap_decision_reason := y\<rparr>) (db_approvals (expired_if ap s))"
  shows "\<exists>ap'. latest_approval t i aid = Some ap' \<and> ap_id ap' = ap_id ap \<and> ap_status ap' = Appr_REJECTED"
proof -
  let ?f = "\<lambda>r. r\<lparr>ap_status := Appr_REJECTED, ap_decided_by := who, ap_decided_at := x, ap_decision_reason := y\<rparr>"
  obtain ap1 where "latest_approval (expired_if ap s) i aid = Some ap1" "ap_id ap1 = ap_id ap"
    using latest_approval_update [OF _ assms(1), of "\<lambda>r. r\<lparr>ap_status := Appr_EXPIRED\<rparr>" "ap_id ap"] assms(1)
    by (cases "approval_expired ap (db_clock s)") (auto simp: expired_if_def)
  from latest_approval_update [OF _ this(1), of ?f "ap_id ap"] this(2) assms(2)
  show ?thesis by (auto simp: latest_approval_def)
qed

lemma mark_rejected_run:
  assumes "session_get_action s aid = Some a"
  shows "\<exists>t. mark_rejected c a k actor who reason s = (Inr (), t) \<and> db_cases t = db_cases s \<and> effects t = effects s
    \<and> db_approvals t = update_row ap_id k (\<lambda>r. r\<lparr>ap_status := Appr_REJECTED, ap_decided_by := who,
         ap_decided_at := Some (db_clock s), ap_decision_reason := Some (reason_given reason ''Rejected by operator'')\<rparr>)
         (db_approvals s)
    \<and> session_get_action t aid = Some (a\<lparr>ra_status := Act_CANCELLED\<rparr>)
    \<and> (case idempotency_record t (rc_merchant_id c) (ra_idempotency_key a) of
         None \<Rightarrow> idempotency_record s (rc_merchant_id c) (ra_idempotency_key a) = None
       | Some k \<Rightarrow> ik_status k = Idem_FAILED)"
proof -
  have "ra_id a = aid" using assms unfolding session_get_action_def by (rule find_row_Some_key)
  with assms show ?thesis
    by (cases "idempotency_record s (rc_merchant_id c) (ra_idempotency_key a)")
       (auto simp: mark_rejected_def prog_simps update_approval_def update_action_def decision_audit_def
          fail_idempotent_operation_def update_idempotency_def effects_def session_get_action_def
          cancel_key.find_update_row idempotency_record_def find_update_row_other)
qed

text \<open>
  \<^bold>\<open>Rejecting cancels.\<close> Rejecting an action marks its newest approval as rejected and the action as
  cancelled, closes its idempotency key as failed, and escalates the case when it waits for
  approval; other cases keep their status, and no payment, attempt, message or cart changes. It
  does so whatever the status of approval and action is: also when the approval was used and the
  action has run.
\<close>

theorem reject_cancels:
  assumes c: "get_case_unscoped s i = Some c" "m \<in> {None, Some (rc_merchant_id c)}"
    and a: "session_get_action s aid = Some a" "ra_merchant_id a = rc_merchant_id c"
    and ap: "latest_approval s i aid = Some ap"
  shows "\<exists>t d c' ap' a'. reject_action i aid actor who reason m s = (Inr d, t)
    \<and> latest_approval t i aid = Some ap' \<and> ap_id ap' = ap_id ap \<and> ap_status ap' = Appr_REJECTED
    \<and> session_get_action t aid = Some a' \<and> ra_status a' = Act_CANCELLED
    \<and> (case idempotency_record t (rc_merchant_id c) (ra_idempotency_key a) of
         None \<Rightarrow> idempotency_record s (rc_merchant_id c) (ra_idempotency_key a) = None
       | Some k \<Rightarrow> ik_status k = Idem_FAILED)
    \<and> get_case_unscoped t i = Some c'
    \<and> rc_status c' = (if rc_status c = Case_AWAITING_APPROVAL then Case_ESCALATED else rc_status c)
    \<and> effects t = effects s"
proof -
  have i: "rc_id c = i" using c(1) by (rule get_case_unscoped_id)
  have find: "find_decision i aid m s = (Inr (c, a, ap_id ap), expired_if ap s)"
    using c a ap by (auto simp: find_decision_eval)
  have s0: "db_cases (expired_if ap s) = db_cases s" "session_get_action (expired_if ap s) = session_get_action s"
    "idempotency_record (expired_if ap s) = idempotency_record s" "effects (expired_if ap s) = effects s"
    by (simp_all add: expired_if_def effects_def session_get_action_def idempotency_record_def fun_eq_iff)
  obtain s1 where mark: "mark_rejected c a (ap_id ap) actor who reason (expired_if ap s) = (Inr (), s1)"
      "db_cases s1 = db_cases s" "effects s1 = effects s"
      "db_approvals s1 = update_row ap_id (ap_id ap) (\<lambda>r. r\<lparr>ap_status := Appr_REJECTED, ap_decided_by := who,
         ap_decided_at := Some (db_clock (expired_if ap s)), ap_decision_reason := Some (reason_given reason ''Rejected by operator'')\<rparr>)
         (db_approvals (expired_if ap s))"
      "session_get_action s1 aid = Some (a\<lparr>ra_status := Act_CANCELLED\<rparr>)"
      "case idempotency_record s1 (rc_merchant_id c) (ra_idempotency_key a) of
         None \<Rightarrow> idempotency_record s (rc_merchant_id c) (ra_idempotency_key a) = None
       | Some k \<Rightarrow> ik_status k = Idem_FAILED"
    using mark_rejected_run [of "expired_if ap s" aid a c "ap_id ap" actor who reason] a(1) unfolding s0 by blast
  obtain ap' where ap': "latest_approval s1 i aid = Some ap'" "ap_id ap' = ap_id ap" "ap_status ap' = Appr_REJECTED"
    using latest_after_reject [OF ap mark(4)] by blast
  have c1: "get_case_unscoped s1 i = Some c" using c(1) mark(2) by (simp add: get_case_unscoped_def)
  obtain t c' where t: "unless (rc_status c \<noteq> Case_AWAITING_APPROVAL) (transition_case i Case_ESCALATED actor None) s1 = (Inr (), t)"
      "get_case_unscoped t i = Some c'" "db_approvals t = db_approvals s1" "db_actions t = db_actions s1"
      "db_idempotency t = db_idempotency s1" "effects t = effects s1"
      "rc_status c' = (if rc_status c = Case_AWAITING_APPROVAL then Case_ESCALATED else rc_status c)"
    using escalate_waiting [OF c1] by blast
  obtain d where run: "reject_action i aid actor who reason m s = (Inr d, t)"
    using t(1,2) c1 mark(1) by (simp add: reject_action_def find i prog_eval bind_eval deref_eval)
  have same: "latest_approval t i aid = Some ap'" "session_get_action t aid = session_get_action s1 aid"
      "idempotency_record t = idempotency_record s1"
    using ap'(1) t(3-5) by (simp_all add: latest_approval_def session_get_action_def idempotency_record_def fun_eq_iff)
  show ?thesis
    by (rule exI [of _ t], rule exI [of _ d], rule exI [of _ c'], rule exI [of _ ap'],
        rule exI [of _ "a\<lparr>ra_status := Act_CANCELLED\<rparr>"]) (use run same ap' mark(3,5,6) t(2,6,7) in simp)
qed

text \<open>An approved reminder that was sent: rejecting it now still cancels it.\<close>

theorem reject_cancels_witness:
  "\<exists>t d a'. reject_action 4 5 Actor_USER (Some ''op'') None None
       (waiting_db (waiting_action\<lparr>ra_status := Act_SUCCEEDED\<rparr>) (waiting_approval\<lparr>ap_status := Appr_APPROVED\<rparr>)) = (Inr d, t)
     \<and> session_get_action t 5 = Some a' \<and> ra_status a' = Act_CANCELLED"
proof -
  let ?a = "waiting_action\<lparr>ra_status := Act_SUCCEEDED\<rparr>" and ?ap = "waiting_approval\<lparr>ap_status := Appr_APPROVED\<rparr>"
  have "get_case_unscoped (waiting_db ?a ?ap) 4 = Some (demo_case\<lparr>rc_status := Case_AWAITING_APPROVAL\<rparr>)"
    "session_get_action (waiting_db ?a ?ap) 5 = Some ?a" "latest_approval (waiting_db ?a ?ap) 4 5 = Some ?ap"
    "ra_merchant_id ?a = rc_merchant_id (demo_case\<lparr>rc_status := Case_AWAITING_APPROVAL\<rparr>)"
    by (simp_all add: waiting_db_def get_case_unscoped_def session_get_action_def find_row_def demo_case_def
        waiting_action_def latest_approval_def waiting_approval_def)
  from reject_cancels [OF this(1) _ this(2,4,3), of None Actor_USER "Some ''op''" None] show ?thesis by blast
qed

end
