(* ===== verification/Ranking.thy ===== *)
theory Ranking
  imports Policy "HOL-Library.List_Lexorder" "HOL-Library.Char_ord" "HOL-Library.Product_Lexorder"
begin

text \<open>
  The pure part of the optimizer (\<^verbatim>\<open>recoverai_domain/optimizer\<close>, files \<^verbatim>\<open>config.py\<close>, \<^verbatim>\<open>erv.py\<close>,
  \<^verbatim>\<open>ranking.py\<close>, \<^verbatim>\<open>metrics.py\<close> and the candidates of \<^verbatim>\<open>types.py\<close>): cost assumptions from the environment,
  the expected recovery value of an action, and the choice among scored candidates. Python's \<^verbatim>\<open>sorted\<close> is
  stable, also in reverse, like \<^const>\<open>sort_key\<close>. The reasons given for a selection are prose and are
  left out.
\<close>

subsection \<open>Settings\<close>

definition OPTIMIZER_VERSION :: string where
  "OPTIMIZER_VERSION = ''erv-v1''"

definition RECOVERY_INTERVENTIONS :: "RecoveryActionType list" where
  "RECOVERY_INTERVENTIONS = [RETRY_NOW, RETRY_LATER, SEND_PAYMENT_LINK, SEND_REMINDER, OFFER_DISCOUNT]"

definition CONTROL_STRATEGIES :: "RecoveryActionType list" where
  "CONTROL_STRATEGIES = [ESCALATE, DO_NOTHING]"

fun FRICTION_RANK :: "RecoveryActionType \<Rightarrow> int" where
  "FRICTION_RANK DO_NOTHING = 0"
| "FRICTION_RANK RETRY_LATER = 1"
| "FRICTION_RANK SEND_PAYMENT_LINK = 2"
| "FRICTION_RANK SEND_REMINDER = 3"
| "FRICTION_RANK RETRY_NOW = 4"
| "FRICTION_RANK OFFER_DISCOUNT = 5"
| "FRICTION_RANK ESCALATE = 6"

fun SIMPLICITY_RANK :: "RecoveryActionType \<Rightarrow> int" where
  "SIMPLICITY_RANK DO_NOTHING = 0"
| "SIMPLICITY_RANK SEND_REMINDER = 1"
| "SIMPLICITY_RANK RETRY_LATER = 2"
| "SIMPLICITY_RANK SEND_PAYMENT_LINK = 3"
| "SIMPLICITY_RANK RETRY_NOW = 4"
| "SIMPLICITY_RANK OFFER_DISCOUNT = 5"
| "SIMPLICITY_RANK ESCALATE = 6"

definition LEGAL_ACTIONS :: "string list" where
  "LEGAL_ACTIONS = map action_value all_actions"

record ActionCostAssumptions =
  ca_intervention_cost :: rat
  ca_communication_cost :: rat
  ca_risk_penalty :: rat

record OptimizerSettings =
  os_optimizer_version :: string
  os_prediction_ttl_minutes :: int
  os_default_discount_percent :: rat
  os_tie_epsilon :: rat
  os_costs :: "RecoveryActionType \<Rightarrow> ActionCostAssumptions"

fun default_costs :: "RecoveryActionType \<Rightarrow> ActionCostAssumptions" where
  "default_costs RETRY_NOW = \<lparr>ca_intervention_cost = 5, ca_communication_cost = 0, ca_risk_penalty = 15\<rparr>"
| "default_costs RETRY_LATER = \<lparr>ca_intervention_cost = 2, ca_communication_cost = 0, ca_risk_penalty = 4\<rparr>"
| "default_costs SEND_PAYMENT_LINK = \<lparr>ca_intervention_cost = 3, ca_communication_cost = 3/2, ca_risk_penalty = 8\<rparr>"
| "default_costs SEND_REMINDER = \<lparr>ca_intervention_cost = 1/2, ca_communication_cost = 3/2, ca_risk_penalty = 12\<rparr>"
| "default_costs OFFER_DISCOUNT = \<lparr>ca_intervention_cost = 1, ca_communication_cost = 3/2, ca_risk_penalty = 40\<rparr>"
| "default_costs ESCALATE = \<lparr>ca_intervention_cost = 250, ca_communication_cost = 0, ca_risk_penalty = 30\<rparr>"
| "default_costs DO_NOTHING = \<lparr>ca_intervention_cost = 0, ca_communication_cost = 0, ca_risk_penalty = 0\<rparr>"

definition default_optimizer_settings :: OptimizerSettings where
  "default_optimizer_settings = \<lparr>os_optimizer_version = OPTIMIZER_VERSION, os_prediction_ttl_minutes = 60,
     os_default_discount_percent = 5, os_tie_epsilon = 1/100, os_costs = default_costs\<rparr>"

text \<open>The names of the three environment variables of an action.\<close>

fun cost_variables :: "RecoveryActionType \<Rightarrow> string \<times> string \<times> string" where
  "cost_variables RETRY_NOW = (''COST_RETRY_NOW'', ''COST_RETRY_NOW_COMMUNICATION'', ''RISK_PENALTY_RETRY_NOW'')"
| "cost_variables RETRY_LATER = (''COST_RETRY_LATER'', ''COST_RETRY_LATER_COMMUNICATION'', ''RISK_PENALTY_RETRY_LATER'')"
| "cost_variables SEND_PAYMENT_LINK = (''COST_PAYMENT_LINK'', ''COST_PAYMENT_LINK_COMMUNICATION'', ''RISK_PENALTY_PAYMENT_LINK'')"
| "cost_variables SEND_REMINDER = (''COST_REMINDER'', ''COST_REMINDER_COMMUNICATION'', ''RISK_PENALTY_REMINDER'')"
| "cost_variables OFFER_DISCOUNT = (''COST_DISCOUNT_INTERVENTION'', ''COST_DISCOUNT_COMMUNICATION'', ''RISK_PENALTY_DISCOUNT'')"
| "cost_variables ESCALATE = (''COST_HUMAN_ESCALATION'', ''COST_ESCALATE_COMMUNICATION'', ''RISK_PENALTY_ESCALATE'')"
| "cost_variables DO_NOTHING = (''COST_DO_NOTHING'', ''COST_DO_NOTHING_COMMUNICATION'', ''RISK_PENALTY_DO_NOTHING'')"

definition costs_from_env :: "environ \<Rightarrow> RecoveryActionType \<Rightarrow> ActionCostAssumptions res" where
  "costs_from_env env action =
     (let (i, c, r) = cost_variables action; d = default_costs action in
      bindE (decimal_env env i (ca_intervention_cost d)) (\<lambda>intervention.
      bindE (decimal_env env c (ca_communication_cost d)) (\<lambda>communication.
      bindE (decimal_env env r (ca_risk_penalty d)) (\<lambda>risk.
      Inr \<lparr>ca_intervention_cost = intervention, ca_communication_cost = communication, ca_risk_penalty = risk\<rparr>))))"

text \<open>The order in which the constructor reads the costs.\<close>

definition COST_ORDER :: "RecoveryActionType list" where
  "COST_ORDER = [RETRY_NOW, RETRY_LATER, SEND_PAYMENT_LINK, SEND_REMINDER, OFFER_DISCOUNT, ESCALATE, DO_NOTHING]"

definition optimizer_settings_from_env :: "environ \<Rightarrow> OptimizerSettings res" where
  "optimizer_settings_from_env env =
     bindE (int_env env ''PREDICTION_TTL_MINUTES'' 60) (\<lambda>ttl.
     bindE (decimal_env env ''DEFAULT_DISCOUNT_PERCENT'' 5) (\<lambda>percent.
     bindE (decimal_env env ''ERV_TIE_EPSILON'' (1/100)) (\<lambda>epsilon.
     bindE (map_res (\<lambda>a. bindE (costs_from_env env a) (\<lambda>c. Inr (a, c))) COST_ORDER) (\<lambda>costs.
     Inr \<lparr>os_optimizer_version = (case env ''OPTIMIZER_VERSION'' of None \<Rightarrow> OPTIMIZER_VERSION
             | Some v \<Rightarrow> if v = [] then OPTIMIZER_VERSION else v),
          os_prediction_ttl_minutes = ttl, os_default_discount_percent = percent, os_tie_epsilon = epsilon,
          os_costs = (\<lambda>a. case map_of costs a of None \<Rightarrow> default_costs a | Some c \<Rightarrow> c)\<rparr>))))"

definition costs_for :: "OptimizerSettings \<Rightarrow> string \<Rightarrow> ActionCostAssumptions res" where
  "costs_for settings action = (case parse_enum action_value all_actions action of
     Inl _ \<Rightarrow> Inl KeyError
   | Inr a \<Rightarrow>
       let c = os_costs settings a in
       bindE (as_money (ca_intervention_cost c)) (\<lambda>intervention.
       bindE (as_money (ca_communication_cost c)) (\<lambda>communication.
       bindE (as_money (ca_risk_penalty c)) (\<lambda>risk.
       Inr \<lparr>ca_intervention_cost = intervention, ca_communication_cost = communication, ca_risk_penalty = risk\<rparr>))))"

subsection \<open>Expected recovery value\<close>

definition probability_to_decimal :: "rat \<Rightarrow> rat res" where
  "probability_to_decimal p = (if p < 0 \<or> p > 1 then Inl (OptimizerError ''INVALID_PROBABILITY'') else Inr p)"

definition discount_cost :: "rat \<Rightarrow> rat \<Rightarrow> rat res" where
  "discount_cost amount_at_risk percent =
     bindE (as_money amount_at_risk) (\<lambda>amount.
     if percent < 0 then Inl (OptimizerError ''INVALID_DISCOUNT'') else as_money (amount * percent / 100))"

definition expected_recovered_revenue :: "rat \<Rightarrow> rat \<Rightarrow> rat res" where
  "expected_recovered_revenue probability amount_at_risk =
     bindE (probability_to_decimal probability) (\<lambda>p.
     bindE (as_money amount_at_risk) (\<lambda>amount. as_money (p * amount)))"

definition expected_net_recovery :: "rat \<Rightarrow> rat \<Rightarrow> rat \<Rightarrow> rat \<Rightarrow> rat \<Rightarrow> rat \<Rightarrow> rat res" where
  "expected_net_recovery probability amount_at_risk intervention discount communication risk =
     bindE (expected_recovered_revenue probability amount_at_risk) (\<lambda>expected.
     bindE (as_money intervention) (\<lambda>i.
     bindE (as_money discount) (\<lambda>d.
     bindE (as_money communication) (\<lambda>c.
     bindE (as_money risk) (\<lambda>r.
     Inr (signed_money (expected - i - d - c - r)))))))"

definition costs_for_action :: "string \<Rightarrow> rat \<Rightarrow> OptimizerSettings \<Rightarrow> rat option \<Rightarrow> (rat \<times> rat \<times> rat \<times> rat) res" where
  "costs_for_action action amount_at_risk settings discount_percent =
     bindE (costs_for settings action) (\<lambda>a.
     bindE (if action = action_value OFFER_DISCOUNT
            then discount_cost amount_at_risk (case discount_percent of
                   None \<Rightarrow> os_default_discount_percent settings | Some p \<Rightarrow> p)
            else Inr ZERO) (\<lambda>concession.
     Inr (ca_intervention_cost a, concession, ca_communication_cost a, ca_risk_penalty a)))"

subsection \<open>Candidates\<close>

record CandidateAction =
  cd_action :: string
  cd_probability :: "rat option"
  cd_amount_at_risk :: rat
  cd_expected_recovery :: rat
  cd_intervention_cost :: rat
  cd_discount_cost :: rat
  cd_communication_cost :: rat
  cd_risk_penalty :: rat
  cd_expected_value :: rat
  cd_allowed :: bool
  cd_requires_approval :: bool
  cd_policy_reason :: string
  cd_prediction_source :: "string option"
  cd_model_version :: "string option"
  cd_feature_version :: "string option"
  cd_prediction_timestamp :: "timestamp option"
  cd_stale_prediction :: bool
  cd_missing_probability :: bool
  cd_discount_percent :: "rat option"
  cd_policy_ids :: "string list"
  cd_risk_level :: "string option"

definition rank_of :: "(RecoveryActionType \<Rightarrow> int) \<Rightarrow> string \<Rightarrow> int" where
  "rank_of rank action = (case parse_enum action_value all_actions action of Inl _ \<Rightarrow> 99 | Inr a \<Rightarrow> rank a)"

definition tie_key :: "CandidateAction \<Rightarrow> int \<times> rat \<times> rat \<times> int \<times> string" where
  "tie_key c = (rank_of FRICTION_RANK (cd_action c),
     cd_intervention_cost c + cd_communication_cost c + cd_discount_cost c, cd_risk_penalty c,
     rank_of SIMPLICITY_RANK (cd_action c), cd_action c)"

definition eligible_candidates :: "CandidateAction list \<Rightarrow> CandidateAction list" where
  "eligible_candidates candidates =
     filter (\<lambda>c. cd_allowed c \<and> \<not> cd_missing_probability c \<and> cd_probability c \<noteq> None) candidates"

definition is_recovery :: "CandidateAction \<Rightarrow> bool" where
  "is_recovery c \<longleftrightarrow> cd_action c \<in> action_value ` set RECOVERY_INTERVENTIONS"

definition is_control :: "CandidateAction \<Rightarrow> bool" where
  "is_control c \<longleftrightarrow> cd_action c \<in> action_value ` set CONTROL_STRATEGIES"

definition max_with_ties :: "CandidateAction list \<Rightarrow> OptimizerSettings \<Rightarrow> CandidateAction res" where
  "max_with_ties pool settings =
     (let ranked = sort_key (\<lambda>c. - cd_expected_value c) pool;
          epsilon = signed_money (os_tie_epsilon settings) in
      case ranked of
        [] \<Rightarrow> Inl IndexError
      | best # _ \<Rightarrow>
          (case sort_key tie_key (filter (\<lambda>c. cd_expected_value best - cd_expected_value c \<le> epsilon) ranked) of
             [] \<Rightarrow> Inl IndexError | c # _ \<Rightarrow> Inr c))"

definition select_control :: "CandidateAction list \<Rightarrow> bool \<Rightarrow> CandidateAction option" where
  "select_control eligible suspicious =
     (let by_action = map_of (rev (map (\<lambda>c. (cd_action c, c)) eligible));
          nothing = by_action (action_value DO_NOTHING);
          escalate = by_action (action_value ESCALATE) in
      if suspicious \<and> escalate \<noteq> None then escalate
      else if nothing \<noteq> None then nothing
      else if escalate \<noteq> None then escalate
      else case filter is_control eligible of [] \<Rightarrow> None | c # _ \<Rightarrow> Some c)"

definition select_candidate :: "CandidateAction list \<Rightarrow> OptimizerSettings \<Rightarrow> bool \<Rightarrow> bool \<Rightarrow> CandidateAction option res" where
  "select_candidate candidates settings suspicious source_mismatch =
     (let eligible = eligible_candidates candidates in
      if eligible = [] then Inr None
      else
        let non_negative_recovery = filter (\<lambda>c. ZERO \<le> cd_expected_value c) (filter is_recovery eligible) in
        if non_negative_recovery \<noteq> []
        then bindE (max_with_ties non_negative_recovery settings) (\<lambda>winner. Inr (Some winner))
        else Inr (select_control eligible (suspicious \<or> source_mismatch)))"

subsection \<open>Metrics\<close>

definition expected_recovered_revenue_for :: "CandidateAction \<Rightarrow> rat res" where
  "expected_recovered_revenue_for c = (case cd_probability c of
     None \<Rightarrow> Inr ZERO | Some p \<Rightarrow> expected_recovered_revenue p (cd_amount_at_risk c))"

definition expected_net_recovery_for :: "CandidateAction \<Rightarrow> rat res" where
  "expected_net_recovery_for c = (case cd_probability c of
     None \<Rightarrow>
       bindE (as_money (cd_intervention_cost c)) (\<lambda>i.
       bindE (as_money (cd_discount_cost c)) (\<lambda>d.
       bindE (as_money (cd_communication_cost c)) (\<lambda>co.
       bindE (as_money (cd_risk_penalty c)) (\<lambda>r.
       Inr (signed_money (ZERO - i - d - co - r))))))
   | Some p \<Rightarrow> expected_net_recovery p (cd_amount_at_risk c) (cd_intervention_cost c) (cd_discount_cost c)
       (cd_communication_cost c) (cd_risk_penalty c))"

definition discount_spend :: "CandidateAction \<Rightarrow> rat res" where
  "discount_spend c = as_money (cd_discount_cost c)"

definition intervention_cost_total :: "CandidateAction \<Rightarrow> rat res" where
  "intervention_cost_total c = as_money (cd_intervention_cost c + cd_communication_cost c)"

subsection \<open>Bounds of the expected value\<close>

lemma net_recovery_Inr:
  assumes "expected_net_recovery p amount i d c r = Inr v"
  shows "0 \<le> p \<and> p \<le> 1 \<and> 0 \<le> quantize amount \<and> 0 \<le> quantize i \<and> 0 \<le> quantize d \<and> 0 \<le> quantize c \<and> 0 \<le> quantize r
    \<and> v = quantize (p * quantize amount) - (quantize i + quantize d + quantize c + quantize r)"
proof -
  from assms have v: "v = quantize (quantize (p * quantize amount) - quantize i - quantize d - quantize c - quantize r)"
    and pos: "0 \<le> p" "p \<le> 1" "0 \<le> quantize amount" "0 \<le> quantize i" "0 \<le> quantize d" "0 \<le> quantize c" "0 \<le> quantize r"
    by (auto simp: expected_net_recovery_def expected_recovered_revenue_def probability_to_decimal_def bindE_Inr_iff
        as_money_Inr signed_money_def split: if_splits)
  have "two_decimal (quantize (p * quantize amount) - quantize i - quantize d - quantize c - quantize r)"
    by (intro two_decimal_diff two_decimal_quantize)
  from quantize_two_decimal [OF this] v pos show ?thesis by simp
qed

text \<open>
  \<^bold>\<open>The expected recovery value.\<close> When it is defined, the probability is in the unit interval; the value
  is in whole cents, differs from the exact expectation (probability times amount, less all costs) by
  at most half a cent, never exceeds the amount at risk less the costs, is never below minus the costs,
  and does not fall when the probability rises.
\<close>

theorem expected_net_recovery_bounds:
  assumes v: "expected_net_recovery p amount i d c r = Inr v"
    and w: "expected_net_recovery p' amount i d c r = Inr w" and "p \<le> p'"
  defines "costs \<equiv> quantize i + quantize d + quantize c + quantize r"
  shows "0 \<le> p \<and> p \<le> 1 \<and> two_decimal v \<and> \<bar>v - (p * quantize amount - costs)\<bar> \<le> 1/200
    \<and> v \<le> quantize amount - costs \<and> - costs \<le> v \<and> 0 \<le> costs \<and> v \<le> w"
proof -
  from net_recovery_Inr [OF v] net_recovery_Inr [OF w]
  have v': "0 \<le> p" "p \<le> 1" "0 \<le> quantize amount" "0 \<le> costs" "v = quantize (p * quantize amount) - costs"
    and w': "w = quantize (p' * quantize amount) - costs"
    and two: "two_decimal costs"
    by (auto simp: costs_def intro!: two_decimal_add)
  have "quantize (p * quantize amount) \<le> quantize (1 * quantize amount)"
    using v' by (intro quantize_mono mult_right_mono)
  moreover have "quantize 0 \<le> quantize (p * quantize amount)" using v' by (intro quantize_mono) simp
  moreover have "quantize (p * quantize amount) \<le> quantize (p' * quantize amount)"
    using v' assms(3) by (intro quantize_mono mult_right_mono)
  moreover have "\<bar>quantize (p * quantize amount) - p * quantize amount\<bar> \<le> 1/200"
    using quantize_error [of 2 "p * quantize amount"] by simp
  moreover have "two_decimal v" unfolding v'(5) using two by (intro two_decimal_diff two_decimal_quantize)
  ultimately show ?thesis using v' w' by simp
qed

theorem expected_net_recovery_bounds_witness:
  "expected_net_recovery (1/2) 4000 5 0 0 15 = Inr 1980 \<and> (1980 :: rat) \<le> 4000 - 20"
proof -
  have q: "quantize_digits 2 (of_nat n) = of_nat n" for n
    using quantize_of_int [of 2 "int n"] by simp
  have v: "expected_net_recovery (1/2) 4000 5 0 0 15 = Inr 1980"
    using q [of 4000] q [of 5] q [of 15] q [of 2000] q [of 1980]
    by (simp add: expected_net_recovery_def expected_recovered_revenue_def probability_to_decimal_def as_money_def
        signed_money_def ZERO_def Let_def)
  from expected_net_recovery_bounds [OF v v] q [of 4000] q [of 5] q [of 15] v show ?thesis by simp
qed

subsection \<open>The choice\<close>

lemma sort_key_head_least:
  assumes "sort_key f xs = y # ys"
  shows "y \<in> set xs \<and> (\<forall>x \<in> set xs. f y \<le> f x)"
proof -
  have s: "set xs = set (y # ys)" using assms by (metis set_sort)
  have "sorted (map f (y # ys))" using assms by (metis sorted_sort_key)
  then show ?thesis unfolding s by auto
qed

lemma sort_key_nonempty: "xs \<noteq> [] \<Longrightarrow> \<exists>y ys. sort_key f xs = y # ys"
  by (metis length_0_conv length_sort neq_Nil_conv)

lemma max_with_ties_spec:
  assumes "pool \<noteq> []" and "0 \<le> os_tie_epsilon settings"
  shows "\<exists>c. max_with_ties pool settings = Inr c \<and> c \<in> set pool
    \<and> (\<forall>d \<in> set pool. cd_expected_value d \<le> cd_expected_value c + signed_money (os_tie_epsilon settings))
    \<and> (\<forall>d \<in> set pool. (\<forall>e \<in> set pool. cd_expected_value e \<le> cd_expected_value d + signed_money (os_tie_epsilon settings))
         \<longrightarrow> tie_key c \<le> tie_key d)"
proof -
  let ?eps = "signed_money (os_tie_epsilon settings)"
  let ?ranked = "sort_key (\<lambda>c. - cd_expected_value c) pool"
  have eps: "0 \<le> ?eps" using quantize_mono [OF assms(2), of 2] by (simp add: signed_money_def)
  have set_ranked: "set ?ranked = set pool" by simp
  obtain best rest where ranked: "?ranked = best # rest" using sort_key_nonempty [OF assms(1)] by blast
  note best = sort_key_head_least [OF ranked]
  let ?tied = "filter (\<lambda>c. cd_expected_value best - cd_expected_value c \<le> ?eps) ?ranked"
  have "best \<in> set ?tied" using eps best by auto
  then have "?tied \<noteq> []" by (metis empty_iff empty_set)
  then obtain c cs where c: "sort_key tie_key ?tied = c # cs" using sort_key_nonempty by blast
  note least = sort_key_head_least [OF c]
  have run: "max_with_ties pool settings = Inr c" using c by (simp add: max_with_ties_def Let_def ranked)
  have tied: "d \<in> set ?tied \<longleftrightarrow> d \<in> set pool \<and> cd_expected_value best \<le> cd_expected_value d + ?eps" for d
    by (auto simp: algebra_simps)
  show ?thesis
  proof (intro exI conjI ballI impI)
    show "max_with_ties pool settings = Inr c" by (rule run)
    show "c \<in> set pool" using least tied by blast
    fix d assume d: "d \<in> set pool"
    then show "cd_expected_value d \<le> cd_expected_value c + ?eps"
      using best least tied [of c] by fastforce
    assume "\<forall>e \<in> set pool. cd_expected_value e \<le> cd_expected_value d + ?eps"
    with best d have "d \<in> set ?tied" using tied by blast
    then show "tie_key c \<le> tie_key d" using least by blast
  qed
qed

lemma select_control_cases:
  "case select_control eligible suspicious of
     None \<Rightarrow> filter is_control eligible = []
   | Some c \<Rightarrow> c \<in> set eligible \<and> is_control c
       \<and> (suspicious \<and> (\<exists>d \<in> set eligible. cd_action d = action_value ESCALATE) \<longrightarrow> cd_action c = action_value ESCALATE)"
proof -
  let ?m = "map_of (rev (map (\<lambda>c. (cd_action c, c)) eligible))"
  have m: "?m k = Some c \<Longrightarrow> c \<in> set eligible \<and> cd_action c = k" for k c
    by (auto dest!: map_of_SomeD)
  have none: "?m k = None \<longleftrightarrow> (\<forall>d \<in> set eligible. cd_action d \<noteq> k)" for k
    by (auto simp: map_of_eq_None_iff image_iff)
  have control: "is_control c \<longleftrightarrow> cd_action c = action_value ESCALATE \<or> cd_action c = action_value DO_NOTHING" for c
    by (auto simp: is_control_def CONTROL_STRATEGIES_def)
  show ?thesis
  proof (cases "?m (action_value ESCALATE)")
    case esc: None
    show ?thesis
    proof (cases "?m (action_value DO_NOTHING)")
      case None
      then have "filter is_control eligible = []" using esc none by (auto simp: filter_empty_conv control)
      with None esc show ?thesis by (simp add: select_control_def Let_def)
    next
      case (Some c)
      with esc show ?thesis using m [OF Some] none [of "action_value ESCALATE"]
        by (auto simp: select_control_def Let_def control)
    qed
  next
    case (Some e)
    note e = m [OF Some]
    show ?thesis
    proof (cases "?m (action_value DO_NOTHING)")
      case None
      with Some e show ?thesis by (simp add: select_control_def Let_def control)
    next
      case n: (Some n)
      with Some e m [OF n] show ?thesis by (cases suspicious) (simp_all add: select_control_def Let_def control)
    qed
  qed
qed

text \<open>
  C12. \<^bold>\<open>The optimizer picks a best permitted action.\<close> With a non-negative tie tolerance a choice is always
  made without an error. Only candidates that the policy allows and that have a probability are
  chosen. When some of these is a recovery intervention worth at least zero, the choice is such an
  intervention, no other is worth more than the choice plus the tolerance, and among those equally
  good it has the least key of friction, direct cost, risk penalty, simplicity and name. Otherwise
  the choice is a control strategy, ESCALATE when the case is suspicious and escalation is
  permitted. Nothing is chosen only when neither kind remains.
\<close>

theorem select_candidate_optimal:
  fixes candidates :: "CandidateAction list" and settings :: OptimizerSettings
  assumes "0 \<le> os_tie_epsilon settings"
  defines "good \<equiv> filter (\<lambda>c. is_recovery c \<and> 0 \<le> cd_expected_value c) (eligible_candidates candidates)"
    and "eps \<equiv> signed_money (os_tie_epsilon settings)"
  shows "\<exists>choice. select_candidate candidates settings suspicious mismatch = Inr choice
    \<and> (case choice of
         None \<Rightarrow> good = [] \<and> filter is_control (eligible_candidates candidates) = []
       | Some c \<Rightarrow> c \<in> set candidates \<and> cd_allowed c \<and> cd_probability c \<noteq> None
           \<and> (if good \<noteq> []
              then c \<in> set good \<and> (\<forall>d \<in> set good. cd_expected_value d \<le> cd_expected_value c + eps)
                \<and> (\<forall>d \<in> set good. (\<forall>e \<in> set good. cd_expected_value e \<le> cd_expected_value d + eps)
                     \<longrightarrow> tie_key c \<le> tie_key d)
              else is_control c \<and> ((suspicious \<or> mismatch) \<and> (\<exists>d \<in> set (eligible_candidates candidates).
                     cd_action d = action_value ESCALATE) \<longrightarrow> cd_action c = action_value ESCALATE)))"
proof (cases "good = []")
  case True
  then have "select_candidate candidates settings suspicious mismatch
      = Inr (if eligible_candidates candidates = [] then None
             else select_control (eligible_candidates candidates) (suspicious \<or> mismatch))"
    by (auto simp: select_candidate_def Let_def good_def ZERO_def filter_empty_conv)
  moreover have "c \<in> set candidates \<and> cd_allowed c \<and> cd_probability c \<noteq> None"
    if "c \<in> set (eligible_candidates candidates)" for c
    using that by (simp add: eligible_candidates_def)
  ultimately show ?thesis
    using True select_control_cases [of "eligible_candidates candidates" "suspicious \<or> mismatch"]
    by (cases "select_control (eligible_candidates candidates) (suspicious \<or> mismatch)") simp_all
next
  case False
  then have "select_candidate candidates settings suspicious mismatch
      = bindE (max_with_ties good settings) (\<lambda>winner. Inr (Some winner))"
    by (auto simp: select_candidate_def Let_def good_def ZERO_def conj_commute)
  moreover obtain c where c: "max_with_ties good settings = Inr c" "c \<in> set good"
      "\<forall>d \<in> set good. cd_expected_value d \<le> cd_expected_value c + eps"
      "\<forall>d \<in> set good. (\<forall>e \<in> set good. cd_expected_value e \<le> cd_expected_value d + eps) \<longrightarrow> tie_key c \<le> tie_key d"
    using max_with_ties_spec [OF False assms(1)] unfolding eps_def by blast
  moreover from c(2) have "c \<in> set candidates \<and> cd_allowed c \<and> cd_probability c \<noteq> None"
    by (auto simp: good_def eligible_candidates_def)
  ultimately show ?thesis using False by simp
qed

definition demo_candidate :: "RecoveryActionType \<Rightarrow> rat \<Rightarrow> CandidateAction" where
  "demo_candidate a v = \<lparr>cd_action = action_value a, cd_probability = Some 1, cd_amount_at_risk = 2000,
     cd_expected_recovery = 2000, cd_intervention_cost = 5, cd_discount_cost = 0, cd_communication_cost = 0,
     cd_risk_penalty = 15, cd_expected_value = v, cd_allowed = True, cd_requires_approval = False,
     cd_policy_reason = [], cd_prediction_source = None, cd_model_version = None, cd_feature_version = None,
     cd_prediction_timestamp = None, cd_stale_prediction = False, cd_missing_probability = False,
     cd_discount_percent = None, cd_policy_ids = [], cd_risk_level = None\<rparr>"

theorem select_candidate_optimal_witness:
  "\<exists>c. select_candidate [demo_candidate RETRY_NOW 1980, demo_candidate DO_NOTHING 0] default_optimizer_settings False False
     = Inr (Some c) \<and> cd_action c = ''RETRY_NOW''"
proof -
  let ?cs = "[demo_candidate RETRY_NOW 1980, demo_candidate DO_NOTHING 0]"
  have good: "filter (\<lambda>c. is_recovery c \<and> 0 \<le> cd_expected_value c) (eligible_candidates ?cs)
      = [demo_candidate RETRY_NOW 1980]"
    by (simp add: eligible_candidates_def demo_candidate_def is_recovery_def RECOVERY_INTERVENTIONS_def)
  have "0 \<le> os_tie_epsilon default_optimizer_settings" by (simp add: default_optimizer_settings_def)
  from select_candidate_optimal [OF this, of ?cs False False, unfolded good]
  obtain choice where choice: "select_candidate ?cs default_optimizer_settings False False = Inr choice"
      "case choice of None \<Rightarrow> False | Some c \<Rightarrow> c = demo_candidate RETRY_NOW 1980"
    by (force split: option.splits)
  then show ?thesis by (cases choice) (simp_all add: demo_candidate_def)
qed

end
