(* ===== verification/Optimizer.thy ===== *)
theory Optimizer
  imports Approvals Ranking
begin

text \<open>
  The optimizer (\<^verbatim>\<open>recoverai_domain/optimizer\<close>, files \<^verbatim>\<open>probabilities.py\<close>, \<^verbatim>\<open>service.py\<close>, \<^verbatim>\<open>persist.py\<close>, \<^verbatim>\<open>batch.py\<close>
  and the results of \<^verbatim>\<open>types.py\<close>): probabilities from overrides, from stored predictions that are still
  fresh, or from the predictor; the policy verdict of each candidate; the ranked result; and the stored
  decision. The argument \<open>session\<close> says whether a database session was given. The clock is read once,
  as the methods do when their argument \<^verbatim>\<open>now\<close> is left out. The theorems show that the optimizer never
  changes a case, a payment or an effect and that it selects only what the policy engine allows.
\<close>

subsection \<open>Probabilities\<close>

record ProbabilityQuote =
  pq_probability :: rat
  pq_model_version :: string
  pq_feature_version :: string
  pq_source :: string
  pq_predicted_at :: "timestamp option"
  pq_stale :: bool
  pq_refreshed :: bool

definition map_prediction_source :: "string \<Rightarrow> string" where
  "map_prediction_source raw =
     (if raw \<in> {''ml'', ''MODEL''} then ''MODEL''
      else if raw \<in> {''MODEL_FALLBACK'', FALLBACK_VERSION} then ''MODEL_FALLBACK''
      else if raw = ''OVERRIDE'' then ''OVERRIDE''
      else raw)"

type_synonym predictor = "CaseContext \<Rightarrow> string \<Rightarrow> RecoveryProbability res"

definition default_predictor :: "Host \<Rightarrow> MlBundle res \<Rightarrow> predictor" where
  "default_predictor h ml c action = predict_recovery_probability h ml True c action"

definition load_cached :: "db \<Rightarrow> bool \<Rightarrow> uuid \<Rightarrow> string \<Rightarrow> timestamp \<Rightarrow> int \<Rightarrow> ProbabilityQuote option res" where
  "load_cached s session case_id action t ttl =
     (if \<not> session then Inr None
      else case get_latest_for_action s case_id action of
        None \<Rightarrow> Inr None
      | Some row \<Rightarrow>
          bindE (probability_to_decimal (mp_probability row)) (\<lambda>p.
          Inr (Some \<lparr>pq_probability = p, pq_model_version = mp_model_version row,
            pq_feature_version = mp_feature_version row, pq_source = map_prediction_source (mp_source row),
            pq_predicted_at = Some (mp_updated_at row), pq_stale = (t - mp_updated_at row > ttl),
            pq_refreshed = False\<rparr>)))"

fun optimizer_error :: "py_error \<Rightarrow> py_error" where
  "optimizer_error (InferenceError code) = OptimizerError code"
| "optimizer_error e = e"

definition predict_quote :: "predictor \<Rightarrow> CaseContext option \<Rightarrow> string \<Rightarrow> timestamp \<Rightarrow> bool \<Rightarrow> ProbabilityQuote res" where
  "predict_quote predictor ml_context action t refreshed = (case ml_context of
     None \<Rightarrow> Inl (OptimizerError ''MISSING_CASE_CONTEXT'')
   | Some c \<Rightarrow>
       (case predictor c action of
          Inl e \<Rightarrow> Inl (optimizer_error e)
        | Inr scored \<Rightarrow>
            bindE (probability_to_decimal (rp_probability scored)) (\<lambda>p.
            let mapped = map_prediction_source (rp_source scored);
                source = (if mapped \<notin> {''MODEL'', ''MODEL_FALLBACK'', ''OVERRIDE''}
                          then (if rp_source scored = ''ml'' then ''MODEL'' else rp_source scored) else mapped) in
            Inr \<lparr>pq_probability = p, pq_model_version = rp_model_version scored,
                 pq_feature_version = rp_feature_version scored, pq_source = source,
                 pq_predicted_at = Some t, pq_stale = False, pq_refreshed = refreshed\<rparr>)))"

type_synonym overrides = "(string \<rightharpoonup> rat) option"

definition resolve_probability ::
  "Host \<Rightarrow> predictor \<Rightarrow> OptimizerSettings \<Rightarrow> string \<Rightarrow> CaseContext option \<Rightarrow> overrides \<Rightarrow> timestamp \<Rightarrow> bool
   \<Rightarrow> uuid \<Rightarrow> uuid \<Rightarrow> ProbabilityQuote option dbprog" where
  "resolve_probability h predictor settings action ml_context overrides t session merchant_id case_id =
     (case overrides of
        Some ps \<Rightarrow>
          (case ps action of
             None \<Rightarrow> ret None
           | Some p \<Rightarrow>
               bind (lift (probability_to_decimal p)) (\<lambda>p.
               ret (Some \<lparr>pq_probability = p, pq_model_version = ''override'', pq_feature_version = FEATURE_VERSION,
                 pq_source = ''OVERRIDE'', pq_predicted_at = Some t, pq_stale = False, pq_refreshed = False\<rparr>)))
      | None \<Rightarrow>
          bind (gets (\<lambda>s. load_cached s session case_id action t (os_prediction_ttl_minutes settings * 60000000))) (\<lambda>loaded.
          bind (lift loaded) (\<lambda>cached.
            if (case cached of None \<Rightarrow> False | Some q \<Rightarrow> \<not> pq_stale q) then ret cached
            else
              bind (lift (predict_quote predictor ml_context action t
                      (case cached of None \<Rightarrow> False | Some q \<Rightarrow> pq_stale q))) (\<lambda>quote.
              if session
              then seqp (persist_prediction h merchant_id case_id action (pq_probability quote) (pq_model_version quote)
                          (pq_feature_version quote) (if pq_source quote = ''MODEL'' then ''ml'' else pq_source quote))
                        (ret (Some quote))
              else ret (Some quote)))))"

subsection \<open>Candidates\<close>

record OptimizerCaseInput =
  oi_case_id :: uuid
  oi_merchant_id :: uuid
  oi_amount_at_risk :: rat
  oi_amount_recovered :: rat
  oi_currency :: string
  oi_suspicious :: bool
  oi_source_mismatch :: bool
  oi_discount_percent :: "rat option"
  oi_ml_context :: "CaseContext option"

fun unique_legal :: "string list \<Rightarrow> string list \<Rightarrow> string list res" where
  "unique_legal unique [] = Inr unique"
| "unique_legal unique (action # rest) =
     (if action \<in> set unique then unique_legal unique rest
      else if action \<notin> set LEGAL_ACTIONS then Inl (OptimizerError ''INVALID_ACTION'')
      else unique_legal (unique @ [action]) rest)"

definition normalize_candidates :: "string list option \<Rightarrow> string list res" where
  "normalize_candidates candidates = (case candidates of
     None \<Rightarrow> Inr LEGAL_ACTIONS | Some raws \<Rightarrow> unique_legal [] raws)"

definition unconstrained :: PolicyEvaluationResult where
  "unconstrained = \<lparr>pr_allowed = True, pr_requires_approval = False, pr_risk_level = GREEN,
     pr_reason = ''No PolicyContext provided; caller injected an unconstrained ranking'',
     pr_policy_ids = [''optimizer_unconstrained''], pr_policy_version = POLICY_VERSION\<rparr>"

definition only_discount :: "string \<Rightarrow> 'a \<Rightarrow> 'a option" where
  "only_discount action x = (if action = action_value OFFER_DISCOUNT then Some x else None)"

definition evaluate_policy ::
  "string \<Rightarrow> PolicyContext option \<Rightarrow> (string \<rightharpoonup> PolicyEvaluationResult) option \<Rightarrow> rat \<Rightarrow> rat \<Rightarrow> bool
   \<Rightarrow> PolicyEvaluationResult dbprog" where
  "evaluate_policy action policy_context policy_results discount_percent discount_amount session =
     (case Option.bind policy_results (\<lambda>rs. rs action) of
        Some r \<Rightarrow> ret r
      | None \<Rightarrow>
          (case policy_context of
             None \<Rightarrow> ret unconstrained
           | Some ctx \<Rightarrow>
               let proposed = \<lparr>pa_action_type = action, pa_discount_percent = only_discount action discount_percent,
                     pa_discount_amount = only_discount action discount_amount\<rparr> in
               if session then evaluate_and_persist ctx proposed Actor_SYSTEM
               else lift (evaluate_action ctx proposed)))"

definition candidate_from_quote ::
  "string \<Rightarrow> rat \<Rightarrow> ProbabilityQuote option \<Rightarrow> rat \<times> rat \<times> rat \<times> rat \<Rightarrow> PolicyEvaluationResult \<Rightarrow> rat option
   \<Rightarrow> CandidateAction res" where
  "candidate_from_quote action amount quote costs policy discount_percent =
     (let (intervention, concession, communication, risk) = costs;
          missing = \<lparr>cd_action = action, cd_probability = None, cd_amount_at_risk = amount,
            cd_expected_recovery = ZERO, cd_intervention_cost = intervention, cd_discount_cost = concession,
            cd_communication_cost = communication, cd_risk_penalty = risk, cd_expected_value = ZERO,
            cd_allowed = False, cd_requires_approval = False,
            cd_policy_reason = ''Missing candidate probability; excluded from ranking'',
            cd_prediction_source = None, cd_model_version = None, cd_feature_version = None,
            cd_prediction_timestamp = None, cd_stale_prediction = False, cd_missing_probability = True,
            cd_discount_percent = discount_percent, cd_policy_ids = pr_policy_ids policy,
            cd_risk_level = Some (risk_value (pr_risk_level policy))\<rparr> in
      case quote of
        None \<Rightarrow> Inr missing
      | Some q \<Rightarrow>
          bindE (expected_recovered_revenue (pq_probability q) amount) (\<lambda>expected.
          bindE (expected_net_recovery (pq_probability q) amount intervention concession communication risk) (\<lambda>v.
          Inr (missing\<lparr>cd_probability := Some (pq_probability q), cd_expected_recovery := expected,
            cd_expected_value := v, cd_allowed := pr_allowed policy,
            cd_requires_approval := (pr_requires_approval policy \<and> pr_allowed policy),
            cd_policy_reason := pr_reason policy, cd_prediction_source := Some (pq_source q),
            cd_model_version := Some (pq_model_version q), cd_feature_version := Some (pq_feature_version q),
            cd_prediction_timestamp := pq_predicted_at q, cd_stale_prediction := pq_stale q,
            cd_missing_probability := False\<rparr>))))"

definition result_versions :: "CandidateAction list \<Rightarrow> CandidateAction option \<Rightarrow> string \<times> string option \<times> string option" where
  "result_versions candidates selected =
     (let named = (\<lambda>c. case cd_model_version c of None \<Rightarrow> False | Some v \<Rightarrow> v \<noteq> []);
          focus = (case selected of Some c \<Rightarrow> Some c | None \<Rightarrow> find named candidates) in
      case focus of
        None \<Rightarrow> (''unknown'', None, None)
      | Some c \<Rightarrow> (if named c then the (cd_model_version c) else ''unknown'', cd_feature_version c, cd_prediction_source c))"

subsection \<open>Results\<close>

record OptimizationResult =
  or_case_id :: uuid
  or_model_version :: string
  or_optimizer_version :: string
  or_feature_version :: "string option"
  or_candidate_actions :: "CandidateAction list"
  or_selected_action :: "string option"
  or_selected_expected_value :: "rat option"
  or_prediction_source :: "string option"
  or_requires_approval :: bool
  or_decision_id :: "uuid option"

definition candidate_public_dict :: "CandidateAction \<Rightarrow> dict" where
  "candidate_public_dict c =
     [(''action'', JStr (cd_action c)),
      (''probability'', json_opt JDec (cd_probability c)),
      (''amount_at_risk'', JDec (cd_amount_at_risk c)),
      (''expected_recovery'', JDec (cd_expected_recovery c)),
      (''intervention_cost'', JDec (cd_intervention_cost c)),
      (''discount_cost'', JDec (cd_discount_cost c)),
      (''communication_cost'', JDec (cd_communication_cost c)),
      (''risk_penalty'', JDec (cd_risk_penalty c)),
      (''expected_value'', JDec (cd_expected_value c)),
      (''allowed'', JBool (cd_allowed c)),
      (''requires_approval'', JBool (cd_requires_approval c)),
      (''policy_reason'', JStr (cd_policy_reason c)),
      (''prediction_source'', json_opt JStr (cd_prediction_source c)),
      (''model_version'', json_opt JStr (cd_model_version c)),
      (''feature_version'', json_opt JStr (cd_feature_version c)),
      (''prediction_timestamp'', json_opt JTime (cd_prediction_timestamp c)),
      (''stale_prediction'', JBool (cd_stale_prediction c)),
      (''missing_probability'', JBool (cd_missing_probability c)),
      (''discount_percent'', json_opt JDec (cd_discount_percent c)),
      (''policy_ids'', JList (map JStr (cd_policy_ids c))),
      (''risk_level'', json_opt JStr (cd_risk_level c))]"

definition policy_verdict :: "OptimizationResult \<Rightarrow> string" where
  "policy_verdict r = (case or_selected_action r of
     None \<Rightarrow> ''NONE''
   | Some a \<Rightarrow>
       (case find (\<lambda>c. cd_action c = a) (or_candidate_actions r) of
          None \<Rightarrow> ''NONE''
        | Some c \<Rightarrow> if \<not> cd_allowed c then ''DENY''
            else if cd_requires_approval c then ''APPROVAL_REQUIRED'' else ''ALLOW''))"

definition selected_or_none :: "OptimizationResult \<Rightarrow> string" where
  "selected_or_none r = (case or_selected_action r of None \<Rightarrow> ''NONE'' | Some a \<Rightarrow> if a = [] then ''NONE'' else a)"

definition decision_factors :: "OptimizationResult \<Rightarrow> timestamp \<Rightarrow> dict" where
  "decision_factors r t =
     [(''optimizer_version'', JStr (or_optimizer_version r)),
      (''feature_version'', json_opt JStr (or_feature_version r)),
      (''prediction_source'', json_opt JStr (or_prediction_source r)),
      (''requires_approval'', JBool (or_requires_approval r)),
      (''recorded_at'', JTime t),
      (''expected_vs_actual'', JObj [(''expected_recovery_is_probabilistic'', JBool True),
         (''actual_recovery_owned_by'', JStr ''RecoveryVerificationService'')])]"

definition decision_row :: "OptimizationResult \<Rightarrow> uuid \<Rightarrow> uuid \<Rightarrow> timestamp \<Rightarrow> RecoveryDecision" where
  "decision_row r merchant_id k t =
     \<lparr>rd_id = k, rd_merchant_id = merchant_id, rd_recovery_case_id = or_case_id r, rd_recovery_action_id = None,
      rd_model_version = Some (or_model_version r), rd_decision_version = or_optimizer_version r,
      rd_selected_action = selected_or_none r,
      rd_candidate_actions = [(''optimizer_version'', JStr (or_optimizer_version r)),
        (''actions'', JList (map (\<lambda>c. JObj (candidate_public_dict c)) (or_candidate_actions r)))],
      rd_expected_values = map (\<lambda>c. (cd_action c, JDec (cd_expected_value c))) (or_candidate_actions r),
      rd_selected_expected_value = map_option numeric_18_2 (or_selected_expected_value r),
      rd_policy_verdict = policy_verdict r, rd_decision_factors = decision_factors r t, rd_created_at = t\<rparr>"

definition persist_optimization_decision :: "OptimizationResult \<Rightarrow> uuid \<Rightarrow> uuid dbprog" where
  "persist_optimization_decision r merchant_id =
     bind (insert_decision (decision_row r merchant_id)) (\<lambda>k.
     seqp (record_audit merchant_id Aud_ERV_OPTIMIZATION_RECORDED (Some (or_case_id r)) Actor_SYSTEM
            (or_selected_action r) None None None)
          (ret k))"

record RecoveryOptimizer =
  ro_settings :: OptimizerSettings
  ro_recovery_settings :: RecoverySettings
  ro_predictor :: predictor

definition score_candidate ::
  "Host \<Rightarrow> RecoveryOptimizer \<Rightarrow> OptimizerCaseInput \<Rightarrow> rat \<Rightarrow> rat \<Rightarrow> PolicyContext option
   \<Rightarrow> (string \<rightharpoonup> PolicyEvaluationResult) option \<Rightarrow> overrides \<Rightarrow> timestamp \<Rightarrow> bool \<Rightarrow> bool \<Rightarrow> string
   \<Rightarrow> CandidateAction dbprog" where
  "score_candidate h ro ci amount discount_percent policy_context policy_results probabilities t session persist action =
     bind (resolve_probability h (ro_predictor ro) (ro_settings ro) action (oi_ml_context ci) probabilities t session
             (oi_merchant_id ci) (oi_case_id ci)) (\<lambda>quote.
     bind (lift (costs_for_action action amount (ro_settings ro) (only_discount action discount_percent))) (\<lambda>costs.
     bind (evaluate_policy action policy_context policy_results discount_percent (fst (snd costs))
             (session \<and> persist)) (\<lambda>policy.
     lift (candidate_from_quote action amount quote costs policy (only_discount action discount_percent)))))"

fun score_all :: "(string \<Rightarrow> CandidateAction dbprog) \<Rightarrow> string list \<Rightarrow> CandidateAction list dbprog" where
  "score_all score [] = ret []"
| "score_all score (action # actions) =
     bind (score action) (\<lambda>c. bind (score_all score actions) (\<lambda>cs. ret (c # cs)))"

definition ranked_result ::
  "RecoveryOptimizer \<Rightarrow> OptimizerCaseInput \<Rightarrow> CandidateAction list \<Rightarrow> OptimizationResult res" where
  "ranked_result ro ci scored =
     (let ordered = sort_key cd_action scored;
          display = sort_key (\<lambda>c. - cd_expected_value c) (sort_key cd_action ordered) in
      bindE (select_candidate ordered (ro_settings ro) (oi_suspicious ci) (oi_source_mismatch ci)) (\<lambda>selected.
      let (model, feature, source) = result_versions ordered selected in
      Inr \<lparr>or_case_id = oi_case_id ci, or_model_version = model,
           or_optimizer_version = os_optimizer_version (ro_settings ro), or_feature_version = feature,
           or_candidate_actions = display, or_selected_action = map_option cd_action selected,
           or_selected_expected_value = map_option cd_expected_value selected, or_prediction_source = source,
           or_requires_approval = (case selected of None \<Rightarrow> False | Some c \<Rightarrow> cd_requires_approval c),
           or_decision_id = None\<rparr>))"

definition optimize ::
  "Host \<Rightarrow> RecoveryOptimizer \<Rightarrow> OptimizerCaseInput \<Rightarrow> string list option \<Rightarrow> PolicyContext option
   \<Rightarrow> (string \<rightharpoonup> PolicyEvaluationResult) option \<Rightarrow> overrides \<Rightarrow> bool \<Rightarrow> bool \<Rightarrow> OptimizationResult dbprog" where
  "optimize h ro ci candidates policy_context policy_results probabilities session persist =
     bind now (\<lambda>t.
     bind (lift (as_money (oi_amount_at_risk ci))) (\<lambda>amount.
     bind (lift (normalize_candidates candidates)) (\<lambda>actions.
     let discount_percent = (case oi_discount_percent ci of Some p \<Rightarrow> p
           | None \<Rightarrow> os_default_discount_percent (ro_settings ro)) in
     bind (score_all (score_candidate h ro ci amount discount_percent policy_context policy_results probabilities t
             session persist) actions) (\<lambda>scored.
     bind (lift (ranked_result ro ci scored)) (\<lambda>r.
       if \<not> persist then ret r
       else if \<not> session then raise (OptimizerError ''MISSING_SESSION'')
       else bind (persist_optimization_decision r (oi_merchant_id ci)) (\<lambda>k.
            ret (r\<lparr>or_decision_id := Some k\<rparr>)))))))"

definition case_snapshot :: "RecoveryOptimizer \<Rightarrow> RecoveryCase \<Rightarrow> PolicyContext \<Rightarrow> CaseContext \<Rightarrow> OptimizerCaseInput" where
  "case_snapshot ro c ctx ml =
     \<lparr>oi_case_id = rc_id c, oi_merchant_id = rc_merchant_id c, oi_amount_at_risk = rc_amount_at_risk c,
      oi_amount_recovered = rc_amount_recovered c, oi_currency = rc_currency c,
      oi_suspicious = ctx_suspicious ctx, oi_source_mismatch = ctx_source_mismatch ctx,
      oi_discount_percent = Some (os_default_discount_percent (ro_settings ro)), oi_ml_context = Some ml\<rparr>"

definition optimize_case ::
  "Host \<Rightarrow> RecoveryOptimizer \<Rightarrow> uuid \<Rightarrow> bool \<Rightarrow> overrides \<Rightarrow> string list option \<Rightarrow> OptimizationResult dbprog" where
  "optimize_case h ro i persist probabilities candidates =
     bind (gets (\<lambda>s. get_case_unscoped s i)) (\<lambda>found.
       case found of
         None \<Rightarrow> raise (OptimizerError ''RECOVERY_CASE_NOT_FOUND'')
       | Some c \<Rightarrow>
           bind (build_policy_context (rc_id c) (ro_recovery_settings ro)) (\<lambda>ctx.
           bind (gets (\<lambda>s. Option.bind (rc_payment_id c) (get_payment s (rc_merchant_id c)))) (\<lambda>payment.
           bind (gets (\<lambda>s. get_customer s (rc_merchant_id c) (rc_customer_id c))) (\<lambda>customer.
           bind (gets (\<lambda>s. case_context_from_domain s c 1 (Some (rc_customer_id c)) payment
                   (map_option cust_lifetime_value customer))) (\<lambda>built.
           bind (lift built) (\<lambda>ml.
           bind (optimize h ro (case_snapshot ro c ctx ml) candidates (Some ctx) None probabilities True persist) (\<lambda>r.
           bind (read_case i) (\<lambda>after.
             if rc_amount_recovered after \<noteq> rc_amount_recovered c
             then raise (OptimizerError ''OPTIMIZER_MUTATED_RECOVERY'')
             else ret r))))))))"

record BatchOptimizationResult =
  br_optimizer_version :: string
  br_results :: "OptimizationResult list"
  br_case_count :: nat

fun optimize_all :: "Host \<Rightarrow> RecoveryOptimizer \<Rightarrow> (OptimizerCaseInput \<times> overrides) list \<Rightarrow> OptimizationResult list dbprog" where
  "optimize_all h ro [] = ret []"
| "optimize_all h ro ((snapshot, probabilities) # cases) =
     bind (optimize h ro snapshot None None None probabilities False False) (\<lambda>r.
     bind (optimize_all h ro cases) (\<lambda>rs. ret (r # rs)))"

definition optimize_batch ::
  "Host \<Rightarrow> RecoveryOptimizer \<Rightarrow> (OptimizerCaseInput \<times> overrides) list \<Rightarrow> BatchOptimizationResult dbprog" where
  "optimize_batch h ro cases =
     bind (optimize_all h ro cases) (\<lambda>rs.
     ret \<lparr>br_optimizer_version = os_optimizer_version (ro_settings ro), br_results = rs, br_case_count = length rs\<rparr>)"

definition expected_recovery_rate :: "OptimizationResult \<Rightarrow> rat option" where
  "expected_recovery_rate r =
     Option.bind (find (\<lambda>c. Some (cd_action c) = or_selected_action r) (or_candidate_actions r)) cd_probability"


subsection \<open>Ranking leaves the books alone\<close>

text \<open>What a read-only scoring may write: evaluations, predictions and the audit trail.\<close>

locale outside_scoring =
  fixes f :: "db \<Rightarrow> 'a"
  assumes f_audit: "f (s\<lparr>db_audit := a\<rparr>) = f s"
    and f_evaluations: "f (s\<lparr>db_policy_evaluations := pe\<rparr>) = f s"
    and f_predictions: "f (s\<lparr>db_predictions := pr\<rparr>) = f s"
begin

lemma scoring_audit: "obeys (untouched f) (record_audit m ev c a act p n k)"
  by (auto simp: obeys_def untouched_def record_audit_def prog_simps f_audit)

lemmas scoring_rules = untouched.frame_rules untouched_reads scoring_audit

lemma scoring_writes:
  "obeys (untouched f) (persist_prediction h m i a p mv fv src)"
  "obeys (untouched f) (build_policy_context i base)" "obeys (untouched f) (evaluate_and_persist ctx p' actor)"
  unfolding persist_prediction_def upsert_prediction_def build_policy_context_def
    evaluate_and_persist_def persist_policy_evaluation_def
  by (intro scoring_rules untouched_modify f_evaluations f_predictions)+

lemma scoring_candidate: "obeys (untouched f) (score_candidate h ro ci amount d pc pr ps t session persist action)"
  unfolding score_candidate_def resolve_probability_def evaluate_policy_def
  by (intro scoring_rules scoring_writes)

lemma scoring_all:
  "obeys (untouched f) (score_all (score_candidate h ro ci amount d pc pr ps t session persist) actions)"
  by (induction actions) (auto intro!: scoring_rules scoring_candidate)

end

text \<open>A recorded ranking also writes a decision.\<close>

locale outside_ranking = outside_scoring +
  assumes f_uuid: "f (s\<lparr>db_next_uuid := n\<rparr>) = f s"
    and f_decisions: "f (s\<lparr>db_decisions := de\<rparr>) = f s"
begin

lemma ranking_uuid: "obeys (untouched f) uuid4"
  by (simp add: obeys_def untouched_def uuid4_def f_uuid)

lemma ranking_decision: "obeys (untouched f) (insert_decision row)"
  unfolding insert_decision_def by (intro scoring_rules ranking_uuid untouched_modify f_decisions)

lemma ranking_optimize: "obeys (untouched f) (optimize h ro ci cands pc pr ps session persist)"
  unfolding optimize_def persist_optimization_decision_def
  by (intro scoring_rules ranking_decision scoring_all)

lemma ranking_optimize_case: "obeys (untouched f) (optimize_case h ro i persist ps cands)"
  unfolding optimize_case_def by (intro scoring_rules scoring_writes ranking_optimize)

end

interpretation decisions: outside_scoring db_decisions
  by unfold_locales simp_all

definition ledger :: "db \<Rightarrow> (RecoveryCase list \<times> RecoveryAction list \<times> Approval list \<times> IdempotencyKey list)
    \<times> (Payment list \<times> PaymentAttempt list \<times> Notification list \<times> Cart list) \<times> ToolCall list \<times> WebhookEvent list" where
  "ledger s = ((db_cases s, db_actions s, db_approvals s, db_idempotency s), effects s, db_tool_calls s, db_webhooks s)"

interpretation ledger: outside_ranking ledger
  by unfold_locales (simp_all add: ledger_def effects_def)

lemma creditless_insert_decision: "creditless (insert_decision row)"
  unfolding insert_decision_def by (intro creditless_rules creditless_modify) simp_all

lemma creditless_score: "creditless (score_candidate h ro ci amount d pc pr ps t session persist action)"
  unfolding score_candidate_def resolve_probability_def evaluate_policy_def
  by (intro creditless_rules creditless_policy creditless_persist_prediction)

lemma creditless_score_all: "(\<And>a. creditless (score a)) \<Longrightarrow> creditless (score_all score actions)"
  by (induction actions) (auto intro!: creditless_rules)

lemma creditless_optimize: "creditless (optimize h ro ci cands pc pr ps session persist)"
  unfolding optimize_def persist_optimization_decision_def
  by (intro creditless_rules creditless_insert_decision creditless_score_all creditless_score)

lemma creditless_optimize_case: "creditless (optimize_case h ro i persist ps cands)"
  unfolding optimize_case_def by (intro creditless_rules creditless_policy creditless_optimize)

subsection \<open>What is selected\<close>

lemma unique_legal_Inr:
  "unique_legal acc cs = Inr actions \<Longrightarrow> distinct acc \<Longrightarrow> set acc \<subseteq> set LEGAL_ACTIONS \<Longrightarrow>
   distinct actions \<and> set actions = set acc \<union> set cs \<and> set actions \<subseteq> set LEGAL_ACTIONS"
  by (induction acc cs rule: unique_legal.induct) (auto split: if_splits)

lemma legal_actions: "distinct LEGAL_ACTIONS" "set LEGAL_ACTIONS = range action_value"
proof -
  show "distinct LEGAL_ACTIONS" by code_simp
  show "set LEGAL_ACTIONS = range action_value"
    using action_enum.members_complete by (auto simp: LEGAL_ACTIONS_def)
qed

lemma normalize_Inr:
  assumes "normalize_candidates cands = Inr actions"
  shows "distinct actions" "set actions = set (case cands of None \<Rightarrow> LEGAL_ACTIONS | Some cs \<Rightarrow> cs)"
    "set actions \<subseteq> range action_value"
  using assms unique_legal_Inr [of "[]" _ actions] legal_actions
  by (auto simp: normalize_candidates_def split: option.splits)

lemma unique_legal_total:
  "set cs \<subseteq> set LEGAL_ACTIONS \<Longrightarrow> \<exists>actions. unique_legal acc cs = Inr actions"
  by (induction cs arbitrary: acc) auto

lemma candidate_from_quote_Inr:
  assumes "candidate_from_quote action amount quote costs policy d = Inr c"
  shows "cd_action c = action" "cd_allowed c \<Longrightarrow> pr_allowed policy"
    "cd_allowed c \<Longrightarrow> cd_requires_approval c = pr_requires_approval policy"
    "cd_requires_approval c \<Longrightarrow> cd_allowed c"
  using assms by (auto simp: candidate_from_quote_def Let_def bindE_Inr_iff split: prod.splits option.splits)

definition proposal :: "string \<Rightarrow> rat \<Rightarrow> rat \<Rightarrow> ProposedAction" where
  "proposal action percent amount = \<lparr>pa_action_type = action, pa_discount_percent = only_discount action percent,
     pa_discount_amount = only_discount action amount\<rparr>"

lemma evaluate_policy_Inr:
  assumes "evaluate_policy action (Some ctx) None percent amount b s = (Inr ev, t)"
  shows "evaluate_action ctx (proposal action percent amount) = Inr ev"
  using assms by (auto simp: evaluate_policy_def proposal_def Let_def prog_eval dest: evaluate_and_persist_result
      split: if_splits)

text \<open>What a discount of \<open>percent\<close> on the exposure of the case costs.\<close>

definition offered_discount :: "PolicyContext \<Rightarrow> rat \<Rightarrow> rat" where
  "offered_discount ctx percent = quantize (quantize (rc_amount_at_risk (ctx_case ctx)) * percent / 100)"

lemma costs_for_discount:
  assumes "costs_for_action (action_value OFFER_DISCOUNT) (quantize exposure) st (Some percent) = Inr costs"
    and "0 \<le> exposure"
  shows "fst (snd costs) = quantize (quantize exposure * percent / 100)"
proof -
  have ge: "0 \<le> quantize exposure" using quantize_mono [of 0 exposure 2] assms(2) quantize_of_int [of 2 0] by simp
  have "discount_cost (quantize exposure) percent = Inr (fst (snd costs))"
    using assms(1) by (auto simp: costs_for_action_def bindE_Inr_iff)
  moreover have "0 \<le> quantize exposure * percent / 100" if "0 \<le> percent" using that ge by simp
  ultimately show ?thesis
    using ge by (auto simp: discount_cost_def as_money_nonneg split: if_splits)
qed

definition fairly_scored :: "PolicyContext \<Rightarrow> rat \<Rightarrow> string \<Rightarrow> CandidateAction \<Rightarrow> bool" where
  "fairly_scored ctx percent action c \<longleftrightarrow> cd_action c = action \<and> (cd_requires_approval c \<longrightarrow> cd_allowed c)
     \<and> (cd_allowed c \<longrightarrow> (\<exists>ev. evaluate_action ctx (proposal action percent (offered_discount ctx percent)) = Inr ev \<and> pr_allowed ev
          \<and> cd_requires_approval c = pr_requires_approval ev))"

lemma score_candidate_Inr:
  assumes "score_candidate h ro ci (quantize (rc_amount_at_risk (ctx_case ctx))) percent (Some ctx) None ps now' session
      persist action s = (Inr c, t)"
    and risk: "0 \<le> rc_amount_at_risk (ctx_case ctx)"
  shows "fairly_scored ctx percent action c"
proof -
  let ?amount = "quantize (rc_amount_at_risk (ctx_case ctx))"
  from assms(1) obtain quote costs ev u v where ev: "evaluate_policy action (Some ctx) None percent (fst (snd costs))
      (session \<and> persist) u = (Inr ev, v)"
    and costs: "costs_for_action action ?amount (ro_settings ro) (only_discount action percent) = Inr costs"
    and c: "candidate_from_quote action ?amount quote costs ev (only_discount action percent) = Inr c"
    unfolding score_candidate_def by (auto elim!: bind_InrE simp: prog_eval)
  have "proposal action percent (fst (snd costs)) = proposal action percent (offered_discount ctx percent)"
  proof (cases "action = action_value OFFER_DISCOUNT")
    case True
    with costs_for_discount [OF _ risk] costs show ?thesis
      by (simp add: offered_discount_def only_discount_def)
  qed (simp add: proposal_def only_discount_def)
  with candidate_from_quote_Inr [OF c] evaluate_policy_Inr [OF ev] show ?thesis
    unfolding fairly_scored_def by metis
qed

lemma score_all_Inr:
  "score_all score actions s = (Inr cs, t) \<Longrightarrow> (\<And>a s c t. score a s = (Inr c, t) \<Longrightarrow> P a c) \<Longrightarrow> list_all2 P actions cs"
proof (induction actions arbitrary: s cs)
  case Nil
  then show ?case by (simp add: prog_eval)
next
  case (Cons a actions)
  from Cons.prems(1) obtain c u cs' where "score a s = (Inr c, u)" "score_all score actions u = (Inr cs', t)" "cs = c # cs'"
    by (auto elim!: bind_InrE simp: prog_eval)
  with Cons.IH Cons.prems(2) show ?case by auto
qed

lemma max_with_ties_in: "max_with_ties pool st = Inr c \<Longrightarrow> c \<in> set pool"
proof -
  assume "max_with_ties pool st = Inr c"
  then obtain best rest cs where ranked: "sort_key (\<lambda>c. - cd_expected_value c) pool = best # rest"
    and "sort_key tie_key (filter (\<lambda>c. cd_expected_value best - cd_expected_value c \<le> signed_money (os_tie_epsilon st))
        (best # rest)) = c # cs"
    by (auto simp: max_with_ties_def Let_def split: list.splits)
  from sort_key_head_least [OF this(2)] have "c \<in> set (best # rest)" by (auto split: if_splits)
  then show ?thesis unfolding ranked [symmetric] by simp
qed

lemma select_candidate_in:
  assumes "select_candidate cs st suspicious wrong = Inr (Some c)"
  shows "c \<in> set cs" "cd_allowed c"
proof -
  have "c \<in> set (eligible_candidates cs)"
    using assms select_control_cases [of "eligible_candidates cs" "suspicious \<or> wrong"]
    by (auto simp: select_candidate_def Let_def bindE_Inr_iff dest!: max_with_ties_in split: if_splits)
  then show "c \<in> set cs" "cd_allowed c" by (simp_all add: eligible_candidates_def)
qed

lemma ranked_result_Inr:
  assumes "ranked_result ro ci scored = Inr r"
  shows "or_case_id r = oi_case_id ci" "mset (or_candidate_actions r) = mset scored"
    "sorted (map (\<lambda>c. - cd_expected_value c) (or_candidate_actions r))"
    "case or_selected_action r of None \<Rightarrow> \<not> or_requires_approval r
     | Some a \<Rightarrow> \<exists>c \<in> set scored. cd_action c = a \<and> cd_allowed c \<and> or_requires_approval r = cd_requires_approval c"
proof -
  let ?ordered = "sort_key cd_action scored"
  obtain selected where sel: "select_candidate ?ordered (ro_settings ro) (oi_suspicious ci)
        (oi_source_mismatch ci) = Inr selected"
    using assms unfolding ranked_result_def Let_def bindE_Inr_iff by blast
  obtain model feature source where "result_versions ?ordered selected = (model, feature, source)" by (metis prod_cases3)
  with assms sel have r: "or_case_id r = oi_case_id ci"
      "or_candidate_actions r = sort_key (\<lambda>c. - cd_expected_value c) (sort_key cd_action ?ordered)"
      "or_selected_action r = map_option cd_action selected"
      "or_requires_approval r = (case selected of None \<Rightarrow> False | Some c \<Rightarrow> cd_requires_approval c)"
    by (auto simp: ranked_result_def Let_def)
  show "or_case_id r = oi_case_id ci" "mset (or_candidate_actions r) = mset scored" using r by simp_all
  show "sorted (map (\<lambda>c. - cd_expected_value c) (or_candidate_actions r))" unfolding r(2) by (rule sorted_sort_key)
  show "case or_selected_action r of None \<Rightarrow> \<not> or_requires_approval r
     | Some a \<Rightarrow> \<exists>c \<in> set scored. cd_action c = a \<and> cd_allowed c \<and> or_requires_approval r = cd_requires_approval c"
    using r sel select_candidate_in by (cases selected) fastforce+
qed

lemma find_unique:
  assumes "distinct (map g xs)" and "x \<in> set xs"
  shows "find (\<lambda>y. g y = g x) xs = Some x"
  using assms by (induction xs) (auto simp: image_iff)

lemma policy_verdict_selected:
  assumes "distinct (map cd_action (or_candidate_actions r))" and "c \<in> set (or_candidate_actions r)"
    and "or_selected_action r = Some (cd_action c)" and "cd_allowed c"
  shows "policy_verdict r = (if cd_requires_approval c then ''APPROVAL_REQUIRED'' else ''ALLOW'')"
  using find_unique [OF assms(1,2)] assms(3,4) by (simp add: policy_verdict_def)

lemma evaluate_action_meaning:
  assumes "0 \<le> rc_amount_at_risk (ctx_case ctx)" and "pa_action_type p = action_value a"
    and "evaluate_action ctx p = Inr ev" and "pr_allowed ev"
  shows "\<not> policy_forbids ctx a p \<and> (pr_requires_approval ev \<longleftrightarrow> policy_needs_approval ctx a)"
proof -
  obtain h where h: "value_risk ctx a = Inr h" "hit_allowed h = Some True"
    "hit_requires_approval h = Some True \<longleftrightarrow> policy_needs_approval ctx a"
    using value_risk_meaning [OF assms(1), of a] by blast
  obtain hs where hs: "restriction_rules ctx a p (ctx_settings ctx) = Inr hs"
    "hits_deny hs \<longleftrightarrow> policy_forbids ctx a p" "\<not> hits_approve hs"
    using restriction_rules_meaning [OF assms(1), of a p] by blast
  have "ev = combine_hits (ctx_settings ctx) (h # hs)"
    using assms(3) by (simp add: evaluate_action_def assms(2) h hs)
  then show ?thesis using assms(4) h hs by (auto simp: combine_hits_fields)
qed

text \<open>The meaning of a result: what is selected is permitted, and whether a person must approve it.\<close>

definition lawful_choice :: "PolicyContext \<Rightarrow> rat \<Rightarrow> string list \<Rightarrow> OptimizationResult \<Rightarrow> bool" where
  "lawful_choice ctx percent actions r = (case or_selected_action r of
     None \<Rightarrow> \<not> or_requires_approval r
   | Some v \<Rightarrow> v \<in> set actions \<and> (\<exists>a. v = action_value a
       \<and> \<not> policy_forbids ctx a (proposal v percent (offered_discount ctx percent))
       \<and> (or_requires_approval r \<longleftrightarrow> policy_needs_approval ctx a)))"

definition verdict_of :: "OptimizationResult \<Rightarrow> string" where
  "verdict_of r = (if or_selected_action r = None then ''NONE''
     else if or_requires_approval r then ''APPROVAL_REQUIRED'' else ''ALLOW'')"

lemma decision_id_irrelevant:
  "lawful_choice ctx p xs (r\<lparr>or_decision_id := k\<rparr>) = lawful_choice ctx p xs r"
  "verdict_of (r\<lparr>or_decision_id := k\<rparr>) = verdict_of r"
  "selected_or_none (r\<lparr>or_decision_id := k\<rparr>) = selected_or_none r"
  by (cases "or_selected_action r"; simp add: lawful_choice_def verdict_of_def selected_or_none_def)+

lemma scored_lawful:
  assumes scored: "list_all2 (fairly_scored ctx percent) actions scored"
    and r: "ranked_result ro ci scored = Inr r"
    and risk: "0 \<le> rc_amount_at_risk (ctx_case ctx)" and legal: "set actions \<subseteq> range action_value" "distinct actions"
  shows "lawful_choice ctx percent actions r \<and> policy_verdict r = verdict_of r
    \<and> set (map cd_action (or_candidate_actions r)) = set actions"
proof -
  have names: "map cd_action scored = actions"
    using scored by (induction rule: list_all2_induct) (auto simp: fairly_scored_def)
  note rr = ranked_result_Inr [OF r]
  have set_r: "set (or_candidate_actions r) = set scored" using rr(2) by (metis set_mset_mset)
  have dist: "distinct (map cd_action (or_candidate_actions r))"
    using legal(2) names rr(2) by (metis mset_map mset_eq_imp_distinct_iff)
  have "lawful_choice ctx percent actions r \<and> policy_verdict r = verdict_of r"
  proof (cases "or_selected_action r")
    case None
    then show ?thesis using rr(4) by (simp add: lawful_choice_def policy_verdict_def verdict_of_def)
  next
    case (Some v)
    with rr(4) obtain c where c: "c \<in> set scored" "cd_action c = v" "cd_allowed c"
        "or_requires_approval r = cd_requires_approval c"
      by auto
    from c(1) scored obtain ev where ev: "evaluate_action ctx (proposal v percent (offered_discount ctx percent)) = Inr ev"
        "pr_allowed ev"
        "cd_requires_approval c = pr_requires_approval ev"
      using c(2,3) by (auto simp: in_set_conv_nth list_all2_conv_all_nth fairly_scored_def)
    have v: "v \<in> set actions" using c(1,2) names by auto
    then obtain a where a: "v = action_value a" using legal by auto
    with evaluate_action_meaning [OF risk _ ev(1,2), of a]
    have "\<not> policy_forbids ctx a (proposal v percent (offered_discount ctx percent)) \<and> (pr_requires_approval ev \<longleftrightarrow> policy_needs_approval ctx a)"
      by (simp add: proposal_def)
    then show ?thesis
      using Some v a c ev(3) policy_verdict_selected [OF dist, of c] set_r
      by (auto simp: lawful_choice_def verdict_of_def)
  qed
  moreover have "set (map cd_action (or_candidate_actions r)) = set actions" using names set_r by auto
  ultimately show ?thesis by blast
qed

subsection \<open>A decision is always reached\<close>

text \<open>The check constraint of the table of predictions.\<close>

definition predictions_ok :: "db \<Rightarrow> bool" where
  "predictions_ok s \<longleftrightarrow> (\<forall>p \<in> set (db_predictions s). 0 \<le> mp_probability p \<and> mp_probability p \<le> 1)"

definition sound_settings :: "OptimizerSettings \<Rightarrow> bool" where
  "sound_settings st \<longleftrightarrow> 0 \<le> os_tie_epsilon st \<and> 0 \<le> os_default_discount_percent st
     \<and> list_all (\<lambda>a. 0 \<le> ca_intervention_cost (os_costs st a) \<and> 0 \<le> ca_communication_cost (os_costs st a)
          \<and> 0 \<le> ca_risk_penalty (os_costs st a)) all_actions"

lemma quantize_unit: "0 \<le> p \<Longrightarrow> p \<le> 1 \<Longrightarrow> 0 \<le> quantize_digits k p \<and> quantize_digits k p \<le> 1"
  using quantize_mono [of 0 p k] quantize_mono [of p 1 k] quantize_of_int [of k 0] quantize_of_int [of k 1] by simp

lemma latest_prediction_in: "get_latest_for_action s i a = Some p \<Longrightarrow> p \<in> set (db_predictions s)"
proof -
  have "fold later_prediction ps q \<in> insert q (set ps)" for ps q
    by (induction ps arbitrary: q) (auto simp: later_prediction_def split: if_splits)
  then show "get_latest_for_action s i a = Some p \<Longrightarrow> p \<in> set (db_predictions s)"
    by (fastforce simp: get_latest_for_action_def filter_eq_Cons_iff split: list.splits dest: filter_eq_ConsD)
qed

lemma persist_prediction_run:
  assumes "predictions_ok s" "0 \<le> p" "p \<le> 1"
  obtains fp t where "persist_prediction h m i a p mv fv src s = (Inr fp, t)" "predictions_ok t"
proof -
  let ?fp = "prediction_fingerprint h m i a mv fv"
  note q = quantize_unit [OF assms(2,3), of 6]
  have "\<exists>fp t. persist_prediction h m i a p mv fv src s = (Inr fp, t) \<and> predictions_ok t"
    using assms q by (cases "get_by_fingerprint s ?fp")
      (auto simp: persist_prediction_def upsert_prediction_def now_def prog_simps predictions_ok_def update_row_def Let_def)
  then show ?thesis using that by blast
qed

lemma resolve_run:
  assumes "predictions_ok s"
    and scored: "predictor c action = Inr rp" "0 \<le> rp_probability rp" "rp_probability rp \<le> 1"
  obtains q t where "resolve_probability h predictor st action (Some c) None now' True m i s = (Inr (Some q), t)"
    "0 \<le> pq_probability q" "pq_probability q \<le> 1" "predictions_ok t"
proof -
  have p: "probability_to_decimal (rp_probability rp) = Inr (rp_probability rp)"
    using scored by (simp add: probability_to_decimal_def)
  have pred: "\<exists>q. predict_quote predictor (Some c) action now' b = Inr q \<and> 0 \<le> pq_probability q \<and> pq_probability q \<le> 1" for b
    using scored p by (simp add: predict_quote_def Let_def)
  obtain cached where cached: "load_cached s True i action now' (os_prediction_ttl_minutes st * 60000000) = Inr cached"
      "\<And>q. cached = Some q \<Longrightarrow> 0 \<le> pq_probability q \<and> pq_probability q \<le> 1"
  proof (cases "get_latest_for_action s i action")
    case None
    then show ?thesis by (intro that [of None]) (simp_all add: load_cached_def)
  next
    case (Some row)
    with assms(1) latest_prediction_in have "0 \<le> mp_probability row \<and> mp_probability row \<le> 1"
      by (auto simp: predictions_ok_def)
    with Some show ?thesis by (intro that [OF _]) (auto simp: load_cached_def probability_to_decimal_def)
  qed
  show ?thesis
  proof (cases "case cached of None \<Rightarrow> False | Some q \<Rightarrow> \<not> pq_stale q")
    case True
    then obtain q where "cached = Some q" by (cases cached) simp_all
    with True cached assms(1) show ?thesis
      by (intro that [of q s]) (simp_all add: resolve_probability_def prog_simps)
  next
    case False
    obtain q where q: "predict_quote predictor (Some c) action now' (case cached of None \<Rightarrow> False | Some q \<Rightarrow> pq_stale q) = Inr q"
        "0 \<le> pq_probability q" "pq_probability q \<le> 1"
      using pred by blast
    obtain fp t where "persist_prediction h m i action (pq_probability q) (pq_model_version q) (pq_feature_version q)
        (if pq_source q = ''MODEL'' then ''ml'' else pq_source q) s = (Inr fp, t)" "predictions_ok t"
      using persist_prediction_run [OF assms(1) q(2,3)] by blast
    with False cached q show ?thesis
      by (intro that [of q t]) (simp_all add: resolve_probability_def prog_simps)
  qed
qed

lemma costs_total:
  assumes "sound_settings st" "0 \<le> amount" "0 \<le> percent"
  obtains i d c r where "costs_for_action (action_value a) amount st (only_discount (action_value a) percent) = Inr (i, d, c, r)"
    "0 \<le> i" "0 \<le> d" "0 \<le> c" "0 \<le> r"
proof -
  have pos: "0 \<le> ca_intervention_cost (os_costs st a)" "0 \<le> ca_communication_cost (os_costs st a)"
      "0 \<le> ca_risk_penalty (os_costs st a)"
    using assms(1) action_enum.members_complete [of a] by (auto simp: sound_settings_def list_all_iff)
  have nn: "0 \<le> v \<Longrightarrow> 0 \<le> quantize v" for v :: rat using quantize_mono [of 0 v 2] by simp
  have a: "parse_enum action_value all_actions (action_value a) = Inr a" by simp
  have costs: "costs_for st (action_value a) = Inr \<lparr>ca_intervention_cost = quantize (ca_intervention_cost (os_costs st a)),
      ca_communication_cost = quantize (ca_communication_cost (os_costs st a)),
      ca_risk_penalty = quantize (ca_risk_penalty (os_costs st a))\<rparr>"
    by (simp add: costs_for_def a Let_def as_money_nonneg pos)
  have "0 \<le> quantize amount * percent / 100" using assms(2,3) nn by simp
  then have disc: "discount_cost amount percent = Inr (quantize (quantize amount * percent / 100))"
    using assms(2,3) by (simp add: discount_cost_def as_money_nonneg)
  show ?thesis
  proof (cases "a = OFFER_DISCOUNT")
    case True
    have "0 \<le> quantize (quantize amount * percent / 100)" by (rule nn) fact
    with True costs disc nn pos show ?thesis
      by (intro that [of "quantize (ca_intervention_cost (os_costs st a))" "quantize (quantize amount * percent / 100)"
          "quantize (ca_communication_cost (os_costs st a))" "quantize (ca_risk_penalty (os_costs st a))"])
        (simp_all add: costs_for_action_def only_discount_def)
  next
    case False
    then have "action_value a \<noteq> action_value OFFER_DISCOUNT" using action_enum.val_inj by blast
    with costs nn pos show ?thesis
      by (intro that [of "quantize (ca_intervention_cost (os_costs st a))" 0
          "quantize (ca_communication_cost (os_costs st a))" "quantize (ca_risk_penalty (os_costs st a))"])
        (simp_all add: costs_for_action_def ZERO_def)
  qed
qed

lemma candidate_total:
  assumes "0 \<le> pq_probability q" "pq_probability q \<le> 1" "0 \<le> amount" "two_decimal amount"
    and "0 \<le> i" "0 \<le> d" "0 \<le> c" "0 \<le> r"
  obtains cd where "candidate_from_quote action amount (Some q) (i, d, c, r) policy percent = Inr cd"
    "cd_probability cd = Some (pq_probability q)" "cd_expected_value cd \<le> amount"
proof -
  let ?p = "pq_probability q"
  let ?v = "quantize (?p * amount) - quantize i - quantize d - quantize c - quantize r"
  have nn: "0 \<le> v \<Longrightarrow> 0 \<le> quantize v" for v :: rat using quantize_mono [of 0 v 2] by simp
  have unit: "probability_to_decimal ?p = Inr ?p" using assms by (simp add: probability_to_decimal_def)
  have le: "?p * amount \<le> 1 * amount" by (rule mult_right_mono [OF assms(2,3)])
  have "0 \<le> ?p * amount" using assms by simp
  then have rev: "expected_recovered_revenue ?p amount = Inr (quantize (?p * amount))"
    using assms by (simp add: expected_recovered_revenue_def unit as_money_exact as_money_nonneg)
  have net: "expected_net_recovery ?p amount i d c r = Inr (quantize ?v)"
    using assms by (simp add: expected_net_recovery_def rev as_money_nonneg signed_money_def)
  have "quantize (?p * amount) \<le> amount" using quantize_mono [OF le, of 2] quantize_two_decimal [OF assms(4)] by simp
  then have "?v \<le> amount" using assms nn [of i] nn [of d] nn [of c] nn [of r] by linarith
  then have "quantize ?v \<le> amount" using quantize_mono [of ?v amount 2] quantize_two_decimal [OF assms(4)] by simp
  then show ?thesis by (intro that) (auto simp: candidate_from_quote_def rev net Let_def)
qed

lemma score_run:
  assumes "predictions_ok s" "sound_settings (ro_settings ro)" "0 \<le> percent" "0 \<le> amount" "two_decimal amount"
    and "0 \<le> rc_amount_at_risk (ctx_case ctx)" "oi_ml_context ci = Some ml"
    and scored: "ro_predictor ro ml (action_value a) = Inr rp" "0 \<le> rp_probability rp" "rp_probability rp \<le> 1"
  obtains cd t where "score_candidate h ro ci amount percent (Some ctx) None None now' True persist (action_value a) s
      = (Inr cd, t)" "predictions_ok t" "\<exists>p. cd_probability cd = Some p \<and> 0 \<le> p \<and> p \<le> 1" "cd_expected_value cd \<le> amount"
proof -
  obtain q t where q: "resolve_probability h (ro_predictor ro) (ro_settings ro) (action_value a) (Some ml) None now' True
      (oi_merchant_id ci) (oi_case_id ci) s = (Inr (Some q), t)" "0 \<le> pq_probability q" "pq_probability q \<le> 1" "predictions_ok t"
    using resolve_run [of s "ro_predictor ro" ml "action_value a" rp, OF assms(1) scored] by blast
  obtain i d c r where costs: "costs_for_action (action_value a) amount (ro_settings ro)
      (only_discount (action_value a) percent) = Inr (i, d, c, r)" and pos: "0 \<le> i" "0 \<le> d" "0 \<le> c" "0 \<le> r"
    using costs_total [OF assms(2,4,3)] by blast
  let ?p = "proposal (action_value a) percent d"
  have "pa_action_type ?p = action_value a" by (simp add: proposal_def)
  from evaluate_action_hits [OF assms(6) this] obtain ev where ev: "evaluate_action ctx ?p = Inr ev" by blast
  obtain u where u: "evaluate_policy (action_value a) (Some ctx) None percent d (True \<and> persist) t = (Inr ev, u)"
      "predictions_ok u"
  proof (cases persist)
    case True
    with ev q(4) show ?thesis
      by (intro that [of "snd (evaluate_policy (action_value a) (Some ctx) None percent d (True \<and> persist) t)"])
         (simp_all add: evaluate_policy_def evaluate_and_persist_eval persist_policy_evaluation_def proposal_def
          predictions_ok_def Let_def prog_simps)
  next
    case False
    with ev q(4) show ?thesis by (intro that [of t]) (simp_all add: evaluate_policy_def proposal_def Let_def prog_simps)
  qed
  obtain cd where cd: "candidate_from_quote (action_value a) amount (Some q) (i, d, c, r) ev
      (only_discount (action_value a) percent) = Inr cd" "cd_probability cd = Some (pq_probability q)"
      "cd_expected_value cd \<le> amount"
    using candidate_total [OF q(2,3) assms(4,5) pos] by blast
  from q costs u cd show ?thesis
    by (intro that [of cd u]) (simp_all add: score_candidate_def assms(7) prog_simps)
qed

lemma score_all_run:
  assumes step: "\<And>s a. I s \<Longrightarrow> a \<in> set actions \<Longrightarrow> \<exists>c t. score a s = (Inr c, t) \<and> I t \<and> P c" and "I s"
  shows "\<exists>cs t. score_all score actions s = (Inr cs, t) \<and> I t \<and> list_all P cs"
  using assms
proof (induction actions arbitrary: s)
  case Nil
  then show ?case by (simp add: prog_eval)
next
  case (Cons a actions)
  obtain c t where c: "score a s = (Inr c, t)" "I t" "P c" using Cons.prems(1) [OF Cons.prems(2), of a] by auto
  obtain cs u where "score_all score actions t = (Inr cs, u)" "I u" "list_all P cs"
    using Cons.IH [OF _ c(2)] Cons.prems(1) by (meson list.set_intros(2))
  with c show ?case by (simp add: prog_simps)
qed

lemma ranked_total:
  assumes "0 \<le> os_tie_epsilon (ro_settings ro)"
  obtains r where "ranked_result ro ci scored = Inr r"
proof -
  obtain selected where "select_candidate (sort_key cd_action scored) (ro_settings ro) (oi_suspicious ci)
      (oi_source_mismatch ci) = Inr selected"
  proof (cases "filter (\<lambda>c. ZERO \<le> cd_expected_value c) (filter is_recovery (eligible_candidates (sort_key cd_action scored)))")
    case Nil
    then have "select_candidate (sort_key cd_action scored) (ro_settings ro) (oi_suspicious ci) (oi_source_mismatch ci)
        = Inr (if eligible_candidates (sort_key cd_action scored) = [] then None
               else select_control (eligible_candidates (sort_key cd_action scored)) (oi_suspicious ci \<or> oi_source_mismatch ci))"
      by (simp add: select_candidate_def Let_def)
    then show ?thesis by (rule that)
  next
    case (Cons x xs)
    then obtain c where "max_with_ties (x # xs) (ro_settings ro) = Inr c"
      using max_with_ties_spec [OF _ assms, of "x # xs"] by blast
    with Cons have "select_candidate (sort_key cd_action scored) (ro_settings ro) (oi_suspicious ci) (oi_source_mismatch ci)
        = Inr (if eligible_candidates (sort_key cd_action scored) = [] then None else Some c)"
      by (auto simp: select_candidate_def Let_def)
    then show ?thesis by (rule that)
  qed
  then have "\<exists>r. ranked_result ro ci scored = Inr r" by (simp add: ranked_result_def Let_def split: prod.split)
  then show ?thesis using that by blast
qed

lemma persist_decision_run:
  obtains t where "persist_optimization_decision r m s = (Inr (db_next_uuid s), t)"
    "db_decisions t = db_decisions s @ [decision_row r m (db_next_uuid s) (db_clock s)]"
    "db_predictions t = db_predictions s"
  by (rule that, simp add: persist_optimization_decision_def insert_decision_def uuid4_def now_def record_audit_def prog_simps)
     simp_all

lemma optimize_run:
  assumes "predictions_ok s" "sound_settings (ro_settings ro)" "oi_discount_percent ci = Some percent" "0 \<le> percent"
    and amount: "0 \<le> oi_amount_at_risk ci" "two_decimal (oi_amount_at_risk ci)"
    and "0 \<le> rc_amount_at_risk (ctx_case ctx)" "oi_ml_context ci = Some ml"
    and scored: "\<And>a. \<exists>rp. ro_predictor ro ml (action_value a) = Inr rp \<and> 0 \<le> rp_probability rp \<and> rp_probability rp \<le> 1"
    and legal: "set (case cands of None \<Rightarrow> [] | Some cs \<Rightarrow> cs) \<subseteq> range action_value"
  obtains r t where "optimize h ro ci cands (Some ctx) None None True persist s = (Inr r, t)" "predictions_ok t"
    "list_all (\<lambda>c. (\<exists>p. cd_probability c = Some p \<and> 0 \<le> p \<and> p \<le> 1) \<and> cd_expected_value c \<le> oi_amount_at_risk ci)
       (or_candidate_actions r)"
    "sorted (map (\<lambda>c. - cd_expected_value c) (or_candidate_actions r))"
proof -
  let ?P = "\<lambda>c. (\<exists>p. cd_probability c = Some p \<and> 0 \<le> p \<and> p \<le> 1) \<and> cd_expected_value c \<le> oi_amount_at_risk ci"
  let ?score = "score_candidate h ro ci (oi_amount_at_risk ci) percent (Some ctx) None None (db_clock s) True persist"
  obtain actions where actions: "normalize_candidates cands = Inr actions"
  proof (cases cands)
    case None
    then show ?thesis by (intro that) (simp add: normalize_candidates_def)
  next
    case (Some cs)
    with legal legal_actions(2) unique_legal_total [of cs "[]"] obtain actions where "unique_legal [] cs = Inr actions" by auto
    with Some show ?thesis by (intro that) (simp add: normalize_candidates_def)
  qed
  have step: "\<exists>c v. ?score a u = (Inr c, v) \<and> predictions_ok v \<and> ?P c" if pu: "predictions_ok u" and au: "a \<in> set actions" for u a
  proof -
    obtain x where x: "a = action_value x" using au normalize_Inr(3) [OF actions] by blast
    obtain rp where "ro_predictor ro ml (action_value x) = Inr rp" "0 \<le> rp_probability rp" "rp_probability rp \<le> 1"
      using scored by blast
    from score_run [OF pu assms(2,4) amount assms(7,8) this] show ?thesis unfolding x by metis
  qed
  obtain cs u where cs: "score_all ?score actions s = (Inr cs, u)" "predictions_ok u" "list_all ?P cs"
    using score_all_run [of predictions_ok actions ?score ?P, OF step assms(1)] by blast
  have "0 \<le> os_tie_epsilon (ro_settings ro)" using assms(2) by (simp add: sound_settings_def)
  from ranked_total [OF this] obtain r where r: "ranked_result ro ci cs = Inr r" by blast
  note rr = ranked_result_Inr [OF r]
  have "set (or_candidate_actions r) = set cs" using rr(2) by (metis set_mset_mset)
  with cs(3) have P: "list_all ?P (or_candidate_actions r)" by (simp add: list_all_iff)
  obtain k t where k: "persist_optimization_decision r (oi_merchant_id ci) u = (Inr k, t)" "db_predictions t = db_predictions u"
    by (rule persist_decision_run)
  have pre: "optimize h ro ci cands (Some ctx) None None True persist s
      = (if \<not> persist then (Inr r, u) else (Inr (r\<lparr>or_decision_id := Some k\<rparr>), t))"
    using cs(1) r k by (simp add: optimize_def now_def prog_simps actions amount as_money_exact assms(3) Let_def)
  have pt: "predictions_ok t" using k(2) cs(2) by (simp add: predictions_ok_def)
  show ?thesis
  proof (cases persist)
    case True
    with pre pt P rr(3) show ?thesis by (intro that [of "r\<lparr>or_decision_id := Some k\<rparr>" t]) simp_all
  next
    case False
    with pre cs(2) P rr(3) show ?thesis by (intro that [of r u]) simp_all
  qed
qed

lemma ledger_case: "ledger t = ledger s \<Longrightarrow> get_case_unscoped t i = get_case_unscoped s i"
  by (simp add: ledger_def get_case_unscoped_def)

lemma optimize_case_run:
  assumes "db_ok s" "get_case_unscoped s i = Some c" "get_merchant s (rc_merchant_id c) = Some m"
    and "merge_merchant (ro_recovery_settings ro) (mer_settings m) = Inr st"
    and "\<forall>k \<in> set (db_customers s). 0 \<le> cust_lifetime_value k" "\<forall>k \<in> set (db_carts s). 0 \<le> cart_total k"
    and "predictions_ok s" "sound_settings (ro_settings ro)"
    and "ro_predictor ro = default_predictor h ml" "\<And>e. ml = Inl e \<Longrightarrow> is_inference_error e"
    and "set (case cands of None \<Rightarrow> [] | Some cs \<Rightarrow> cs) \<subseteq> range action_value"
  obtains r t where "optimize_case h ro i persist None cands s = (Inr r, t)" "predictions_ok t"
    "list_all (\<lambda>x. (\<exists>p. cd_probability x = Some p \<and> 0 \<le> p \<and> p \<le> 1) \<and> cd_expected_value x \<le> rc_amount_at_risk c)
       (or_candidate_actions r)"
    "sorted (map (\<lambda>x. - cd_expected_value x) (or_candidate_actions r))"
proof -
  have i: "rc_id c = i" using get_case_unscoped_id [OF assms(2)] .
  have money: "0 \<le> rc_amount_at_risk c" "two_decimal (rc_amount_at_risk c)"
    using db_ok_case [OF assms(1,2)] by (auto simp: case_ok_def)
  let ?ctx = "policy_context_of s c m st (db_clock s)"
  let ?pay = "Option.bind (rc_payment_id c) (get_payment s (rc_merchant_id c))"
  let ?life = "map_option cust_lifetime_value (get_customer s (rc_merchant_id c) (rc_customer_id c))"
  note ctx = build_policy_context_eval [OF assms(2-4)]
  have "opt_within (\<lambda>v. 0 \<le> v) ?life"
    using assms(5) by (auto simp: opt_within_def get_customer_def find_Some_iff split: option.splits)
  from case_context_total [OF money(1) this assms(6)] obtain cc where
    cc: "case_context_from_domain s c 1 (Some (rc_customer_id c)) ?pay ?life = Inr cc" by blast
  let ?ci = "case_snapshot ro c ?ctx cc"
  have percent: "oi_discount_percent ?ci = Some (os_default_discount_percent (ro_settings ro))"
    "0 \<le> os_default_discount_percent (ro_settings ro)"
    using assms(8) by (simp_all add: case_snapshot_def sound_settings_def)
  have amounts: "oi_amount_at_risk ?ci = rc_amount_at_risk c" "oi_ml_context ?ci = Some cc"
    by (simp_all add: case_snapshot_def)
  have scored: "\<exists>rp. ro_predictor ro cc (action_value a) = Inr rp \<and> 0 \<le> rp_probability rp \<and> rp_probability rp \<le> 1" for a
    unfolding assms(9) default_predictor_def using predict_known [of ml h cc a, OF assms(10)] by blast
  have sound: "0 \<le> oi_amount_at_risk ?ci" "two_decimal (oi_amount_at_risk ?ci)" "0 \<le> rc_amount_at_risk (ctx_case ?ctx)"
    using money amounts(1) by simp_all
  obtain r t where r: "optimize h ro ?ci cands (Some ?ctx) None None True persist s = (Inr r, t)" "predictions_ok t"
    "list_all (\<lambda>x. (\<exists>p. cd_probability x = Some p \<and> 0 \<le> p \<and> p \<le> 1) \<and> cd_expected_value x \<le> oi_amount_at_risk ?ci)
       (or_candidate_actions r)"
    "sorted (map (\<lambda>x. - cd_expected_value x) (or_candidate_actions r))"
    by (rule optimize_run [OF assms(7,8) percent sound amounts(2) scored assms(11)])
  have "ledger t = ledger s"
    using obeysD [OF ledger.ranking_optimize r(1)] by (simp add: untouched_def)
  then have "get_case_unscoped t i = Some c" using ledger_case assms(2) by metis
  then have "optimize_case h ro i persist None cands s = (Inr r, t)"
    using r(1) ctx cc assms(2) i by (simp add: optimize_case_def prog_simps)
  from that [OF this r(2) r(3) [unfolded amounts(1)] r(4)] show ?thesis .
qed

text \<open>
  C28. \<^bold>\<open>The optimizer decides on every case.\<close> In a well-formed database with a readable merchant policy,
  non-negative cost settings and any trained model (or none), ranking a case never fails: every
  candidate is scored with a probability between zero and one, none is valued above the amount at
  risk, the list is in falling order of value, and the stored predictions stay probabilities.
\<close>

theorem optimize_case_total:
  assumes "db_ok s" "get_case_unscoped s i = Some c" "get_merchant s (rc_merchant_id c) = Some m"
    and "merge_merchant (ro_recovery_settings ro) (mer_settings m) = Inr st"
    and "\<forall>k \<in> set (db_customers s). 0 \<le> cust_lifetime_value k" "\<forall>k \<in> set (db_carts s). 0 \<le> cart_total k"
    and "predictions_ok s" "sound_settings (ro_settings ro)"
    and "ro_predictor ro = default_predictor h ml" "\<And>e. ml = Inl e \<Longrightarrow> is_inference_error e"
    and "set (case cands of None \<Rightarrow> [] | Some cs \<Rightarrow> cs) \<subseteq> range action_value"
  shows "\<exists>r t. optimize_case h ro i persist None cands s = (Inr r, t) \<and> predictions_ok t
    \<and> list_all (\<lambda>x. (\<exists>p. cd_probability x = Some p \<and> 0 \<le> p \<and> p \<le> 1) \<and> cd_expected_value x \<le> rc_amount_at_risk c)
        (or_candidate_actions r)
    \<and> sorted (map (\<lambda>x. - cd_expected_value x) (or_candidate_actions r))"
proof -
  obtain r t where "optimize_case h ro i persist None cands s = (Inr r, t)" "predictions_ok t"
    "list_all (\<lambda>x. (\<exists>p. cd_probability x = Some p \<and> 0 \<le> p \<and> p \<le> 1) \<and> cd_expected_value x \<le> rc_amount_at_risk c)
       (or_candidate_actions r)"
    "sorted (map (\<lambda>x. - cd_expected_value x) (or_candidate_actions r))"
    by (rule optimize_case_run [OF assms])
  then show ?thesis by (intro exI conjI)
qed

definition demo_optimizer :: RecoveryOptimizer where
  "demo_optimizer = \<lparr>ro_settings = default_optimizer_settings, ro_recovery_settings = default_settings,
     ro_predictor = default_predictor demo_host (Inl (InferenceError ''MODEL_UNAVAILABLE''))\<rparr>"

lemma demo_optimizer_facts:
  "get_merchant demo_db (rc_merchant_id demo_case) = Some demo_merchant"
  "merge_merchant (ro_recovery_settings demo_optimizer) (mer_settings demo_merchant) = Inr default_settings"
  "\<forall>k \<in> set (db_customers demo_db). 0 \<le> cust_lifetime_value k" "\<forall>k \<in> set (db_carts demo_db). 0 \<le> cart_total k"
  "predictions_ok demo_db" "sound_settings (ro_settings demo_optimizer)"
  "ro_predictor demo_optimizer = default_predictor demo_host (Inl (InferenceError ''MODEL_UNAVAILABLE''))"
  by (simp_all add: demo_optimizer_def demo_defs get_merchant_def find_row_def predictions_ok_def merge_merchant_none sound_settings_def
      default_optimizer_settings_def all_actions_def)

theorem optimize_case_total_witness:
  "\<exists>r t. optimize_case demo_host demo_optimizer 4 True None None demo_db = (Inr r, t) \<and> predictions_ok t"
  using optimize_case_total [OF demo_db_ok demo_db_case demo_optimizer_facts, of None True] by auto

lemma optimize_lawful:
  assumes run: "optimize h ro ci cands (Some ctx) None ps session persist s = (Inr r, t)"
    and risk: "0 \<le> rc_amount_at_risk (ctx_case ctx)" and percent: "oi_discount_percent ci = Some percent"
    and exposure: "oi_amount_at_risk ci = rc_amount_at_risk (ctx_case ctx)"
  shows "lawful_choice ctx percent (case cands of None \<Rightarrow> LEGAL_ACTIONS | Some cs \<Rightarrow> cs) r \<and> or_case_id r = oi_case_id ci
    \<and> set (map cd_action (or_candidate_actions r)) = set (case cands of None \<Rightarrow> LEGAL_ACTIONS | Some cs \<Rightarrow> cs)
    \<and> (if persist then \<exists>d. db_decisions t = db_decisions s @ [d] \<and> rd_recovery_case_id d = oi_case_id ci
         \<and> or_decision_id r = Some (rd_id d) \<and> rd_selected_action d = selected_or_none r
         \<and> rd_policy_verdict d = verdict_of r
       else db_decisions t = db_decisions s)"
proof -
  let ?names = "case cands of None \<Rightarrow> LEGAL_ACTIONS | Some cs \<Rightarrow> cs"
  let ?score = "score_candidate h ro ci (quantize (rc_amount_at_risk (ctx_case ctx))) percent (Some ctx) None ps
      (db_clock s) session persist"
  from run percent obtain actions scored u r0 where
    actions: "normalize_candidates cands = Inr actions" and scored: "score_all ?score actions s = (Inr scored, u)"
    and r0: "ranked_result ro ci scored = Inr r0"
    and rest: "(if \<not> persist then ret r0
       else if \<not> session then raise (OptimizerError ''MISSING_SESSION'')
       else bind (persist_optimization_decision r0 (oi_merchant_id ci)) (\<lambda>k. ret (r0\<lparr>or_decision_id := Some k\<rparr>))) u = (Inr r, t)"
    unfolding optimize_def exposure as_money_nonneg [OF risk] by (auto elim!: bind_InrE simp: prog_eval now_def Let_def)
  note names = normalize_Inr [OF actions]
  have "list_all2 (fairly_scored ctx percent) actions scored"
    by (rule score_all_Inr [OF scored]) (rule score_candidate_Inr [OF _ risk])
  from scored_lawful [OF this r0 risk names(3,1)] names(2)
  have law: "lawful_choice ctx percent ?names r0" "policy_verdict r0 = verdict_of r0"
    "set (map cd_action (or_candidate_actions r0)) = set ?names"
    by (auto simp: lawful_choice_def split: option.splits)
  have kept: "db_decisions u = db_decisions s"
    using obeysD [OF decisions.scoring_all scored] by (simp add: untouched_def)
  note id = ranked_result_Inr(1) [OF r0]
  show ?thesis
  proof (cases persist)
    case True
    obtain v where v: "persist_optimization_decision r0 (oi_merchant_id ci) u = (Inr (db_next_uuid u), v)"
      "db_decisions v = db_decisions u @ [decision_row r0 (oi_merchant_id ci) (db_next_uuid u) (db_clock u)]"
      by (rule persist_decision_run)
    from True rest v(1) have "r = r0\<lparr>or_decision_id := Some (db_next_uuid u)\<rparr>" "t = v"
      by (auto simp: prog_simps split: if_splits)
    with True v(2) kept law id show ?thesis
      by (simp add: decision_row_def decision_id_irrelevant)
  next
    case False
    with rest kept law id show ?thesis by (simp add: prog_eval)
  qed
qed

lemma optimize_case_lawful:
  assumes "db_ok s" and run: "optimize_case h ro i persist ps cands s = (Inr r, t)"
  shows "(\<exists>ctx. build_policy_context i (ro_recovery_settings ro) s = (Inr ctx, s)
      \<and> lawful_choice ctx (os_default_discount_percent (ro_settings ro))
          (case cands of None \<Rightarrow> LEGAL_ACTIONS | Some cs \<Rightarrow> cs) r)
    \<and> (if persist then \<exists>d. db_decisions t = db_decisions s @ [d] \<and> rd_recovery_case_id d = i
         \<and> or_decision_id r = Some (rd_id d) \<and> rd_selected_action d = selected_or_none r
         \<and> rd_policy_verdict d = verdict_of r
       else db_decisions t = db_decisions s)"
proof -
  from run obtain c ctx u ml where c: "get_case_unscoped s i = Some c"
    and ctx: "build_policy_context (rc_id c) (ro_recovery_settings ro) s = (Inr ctx, u)"
    and opt: "optimize h ro (case_snapshot ro c ctx ml) cands (Some ctx) None ps True persist u = (Inr r, t)"
    unfolding optimize_case_def
    by (auto elim!: bind_InrE read_case_InrE simp: prog_eval split: option.splits if_splits)
  note i = get_case_unscoped_id [OF c]
  have u: "u = s" using build_policy_context_pure [OF ctx] .
  have "ctx_case ctx = c" using build_policy_context_case [OF ctx] c i by simp
  then have risk: "0 \<le> rc_amount_at_risk (ctx_case ctx)" using db_ok_case [OF assms(1) c] by (auto simp: case_ok_def)
  have snap: "oi_discount_percent (case_snapshot ro c ctx ml) = Some (os_default_discount_percent (ro_settings ro))"
    "oi_case_id (case_snapshot ro c ctx ml) = i"
    "oi_amount_at_risk (case_snapshot ro c ctx ml) = rc_amount_at_risk (ctx_case ctx)"
    by (simp_all add: case_snapshot_def i \<open>ctx_case ctx = c\<close>)
  from optimize_lawful [OF opt risk snap(1,3)] ctx i u snap(2) show ?thesis by auto
qed

text \<open>
  C14. \<^bold>\<open>The optimizer only decides.\<close> Whatever probabilities it is given and whatever happens, ranking a case
  leaves cases, actions, approvals, keys, payments, attempts, notifications, carts, tool calls and events as
  they are and does not shorten the audit trail. A result selects only an action among the candidates
  that no policy rule forbids on the context of the case built from the database as it is (a discount
  is proposed with the configured percentage and the amount it costs on the exposure of the case), and asks
  for approval exactly when the policy does. With persistence, exactly one decision is added, for this case, naming the selected
  action and this verdict; without it, none.
\<close>

theorem optimize_case_only_decides:
  assumes "db_ok s" and run: "optimize_case h ro i persist ps cands s = (res, t)"
  shows "ledger t = ledger s \<and> prefix (db_audit s) (db_audit t)
    \<and> (case res of Inl _ \<Rightarrow> True | Inr r \<Rightarrow>
         (\<exists>ctx. build_policy_context i (ro_recovery_settings ro) s = (Inr ctx, s)
            \<and> lawful_choice ctx (os_default_discount_percent (ro_settings ro))
                (case cands of None \<Rightarrow> LEGAL_ACTIONS | Some cs \<Rightarrow> cs) r)
         \<and> (if persist then \<exists>d. db_decisions t = db_decisions s @ [d] \<and> rd_recovery_case_id d = i
              \<and> or_decision_id r = Some (rd_id d) \<and> rd_selected_action d = selected_or_none r
              \<and> rd_policy_verdict d = verdict_of r
            else db_decisions t = db_decisions s))"
proof -
  have "ledger t = ledger s" using obeysD [OF ledger.ranking_optimize_case run] by (simp add: untouched_def)
  moreover have "prefix (db_audit s) (db_audit t)"
    using creditlessD(2) [OF creditless_optimize_case run] by (rule db_evolves_audit)
  ultimately show ?thesis using optimize_case_lawful [OF assms(1)] run by (cases res) simp_all
qed

theorem optimize_case_only_decides_witness:
  "\<exists>r t d. optimize_case demo_host demo_optimizer 4 True None None demo_db = (Inr r, t)
     \<and> ledger t = ledger demo_db \<and> db_decisions t = [d] \<and> rd_recovery_case_id d = 4"
proof -
  have "\<exists>r t. optimize_case demo_host demo_optimizer 4 True None None demo_db = (Inr r, t)"
    by (rule optimize_case_run [OF demo_db_ok demo_db_case demo_optimizer_facts, of None True]) auto
  then obtain r t where r: "optimize_case demo_host demo_optimizer 4 True None None demo_db = (Inr r, t)" by blast
  have "db_decisions demo_db = []" by (simp add: demo_db_def)
  with optimize_case_only_decides [OF demo_db_ok r] r show ?thesis by auto
qed

end
