(* ===== verification/Orchestrator.thy ===== *)
theory Orchestrator
  imports Agents
begin

text \<open>
  The bounded run of the agents on a case: \<^verbatim>\<open>agents/orchestrator.py\<close> with the agent runs it records
  (\<^verbatim>\<open>persist.py\<close>), the gateway to the tools (\<^verbatim>\<open>gateway.py\<close>), the service (\<^verbatim>\<open>service.py\<close>) and the analyst
  (\<^verbatim>\<open>analyst.py\<close>). The budget is local to a run and is passed along. The theorems bound a run for every
  language model: its steps and tool calls, what it can select, and that it credits nothing.
\<close>

subsection \<open>Agent runs\<close>

definition get_agent_run :: "db \<Rightarrow> uuid \<Rightarrow> AgentRun option" where
  "get_agent_run s k = find_row ag_id k (db_agent_runs s)"

definition update_agent_run :: "uuid \<Rightarrow> (AgentRun \<Rightarrow> AgentRun) \<Rightarrow> unit dbprog" where
  "update_agent_run k f = modify (\<lambda>s. s\<lparr>db_agent_runs := update_row ag_id k f (db_agent_runs s)\<rparr>)"

definition insert_agent_run :: "(uuid \<Rightarrow> timestamp \<Rightarrow> AgentRun) \<Rightarrow> uuid dbprog" where
  "insert_agent_run row =
     bind uuid4 (\<lambda>k.
     bind now (\<lambda>t.
     seqp (modify (\<lambda>s. s\<lparr>db_agent_runs := db_agent_runs s @ [row k t]\<rparr>)) (ret k)))"

definition start_agent_run :: "uuid \<Rightarrow> uuid option \<Rightarrow> string \<Rightarrow> string \<Rightarrow> dict \<Rightarrow> uuid dbprog" where
  "start_agent_run merchant_id case_id agent_name agent_version input_summary =
     bind (insert_agent_run (\<lambda>k t.
       \<lparr>ag_id = k, ag_merchant_id = merchant_id, ag_recovery_case_id = case_id, ag_agent_name = agent_name,
        ag_agent_version = agent_version, ag_status = Run_RUNNING, ag_input_summary = strip_secrets input_summary,
        ag_output_summary = None, ag_decision_factors = None, ag_error_message = None,
        ag_started_at = t, ag_completed_at = None\<rparr>)) (\<lambda>k.
     seqp (record_audit merchant_id Aud_AGENT_RUN_RECORDED case_id Actor_AGENT (Some agent_name) None None None)
          (ret k))"

definition complete_agent_run ::
  "uuid \<Rightarrow> dict \<Rightarrow> string \<Rightarrow> AgentRunStatus \<Rightarrow> string option \<Rightarrow> unit dbprog" where
  "complete_agent_run k output_summary source status error_message =
     bind now (\<lambda>t.
     bind (deref get_agent_run k) (\<lambda>row.
     seqp (update_agent_run k (\<lambda>r. r\<lparr>ag_status := status, ag_output_summary := Some (strip_secrets output_summary),
             ag_decision_factors := Some [(''source'', JStr source), (''agent_version'', JStr (ag_agent_version row))],
             ag_error_message := error_message, ag_completed_at := Some t\<rparr>))
          (record_audit (ag_merchant_id row) Aud_AGENT_RUN_RECORDED (ag_recovery_case_id row) Actor_AGENT
             (Some (ag_agent_name row)) None None None)))"

subsection \<open>Gateway\<close>

record Orchestrator =
  oc_settings :: AgentSettings
  oc_llm :: LlmClient
  oc_optimizer :: RecoveryOptimizer
  oc_tools :: ToolService

definition gateway_execute ::
  "Host \<Rightarrow> Orchestrator \<Rightarrow> ExecutionBudget \<Rightarrow> uuid \<Rightarrow> string \<Rightarrow> string option \<Rightarrow> dict \<Rightarrow> string \<Rightarrow> uuid \<Rightarrow> bool
   \<Rightarrow> (ToolExecutionResult \<times> ExecutionBudget) dbprog" where
  "gateway_execute h oc budget i tool_name action payload key merchant_id allow_side_effect =
     (if \<not> allow_side_effect \<and> tool_name \<notin> set READ_TOOLS then raise (AgentError ''TOOL_NOT_ALLOWED'')
      else
        bind (lift (add_tool (oc_settings oc) budget tool_name)) (\<lambda>b.
        bind (execute h (oc_tools oc) i
               \<lparr>xr_tool_name = Some tool_name, xr_action = action, xr_payload = payload, xr_idempotency_key = key,
                xr_merchant_id = Some merchant_id, xr_actor_type = Actor_AGENT,
                xr_actor_id = Some ''recovery-orchestrator'', xr_granted_permissions = None,
                xr_existing_action_id = None, xr_approval_id = None, xr_approved_execution = False\<rparr>) (\<lambda>r.
        ret (r, b))))"

subsection \<open>Stages\<close>

definition STAGE_ORDER :: "RecoveryCaseStatus list" where
  "STAGE_ORDER = [Case_DETECTED, Case_TRIAGED, Case_INVESTIGATING, Case_DIAGNOSED, Case_SCORING,
     Case_STRATEGY_SELECTED, Case_POLICY_CHECK]"

definition stage_past :: "RecoveryCaseStatus \<Rightarrow> RecoveryCaseStatus \<Rightarrow> bool" where
  "stage_past current target = (case (index_of current STAGE_ORDER, index_of target STAGE_ORDER) of
     (Some i, Some j) \<Rightarrow> i > j | _ \<Rightarrow> False)"

definition advance :: "uuid \<Rightarrow> RecoveryCaseStatus \<Rightarrow> unit dbprog" where
  "advance i target =
     bind (read_case i) (\<lambda>c.
       let current = rc_status c in
       if current = target \<or> stage_past current target then ret ()
       else if current = Case_POLICY_CHECK then ret ()
       else if current \<in> {Case_AWAITING_APPROVAL, Case_EXECUTING, Case_ACTION_COMPLETED} then ret ()
       else transition_case i target Actor_AGENT None)"

fun stage_version :: "string \<Rightarrow> string" where
  "stage_version name =
     (if name = ''triage'' then TRIAGE_VERSION
      else if name = ''diagnosis'' then DIAGNOSIS_VERSION
      else if name = ''strategy'' then STRATEGY_VERSION
      else if name = ''decision_explainer'' then EXPLAINER_VERSION
      else ORCHESTRATOR_VERSION)"

definition payload_source :: "dict \<Rightarrow> string" where
  "payload_source payload = (case dict_get payload ''source'' of
     JStr v \<Rightarrow> if v = [] then SOURCE_FALLBACK else v | _ \<Rightarrow> SOURCE_FALLBACK)"

definition persist_stage :: "uuid \<Rightarrow> string \<Rightarrow> 'a res \<Rightarrow> ('a \<Rightarrow> dict) \<Rightarrow> 'a dbprog" where
  "persist_stage i name produced dump =
     bind (read_case i) (\<lambda>c.
     bind (start_agent_run (rc_merchant_id c) (Some (rc_id c)) name (stage_version name)
             [(''case_id'', JUuid (rc_id c))]) (\<lambda>k.
     bind (lift produced) (\<lambda>output.
     seqp (complete_agent_run k (dump output) (payload_source (dump output)) Run_COMPLETED None)
          (ret output))))"

definition payload_for_action :: "string \<Rightarrow> OptimizationResult \<Rightarrow> timestamp \<Rightarrow> dict" where
  "payload_for_action action r t =
     (if action = action_value RETRY_LATER then [(''scheduled_for'', JTime (t + HOUR))]
      else if action = action_value OFFER_DISCOUNT
      then [(''discount_percent'', JDec (case Option.bind (find (\<lambda>c. cd_action c = action) (or_candidate_actions r)) cd_discount_percent of
              None \<Rightarrow> 5 | Some p \<Rightarrow> if p = 0 then 5 else p))]
      else if action = action_value SEND_REMINDER
      then [(''channel'', JStr ''EMAIL''), (''subject'', JStr ''Payment reminder'')]
      else if action = action_value ESCALATE then [(''reason'', JStr ''Orchestrator selected ESCALATE'')]
      else if action = action_value DO_NOTHING then [(''reason'', JStr ''Orchestrator selected DO_NOTHING'')]
      else [])"

definition execute_selected ::
  "Host \<Rightarrow> Orchestrator \<Rightarrow> ExecutionBudget \<Rightarrow> uuid \<Rightarrow> OptimizationResult \<Rightarrow> uuid
   \<Rightarrow> (ToolExecutionResult \<times> ExecutionBudget) dbprog" where
  "execute_selected h oc budget i r run_id =
     (case or_selected_action r of
        None \<Rightarrow> raise (AgentError ''NO_SELECTED_ACTION'')
      | Some action \<Rightarrow>
          (case parse_action action of
             None \<Rightarrow> raise (AgentError ''UNKNOWN_TOOL'')
           | Some parsed \<Rightarrow>
               bind now (\<lambda>t.
               bind (read_case i) (\<lambda>c.
               gateway_execute h oc budget (rc_id c) (tool_for_action parsed) (Some action)
                 (payload_for_action action r t) (''agent:'' @ str_uuid run_id @ '':'' @ action) (rc_merchant_id c) True))))"

record OrchestrationResult =
  orc_case_id :: uuid
  orc_merchant_id :: uuid
  orc_case_status :: RecoveryCaseStatus
  orc_triage :: TriageResult
  orc_diagnosis :: DiagnosisResult
  orc_strategy :: StrategyResult
  orc_selected_action :: "string option"
  orc_selected_expected_value :: "rat option"
  orc_requires_approval :: bool
  orc_explanation :: DecisionExplanation
  orc_execution_status :: "string option"
  orc_approval_id :: "uuid option"
  orc_optimization :: OptimizationResult
  orc_steps_used :: int
  orc_tool_calls_used :: int
  orc_orchestrator_run_id :: uuid
  orc_amount_recovered :: rat
  orc_fallbacks :: "string list"

definition orchestration_dict :: "OrchestrationResult \<Rightarrow> dict" where
  "orchestration_dict r =
     [(''case_id'', JUuid (orc_case_id r)), (''merchant_id'', JUuid (orc_merchant_id r)),
      (''case_status'', JStr (case_status_value (orc_case_status r))),
      (''triage'', JObj (triage_dict (orc_triage r))), (''diagnosis'', JObj (diagnosis_dict (orc_diagnosis r))),
      (''strategy'', JObj (strategy_dict (orc_strategy r))),
      (''selected_action'', json_opt JStr (orc_selected_action r)),
      (''selected_expected_value'', json_opt JDec (orc_selected_expected_value r)),
      (''requires_approval'', JBool (orc_requires_approval r)),
      (''explanation'', JObj (explanation_dict (orc_explanation r))),
      (''execution_status'', json_opt JStr (orc_execution_status r)),
      (''approval_id'', json_opt JUuid (orc_approval_id r)),
      (''optimization'', JObj (optimization_dict (orc_optimization r))), (''verification_explanation'', JNull),
      (''steps_used'', JInt (orc_steps_used r)), (''tool_calls_used'', JInt (orc_tool_calls_used r)),
      (''orchestrator_run_id'', JUuid (orc_orchestrator_run_id r)),
      (''amount_recovered'', JDec (orc_amount_recovered r)), (''fallbacks'', strings (orc_fallbacks r))]"

definition fallback_of :: "string \<Rightarrow> string \<Rightarrow> string list" where
  "fallback_of name source = (if source = SOURCE_FALLBACK then [name] else [])"

text \<open>The reasoning stages up to the ranking, with the stored stage runs and the moves of the case.\<close>

definition reason_about ::
  "Host \<Rightarrow> Orchestrator \<Rightarrow> uuid \<Rightarrow> RecoveryAgentContext
   \<Rightarrow> (TriageResult \<times> DiagnosisResult \<times> StrategyResult \<times> OptimizationResult \<times> ExecutionBudget) dbprog" where
  "reason_about h oc i ctx =
     (let st = oc_settings oc; llm = oc_llm oc in
      bind (lift (add_step st new_budget)) (\<lambda>b1.
      bind (persist_stage i ''triage'' (run_triage h llm st ctx) triage_dict) (\<lambda>triage.
      seqp (advance i Case_TRIAGED)
      (bind (lift (add_step st b1)) (\<lambda>b2.
      bind (persist_stage i ''diagnosis'' (run_diagnosis h llm st ctx) diagnosis_dict) (\<lambda>diagnosis.
      seqp (advance i Case_INVESTIGATING)
      (seqp (advance i Case_DIAGNOSED)
      (bind (lift (add_step st b2)) (\<lambda>b3.
      bind (persist_stage i ''strategy'' (run_strategy h llm st ctx diagnosis) strategy_dict) (\<lambda>strategy.
      bind (lift (add_step st b3)) (\<lambda>b4.
      bind (optimize_case h (oc_optimizer oc) i True None (Some (stg_candidate_actions strategy))) (\<lambda>optimization.
      seqp (advance i Case_SCORING)
      (seqp (advance i Case_STRATEGY_SELECTED)
      (seqp (advance i Case_POLICY_CHECK)
      (ret (triage, diagnosis, strategy, optimization, b4))))))))))))))))"

definition explain_decision ::
  "Host \<Rightarrow> Orchestrator \<Rightarrow> uuid \<Rightarrow> RecoveryAgentContext \<Rightarrow> OptimizationResult \<Rightarrow> DecisionExplanation dbprog" where
  "explain_decision h oc i ctx r =
     bind (lift (run_explainer h (oc_llm oc) (oc_settings oc) ctx r)) (\<lambda>first.
     bind (if exp_selected_action first \<noteq> or_selected_action r
           then lift (run_explainer h (oc_llm oc) (oc_settings oc) ctx r) else ret first) (\<lambda>explanation.
     persist_stage i ''decision_explainer'' (Inr explanation) explanation_dict))"

definition act_on_selection ::
  "Host \<Rightarrow> Orchestrator \<Rightarrow> ExecutionBudget \<Rightarrow> uuid \<Rightarrow> OptimizationResult \<Rightarrow> uuid \<Rightarrow> bool
   \<Rightarrow> (string option \<times> uuid option \<times> ExecutionBudget) dbprog" where
  "act_on_selection h oc b i r run_id execute' =
     (if execute' \<and> (case or_selected_action r of None \<Rightarrow> False | Some a \<Rightarrow> a \<noteq> [])
      then
        bind (lift (add_step (oc_settings oc) b)) (\<lambda>b'.
        bind (execute_selected h oc b' i r run_id) (\<lambda>(result, b'').
        ret (Some (tr_status result), tr_approval_id result, b'')))
      else ret (None, None, b))"

definition conclude_run ::
  "uuid \<Rightarrow> RecoveryCase \<Rightarrow> uuid \<Rightarrow> TriageResult \<Rightarrow> DiagnosisResult \<Rightarrow> StrategyResult \<Rightarrow> OptimizationResult
   \<Rightarrow> DecisionExplanation \<Rightarrow> string option \<Rightarrow> uuid option \<Rightarrow> ExecutionBudget \<Rightarrow> OrchestrationResult dbprog" where
  "conclude_run i before run_id triage diagnosis strategy optimization explanation execution_status approval_id b =
     bind (read_case i) (\<lambda>c.
       if rc_amount_recovered c \<noteq> rc_amount_recovered before then raise (AgentError ''AGENT_MUTATED_RECOVERY'')
       else
         let fallbacks = fallback_of ''triage'' (tri_source triage) @ fallback_of ''diagnosis'' (dia_source diagnosis)
               @ fallback_of ''strategy'' (stg_source strategy) @ fallback_of ''explainer'' (exp_source explanation);
             result = \<lparr>orc_case_id = rc_id c, orc_merchant_id = rc_merchant_id c, orc_case_status = rc_status c,
               orc_triage = triage, orc_diagnosis = diagnosis, orc_strategy = strategy,
               orc_selected_action = or_selected_action optimization,
               orc_selected_expected_value = or_selected_expected_value optimization,
               orc_requires_approval = or_requires_approval optimization, orc_explanation = explanation,
               orc_execution_status = execution_status, orc_approval_id = approval_id,
               orc_optimization = optimization, orc_steps_used = eb_steps b, orc_tool_calls_used = eb_tool_calls b,
               orc_orchestrator_run_id = run_id, orc_amount_recovered = rc_amount_recovered c,
               orc_fallbacks = fallbacks\<rparr> in
         seqp (complete_agent_run run_id (orchestration_dict result)
                 (if fallbacks \<noteq> [] then SOURCE_FALLBACK else ''LLM'') Run_COMPLETED None)
              (ret result))"

definition run_stages ::
  "Host \<Rightarrow> Orchestrator \<Rightarrow> uuid \<Rightarrow> RecoveryCase \<Rightarrow> uuid \<Rightarrow> bool \<Rightarrow> OrchestrationResult dbprog" where
  "run_stages h oc i before run_id execute' =
     bind (build_agent_context h (ts_settings (oc_tools oc)) i) (\<lambda>ctx.
     bind (reason_about h oc i ctx) (\<lambda>(triage, diagnosis, strategy, optimization, b4).
     bind (lift (add_step (oc_settings oc) b4)) (\<lambda>b5.
     bind (explain_decision h oc i ctx optimization) (\<lambda>explanation.
     bind (act_on_selection h oc b5 i optimization run_id execute') (\<lambda>(execution_status, approval_id, b).
     conclude_run i before run_id triage diagnosis strategy optimization explanation execution_status approval_id b)))))"

definition fail_closed :: "uuid \<Rightarrow> unit dbprog" where
  "fail_closed i =
     bind (read_case i) (\<lambda>c.
       if rc_status c = Case_POLICY_CHECK then transition_case i Case_ESCALATED Actor_AGENT None else ret ())"

fun is_agent_error :: "py_error \<Rightarrow> bool" where
  "is_agent_error (AgentError _) = True"
| "is_agent_error (LlmError _) = True"
| "is_agent_error _ = False"

definition LIMIT_CODES :: "string list" where
  "LIMIT_CODES = [''AGENT_STEP_LIMIT'', ''AGENT_TOOL_LIMIT'', ''AGENT_REPEATED_TOOL_LIMIT'']"

definition on_agent_error :: "Orchestrator \<Rightarrow> uuid \<Rightarrow> uuid \<Rightarrow> py_error \<Rightarrow> 'a dbprog" where
  "on_agent_error oc i run_id e =
     (if \<not> is_agent_error e then raise e
      else
        seqp (complete_agent_run run_id [(''error'', JStr (error_code e))] SOURCE_FALLBACK Run_FAILED
                (Some (ts_error_text (oc_tools oc) e)))
        (seqp (if error_code e \<in> set LIMIT_CODES
               then bind (read_case i) (\<lambda>c.
                    seqp (record_audit (rc_merchant_id c) Aud_AGENT_LIMIT_EXCEEDED (Some (rc_id c)) Actor_AGENT
                            None None None None)
                         (fail_closed i))
               else ret ())
        (raise e)))"

definition run_case :: "Host \<Rightarrow> Orchestrator \<Rightarrow> uuid \<Rightarrow> uuid option \<Rightarrow> bool \<Rightarrow> OrchestrationResult dbprog" where
  "run_case h oc case_id merchant_id execute' =
     bind (lock_recovery_case case_id) (\<lambda>i.
     bind (read_case i) (\<lambda>c.
       if merchant_id \<noteq> None \<and> merchant_id \<noteq> Some (rc_merchant_id c) then raise (DomainError ''MERCHANT_MISMATCH'' False)
       else if is_terminal (rc_status c) then raise (AgentError ''CASE_TERMINAL'')
       else
         bind (start_agent_run (rc_merchant_id c) (Some (rc_id c)) ''orchestrator'' ORCHESTRATOR_VERSION
                 [(''execute'', JBool execute')]) (\<lambda>run_id.
         catch (run_stages h oc i c run_id execute') (on_agent_error oc i run_id))))"

subsection \<open>Analyst\<close>

definition most_common :: "'a list \<Rightarrow> 'a option" where
  "most_common xs = (case sort_key (\<lambda>x. - int (count_list xs x)) (remdups xs) of [] \<Rightarrow> None | x # _ \<Rightarrow> Some x)"

definition merchant_aggregates :: "db \<Rightarrow> uuid \<Rightarrow> dict" where
  "merchant_aggregates s merchant_id =
     (let cases = filter (\<lambda>c. rc_merchant_id c = merchant_id) (db_cases s);
          at_risk = sum_list (map rc_amount_at_risk (filter (\<lambda>c. rc_closed_at c = None) cases));
          recovered = sum_list (map rc_amount_recovered cases);
          open_cases = length (filter (\<lambda>c. rc_status c \<noteq> Case_RECOVERED \<and> rc_closed_at c = None) cases);
          failures = map the (filter (\<lambda>f. f \<noteq> None) (map pay_failure_code
            (filter (\<lambda>p. pay_merchant_id p = merchant_id) (db_payments s))));
          actions = map ra_action_type (filter (\<lambda>a. ra_merchant_id a = merchant_id) (db_actions s)) in
      [(''revenue_at_risk'', JDec at_risk), (''revenue_recovered'', JDec recovered),
       (''expected_vs_actual'', JStr ''metrics are ACTUAL recovered vs open at-risk, not ERV''),
       (''open_cases'', JStr (show_int (int open_cases))),
       (''recovery_rate'', if at_risk > ZERO then JDec (quantize_digits 4 (recovered / at_risk)) else JStr ''0''),
       (''top_failure_reason'', JStr (opt_or [] (most_common failures))),
       (''top_intervention'', JStr (case most_common actions of None \<Rightarrow> [] | Some a \<Rightarrow> action_value a))])"

definition ask_analyst :: "Host \<Rightarrow> Orchestrator \<Rightarrow> uuid \<Rightarrow> string \<Rightarrow> AnalystAnswer dbprog" where
  "ask_analyst h oc merchant_id question =
     bind (gets (\<lambda>s. merchant_aggregates s merchant_id)) (\<lambda>metrics.
     lift (answered (try_llm_model (oc_llm oc) (oc_settings oc) ''analyst''
         (render_user_message ''Read-only. Do not execute recovery actions.'' (printed h metrics)
           ''(no customer payload)'' (''Question: '' @ question))
         (\<lambda>payload. validate_answer question metrics
            (dict_set ''metrics'' (JObj metrics) (dict_set ''question'' (JStr question)
              (attach_source ANALYST_VERSION payload)))))
       (Inr (fallback_analyst question metrics))))"

subsection \<open>Agents credit nothing\<close>

lemma creditless_agent_runs:
  "creditless (start_agent_run m c name version input)" "creditless (complete_agent_run k output source status msg)"
  unfolding start_agent_run_def complete_agent_run_def insert_agent_run_def update_agent_run_def
  by (intro creditless_rules creditless_modify; simp)+

lemma creditless_advance: "target \<noteq> Case_RECOVERED \<Longrightarrow> creditless (advance i target)"
  unfolding advance_def by (intro creditless_rules creditless_transition) simp_all

lemma creditless_stage: "creditless (persist_stage i name produced dump)"
  unfolding persist_stage_def by (intro creditless_rules creditless_agent_runs)

lemma creditless_reason_about: "creditless (reason_about h oc i ctx)"
  unfolding reason_about_def
  by (intro creditless_rules creditless_stage creditless_advance creditless_optimize_case) simp_all

lemma creditless_act:
  assumes "safe_race (ts_race (oc_tools oc))"
  shows "creditless (act_on_selection h oc b i r run_id ex)"
  unfolding act_on_selection_def execute_selected_def gateway_execute_def
  by (intro creditless_rules creditless_case_prod creditless_execute assms)

lemma creditless_run_stages:
  assumes "safe_race (ts_race (oc_tools oc))"
  shows "creditless (run_stages h oc i before run_id ex)"
  unfolding run_stages_def explain_decision_def build_agent_context_def conclude_run_def
  by (intro creditless_rules creditless_case_prod creditless_policy creditless_reason_about creditless_stage
      creditless_agent_runs creditless_act assms)

lemma creditless_on_error: "creditless (on_agent_error oc i run_id e)"
  unfolding on_agent_error_def fail_closed_def
  by (intro creditless_rules creditless_agent_runs creditless_transition) simp_all

lemma creditless_run_case:
  "safe_race (ts_race (oc_tools oc)) \<Longrightarrow> creditless (run_case h oc i m ex)"
  unfolding run_case_def
  by (intro creditless_rules creditless_agent_runs creditless_run_stages creditless_on_error)

lemma creditless_ask_analyst: "creditless (ask_analyst h oc m question)"
  unfolding ask_analyst_def by (intro creditless_rules)

subsection \<open>What a run without execution leaves alone\<close>

locale outside_agents = outside_ranking +
  assumes f_moves: "(\<And>c. same_exposure c (g c)) \<Longrightarrow> f (s\<lparr>db_cases := update_row rc_id i g (db_cases s)\<rparr>) = f s"
    and f_agent_runs: "f (s\<lparr>db_agent_runs := ar\<rparr>) = f s"
begin

lemma agents_update_case: "(\<And>c. same_exposure c (u c)) \<Longrightarrow> obeys (untouched f) (update_case i u)"
  by (simp add: obeys_def untouched_def update_case_def prog_simps f_moves)

lemma agents_transition: "obeys (untouched f) (transition_case i target actor v)"
  unfolding transition_case_def by (intro scoring_rules agents_update_case) (simp add: same_exposure_def)

lemma agents_runs:
  "obeys (untouched f) (start_agent_run m c name version input)"
  "obeys (untouched f) (complete_agent_run k output source status msg)"
  unfolding start_agent_run_def complete_agent_run_def insert_agent_run_def update_agent_run_def
  by (intro scoring_rules ranking_uuid untouched_modify f_agent_runs)+

lemma agents_steps:
  "obeys (untouched f) (advance i target)" "obeys (untouched f) (persist_stage i name produced dump)"
  unfolding advance_def persist_stage_def by (intro scoring_rules agents_transition agents_runs)+

lemma agents_reason: "obeys (untouched f) (reason_about h oc i ctx)"
  unfolding reason_about_def by (intro scoring_rules agents_steps ranking_optimize_case)

lemma agents_no_execution: "obeys (untouched f) (run_stages h oc i before run_id False)"
  unfolding run_stages_def explain_decision_def build_agent_context_def act_on_selection_def conclude_run_def
  by (simp only: simp_thms if_False, intro scoring_rules scoring_writes agents_reason agents_steps agents_runs)

lemma agents_run_case: "obeys (untouched f) (run_case h oc i m False)"
  unfolding run_case_def on_agent_error_def fail_closed_def
  by (intro scoring_rules agents_runs agents_no_execution agents_transition)

end

definition doings :: "db \<Rightarrow> (RecoveryAction list \<times> Approval list \<times> IdempotencyKey list)
    \<times> (Payment list \<times> PaymentAttempt list \<times> Notification list \<times> Cart list) \<times> ToolCall list \<times> WebhookEvent list" where
  "doings s = ((db_actions s, db_approvals s, db_idempotency s), effects s, db_tool_calls s, db_webhooks s)"

interpretation doings: outside_agents doings
  by unfold_locales (simp_all add: doings_def effects_def)

text \<open>What a policy check of the case \<open>i\<close> depends on: the parties, the books, the clock and the case itself.\<close>

definition conditions :: "uuid \<Rightarrow> db \<Rightarrow> (Merchant list \<times> Customer list \<times> Payment list \<times> Notification list \<times> RecoveryAction list
    \<times> timestamp) \<times> RecoveryCase option" where
  "conditions i s = ((db_merchants s, db_customers s, db_payments s, db_notifications s, db_actions s, db_clock s),
     map_option (\<lambda>c. c\<lparr>rc_status := Case_DETECTED, rc_version := 0, rc_closed_at := None\<rparr>) (get_case_unscoped s i))"

lemma same_exposure_iff:
  "same_exposure c d \<longleftrightarrow> c\<lparr>rc_status := st, rc_version := v, rc_closed_at := t\<rparr>
     = d\<lparr>rc_status := st, rc_version := v, rc_closed_at := t\<rparr>"
  by (cases c; cases d) (auto simp: same_exposure_def)

interpretation conditions: outside_agents "conditions i" for i
proof unfold_locales
  fix g :: "RecoveryCase \<Rightarrow> RecoveryCase" and s j
  assume g: "\<And>c. same_exposure c (g c)"
  have keys: "rc_id (g c) = rc_id c" for c using same_exposureD(1) [OF g] .
  have "find_row rc_id i (update_row rc_id j g rows)
      = map_option (\<lambda>c. if rc_id c = j then g c else c) (find_row rc_id i rows)" for rows
    by (induction rows) (auto simp: find_row_def update_row_def keys)
  then show "conditions i (s\<lparr>db_cases := update_row rc_id j g (db_cases s)\<rparr>) = conditions i s"
    using g [unfolded same_exposure_iff [where st = Case_DETECTED and v = 0 and t = None]]
    by (simp add: conditions_def get_case_unscoped_def option.map_comp o_def)
      (cases "find_row rc_id i (db_cases s)"; simp)
qed (simp_all add: conditions_def get_case_unscoped_def)

lemma conditionsD:
  assumes "conditions i t = conditions i s" and "get_case_unscoped t i = Some d"
  obtains c where "get_case_unscoped s i = Some c" "same_exposure c d"
    "get_merchant t x = get_merchant s x"
    "policy_context_of t d m st (db_clock t) = (policy_context_of s c m st (db_clock s))\<lparr>ctx_case := d\<rparr>"
proof -
  from assms obtain c where c: "get_case_unscoped s i = Some c"
    and e: "c\<lparr>rc_status := Case_DETECTED, rc_version := 0, rc_closed_at := None\<rparr>
      = d\<lparr>rc_status := Case_DETECTED, rc_version := 0, rc_closed_at := None\<rparr>"
    and same: "db_merchants t = db_merchants s" "db_customers t = db_customers s" "db_payments t = db_payments s"
      "db_notifications t = db_notifications s" "db_actions t = db_actions s" "db_clock t = db_clock s"
    by (cases "get_case_unscoped s i") (auto simp: conditions_def)
  have x: "same_exposure c d" using e unfolding same_exposure_iff [where st = Case_DETECTED and v = 0 and t = None] .
  show thesis
    by (rule that [OF c x])
       (cases "rc_payment_id c"; simp add: policy_context_of_def Let_def retry_count_def communications_last_24h_def
          discount_spent_today_def is_suspicious_def is_source_mismatch_def get_customer_def get_payment_def
          get_merchant_def same same_exposureD [OF x])+
qed

lemma lawful_case_irrelevant:
  assumes "rc_amount_at_risk d = rc_amount_at_risk (ctx_case ctx)"
  shows "lawful_choice (ctx\<lparr>ctx_case := d\<rparr>) p xs r = lawful_choice ctx p xs r"
  by (simp add: lawful_choice_def policy_verdict_case_irrelevant [OF assms] offered_discount_def assms split: option.split)

subsection \<open>Bounds of a run\<close>

lemma creditless_keeps: "creditless m \<Longrightarrow> keeps db_ok m (\<lambda>_. True)"
  by (simp add: creditless_def)

lemma keeps_step:
  "keeps I (lift (add_step st b)) (\<lambda>b'. eb_steps b' = eb_steps b + 1 \<and> eb_steps b' \<le> max_agent_steps st
     \<and> eb_tool_calls b' = eb_tool_calls b)"
  by (rule keeps_lift) (auto simp: add_step_def Let_def split: if_splits)

lemma keeps_stage: "keeps db_ok (persist_stage i name produced dump) (\<lambda>x. produced = Inr x)"
  unfolding persist_stage_def
  by (rule keeps_bind [OF creditless_keeps [OF creditless_basic(7)]],
      rule keeps_bind [OF creditless_keeps [OF creditless_agent_runs(1)]],
      rule keeps_bind [OF keeps_lift [where Q = "\<lambda>x. produced = Inr x"]], assumption,
      rule keeps_seqp [OF creditless_keeps [OF creditless_agent_runs(2)]], rule keeps_ret)

text \<open>The selection was lawful on the context of the case as the database stood before the run.\<close>

definition permitted :: "Orchestrator \<Rightarrow> uuid \<Rightarrow> db \<Rightarrow> string list \<Rightarrow> OptimizationResult \<Rightarrow> bool" where
  "permitted oc i s actions r \<longleftrightarrow> (\<exists>ctx.
     build_policy_context i (ro_recovery_settings (oc_optimizer oc)) s = (Inr ctx, s)
     \<and> lawful_choice ctx (os_default_discount_percent (ro_settings (oc_optimizer oc))) actions r)"

text \<open>The states of the reasoning stages: well-formed, and with nothing changed that a policy check reads.\<close>

definition as_before :: "uuid \<Rightarrow> db \<Rightarrow> db \<Rightarrow> bool" where
  "as_before i s t \<longleftrightarrow> db_ok t \<and> conditions i t = conditions i s"

lemma keeps_as_before:
  assumes "keeps db_ok m Q" and "obeys (untouched (conditions i)) m"
  shows "keeps (as_before i s) m Q"
  using assms unfolding keeps_def as_before_def obeys_def untouched_def by fastforce

lemma permitted_before:
  assumes "as_before i s t" and "permitted oc i t actions r"
  shows "permitted oc i s actions r"
proof -
  let ?base = "ro_recovery_settings (oc_optimizer oc)"
  let ?p = "os_default_discount_percent (ro_settings (oc_optimizer oc))"
  from assms(2) obtain ctx where ctx: "build_policy_context i ?base t = (Inr ctx, t)"
      "lawful_choice ctx ?p actions r"
    by (auto simp: permitted_def)
  then obtain d m st where d: "get_case_unscoped t i = Some d" "get_merchant t (rc_merchant_id d) = Some m"
      "merge_merchant ?base (mer_settings m) = Inr st" "ctx = policy_context_of t d m st (db_clock t)"
    by (auto simp: build_policy_context_def prog_simps split: option.splits prod.splits sum.splits)
  obtain c where c: "get_case_unscoped s i = Some c" "same_exposure c d"
      "get_merchant t (rc_merchant_id d) = get_merchant s (rc_merchant_id d)"
      "policy_context_of t d m st (db_clock t) = (policy_context_of s c m st (db_clock s))\<lparr>ctx_case := d\<rparr>"
    using conditionsD [OF _ d(1)] assms(1) unfolding as_before_def by metis
  let ?ctx = "policy_context_of s c m st (db_clock s)"
  have "build_policy_context i ?base s = (Inr ?ctx, s)"
    using build_policy_context_eval [OF c(1) _ d(3)] d(2) c(3) same_exposureD(2) [OF c(2)] by simp
  moreover have "lawful_choice ?ctx ?p actions r"
    using ctx(2) lawful_case_irrelevant [of d ?ctx] same_exposureD(6) [OF c(2)] unfolding d(4) c(4) by simp
  ultimately show ?thesis unfolding permitted_def by blast
qed

lemma keeps_optimize:
  "keeps (as_before i s) (optimize_case h (oc_optimizer oc) i True None (Some actions)) (permitted oc i s actions)"
proof (rule keepsI)
  fix u res t
  assume u: "as_before i s u" and run: "optimize_case h (oc_optimizer oc) i True None (Some actions) u = (res, t)"
  then have ok: "db_ok u" by (simp add: as_before_def)
  have "permitted oc i s actions r" if "res = Inr r" for r
  proof (rule permitted_before [OF u])
    show "permitted oc i u actions r"
      using optimize_case_lawful [OF ok run [unfolded that]] unfolding permitted_def by auto
  qed
  moreover have "as_before i s t"
    using u creditlessD(1) [OF creditless_optimize_case run ok] obeysD [OF conditions.ranking_optimize_case run]
    by (simp add: as_before_def untouched_def)
  ultimately show "as_before i s t \<and> (\<forall>r. res = Inr r \<longrightarrow> permitted oc i s actions r)" by blast
qed

lemma keeps_advance:
  assumes "target \<noteq> Case_RECOVERED" and "keeps (as_before i s) n Q"
  shows "keeps (as_before i s) (seqp (advance i target) n) Q"
  by (rule keeps_seqp [OF keeps_as_before [OF creditless_keeps [OF creditless_advance [OF assms(1)]]
        conditions.agents_steps(1)] assms(2)])

lemma keeps_reason_about:
  "keeps (as_before i s) (reason_about h oc i ctx) (\<lambda>(triage, diagnosis, strategy, r, b). eb_steps b = 4 \<and> eb_tool_calls b = 0
     \<and> run_strategy h (oc_llm oc) (oc_settings oc) ctx diagnosis = Inr strategy
     \<and> permitted oc i s (stg_candidate_actions strategy) r)"
  unfolding reason_about_def Let_def
  by (intro keeps_bind [OF keeps_step] keeps_bind [OF keeps_as_before [OF keeps_stage conditions.agents_steps(2)]]
        keeps_advance keeps_bind [OF keeps_optimize] keeps_ret)
     (auto simp: new_budget_def)

lemma keeps_explain:
  "keeps db_ok (explain_decision h oc i ctx r) (\<lambda>x. exp_selected_action x = or_selected_action r)"
proof -
  have "keeps db_ok (lift (run_explainer h (oc_llm oc) (oc_settings oc) ctx r)) (\<lambda>x. exp_selected_action x = or_selected_action r)"
    by (rule keeps_lift) (rule explainer_selected)
  then show ?thesis
    unfolding explain_decision_def
    by (rule keeps_bind) (auto intro!: keeps_bind [OF keeps_ret] keeps_weaken [OF keeps_stage])
qed

lemma keeps_act:
  assumes "safe_race (ts_race (oc_tools oc))" and "eb_steps b = 5" "eb_tool_calls b = 0" "5 \<le> max_agent_steps (oc_settings oc)"
  shows "keeps db_ok (act_on_selection h oc b i r run_id ex) (\<lambda>(status, approval, b').
    eb_steps b' \<le> max_agent_steps (oc_settings oc)
    \<and> (if status = None then eb_steps b' = 5 \<and> eb_tool_calls b' = 0
       else ex \<and> eb_steps b' = 6 \<and> eb_tool_calls b' = 1 \<and> 1 \<le> max_tool_calls (oc_settings oc)
         \<and> or_selected_action r \<noteq> None))"
proof (rule keepsI)
  fix s res t
  assume ok: "db_ok s" and run: "act_on_selection h oc b i r run_id ex s = (res, t)"
  have "case x of (status, approval, b') \<Rightarrow> eb_steps b' \<le> max_agent_steps (oc_settings oc)
      \<and> (if status = None then eb_steps b' = 5 \<and> eb_tool_calls b' = 0
         else ex \<and> eb_steps b' = 6 \<and> eb_tool_calls b' = 1 \<and> 1 \<le> max_tool_calls (oc_settings oc)
           \<and> or_selected_action r \<noteq> None)" if "res = Inr x" for x
    using run assms(2-4) unfolding that act_on_selection_def execute_selected_def gateway_execute_def
    by (auto elim!: bind_InrE simp: prog_eval add_step_def add_tool_def Let_def split: if_splits option.splits)
  then show "db_ok t \<and> (\<forall>x. res = Inr x \<longrightarrow> (case x of (status, approval, b') \<Rightarrow> eb_steps b' \<le> max_agent_steps (oc_settings oc)
      \<and> (if status = None then eb_steps b' = 5 \<and> eb_tool_calls b' = 0
         else ex \<and> eb_steps b' = 6 \<and> eb_tool_calls b' = 1 \<and> 1 \<le> max_tool_calls (oc_settings oc)
           \<and> or_selected_action r \<noteq> None)))"
    using creditlessD(1) [OF creditless_act [OF assms(1)] run ok] by blast
qed

text \<open>What every finished run satisfies.\<close>

definition bounded_run :: "Host \<Rightarrow> Orchestrator \<Rightarrow> uuid \<Rightarrow> db \<Rightarrow> bool \<Rightarrow> rat \<Rightarrow> OrchestrationResult \<Rightarrow> bool" where
  "bounded_run h oc i s ex recovered r \<longleftrightarrow>
     orc_steps_used r \<le> max_agent_steps (oc_settings oc)
     \<and> (if orc_execution_status r = None then orc_steps_used r = 5 \<and> orc_tool_calls_used r = 0
        else ex \<and> orc_steps_used r = 6 \<and> orc_tool_calls_used r = 1 \<and> 1 \<le> max_tool_calls (oc_settings oc)
          \<and> orc_selected_action r \<noteq> None)
     \<and> orc_amount_recovered r = recovered
     \<and> exp_selected_action (orc_explanation r) = orc_selected_action r
     \<and> orc_selected_action r = or_selected_action (orc_optimization r)
     \<and> stg_candidate_actions (orc_strategy r) \<noteq> [] \<and> set (stg_candidate_actions (orc_strategy r)) \<subseteq> set LEGAL_ACTIONS
     \<and> permitted oc i s (stg_candidate_actions (orc_strategy r)) (orc_optimization r)"

lemma creditless_agent_context: "creditless (build_agent_context h settings i)"
  unfolding build_agent_context_def by (intro creditless_rules creditless_policy)

lemma keeps_conclude:
  assumes "orc_ok \<equiv> \<lambda>r. orc_strategy r = strategy \<and> orc_optimization r = opt \<and> orc_explanation r = explanation
      \<and> orc_selected_action r = or_selected_action opt \<and> orc_execution_status r = status
      \<and> orc_steps_used r = eb_steps b \<and> orc_tool_calls_used r = eb_tool_calls b
      \<and> orc_amount_recovered r = rc_amount_recovered before"
  shows "keeps db_ok (conclude_run i before run_id triage diagnosis strategy opt explanation status approval b) orc_ok"
  unfolding conclude_run_def Let_def assms
  by (intro keeps_bind [OF creditless_keeps [OF creditless_basic(7)]] keeps_if keeps_raise
      keeps_seqp [OF creditless_keeps [OF creditless_agent_runs(2)]] keeps_ret) simp_all

lemma keeps_finish:
  assumes race: "safe_race (ts_race (oc_tools oc))"
    and r: "eb_steps b4 = 4" "eb_tool_calls b4 = 0" "run_strategy h (oc_llm oc) (oc_settings oc) ctx diagnosis = Inr strategy"
      "permitted oc i s (stg_candidate_actions strategy) r"
  shows "keeps db_ok (bind (lift (add_step (oc_settings oc) b4)) (\<lambda>b5.
      bind (explain_decision h oc i ctx r) (\<lambda>explanation.
      bind (act_on_selection h oc b5 i r run_id ex) (\<lambda>(status, approval, b).
      conclude_run i before run_id triage diagnosis strategy r explanation status approval b))))
    (bounded_run h oc i s ex (rc_amount_recovered before))"
proof (rule keeps_bind [OF keeps_step], rule keeps_bind [OF keeps_explain])
  fix b5 :: ExecutionBudget and explanation :: DecisionExplanation
  assume b5: "eb_steps b5 = eb_steps b4 + 1 \<and> eb_steps b5 \<le> max_agent_steps (oc_settings oc) \<and> eb_tool_calls b5 = eb_tool_calls b4"
    and x: "exp_selected_action explanation = or_selected_action r"
  have budget: "eb_steps b5 = 5" "eb_tool_calls b5 = 0" "5 \<le> max_agent_steps (oc_settings oc)" using b5 r by auto
  have "stg_candidate_actions strategy \<noteq> []" "set (stg_candidate_actions strategy) \<subseteq> set LEGAL_ACTIONS"
    using strategy_legal [OF r(3)] legal_actions(2) by simp_all
  with r(4) x show "keeps db_ok (bind (act_on_selection h oc b5 i r run_id ex) (\<lambda>(status, approval, b).
      conclude_run i before run_id triage diagnosis strategy r explanation status approval b))
      (bounded_run h oc i s ex (rc_amount_recovered before))"
    by (intro keeps_bind [OF keeps_act [OF race budget]])
       (auto intro!: keeps_weaken [OF keeps_conclude [OF reflexive]] simp: bounded_run_def split: if_splits)
qed

lemma run_stages_bounded:
  assumes race: "safe_race (ts_race (oc_tools oc))" and u: "as_before i s u"
    and run: "run_stages h oc i before run_id ex u = (Inr r, t)"
  shows "bounded_run h oc i s ex (rc_amount_recovered before) r"
proof -
  from run [unfolded run_stages_def] obtain ctx v where
    ctx: "build_agent_context h (ts_settings (oc_tools oc)) i u = (Inr ctx, v)"
    and after: "bind (reason_about h oc i ctx) (\<lambda>(triage, diagnosis, strategy, optimization, b4).
      bind (lift (add_step (oc_settings oc) b4)) (\<lambda>b5.
      bind (explain_decision h oc i ctx optimization) (\<lambda>explanation.
      bind (act_on_selection h oc b5 i optimization run_id ex) (\<lambda>(execution_status, approval_id, b).
      conclude_run i before run_id triage diagnosis strategy optimization explanation execution_status approval_id b)))) v
      = (Inr r, t)"
    by (rule bind_InrE)
  from after obtain x w where x: "reason_about h oc i ctx v = (Inr x, w)"
    and rest: "(case x of (triage, diagnosis, strategy, optimization, b4) \<Rightarrow>
      bind (lift (add_step (oc_settings oc) b4)) (\<lambda>b5.
      bind (explain_decision h oc i ctx optimization) (\<lambda>explanation.
      bind (act_on_selection h oc b5 i optimization run_id ex) (\<lambda>(execution_status, approval_id, b).
      conclude_run i before run_id triage diagnosis strategy optimization explanation execution_status approval_id b)))) w
      = (Inr r, t)"
    by (rule bind_InrE)
  have "obeys (untouched (conditions i)) (build_agent_context h (ts_settings (oc_tools oc)) i)"
    unfolding build_agent_context_def by (intro conditions.scoring_rules conditions.scoring_writes)
  then have v: "as_before i s v"
    using keepsD [OF keeps_as_before [OF creditless_keeps [OF creditless_agent_context]] u ctx] by blast
  obtain triage diagnosis strategy opt b4 where [simp]: "x = (triage, diagnosis, strategy, opt, b4)" by (rule prod_cases5)
  have b4: "eb_steps b4 = 4" "eb_tool_calls b4 = 0" "run_strategy h (oc_llm oc) (oc_settings oc) ctx diagnosis = Inr strategy"
      "permitted oc i s (stg_candidate_actions strategy) opt"
    using keeps_result [OF keeps_reason_about v x] by simp_all
  have "db_ok w" using keepsD [OF keeps_reason_about v x] by (simp add: as_before_def)
  with rest show ?thesis using keeps_result [OF keeps_finish [OF race b4]] by simp
qed

subsection \<open>A run without execution completes\<close>

text \<open>\<open>completes P m R\<close>: from a state with \<open>P\<close>, \<open>m\<close> returns without raising and \<open>R\<close> holds of result and state.\<close>

definition completes :: "('s \<Rightarrow> bool) \<Rightarrow> ('s, 'a) prog \<Rightarrow> ('a \<Rightarrow> 's \<Rightarrow> bool) \<Rightarrow> bool" where
  "completes P m R \<longleftrightarrow> (\<forall>s. P s \<longrightarrow> (\<exists>x t. m s = (Inr x, t) \<and> R x t))"

lemma total_bind: "completes P m R \<Longrightarrow> (\<And>x. completes (R x) (f x) Q) \<Longrightarrow> completes P (bind m f) Q"
  unfolding completes_def by (fastforce simp: bind_def)

lemma total_bind_eq: "completes P m (\<lambda>y t. y = x \<and> R t) \<Longrightarrow> completes R (f x) Q \<Longrightarrow> completes P (bind m f) Q"
  unfolding completes_def by (fastforce simp: bind_def)

lemma total_seqp: "completes P m R \<Longrightarrow> (\<And>x. completes (R x) n Q) \<Longrightarrow> completes P (seqp m n) Q"
  unfolding seqp_def by (rule total_bind)

lemma total_lift: "r = Inr x \<Longrightarrow> (\<And>s. P s \<Longrightarrow> R x s) \<Longrightarrow> completes P (lift r) R"
  by (simp add: completes_def prog_eval)

lemma bind_lift_Inr: "bind (lift (Inr x)) f = f x" "bind (ret x) f = f x"
  by (simp_all add: fun_eq_iff prog_simps)

lemma total_ret: "(\<And>s. P s \<Longrightarrow> R x s) \<Longrightarrow> completes P (ret x) R"
  by (simp add: completes_def prog_eval)

lemma total_conseq: "completes P m R \<Longrightarrow> (\<And>s. P' s \<Longrightarrow> P s) \<Longrightarrow> (\<And>x t. R x t \<Longrightarrow> R' x t) \<Longrightarrow> completes P' m R'"
  unfolding completes_def by blast

text \<open>A case of an open stage, in a database where it can be ranked, while the run \<open>k\<close> is recorded.\<close>

definition at_stage :: "Orchestrator \<Rightarrow> uuid \<Rightarrow> RecoveryCase \<Rightarrow> uuid set \<Rightarrow> nat \<Rightarrow> db \<Rightarrow> bool" where
  "at_stage oc i before K n s \<longleftrightarrow>
     db_ok s \<and> predictions_ok s \<and> K \<subseteq> ag_id ` set (db_agent_runs s)
     \<and> (\<forall>k \<in> set (db_customers s). 0 \<le> cust_lifetime_value k) \<and> (\<forall>k \<in> set (db_carts s). 0 \<le> cart_total k)
     \<and> (\<exists>c m st st'. get_case_unscoped s i = Some c \<and> rc_status c = STAGE_ORDER ! n
          \<and> rc_amount_recovered c = rc_amount_recovered before \<and> get_merchant s (rc_merchant_id c) = Some m
          \<and> merge_merchant (ro_recovery_settings (oc_optimizer oc)) (mer_settings m) = Inr st
          \<and> merge_merchant (ts_settings (oc_tools oc)) (mer_settings m) = Inr st')"

lemma at_stage_other:
  assumes "at_stage oc i before K n s" and "db_cases t = db_cases s" "db_payments t = db_payments s"
    "db_predictions t = db_predictions s" "db_customers t = db_customers s" "db_carts t = db_carts s"
    "db_merchants t = db_merchants s" "db_next_uuid s \<le> db_next_uuid t" "K' \<subseteq> ag_id ` set (db_agent_runs t)"
  shows "at_stage oc i before K' n t"
proof -
  have "db_ok t" using assms(1-3,8) by (fastforce simp: at_stage_def db_ok_def)
  with assms show ?thesis by (auto simp: at_stage_def predictions_ok_def get_case_unscoped_def get_merchant_def)
qed

lemma start_total:
  "completes (at_stage oc i before K n) (start_agent_run m c name version input)
     (\<lambda>k. at_stage oc i before (insert k K) n)"
  unfolding completes_def
proof (intro allI impI)
  fix s assume s: "at_stage oc i before K n s"
  let ?k = "db_next_uuid s"
  obtain t where t: "start_agent_run m c name version input s = (Inr ?k, t)" "db_cases t = db_cases s" "db_payments t = db_payments s"
    "db_predictions t = db_predictions s" "db_customers t = db_customers s" "db_carts t = db_carts s"
    "db_merchants t = db_merchants s" "db_next_uuid s \<le> db_next_uuid t"
    "ag_id ` set (db_agent_runs t) = insert ?k (ag_id ` set (db_agent_runs s))"
    by (simp add: start_agent_run_def insert_agent_run_def uuid4_def now_def record_audit_def prog_simps)
  have "insert ?k K \<subseteq> ag_id ` set (db_agent_runs t)" using s t(9) by (auto simp: at_stage_def)
  from at_stage_other [OF s t(2-8) this] t(1)
  show "\<exists>x t. start_agent_run m c name version input s = (Inr x, t) \<and> at_stage oc i before (insert x K) n t" by blast
qed

lemma complete_total:
  assumes "k \<in> K"
  shows "completes (at_stage oc i before K n) (complete_agent_run k output source status msg) (\<lambda>_. at_stage oc i before K n)"
  unfolding completes_def
proof (intro allI impI)
  fix s assume s: "at_stage oc i before K n s"
  obtain row where row: "get_agent_run s k = Some row"
    using s assms find_row_None_iff [of ag_id k "db_agent_runs s"]
    by (cases "get_agent_run s k") (auto simp: at_stage_def get_agent_run_def)
  let ?f = "\<lambda>r. r\<lparr>ag_status := status, ag_output_summary := Some (strip_secrets output),
             ag_decision_factors := Some [(''source'', JStr source), (''agent_version'', JStr (ag_agent_version row))],
             ag_error_message := msg, ag_completed_at := Some (db_clock s)\<rparr>"
  have "map ag_id (update_row ag_id k ?f rows) = map ag_id rows" for rows
    by (simp add: update_row_def)
  then have ids: "ag_id ` set (update_row ag_id k ?f rows) = ag_id ` set rows" for rows
    by (metis set_map)
  obtain t where t: "complete_agent_run k output source status msg s = (Inr (), t)" "db_cases t = db_cases s" "db_payments t = db_payments s"
    "db_predictions t = db_predictions s" "db_customers t = db_customers s" "db_carts t = db_carts s"
    "db_merchants t = db_merchants s" "db_next_uuid s \<le> db_next_uuid t" "ag_id ` set (db_agent_runs t) = ag_id ` set (db_agent_runs s)"
    by (simp add: complete_agent_run_def update_agent_run_def now_def record_audit_def row prog_simps ids)
  have "K \<subseteq> ag_id ` set (db_agent_runs t)" using s t(9) by (auto simp: at_stage_def)
  from at_stage_other [OF s t(2-8) this] t(1)
  show "\<exists>x t. complete_agent_run k output source status msg s = (Inr x, t) \<and> at_stage oc i before K n t" by blast
qed

lemma read_total: "completes (at_stage oc i before K n) (read_case i) (\<lambda>c t. at_stage oc i before K n t
    \<and> rc_amount_recovered c = rc_amount_recovered before)"
  by (auto simp: completes_def at_stage_def prog_simps)

lemma stage_total:
  assumes "produced = Inr x"
  shows "completes (at_stage oc i before K n) (persist_stage i name produced dump) (\<lambda>y t. y = x \<and> at_stage oc i before K n t)"
proof -
  have weaker: "at_stage oc i before (insert k K) n t \<Longrightarrow> at_stage oc i before K n t" for k t by (auto simp: at_stage_def)
  have tail: "completes (at_stage oc i before (insert k K) n) (bind (lift (Inr x)) (\<lambda>y.
      seqp (complete_agent_run k (dump y) (payload_source (dump y)) Run_COMPLETED None) (ret y)))
      (\<lambda>y t. y = x \<and> at_stage oc i before K n t)" for k
    unfolding bind_lift_Inr
    by (rule total_seqp [OF complete_total [of k "insert k K"]], simp, rule total_ret) (auto intro: weaker)
  show ?thesis
    unfolding persist_stage_def assms
    by (rule total_bind [OF total_conseq [OF read_total, where R' = "\<lambda>_. at_stage oc i before K n"]], simp, simp,
        rule total_bind [OF start_total], rule tail)
qed

lemma stage_steps:
  assumes "n < 7" "0 < k" "k < 7" "k \<le> Suc n"
  shows "(STAGE_ORDER ! n = STAGE_ORDER ! k \<or> stage_past (STAGE_ORDER ! n) (STAGE_ORDER ! k)) = (k \<le> n)"
    and "k = Suc n \<Longrightarrow> can_transition (STAGE_ORDER ! n) (STAGE_ORDER ! k) \<and> \<not> is_terminal (STAGE_ORDER ! k)
      \<and> STAGE_ORDER ! n \<notin> {Case_POLICY_CHECK, Case_AWAITING_APPROVAL, Case_EXECUTING, Case_ACTION_COMPLETED}"
proof -
  let ?P = "\<lambda>n k. k \<le> Suc n \<longrightarrow>
      (STAGE_ORDER ! n = STAGE_ORDER ! k \<or> stage_past (STAGE_ORDER ! n) (STAGE_ORDER ! k)) = (k \<le> n)
      \<and> (k = Suc n \<longrightarrow> can_transition (STAGE_ORDER ! n) (STAGE_ORDER ! k) \<and> \<not> is_terminal (STAGE_ORDER ! k)
          \<and> STAGE_ORDER ! n \<notin> {Case_POLICY_CHECK, Case_AWAITING_APPROVAL, Case_EXECUTING, Case_ACTION_COMPLETED})"
  have "list_all (\<lambda>n. list_all (?P n) [1 ..< 7]) [0 ..< 7]" by code_simp
  moreover have "n \<in> set [0 ..< 7]" "k \<in> set [1 ..< 7]" using assms(1-3) by auto
  ultimately have "?P n k" unfolding list_all_iff by blast
  with assms(4) show "(STAGE_ORDER ! n = STAGE_ORDER ! k \<or> stage_past (STAGE_ORDER ! n) (STAGE_ORDER ! k)) = (k \<le> n)"
    and "k = Suc n \<Longrightarrow> can_transition (STAGE_ORDER ! n) (STAGE_ORDER ! k) \<and> \<not> is_terminal (STAGE_ORDER ! k)
      \<and> STAGE_ORDER ! n \<notin> {Case_POLICY_CHECK, Case_AWAITING_APPROVAL, Case_EXECUTING, Case_ACTION_COMPLETED}"
    by blast+
qed

lemma advance_total:
  assumes "n < 7" "0 < k" "k < 7" "k \<le> Suc n" "target = STAGE_ORDER ! k"
  shows "completes (at_stage oc i before K n) (advance i target) (\<lambda>_. at_stage oc i before K (max n k))"
  unfolding completes_def assms(5)
proof (intro allI impI)
  fix s assume s: "at_stage oc i before K n s"
  then obtain c where c: "get_case_unscoped s i = Some c" "rc_status c = STAGE_ORDER ! n" by (auto simp: at_stage_def)
  show "\<exists>x t. advance i (STAGE_ORDER ! k) s = (Inr x, t) \<and> at_stage oc i before K (max n k) t"
  proof (cases "k \<le> n")
    case True
    with s c stage_steps(1) [OF assms(1-4)] show ?thesis by (simp add: advance_def prog_simps max_absorb1)
  next
    case False
    then have k: "k = Suc n" using assms(4) by simp
    note step = stage_steps(2) [OF assms(1-4) k]
    obtain t where t: "transition_case i (STAGE_ORDER ! k) Actor_AGENT None s = (Inr (), t)"
      "get_case_unscoped t i = Some (moved_case (STAGE_ORDER ! k) (db_clock s) c)" "case_frame s t"
      using transition_step [OF c(1), of "STAGE_ORDER ! k"] step c(2) by metis
    have ok: "db_ok t" using keepsD [OF keeps_ok_transition_case _ t(1)] s by (simp add: at_stage_def)
    have same: "db_predictions t = db_predictions s" "db_customers t = db_customers s" "db_carts t = db_carts s"
      "db_merchants t = db_merchants s" "db_agent_runs t = db_agent_runs s"
      using arg_cong [OF t(3) [unfolded case_frame_def], of db_predictions]
        arg_cong [OF t(3) [unfolded case_frame_def], of db_customers] arg_cong [OF t(3) [unfolded case_frame_def], of db_carts]
        arg_cong [OF t(3) [unfolded case_frame_def], of db_merchants] arg_cong [OF t(3) [unfolded case_frame_def], of db_agent_runs]
      by simp_all
    have "advance i (STAGE_ORDER ! k) s = (Inr (), t)"
      using c t(1) step False stage_steps(1) [OF assms(1-4)] by (auto simp: advance_def prog_simps)
    moreover have "at_stage oc i before K (max n k) t"
      using s c ok t(2) same k by (auto simp: at_stage_def predictions_ok_def get_merchant_def moved_case_def max_def)
    ultimately show ?thesis by blast
  qed
qed

interpretation parties: outside_ranking "\<lambda>s. (db_merchants s, db_customers s, db_agent_runs s)"
  by unfold_locales simp_all

lemma optimize_total:
  assumes "sound_settings (ro_settings (oc_optimizer oc))" "ro_predictor (oc_optimizer oc) = default_predictor h ml"
    and "\<And>e. ml = Inl e \<Longrightarrow> is_inference_error e" "set actions \<subseteq> range action_value"
  shows "completes (at_stage oc i before K n) (optimize_case h (oc_optimizer oc) i True None (Some actions))
    (\<lambda>_. at_stage oc i before K n)"
  unfolding completes_def
proof (intro allI impI)
  fix s assume s: "at_stage oc i before K n s"
  then obtain c m st where c: "get_case_unscoped s i = Some c" "get_merchant s (rc_merchant_id c) = Some m"
      "merge_merchant (ro_recovery_settings (oc_optimizer oc)) (mer_settings m) = Inr st"
    by (auto simp: at_stage_def)
  from s have pre: "db_ok s" "\<forall>k \<in> set (db_customers s). 0 \<le> cust_lifetime_value k"
      "\<forall>k \<in> set (db_carts s). 0 \<le> cart_total k" "predictions_ok s" by (auto simp: at_stage_def)
  have acts: "set (case Some actions of None \<Rightarrow> [] | Some cs \<Rightarrow> cs) \<subseteq> range action_value" using assms(4) by simp
  obtain r t where t: "optimize_case h (oc_optimizer oc) i True None (Some actions) s = (Inr r, t)" "predictions_ok t"
    using optimize_case_run [OF pre(1) c pre(2-4) assms(1-3) acts] by metis
  have "ledger t = ledger s" using obeysD [OF ledger.ranking_optimize_case t(1)] by (simp add: untouched_def)
  moreover have "(db_merchants t, db_customers t, db_agent_runs t) = (db_merchants s, db_customers s, db_agent_runs s)"
    using obeysD [OF parties.ranking_optimize_case t(1)] by (simp add: untouched_def)
  moreover have "db_ok t" using creditlessD(1) [OF creditless_optimize_case t(1) pre(1)] .
  ultimately have "at_stage oc i before K n t"
    using s t(2) by (simp add: at_stage_def ledger_def effects_def get_case_unscoped_def get_merchant_def)
  with t(1) show "\<exists>x t. optimize_case h (oc_optimizer oc) i True None (Some actions) s = (Inr x, t) \<and> at_stage oc i before K n t"
    by blast
qed

lemma context_total:
  "completes (at_stage oc i before K n) (build_agent_context h (ts_settings (oc_tools oc)) i)
     (\<lambda>ctx t. at_stage oc i before K n t \<and> (\<exists>u c p. ctx = agent_context_of h u c p))"
  unfolding completes_def
proof (intro allI impI)
  fix s assume s: "at_stage oc i before K n s"
  then obtain c m st where c: "get_case_unscoped s i = Some c" "get_merchant s (rc_merchant_id c) = Some m"
      "merge_merchant (ts_settings (oc_tools oc)) (mer_settings m) = Inr st"
    by (auto simp: at_stage_def)
  from s c(1) build_policy_context_eval [OF c]
  show "\<exists>ctx t. build_agent_context h (ts_settings (oc_tools oc)) i s = (Inr ctx, t)
      \<and> at_stage oc i before K n t \<and> (\<exists>u c p. ctx = agent_context_of h u c p)"
    by (auto simp: build_agent_context_def prog_simps)
qed

lemma step_total:
  assumes "eb_steps b < max_agent_steps st"
  shows "add_step st b = Inr (b\<lparr>eb_steps := eb_steps b + 1\<rparr>)"
  using assms by (simp add: add_step_def Let_def)

text \<open>What a run of the agents needs: budget for five steps, sound optimizer settings, and a civil client.\<close>

definition ready :: "Host \<Rightarrow> Orchestrator \<Rightarrow> bool" where
  "ready h oc \<longleftrightarrow> 5 \<le> max_agent_steps (oc_settings oc) \<and> sound_settings (ro_settings (oc_optimizer oc)) \<and> civil_client (oc_llm oc)
     \<and> (\<exists>ml. ro_predictor (oc_optimizer oc) = default_predictor h ml \<and> (\<forall>e. ml = Inl e \<longrightarrow> is_inference_error e))"

lemma reason_total:
  assumes "ready h oc" "ctx = agent_context_of h u c p" "n < 7"
  shows "completes (at_stage oc i before K n) (reason_about h oc i ctx)
    (\<lambda>(_, _, _, _, b) t. eb_steps b = 4 \<and> at_stage oc i before K 6 t)"
proof -
  let ?st = "oc_settings oc" and ?llm = "oc_llm oc"
  have civil: "civil_client ?llm" and steps: "5 \<le> max_agent_steps ?st" using assms(1) by (simp_all add: ready_def)
  note answer = agents_answer [OF civil assms(2)]
  obtain tri where tri: "run_triage h ?llm ?st ctx = Inr tri" using answer(1) by blast
  obtain dia where dia: "run_diagnosis h ?llm ?st ctx = Inr dia" using answer(2) by blast
  obtain stg where stg: "run_strategy h ?llm ?st ctx dia = Inr stg" using answer(3) by blast
  have legal: "set (stg_candidate_actions stg) \<subseteq> range action_value" using strategy_legal [OF stg] by blast
  obtain ml where ml: "sound_settings (ro_settings (oc_optimizer oc))" "ro_predictor (oc_optimizer oc) = default_predictor h ml"
      "\<And>e. ml = Inl e \<Longrightarrow> is_inference_error e" using assms(1) by (auto simp: ready_def)
  have bs: "add_step ?st new_budget = Inr (new_budget\<lparr>eb_steps := 1\<rparr>)"
    "add_step ?st (new_budget\<lparr>eb_steps := 1\<rparr>) = Inr (new_budget\<lparr>eb_steps := 2\<rparr>)"
    "add_step ?st (new_budget\<lparr>eb_steps := 2\<rparr>) = Inr (new_budget\<lparr>eb_steps := 3\<rparr>)"
    "add_step ?st (new_budget\<lparr>eb_steps := 3\<rparr>) = Inr (new_budget\<lparr>eb_steps := 4\<rparr>)"
    using steps by (simp_all add: step_total new_budget_def)
  let ?at = "\<lambda>k. at_stage oc i before K (max n k)"
  have order: "STAGE_ORDER ! 1 = Case_TRIAGED" "STAGE_ORDER ! 2 = Case_INVESTIGATING" "STAGE_ORDER ! 3 = Case_DIAGNOSED"
    "STAGE_ORDER ! 4 = Case_SCORING" "STAGE_ORDER ! 5 = Case_STRATEGY_SELECTED" "STAGE_ORDER ! 6 = Case_POLICY_CHECK"
    by (simp_all add: STAGE_ORDER_def)
  have adv: "completes (?at k) (advance i (STAGE_ORDER ! j)) (\<lambda>_. ?at j)" if "j = Suc k" "k < 6" for j k
  proof -
    have "max (max n k) j = max n j" using that by simp
    with advance_total [of "max n k" j "STAGE_ORDER ! j" oc i before K] that assms(3) show ?thesis by simp
  qed
  have moves: "completes (?at 0) (advance i Case_TRIAGED) (\<lambda>_. ?at 1)"
    "completes (?at 1) (advance i Case_INVESTIGATING) (\<lambda>_. ?at 2)" "completes (?at 2) (advance i Case_DIAGNOSED) (\<lambda>_. ?at 3)"
    "completes (?at 3) (advance i Case_SCORING) (\<lambda>_. ?at 4)" "completes (?at 4) (advance i Case_STRATEGY_SELECTED) (\<lambda>_. ?at 5)"
    "completes (?at 5) (advance i Case_POLICY_CHECK) (\<lambda>_. ?at 6)"
    using adv [of 1 0] adv [of 2 1] adv [of 3 2] adv [of 4 3] adv [of 5 4] adv [of 6 5] unfolding order by simp_all
  have opt: "completes (?at 3) (optimize_case h (oc_optimizer oc) i True None (Some (stg_candidate_actions stg))) (\<lambda>_. ?at 3)"
    by (rule optimize_total [OF ml legal])
  have "completes (?at 0) (reason_about h oc i ctx) (\<lambda>(_, _, _, _, b) t. eb_steps b = 4 \<and> ?at 6 t)"
    unfolding reason_about_def Let_def tri dia stg bs bind_lift_Inr
    by (rule total_bind_eq [OF stage_total [OF refl]], rule total_seqp [OF moves(1)],
        rule total_bind_eq [OF stage_total [OF refl]], rule total_seqp [OF moves(2)], rule total_seqp [OF moves(3)],
        rule total_bind_eq [OF stage_total [OF stg]],
        rule total_bind [OF opt], rule total_seqp [OF moves(4)], rule total_seqp [OF moves(5)],
        rule total_seqp [OF moves(6)], rule total_ret) (simp add: new_budget_def)
  then show ?thesis using assms(3) by (simp add: max_absorb2)
qed

lemma stages_total:
  assumes "ready h oc" "n < 7" "run_id \<in> K"
  shows "completes (at_stage oc i before K n) (run_stages h oc i before run_id False) (\<lambda>_. at_stage oc i before K 6)"
proof -
  let ?st = "oc_settings oc"
  have civil: "civil_client (oc_llm oc)" and steps: "5 \<le> max_agent_steps ?st" using assms(1) by (simp_all add: ready_def)
  have act: "act_on_selection h oc b i r run_id False = ret (None, None, b)" for b r by (simp add: act_on_selection_def)
  have conclude: "completes (at_stage oc i before K 6)
      (conclude_run i before run_id triage diagnosis strategy opt explanation None None b) (\<lambda>_. at_stage oc i before K 6)"
    for triage diagnosis strategy opt explanation b
    unfolding conclude_run_def Let_def
    by (rule total_bind [OF read_total])
       (auto simp: completes_def intro!: total_seqp [OF complete_total [OF assms(3)], THEN completes_def [THEN iffD1], rule_format] total_ret)
  have tail: "completes (at_stage oc i before K 6) (bind (lift (add_step ?st b4)) (\<lambda>b5.
      bind (explain_decision h oc i ctx opt) (\<lambda>explanation.
      bind (act_on_selection h oc b5 i opt run_id False) (\<lambda>(status, approval, b).
      conclude_run i before run_id triage diagnosis strategy opt explanation status approval b)))) (\<lambda>_. at_stage oc i before K 6)"
    if b4: "eb_steps b4 = 4" and cx: "ctx = agent_context_of h u c p" for b4 ctx u c p triage diagnosis strategy opt
  proof -
    obtain x where x: "run_explainer h (oc_llm oc) ?st ctx opt = Inr x" using agents_answer(4) [OF civil cx] by blast
    have "explain_decision h oc i ctx opt = persist_stage i ''decision_explainer'' (Inr x) explanation_dict"
      using explainer_selected [OF x] by (simp add: explain_decision_def x bind_lift_Inr fun_eq_iff prog_simps)
    moreover have "add_step ?st b4 = Inr (b4\<lparr>eb_steps := 5\<rparr>)" using steps b4 by (simp add: step_total)
    ultimately show ?thesis
      by (simp add: bind_lift_Inr act) (rule total_bind_eq [OF stage_total [OF refl]], rule conclude)
  qed
  show ?thesis
    unfolding run_stages_def
  proof (rule total_bind [OF context_total])
    fix ctx
    show "completes (\<lambda>t. at_stage oc i before K n t \<and> (\<exists>u c p. ctx = agent_context_of h u c p))
      (bind (reason_about h oc i ctx) (\<lambda>(triage, diagnosis, strategy, opt, b4).
        bind (lift (add_step ?st b4)) (\<lambda>b5.
        bind (explain_decision h oc i ctx opt) (\<lambda>explanation.
        bind (act_on_selection h oc b5 i opt run_id False) (\<lambda>(status, approval, b).
        conclude_run i before run_id triage diagnosis strategy opt explanation status approval b)))))
      (\<lambda>_. at_stage oc i before K 6)"
    proof (cases "\<exists>u c p. ctx = agent_context_of h u c p")
      case True
      then obtain u c p where ctx: "ctx = agent_context_of h u c p" by blast
      have "completes (at_stage oc i before K n) (bind (reason_about h oc i ctx) (\<lambda>(triage, diagnosis, strategy, opt, b4).
        bind (lift (add_step ?st b4)) (\<lambda>b5.
        bind (explain_decision h oc i ctx opt) (\<lambda>explanation.
        bind (act_on_selection h oc b5 i opt run_id False) (\<lambda>(status, approval, b).
        conclude_run i before run_id triage diagnosis strategy opt explanation status approval b)))))
        (\<lambda>_. at_stage oc i before K 6)"
        by (rule total_bind [OF reason_total [OF assms(1) ctx assms(2)]])
           (auto simp: completes_def intro: tail [OF _ ctx, unfolded completes_def, rule_format])
      then show ?thesis by (rule total_conseq) simp_all
    qed (simp add: completes_def)
  qed
qed

lemma stage_count: "length STAGE_ORDER = 7"
  by (simp add: STAGE_ORDER_def)

lemma run_case_total:
  assumes "db_ok s" "get_case_unscoped s i = Some c" "rc_status c \<in> set STAGE_ORDER"
    and "get_merchant s (rc_merchant_id c) = Some m" "merge_merchant (ro_recovery_settings (oc_optimizer oc)) (mer_settings m) = Inr st"
    and "merge_merchant (ts_settings (oc_tools oc)) (mer_settings m) = Inr st'"
    and "\<forall>k \<in> set (db_customers s). 0 \<le> cust_lifetime_value k" "\<forall>k \<in> set (db_carts s). 0 \<le> cart_total k" "predictions_ok s"
    and "ready h oc" "mid \<in> {None, Some (rc_merchant_id c)}"
  obtains r t where "run_case h oc i mid False s = (Inr r, t)" "at_stage oc i c {} 6 t"
proof -
  obtain n where n: "n < 7" "rc_status c = STAGE_ORDER ! n"
    using assms(3) unfolding in_set_conv_nth by (metis stage_count)
  have open': "\<not> is_terminal (rc_status c)"
    using assms(3) by (auto simp: STAGE_ORDER_def is_terminal_def TERMINAL_RECOVERY_STATUSES_def)
  have i: "rc_id c = i" using get_case_unscoped_id [OF assms(2)] .
  have "at_stage oc i c {} n s" using assms n by (auto simp: at_stage_def)
  then obtain k t where k: "start_agent_run (rc_merchant_id c) (Some i) ''orchestrator'' ORCHESTRATOR_VERSION
      [(''execute'', JBool False)] s = (Inr k, t)" "at_stage oc i c {k} n t"
    using start_total [of oc i c "{}" n] unfolding completes_def by metis
  obtain r u where u: "run_stages h oc i c k False t = (Inr r, u)" "at_stage oc i c {k} 6 u"
    using stages_total [OF assms(10) n(1), of k "{k}" i c] k(2) unfolding completes_def by auto
  have "run_case h oc i mid False s = (Inr r, u)"
    using assms(2,11) open' i k(1) u(1)
    by (auto simp: run_case_def lock_recovery_case_def prog_simps)
  moreover have "at_stage oc i c {} 6 u" using u(2) by (auto simp: at_stage_def)
  ultimately show ?thesis using that by blast
qed

lemma run_case_started:
  assumes "run_case h oc i mid ex s = (Inr r, t)"
  obtains c u where "get_case_unscoped s i = Some c"
    "start_agent_run (rc_merchant_id c) (Some i) ''orchestrator'' ORCHESTRATOR_VERSION [(''execute'', JBool ex)] s
       = (Inr (db_next_uuid s), u)"
    "run_stages h oc i c (db_next_uuid s) ex u = (Inr r, t)"
proof -
  from assms obtain c k u where c: "get_case_unscoped s i = Some c"
    and k: "start_agent_run (rc_merchant_id c) (Some (rc_id c)) ''orchestrator'' ORCHESTRATOR_VERSION [(''execute'', JBool ex)] s = (Inr k, u)"
    and r: "catch (run_stages h oc i c k ex) (on_agent_error oc i k) u = (Inr r, t)"
    unfolding run_case_def
    by (auto elim!: bind_InrE read_case_InrE lock_InrE simp: prog_eval split: if_splits)
  have "k = db_next_uuid s"
    using k by (auto simp: start_agent_run_def insert_agent_run_def uuid4_def prog_simps)
  moreover have fails: "fst (on_agent_error oc i k e v) \<noteq> Inr x" for e v and x :: OrchestrationResult
    by (auto simp: on_agent_error_def prog_simps split: prod.splits sum.splits)
  have "run_stages h oc i c k ex u = (Inr r, t)"
  proof (cases "run_stages h oc i c k ex u")
    case (Pair x v)
    with r fails [of _ v r] show ?thesis by (cases x) (auto simp: catch_def, metis fst_conv)
  qed
  ultimately show thesis using that c k get_case_unscoped_id [OF c] by simp
qed

text \<open>
  C13. \<^bold>\<open>A run of the agents is bounded, for every language model.\<close> A finished run used five steps, or six when a
  tool was called, within the configured limit, and at most one tool call; a tool is called only when
  execution was asked for and an action was selected. Its strategy is a non-empty part of the closed set of
  actions; the selected action is one of it that no policy rule forbids on the context of the case as it is
  built from the database the run started from (the merchant's stored policy, the case's history and exposure; a
  discount with the amount it costs), and approval is asked for exactly when that policy does. The explanation
  names that action, and the recovered amount is the one before the run. The database stays
  well-formed and nothing is credited, also when the run fails. Without execution, a run changes no
  action, approval, key, payment, attempt, notification, cart, tool call or event.
\<close>

theorem run_case_bounded:
  assumes "db_ok s" and "safe_race (ts_race (oc_tools oc))" and run: "run_case h oc i mid ex s = (res, t)"
  shows "db_ok t \<and> db_evolves case_no_credit s t \<and> (\<not> ex \<longrightarrow> doings t = doings s)
    \<and> (case res of Inl _ \<Rightarrow> True | Inr r \<Rightarrow>
         \<exists>c. get_case_unscoped s i = Some c \<and> bounded_run h oc i s ex (rc_amount_recovered c) r)"
proof -
  have "doings t = doings s" if "\<not> ex"
    using obeysD [OF doings.agents_run_case, of h oc i mid s res t] run that by (simp add: untouched_def)
  moreover have "\<exists>c. get_case_unscoped s i = Some c \<and> bounded_run h oc i s ex (rc_amount_recovered c) r"
    if res: "res = Inr r" for r
  proof -
    obtain c u where c: "get_case_unscoped s i = Some c"
      and k: "start_agent_run (rc_merchant_id c) (Some i) ''orchestrator'' ORCHESTRATOR_VERSION [(''execute'', JBool ex)] s
         = (Inr (db_next_uuid s), u)"
      and r: "run_stages h oc i c (db_next_uuid s) ex u = (Inr r, t)"
      using run_case_started [OF run [unfolded res]] by blast
    have "as_before i s s" using assms(1) by (simp add: as_before_def)
    then have "as_before i s u"
      using keepsD [OF keeps_as_before [OF creditless_keeps [OF creditless_agent_runs(1)] conditions.agents_runs(1)] _ k]
      by blast
    from run_stages_bounded [OF assms(2) this r] c show ?thesis by blast
  qed
  ultimately show ?thesis
    using creditlessD [OF creditless_run_case [OF assms(2)] run] assms(1) by (cases res) simp_all
qed

definition demo_orchestrator :: Orchestrator where
  "demo_orchestrator = \<lparr>oc_settings = default_agent_settings, oc_llm = hostile_client, oc_optimizer = demo_optimizer,
     oc_tools = demo_service default_settings\<rparr>"

lemma demo_orchestrator_facts:
  "ready demo_host demo_orchestrator"
  "merge_merchant (ro_recovery_settings (oc_optimizer demo_orchestrator)) (mer_settings demo_merchant) = Inr default_settings"
  "merge_merchant (ts_settings (oc_tools demo_orchestrator)) (mer_settings demo_merchant) = Inr default_settings"
  "rc_status demo_case \<in> set STAGE_ORDER"
  using demo_optimizer_facts(6,7) hostile_civil
  by (auto simp: ready_def demo_orchestrator_def default_agent_settings_def demo_optimizer_def demo_service_def
      demo_merchant_def merge_merchant_none demo_case_def STAGE_ORDER_def)

theorem run_case_bounded_witness:
  "\<exists>r t. run_case demo_host demo_orchestrator 4 None False demo_db = (Inr r, t) \<and> orc_steps_used r = 5
     \<and> orc_tool_calls_used r = 0 \<and> doings t = doings demo_db"
proof -
  obtain r t where r: "run_case demo_host demo_orchestrator 4 None False demo_db = (Inr r, t)"
    by (rule run_case_total [OF demo_db_ok demo_db_case demo_orchestrator_facts(4) demo_optimizer_facts(1)
          demo_orchestrator_facts(2,3) demo_optimizer_facts(3-5) demo_orchestrator_facts(1), of None]) simp_all
  have race: "safe_race (ts_race (oc_tools demo_orchestrator))"
    by (simp add: demo_orchestrator_def demo_service_def safe_race_id)
  from run_case_bounded [OF demo_db_ok race r] r show ?thesis
    by (auto simp: bounded_run_def split: if_splits)
qed

text \<open>The record of a run, completed.\<close>

lemma complete_run_row:
  assumes "complete_agent_run k output source status msg s = (Inr (), t)"
  obtains row where "get_agent_run t k = Some row" "ag_status row = status"
    "ag_output_summary row = Some (strip_secrets output)" "ag_error_message row = msg"
proof -
  obtain row where row: "get_agent_run s k = Some row"
    using assms by (auto simp: complete_agent_run_def prog_simps split: option.splits)
  let ?f = "\<lambda>r. r\<lparr>ag_status := status, ag_output_summary := Some (strip_secrets output),
             ag_decision_factors := Some [(''source'', JStr source), (''agent_version'', JStr (ag_agent_version row))],
             ag_error_message := msg, ag_completed_at := Some (db_clock s)\<rparr>"
  have upd: "find_row ag_id k (update_row ag_id k ?f rows) = map_option ?f (find_row ag_id k rows)" for rows
    by (induction rows) (auto simp: find_row_def update_row_def)
  have "db_agent_runs t = update_row ag_id k ?f (db_agent_runs s)"
    using assms row by (auto simp: complete_agent_run_def update_agent_run_def prog_simps record_audit_eval)
  then have "get_agent_run t k = Some (?f row)"
    using row by (simp add: get_agent_run_def upd)
  then show thesis by (rule that) simp_all
qed

lemma run_stages_recorded:
  assumes "run_stages h oc i before k ex s = (Inr r, t)"
  shows "orc_orchestrator_run_id r = k \<and> (\<exists>row. get_agent_run t k = Some row \<and> ag_status row = Run_COMPLETED
    \<and> ag_output_summary row = Some (strip_secrets (orchestration_dict r)) \<and> ag_error_message row = None)
    \<and> (\<exists>d. get_case_unscoped t i = Some d \<and> orc_case_status r = rc_status d)"
proof -
  from assms obtain triage diagnosis strategy opt explanation status approval b u where
    "conclude_run i before k triage diagnosis strategy opt explanation status approval b u = (Inr r, t)"
    unfolding run_stages_def by (auto elim!: bind_InrE split: prod.splits)
  then obtain src c where stored: "complete_agent_run k (orchestration_dict r) src Run_COMPLETED None u = (Inr (), t)"
    and id: "orc_orchestrator_run_id r = k" and c: "get_case_unscoped u i = Some c" "orc_case_status r = rc_status c"
    unfolding conclude_run_def Let_def
    by (auto elim!: bind_InrE read_case_InrE simp: seqp_def prog_eval split: if_splits)
  have "db_cases t = db_cases u"
    using stored by (auto simp: complete_agent_run_def update_agent_run_def prog_simps record_audit_eval split: option.splits)
  then have "get_case_unscoped t i = Some c" using c(1) by (simp add: get_case_unscoped_def)
  with complete_run_row [OF stored] id c(2) show ?thesis by metis
qed

text \<open>
  C29. \<^bold>\<open>Without execution the agents always reach the policy check.\<close> Take a case in any stage up to the policy
  check, with a readable policy of its merchant, a budget of at least five steps and any language model, even
  one that never answers or answers nonsense. A run that is asked not to execute finishes, leaves the case at
  the policy check with its recovered amount and answers so, and changes nothing outside the case, its predictions,
  evaluations, decision, agent runs and audit trail. The run has a record under the key that the answer names: it
  is completed, without an error, with the whole answer (without secrets) as its output.
\<close>

theorem run_case_reaches_policy_check:
  assumes "db_ok s" "get_case_unscoped s i = Some c" "rc_status c \<in> set STAGE_ORDER"
    and "get_merchant s (rc_merchant_id c) = Some m" "merge_merchant (ro_recovery_settings (oc_optimizer oc)) (mer_settings m) = Inr st"
    and "merge_merchant (ts_settings (oc_tools oc)) (mer_settings m) = Inr st'"
    and "\<forall>k \<in> set (db_customers s). 0 \<le> cust_lifetime_value k" "\<forall>k \<in> set (db_carts s). 0 \<le> cart_total k" "predictions_ok s"
    and "ready h oc" "mid \<in> {None, Some (rc_merchant_id c)}"
  shows "\<exists>r t d row. run_case h oc i mid False s = (Inr r, t) \<and> get_case_unscoped t i = Some d
    \<and> rc_status d = Case_POLICY_CHECK \<and> rc_amount_recovered d = rc_amount_recovered c \<and> doings t = doings s
    \<and> orc_case_status r = Case_POLICY_CHECK
    \<and> get_agent_run t (orc_orchestrator_run_id r) = Some row \<and> ag_status row = Run_COMPLETED
    \<and> ag_output_summary row = Some (strip_secrets (orchestration_dict r)) \<and> ag_error_message row = None"
proof -
  obtain r t where r: "run_case h oc i mid False s = (Inr r, t)" "at_stage oc i c {} 6 t"
    by (rule run_case_total [OF assms])
  have "doings t = doings s" using obeysD [OF doings.agents_run_case r(1)] by (simp add: untouched_def)
  moreover obtain d where "get_case_unscoped t i = Some d" "rc_status d = Case_POLICY_CHECK"
      "rc_amount_recovered d = rc_amount_recovered c"
    using r(2) by (auto simp: at_stage_def STAGE_ORDER_def)
  moreover obtain e u where "run_stages h oc i e (db_next_uuid s) False u = (Inr r, t)"
    using run_case_started [OF r(1)] by blast
  ultimately show ?thesis using r(1) run_stages_recorded by fastforce
qed

theorem run_case_reaches_policy_check_witness:
  "\<exists>r t d. run_case demo_host demo_orchestrator 4 None False demo_db = (Inr r, t)
     \<and> get_case_unscoped t 4 = Some d \<and> rc_status d = Case_POLICY_CHECK
     \<and> (\<exists>row. get_agent_run t (orc_orchestrator_run_id r) = Some row \<and> ag_status row = Run_COMPLETED)"
  using run_case_reaches_policy_check [OF demo_db_ok demo_db_case demo_orchestrator_facts(4) demo_optimizer_facts(1)
      demo_orchestrator_facts(2,3) demo_optimizer_facts(3-5) demo_orchestrator_facts(1), of None]
  by auto

text \<open>
  The recovery rate of the analyst divides what all cases recovered by what open cases still risk: with
  one recovered and one small open case it is far above one.
\<close>

lemma analyst_rate_above_one:
  "dict_get (merchant_aggregates (demo_db\<lparr>db_cases := [demo_case\<lparr>rc_status := Case_RECOVERED, rc_amount_at_risk := 4000,
       rc_amount_recovered := 4000, rc_closed_at := Some 0\<rparr>, demo_case\<lparr>rc_amount_at_risk := 10\<rparr>]\<rparr>) 1) ''recovery_rate'' = JDec 400"
  using quantize_of_int [of 4 400]
  by (simp add: merchant_aggregates_def dict_get_def demo_defs Let_def ZERO_def)

end
