(* ===== verification/Simulation.thy ===== *)
theory Simulation
  imports Tools Simulator
begin

text \<open>
  The entry points for provider events: \<^verbatim>\<open>apps/api/recoverai_api/events/service.py\<close> and
  \<^verbatim>\<open>events/router.py\<close> (webhooks, simulated payments, scenarios) with the demo merchants they create on
  first use (\<^verbatim>\<open>recoverai_domain/fixtures.py\<close>). \<open>race\<close> is a transaction that commits before one of the
  inserts; \<open>up n\<close> says whether the queue takes the \<open>n\<close>-th event of a request. The lemmas show that the demo
  parties are created once, that a scenario run again stores nothing twice, and that nothing here
  touches revenue. An intended status that is no payment status is outside the model.
\<close>

subsection \<open>Demo merchants and customers\<close>

definition SEED_NAMESPACE :: uuid where
  "SEED_NAMESPACE = 143098242404177361603877621312831893704"

definition SIMULATOR_MERCHANT_SLUG :: string where
  "SIMULATOR_MERCHANT_SLUG = ''recoverai-demo''"

definition SIMULATOR_CUSTOMER_EXTERNAL_ID :: string where
  "SIMULATOR_CUSTOMER_EXTERNAL_ID = ''sim_cust_001''"

definition SIMULATOR_ALT_CUSTOMER_EXTERNAL_ID :: string where
  "SIMULATOR_ALT_CUSTOMER_EXTERNAL_ID = ''sim_cust_002''"

definition SIMULATOR_ALT_MERCHANT_SLUG :: string where
  "SIMULATOR_ALT_MERCHANT_SLUG = ''recoverai-demo-alt''"

definition LEGACY_SIMULATOR_MERCHANT_SLUG :: string where
  "LEGACY_SIMULATOR_MERCHANT_SLUG = ''simulator-dev''"

definition simulator_merchant_id :: "Host \<Rightarrow> uuid" where
  "simulator_merchant_id h = host_uuid5 h SEED_NAMESPACE ''merchant:recoverai-demo''"

definition simulator_customer_id :: "Host \<Rightarrow> uuid" where
  "simulator_customer_id h = host_uuid5 h SEED_NAMESPACE ''customer:recoverai-demo:1''"

definition simulator_alt_customer_id :: "Host \<Rightarrow> uuid" where
  "simulator_alt_customer_id h = host_uuid5 h SEED_NAMESPACE ''customer:recoverai-demo:2''"

definition simulator_alt_merchant_id :: "Host \<Rightarrow> uuid" where
  "simulator_alt_merchant_id h = host_uuid5 h SEED_NAMESPACE ''merchant:recoverai-demo-alt''"

definition get_by_slug :: "db \<Rightarrow> string \<Rightarrow> Merchant option" where
  "get_by_slug s slug = find_row mer_slug slug (db_merchants s)"

definition get_demo_merchant :: "Host \<Rightarrow> db \<Rightarrow> Merchant option" where
  "get_demo_merchant h s =
     or_else (get_merchant s (simulator_merchant_id h))
       (or_else (get_by_slug s SIMULATOR_MERCHANT_SLUG) (get_by_slug s LEGACY_SIMULATOR_MERCHANT_SLUG))"

definition get_alt_merchant :: "Host \<Rightarrow> db \<Rightarrow> Merchant option" where
  "get_alt_merchant h s =
     or_else (get_merchant s (simulator_alt_merchant_id h)) (get_by_slug s SIMULATOR_ALT_MERCHANT_SLUG)"

definition get_known_customer :: "uuid \<Rightarrow> uuid \<Rightarrow> string \<Rightarrow> db \<Rightarrow> Customer option" where
  "get_known_customer merchant_id customer_id external_id s =
     or_else (get_customer s merchant_id customer_id) (get_by_external_id s merchant_id external_id)"

definition insert_merchant :: "Merchant \<Rightarrow> Merchant dbprog" where
  "insert_merchant m = (\<lambda>s.
     if \<exists>n \<in> set (db_merchants s). mer_id n = mer_id m \<or> mer_slug n = mer_slug m
     then (Inl IntegrityError, s)
     else (Inr m, s\<lparr>db_merchants := db_merchants s @ [m]\<rparr>))"

definition insert_customer :: "Customer \<Rightarrow> Customer dbprog" where
  "insert_customer c = (\<lambda>s.
     if (\<exists>d \<in> set (db_customers s). cust_id d = cust_id c) \<or> cust_lifetime_value c < 0
     then (Inl IntegrityError, s)
     else (Inr c, s\<lparr>db_customers := db_customers s @ [c]\<rparr>))"

text \<open>
  Look a row up, insert it when it is missing, and look again when a concurrent request inserted it
  first: the pattern of all the fixtures.
\<close>

definition find_or_insert :: "(db \<Rightarrow> db) \<Rightarrow> (db \<Rightarrow> 'a option) \<Rightarrow> 'a dbprog \<Rightarrow> 'a dbprog" where
  "find_or_insert race look insert_row =
     bind (gets look) (\<lambda>found. case found of
       Some x \<Rightarrow> ret x
     | None \<Rightarrow>
         catch (seqp (modify race) insert_row)
           (\<lambda>e. if e = IntegrityError
                then bind (gets look) (\<lambda>again. case again of None \<Rightarrow> raise e | Some x \<Rightarrow> ret x)
                else raise e))"

definition new_merchant :: "uuid \<Rightarrow> string \<Rightarrow> Merchant" where
  "new_merchant k slug = \<lparr>mer_id = k, mer_slug = slug, mer_settings = None\<rparr>"

definition new_customer :: "uuid \<Rightarrow> uuid \<Rightarrow> string \<Rightarrow> string \<Rightarrow> rat \<Rightarrow> Customer" where
  "new_customer k merchant_id external_id email lifetime_value =
     \<lparr>cust_id = k, cust_merchant_id = merchant_id, cust_external_id = Some external_id,
      cust_email = Some email, cust_lifetime_value = lifetime_value, cust_metadata = None\<rparr>"

definition ensure_simulator_fixtures :: "Host \<Rightarrow> (db \<Rightarrow> db) \<Rightarrow> (Merchant \<times> Customer) dbprog" where
  "ensure_simulator_fixtures h race =
     bind (find_or_insert race (get_demo_merchant h)
             (insert_merchant (new_merchant (simulator_merchant_id h) SIMULATOR_MERCHANT_SLUG))) (\<lambda>merchant.
     bind (find_or_insert race
             (get_known_customer (mer_id merchant) (simulator_customer_id h) SIMULATOR_CUSTOMER_EXTERNAL_ID)
             (insert_customer (new_customer (simulator_customer_id h) (mer_id merchant)
                SIMULATOR_CUSTOMER_EXTERNAL_ID ''simulator-customer@example.test'' 2500))) (\<lambda>customer.
     ret (merchant, customer)))"

definition ensure_alt_simulator_customer :: "Host \<Rightarrow> (db \<Rightarrow> db) \<Rightarrow> Customer dbprog" where
  "ensure_alt_simulator_customer h race =
     bind (ensure_simulator_fixtures h race) (\<lambda>(merchant, _).
     find_or_insert race
       (get_known_customer (mer_id merchant) (simulator_alt_customer_id h) SIMULATOR_ALT_CUSTOMER_EXTERNAL_ID)
       (insert_customer (new_customer (simulator_alt_customer_id h) (mer_id merchant)
          SIMULATOR_ALT_CUSTOMER_EXTERNAL_ID ''simulator-customer-alt@example.test'' 800)))"

definition ensure_alt_simulator_merchant :: "Host \<Rightarrow> (db \<Rightarrow> db) \<Rightarrow> (Merchant \<times> Customer) dbprog" where
  "ensure_alt_simulator_merchant h race =
     bind (find_or_insert race (get_alt_merchant h)
             (insert_merchant (new_merchant (simulator_alt_merchant_id h) SIMULATOR_ALT_MERCHANT_SLUG))) (\<lambda>merchant.
     bind (find_or_insert race
             (\<lambda>s. get_by_external_id s (mer_id merchant) SIMULATOR_ALT_CUSTOMER_EXTERNAL_ID)
             (bind uuid4 (\<lambda>k. insert_customer (new_customer k (mer_id merchant)
                SIMULATOR_ALT_CUSTOMER_EXTERNAL_ID ''alt-merchant-customer@example.test'' 100)))) (\<lambda>customer.
     ret (merchant, customer)))"

subsection \<open>Who an event is about\<close>

definition KNOWN_PAYMENT_EVENT_TYPES :: "string list" where
  "KNOWN_PAYMENT_EVENT_TYPES = [''payment.created'', ''payment.authorized'', ''payment.captured'',
     ''payment.failed'', ''payment.refunded'', ''payment.cancelled'']"

definition DEMO_SLUGS :: "string list" where
  "DEMO_SLUGS = [SIMULATOR_MERCHANT_SLUG, LEGACY_SIMULATOR_MERCHANT_SLUG]"

definition resolve_merchant_id ::
  "Host \<Rightarrow> (db \<Rightarrow> db) \<Rightarrow> uuid option \<Rightarrow> string option \<Rightarrow> bool \<Rightarrow> uuid dbprog" where
  "resolve_merchant_id h race merchant_id merchant_slug allow_fixture =
     (case merchant_id of
        Some k \<Rightarrow>
          bind (gets (\<lambda>s. get_merchant s k)) (\<lambda>merchant. case merchant of
            None \<Rightarrow> raise (IngestionError ''MISSING_MERCHANT'' 404)
          | Some m \<Rightarrow> ret (mer_id m))
      | None \<Rightarrow>
          if nonempty merchant_slug then
            if allow_fixture \<and> the merchant_slug \<in> set DEMO_SLUGS
            then bind (ensure_simulator_fixtures h race) (\<lambda>(m, _). ret (mer_id m))
            else bind (gets (\<lambda>s. get_by_slug s (the merchant_slug))) (\<lambda>merchant. case merchant of
              None \<Rightarrow> raise (IngestionError ''MISSING_MERCHANT'' 404)
            | Some m \<Rightarrow> ret (mer_id m))
          else if allow_fixture
          then bind (ensure_simulator_fixtures h race) (\<lambda>(m, _). ret (mer_id m))
          else raise (IngestionError ''MISSING_MERCHANT'' 400))"

definition str_or_else :: "string option \<Rightarrow> string option \<Rightarrow> string option" where
  "str_or_else x y = (if nonempty x then x else y)"

type_synonym parties = "uuid \<times> uuid option \<times> string option"

definition demo_parties :: "Merchant \<times> Customer \<Rightarrow> uuid option \<Rightarrow> string option \<Rightarrow> parties" where
  "demo_parties demo customer_id customer_external_id =
     (mer_id (fst demo), or_else customer_id (Some (cust_id (snd demo))),
      str_or_else customer_external_id (cust_external_id (snd demo)))"

definition resolve_webhook_parties ::
  "Host \<Rightarrow> (db \<Rightarrow> db) \<Rightarrow> uuid option \<Rightarrow> string option \<Rightarrow> uuid option \<Rightarrow> string option \<Rightarrow> parties dbprog" where
  "resolve_webhook_parties h race merchant_id merchant_slug customer_id customer_external_id =
     (if merchant_id = None \<and> \<not> nonempty merchant_slug
      then bind (ensure_simulator_fixtures h race) (\<lambda>demo. ret (demo_parties demo customer_id customer_external_id))
      else bind (resolve_merchant_id h race merchant_id merchant_slug
                   (nonempty merchant_slug \<and> the merchant_slug \<in> set DEMO_SLUGS)) (\<lambda>m.
           ret (m, customer_id, customer_external_id)))"

definition resolve_simulation_parties ::
  "Host \<Rightarrow> (db \<Rightarrow> db) \<Rightarrow> uuid option \<Rightarrow> string option \<Rightarrow> uuid option \<Rightarrow> string option \<Rightarrow> parties dbprog" where
  "resolve_simulation_parties h race merchant_id merchant_slug customer_id customer_external_id =
     bind (ensure_simulator_fixtures h race) (\<lambda>demo.
     if merchant_id = None \<and> \<not> nonempty merchant_slug
     then ret (demo_parties demo customer_id customer_external_id)
     else
       bind (resolve_merchant_id h race merchant_id merchant_slug
               (if nonempty merchant_slug then the merchant_slug \<in> set DEMO_SLUGS else True)) (\<lambda>m.
       if customer_id \<noteq> None \<or> nonempty customer_external_id then ret (m, customer_id, customer_external_id)
       else if m = mer_id (fst demo) then ret (m, Some (cust_id (snd demo)), cust_external_id (snd demo))
       else raise (IngestionError ''MISSING_CUSTOMER'' 400)))"

subsection \<open>Webhooks\<close>

record WebhookFields =
  wf_event_id :: "string option"
  wf_event_type :: string
  wf_occurred_at :: "timestamp option"
  wf_provider_resource_id :: "string option"
  wf_provider_payment_id :: "string option"
  wf_provider_order_id :: "string option"
  wf_merchant_reference :: "string option"
  wf_customer_id :: "uuid option"
  wf_customer_external_id :: "string option"
  wf_amount :: "rat option"
  wf_currency :: string
  wf_status :: "string option"
  wf_failure_reason :: "string option"
  wf_attempt_number :: int
  wf_payment_method :: "string option"
  wf_payload :: dict

record SimulatorWebhookRequest = WebhookFields +
  sw_merchant_slug :: "string option"
  sw_merchant_id :: "uuid option"

definition uuid_or_null :: "uuid option \<Rightarrow> json" where
  "uuid_or_null x = (case x of None \<Rightarrow> JNull | Some k \<Rightarrow> JUuid k)"

definition merged_payload :: "uuid \<Rightarrow> timestamp \<Rightarrow> string option \<Rightarrow> 'a WebhookFields_scheme \<Rightarrow> dict" where
  "merged_payload merchant_id moment resource_id w =
     dict_update (wf_payload w)
       [(''provider_payment_id'', str_or_null resource_id),
        (''provider_order_id'', str_or_null (wf_provider_order_id w)),
        (''amount'', case wf_amount w of Some a \<Rightarrow> JDec a | None \<Rightarrow> dict_get (wf_payload w) ''amount''),
        (''currency'', JStr (wf_currency w)),
        (''status'', str_or_null (wf_status w)),
        (''failure_reason'', str_or_null (wf_failure_reason w)),
        (''attempt_number'', JInt (wf_attempt_number w)),
        (''payment_method'', str_or_null (wf_payment_method w)),
        (''customer_id'', uuid_or_null (wf_customer_id w)),
        (''customer_external_id'', str_or_null (wf_customer_external_id w)),
        (''merchant_id'', JUuid merchant_id),
        (''merchant_reference'',
           if nonempty (wf_merchant_reference w) then JStr (the (wf_merchant_reference w)) else JUuid merchant_id),
        (''occurred_at'', JTime moment)]"

definition webhook_to_provider_event ::
  "Host \<Rightarrow> uuid \<Rightarrow> timestamp \<Rightarrow> 'a WebhookFields_scheme \<Rightarrow> ProviderEvent res" where
  "webhook_to_provider_event h merchant_id t w =
     (if strip (wf_event_type w) = [] then Inl (IngestionError ''INVALID_PROVIDER_EVENT'' 400)
      else case wf_event_id w of
        None \<Rightarrow> Inl (IngestionError ''INVALID_PROVIDER_EVENT'' 400)
      | Some event_id \<Rightarrow>
          if strip event_id = [] then Inl (IngestionError ''INVALID_PROVIDER_EVENT'' 400)
          else
            let resource_id = str_or_else (wf_provider_resource_id w) (wf_provider_payment_id w);
                moment = (case wf_occurred_at w of Some x \<Rightarrow> x | None \<Rightarrow> t);
                cleaned = filter (\<lambda>(k, v). v \<noteq> JNull) (merged_payload merchant_id moment resource_id w) in
            if resource_id = None \<and> strip (wf_event_type w) \<in> set KNOWN_PAYMENT_EVENT_TYPES
            then Inl (IngestionError ''INVALID_PAYMENT_REFERENCE'' 400)
            else if wf_event_type w \<in> {''payment.failed'', ''payment.captured'', ''payment.refunded''}
                    \<and> ''amount'' \<notin> fst ` set cleaned
            then Inl (IngestionError ''INVALID_PROVIDER_EVENT'' 400)
            else Inr \<lparr>pv_provider = SIMULATOR, pv_event_id = strip event_id,
                   pv_event_type = strip (wf_event_type w), pv_occurred_at = moment,
                   pv_provider_resource_id = (case resource_id of None \<Rightarrow> [] | Some r \<Rightarrow> r),
                   pv_merchant_reference =
                     (let v = dict_get cleaned ''merchant_reference'' in
                      if truthy v then json_str h v else str_uuid merchant_id),
                   pv_payload = cleaned, pv_signature_valid = Some True\<rparr>)"

definition ingest_webhook_event ::
  "Host \<Rightarrow> (db \<Rightarrow> db) \<Rightarrow> bool \<Rightarrow> uuid \<Rightarrow> 'a WebhookFields_scheme \<Rightarrow> IngestResult dbprog" where
  "ingest_webhook_event h race up merchant_id w =
     bind now (\<lambda>t.
     bind (lift (webhook_to_provider_event h merchant_id t w)) (\<lambda>event.
     ingest race up event merchant_id))"

definition ingest_simulator_webhook ::
  "Host \<Rightarrow> (db \<Rightarrow> db) \<Rightarrow> bool \<Rightarrow> SimulatorWebhookRequest \<Rightarrow> IngestResult dbprog" where
  "ingest_simulator_webhook h race up body =
     bind (resolve_webhook_parties h race (sw_merchant_id body) (sw_merchant_slug body)
             (wf_customer_id body) (wf_customer_external_id body)) (\<lambda>(m, customer_id, customer_external_id).
     ingest_webhook_event h race up m
       (body\<lparr>wf_customer_id := customer_id, wf_customer_external_id := customer_external_id\<rparr>))"

subsection \<open>Simulated payments\<close>

definition parse_failure :: "string option \<Rightarrow> FailureReason option res" where
  "parse_failure reason =
     (if nonempty reason then
        (case find (\<lambda>f. failure_value f = the reason) all_failures of
           None \<Rightarrow> Inl (IngestionError ''INVALID_PROVIDER_EVENT'' 400)
         | Some f \<Rightarrow> Inr (Some f))
      else Inr None)"

definition simulated_request ::
  "parties \<Rightarrow> rat \<Rightarrow> string \<Rightarrow> FailureReason option \<Rightarrow> PaymentStatus option \<Rightarrow> int \<Rightarrow> CreatePaymentRequest" where
  "simulated_request p amount currency failure intended_status attempt_number =
     (let (merchant_id, customer_id, customer_external_id) = p in
      \<lparr>cp_merchant_reference = str_uuid merchant_id, cp_amount = amount, cp_currency = currency,
       cp_customer_reference = Some (case customer_id of Some k \<Rightarrow> str_uuid k
         | None \<Rightarrow> (case customer_external_id of Some e \<Rightarrow> e | None \<Rightarrow> [])),
       cp_provider_order_id = None, cp_attempt_number = attempt_number, cp_customer_history = default_history,
       cp_intended_status = intended_status, cp_failure_reason = failure, cp_metadata = []\<rparr>)"

definition party_payload :: "parties \<Rightarrow> dict" where
  "party_payload p =
     (let (merchant_id, customer_id, customer_external_id) = p in
      (''merchant_id'', JUuid merchant_id)
      # (case customer_id of Some k \<Rightarrow> [(''customer_id'', JUuid k)] | None \<Rightarrow> [])
      @ (if nonempty customer_external_id then [(''customer_external_id'', str_or_null customer_external_id)] else []))"

definition ingest_simulated_payment ::
  "Host \<Rightarrow> (db \<Rightarrow> db) \<Rightarrow> bool \<Rightarrow> parties \<Rightarrow> rat \<Rightarrow> string \<Rightarrow> int \<Rightarrow> string \<Rightarrow> string option
   \<Rightarrow> PaymentStatus option \<Rightarrow> int \<Rightarrow> string option \<Rightarrow> IngestResult dbprog" where
  "ingest_simulated_payment h race up p amount currency seed event_type failure_reason intended_status
       attempt_number provider_payment_id =
     bind (lift (parse_failure failure_reason)) (\<lambda>failure.
     bind (lift (get_payment_provider (Some SIMULATOR) seed)) (\<lambda>sim.
     bind now (\<lambda>t.
     bind (lift (fst (create_payment h t
             (simulated_request p amount currency failure intended_status attempt_number) sim))) (\<lambda>snapshot.
     let snapshot' = (if nonempty provider_payment_id
                      then snapshot\<lparr>ps_provider_payment_id := the provider_payment_id\<rparr> else snapshot) in
     ingest race up (build_provider_event h snapshot' seed (party_payload p) None (Some event_type) t) (fst p)))))"

record SimulationEventRequest =
  se_event_type :: string
  se_failure_reason :: "string option"
  se_amount :: rat
  se_currency :: string
  se_merchant_slug :: "string option"
  se_merchant_id :: "uuid option"
  se_customer_id :: "uuid option"
  se_customer_external_id :: "string option"
  se_seed :: "int option"
  se_intended_status :: "PaymentStatus option"
  se_attempt_number :: int

definition simulate_event ::
  "Host \<Rightarrow> (db \<Rightarrow> db) \<Rightarrow> bool \<Rightarrow> int \<Rightarrow> SimulationEventRequest \<Rightarrow> IngestResult dbprog" where
  "simulate_event h race up simulation_seed body =
     bind (resolve_simulation_parties h race (se_merchant_id body) (se_merchant_slug body)
             (se_customer_id body) (se_customer_external_id body)) (\<lambda>p.
     ingest_simulated_payment h race up p (se_amount body) (se_currency body)
       (case se_seed body of Some n \<Rightarrow> n | None \<Rightarrow> simulation_seed) (se_event_type body)
       (se_failure_reason body) (se_intended_status body) (se_attempt_number body) None)"

subsection \<open>Scenarios\<close>

definition explicit_fields ::
  "uuid option \<Rightarrow> rat \<Rightarrow> string \<Rightarrow> string \<Rightarrow> string option \<Rightarrow> string \<Rightarrow> string \<Rightarrow> string option
   \<Rightarrow> timestamp option \<Rightarrow> WebhookFields" where
  "explicit_fields customer_id amount event_id provider_payment_id provider_order_id event_type status
       failure_reason occurred_at =
     \<lparr>wf_event_id = Some event_id, wf_event_type = event_type, wf_occurred_at = occurred_at,
      wf_provider_resource_id = Some provider_payment_id, wf_provider_payment_id = None,
      wf_provider_order_id = provider_order_id, wf_merchant_reference = None, wf_customer_id = customer_id,
      wf_customer_external_id = None, wf_amount = Some amount, wf_currency = ''INR'', wf_status = Some status,
      wf_failure_reason = failure_reason, wf_attempt_number = 1, wf_payment_method = Some ''card'',
      wf_payload = []\<rparr>"

definition scenario_failed ::
  "int \<Rightarrow> uuid option \<Rightarrow> rat \<Rightarrow> string \<Rightarrow> string \<Rightarrow> string \<Rightarrow> string \<Rightarrow> WebhookFields" where
  "scenario_failed seed customer_id amount event_id payment order reason =
     explicit_fields customer_id amount (event_id @ show_int seed) (payment @ show_int seed)
       (Some (order @ show_int seed)) ''payment.failed'' ''FAILED'' (Some reason) None"

definition scenario_captured ::
  "int \<Rightarrow> uuid option \<Rightarrow> rat \<Rightarrow> string \<Rightarrow> string \<Rightarrow> string \<Rightarrow> timestamp option \<Rightarrow> WebhookFields" where
  "scenario_captured seed customer_id amount event_id payment order occurred_at =
     explicit_fields customer_id amount (event_id @ show_int seed) (payment @ show_int seed)
       (Some (order @ show_int seed)) ''payment.captured'' ''CAPTURED'' None occurred_at"

definition wrong_order_events :: "int \<Rightarrow> uuid \<Rightarrow> uuid option \<Rightarrow> rat \<Rightarrow> (uuid \<times> WebhookFields) list" where
  "wrong_order_events n m c amount =
     [(m, scenario_failed n c amount ''evt_wrong_order_fail_'' ''pay_sim_order_a_'' ''order_sim_a_'' ''TEMPORARY_BANK_ERROR''),
      (m, scenario_captured n c amount ''evt_wrong_order_cap_'' ''pay_sim_order_b_'' ''order_sim_b_'' None)]"

definition wrong_customer_events ::
  "uuid \<Rightarrow> int \<Rightarrow> uuid \<Rightarrow> uuid option \<Rightarrow> rat \<Rightarrow> (uuid \<times> WebhookFields) list" where
  "wrong_customer_events alt n m c amount =
     [(m, scenario_failed n c amount ''evt_wrong_cust_fail_'' ''pay_sim_cust_a_'' ''order_sim_cust_a_'' ''DECLINED''),
      (m, scenario_captured n (Some alt) amount ''evt_wrong_cust_cap_'' ''pay_sim_cust_b_'' ''order_sim_cust_a_'' None)]"

definition wrong_merchant_events ::
  "uuid \<times> uuid \<Rightarrow> int \<Rightarrow> uuid \<Rightarrow> uuid option \<Rightarrow> rat \<Rightarrow> (uuid \<times> WebhookFields) list" where
  "wrong_merchant_events alt n m c amount =
     [(m, scenario_failed n c amount ''evt_wrong_merch_fail_'' ''pay_sim_merch_a_'' ''order_sim_merch_a_'' ''DECLINED''),
      (fst alt, scenario_captured n (Some (snd alt)) amount ''evt_wrong_merch_cap_'' ''pay_sim_merch_b_''
         ''order_sim_merch_a_'' None)]"

definition partial_capture_events :: "int \<Rightarrow> uuid \<Rightarrow> uuid option \<Rightarrow> rat \<Rightarrow> (uuid \<times> WebhookFields) list" where
  "partial_capture_events n m c amount =
     [(m, scenario_failed n c amount ''evt_partial_fail_'' ''pay_sim_partial_'' ''order_sim_partial_'' ''INSUFFICIENT_FUNDS''),
      (m, scenario_captured n c (amount / 2) ''evt_partial_cap_'' ''pay_sim_partial_'' ''order_sim_partial_'' None)]"

definition duplicate_capture_events :: "int \<Rightarrow> uuid \<Rightarrow> uuid option \<Rightarrow> rat \<Rightarrow> (uuid \<times> WebhookFields) list" where
  "duplicate_capture_events n m c amount =
     [(m, scenario_failed n c amount ''evt_dupcap_fail_'' ''pay_sim_dupcap_'' ''order_sim_dupcap_'' ''NETWORK_TIMEOUT''),
      (m, scenario_captured n c amount ''evt_dupcap_ok_'' ''pay_sim_dupcap_'' ''order_sim_dupcap_'' None),
      (m, scenario_captured n c amount ''evt_dupcap_again_'' ''pay_sim_dupcap_'' ''order_sim_dupcap_'' None)]"

definition delayed_capture_events ::
  "timestamp \<Rightarrow> int \<Rightarrow> uuid \<Rightarrow> uuid option \<Rightarrow> rat \<Rightarrow> (uuid \<times> WebhookFields) list" where
  "delayed_capture_events t n m c amount =
     [(m, scenario_failed n c amount ''evt_delay_fail_'' ''pay_sim_delay_'' ''order_sim_delay_'' ''TEMPORARY_BANK_ERROR''),
      (m, scenario_captured n c amount ''evt_delay_cap_'' ''pay_sim_delay_'' ''order_sim_delay_''
         (Some (t + 200 * 3600 * 1000000)))]"

definition capture_before_case_events :: "int \<Rightarrow> uuid \<Rightarrow> uuid option \<Rightarrow> rat \<Rightarrow> (uuid \<times> WebhookFields) list" where
  "capture_before_case_events n m c amount =
     [(m, scenario_captured n c amount ''evt_before_cap_'' ''pay_sim_before_'' ''order_sim_before_'' None),
      (m, scenario_failed n c amount ''evt_before_fail_'' ''pay_sim_before_'' ''order_sim_before_'' ''TEMPORARY_BANK_ERROR'')]"

fun ingest_all ::
  "Host \<Rightarrow> (db \<Rightarrow> db) \<Rightarrow> (nat \<Rightarrow> bool) \<Rightarrow> nat \<Rightarrow> (uuid \<times> WebhookFields) list \<Rightarrow> IngestResult list dbprog" where
  "ingest_all h race up n [] = ret []"
| "ingest_all h race up n ((m, w) # events) =
     bind (ingest_webhook_event h race (up n) m w) (\<lambda>first.
     bind (ingest_all h race up (Suc n) events) (\<lambda>rest.
     ret (first # rest)))"

definition emit ::
  "Host \<Rightarrow> (db \<Rightarrow> db) \<Rightarrow> bool \<Rightarrow> parties \<Rightarrow> rat \<Rightarrow> string \<Rightarrow> PaymentStatus \<Rightarrow> string option \<Rightarrow> int
   \<Rightarrow> string option \<Rightarrow> IngestResult dbprog" where
  "emit h race up p amount event_type intended_status failure_reason event_seed provider_payment_id =
     ingest_simulated_payment h race up p amount ''INR'' event_seed event_type failure_reason
       (Some intended_status) 1 provider_payment_id"

text \<open>The first event of most scenarios, and a reference read back from the stored row.\<close>

definition emit_failure ::
  "Host \<Rightarrow> (db \<Rightarrow> db) \<Rightarrow> bool \<Rightarrow> parties \<Rightarrow> rat \<Rightarrow> int \<Rightarrow> IngestResult dbprog" where
  "emit_failure h race up p amount seed =
     emit h race up p amount ''payment.failed'' Pay_FAILED (Some ''TEMPORARY_BANK_ERROR'') seed None"

definition stored_reference :: "Host \<Rightarrow> WebhookEvent option \<Rightarrow> string \<Rightarrow> string option" where
  "stored_reference h row k = (case row of None \<Rightarrow> None
     | Some w \<Rightarrow> let raw = dict_get (wh_payload w) k in if truthy raw then Some (json_str h raw) else None)"

definition scenario_B :: "Host \<Rightarrow> (db \<Rightarrow> db) \<Rightarrow> (nat \<Rightarrow> bool) \<Rightarrow> parties \<Rightarrow> rat \<Rightarrow> int \<Rightarrow> IngestResult list dbprog" where
  "scenario_B h race up p amount seed =
     bind (emit_failure h race (up 0) p amount seed) (\<lambda>first.
     bind (gets (\<lambda>s. get_webhook s (ir_webhook_event_id first))) (\<lambda>row. case row of
       None \<Rightarrow> raise (IngestionError ''INVALID_PROVIDER_EVENT'' 400)
     | Some w \<Rightarrow>
         bind (ingest race (up 1) (provider_event_from_row h w) (fst p)) (\<lambda>second.
         ret [first, second])))"

definition scenario_C :: "Host \<Rightarrow> (db \<Rightarrow> db) \<Rightarrow> (nat \<Rightarrow> bool) \<Rightarrow> parties \<Rightarrow> rat \<Rightarrow> int \<Rightarrow> IngestResult list dbprog" where
  "scenario_C h race up p amount seed =
     bind (emit_failure h race (up 0) p amount seed) (\<lambda>first.
     bind (gets (\<lambda>s. get_webhook s (ir_webhook_event_id first))) (\<lambda>row.
     bind (emit h race (up 1) p amount ''payment.captured'' Pay_CAPTURED None (seed + 1)
             (stored_reference h row ''provider_payment_id'')) (\<lambda>second.
     ret [first, second])))"

definition scenario_G :: "Host \<Rightarrow> (db \<Rightarrow> db) \<Rightarrow> (nat \<Rightarrow> bool) \<Rightarrow> parties \<Rightarrow> rat \<Rightarrow> int \<Rightarrow> IngestResult list dbprog" where
  "scenario_G h race up p amount seed =
     bind (emit_failure h race (up 0) p amount seed) (\<lambda>first.
     bind (gets (\<lambda>s. get_webhook s (ir_webhook_event_id first))) (\<lambda>row.
     bind (ingest_webhook_event h race (up 1) (fst p)
             (explicit_fields (fst (snd p)) amount (''evt_valid_capture_'' @ show_int seed)
               (case stored_reference h row ''provider_payment_id'' of
                  Some x \<Rightarrow> if x = [] then ''pay_sim_valid_'' @ show_int seed else x
                | None \<Rightarrow> ''pay_sim_valid_'' @ show_int seed)
               (stored_reference h row ''provider_order_id'') ''payment.captured'' ''CAPTURED'' None None)) (\<lambda>second.
     ret [first, second])))"

definition play_scenario ::
  "Host \<Rightarrow> (db \<Rightarrow> db) \<Rightarrow> (nat \<Rightarrow> bool) \<Rightarrow> string \<Rightarrow> parties \<Rightarrow> rat \<Rightarrow> int \<Rightarrow> IngestResult list dbprog" where
  "play_scenario h race up key p amount seed =
     (let m = fst p; c = fst (snd p); explicit = ingest_all h race up 0 in
      if key \<in> {''A'', ''SCENARIO_A''} then
        bind (emit_failure h race (up 0) p amount seed) (\<lambda>r. ret [r])
      else if key \<in> {''B'', ''SCENARIO_B''} then scenario_B h race up p amount seed
      else if key \<in> {''C'', ''SCENARIO_C''} then scenario_C h race up p amount seed
      else if key \<in> {''E'', ''SCENARIO_E''} then
        bind (emit h race (up 0) p amount ''payment.unknown_custom_type'' Pay_FAILED (Some ''UNKNOWN'') seed None)
          (\<lambda>r. ret [r])
      else if key \<in> {''G'', ''VALID_RECOVERY''} then scenario_G h race up p amount seed
      else if key \<in> {''H'', ''WRONG_ORDER''} then explicit (wrong_order_events seed m c amount)
      else if key \<in> {''I'', ''WRONG_CUSTOMER''} then
        bind (ensure_alt_simulator_customer h race) (\<lambda>alt.
        explicit (wrong_customer_events (cust_id alt) seed m c amount))
      else if key \<in> {''J'', ''WRONG_MERCHANT''} then
        bind (ensure_alt_simulator_merchant h race) (\<lambda>(alt, alt_customer).
        explicit (wrong_merchant_events (mer_id alt, cust_id alt_customer) seed m c amount))
      else if key \<in> {''K'', ''PARTIAL_CAPTURE''} then explicit (partial_capture_events seed m c amount)
      else if key \<in> {''L'', ''DUPLICATE_CAPTURE''} then explicit (duplicate_capture_events seed m c amount)
      else if key \<in> {''M'', ''DELAYED_CAPTURE''} then
        bind now (\<lambda>t. explicit (delayed_capture_events t seed m c amount))
      else if key \<in> {''N'', ''CAPTURE_BEFORE_CASE''} then explicit (capture_before_case_events seed m c amount)
      else raise (IngestionError ''INVALID_PROVIDER_EVENT'' 400))"

definition run_scenario ::
  "Host \<Rightarrow> (db \<Rightarrow> db) \<Rightarrow> (nat \<Rightarrow> bool) \<Rightarrow> int \<Rightarrow> string \<Rightarrow> string option \<Rightarrow> int option \<Rightarrow> rat option
   \<Rightarrow> IngestResult list dbprog" where
  "run_scenario h race up simulation_seed scenario merchant_slug seed amount =
     (let resolve = resolve_simulation_parties h race None merchant_slug None None;
          resolved_seed = (case seed of Some n \<Rightarrow> n | None \<Rightarrow> simulation_seed);
          resolved_amount = (case amount of None \<Rightarrow> 499 | Some a \<Rightarrow> if a = 0 then 499 else a);
          key = map upper_char (strip scenario) in
      bind resolve (\<lambda>p.
      if key \<in> {''O'', ''ALREADY_COUNTED''}
      then bind resolve (\<lambda>p'. play_scenario h race up ''G'' p' resolved_amount resolved_seed)
      else play_scenario h race up key p resolved_amount resolved_seed))"

subsection \<open>Contracts\<close>

lemma creditless_parties: "creditless (insert_merchant m)" "creditless (insert_customer c)"
  by (rule creditless_other; auto simp: insert_merchant_def insert_customer_def split: if_splits)+

lemma creditless_find_or_insert:
  "safe_race race \<Longrightarrow> creditless insert_row \<Longrightarrow> creditless (find_or_insert race look insert_row)"
  unfolding find_or_insert_def by (intro creditless_rules creditless_race)

lemma creditless_pair: "(\<And>x y. creditless (f x y)) \<Longrightarrow> creditless (case v of (x, y) \<Rightarrow> f x y)"
  by (cases v) simp

lemma creditless_fixtures:
  assumes "safe_race race"
  shows "creditless (ensure_simulator_fixtures h race)"
    and "creditless (ensure_alt_simulator_customer h race)"
    and "creditless (ensure_alt_simulator_merchant h race)"
proof -
  show f: "creditless (ensure_simulator_fixtures h race)"
    unfolding ensure_simulator_fixtures_def
    by (intro creditless_rules creditless_find_or_insert [OF assms] creditless_parties)
  show "creditless (ensure_alt_simulator_customer h race)"
    unfolding ensure_alt_simulator_customer_def
    by (intro creditless_rules creditless_find_or_insert [OF assms] creditless_parties creditless_pair f)
  show "creditless (ensure_alt_simulator_merchant h race)"
    unfolding ensure_alt_simulator_merchant_def
    by (intro creditless_rules creditless_find_or_insert [OF assms] creditless_parties)
qed

lemma creditless_resolve:
  assumes "safe_race race"
  shows "creditless (resolve_merchant_id h race m slug allow)"
    and "creditless (resolve_webhook_parties h race m slug c e)"
    and "creditless (resolve_simulation_parties h race m slug c e)"
proof -
  show r: "creditless (resolve_merchant_id h race m slug allow)" for m slug allow
    unfolding resolve_merchant_id_def by (intro creditless_rules creditless_pair creditless_fixtures [OF assms])
  show "creditless (resolve_webhook_parties h race m slug c e)"
    "creditless (resolve_simulation_parties h race m slug c e)"
    unfolding resolve_webhook_parties_def resolve_simulation_parties_def
    by (intro creditless_rules creditless_fixtures [OF assms] r)+
qed

lemma creditless_emissions:
  assumes "safe_race race"
  shows "creditless (ingest_webhook_event h race up m w)"
    and "creditless (ingest_simulated_payment h race up p a c n ty fr st att ref)"
    and "creditless (ingest_all h race ups k events)"
proof -
  show w: "creditless (ingest_webhook_event h race up m w)" for up m and w :: "'a WebhookFields_scheme"
    unfolding ingest_webhook_event_def by (intro creditless_rules creditless_ingest [OF assms])
  show "creditless (ingest_simulated_payment h race up p a c n ty fr st att ref)"
    unfolding ingest_simulated_payment_def by (intro creditless_rules creditless_ingest [OF assms])
  have "creditless (ingest_webhook_event h race up m w)" for up m and w :: WebhookFields
    unfolding ingest_webhook_event_def by (intro creditless_rules creditless_ingest [OF assms])
  then show "creditless (ingest_all h race ups k events)"
    by (induction h race ups k events rule: ingest_all.induct) (auto intro!: creditless_rules)
qed

lemma creditless_simulation:
  assumes "safe_race race"
  shows "creditless (ingest_simulator_webhook h race up body)"
    and "creditless (simulate_event h race up n request)"
    and "creditless (run_scenario h race ups n scenario slug seed amount)"
proof -
  have e: "creditless (emit h race u p a ty st fr k ref)" "creditless (emit_failure h race u p a k)" for u p a ty st fr k ref
    unfolding emit_def emit_failure_def by (rule creditless_emissions [OF assms])+
  have "creditless (play_scenario h race ups key p a k)" for key p a k
    unfolding play_scenario_def scenario_B_def scenario_C_def scenario_G_def Let_def
    by (intro creditless_rules creditless_pair creditless_fixtures [OF assms] creditless_emissions [OF assms]
        creditless_ingest [OF assms] e)
  then show "creditless (run_scenario h race ups n scenario slug seed amount)"
    unfolding run_scenario_def Let_def by (intro creditless_rules creditless_resolve [OF assms])
  show "creditless (ingest_simulator_webhook h race up body)" "creditless (simulate_event h race up n request)"
    unfolding ingest_simulator_webhook_def simulate_event_def
    by (intro creditless_rules creditless_pair creditless_resolve [OF assms] creditless_emissions [OF assms])+
qed

end
