(* ===== verification/Operator.thy ===== *)
theory Operator
  imports Approvals Ranking Simulation
begin

text \<open>
  The operator console: \<^verbatim>\<open>apps/api/recoverai_api/operator/merchant.py\<close> and \<^verbatim>\<open>service.py\<close>, with the paging
  queries of \<^verbatim>\<open>packages/db/recoverai_db/repositories\<close>. Reading operations are functions of the database;
  the one that writes is \<open>update_policy\<close>. Columns that are only displayed (names, prose) are left out of
  the rows, and the recovery rate is the exact quotient. The lemmas show that a stored policy is the
  one the engine enforces, that the figures of the command center balance, that the pages of the case
  list partition it, and what a client that polls the timeline sees.
\<close>

subsection \<open>The merchant of a request\<close>

definition OperatorError :: "string \<Rightarrow> py_error" where
  "OperatorError code = DomainError code False"

definition resolve_merchant :: "db \<Rightarrow> uuid option \<Rightarrow> string option \<Rightarrow> bool \<Rightarrow> Merchant option res" where
  "resolve_merchant s merchant_id merchant_slug required =
     (let answer = (\<lambda>m. if m = None \<and> required then Inl (OperatorError ''MERCHANT_NOT_FOUND'') else Inr m) in
      case merchant_id of
        Some k \<Rightarrow> answer (get_merchant s k)
      | None \<Rightarrow>
          let given = strip (case merchant_slug of None \<Rightarrow> [] | Some x \<Rightarrow> x);
              slug = (if given = [] then SIMULATOR_MERCHANT_SLUG else given);
              merchant = get_by_slug s slug in
          if merchant = None \<and> slug \<noteq> SIMULATOR_MERCHANT_SLUG then answer None
          else answer (if merchant = None then get_by_slug s SIMULATOR_MERCHANT_SLUG else merchant))"

definition the_merchant :: "db \<Rightarrow> uuid option \<Rightarrow> string option \<Rightarrow> Merchant res" where
  "the_merchant s merchant_id merchant_slug =
     bindE (resolve_merchant s merchant_id merchant_slug True) (\<lambda>m.
       case m of None \<Rightarrow> Inl ValueError | Some x \<Rightarrow> Inr x)"

subsection \<open>Policies\<close>

record PolicySettingsBody =
  pb_max_retry_attempts :: int
  pb_max_discount_percent :: rat
  pb_max_daily_discount_budget :: rat
  pb_high_value_approval_threshold :: rat
  pb_medium_value_approval_threshold :: rat
  pb_max_communications_per_day :: int
  pb_quiet_hours_start :: int
  pb_quiet_hours_end :: int
  pb_automatic_recovery_enabled :: bool
  pb_approval_ttl_minutes :: int
  pb_blocked_action_types :: "string list"

definition valid_policy_body :: "PolicySettingsBody \<Rightarrow> bool" where
  "valid_policy_body b \<longleftrightarrow>
     0 \<le> pb_max_retry_attempts b \<and> pb_max_retry_attempts b \<le> 50
     \<and> 0 \<le> pb_max_discount_percent b \<and> pb_max_discount_percent b \<le> 100
     \<and> 0 \<le> pb_max_daily_discount_budget b
     \<and> 0 \<le> pb_high_value_approval_threshold b \<and> 0 \<le> pb_medium_value_approval_threshold b
     \<and> 0 \<le> pb_max_communications_per_day b \<and> pb_max_communications_per_day b \<le> 100
     \<and> 0 \<le> pb_quiet_hours_start b \<and> pb_quiet_hours_start b \<le> 23
     \<and> 0 \<le> pb_quiet_hours_end b \<and> pb_quiet_hours_end b \<le> 23
     \<and> 1 \<le> pb_approval_ttl_minutes b \<and> pb_approval_ttl_minutes b \<le> 24 * 60"

definition listed_strings :: "Host \<Rightarrow> json \<Rightarrow> string list option" where
  "listed_strings h v = (case v of JList items \<Rightarrow> Some (map (json_str h) items) | _ \<Rightarrow> None)"

definition shown_blocked :: "Host \<Rightarrow> dict option \<Rightarrow> string list" where
  "shown_blocked h settings = (case settings of
     None \<Rightarrow> []
   | Some d \<Rightarrow>
       let nested = (case dict_get d ''policy'' of
             JObj p \<Rightarrow> listed_strings h (dict_get p ''blocked_action_types'') | _ \<Rightarrow> None) in
       case or_else nested (listed_strings h (dict_get d ''blocked_action_types'')) of
         None \<Rightarrow> [] | Some xs \<Rightarrow> xs)"

definition get_policy :: "Host \<Rightarrow> environ \<Rightarrow> Merchant \<Rightarrow> dict res" where
  "get_policy h env m =
     bindE (settings_from_env env) (\<lambda>base.
     bindE (merge_merchant base (mer_settings m)) (\<lambda>merged.
     Inr [(''max_retry_attempts'', JInt (max_retry_attempts merged)),
          (''max_discount_percent'', JDec (max_discount_percent merged)),
          (''max_daily_discount_budget'', JDec (max_daily_discount_budget merged)),
          (''high_value_approval_threshold'', JDec (high_value_approval_threshold merged)),
          (''medium_value_approval_threshold'', JDec (medium_value_approval_threshold merged)),
          (''max_communications_per_day'', JInt (max_communications_per_day merged)),
          (''quiet_hours_start'', JInt (quiet_hours_start merged)),
          (''quiet_hours_end'', JInt (quiet_hours_end merged)),
          (''automatic_recovery_enabled'', JBool (automatic_recovery_enabled merged)),
          (''approval_ttl_minutes'', JInt (approval_ttl_minutes merged)),
          (''blocked_action_types'', JList (map JStr (shown_blocked h (mer_settings m)))),
          (''policy_version'', JStr (policy_version merged))]))"

definition policy_entries :: "PolicySettingsBody \<Rightarrow> dict" where
  "policy_entries b =
     [(''max_retry_attempts'', JInt (pb_max_retry_attempts b)),
      (''max_discount_percent'', JDec (pb_max_discount_percent b)),
      (''max_daily_discount_budget'', JDec (pb_max_daily_discount_budget b)),
      (''high_value_approval_threshold'', JDec (pb_high_value_approval_threshold b)),
      (''medium_value_approval_threshold'', JDec (pb_medium_value_approval_threshold b)),
      (''max_communications_per_day'', JInt (pb_max_communications_per_day b)),
      (''quiet_hours_start'', JInt (pb_quiet_hours_start b)),
      (''quiet_hours_end'', JInt (pb_quiet_hours_end b)),
      (''automatic_recovery_enabled'', JBool (pb_automatic_recovery_enabled b)),
      (''approval_ttl_minutes'', JInt (pb_approval_ttl_minutes b)),
      (''blocked_action_types'', JList (map JStr (pb_blocked_action_types b)))]"

definition nested_policy :: "dict option \<Rightarrow> dict" where
  "nested_policy settings = (case settings of
     None \<Rightarrow> [] | Some d \<Rightarrow> (case dict_get d ''policy'' of JObj p \<Rightarrow> p | _ \<Rightarrow> []))"

definition with_policy :: "dict option \<Rightarrow> PolicySettingsBody \<Rightarrow> dict" where
  "with_policy settings b =
     dict_set ''policy'' (JObj (dict_update (nested_policy settings) (policy_entries b)))
       (case settings of None \<Rightarrow> [] | Some d \<Rightarrow> d)"

definition update_policy :: "Host \<Rightarrow> environ \<Rightarrow> Merchant \<Rightarrow> PolicySettingsBody \<Rightarrow> dict dbprog" where
  "update_policy h env m b =
     (if \<exists>a \<in> set (pb_blocked_action_types b). a \<notin> set LEGAL_ACTIONS
      then raise (OperatorError ''INVALID_POLICY'')
      else if pb_medium_value_approval_threshold b > pb_high_value_approval_threshold b
      then raise (OperatorError ''INVALID_POLICY'')
      else
        seqp (modify (\<lambda>s. s\<lparr>db_merchants := update_row mer_id (mer_id m)
                (\<lambda>x. x\<lparr>mer_settings := Some (with_policy (mer_settings m) b)\<rparr>) (db_merchants s)\<rparr>))
        (bind (deref get_merchant (mer_id m)) (\<lambda>m'. lift (get_policy h env m'))))"

subsection \<open>The command center\<close>

record CommandCenter =
  cc_merchant :: "uuid option"
  cc_partial :: bool
  cc_revenue_at_risk :: rat
  cc_revenue_recovered :: rat
  cc_expected_recovery :: rat
  cc_recovery_rate :: "rat option"
  cc_active_cases :: nat
  cc_pending_approvals :: nat
  cc_failed_actions :: nat
  cc_policy_blocks :: nat

definition count_where :: "('a \<Rightarrow> bool) \<Rightarrow> 'a list \<Rightarrow> nat" where
  "count_where P xs = length (filter P xs)"

definition latest_decisions :: "db \<Rightarrow> uuid \<Rightarrow> RecoveryDecision list" where
  "latest_decisions s mid =
     (let mine = filter (\<lambda>d. rd_merchant_id d = mid) (db_decisions s) in
      filter (\<lambda>d. \<forall>e \<in> set mine. rd_recovery_case_id e = rd_recovery_case_id d \<longrightarrow> rd_created_at e \<le> rd_created_at d) mine)"

definition CLOSED_STATUSES :: "RecoveryCaseStatus list" where
  "CLOSED_STATUSES = [Case_RECOVERED, Case_NOT_RECOVERED, Case_STOPPED]"

definition merchant_metrics :: "db \<Rightarrow> uuid \<Rightarrow> CommandCenter" where
  "merchant_metrics s mid =
     (let mine = filter (\<lambda>c. rc_merchant_id c = mid) (db_cases s);
          open_cases = filter (\<lambda>c. rc_closed_at c = None) mine;
          recovered_count = count_where (\<lambda>c. rc_status c = Case_RECOVERED) mine;
          closed_count = count_where (\<lambda>c. rc_status c \<in> set CLOSED_STATUSES) mine in
      \<lparr>cc_merchant = Some mid, cc_partial = False,
       cc_revenue_at_risk = sum_list (map (\<lambda>c. rc_amount_at_risk c - rc_amount_recovered c) open_cases),
       cc_revenue_recovered = sum_list (map rc_amount_recovered mine),
       cc_expected_recovery = sum_list (map (\<lambda>d. case rd_selected_expected_value d of None \<Rightarrow> 0 | Some v \<Rightarrow> v)
                                          (latest_decisions s mid)),
       cc_recovery_rate = (if closed_count = 0 then None else Some (of_nat recovered_count / of_nat closed_count)),
       cc_active_cases = length open_cases,
       cc_pending_approvals = count_where (\<lambda>a. ap_merchant_id a = mid \<and> ap_status a = Appr_PENDING) (db_approvals s),
       cc_failed_actions = count_where (\<lambda>a. ra_merchant_id a = mid \<and> ra_status a = Act_FAILED) (db_actions s),
       cc_policy_blocks = count_where (\<lambda>e. pe_merchant_id e = mid \<and> \<not> pe_allowed e) (db_policy_evaluations s)\<rparr>)"

definition command_center_metrics :: "db \<Rightarrow> uuid option \<Rightarrow> string option \<Rightarrow> CommandCenter res" where
  "command_center_metrics s merchant_id merchant_slug =
     bindE (resolve_merchant s merchant_id merchant_slug False) (\<lambda>m. case m of
       None \<Rightarrow> Inr \<lparr>cc_merchant = None, cc_partial = True, cc_revenue_at_risk = 0, cc_revenue_recovered = 0,
                   cc_expected_recovery = 0, cc_recovery_rate = None, cc_active_cases = 0,
                   cc_pending_approvals = 0, cc_failed_actions = 0, cc_policy_blocks = 0\<rparr>
     | Some x \<Rightarrow> Inr (merchant_metrics s (mer_id x)))"

subsection \<open>Lists and pages\<close>

record CaseQuery =
  cq_status :: "string option"
  cq_case_type :: "string option"
  cq_min_amount :: "rat option"
  cq_max_amount :: "rat option"
  cq_sort :: string
  cq_direction :: string

definition matches_query :: "uuid \<Rightarrow> CaseQuery \<Rightarrow> RecoveryCase \<Rightarrow> bool" where
  "matches_query mid q c \<longleftrightarrow>
     rc_merchant_id c = mid
     \<and> (case cq_status q of None \<Rightarrow> True | Some x \<Rightarrow> case_status_value (rc_status c) = x)
     \<and> (case cq_case_type q of None \<Rightarrow> True | Some x \<Rightarrow> case_type_value (rc_case_type c) = x)
     \<and> (case cq_min_amount q of None \<Rightarrow> True | Some x \<Rightarrow> rc_amount_at_risk c \<ge> x)
     \<and> (case cq_max_amount q of None \<Rightarrow> True | Some x \<Rightarrow> rc_amount_at_risk c \<le> x)"

text \<open>
  A stable sort on a column, upwards or downwards; the rows come in falling order of their keys, so that ties of
  the column are in that order.
\<close>

definition ordered_by :: "bool \<Rightarrow> ('a \<Rightarrow> 'k :: linorder) \<Rightarrow> 'a list \<Rightarrow> 'a list" where
  "ordered_by ascending f xs = (if ascending then sort_key f xs else rev (sort_key f (rev xs)))"

definition case_order :: "CaseQuery \<Rightarrow> RecoveryCase list \<Rightarrow> RecoveryCase list" where
  "case_order q cases =
     (let up = (lower (cq_direction q) = ''asc''); rows = ordered_by False rc_id cases in
      if cq_sort q = ''amount_at_risk'' then ordered_by up rc_amount_at_risk rows
      else if cq_sort q = ''amount_recovered'' then ordered_by up rc_amount_recovered rows
      else if cq_sort q = ''status'' then ordered_by up (\<lambda>c. case_status_value (rc_status c)) rows
      else if cq_sort q = ''case_type'' then ordered_by up (\<lambda>c. case_type_value (rc_case_type c)) rows
      else if cq_sort q = ''priority'' then ordered_by up rc_priority rows
      else ordered_by up rc_created_at rows)"

definition page_cases :: "db \<Rightarrow> uuid \<Rightarrow> CaseQuery \<Rightarrow> nat \<Rightarrow> nat \<Rightarrow> RecoveryCase list \<times> nat" where
  "page_cases s mid q offset limit =
     (let rows = filter (matches_query mid q) (db_cases s) in
      (take limit (drop offset (case_order q rows)), length rows))"

definition latest_decision :: "db \<Rightarrow> uuid \<Rightarrow> uuid \<Rightarrow> RecoveryDecision option" where
  "latest_decision s mid i =
     (case filter (\<lambda>d. rd_recovery_case_id d = i
              \<and> (\<exists>e \<in> set (latest_decisions s mid). rd_recovery_case_id e = i \<and> rd_created_at e = rd_created_at d))
            (db_decisions s) of [] \<Rightarrow> None | ds \<Rightarrow> Some (last ds))"

definition latest_prediction :: "db \<Rightarrow> uuid \<Rightarrow> uuid \<Rightarrow> ModelPrediction option" where
  "latest_prediction s mid i =
     (let mine = filter (\<lambda>p. mp_merchant_id p = mid \<and> mp_recovery_case_id p = i) (db_predictions s);
          newest = filter (\<lambda>p. \<forall>e \<in> set mine. mp_created_at e \<le> mp_created_at p) mine in
      case filter (\<lambda>p. mp_recovery_case_id p = i \<and> (\<exists>e \<in> set newest. mp_created_at e = mp_created_at p))
             (db_predictions s) of [] \<Rightarrow> None | ps \<Rightarrow> Some (last ps))"

record CaseRow =
  row_case :: RecoveryCase
  row_customer :: "Customer option"
  row_failure_reason :: "string option"
  row_recovery_probability :: "rat option"
  row_recommended_action :: "string option"
  row_expected_recovery :: "rat option"

definition case_row ::
  "RecoveryCase \<Rightarrow> Customer option \<Rightarrow> Payment option \<Rightarrow> RecoveryDecision option \<Rightarrow> ModelPrediction option \<Rightarrow> CaseRow" where
  "case_row c customer payment decision prediction =
     \<lparr>row_case = c, row_customer = customer,
      row_failure_reason = (case payment of None \<Rightarrow> None | Some p \<Rightarrow> pay_failure_reason p),
      row_recovery_probability = map_option mp_probability prediction,
      row_recommended_action = (case decision of None \<Rightarrow> None
        | Some d \<Rightarrow> if rd_selected_action d = ''NONE'' then None else Some (rd_selected_action d)),
      row_expected_recovery = (case decision of None \<Rightarrow> None | Some d \<Rightarrow> rd_selected_expected_value d)\<rparr>"

definition listed_row :: "db \<Rightarrow> uuid \<Rightarrow> RecoveryCase \<Rightarrow> CaseRow" where
  "listed_row s mid c =
     case_row c (find_row cust_id (rc_customer_id c) (db_customers s))
       (case rc_payment_id c of None \<Rightarrow> None | Some k \<Rightarrow> session_get_payment s k)
       (latest_decision s mid (rc_id c)) (latest_prediction s mid (rc_id c))"

record 'a Listing =
  lst_items :: "'a list"
  lst_page :: nat
  lst_page_size :: nat
  lst_total :: nat

definition list_cases ::
  "db \<Rightarrow> uuid option \<Rightarrow> string option \<Rightarrow> CaseQuery \<Rightarrow> nat \<Rightarrow> nat \<Rightarrow> CaseRow Listing res" where
  "list_cases s merchant_id merchant_slug q page page_size =
     bindE (the_merchant s merchant_id merchant_slug) (\<lambda>m.
     let (cases, total) = page_cases s (mer_id m) q ((page - 1) * page_size) page_size in
     Inr \<lparr>lst_items = map (listed_row s (mer_id m)) cases, lst_page = page, lst_page_size = page_size, lst_total = total\<rparr>)"

record ApprovalRow =
  aw_approval :: Approval
  aw_case :: "RecoveryCase option"
  aw_customer :: "Customer option"
  aw_proposed_action :: "RecoveryActionType option"
  aw_amount :: "rat option"
  aw_risk :: "RiskLevel option"
  aw_expected_value :: "json option"
  aw_reason :: "json option"

definition first_meta :: "dict \<Rightarrow> string \<Rightarrow> string \<Rightarrow> json option" where
  "first_meta meta a b =
     (let v = (if truthy (dict_get meta a) then dict_get meta a else dict_get meta b) in
      if v = JNull then None else Some v)"

definition approval_row :: "db \<Rightarrow> Approval \<Rightarrow> ApprovalRow" where
  "approval_row s a =
     (let c = get_case_unscoped s (ap_recovery_case_id a);
          action = (case ap_recovery_action_id a of None \<Rightarrow> None | Some k \<Rightarrow> find_row ra_id k (db_actions s));
          meta = (case action of None \<Rightarrow> [] | Some x \<Rightarrow> ra_metadata x) in
      \<lparr>aw_approval = a, aw_case = c,
       aw_customer = (case c of None \<Rightarrow> None | Some x \<Rightarrow> find_row cust_id (rc_customer_id x) (db_customers s)),
       aw_proposed_action = map_option ra_action_type action,
       aw_amount = (case action of Some x \<Rightarrow> ra_amount x | None \<Rightarrow> map_option rc_amount_at_risk c),
       aw_risk = map_option ra_risk_level action,
       aw_expected_value = first_meta meta ''expected_recovery'' ''expected_value'',
       aw_reason = (if nonempty (ap_decision_reason a) then Some (JStr (the (ap_decision_reason a)))
                    else first_meta meta ''policy_reason'' ''reason'')\<rparr>)"

fun approval_status_value :: "ApprovalStatus \<Rightarrow> string" where
  "approval_status_value Appr_PENDING = ''PENDING''"
| "approval_status_value Appr_APPROVED = ''APPROVED''"
| "approval_status_value Appr_REJECTED = ''REJECTED''"
| "approval_status_value Appr_EXPIRED = ''EXPIRED''"
| "approval_status_value Appr_CANCELLED = ''CANCELLED''"

definition list_approvals ::
  "db \<Rightarrow> uuid option \<Rightarrow> string option \<Rightarrow> string option \<Rightarrow> nat \<Rightarrow> nat \<Rightarrow> ApprovalRow Listing res" where
  "list_approvals s merchant_id merchant_slug status page page_size =
     bindE (the_merchant s merchant_id merchant_slug) (\<lambda>m.
     let rows = filter (\<lambda>a. ap_merchant_id a = mer_id m
                   \<and> (nonempty status \<longrightarrow> approval_status_value (ap_status a) = the status)) (db_approvals s) in
     Inr \<lparr>lst_items = map (approval_row s)
            (take page_size (drop ((page - 1) * page_size) (ordered_by False ap_created_at rows))),
          lst_page = page, lst_page_size = page_size, lst_total = length rows\<rparr>)"

subsection \<open>One case\<close>

definition require_case :: "db \<Rightarrow> uuid \<Rightarrow> Merchant option \<Rightarrow> RecoveryCase res" where
  "require_case s i merchant = (case get_case_unscoped s i of
     None \<Rightarrow> Inl (OperatorError ''RECOVERY_CASE_NOT_FOUND'')
   | Some c \<Rightarrow>
       if (case merchant of None \<Rightarrow> False | Some m \<Rightarrow> rc_merchant_id c \<noteq> mer_id m)
       then Inl (OperatorError ''MERCHANT_MISMATCH'') else Inr c)"

definition TIMELINE_LIMIT :: nat where
  "TIMELINE_LIMIT = 200"

definition list_for_case_since :: "db \<Rightarrow> uuid \<Rightarrow> uuid \<Rightarrow> timestamp option \<Rightarrow> AuditEvent list" where
  "list_for_case_since s mid i since =
     take TIMELINE_LIMIT (sort_key au_created_at
       (filter (\<lambda>e. au_merchant_id e = mid \<and> au_case_id e = Some i
                  \<and> (case since of None \<Rightarrow> True | Some t \<Rightarrow> au_created_at e > t)) (db_audit s)))"

definition case_timeline ::
  "db \<Rightarrow> uuid \<Rightarrow> Merchant option \<Rightarrow> timestamp option \<Rightarrow> (timestamp option \<times> AuditEvent list) res" where
  "case_timeline s i merchant since =
     bindE (require_case s i merchant) (\<lambda>c.
     let rows = list_for_case_since s (rc_merchant_id c) (rc_id c) since in
     Inr (if rows = [] then since else Some (au_created_at (last rows)), rows))"

subsection \<open>A stored policy is the one in force\<close>

text \<open>The settings a policy form describes, on top of what the merchant's nested policy said before.\<close>

definition with_body :: "RecoverySettings \<Rightarrow> PolicySettingsBody \<Rightarrow> RecoverySettings" where
  "with_body st b = st\<lparr>max_retry_attempts := pb_max_retry_attempts b, max_discount_percent := pb_max_discount_percent b,
     max_daily_discount_budget := pb_max_daily_discount_budget b,
     high_value_approval_threshold := pb_high_value_approval_threshold b,
     medium_value_approval_threshold := pb_medium_value_approval_threshold b,
     max_communications_per_day := pb_max_communications_per_day b, quiet_hours_start := pb_quiet_hours_start b,
     quiet_hours_end := pb_quiet_hours_end b, automatic_recovery_enabled := pb_automatic_recovery_enabled b,
     approval_ttl_minutes := pb_approval_ttl_minutes b\<rparr>"

lemma dict_set_nonempty [simp]: "dict_set k v d \<noteq> []"
  by (cases d) (auto split: if_splits)

lemma policy_section_with: "policy_section (Some (with_policy settings b))
    = dict_update (nested_policy settings) (policy_entries b)"
  by (simp add: policy_section_def with_policy_def)

lemma entries_nonempty: "dict_update d (policy_entries b) \<noteq> []"
  by (simp add: dict_update_def policy_entries_def)

lemma merge_with_policy:
  assumes "merge_merchant base (Some [(''policy'', JObj (nested_policy settings))]) = Inr st"
  shows "merge_merchant base (Some (with_policy settings b)) = Inr (with_body st b)"
proof -
  let ?d = "nested_policy settings" and ?e = "dict_update (nested_policy settings) (policy_entries b)"
  have old: "policy_section (Some [(''policy'', JObj ?d)]) = ?d"
    by (simp add: policy_section_def dict_get_def)
  have kept: "int_value ?d ''recovery_window_hours'' (recovery_window_hours base) = Inr (recovery_window_hours st)"
    "int_value ?d ''recovery_ordering_grace_minutes'' (recovery_ordering_grace_minutes base) = Inr (recovery_ordering_grace_minutes st)"
    "version_value ?d ''policy_version'' (policy_version base) = policy_version st"
    using assms unfolding merge_merchant_def old Let_def
    by (auto simp: int_value_def value_or_def version_value_def dict_get_def bindE_Inr_iff split: if_splits)
  have "dict_get ?e k = dict_get ?d k" if "k \<in> {''recovery_window_hours'', ''recovery_ordering_grace_minutes'', ''policy_version''}" for k
    using that by (intro dict_get_update_notin) (auto simp: policy_entries_def)
  then have same: "int_value ?e ''recovery_window_hours'' x = int_value ?d ''recovery_window_hours'' x"
    "int_value ?e ''recovery_ordering_grace_minutes'' x = int_value ?d ''recovery_ordering_grace_minutes'' x"
    "version_value ?e ''policy_version'' v = version_value ?d ''policy_version'' v" for x v
    by (simp_all add: int_value_def value_or_def version_value_def)
  have new: "dict_get ?e ''high_value_approval_threshold'' = JDec (pb_high_value_approval_threshold b)"
    "dict_get ?e ''medium_value_approval_threshold'' = JDec (pb_medium_value_approval_threshold b)"
    "dict_get ?e ''max_retry_attempts'' = JInt (pb_max_retry_attempts b)"
    "dict_get ?e ''max_discount_percent'' = JDec (pb_max_discount_percent b)"
    "dict_get ?e ''max_daily_discount_budget'' = JDec (pb_max_daily_discount_budget b)"
    "dict_get ?e ''max_communications_per_day'' = JInt (pb_max_communications_per_day b)"
    "dict_get ?e ''quiet_hours_start'' = JInt (pb_quiet_hours_start b)"
    "dict_get ?e ''quiet_hours_end'' = JInt (pb_quiet_hours_end b)"
    "dict_get ?e ''automatic_recovery_enabled'' = JBool (pb_automatic_recovery_enabled b)"
    "dict_get ?e ''approval_ttl_minutes'' = JInt (pb_approval_ttl_minutes b)"
    by (simp_all add: dict_update_def policy_entries_def)
  show ?thesis
    unfolding merge_merchant_def policy_section_with Let_def
    by (simp add: entries_nonempty same kept)
       (simp add: int_value_def decimal_value_def bool_value_def value_or_def new with_body_def)
qed

lemma blocked_with_policy:
  "blocked_actions (policy_section (Some (with_policy settings b))) = pb_blocked_action_types b"
  "shown_blocked h (Some (with_policy settings b)) = pb_blocked_action_types b"
proof -
  have get: "dict_get (dict_update (nested_policy settings) (policy_entries b)) ''blocked_action_types''
      = JList (map JStr (pb_blocked_action_types b))"
    by (simp add: dict_update_def policy_entries_def)
  have "concat (map (\<lambda>x. [x]) xs) = xs" for xs :: "string list" by (induction xs) auto
  then show "blocked_actions (policy_section (Some (with_policy settings b))) = pb_blocked_action_types b"
    by (simp add: policy_section_with blocked_actions_def get comp_def)
  have "map (json_str h) (map JStr xs) = xs" for xs by (induction xs) (auto simp: json_str_def)
  then show "shown_blocked h (Some (with_policy settings b)) = pb_blocked_action_types b"
    by (simp add: shown_blocked_def with_policy_def get listed_strings_def or_else_def)
qed

lemma get_merchant_update:
  "find_row mer_id k (update_row mer_id i (\<lambda>x. x\<lparr>mer_settings := v\<rparr>) rows) =
     (if k = i then map_option (\<lambda>x. x\<lparr>mer_settings := v\<rparr>) (find_row mer_id k rows) else find_row mer_id k rows)"
  by (induction rows) (auto simp: find_row_def update_row_def)

lemma update_policy_run:
  assumes "get_merchant s (mer_id m) = Some m" and "set (pb_blocked_action_types b) \<subseteq> set LEGAL_ACTIONS"
    and "pb_medium_value_approval_threshold b \<le> pb_high_value_approval_threshold b"
  shows "update_policy h env m b s =
    (get_policy h env (m\<lparr>mer_settings := Some (with_policy (mer_settings m) b)\<rparr>),
     s\<lparr>db_merchants := update_row mer_id (mer_id m)
       (\<lambda>x. x\<lparr>mer_settings := Some (with_policy (mer_settings m) b)\<rparr>) (db_merchants s)\<rparr>)"
  using assms
  by (auto simp: update_policy_def prog_simps deref_def get_merchant_def get_merchant_update split: sum.splits)


definition strict_body :: PolicySettingsBody where
  "strict_body = \<lparr>pb_max_retry_attempts = 1, pb_max_discount_percent = 0, pb_max_daily_discount_budget = 0,
     pb_high_value_approval_threshold = 1000, pb_medium_value_approval_threshold = 100,
     pb_max_communications_per_day = 1, pb_quiet_hours_start = 20, pb_quiet_hours_end = 9,
     pb_automatic_recovery_enabled = True, pb_approval_ttl_minutes = 30,
     pb_blocked_action_types = [''OFFER_DISCOUNT'']\<rparr>"


text \<open>
  Settings stored beside the nested policy stop counting with the first update: the nested section
  replaces the flat one for the program, not only for the fields of the form. And the console lists
  flat blocked actions that the engine no longer reads.
\<close>

lemma update_hides_flat_settings:
  "merge_merchant default_settings (Some [(''recovery_window_hours'', JInt 24)])
     = Inr (default_settings\<lparr>recovery_window_hours := 24\<rparr>)
   \<and> merge_merchant default_settings (Some (with_policy (Some [(''recovery_window_hours'', JInt 24)]) b))
     = Inr (with_body default_settings b)"
proof
  show "merge_merchant default_settings (Some [(''recovery_window_hours'', JInt 24)])
     = Inr (default_settings\<lparr>recovery_window_hours := 24\<rparr>)"
    by (simp add: merge_merchant_def policy_section_def dict_get_def int_value_def decimal_value_def bool_value_def
        value_or_def version_value_def default_settings_def)
  show "merge_merchant default_settings (Some (with_policy (Some [(''recovery_window_hours'', JInt 24)]) b))
     = Inr (with_body default_settings b)"
    by (rule merge_with_policy)
       (simp add: nested_policy_def merge_merchant_def policy_section_def dict_get_def)
qed

lemma shown_block_not_enforced:
  "shown_blocked h (Some [(''policy'', JObj []), (''blocked_action_types'', JList [JStr ''RETRY_NOW''])]) = [''RETRY_NOW'']
   \<and> blocked_actions (policy_section (Some [(''policy'', JObj []), (''blocked_action_types'', JList [JStr ''RETRY_NOW''])])) = []"
  by (simp add: shown_blocked_def policy_section_def blocked_actions_def listed_strings_def or_else_def dict_get_def json_str_def)

subsection \<open>The figures balance\<close>

definition exposure :: "db \<Rightarrow> uuid \<Rightarrow> rat" where
  "exposure s mid = sum_list (map rc_amount_at_risk (filter (\<lambda>c. rc_merchant_id c = mid) (db_cases s)))"

definition written_off :: "db \<Rightarrow> uuid \<Rightarrow> rat" where
  "written_off s mid = sum_list (map (\<lambda>c. rc_amount_at_risk c - rc_amount_recovered c)
     (filter (\<lambda>c. rc_merchant_id c = mid \<and> rc_status c = Case_STOPPED) (db_cases s)))"

lemma sum_list_partition:
  fixes f :: "'a \<Rightarrow> rat"
  shows "sum_list (map f (filter P xs)) + sum_list (map f (filter (\<lambda>x. \<not> P x) xs)) = sum_list (map f xs)"
  by (induction xs) (simp_all add: algebra_simps)

lemma sum_list_filter_eq:
  fixes f :: "'a \<Rightarrow> rat"
  assumes "\<And>x. x \<in> set xs \<Longrightarrow> P x \<noteq> Q x \<Longrightarrow> f x = 0"
  shows "sum_list (map f (filter P xs)) = sum_list (map f (filter Q xs))"
  using assms by (induction xs) auto

lemma closed_case_remainder:
  assumes "sound s" "c \<in> set (db_cases s)"
  shows "0 \<le> rc_amount_recovered c" "rc_amount_recovered c \<le> rc_amount_at_risk c"
    and "rc_closed_at c \<noteq> None \<Longrightarrow> rc_status c \<noteq> Case_STOPPED \<Longrightarrow> rc_amount_recovered c = rc_amount_at_risk c"
    and "rc_status c = Case_STOPPED \<Longrightarrow> rc_closed_at c \<noteq> None"
proof -
  have ok: "case_ok c" and dist: "distinct (map rc_id (db_cases s))"
    using assms by (auto simp: sound_def db_ok_def)
  have get: "get_case_unscoped s (rc_id c) = Some c"
    using find_row_unique [OF dist assms(2)] by (simp add: get_case_unscoped_def)
  show "0 \<le> rc_amount_recovered c" "rc_amount_recovered c \<le> rc_amount_at_risk c"
    "rc_status c = Case_STOPPED \<Longrightarrow> rc_closed_at c \<noteq> None"
    using ok by (auto simp: case_ok_def is_terminal_def TERMINAL_RECOVERY_STATUSES_def)
  assume "rc_closed_at c \<noteq> None" "rc_status c \<noteq> Case_STOPPED"
  then have "rc_status c = Case_RECOVERED"
    using ok by (auto simp: case_ok_def is_terminal_def TERMINAL_RECOVERY_STATUSES_def)
  with get assms(1) show "rc_amount_recovered c = rc_amount_at_risk c" unfolding sound_def credit_ok_def by blast
qed

lemma count_le: "(\<And>x. P x \<Longrightarrow> Q x) \<Longrightarrow> count_where P xs \<le> count_where Q xs"
  by (induction xs) (auto simp: count_where_def)

lemma backed_once:
  assumes "sound s"
  shows "distinct (map rc_verified_payment_id (filter (\<lambda>c. rc_merchant_id c = mid \<and> 0 < rc_amount_recovered c) (db_cases s)))"
proof -
  have dist: "distinct (map rc_id (db_cases s))" using assms by (simp add: sound_def db_ok_def)
  have get: "get_case_unscoped s (rc_id c) = Some c" if "c \<in> set (db_cases s)" for c
    using find_row_unique [OF dist that] by (simp add: get_case_unscoped_def)
  have "inj_on rc_verified_payment_id {c \<in> set (db_cases s). rc_merchant_id c = mid \<and> 0 < rc_amount_recovered c}"
  proof (rule inj_onI, clarify)
    fix c d
    assume cd: "c \<in> set (db_cases s)" "d \<in> set (db_cases s)" "0 < rc_amount_recovered c" "0 < rc_amount_recovered d"
      "mid = rc_merchant_id c" "rc_merchant_id d = rc_merchant_id c" "rc_verified_payment_id c = rc_verified_payment_id d"
    have "rc_id c = rc_id d"
      using assms get [OF cd(1)] get [OF cd(2)] cd(3-7) unfolding sound_def credit_ok_def by metis
    with get cd show "c = d" by (metis option.inject)
  qed
  then show ?thesis using dist by (auto simp: distinct_map intro: inj_on_subset)
qed

text \<open>
  C30. \<^bold>\<open>The command center balances.\<close> In a sound database, for every merchant the revenue at risk, the
  recovered revenue and what stopped cases gave up are never negative and add up to exactly the
  exposure of all the merchant's cases, and the recovery rate is between zero and one. (The expected recovery
  is not among these figures: a selected escalation may have a negative expected value.)
\<close>

theorem command_center_balances:
  assumes "sound s" and "command_center_metrics s a slug = Inr r" and "cc_merchant r = Some mid"
  shows "0 \<le> cc_revenue_at_risk r \<and> 0 \<le> cc_revenue_recovered r \<and> 0 \<le> written_off s mid
    \<and> cc_revenue_at_risk r + cc_revenue_recovered r + written_off s mid = exposure s mid
    \<and> (case cc_recovery_rate r of None \<Rightarrow> True | Some x \<Rightarrow> 0 \<le> x \<and> x \<le> 1)"
proof -
  let ?mine = "filter (\<lambda>c. rc_merchant_id c = mid) (db_cases s)"
  let ?left = "\<lambda>c. rc_amount_at_risk c - rc_amount_recovered c"
  have r: "r = merchant_metrics s mid"
    using assms(2,3) by (auto simp: command_center_metrics_def merchant_metrics_def Let_def bindE_Inr_iff split: option.splits)
  have at_risk: "cc_revenue_at_risk r = sum_list (map ?left (filter (\<lambda>c. rc_closed_at c = None) ?mine))"
    and recovered: "cc_revenue_recovered r = sum_list (map rc_amount_recovered ?mine)"
    by (simp_all add: r merchant_metrics_def Let_def)
  have wo: "written_off s mid = sum_list (map ?left (filter (\<lambda>c. rc_status c = Case_STOPPED) ?mine))"
    by (simp add: written_off_def conj_commute)
  note facts = closed_case_remainder [OF assms(1)]
  have "sum_list (map ?left (filter (\<lambda>c. rc_closed_at c \<noteq> None) ?mine)) = written_off s mid"
    unfolding wo by (rule sum_list_filter_eq) (use facts(3,4) in auto)
  then have "cc_revenue_at_risk r + written_off s mid = sum_list (map ?left ?mine)"
    unfolding at_risk using sum_list_partition [of ?left "\<lambda>c. rc_closed_at c = None" ?mine] by simp
  moreover have "sum_list (map ?left ?mine) + sum_list (map rc_amount_recovered ?mine) = exposure s mid"
    unfolding exposure_def by (simp flip: sum_list_addf)
  ultimately have "cc_revenue_at_risk r + cc_revenue_recovered r + written_off s mid = exposure s mid"
    unfolding recovered by linarith
  moreover have "0 \<le> cc_revenue_at_risk r" "0 \<le> cc_revenue_recovered r" "0 \<le> written_off s mid"
    unfolding at_risk recovered wo using facts(1,2) by (auto intro!: sum_list_nonneg)
  moreover have "case cc_recovery_rate r of None \<Rightarrow> True | Some x \<Rightarrow> 0 \<le> x \<and> x \<le> 1"
    using count_le [of "\<lambda>c. rc_status c = Case_RECOVERED" "\<lambda>c. rc_status c \<in> set CLOSED_STATUSES" ?mine]
    by (auto simp: r merchant_metrics_def Let_def CLOSED_STATUSES_def divide_le_eq_1)
  ultimately show ?thesis by blast
qed

theorem command_center_balances_witness:
  "\<exists>r. command_center_metrics demo_db (Some 1) None = Inr r \<and> cc_revenue_at_risk r = 4000
     \<and> cc_revenue_at_risk r + cc_revenue_recovered r + written_off demo_db 1 = exposure demo_db 1"
proof -
  have s: "sound demo_db" using demo_db_ok demo_credit_ok by (simp add: sound_def)
  have r: "command_center_metrics demo_db (Some 1) None = Inr (merchant_metrics demo_db 1)"
    by (simp add: command_center_metrics_def resolve_merchant_def get_merchant_def find_row_def demo_db_def demo_merchant_def)
  have "cc_merchant (merchant_metrics demo_db 1) = Some 1" "cc_revenue_at_risk (merchant_metrics demo_db 1) = 4000"
    by (simp_all add: merchant_metrics_def demo_db_def demo_case_def Let_def)
  with command_center_balances [OF s r] r show ?thesis by blast
qed

text \<open>A case that was not recovered is still open, and is counted both as active and as closed.\<close>

lemma not_recovered_counted_twice:
  "cc_active_cases (merchant_metrics (demo_db\<lparr>db_cases := [demo_case\<lparr>rc_status := Case_NOT_RECOVERED\<rparr>]\<rparr>) 1) = 1
   \<and> cc_recovery_rate (merchant_metrics (demo_db\<lparr>db_cases := [demo_case\<lparr>rc_status := Case_NOT_RECOVERED\<rparr>]\<rparr>) 1) = Some 0"
  by (simp add: merchant_metrics_def demo_case_def Let_def count_where_def CLOSED_STATUSES_def)

subsection \<open>Pages partition the list\<close>

definition goes_before :: "bool \<Rightarrow> (RecoveryCase \<Rightarrow> 'k :: linorder) \<Rightarrow> RecoveryCase \<Rightarrow> RecoveryCase \<Rightarrow> bool" where
  "goes_before ascending f c d \<longleftrightarrow>
     (if ascending then f c < f d else f d < f c) \<or> f c = f d \<and> rc_id d \<le> rc_id c"

definition case_before :: "CaseQuery \<Rightarrow> RecoveryCase \<Rightarrow> RecoveryCase \<Rightarrow> bool" where
  "case_before q =
     (let up = (lower (cq_direction q) = ''asc'') in
      if cq_sort q = ''amount_at_risk'' then goes_before up rc_amount_at_risk
      else if cq_sort q = ''amount_recovered'' then goes_before up rc_amount_recovered
      else if cq_sort q = ''status'' then goes_before up (\<lambda>c. case_status_value (rc_status c))
      else if cq_sort q = ''case_type'' then goes_before up (\<lambda>c. case_type_value (rc_case_type c))
      else if cq_sort q = ''priority'' then goes_before up rc_priority
      else goes_before up rc_created_at)"

lemma sorted_wrt_ties:
  assumes "sorted_wrt (\<lambda>x y. f x \<noteq> f y \<longrightarrow> P x y) ys" and "\<And>k. sorted_wrt R (filter (\<lambda>x. f x = k) ys)"
  shows "sorted_wrt (\<lambda>x y. f x \<noteq> f y \<and> P x y \<or> f x = f y \<and> R x y) ys"
  using assms
proof (induction ys)
  case (Cons y ys)
  have "sorted_wrt R (filter (\<lambda>x. f x = k) ys)" for k using Cons.prems(2) [of k] by (simp split: if_splits)
  moreover have "R y x" if "x \<in> set ys" "f y = f x" for x using Cons.prems(2) [of "f y"] that by simp
  ultimately show ?case using Cons by auto
qed simp

lemma ordered_by_mset [simp]: "mset (ordered_by up f xs) = mset xs" "length (ordered_by up f xs) = length xs"
  by (simp_all add: ordered_by_def)

lemma ordered_by_stable: "filter (\<lambda>x. f x = k) (ordered_by up f xs) = filter (\<lambda>x. f x = k) xs"
proof -
  have "filter (\<lambda>x. f x = k) (rev (sort_key f (rev xs))) = rev (filter (\<lambda>x. f x = k) (sort_key f (rev xs)))"
    by (simp add: rev_filter)
  then show ?thesis by (simp add: ordered_by_def sort_key_stable rev_filter)
qed

lemma ordered_by_sorted: "sorted_wrt (\<lambda>x y. if up then f x \<le> f y else f y \<le> f x) (ordered_by up f xs)"
proof -
  have s: "sorted_wrt (\<lambda>x y. f x \<le> f y) (sort_key f ys)" for ys
    using sorted_sort_key [of f ys] by (simp add: sorted_map)
  show ?thesis by (cases up) (simp_all add: ordered_by_def s sorted_wrt_rev)
qed

lemma ordered_before:
  "sorted_wrt (goes_before up f) (ordered_by up f (ordered_by False rc_id cases))"
proof -
  let ?rows = "ordered_by False rc_id cases"
  have ids: "sorted_wrt (\<lambda>c d. rc_id d \<le> rc_id c) ?rows" using ordered_by_sorted [of False rc_id cases] by simp
  have "sorted_wrt (\<lambda>c d. f c \<noteq> f d \<longrightarrow> (if up then f c < f d else f d < f c)) (ordered_by up f ?rows)"
    using ordered_by_sorted [of up f ?rows] by (rule sorted_wrt_mono_rel [rotated]) (auto split: if_splits)
  moreover have "sorted_wrt (\<lambda>c d. rc_id d \<le> rc_id c) (filter (\<lambda>c. f c = k) (ordered_by up f ?rows))" for k
    unfolding ordered_by_stable using ids by (rule sorted_wrt_filter)
  ultimately have "sorted_wrt (\<lambda>c d. f c \<noteq> f d \<and> (if up then f c < f d else f d < f c) \<or> f c = f d \<and> rc_id d \<le> rc_id c)
      (ordered_by up f ?rows)" by (rule sorted_wrt_ties)
  then show ?thesis by (rule sorted_wrt_mono_rel [rotated]) (auto simp: goes_before_def)
qed

lemma case_order_sorted: "sorted_wrt (case_before q) (case_order q cases)"
  by (simp add: case_order_def case_before_def Let_def ordered_before)

lemma case_order_mset: "mset (case_order q cases) = mset cases" "length (case_order q cases) = length cases"
  by (simp_all add: case_order_def Let_def)

lemma concat_pages:
  "concat (map (\<lambda>p. take k (drop ((p - 1) * k) xs)) [1..<Suc n]) = take (n * k) xs"
proof (induction n)
  case (Suc n)
  have "[1..<Suc (Suc n)] = [1..<Suc n] @ [Suc n]" by simp
  then have "concat (map (\<lambda>p. take k (drop ((p - 1) * k) xs)) [1..<Suc (Suc n)])
      = take (n * k) xs @ take k (drop (n * k) xs)"
    using Suc.IH by simp
  also have "\<dots> = take (Suc n * k) xs" by (simp add: take_add [symmetric] add.commute)
  finally show ?case .
qed simp

definition shown_page :: "db \<Rightarrow> uuid option \<Rightarrow> string option \<Rightarrow> CaseQuery \<Rightarrow> nat \<Rightarrow> nat \<Rightarrow> RecoveryCase list" where
  "shown_page s a slug q k p = (case list_cases s a slug q p k of Inl _ \<Rightarrow> [] | Inr l \<Rightarrow> map row_case (lst_items l))"

text \<open>
  \<^bold>\<open>The pages of the case list partition it.\<close> Whatever the filters, column and direction, every page states the
  number of matching cases and holds at most a page of them, and the pages one after the other list
  the matching cases, each exactly once, ordered by the column and within equal values by falling key.
\<close>

theorem pages_partition:
  assumes "the_merchant s a slug = Inr m" and "count_where (matches_query (mer_id m) q) (db_cases s) \<le> n * k"
  shows "(\<forall>p. \<exists>l. list_cases s a slug q p k = Inr l \<and> length (lst_items l) \<le> k
        \<and> lst_total l = count_where (matches_query (mer_id m) q) (db_cases s))
    \<and> (let shown = concat (map (shown_page s a slug q k) [1..<Suc n]) in
       mset shown = mset (filter (matches_query (mer_id m) q) (db_cases s)) \<and> sorted_wrt (case_before q) shown)"
proof -
  let ?all = "filter (matches_query (mer_id m) q) (db_cases s)"
  have page: "list_cases s a slug q p k = Inr \<lparr>lst_items = map (listed_row s (mer_id m))
       (take k (drop ((p - 1) * k) (case_order q ?all))), lst_page = p, lst_page_size = k, lst_total = length ?all\<rparr>" for p
    by (simp add: list_cases_def assms(1) page_cases_def Let_def)
  have "row_case \<circ> listed_row s j = id" for j by (simp add: fun_eq_iff listed_row_def case_row_def)
  then have "shown_page s a slug q k = (\<lambda>p. take k (drop ((p - 1) * k) (case_order q ?all)))"
    by (intro ext) (simp add: shown_page_def page)
  then have "concat (map (shown_page s a slug q k) [1..<Suc n]) = take (n * k) (case_order q ?all)"
    by (simp only: concat_pages)
  also have "\<dots> = case_order q ?all" using assms(2) by (simp add: count_where_def case_order_mset)
  finally have all: "concat (map (shown_page s a slug q k) [1..<Suc n]) = case_order q ?all" .
  show ?thesis unfolding all Let_def using page by (simp add: case_order_mset case_order_sorted count_where_def)
qed

definition newest_first :: CaseQuery where
  "newest_first = \<lparr>cq_status = None, cq_case_type = None, cq_min_amount = Some 100, cq_max_amount = None,
     cq_sort = ''created_at'', cq_direction = ''desc''\<rparr>"

theorem pages_partition_witness:
  "mset (concat (map (shown_page demo_db (Some 1) None newest_first 25) [1..<Suc 1])) = {#demo_case#}"
proof -
  have m: "the_merchant demo_db (Some 1) None = Inr demo_merchant"
    by (simp add: the_merchant_def resolve_merchant_def get_merchant_def find_row_def demo_db_def demo_merchant_def)
  have c: "filter (matches_query (mer_id demo_merchant) newest_first) (db_cases demo_db) = [demo_case]"
    by (simp add: matches_query_def newest_first_def demo_db_def demo_case_def demo_merchant_def)
  from pages_partition [OF m, of newest_first 1 25] c show ?thesis by (simp add: count_where_def Let_def)
qed

subsection \<open>Polling the timeline\<close>

text \<open>A client that asks again with the cursor of the last answer.\<close>

fun poll :: "db \<Rightarrow> uuid \<Rightarrow> Merchant option \<Rightarrow> nat \<Rightarrow> timestamp option \<Rightarrow> AuditEvent list" where
  "poll s i merchant 0 since = []"
| "poll s i merchant (Suc n) since = (case case_timeline s i merchant since of
     Inl _ \<Rightarrow> [] | Inr (cursor, rows) \<Rightarrow> rows @ poll s i merchant n cursor)"

definition case_events :: "db \<Rightarrow> RecoveryCase \<Rightarrow> AuditEvent list" where
  "case_events s c = sort_key au_created_at
     (filter (\<lambda>e. au_merchant_id e = rc_merchant_id c \<and> au_case_id e = Some (rc_id c)) (db_audit s))"

definition after :: "timestamp option \<Rightarrow> AuditEvent \<Rightarrow> bool" where
  "after since e = (case since of None \<Rightarrow> True | Some t \<Rightarrow> t < au_created_at e)"

lemma list_since_events:
  "list_for_case_since s (rc_merchant_id c) (rc_id c) since = take TIMELINE_LIMIT (filter (after since) (case_events s c))"
  by (simp add: list_for_case_since_def case_events_def filter_sort after_def conj_ac cong: conj_cong option.case_cong)

lemma filter_after_last:
  assumes "sorted_wrt (\<lambda>a b. au_created_at a < au_created_at b) es" and "take k es \<noteq> []"
  shows "filter (after (Some (au_created_at (last (take k es))))) es = drop k es"
proof -
  let ?x = "last (take k es)"
  obtain ys where ys: "take k es = ys @ [?x]" using assms(2) by (metis append_butlast_last_id)
  have s: "sorted_wrt (\<lambda>a b. au_created_at a < au_created_at b) (ys @ [?x] @ drop k es)"
    using assms(1) append_take_drop_id [of k es] ys by (metis append.assoc)
  then have "filter (after (Some (au_created_at ?x))) (ys @ [?x]) = []"
    "filter (after (Some (au_created_at ?x))) (drop k es) = drop k es"
    by (fastforce simp: sorted_wrt_append after_def filter_empty_conv filter_id_conv)+
  then show ?thesis using append_take_drop_id [of k es] ys by (metis filter_append self_append_conv2)
qed

lemma poll_events:
  assumes "require_case s i merchant = Inr c"
    and strict: "sorted_wrt (\<lambda>a b. au_created_at a < au_created_at b) (case_events s c)"
  shows "poll s i merchant n since = take (n * TIMELINE_LIMIT) (filter (after since) (case_events s c))"
proof (induction n arbitrary: since)
  case (Suc n)
  let ?F = "filter (after since) (case_events s c)" and ?L = TIMELINE_LIMIT
  have line: "case_timeline s i merchant since =
      Inr (if take ?L ?F = [] then since else Some (au_created_at (last (take ?L ?F))), take ?L ?F)"
    by (simp add: case_timeline_def assms(1) list_since_events Let_def)
  show ?case
  proof (cases "take ?L ?F = []")
    case True
    then have "?F = []" by (simp add: TIMELINE_LIMIT_def)
    with Suc.IH [of since] line show ?thesis by simp
  next
    case False
    let ?t = "Some (au_created_at (last (take ?L ?F)))"
    have "after since (last (take ?L ?F))" using last_in_set [OF False] by (auto dest!: in_set_takeD)
    then have "filter (after ?t) (case_events s c) = filter (after ?t) ?F"
      by (auto simp: after_def intro!: filter_cong split: option.splits)
    also have "\<dots> = drop ?L ?F" using False by (intro filter_after_last sorted_wrt_filter [OF strict])
    finally show ?thesis using Suc.IH [of ?t] line False by (simp add: take_add)
  qed
qed simp

text \<open>
  \<^bold>\<open>Polling the timeline loses nothing while times differ.\<close> When no two events of a case carry the same time, a
  client that keeps asking with the cursor it was given receives the events of the case in order,
  each exactly once, two hundred more with every request; asking for a case of another merchant or
  an unknown case yields an error and nothing else.
\<close>

theorem timeline_polling:
  assumes "get_case_unscoped s i = Some c" and "distinct (map au_created_at (case_events s c))"
  shows "(if \<exists>m. merchant = Some m \<and> mer_id m \<noteq> rc_merchant_id c
     then case_timeline s i merchant since = Inl (OperatorError ''MERCHANT_MISMATCH'')
     else poll s i merchant n None = take (n * 200) (case_events s c))
    \<and> (get_case_unscoped s j = None \<longrightarrow> case_timeline s j merchant since = Inl (OperatorError ''RECOVERY_CASE_NOT_FOUND''))"
proof -
  have "sorted (map au_created_at (case_events s c))" by (simp add: case_events_def)
  then have "sorted_wrt (<) (map au_created_at (case_events s c))" using assms(2) by (simp add: strict_sorted_iff)
  then have strict: "sorted_wrt (\<lambda>a b. au_created_at a < au_created_at b) (case_events s c)" by (simp add: sorted_wrt_map)
  have "poll s i merchant n None = take (n * 200) (case_events s c)"
    if "\<not> (\<exists>m. merchant = Some m \<and> mer_id m \<noteq> rc_merchant_id c)"
  proof -
    have "require_case s i merchant = Inr c" using that assms(1) by (auto simp: require_case_def split: option.splits)
    from poll_events [OF this strict] show ?thesis by (simp add: TIMELINE_LIMIT_def after_def)
  qed
  then show ?thesis using assms(1) by (auto simp: case_timeline_def require_case_def)
qed

definition noted :: "timestamp \<Rightarrow> AuditEvent" where
  "noted t = \<lparr>au_merchant_id = 1, au_case_id = Some 4, au_event_type = Aud_CASE_TRIAGED, au_actor_type = Actor_WORKER,
     au_action = None, au_previous_state = None, au_new_state = None, au_idempotency_key = None, au_created_at = t\<rparr>"

theorem timeline_polling_witness:
  "poll (demo_db\<lparr>db_audit := [noted 2, noted 1]\<rparr>) 4 None 1 None = [noted 1, noted 2]"
proof -
  let ?s = "demo_db\<lparr>db_audit := [noted 2, noted 1]\<rparr>"
  have c: "get_case_unscoped ?s 4 = Some demo_case"
    by (simp add: get_case_unscoped_def demo_db_def demo_case_def find_row_def)
  have e: "case_events ?s demo_case = [noted 1, noted 2]"
    by (simp add: case_events_def noted_def demo_case_def)
  then have "distinct (map au_created_at (case_events ?s demo_case))" by (simp add: noted_def)
  from timeline_polling [OF c this, of None _ 1] e show ?thesis by simp
qed

text \<open>With equal times the cursor skips what did not fit: of 201 events of one moment, the last is never sent.\<close>

lemma timeline_skips_ties:
  "length (case_events (demo_db\<lparr>db_audit := replicate 201 (noted 1)\<rparr>) demo_case) = 201
   \<and> length (poll (demo_db\<lparr>db_audit := replicate 201 (noted 1)\<rparr>) 4 None 2 None) = 200"
proof -
  let ?s = "demo_db\<lparr>db_audit := replicate 201 (noted 1)\<rparr>"
  have c: "require_case ?s 4 None = Inr demo_case"
    by (simp add: require_case_def get_case_unscoped_def demo_db_def demo_case_def find_row_def)
  have time: "au_created_at (noted t) = t" for t by (simp add: noted_def)
  have sort: "sort_key au_created_at (replicate k x) = replicate k x" for k x
    by (induction k) (auto simp: insort_is_Cons)
  have e: "case_events ?s demo_case = replicate 201 (noted 1)"
    unfolding case_events_def
    by (subst filter_True) (simp_all add: noted_def demo_case_def sort)
  have rows: "list_for_case_since ?s (rc_merchant_id demo_case) (rc_id demo_case) None = replicate 200 (noted 1)"
    "list_for_case_since ?s (rc_merchant_id demo_case) (rc_id demo_case) (Some 1) = []"
    by (simp_all add: list_since_events e after_def TIMELINE_LIMIT_def time filter_replicate)
  have "case_timeline ?s 4 None None = Inr (Some 1, replicate 200 (noted 1))"
    "case_timeline ?s 4 None (Some 1) = Inr (Some 1, [])"
    by (simp_all add: case_timeline_def c rows Let_def time)
  then show ?thesis by (simp add: e numeral_2_eq_2)
qed

end
