(* ===== verification/Api.thy ===== *)
theory Api
  imports Orchestrator Operator
begin

text \<open>
  The HTTP interface: the handlers of \<^verbatim>\<open>apps/api/recoverai_api/recovery/router.py\<close>, \<^verbatim>\<open>operator/router.py\<close> and
  \<^verbatim>\<open>events/router.py\<close> that change state, and the transaction around a request (\<^verbatim>\<open>deps.py\<close>). A handler
  turns a domain error into an error response, so that what was written before the error is
  committed; any other exception rolls the request back. The services a handler constructs from the
  environment are the parameters of a deployment. The lemmas show that no request touches revenue but
  through verification, and what a request for a foreign case still does.
\<close>

subsection \<open>Responses\<close>

datatype 'a response = Answer 'a | Problem int string

definition recovery_status :: "py_error \<Rightarrow> int" where
  "recovery_status e =
     (let code = error_code e in
      if code = ''MERCHANT_MISMATCH'' then 403
      else if code \<in> {''RECOVERY_CASE_NOT_FOUND'', ''ACTION_NOT_FOUND'', ''APPROVAL_NOT_FOUND''} then 404
      else case e of InvalidTransitionError \<Rightarrow> 409 | IdempotencyConflictError _ \<Rightarrow> 409 | _ \<Rightarrow> 400)"

definition operator_status :: "py_error \<Rightarrow> int" where
  "operator_status e = (if error_code e = ''MERCHANT_NOT_FOUND'' then 404 else recovery_status e)"

definition respond :: "(py_error \<Rightarrow> int) \<Rightarrow> 'a dbprog \<Rightarrow> 'a response dbprog" where
  "respond status m =
     catch (bind m (\<lambda>x. ret (Answer x)))
       (\<lambda>e. if is_domain_error e then ret (Problem (status e) (error_code e)) else raise e)"

definition respond_event :: "'a dbprog \<Rightarrow> 'a response dbprog" where
  "respond_event m =
     catch (bind m (\<lambda>x. ret (Answer x)))
       (\<lambda>e. case e of IngestionError code status \<Rightarrow> ret (Problem status code) | _ \<Rightarrow> raise e)"

subsection \<open>Recovery cases\<close>

definition process_case :: "environ \<Rightarrow> uuid \<Rightarrow> dict response dbprog" where
  "process_case env i = respond recovery_status (process_recovery_case env i)"

definition verify_case_endpoint :: "environ \<Rightarrow> uuid \<Rightarrow> dict response dbprog" where
  "verify_case_endpoint env i = respond recovery_status (verify_recovery_case env i None None)"

definition optimize_case_endpoint :: "Host \<Rightarrow> RecoveryOptimizer \<Rightarrow> uuid \<Rightarrow> dict response dbprog" where
  "optimize_case_endpoint h ro i =
     respond recovery_status (bind (optimize_case h ro i True None None) (\<lambda>r. ret (optimization_dict r)))"

definition run_agents :: "Host \<Rightarrow> Orchestrator \<Rightarrow> uuid \<Rightarrow> uuid option \<Rightarrow> bool \<Rightarrow> dict response dbprog" where
  "run_agents h oc i merchant_id execute' =
     respond recovery_status (bind (run_case h oc i merchant_id execute') (\<lambda>r. ret (orchestration_dict r)))"

definition ask_analyst_endpoint :: "Host \<Rightarrow> Orchestrator \<Rightarrow> uuid \<Rightarrow> string \<Rightarrow> AnalystAnswer response dbprog" where
  "ask_analyst_endpoint h oc merchant_id question = respond recovery_status (ask_analyst h oc merchant_id question)"

definition prepare_policy_check :: "uuid \<Rightarrow> unit dbprog" where
  "prepare_policy_check case_id =
     bind (lock_recovery_case case_id) (\<lambda>i. walk_to_policy_check i Actor_WORKER)"

definition evaluate_action_endpoint ::
  "ToolService \<Rightarrow> uuid \<Rightarrow> string \<Rightarrow> dict \<Rightarrow> uuid option \<Rightarrow> PolicyEvaluationResult response dbprog" where
  "evaluate_action_endpoint svc i action input merchant_id =
     respond recovery_status
       (seqp (prepare_policy_check i) (evaluate_tool svc i action input Actor_SYSTEM merchant_id))"

record DecisionRequest =
  dr_merchant_id :: "uuid option"
  dr_reason :: "string option"
  dr_actor_id :: "string option"

definition approve_endpoint ::
  "Host \<Rightarrow> ToolService \<Rightarrow> uuid \<Rightarrow> uuid \<Rightarrow> DecisionRequest \<Rightarrow> ToolExecutionResult response dbprog" where
  "approve_endpoint h svc i action_id body =
     respond recovery_status
       (approve_action h svc i action_id Actor_USER (dr_actor_id body) (dr_merchant_id body))"

definition reject_endpoint :: "uuid \<Rightarrow> uuid \<Rightarrow> DecisionRequest \<Rightarrow> dict response dbprog" where
  "reject_endpoint i action_id body =
     respond recovery_status
       (reject_action i action_id Actor_USER (dr_actor_id body) (dr_reason body) (dr_merchant_id body))"

definition cancel_endpoint :: "uuid \<Rightarrow> uuid \<Rightarrow> DecisionRequest \<Rightarrow> dict response dbprog" where
  "cancel_endpoint i action_id body =
     respond recovery_status
       (cancel_action i action_id (dr_actor_id body) (dr_reason body) (dr_merchant_id body))"

record ExecuteActionRequest =
  er_idempotency_key :: string
  er_tool_name :: "string option"
  er_action :: "string option"
  er_merchant_id :: "uuid option"
  er_input :: dict
  er_actor_id :: "string option"

definition execute_request :: "uuid option \<Rightarrow> ExecuteActionRequest \<Rightarrow> ExecuteRequest" where
  "execute_request action_id body =
     \<lparr>xr_tool_name = er_tool_name body, xr_action = er_action body, xr_payload = er_input body,
      xr_idempotency_key = er_idempotency_key body, xr_merchant_id = er_merchant_id body,
      xr_actor_type = Actor_SYSTEM, xr_actor_id = er_actor_id body, xr_granted_permissions = None,
      xr_existing_action_id = action_id, xr_approval_id = None, xr_approved_execution = False\<rparr>"

definition execute_endpoint ::
  "Host \<Rightarrow> ToolService \<Rightarrow> uuid \<Rightarrow> uuid option \<Rightarrow> ExecuteActionRequest \<Rightarrow> ToolExecutionResult response dbprog" where
  "execute_endpoint h svc i action_id body =
     respond recovery_status (seqp (prepare_policy_check i) (execute h svc i (execute_request action_id body)))"

subsection \<open>The operator's queue and policy\<close>

definition load_approval :: "uuid \<Rightarrow> (Approval \<times> uuid) dbprog" where
  "load_approval approval_id =
     bind (gets (\<lambda>s. session_get_approval s approval_id)) (\<lambda>found. case found of
       None \<Rightarrow> raise (OperatorError ''APPROVAL_NOT_FOUND'')
     | Some a \<Rightarrow> (case ap_recovery_action_id a of
         None \<Rightarrow> raise (OperatorError ''ACTION_NOT_FOUND'') | Some action_id \<Rightarrow> ret (a, action_id)))"

definition merchant_or :: "uuid option \<Rightarrow> uuid \<Rightarrow> uuid option" where
  "merchant_or given default_id = Some (case given of None \<Rightarrow> default_id | Some k \<Rightarrow> k)"

definition approve_from_queue ::
  "Host \<Rightarrow> ToolService \<Rightarrow> uuid \<Rightarrow> DecisionRequest \<Rightarrow> ToolExecutionResult response dbprog" where
  "approve_from_queue h svc approval_id body =
     respond operator_status (bind (load_approval approval_id) (\<lambda>(a, action_id).
       approve_action h svc (ap_recovery_case_id a) action_id Actor_USER (dr_actor_id body)
         (merchant_or (dr_merchant_id body) (ap_merchant_id a))))"

definition reject_from_queue :: "uuid \<Rightarrow> DecisionRequest \<Rightarrow> dict response dbprog" where
  "reject_from_queue approval_id body =
     respond operator_status (bind (load_approval approval_id) (\<lambda>(a, action_id).
       reject_action (ap_recovery_case_id a) action_id Actor_USER (dr_actor_id body) (dr_reason body)
         (merchant_or (dr_merchant_id body) (ap_merchant_id a))))"

definition cancel_from_queue :: "uuid \<Rightarrow> DecisionRequest \<Rightarrow> dict response dbprog" where
  "cancel_from_queue approval_id body =
     respond operator_status (bind (load_approval approval_id) (\<lambda>(a, action_id).
       cancel_action (ap_recovery_case_id a) action_id (dr_actor_id body) (dr_reason body)
         (merchant_or (dr_merchant_id body) (ap_merchant_id a))))"

record PolicyUpdateRequest =
  pu_merchant_id :: "uuid option"
  pu_merchant_slug :: "string option"
  pu_policy :: PolicySettingsBody

definition patch_policy :: "Host \<Rightarrow> environ \<Rightarrow> PolicyUpdateRequest \<Rightarrow> dict response dbprog" where
  "patch_policy h env body =
     (if \<not> valid_policy_body (pu_policy body) then ret (Problem 422 ''VALIDATION_ERROR'')
      else respond operator_status
        (bind (gets (\<lambda>s. the_merchant s (pu_merchant_id body) (pu_merchant_slug body))) (\<lambda>found.
         bind (lift found) (\<lambda>m. update_policy h env m (pu_policy body)))))"

subsection \<open>Every request\<close>

record Deployment =
  dp_env :: environ
  dp_tools :: ToolService
  dp_optimizer :: RecoveryOptimizer
  dp_agents :: Orchestrator
  dp_simulation_seed :: int
  dp_race :: "db \<Rightarrow> db"
  dp_queue :: "nat \<Rightarrow> bool"

datatype Request =
    ProcessCase uuid | VerifyCase uuid | OptimizeCase uuid
  | RunAgents uuid "uuid option" bool | AskAnalyst uuid string
  | EvaluateAction uuid string dict "uuid option"
  | ApproveAction uuid uuid DecisionRequest | RejectAction uuid uuid DecisionRequest
  | CancelAction uuid uuid DecisionRequest | ExecuteAction uuid "uuid option" ExecuteActionRequest
  | ApproveFromQueue uuid DecisionRequest | RejectFromQueue uuid DecisionRequest
  | CancelFromQueue uuid DecisionRequest | PatchPolicy PolicyUpdateRequest
  | SimulatorWebhook SimulatorWebhookRequest | SimulateEvent SimulationEventRequest
  | SimulateScenario string "int option" "string option" "rat option"

definition http_status :: "'a response \<Rightarrow> int" where
  "http_status r = (case r of Answer _ \<Rightarrow> 200 | Problem status _ \<Rightarrow> status)"

definition quiet :: "'a response dbprog \<Rightarrow> (int \<times> uuid list) dbprog" where
  "quiet m = bind m (\<lambda>r. ret (http_status r, []))"

definition queued_ids :: "IngestResult list \<Rightarrow> uuid list" where
  "queued_ids rs = map ir_webhook_event_id (filter ir_queued rs)"

definition queueing :: "IngestResult list response dbprog \<Rightarrow> (int \<times> uuid list) dbprog" where
  "queueing m = bind m (\<lambda>r. ret (http_status r, case r of Answer rs \<Rightarrow> queued_ids rs | Problem _ _ \<Rightarrow> []))"

definition one :: "'a dbprog \<Rightarrow> 'a list dbprog" where
  "one m = bind m (\<lambda>x. ret [x])"

text \<open>The status of the response and the events put on the queue.\<close>

fun handle :: "Host \<Rightarrow> Deployment \<Rightarrow> Request \<Rightarrow> (int \<times> uuid list) dbprog" where
  "handle h dp (ProcessCase i) = quiet (process_case (dp_env dp) i)"
| "handle h dp (VerifyCase i) = quiet (verify_case_endpoint (dp_env dp) i)"
| "handle h dp (OptimizeCase i) = quiet (optimize_case_endpoint h (dp_optimizer dp) i)"
| "handle h dp (RunAgents i m ex) = quiet (run_agents h (dp_agents dp) i m ex)"
| "handle h dp (AskAnalyst m q) = quiet (ask_analyst_endpoint h (dp_agents dp) m q)"
| "handle h dp (EvaluateAction i action input m) = quiet (evaluate_action_endpoint (dp_tools dp) i action input m)"
| "handle h dp (ApproveAction i a body) = quiet (approve_endpoint h (dp_tools dp) i a body)"
| "handle h dp (RejectAction i a body) = quiet (reject_endpoint i a body)"
| "handle h dp (CancelAction i a body) = quiet (cancel_endpoint i a body)"
| "handle h dp (ExecuteAction i a body) = quiet (execute_endpoint h (dp_tools dp) i a body)"
| "handle h dp (ApproveFromQueue k body) = quiet (approve_from_queue h (dp_tools dp) k body)"
| "handle h dp (RejectFromQueue k body) = quiet (reject_from_queue k body)"
| "handle h dp (CancelFromQueue k body) = quiet (cancel_from_queue k body)"
| "handle h dp (PatchPolicy body) = quiet (patch_policy h (dp_env dp) body)"
| "handle h dp (SimulatorWebhook body) =
     queueing (respond_event (one (ingest_simulator_webhook h (dp_race dp) (dp_queue dp 0) body)))"
| "handle h dp (SimulateEvent body) =
     queueing (respond_event (one (simulate_event h (dp_race dp) (dp_queue dp 0) (dp_simulation_seed dp) body)))"
| "handle h dp (SimulateScenario scenario seed slug amount) =
     queueing (respond_event (run_scenario h (dp_race dp) (dp_queue dp) (dp_simulation_seed dp) scenario slug seed amount))"

definition serve :: "Host \<Rightarrow> Deployment \<Rightarrow> Request \<Rightarrow> (int \<times> uuid list) dbprog" where
  "serve h dp request = transaction (dp_race dp) (handle h dp request)"

subsection \<open>No request credits revenue but verification\<close>

definition interference_ok :: "Deployment \<Rightarrow> bool" where
  "interference_ok dp \<longleftrightarrow> safe_race (dp_race dp) \<and> safe_race (ts_race (dp_tools dp))
     \<and> safe_race (ts_race (oc_tools (dp_agents dp)))"

lemma creditless_respond:
  assumes "creditless m"
  shows "creditless (respond status m)" "creditless (respond_event m)"
proof -
  show "creditless (respond status m)" unfolding respond_def by (intro creditless_rules assms)
  have "creditless (case e of IngestionError code st \<Rightarrow> ret (Problem st code) | _ \<Rightarrow> raise e)" for e
    by (cases e) (auto intro: creditless_rules)
  then show "creditless (respond_event m)" unfolding respond_event_def by (intro creditless_rules assms)
qed

lemma creditless_quiet:
  "creditless m \<Longrightarrow> creditless (quiet m)" "creditless m' \<Longrightarrow> creditless (queueing m')" "creditless n \<Longrightarrow> creditless (one n)"
  unfolding quiet_def queueing_def one_def by (intro creditless_rules; assumption)+

lemma creditless_prepare: "creditless (prepare_policy_check i)"
proof -
  have "creditless (walk_to_policy_check j actor)" for j actor
    unfolding walk_to_policy_check_def by (intro creditlessI walk_no_credit keeps_ok_walk) (simp_all add: PROCESS_STEPS_def)
  then show ?thesis unfolding prepare_policy_check_def by (intro creditless_rules)
qed

lemma creditless_update_policy: "creditless (update_policy h env m b)"
  unfolding update_policy_def by (intro creditless_rules creditless_modify) auto

lemma creditless_load_approval: "creditless (load_approval k)"
  unfolding load_approval_def by (intro creditless_rules)

lemma handle_creditless:
  assumes "interference_ok dp" and "\<And>i. request \<noteq> VerifyCase i" "\<And>i. request \<noteq> ProcessCase i"
  shows "creditless (handle h dp request)"
proof -
  have race: "safe_race (dp_race dp)" "safe_race (ts_race (dp_tools dp))" "safe_race (ts_race (oc_tools (dp_agents dp)))"
    using assms(1) by (simp_all add: interference_ok_def)
  note endpoints = optimize_case_endpoint_def run_agents_def ask_analyst_endpoint_def evaluate_action_endpoint_def
    approve_endpoint_def reject_endpoint_def cancel_endpoint_def execute_endpoint_def approve_from_queue_def
    reject_from_queue_def cancel_from_queue_def patch_policy_def
  show ?thesis
    using assms(2,3)
    by (cases request; simp add: endpoints)
       (intro conjI impI creditless_quiet creditless_respond creditless_rules creditless_optimize_case creditless_pair
          creditless_run_case creditless_ask_analyst creditless_prepare creditless_evaluate_tool
          creditless_approve_action creditless_reject_action creditless_execute creditless_load_approval
          creditless_update_policy creditless_simulation race)+
qed

lemma safe_respond: "safe m \<Longrightarrow> safe (respond status m)"
  unfolding respond_def by (intro safe_rules) (auto intro: safe_rules)

lemma safe_serve:
  assumes "interference_ok dp"
  shows "safe (serve h dp request)"
proof -
  have "safe (handle h dp request)"
  proof (cases "\<exists>i. request = VerifyCase i \<or> request = ProcessCase i")
    case True
    then show ?thesis
      by (auto simp: quiet_def process_case_def verify_case_endpoint_def
          intro!: safe_rules safe_respond safe_process_recovery_case safe_verify_recovery_case)
  next
    case False
    then show ?thesis using handle_creditless [OF assms, of request h] by (intro creditless_safe) blast
  qed
  then show ?thesis
    unfolding serve_def using assms by (intro safe_transaction) (simp_all add: interference_ok_def)
qed

subsection \<open>Requests for a case of another merchant\<close>

lemma respond_error:
  "m s = (Inl e, t) \<Longrightarrow> is_domain_error e \<Longrightarrow> status e = st \<Longrightarrow> error_code e = code \<Longrightarrow>
   respond status m s = (Inr (Problem st code), t)"
  by (simp add: respond_def prog_simps)

lemma lock_run: "get_case_unscoped s i = Some c \<Longrightarrow> lock_recovery_case i s = (Inr i, s)"
  using get_case_unscoped_id [of s i c] by (simp add: lock_recovery_case_def prog_simps)

lemma same_exposure_merchant: "same_exposure c d \<Longrightarrow> rc_merchant_id d = rc_merchant_id c"
  by (cases c; cases d; simp add: same_exposure_def)

lemma find_decision_foreign:
  "get_case_unscoped s i = Some c \<Longrightarrow> rc_merchant_id c \<noteq> m \<Longrightarrow>
   find_decision i a (Some m) s = (Inl (ToolValidationError ''MERCHANT_MISMATCH''), s)"
  by (simp add: find_decision_def lock_run prog_simps)

lemma prepare_run:
  "get_case_unscoped s i = Some c \<Longrightarrow> prepare_policy_check i s = walk_to_policy_check i Actor_WORKER s"
  by (simp add: prepare_policy_check_def lock_run prog_simps)

lemma assert_foreign:
  "get_case_unscoped t i = Some d \<Longrightarrow> rc_merchant_id d \<noteq> m \<Longrightarrow>
   assert_merchant i (Some m) t = (Inl (ToolValidationError ''MERCHANT_MISMATCH''), t)"
  by (simp add: assert_merchant_def prog_simps)

definition ON_THE_WAY :: "RecoveryCaseStatus list" where
  "ON_THE_WAY = PRE_POLICY @ [Case_AWAITING_APPROVAL, Case_EXECUTING, Case_ACTION_COMPLETED]"

lemma walk_past:
  assumes "get_case_unscoped s i = Some c" and "rc_status c \<in> set ON_THE_WAY" and "rc_status c \<notin> set PRE_POLICY"
  shows "walk_to_policy_check i actor s = (Inr (), s)"
proof -
  have "list_all (already_past (rc_status c)) PROCESS_STEPS"
    using assms(2,3) by (auto simp: ON_THE_WAY_def PROCESS_STEPS_def already_past_def)
  moreover have "list_all (already_past (rc_status c)) ts \<Longrightarrow> walk_steps i actor ts s = (Inr (), s)" for ts
    by (induction ts) (simp_all add: prog_simps assms(1) Let_def)
  ultimately show ?thesis by (simp add: walk_to_policy_check_def)
qed

lemma walk_on_the_way:
  assumes "get_case_unscoped s i = Some c" and "rc_status c \<in> set ON_THE_WAY"
  shows "\<exists>t d. walk_to_policy_check i actor s = (Inr (), t) \<and> get_case_unscoped t i = Some d \<and> same_exposure c d
    \<and> rc_status d = (if rc_status c \<in> set PRE_POLICY then Case_POLICY_CHECK else rc_status c) \<and> case_frame s t"
proof (cases "rc_status c \<in> set PRE_POLICY")
  case True
  then show ?thesis using walk_reaches_policy_check [OF True assms(1), of actor] by auto
next
  case False
  then show ?thesis using walk_past [OF assms False] assms(1) by (simp add: case_frame.frame_refl same_exposure_def)
qed

lemma late_refusal:
  assumes "get_case_unscoped s i = Some c" and "rc_merchant_id c \<noteq> m" and "er_merchant_id body = Some m"
    and "rc_status c \<in> set ON_THE_WAY"
  shows "\<exists>t d. evaluate_action_endpoint svc i action input (Some m) s = (Inr (Problem 403 ''MERCHANT_MISMATCH''), t)
    \<and> (\<forall>spec v. resolve_tool (er_tool_name body) (er_action body) = Inr spec \<and> validate_input h spec (er_input body) = Inr v
         \<longrightarrow> execute_endpoint h svc i k body s = (Inr (Problem 403 ''MERCHANT_MISMATCH''), t))
    \<and> get_case_unscoped t i = Some d \<and> same_exposure c d
    \<and> rc_status d = (if rc_status c \<in> set PRE_POLICY then Case_POLICY_CHECK else rc_status c) \<and> case_frame s t"
proof -
  let ?e = "ToolValidationError ''MERCHANT_MISMATCH''"
  have st: "recovery_status ?e = 403" by (simp add: recovery_status_def Let_def)
  obtain t d where t: "walk_to_policy_check i Actor_WORKER s = (Inr (), t)" "get_case_unscoped t i = Some d"
    "same_exposure c d" "rc_status d = (if rc_status c \<in> set PRE_POLICY then Case_POLICY_CHECK else rc_status c)"
    "case_frame s t"
    using walk_on_the_way [OF assms(1,4)] by blast
  have d: "rc_merchant_id d \<noteq> m" using assms(2) same_exposure_merchant [OF t(3)] by simp
  note refused = assert_foreign [OF t(2) d]
  have "evaluate_tool svc i action input Actor_SYSTEM (Some m) t = (Inl ?e, t)"
    by (simp add: evaluate_tool_def prog_simps t(2) refused)
  then have "evaluate_action_endpoint svc i action input (Some m) s = (Inr (Problem 403 ''MERCHANT_MISMATCH''), t)"
    unfolding evaluate_action_endpoint_def
    by (intro respond_error [where e = ?e]) (simp_all add: st prog_simps prepare_run [OF assms(1)] t(1))
  moreover have "execute_endpoint h svc i k body s = (Inr (Problem 403 ''MERCHANT_MISMATCH''), t)"
    if "resolve_tool (er_tool_name body) (er_action body) = Inr spec" "validate_input h spec (er_input body) = Inr v" for spec v
  proof -
    have "execute h svc i (execute_request k body) t = (Inl ?e, t)"
      using assms(3) that by (simp add: execute_def execute_request_def prog_simps t(2) refused)
    then show ?thesis unfolding execute_endpoint_def
      by (intro respond_error [where e = ?e]) (simp_all add: st prog_simps prepare_run [OF assms(1)] t(1))
  qed
  ultimately show ?thesis using t(2-5) by blast
qed

text \<open>
  C9. \<^bold>\<open>Nobody acts on a case of another merchant.\<close> A decision about an action or an agent run that names a merchant
  who does not own the case is answered with status 403 and leaves the database as it was, whatever the status of
  the case. The same holds for an evaluation, and for an execution whose tool is known and whose input is valid,
  when the case is on its way: they are answered with 403 too, but have by then already walked a
  case that had not come so far to the policy check, which stays; a case that waits for approval or executes is
  left as it is; and nothing changes outside the case and its audit trail. (A case off that way is refused to everybody;
  a request that names no merchant is not checked.)
\<close>

theorem foreign_merchant_refused:
  assumes "get_case_unscoped s i = Some c" and "rc_merchant_id c \<noteq> m"
    and "dr_merchant_id decision = Some m" and "er_merchant_id body = Some m"
  shows "approve_endpoint h svc i a decision s = (Inr (Problem 403 ''MERCHANT_MISMATCH''), s)
    \<and> reject_endpoint i a decision s = (Inr (Problem 403 ''MERCHANT_MISMATCH''), s)
    \<and> cancel_endpoint i a decision s = (Inr (Problem 403 ''MERCHANT_MISMATCH''), s)
    \<and> run_agents h oc i (Some m) ex s = (Inr (Problem 403 ''MERCHANT_MISMATCH''), s)
    \<and> (rc_status c \<in> set ON_THE_WAY \<longrightarrow>
        (\<exists>t d. evaluate_action_endpoint svc i action input (Some m) s = (Inr (Problem 403 ''MERCHANT_MISMATCH''), t)
         \<and> (\<forall>spec v. resolve_tool (er_tool_name body) (er_action body) = Inr spec \<and> validate_input h spec (er_input body) = Inr v
              \<longrightarrow> execute_endpoint h svc i k body s = (Inr (Problem 403 ''MERCHANT_MISMATCH''), t))
         \<and> get_case_unscoped t i = Some d \<and> same_exposure c d
         \<and> rc_status d = (if rc_status c \<in> set PRE_POLICY then Case_POLICY_CHECK else rc_status c)
         \<and> case_frame s t))"
proof -
  let ?e = "ToolValidationError ''MERCHANT_MISMATCH''"
  have st: "recovery_status ?e = 403" "recovery_status (DomainError ''MERCHANT_MISMATCH'' False) = 403"
    by (simp_all add: recovery_status_def Let_def)
  note foreign = find_decision_foreign [OF assms(1,2)]
  have decisions: "approve_action h svc i a actor who (Some m) s = (Inl ?e, s)"
    "reject_action i a actor who reason (Some m) s = (Inl ?e, s)"
    "cancel_action i a who reason (Some m) s = (Inl ?e, s)" for actor who reason
    by (simp_all add: approve_action_def reject_action_def cancel_action_def bind_eval foreign)
  have agents: "bind (run_case h oc i (Some m) ex) f s = (Inl (DomainError ''MERCHANT_MISMATCH'' False), s)"
    for f :: "OrchestrationResult \<Rightarrow> dict dbprog"
    using assms(1,2) by (simp add: run_case_def lock_run prog_simps)
  have "approve_endpoint h svc i a decision s = (Inr (Problem 403 ''MERCHANT_MISMATCH''), s)"
    "reject_endpoint i a decision s = (Inr (Problem 403 ''MERCHANT_MISMATCH''), s)"
    "cancel_endpoint i a decision s = (Inr (Problem 403 ''MERCHANT_MISMATCH''), s)"
    "run_agents h oc i (Some m) ex s = (Inr (Problem 403 ''MERCHANT_MISMATCH''), s)"
    unfolding approve_endpoint_def reject_endpoint_def cancel_endpoint_def run_agents_def assms(3)
    by (rule respond_error [where e = ?e]; simp add: st decisions)+
       (rule respond_error [where e = "DomainError ''MERCHANT_MISMATCH'' False"]; simp add: st agents)
  then show ?thesis using late_refusal [OF assms(1,2,4)] by simp
qed

definition stranger :: DecisionRequest where
  "stranger = \<lparr>dr_merchant_id = Some 9, dr_reason = None, dr_actor_id = Some ''demo-operator''\<rparr>"

definition stranger_execution :: ExecuteActionRequest where
  "stranger_execution = \<lparr>er_idempotency_key = ''key-1'', er_tool_name = Some ''get_recovery_case'', er_action = None,
     er_merchant_id = Some 9, er_input = [], er_actor_id = None\<rparr>"

theorem foreign_merchant_refused_witness:
  "approve_endpoint demo_host (demo_service default_settings) 4 7 stranger demo_db
       = (Inr (Problem 403 ''MERCHANT_MISMATCH''), demo_db)
   \<and> (\<exists>t d. execute_endpoint demo_host (demo_service default_settings) 4 None stranger_execution demo_db
         = (Inr (Problem 403 ''MERCHANT_MISMATCH''), t)
       \<and> get_case_unscoped t 4 = Some d \<and> rc_status d = Case_POLICY_CHECK)"
proof -
  have c: "rc_merchant_id demo_case \<noteq> 9" "rc_status demo_case \<in> set PRE_POLICY"
    by (simp_all add: demo_case_def PRE_POLICY_def)
  have b: "dr_merchant_id stranger = Some 9" "er_merchant_id stranger_execution = Some 9"
    by (simp_all add: stranger_def stranger_execution_def)
  have tool: "(case resolve_tool (Some ''get_recovery_case'') None of Inl _ \<Rightarrow> False
      | Inr spec \<Rightarrow> validate_input demo_host spec [] = Inr [])" by code_simp
  obtain spec where spec: "resolve_tool (er_tool_name stranger_execution) (er_action stranger_execution) = Inr spec"
    "validate_input demo_host spec (er_input stranger_execution) = Inr []"
    using tool by (auto simp: stranger_execution_def split: sum.splits)
  have way: "rc_status demo_case \<in> set ON_THE_WAY" using c(2) by (simp add: ON_THE_WAY_def)
  note refused = foreign_merchant_refused [OF demo_db_case c(1) b, of demo_host "demo_service default_settings" 7
      demo_orchestrator False "[]" "[]" None]
  obtain t d where t: "\<forall>spec v. resolve_tool (er_tool_name stranger_execution) (er_action stranger_execution) = Inr spec
        \<and> validate_input demo_host spec (er_input stranger_execution) = Inr v
        \<longrightarrow> execute_endpoint demo_host (demo_service default_settings) 4 None stranger_execution demo_db
              = (Inr (Problem 403 ''MERCHANT_MISMATCH''), t)"
      "get_case_unscoped t 4 = Some d"
      "rc_status d = (if rc_status demo_case \<in> set PRE_POLICY then Case_POLICY_CHECK else rc_status demo_case)"
    using mp [OF refused [THEN conjunct2, THEN conjunct2, THEN conjunct2, THEN conjunct2] way] by (elim exE conjE)
  have "execute_endpoint demo_host (demo_service default_settings) 4 None stranger_execution demo_db
      = (Inr (Problem 403 ''MERCHANT_MISMATCH''), t)"
    using t(1) spec by blast
  with refused t(2,3) c(2) show ?thesis by auto
qed

subsection \<open>Cases off the way to the policy check\<close>

lemma off_path_facts:
  assumes "st \<notin> set ON_THE_WAY"
  shows "\<not> can_transition st Case_TRIAGED \<and> \<not> already_past st Case_TRIAGED \<and> st \<noteq> Case_TRIAGED \<and> st \<noteq> Case_POLICY_CHECK"
  using assms by (cases st) (simp_all add: ON_THE_WAY_def PRE_POLICY_def already_past_def can_transition_def LEGAL_TRANSITIONS_def)

lemma walk_off_path:
  assumes "get_case_unscoped s i = Some c" and "rc_status c \<notin> set ON_THE_WAY"
  shows "walk_to_policy_check i actor s =
    (Inl InvalidTransitionError, s\<lparr>db_audit := db_audit s @ [transition_audit c Case_TRIAGED actor (db_clock s)]\<rparr>)"
proof -
  have "\<not> can_transition (rc_status c) Case_TRIAGED" "\<not> already_past (rc_status c) Case_TRIAGED"
    "rc_status c \<noteq> Case_TRIAGED" "rc_status c \<noteq> Case_POLICY_CHECK"
    using off_path_facts [OF assms(2)] by blast+
  then have "walk_steps i actor (Case_TRIAGED # rest) s =
      (Inl InvalidTransitionError, s\<lparr>db_audit := db_audit s @ [transition_audit c Case_TRIAGED actor (db_clock s)]\<rparr>)" for rest
    by (simp add: prog_simps assms(1) Let_def transition_case_eval [OF assms(1)])
  then show ?thesis by (simp add: walk_to_policy_check_def PROCESS_STEPS_def)
qed

text \<open>
  C31. \<^bold>\<open>A case that left the way to the policy check is not resumed.\<close> For a case whose retry is scheduled, that
  failed, was escalated, was not recovered, is being verified or is closed, every evaluation and every execution is
  answered with status 409: nothing runs, the case stays as it is, and one rejected transition is
  recorded. Processing such a case succeeds and does nothing. So a scheduled retry stays scheduled, whatever is
  requested for the case.
\<close>

theorem off_path_not_resumed:
  assumes "get_case_unscoped s i = Some c" and "rc_status c \<notin> set ON_THE_WAY" and "settings_from_env env = Inr st"
  shows "(let t = s\<lparr>db_audit := db_audit s @ [transition_audit c Case_TRIAGED Actor_WORKER (db_clock s)]\<rparr> in
       evaluate_action_endpoint svc i action input m s = (Inr (Problem 409 ''INVALID_STATE_TRANSITION''), t)
       \<and> execute_endpoint h svc i k body s = (Inr (Problem 409 ''INVALID_STATE_TRANSITION''), t))
    \<and> (\<exists>answer. process_case env i s = (Inr (Answer answer), s))"
proof -
  let ?t = "s\<lparr>db_audit := db_audit s @ [transition_audit c Case_TRIAGED Actor_WORKER (db_clock s)]\<rparr>"
  have st: "recovery_status InvalidTransitionError = 409" by (simp add: recovery_status_def Let_def)
  have "seqp (prepare_policy_check i) n s = (Inl InvalidTransitionError, ?t)" for n :: "'x dbprog"
    by (simp add: prog_simps prepare_run [OF assms(1)] walk_off_path [OF assms(1,2)])
  note walked = this
  have late: "evaluate_action_endpoint svc i action input m s = (Inr (Problem 409 ''INVALID_STATE_TRANSITION''), ?t)"
    "execute_endpoint h svc i k body s = (Inr (Problem 409 ''INVALID_STATE_TRANSITION''), ?t)"
    unfolding evaluate_action_endpoint_def execute_endpoint_def
    by (rule respond_error [where e = InvalidTransitionError]; simp add: st walked)+
  have stay: "process_locked_case st i actor s = (Inr i, s)" for actor
    using assms(1,2) by (cases "rc_status c")
      (simp_all add: process_locked_case_def prog_simps ON_THE_WAY_def PRE_POLICY_def is_terminal_def
        TERMINAL_RECOVERY_STATUSES_def)
  have "\<exists>answer. process_case env i s = (Inr (Answer answer), s)"
    using assms(1,3) stay
    by (simp add: process_case_def respond_def process_recovery_case_def process_def prog_simps lock_run [OF assms(1)])
  with late show ?thesis by (simp add: Let_def)
qed

definition scheduled_case :: RecoveryCase where
  "scheduled_case = demo_case\<lparr>rc_status := Case_RETRY_SCHEDULED\<rparr>"

theorem off_path_not_resumed_witness:
  "\<exists>t. execute_endpoint demo_host (demo_service default_settings) 4 None stranger_execution (demo_db\<lparr>db_cases := [scheduled_case]\<rparr>)
      = (Inr (Problem 409 ''INVALID_STATE_TRANSITION''), t) \<and> db_cases t = [scheduled_case]"
proof -
  let ?s = "demo_db\<lparr>db_cases := [scheduled_case]\<rparr>"
  have c: "get_case_unscoped ?s 4 = Some scheduled_case" "rc_status scheduled_case \<notin> set ON_THE_WAY"
    by (simp_all add: get_case_unscoped_def scheduled_case_def demo_case_def find_row_def ON_THE_WAY_def PRE_POLICY_def)
  from off_path_not_resumed [OF c settings_from_empty_env, of "demo_service default_settings" _ _ _ demo_host None stranger_execution]
  show ?thesis by (auto simp: Let_def)
qed

end
