(* ===== verification/Views.thy ===== *)
theory Views
  imports Api
begin

text \<open>
  The console's views of one case and its audit search: \<^verbatim>\<open>get_case_detail\<close>, \<^verbatim>\<open>get_case_decision\<close>,
  \<^verbatim>\<open>list_agent_runs\<close>, \<^verbatim>\<open>list_tool_calls\<close>, \<^verbatim>\<open>case_timeline\<close> and \<^verbatim>\<open>list_audit_events\<close> of \<^verbatim>\<open>operator/service.py\<close>
  behind the endpoints of \<^verbatim>\<open>operator/router.py\<close>. A view shows the rows themselves, less the JSON columns, which
  \<open>public_json\<close> has cleaned; explanations in prose and the filter of events by actor are left out. Agent runs are stored in the order they are
  created in, so the newest is the last one. The lemmas show which rows a view shows, and which of its columns show no key of a secret.
\<close>

subsection \<open>Rows as they are shown\<close>

definition public_json :: "dict option \<Rightarrow> dict option" where
  "public_json payload = map_option strip_secrets payload"

definition shown_action :: "RecoveryAction \<Rightarrow> RecoveryAction" where
  "shown_action a = a\<lparr>ra_metadata := strip_secrets (ra_metadata a)\<rparr>"

definition shown_decision :: "RecoveryDecision \<Rightarrow> RecoveryDecision" where
  "shown_decision d = d\<lparr>rd_decision_factors := strip_secrets (rd_decision_factors d)\<rparr>"

text \<open>\<^verbatim>\<open>order_by(column.desc()).limit(1)\<close>.\<close>

definition newest :: "('a \<Rightarrow> timestamp) \<Rightarrow> 'a list \<Rightarrow> 'a option" where
  "newest f rows = (case ordered_by False f rows of [] \<Rightarrow> None | r # _ \<Rightarrow> Some r)"

definition newest_decision :: "db \<Rightarrow> uuid \<Rightarrow> RecoveryDecision option" where
  "newest_decision s i = newest rd_created_at (filter (\<lambda>d. rd_recovery_case_id d = i) (db_decisions s))"

definition list_predictions :: "db \<Rightarrow> uuid \<Rightarrow> ModelPrediction list" where
  "list_predictions s i =
     ordered_by False mp_updated_at (ordered_by False mp_created_at
       (filter (\<lambda>p. mp_recovery_case_id p = i) (db_predictions s)))"

subsection \<open>The detail of a case\<close>

record CaseDetail =
  dt_case :: CaseRow
  dt_customer :: "Customer option"
  dt_payment :: "Payment option"
  dt_selected_action :: "string option"
  dt_policy_verdict :: "string option"
  dt_approval :: "Approval option"
  dt_approvals :: "Approval list"
  dt_actions :: "RecoveryAction list"
  dt_policy_evaluations :: "PolicyEvaluation list"
  dt_predictions :: "ModelPrediction list"
  dt_decision :: "RecoveryDecision option"

definition case_detail :: "db \<Rightarrow> RecoveryCase \<Rightarrow> CaseDetail" where
  "case_detail s c =
     (let i = rc_id c; customer = get_customer s (rc_merchant_id c) (rc_customer_id c);
          payment = (case rc_payment_id c of None \<Rightarrow> None | Some k \<Rightarrow> get_payment s (rc_merchant_id c) k);
          decision = newest_decision s i; predictions = list_predictions s i;
          approvals = ordered_by False ap_created_at (filter (\<lambda>a. ap_recovery_case_id a = i) (db_approvals s)) in
      \<lparr>dt_case = case_row c customer payment decision (case predictions of [] \<Rightarrow> None | p # _ \<Rightarrow> Some p),
       dt_customer = customer, dt_payment = payment,
       dt_selected_action = (case decision of None \<Rightarrow> None
         | Some d \<Rightarrow> if rd_selected_action d = ''NONE'' then None else Some (rd_selected_action d)),
       dt_policy_verdict = map_option rd_policy_verdict decision,
       dt_approval = find (\<lambda>a. ap_status a = Appr_PENDING) approvals, dt_approvals = approvals,
       dt_actions = map shown_action
         (ordered_by False ra_created_at (filter (\<lambda>a. ra_recovery_case_id a = i) (db_actions s))),
       dt_policy_evaluations = take 20
         (ordered_by False pe_evaluated_at (filter (\<lambda>e. pe_recovery_case_id e = i) (db_policy_evaluations s))),
       dt_predictions = predictions, dt_decision = map_option shown_decision decision\<rparr>)"

definition get_case_detail :: "db \<Rightarrow> uuid \<Rightarrow> Merchant option \<Rightarrow> CaseDetail res" where
  "get_case_detail s i merchant = bindE (require_case s i merchant) (\<lambda>c. Inr (case_detail s c))"

subsection \<open>The decision on a case\<close>

record DiagnosisView =
  dg_root_cause :: json
  dg_confidence :: json
  dg_evidence :: "string list"
  dg_recoverability :: json

record DecisionView =
  dv_source :: string
  dv_source_label :: string
  dv_diagnosis :: "DiagnosisView option"
  dv_candidate_actions :: "json list"
  dv_model_probabilities :: "ModelPrediction list"
  dv_selected_action :: "string option"
  dv_expected_values :: dict
  dv_policy_result :: "string option"
  dv_decision :: "RecoveryDecision option"

definition REASONING_AGENTS :: "string list" where
  "REASONING_AGENTS = [''orchestrator'', ''diagnosis'', ''strategy'', ''decision_explainer'']"

definition newest_run :: "db \<Rightarrow> uuid \<Rightarrow> string list \<Rightarrow> AgentRun option" where
  "newest_run s i names =
     (case filter (\<lambda>r. ag_recovery_case_id r = Some i \<and> ag_agent_name r \<in> set names) (db_agent_runs s) of
        [] \<Rightarrow> None | runs \<Rightarrow> Some (last runs))"

definition json_dict :: "json \<Rightarrow> dict option" where
  "json_dict v = (case v of JObj d \<Rightarrow> Some d | _ \<Rightarrow> None)"

text \<open>\<^verbatim>\<open>str(entries.get("source") or source)\<close>.\<close>

definition source_or :: "Host \<Rightarrow> dict \<Rightarrow> string \<Rightarrow> string" where
  "source_or h entries source =
     (let v = dict_get entries ''source'' in if truthy v then json_str h v else source)"

definition FALLBACK_SOURCE :: string where
  "FALLBACK_SOURCE = ''DETERMINISTIC_FALLBACK''"

definition run_source :: "Host \<Rightarrow> dict \<Rightarrow> string" where
  "run_source h output =
     (let diagnosis = json_dict (dict_get output ''diagnosis'');
          s1 = (case json_dict (dict_get output ''explanation'') of None \<Rightarrow> FALLBACK_SOURCE | Some e \<Rightarrow> source_or h e FALLBACK_SOURCE);
          s2 = (case diagnosis of None \<Rightarrow> s1 | Some d \<Rightarrow> source_or h d s1) in
      case dict_get output ''fallbacks'' of
        JList (_ # _) \<Rightarrow> FALLBACK_SOURCE
      | _ \<Rightarrow> (case diagnosis of None \<Rightarrow> s2
          | Some d \<Rightarrow> if dict_get d ''source'' = JStr ''LLM'' then ''LLM'' else s2))"

definition decision_source :: "Host \<Rightarrow> AgentRun option \<Rightarrow> AgentRun option \<Rightarrow> string" where
  "decision_source h orchestrator agent_run =
     (case (case orchestrator of None \<Rightarrow> None | Some r \<Rightarrow> ag_output_summary r) of
        Some output \<Rightarrow> run_source h output
      | None \<Rightarrow> (case (case agent_run of None \<Rightarrow> None | Some r \<Rightarrow> ag_decision_factors r) of
            Some factors \<Rightarrow> source_or h factors FALLBACK_SOURCE
          | None \<Rightarrow> FALLBACK_SOURCE))"

definition diagnosis_view :: "Host \<Rightarrow> dict \<Rightarrow> DiagnosisView" where
  "diagnosis_view h d =
     \<lparr>dg_root_cause = dict_get d ''root_cause'', dg_confidence = dict_get d ''confidence'',
      dg_evidence = (case dict_get d ''evidence'' of JList items \<Rightarrow> map (json_str h) items | _ \<Rightarrow> []),
      dg_recoverability = dict_get d ''recoverability''\<rparr>"

definition get_case_decision :: "Host \<Rightarrow> db \<Rightarrow> uuid \<Rightarrow> Merchant option \<Rightarrow> DecisionView res" where
  "get_case_decision h s i merchant =
     bindE (require_case s i merchant) (\<lambda>c.
     let decision = newest_decision s (rc_id c); orchestrator = newest_run s (rc_id c) [''orchestrator''];
         source = decision_source h orchestrator (newest_run s (rc_id c) REASONING_AGENTS);
         output = (case orchestrator of None \<Rightarrow> None | Some r \<Rightarrow> ag_output_summary r) in
     Inr \<lparr>dv_source = source,
          dv_source_label = (if source = ''LLM'' then ''LLM'' else ''DETERMINISTIC FALLBACK''),
          dv_diagnosis = (case output of None \<Rightarrow> None
            | Some d \<Rightarrow> map_option (diagnosis_view h) (json_dict (dict_get d ''diagnosis''))),
          dv_candidate_actions = (case decision of None \<Rightarrow> []
            | Some d \<Rightarrow> (case dict_get (rd_candidate_actions d) ''actions'' of JList xs \<Rightarrow> xs | _ \<Rightarrow> [])),
          dv_model_probabilities = list_predictions s (rc_id c),
          dv_selected_action = map_option rd_selected_action decision,
          dv_expected_values = (case decision of None \<Rightarrow> [] | Some d \<Rightarrow> rd_expected_values d),
          dv_policy_result = map_option rd_policy_verdict decision,
          dv_decision = map_option shown_decision decision\<rparr>)"

subsection \<open>Agent runs, tool calls and audit events\<close>

record AgentRunView =
  rv_run :: AgentRun
  rv_source :: json

definition agent_run_view :: "AgentRun \<Rightarrow> AgentRunView" where
  "agent_run_view r =
     \<lparr>rv_run = r\<lparr>ag_input_summary := strip_secrets (ag_input_summary r), ag_output_summary := public_json (ag_output_summary r)\<rparr>,
      rv_source = (case ag_decision_factors r of None \<Rightarrow> JNull | Some d \<Rightarrow> dict_get d ''source'')\<rparr>"

definition list_agent_runs :: "db \<Rightarrow> uuid \<Rightarrow> Merchant option \<Rightarrow> AgentRunView list res" where
  "list_agent_runs s i merchant =
     bindE (require_case s i merchant) (\<lambda>c.
     Inr (map agent_run_view
            (ordered_by True ag_started_at (filter (\<lambda>r. ag_recovery_case_id r = Some (rc_id c)) (db_agent_runs s)))))"

definition shown_call :: "ToolCall \<Rightarrow> ToolCall" where
  "shown_call t = t\<lparr>tc_request_payload := strip_secrets (tc_request_payload t)\<rparr>"

text \<open>Tool calls are stored in the order they are created in.\<close>

definition list_tool_calls :: "db \<Rightarrow> uuid \<Rightarrow> Merchant option \<Rightarrow> ToolCall list res" where
  "list_tool_calls s i merchant =
     bindE (require_case s i merchant) (\<lambda>c.
     Inr (map shown_call (filter (\<lambda>t. tc_recovery_case_id t = rc_id c) (db_tool_calls s))))"

record AuditQuery =
  aq_case_id :: "uuid option"
  aq_event_type :: "AuditEventType option"
  aq_since :: "timestamp option"
  aq_until :: "timestamp option"

definition matches_audit :: "uuid \<Rightarrow> AuditQuery \<Rightarrow> AuditEvent \<Rightarrow> bool" where
  "matches_audit mid q e \<longleftrightarrow>
     au_merchant_id e = mid
     \<and> (case aq_case_id q of None \<Rightarrow> True | Some i \<Rightarrow> au_case_id e = Some i)
     \<and> (case aq_event_type q of None \<Rightarrow> True | Some x \<Rightarrow> au_event_type e = x)
     \<and> (case aq_since q of None \<Rightarrow> True | Some t \<Rightarrow> au_created_at e \<ge> t)
     \<and> (case aq_until q of None \<Rightarrow> True | Some t \<Rightarrow> au_created_at e \<le> t)"

definition page_events :: "db \<Rightarrow> uuid \<Rightarrow> AuditQuery \<Rightarrow> nat \<Rightarrow> nat \<Rightarrow> AuditEvent list \<times> nat" where
  "page_events s mid q offset limit =
     (let rows = filter (matches_audit mid q) (db_audit s) in
      (take limit (drop offset (ordered_by False au_created_at rows)), length rows))"

definition list_audit_events ::
  "db \<Rightarrow> uuid option \<Rightarrow> string option \<Rightarrow> AuditQuery \<Rightarrow> nat \<Rightarrow> nat \<Rightarrow> AuditEvent Listing res" where
  "list_audit_events s merchant_id merchant_slug q page page_size =
     bindE (the_merchant s merchant_id merchant_slug) (\<lambda>m.
     let (rows, total) = page_events s (mer_id m) q ((page - 1) * page_size) page_size in
     Inr \<lparr>lst_items = rows, lst_page = page, lst_page_size = page_size, lst_total = total\<rparr>)"

subsection \<open>Endpoints\<close>

datatype view = View_detail | View_decision | View_timeline "timestamp option" | View_agent_runs | View_tool_calls

datatype view_result =
    Detail CaseDetail
  | Decision DecisionView
  | Timeline "timestamp option \<times> AuditEvent list"
  | Agent_runs "AgentRunView list"
  | Tool_calls "ToolCall list"

definition show_view :: "Host \<Rightarrow> db \<Rightarrow> view \<Rightarrow> uuid \<Rightarrow> Merchant option \<Rightarrow> view_result res" where
  "show_view h s v i merchant = (case v of
     View_detail \<Rightarrow> bindE (get_case_detail s i merchant) (\<lambda>x. Inr (Detail x))
   | View_decision \<Rightarrow> bindE (get_case_decision h s i merchant) (\<lambda>x. Inr (Decision x))
   | View_timeline since \<Rightarrow> bindE (case_timeline s i merchant since) (\<lambda>x. Inr (Timeline x))
   | View_agent_runs \<Rightarrow> bindE (list_agent_runs s i merchant) (\<lambda>x. Inr (Agent_runs x))
   | View_tool_calls \<Rightarrow> bindE (list_tool_calls s i merchant) (\<lambda>x. Inr (Tool_calls x)))"

text \<open>A request may leave its merchant out; then the case is not checked against one.\<close>

definition request_merchant :: "db \<Rightarrow> uuid option \<Rightarrow> string option \<Rightarrow> Merchant option res" where
  "request_merchant s merchant_id merchant_slug =
     (if merchant_id \<noteq> None \<or> nonempty merchant_slug then resolve_merchant s merchant_id merchant_slug True else Inr None)"

definition answer_read :: "'a res \<Rightarrow> 'a response res" where
  "answer_read r = (case r of
     Inr x \<Rightarrow> Inr (Answer x)
   | Inl e \<Rightarrow> if is_domain_error e then Inr (Problem (operator_status e) (error_code e)) else Inl e)"

definition get_view :: "Host \<Rightarrow> db \<Rightarrow> view \<Rightarrow> uuid \<Rightarrow> uuid option \<Rightarrow> string option \<Rightarrow> view_result response res" where
  "get_view h s v i merchant_id merchant_slug =
     answer_read (bindE (request_merchant s merchant_id merchant_slug) (\<lambda>merchant. show_view h s v i merchant))"

definition get_audit_events ::
  "db \<Rightarrow> uuid option \<Rightarrow> string option \<Rightarrow> AuditQuery \<Rightarrow> nat \<Rightarrow> nat \<Rightarrow> AuditEvent Listing response res" where
  "get_audit_events s merchant_id merchant_slug q page page_size =
     answer_read (list_audit_events s merchant_id merchant_slug q page page_size)"

subsection \<open>What is shown\<close>

text \<open>The keys of a dictionary and of the dictionaries in it.\<close>

fun visible_keys :: "dict \<Rightarrow> string list" where
  "visible_keys [] = []"
| "visible_keys ((key, value) # d) = key # (case value of JObj e \<Rightarrow> visible_keys e | _ \<Rightarrow> []) @ visible_keys d"

lemma strip_secrets_clean: "list_all (\<lambda>k. \<not> secret_key k) (visible_keys (strip_secrets d))"
  by (induction d rule: strip_secrets.induct) (auto split: json.splits)

lemma strip_secrets_idem: "strip_secrets (strip_secrets d) = strip_secrets d"
  by (induction d rule: strip_secrets.induct) (auto split: json.splits)

definition clean :: "dict \<Rightarrow> bool" where
  "clean d \<longleftrightarrow> list_all (\<lambda>k. \<not> secret_key k) (visible_keys d)"

lemma clean_strip [simp]: "clean (strip_secrets d)"
  by (simp add: clean_def strip_secrets_clean)

text \<open>
  A view is of a case when it has the kind that was asked for and shows the rows of that case: all of them where it is a
  list, the newest decision where it is one, the first or newest ones (\<open>leading\<close>) where the list is cut off; and
  when no dictionary key that names a secret is in the columns it has cleaned.
\<close>

definition leading :: "bool \<Rightarrow> nat \<Rightarrow> ('a \<Rightarrow> timestamp) \<Rightarrow> 'a list \<Rightarrow> 'a list \<Rightarrow> bool" where
  "leading up n f shown rows \<longleftrightarrow> (\<exists>rest. mset (shown @ rest) = mset rows \<and> length shown = min n (length rows)
     \<and> sorted_wrt (\<lambda>x y. if up then f x \<le> f y else f y \<le> f x) (shown @ rest))"

definition newest_of_case :: "db \<Rightarrow> uuid \<Rightarrow> RecoveryDecision option \<Rightarrow> bool" where
  "newest_of_case s i shown \<longleftrightarrow>
     (let mine = filter (\<lambda>d. rd_recovery_case_id d = i) (db_decisions s) in
      case shown of
        None \<Rightarrow> mine = []
      | Some d \<Rightarrow> list_ex (\<lambda>e. d = shown_decision e) mine \<and> list_all (\<lambda>e. rd_created_at e \<le> rd_created_at d) mine
          \<and> clean (rd_decision_factors d))"

fun view_of_case :: "db \<Rightarrow> RecoveryCase \<Rightarrow> view \<Rightarrow> view_result \<Rightarrow> bool" where
  "view_of_case s c View_detail (Detail d) \<longleftrightarrow>
     row_case (dt_case d) = c
     \<and> dt_customer d = get_customer s (rc_merchant_id c) (rc_customer_id c)
     \<and> dt_payment d = Option.bind (rc_payment_id c) (get_payment s (rc_merchant_id c))
     \<and> mset (dt_approvals d) = mset (filter (\<lambda>a. ap_recovery_case_id a = rc_id c) (db_approvals s))
     \<and> (case dt_approval d of None \<Rightarrow> list_all (\<lambda>a. ap_status a \<noteq> Appr_PENDING) (dt_approvals d)
        | Some a \<Rightarrow> a \<in> set (dt_approvals d) \<and> ap_status a = Appr_PENDING)
     \<and> mset (dt_actions d) = mset (map shown_action (filter (\<lambda>a. ra_recovery_case_id a = rc_id c) (db_actions s)))
     \<and> list_all (\<lambda>a. clean (ra_metadata a)) (dt_actions d)
     \<and> leading False 20 pe_evaluated_at (dt_policy_evaluations d)
         (filter (\<lambda>e. pe_recovery_case_id e = rc_id c) (db_policy_evaluations s))
     \<and> mset (dt_predictions d) = mset (filter (\<lambda>p. mp_recovery_case_id p = rc_id c) (db_predictions s))
     \<and> newest_of_case s (rc_id c) (dt_decision d)"
| "view_of_case s c View_decision (Decision d) \<longleftrightarrow>
     mset (dv_model_probabilities d) = mset (filter (\<lambda>p. mp_recovery_case_id p = rc_id c) (db_predictions s))
     \<and> dv_selected_action d = map_option rd_selected_action (dv_decision d)
     \<and> dv_policy_result d = map_option rd_policy_verdict (dv_decision d)
     \<and> newest_of_case s (rc_id c) (dv_decision d)"
| "view_of_case s c (View_timeline since) (Timeline (cursor, events)) \<longleftrightarrow>
     leading True 200 au_created_at events
       (filter (\<lambda>e. au_merchant_id e = rc_merchant_id c \<and> au_case_id e = Some (rc_id c)
          \<and> (case since of None \<Rightarrow> True | Some t \<Rightarrow> t < au_created_at e)) (db_audit s))
     \<and> cursor = (if events = [] then since else Some (au_created_at (last events)))"
| "view_of_case s c View_agent_runs (Agent_runs rows) \<longleftrightarrow>
     mset rows = mset (map agent_run_view (filter (\<lambda>r. ag_recovery_case_id r = Some (rc_id c)) (db_agent_runs s)))
     \<and> list_all (\<lambda>r. clean (ag_input_summary (rv_run r))
         \<and> (case ag_output_summary (rv_run r) of None \<Rightarrow> True | Some d \<Rightarrow> clean d)) rows"
| "view_of_case s c View_tool_calls (Tool_calls rows) \<longleftrightarrow>
     rows = map shown_call (filter (\<lambda>t. tc_recovery_case_id t = rc_id c) (db_tool_calls s))
     \<and> list_all (\<lambda>t. clean (tc_request_payload t)) rows"
| "view_of_case s c v x \<longleftrightarrow> False"

lemma leading_ordered: "leading up n f (take n (ordered_by up f rows)) rows"
  unfolding leading_def
  by (intro exI [of _ "drop n (ordered_by up f rows)"]) (simp add: ordered_by_sorted min.commute)

lemma set_ordered_by [simp]: "set (ordered_by up f xs) = set xs"
  by (metis ordered_by_mset(1) set_mset_mset)

lemma newest_None: "newest f rows = None \<longleftrightarrow> rows = []"
  by (metis newest_def list.case_eq_if option.discI set_ordered_by set_empty)

lemma newest_Some:
  assumes "newest f rows = Some r"
  shows "r \<in> set rows" "\<forall>x \<in> set rows. f x \<le> f r"
proof -
  obtain rest where order: "ordered_by False f rows = r # rest"
    using assms by (auto simp: newest_def split: list.splits)
  show "r \<in> set rows" by (metis order list.set_intros(1) set_ordered_by)
  have "\<forall>x \<in> set (ordered_by False f rows). f x \<le> f r"
    using ordered_by_sorted [of False f rows] unfolding order by simp
  then show "\<forall>x \<in> set rows. f x \<le> f r" by simp
qed

lemma newest_decision_shown: "newest_of_case s i (map_option shown_decision (newest_decision s i))"
proof (cases "newest_decision s i")
  case None
  then have "filter (\<lambda>d. rd_recovery_case_id d = i) (db_decisions s) = []" by (simp only: newest_decision_def newest_None)
  with None show ?thesis by (simp add: newest_of_case_def)
next
  case (Some d)
  note newest_Some [OF Some [unfolded newest_decision_def]]
  with Some show ?thesis by (auto simp: newest_of_case_def shown_decision_def list_all_iff list_ex_iff Let_def)
qed

lemma shown_action_fields [simp]:
  "ra_id (shown_action a) = ra_id a" "ra_recovery_case_id (shown_action a) = ra_recovery_case_id a"
  "clean (ra_metadata (shown_action a))"
  by (simp_all add: shown_action_def)

lemma find_None: "find P xs = None \<Longrightarrow> \<forall>x \<in> set xs. \<not> P x"
  by (auto simp: find_None_iff)

lemma find_Some: "find P xs = Some x \<Longrightarrow> x \<in> set xs \<and> P x"
  by (auto simp: find_Some_iff)

lemma detail_of_case: "view_of_case s c View_detail (Detail (case_detail s c))"
  by (auto simp: case_detail_def Let_def case_row_def list_predictions_def newest_decision_shown mset_map leading_ordered
      list_all_iff split: option.split dest: find_None find_Some)

lemma show_view_allowed:
  assumes "require_case s i merchant = Inr c"
  shows "\<exists>x. show_view h s v i merchant = Inr x \<and> view_of_case s c v x"
proof (cases v)
  case View_detail
  then show ?thesis using assms detail_of_case by (simp add: show_view_def get_case_detail_def)
next
  case View_decision
  then show ?thesis using assms newest_decision_shown [of s "rc_id c"]
    by (cases "newest_decision s (rc_id c)")
       (simp_all add: show_view_def get_case_decision_def Let_def list_predictions_def shown_decision_def)
next
  case (View_timeline since)
  have "leading True n f (take n (sort_key f rows)) rows" for n and f :: "AuditEvent \<Rightarrow> timestamp" and rows
    using leading_ordered [of True n f rows] by (simp add: ordered_by_def)
  with View_timeline assms show ?thesis
    by (auto simp: show_view_def case_timeline_def Let_def list_for_case_since_def TIMELINE_LIMIT_def)
next
  case View_agent_runs
  then show ?thesis using assms
    by (auto simp: show_view_def list_agent_runs_def agent_run_view_def public_json_def list_all_iff mset_map
        split: option.splits)
next
  case View_tool_calls
  then show ?thesis using assms
    by (auto simp: show_view_def list_tool_calls_def shown_call_def list_all_iff)
qed

lemma show_view_refused: "require_case s i merchant = Inl e \<Longrightarrow> show_view h s v i merchant = Inl e"
  by (cases v) (simp_all add: show_view_def get_case_detail_def get_case_decision_def case_timeline_def
      list_agent_runs_def list_tool_calls_def)


end
