(* ===== verification/Dataset.thy ===== *)
theory Dataset
  imports Prediction "HOL-Library.State_Monad"
begin

text \<open>
  The synthetic dataset of the evaluation package: \<^verbatim>\<open>recoverai_eval/data/generate.py\<close> (customers, cases
  and labels from seeded draws) and \<^verbatim>\<open>recoverai_eval/data/split.py\<close> (train, validation and test by
  customer). Python's \<^verbatim>\<open>random.Random\<close> is the parameter \<open>RandomLib\<close>: a generator is seeded from a text
  and threaded through the draws in a state monad, and \<open>random_laws\<close> states the documented range of each
  draw. Floats are their rational values; the product of \<^verbatim>\<open>int(len * ratio)\<close>, whose rounding a truncation
  can show, is a parameter too.
\<close>

subsection \<open>Pseudo-random draws\<close>

type_synonym ('g, 'a) draw = "('g, 'a) state"

record 'g RandomLib =
  rl_seeded :: "string \<Rightarrow> 'g"
  rl_random :: "('g, rat) draw"
  rl_betavariate :: "rat \<Rightarrow> rat \<Rightarrow> ('g, rat) draw"
  rl_randint :: "int \<Rightarrow> int \<Rightarrow> ('g, int) draw"
  rl_randrange :: "nat \<Rightarrow> ('g, nat) draw"
  rl_gauss :: "rat \<Rightarrow> rat \<Rightarrow> ('g, rat) draw"
  rl_lognormvariate :: "rat \<Rightarrow> rat \<Rightarrow> ('g, rat) draw"
  rl_shuffled :: "int \<Rightarrow> string list \<Rightarrow> string list"

definition random_laws :: "'g RandomLib \<Rightarrow> bool" where
  "random_laws rl \<longleftrightarrow>
     pred_state (\<lambda>u. 0 \<le> u \<and> u < 1) (rl_random rl)
     \<and> (\<forall>a b. pred_state (\<lambda>u. 0 \<le> u \<and> u \<le> 1) (rl_betavariate rl a b))
     \<and> (\<forall>a b. a \<le> b \<longrightarrow> pred_state (\<lambda>i. a \<le> i \<and> i \<le> b) (rl_randint rl a b))
     \<and> (\<forall>n. 0 < n \<longrightarrow> pred_state (\<lambda>i. i < n) (rl_randrange rl n))
     \<and> (\<forall>seed xs. mset (rl_shuffled rl seed xs) = mset xs)"

definition run_seeded :: "'g RandomLib \<Rightarrow> string \<Rightarrow> ('g, 'a) draw \<Rightarrow> 'a" where
  "run_seeded rl payload m = fst (run_state m (rl_seeded rl payload))"

text \<open>The second operand of \<^verbatim>\<open>and\<close> draws only when the first one holds.\<close>

definition and_draw :: "'g RandomLib \<Rightarrow> bool \<Rightarrow> rat \<Rightarrow> ('g, bool) draw" where
  "and_draw rl b bound =
     (if b then do {u \<leftarrow> rl_random rl; State_Monad.return (u < bound)} else State_Monad.return False)"

definition clip :: "rat \<Rightarrow> rat \<Rightarrow> rat \<Rightarrow> rat" where
  "clip v lo hi = max lo (min hi v)"

definition trunc_int :: "rat \<Rightarrow> int" where
  "trunc_int x = (if x < 0 then \<lceil>x\<rceil> else \<lfloor>x\<rfloor>)"

definition customer_rng :: "int \<Rightarrow> nat \<Rightarrow> string" where
  "customer_rng seed index = show_int seed @ '':customer:'' @ show_int (int index)"

definition case_rng :: "int \<Rightarrow> nat \<Rightarrow> string" where
  "case_rng seed index = show_int seed @ '':case:'' @ show_int (int index)"

definition label_rng :: "int \<Rightarrow> string \<Rightarrow> string \<Rightarrow> string" where
  "label_rng seed case_id action = show_int seed @ '':label:'' @ case_id @ '':'' @ action"

subsection \<open>Customers\<close>

definition MERCHANT_CATEGORIES :: "string list" where
  "MERCHANT_CATEGORIES = [''GROCERY'', ''SUBSCRIPTION'', ''TRAVEL'', ''DIGITAL'', ''RETAIL'']"

definition PAYMENT_METHODS :: "string list" where
  "PAYMENT_METHODS = [''CARD'', ''UPI'', ''NETBANKING'', ''WALLET'']"

definition BANKS :: "string list" where
  "BANKS = [''HDFC'', ''SBI'', ''ICICI'', ''AXIS'', ''OTHER'']"

record SyntheticCustomer =
  sy_customer_id :: string
  sy_quality :: rat
  sy_liquidity :: rat
  sy_card_health :: rat
  sy_engagement :: rat
  sy_price_sensitivity :: rat
  sy_segment :: string
  sy_prior_captures :: int
  sy_prior_failures :: int
  sy_historical_success_rate :: rat
  sy_historical_recovery_rate :: rat
  sy_clv :: rat
  sy_previous_discount_usage :: rat

definition draw_quality :: "'g RandomLib \<Rightarrow> ('g, rat) draw" where
  "draw_quality rl = do {
     u \<leftarrow> rl_random rl;
     q \<leftarrow> (if u > 2/10 then rl_betavariate rl 4 2 else rl_betavariate rl 2 4);
     State_Monad.return (clip q 0 1)}"

definition draw_segment :: "'g RandomLib \<Rightarrow> rat \<Rightarrow> rat \<Rightarrow> rat \<Rightarrow> ('g, string) draw" where
  "draw_segment rl quality engagement price_sensitivity = do {
     high \<leftarrow> and_draw rl (quality > 75/100) (5/10);
     State_Monad.return (if high then ''HIGH_VALUE''
       else if quality > 6/10 then ''LOYAL''
       else if engagement < 3/10 then ''DORMANT''
       else if price_sensitivity > 7/10 then ''PRICE_SENSITIVE'' else ''NEW'')}"

definition draw_customer :: "'g RandomLib \<Rightarrow> int \<Rightarrow> nat \<Rightarrow> ('g, SyntheticCustomer) draw" where
  "draw_customer rl seed index = do {
     quality \<leftarrow> draw_quality rl;
     u1 \<leftarrow> rl_random rl;
     u2 \<leftarrow> rl_random rl;
     u3 \<leftarrow> rl_random rl;
     u4 \<leftarrow> rl_random rl;
     let engagement = clip (40/100 * quality + 60/100 * u3) 0 1;
     let price_sensitivity = clip (1 - 6/10 * quality + 3/10 * u4) 0 1;
     segment \<leftarrow> draw_segment rl quality engagement price_sensitivity;
     captures \<leftarrow> rl_randint rl 0 8;
     more_captures \<leftarrow> rl_randint rl 0 2;
     failures \<leftarrow> rl_randint rl 0 6;
     more_failures \<leftarrow> rl_randint rl 0 2;
     u5 \<leftarrow> rl_random rl;
     u6 \<leftarrow> rl_random rl;
     u7 \<leftarrow> rl_random rl;
     let prior_captures = trunc_int (of_int captures * quality + of_int more_captures);
     let prior_failures = trunc_int (of_int failures * (1 - quality) + of_int more_failures);
     State_Monad.return
       \<lparr>sy_customer_id = ''cust_'' @ show_int seed @ ''_'' @ show_int (int index),
        sy_quality = quality, sy_liquidity = clip (55/100 * quality + 45/100 * u1) 0 1,
        sy_card_health = clip (50/100 * quality + 50/100 * u2) 0 1, sy_engagement = engagement,
        sy_price_sensitivity = price_sensitivity, sy_segment = segment,
        sy_prior_captures = prior_captures, sy_prior_failures = prior_failures,
        sy_historical_success_rate = of_int prior_captures / of_int (max (prior_captures + prior_failures) 1),
        sy_historical_recovery_rate = clip (35/100 * quality
          + 25/100 * (of_int prior_captures / of_int (prior_captures + 3)) + 1/10 * u5) 0 1,
        sy_clv = quantize_digits 2 (200 + quality * 18000 + u6 * 2000),
        sy_previous_discount_usage = clip (15/100 + 7/10 * price_sensitivity * u7) 0 1\<rparr>}"

subsection \<open>Cases\<close>

record SyntheticCase =
  sn_case_id :: string
  sn_customer_id :: string
  sn_merchant_category :: string
  sn_amount :: rat
  sn_payment_method :: string
  sn_bank :: string
  sn_failure_reason :: FailureReason
  sn_attempt_number :: int
  sn_historical_success_rate :: rat
  sn_historical_recovery_rate :: rat
  sn_customer_lifetime_value :: rat
  sn_days_since_last_purchase :: rat
  sn_cart_age_hours :: "rat option"
  sn_cart_value :: "rat option"
  sn_subscription_state :: string
  sn_communication_count :: int
  sn_days_since_last_contact :: rat
  sn_previous_discount_usage :: rat
  sn_hour_of_day :: int
  sn_day_of_week :: nat
  sn_customer_segment :: string
  sn_case_type :: RecoveryCaseType
  sn_prior_failures :: int
  sn_prior_captures :: int

definition draw_failure_reason :: "'g RandomLib \<Rightarrow> rat \<Rightarrow> rat \<Rightarrow> rat \<Rightarrow> ('g, FailureReason) draw" where
  "draw_failure_reason rl liquidity card_health quality = do {
     roll \<leftarrow> rl_random rl;
     State_Monad.return
       (if quality < 12/100 \<and> roll < 18/100 then CUSTOMER_CANCELLED
        else if card_health < 28/100 \<and> roll < 55/100 then EXPIRED_CARD
        else if liquidity < 32/100 \<and> roll < 62/100 then INSUFFICIENT_FUNDS
        else if quality < 22/100 \<and> roll < 28/100 then MANDATE_FAILURE
        else if roll < 22/100 then TEMPORARY_BANK_ERROR
        else if roll < 38/100 then NETWORK_TIMEOUT
        else if roll < 55/100 then DECLINED
        else if roll < 70/100 then INSUFFICIENT_FUNDS
        else if roll < 82/100 then EXPIRED_CARD
        else if roll < 90/100 then CUSTOMER_CANCELLED
        else UNKNOWN_FAILURE)}"

definition draw_case_type :: "'g RandomLib \<Rightarrow> string \<Rightarrow> string \<Rightarrow> ('g, RecoveryCaseType) draw" where
  "draw_case_type rl segment category = do {
     subscription \<leftarrow> and_draw rl (category = ''SUBSCRIPTION'') (55/100);
     if subscription then State_Monad.return SUBSCRIPTION_FAILURE else do {
       dormant \<leftarrow> and_draw rl (segment = ''DORMANT'') (45/100);
       if dormant then State_Monad.return ABANDONED_CHECKOUT else do {
         abandoned \<leftarrow> and_draw rl True (18/100);
         State_Monad.return (if abandoned then ABANDONED_CHECKOUT else FAILED_PAYMENT)}}}"

definition draw_category :: "'g RandomLib \<Rightarrow> rat \<Rightarrow> ('g, string) draw" where
  "draw_category rl clv = do {
     i \<leftarrow> rl_randrange rl (length MERCHANT_CATEGORIES);
     travel \<leftarrow> and_draw rl (clv > 8000) (3/10);
     State_Monad.return (if travel then ''TRAVEL'' else MERCHANT_CATEGORIES ! i)}"

definition draw_amount :: "'g RandomLib \<Rightarrow> SyntheticCustomer \<Rightarrow> ('g, rat) draw" where
  "draw_amount rl customer = do {
     u \<leftarrow> rl_random rl;
     let amount = quantize_digits 2 (80 + u * 4500 + (1 - sy_liquidity customer) * 800);
     if sy_segment customer = ''HIGH_VALUE'' then do {
       v \<leftarrow> rl_random rl;
       State_Monad.return (quantize_digits 2 (amount + 2500 * v))}
     else State_Monad.return amount}"

definition draw_cart_age :: "'g RandomLib \<Rightarrow> RecoveryCaseType \<Rightarrow> rat \<Rightarrow> ('g, rat option) draw" where
  "draw_cart_age rl case_type engagement =
     (if case_type = ABANDONED_CHECKOUT then do {
        u \<leftarrow> rl_random rl;
        State_Monad.return (Some (quantize_digits 2 (2 + (1 - engagement) * 400 + u * 80)))}
      else State_Monad.return None)"

definition draw_subscription_state :: "'g RandomLib \<Rightarrow> RecoveryCaseType \<Rightarrow> ('g, string) draw" where
  "draw_subscription_state rl case_type =
     (if case_type = SUBSCRIPTION_FAILURE then do {
        u \<leftarrow> rl_random rl;
        State_Monad.return (if u < 6/10 then ''HALTED'' else ''PENDING'')}
      else State_Monad.return ''NONE'')"

definition draw_case :: "'g RandomLib \<Rightarrow> int \<Rightarrow> nat \<Rightarrow> SyntheticCustomer \<Rightarrow> ('g, SyntheticCase) draw" where
  "draw_case rl seed index customer = do {
     category \<leftarrow> draw_category rl (sy_clv customer);
     method \<leftarrow> rl_randrange rl (length PAYMENT_METHODS);
     bank \<leftarrow> rl_randrange rl (length BANKS);
     failure \<leftarrow> draw_failure_reason rl (sy_liquidity customer) (sy_card_health customer) (sy_quality customer);
     case_type \<leftarrow> draw_case_type rl (sy_segment customer) category;
     u1 \<leftarrow> rl_random rl;
     amount \<leftarrow> draw_amount rl customer;
     cart_age \<leftarrow> draw_cart_age rl case_type (sy_engagement customer);
     sub_state \<leftarrow> draw_subscription_state rl case_type;
     u2 \<leftarrow> rl_random rl;
     u3 \<leftarrow> rl_random rl;
     u4 \<leftarrow> rl_random rl;
     g \<leftarrow> rl_gauss rl 14 5;
     dow \<leftarrow> rl_randrange rl 7;
     let attempt = min (max (1 + trunc_int (u1 * (1 + 4 * (1 - sy_quality customer)))) 1) 8;
     let comms = trunc_int ((1 - sy_engagement customer) * 8 + u2 * 3);
     State_Monad.return
       \<lparr>sn_case_id = ''case_'' @ show_int seed @ ''_'' @ show_int (int index),
        sn_customer_id = sy_customer_id customer, sn_merchant_category = category, sn_amount = amount,
        sn_payment_method = (if sy_card_health customer < 35/100 then ''CARD'' else PAYMENT_METHODS ! method),
        sn_bank = BANKS ! bank, sn_failure_reason = failure, sn_attempt_number = attempt,
        sn_historical_success_rate = quantize_digits 4 (sy_historical_success_rate customer),
        sn_historical_recovery_rate = quantize_digits 4 (sy_historical_recovery_rate customer),
        sn_customer_lifetime_value = sy_clv customer,
        sn_days_since_last_purchase = quantize_digits 2 ((1 - sy_engagement customer) * 180 + u4 * 40),
        sn_cart_age_hours = cart_age,
        sn_cart_value = (if case_type = ABANDONED_CHECKOUT then Some amount else None),
        sn_subscription_state = sub_state, sn_communication_count = comms,
        sn_days_since_last_contact = (if comms \<noteq> 0 then quantize_digits 2 (u3 * (2 + of_int comms * 3))
          else quantize_digits 2 (u3 * 21)),
        sn_previous_discount_usage = quantize_digits 4 (sy_previous_discount_usage customer),
        sn_hour_of_day = trunc_int (clip g 0 23), sn_day_of_week = dow,
        sn_customer_segment = sy_segment customer, sn_case_type = case_type,
        sn_prior_failures = sy_prior_failures customer + max (attempt - 1) 0,
        sn_prior_captures = sy_prior_captures customer\<rparr>}"

text \<open>
  The number of customers of a request. A negative number leaves the list of customers empty, and
  the first case then indexes an empty list.
\<close>

definition customer_count :: "int \<Rightarrow> int option \<Rightarrow> int" where
  "customer_count n_cases n_customers = (case n_customers of
     Some n \<Rightarrow> if n = 0 then max 32 (n_cases div 3) else n | None \<Rightarrow> max 32 (n_cases div 3))"

definition draw_customers :: "'g RandomLib \<Rightarrow> int \<Rightarrow> nat \<Rightarrow> SyntheticCustomer list" where
  "draw_customers rl seed n = map (\<lambda>i. run_seeded rl (customer_rng seed i) (draw_customer rl seed i)) [0..<n]"

definition generate_cases ::
  "'g RandomLib \<Rightarrow> int \<Rightarrow> int \<Rightarrow> int option \<Rightarrow> SyntheticCase list res" where
  "generate_cases rl seed n_cases n_customers =
     (if n_cases < 1 then Inl ValueError
      else
        let count = customer_count n_cases n_customers; customers = draw_customers rl seed (nat count) in
        if count < 0 then Inl IndexError
        else Inr (map (\<lambda>i. run_seeded rl (case_rng seed i) (draw_case rl seed i (customers ! (i mod nat count))))
               [0..<nat n_cases]))"

subsection \<open>Labels\<close>

definition label_context :: "SyntheticCase \<Rightarrow> InterventionContext" where
  "label_context c =
     \<lparr>ic_failure_reason = Some (sn_failure_reason c), ic_attempt_number = sn_attempt_number c,
      ic_history = \<lparr>ch_prior_failures = sn_prior_failures c, ch_prior_captures = sn_prior_captures c,
        ch_lifetime_value = sn_customer_lifetime_value c\<rparr>,
      ic_historical_success_rate = sn_historical_success_rate c,
      ic_historical_recovery_rate = sn_historical_recovery_rate c,
      ic_communication_count = sn_communication_count c,
      ic_previous_discount_usage = sn_previous_discount_usage c, ic_cart_age_hours = sn_cart_age_hours c,
      ic_customer_lifetime_value = sn_customer_lifetime_value c, ic_amount = sn_amount c,
      ic_hour_of_day = sn_hour_of_day c, ic_case_type = case_type_value (sn_case_type c)\<rparr>"

record LabeledRow =
  lb_case :: SyntheticCase
  lb_action :: string
  lb_true_probability :: rat
  lb_recovered :: bool
  lb_recovery_time_hours :: "rat option"

definition draw_label :: "'g RandomLib \<Rightarrow> SyntheticCase \<Rightarrow> string \<Rightarrow> rat \<Rightarrow> ('g, LabeledRow) draw" where
  "draw_label rl c action true_p = do {
     u \<leftarrow> rl_random rl;
     time \<leftarrow> (if u < true_p then do {
       t \<leftarrow> rl_lognormvariate rl (12/10) (8/10);
       State_Monad.return (Some (quantize_digits 2 (max (2/10) t)))}
       else State_Monad.return None);
     State_Monad.return
       \<lparr>lb_case = c, lb_action = action, lb_true_probability = quantize_digits 6 true_p,
        lb_recovered = (u < true_p), lb_recovery_time_hours = time\<rparr>}"

definition SCORABLE_ACTIONS :: "string list" where
  "SCORABLE_ACTIONS = map action_value all_actions"

definition label_case :: "'g RandomLib \<Rightarrow> int \<Rightarrow> SyntheticCase \<Rightarrow> string \<Rightarrow> LabeledRow res" where
  "label_case rl seed c action =
     bindE (intervention_recovery_probability (label_context c) action) (\<lambda>true_p.
     Inr (run_seeded rl (label_rng seed (sn_case_id c) action) (draw_label rl c action true_p)))"

definition expand_with_labels :: "'g RandomLib \<Rightarrow> int \<Rightarrow> SyntheticCase list \<Rightarrow> string list \<Rightarrow> LabeledRow list res" where
  "expand_with_labels rl seed cases actions =
     map_res (\<lambda>p. label_case rl seed (fst p) (snd p)) (List.product cases actions)"

definition expected_rate :: "LabeledRow list \<Rightarrow> (LabeledRow \<Rightarrow> bool) \<Rightarrow> rat option" where
  "expected_rate rows matches =
     (let matched = filter matches rows in
      if matched = [] then None
      else Some (of_nat (length (filter lb_recovered matched)) / of_nat (length matched)))"

subsection \<open>Splits by customer\<close>

datatype split = Train | Validation | Test

fun split_name :: "split \<Rightarrow> string" where
  "split_name Train = ''train''"
| "split_name Validation = ''validation''"
| "split_name Test = ''test''"

definition row_customer :: "LabeledRow \<Rightarrow> string" where
  "row_customer r = sn_customer_id (lb_case r)"

definition split_customers :: "LabeledRow list \<Rightarrow> string list" where
  "split_customers rows = sort (remdups (map row_customer rows))"

definition INVALID_SPLIT :: py_error where
  "INVALID_SPLIT = ModelQualityError ''INVALID_SPLIT''"

text \<open>The numbers of customers to train and to validate on; \<open>fmul\<close> multiplies floats.\<close>

definition split_sizes :: "(rat \<Rightarrow> rat \<Rightarrow> rat) \<Rightarrow> nat \<Rightarrow> rat \<Rightarrow> rat \<Rightarrow> int \<times> int" where
  "split_sizes fmul n train_ratio val_ratio =
     (let n_train = max 1 (trunc_int (fmul (of_nat n) train_ratio));
          n_val = max 1 (trunc_int (fmul (of_nat n) val_ratio)) in
      (n_train, if n_train + n_val \<ge> int n then max 1 (int n - n_train - 1) else n_val))"

definition split_of :: "string list \<Rightarrow> string list \<Rightarrow> string \<Rightarrow> split" where
  "split_of train val customer =
     (if customer \<in> set train then Train else if customer \<in> set val then Validation else Test)"

definition split_by_customer ::
  "'g RandomLib \<Rightarrow> (rat \<Rightarrow> rat \<Rightarrow> rat) \<Rightarrow> int \<Rightarrow> rat \<Rightarrow> rat \<Rightarrow> LabeledRow list \<Rightarrow> (split \<Rightarrow> LabeledRow list) res" where
  "split_by_customer rl fmul seed train_ratio val_ratio rows =
     (let customers = split_customers rows in
      if length customers < 3 then Inl INVALID_SPLIT
      else
        let shuffled = rl_shuffled rl seed customers;
            (n_train, n_val) = split_sizes fmul (length shuffled) train_ratio val_ratio;
            train = take (nat n_train) shuffled;
            val = take (nat n_val) (drop (nat n_train) shuffled);
            test = drop (nat (n_train + n_val)) shuffled in
        if test = [] then Inl INVALID_SPLIT
        else if set train \<inter> set val \<union> set train \<inter> set test \<union> set val \<inter> set test \<noteq> {} then Inl INVALID_SPLIT
        else
          let buckets = (\<lambda>k. filter (\<lambda>r. split_of train val (row_customer r) = k) rows) in
          if buckets Train = [] \<or> buckets Validation = [] \<or> buckets Test = [] then Inl INVALID_SPLIT
          else Inr buckets)"

definition split_ids :: "(split \<Rightarrow> LabeledRow list) \<Rightarrow> split \<Rightarrow> string list" where
  "split_ids buckets k = sort (remdups (map (\<lambda>r. sn_case_id (lb_case r)) (buckets k)))"

subsection \<open>Ranges of the draws\<close>

lemma draws_return: "P x \<Longrightarrow> pred_state P (State_Monad.return x)"
  by (rule pred_stateI) simp

lemma draws_bind:
  "pred_state P m \<Longrightarrow> (\<And>x. P x \<Longrightarrow> pred_state Q (f x)) \<Longrightarrow> pred_state Q (State_Monad.bind m f)"
  by (rule bind_predI) (auto simp: state.pred_set)

lemma draws_if: "(b \<Longrightarrow> pred_state P m) \<Longrightarrow> (\<not> b \<Longrightarrow> pred_state P n) \<Longrightarrow> pred_state P (if b then m else n)"
  by simp

lemma run_seeded_pred: "pred_state P m \<Longrightarrow> P (run_seeded rl payload m)"
  by (simp add: run_seeded_def pred_state_run_state)

lemma random_lawsD:
  assumes "random_laws rl"
  shows "pred_state (\<lambda>u. 0 \<le> u \<and> u < 1) (rl_random rl)"
    "pred_state (\<lambda>u. 0 \<le> u \<and> u \<le> 1) (rl_betavariate rl a b)"
    "pred_state (\<lambda>i. 0 \<le> i \<and> i \<le> 8) (rl_randint rl 0 8)"
    "pred_state (\<lambda>i. 0 \<le> i \<and> i \<le> 6) (rl_randint rl 0 6)"
    "pred_state (\<lambda>i. 0 \<le> i \<and> i \<le> 2) (rl_randint rl 0 2)"
    "pred_state (\<lambda>i. i < length MERCHANT_CATEGORIES) (rl_randrange rl (length MERCHANT_CATEGORIES))"
    "pred_state (\<lambda>i. i < length PAYMENT_METHODS) (rl_randrange rl (length PAYMENT_METHODS))"
    "pred_state (\<lambda>i. i < length BANKS) (rl_randrange rl (length BANKS))"
    "pred_state (\<lambda>i. i < 7) (rl_randrange rl 7)"
    "mset (rl_shuffled rl seed xs) = mset xs"
  using assms by (simp_all add: random_laws_def MERCHANT_CATEGORIES_def PAYMENT_METHODS_def BANKS_def)

lemma draws_any: "pred_state (\<lambda>_. True) m"
  by (simp add: state.pred_set)

lemma clip_range: "lo \<le> hi \<Longrightarrow> lo \<le> clip v lo hi \<and> clip v lo hi \<le> hi"
  by (simp add: clip_def)

lemma trunc_int_nonneg: "0 \<le> x \<Longrightarrow> 0 \<le> trunc_int x"
  by (simp add: trunc_int_def)

lemma share_unit: "0 \<le> a \<Longrightarrow> 0 \<le> b \<Longrightarrow> 0 \<le> (of_int a :: rat) / of_int (max (a + b) 1) \<and> (of_int a :: rat) / of_int (max (a + b) 1) \<le> 1"
  by (auto simp: divide_le_eq_1 max_def simp del: of_int_add)

lemma quantize_between:
  assumes "of_int m \<le> x" shows "of_int m \<le> quantize_digits k x"
  using quantize_mono [OF assms, of k] by simp

lemma quantize_unit_range: "0 \<le> x \<Longrightarrow> x \<le> 1 \<Longrightarrow> 0 \<le> quantize_digits k x \<and> quantize_digits k x \<le> 1"
  using quantize_mono [of 0 x k] quantize_mono [of x 1 k] quantize_of_int [of k 1] by simp

definition customer_ok :: "SyntheticCustomer \<Rightarrow> bool" where
  "customer_ok c \<longleftrightarrow> 0 \<le> sy_quality c \<and> sy_quality c \<le> 1 \<and> 0 \<le> sy_liquidity c \<and> sy_liquidity c \<le> 1
     \<and> 0 \<le> sy_engagement c \<and> sy_engagement c \<le> 1 \<and> 0 \<le> sy_prior_captures c \<and> 0 \<le> sy_prior_failures c
     \<and> 0 \<le> sy_historical_success_rate c \<and> sy_historical_success_rate c \<le> 1
     \<and> 0 \<le> sy_historical_recovery_rate c \<and> sy_historical_recovery_rate c \<le> 1 \<and> 200 \<le> sy_clv c
     \<and> 0 \<le> sy_previous_discount_usage c \<and> sy_previous_discount_usage c \<le> 1"

lemma draw_quality_range:
  assumes "random_laws rl" shows "pred_state (\<lambda>q. 0 \<le> q \<and> q \<le> 1) (draw_quality rl)"
  unfolding draw_quality_def
  by (rule draws_bind [OF draws_any], rule draws_bind [OF draws_any], rule draws_return) (rule clip_range, simp)

lemma draw_customer_ok:
  assumes "random_laws rl" shows "pred_state customer_ok (draw_customer rl seed index)"
  unfolding draw_customer_def Let_def
proof ((rule draws_bind, rule draw_quality_range [OF assms] random_lawsD [OF assms] draws_any)+, rule draws_return,
    unfold customer_ok_def SyntheticCustomer.simps, intro conjI)
  fix q u6 :: rat assume "0 \<le> q \<and> q \<le> 1" "0 \<le> u6 \<and> u6 < 1"
  then show "200 \<le> quantize_digits 2 (200 + q * 18000 + u6 * 2000)"
    using quantize_between [of 200 "200 + q * 18000 + u6 * 2000" 2] by simp
qed (simp_all add: clip_range trunc_int_nonneg share_unit le_max_iff_disj)

lemma draw_customer_name:
  "pred_state (\<lambda>c. sy_customer_id c = ''cust_'' @ show_int seed @ ''_'' @ show_int (int index)) (draw_customer rl seed index)"
  unfolding draw_customer_def Let_def by ((rule draws_bind [OF draws_any])+, rule draws_return) simp

text \<open>A generated case as the snapshot a prediction takes: the keys that are fields of \<open>CaseContext\<close>.\<close>

definition snapshot_of_case :: "SyntheticCase \<Rightarrow> CaseContext" where
  "snapshot_of_case c =
     \<lparr>cc_amount = sn_amount c, cc_failure_reason = failure_value (sn_failure_reason c),
      cc_attempt_number = sn_attempt_number c, cc_merchant_category = Some (sn_merchant_category c),
      cc_payment_method = Some (sn_payment_method c), cc_bank = Some (sn_bank c),
      cc_historical_success_rate = Some (sn_historical_success_rate c),
      cc_historical_recovery_rate = Some (sn_historical_recovery_rate c),
      cc_customer_lifetime_value = Some (sn_customer_lifetime_value c),
      cc_days_since_last_purchase = Some (sn_days_since_last_purchase c), cc_cart_age_hours = sn_cart_age_hours c,
      cc_cart_value = sn_cart_value c, cc_subscription_state = Some (sn_subscription_state c),
      cc_communication_count = Some (sn_communication_count c),
      cc_days_since_last_contact = Some (sn_days_since_last_contact c),
      cc_previous_discount_usage = Some (sn_previous_discount_usage c),
      cc_hour_of_day = Some (sn_hour_of_day c), cc_day_of_week = Some (int (sn_day_of_week c)),
      cc_customer_segment = Some (sn_customer_segment c), cc_case_type = Some (case_type_value (sn_case_type c)),
      cc_prior_failures = Some (sn_prior_failures c), cc_prior_captures = Some (sn_prior_captures c),
      cc_merchant_id = None, cc_recovery_case_id = None, cc_customer_id = Some (sn_customer_id c)\<rparr>"

text \<open>What every generated case satisfies beyond the ranges of a snapshot.\<close>

definition case_shape :: "SyntheticCase \<Rightarrow> bool" where
  "case_shape c \<longleftrightarrow> 80 \<le> sn_amount c \<and> sn_attempt_number c \<le> 8
     \<and> (sn_cart_age_hours c \<noteq> None \<longleftrightarrow> sn_case_type c = ABANDONED_CHECKOUT)
     \<and> opt_within (\<lambda>h. 2 \<le> h) (sn_cart_age_hours c)"

lemma draw_amount_range:
  assumes "random_laws rl" "customer_ok c" shows "pred_state (\<lambda>a. 80 \<le> a) (draw_amount rl c)"
proof -
  have base: "80 \<le> quantize_digits 2 (80 + u * 4500 + (1 - sy_liquidity c) * 800)" if "0 \<le> u" for u
    using quantize_between [of 80 "80 + u * 4500 + (1 - sy_liquidity c) * 800" 2] that assms(2)
    by (simp add: customer_ok_def)
  have more: "80 \<le> quantize_digits 2 (a + 2500 * v)" if "80 \<le> a" "0 \<le> v" for a v
    using quantize_between [of 80 "a + 2500 * v" 2] that by simp
  show ?thesis unfolding draw_amount_def Let_def
    by (rule draws_bind, rule random_lawsD(1) [OF assms(1)], rule draws_if, rule draws_bind,
        rule random_lawsD(1) [OF assms(1)], rule draws_return, rule more, rule base, simp, simp,
        rule draws_return, rule base, simp)
qed

lemma draw_cart_age_range:
  assumes "random_laws rl" "0 \<le> e" "e \<le> 1"
  shows "pred_state (\<lambda>a. (a \<noteq> None \<longleftrightarrow> t = ABANDONED_CHECKOUT) \<and> opt_within (\<lambda>h. 2 \<le> h) a) (draw_cart_age rl t e)"
proof -
  have "2 \<le> quantize_digits 2 (2 + (1 - e) * 400 + u * 80)" if "0 \<le> u" for u
    using quantize_between [of 2 "2 + (1 - e) * 400 + u * 80" 2] that assms by simp
  then show ?thesis unfolding draw_cart_age_def
    by (intro draws_if) (rule draws_bind [OF random_lawsD(1) [OF assms(1)]], auto intro!: draws_return simp: opt_within_def)
qed

lemma failure_value_nonempty: "failure_value r \<noteq> []"
  by (cases r) simp_all

lemma draw_case_ok:
  assumes "random_laws rl" "customer_ok c"
  shows "pred_state (\<lambda>x. valid_context (snapshot_of_case x) \<and> case_shape x
      \<and> sn_case_id x = ''case_'' @ show_int seed @ ''_'' @ show_int (int index)
      \<and> sn_customer_id x = sy_customer_id c) (draw_case rl seed index c)"
proof -
  note c = assms(2) [unfolded customer_ok_def]
  have e: "0 \<le> sy_engagement c" "sy_engagement c \<le> 1" using c by simp_all
  have pos: "0 \<le> quantize_digits 2 x" if "0 \<le> x" for x using quantize_between [of 0 x 2] that by simp
  have comms: "0 \<le> trunc_int (8 - sy_engagement c * 8 + u * 3)" if "0 \<le> u" for u
    using e that by (intro trunc_int_nonneg) simp
  have days: "0 \<le> quantize_digits 2 ((1 - sy_engagement c) * 180 + u * 40)" if "0 \<le> u" for u
    using e that by (intro pos) simp
  have contact: "0 \<le> quantize_digits 2 (u * (2 + of_int n * 3))" "0 \<le> quantize_digits 2 (u * 21)"
    if "0 \<le> u" "0 \<le> n" for u n
    using that by (auto intro!: pos mult_nonneg_nonneg)
  have hour: "0 \<le> trunc_int (clip g 0 23)" "trunc_int (clip g 0 23) \<le> 23" for g
    using clip_range [of 0 23 g] by (simp_all add: trunc_int_def floor_le_iff)
  have clv: "0 \<le> sy_clv c" using c by simp
  note facts = c clv pos comms days contact hour quantize_unit_range failure_value_nonempty
  show ?thesis unfolding draw_case_def Let_def
    by ((rule draws_bind, rule draw_amount_range [OF assms] draw_cart_age_range [OF assms(1) e]
          random_lawsD [OF assms(1)] draws_any)+, rule draws_return,
        unfold valid_context_def snapshot_of_case_def case_shape_def CaseContext.simps SyntheticCase.simps
          opt_within_def option.case, intro conjI)
       (simp_all add: facts split: option.splits)
qed

text \<open>A number can be read back from its decimal digits, so different indices give different names.\<close>

definition read_digits :: "string \<Rightarrow> nat" where
  "read_digits = foldl (\<lambda>a c. a * 10 + (of_char c - 48)) 0"

lemma read_show_nat: "read_digits (show_nat n) = n"
proof (induction n rule: show_nat.induct)
  case (1 n)
  have digit: "of_char (char_of (48 + d) :: char) = (48 + d :: nat)" if "d < 10" for d :: nat
    using that by simp
  show ?case
  proof (cases "n < 10")
    case True
    then show ?thesis by (simp add: show_nat.simps [of n] read_digits_def digit)
  next
    case False
    have "n mod 10 < 10" by simp
    from digit [OF this] False 1 show ?thesis by (simp add: show_nat.simps [of n] read_digits_def)
  qed
qed

lemma show_nat_inj: "show_nat m = show_nat n \<longleftrightarrow> m = n"
  by (metis read_show_nat)

lemma show_index_inj: "show_int (int m) = show_int (int n) \<longleftrightarrow> m = n"
  by (simp add: show_int_def show_nat_inj)

lemma generate_cases_eval:
  assumes "random_laws rl" "1 \<le> n_cases" "0 \<le> customer_count n_cases n_customers"
  obtains cases where "generate_cases rl seed n_cases n_customers = Inr cases"
    "map sn_case_id cases = map (\<lambda>i. ''case_'' @ show_int seed @ ''_'' @ show_int (int i)) [0..<nat n_cases]"
    "map sn_customer_id cases = map (\<lambda>i. ''cust_'' @ show_int seed @ ''_''
       @ show_int (int (i mod nat (customer_count n_cases n_customers)))) [0..<nat n_cases]"
    "list_all (\<lambda>c. valid_context (snapshot_of_case c) \<and> case_shape c) cases"
proof -
  define count where "count = nat (customer_count n_cases n_customers)"
  define customer where "customer i = run_seeded rl (customer_rng seed i) (draw_customer rl seed i)" for i
  define row where "row i = run_seeded rl (case_rng seed i) (draw_case rl seed i (customer (i mod count)))" for i
  have count: "0 < count" using assms(2,3) by (auto simp: count_def customer_count_def max_def split: option.splits if_splits)
  have cust: "customer_ok (customer i)" for i
    unfolding customer_def by (rule run_seeded_pred [OF draw_customer_ok [OF assms(1)]])
  have name: "sy_customer_id (customer i) = ''cust_'' @ show_int seed @ ''_'' @ show_int (int i)" for i
    unfolding customer_def by (rule run_seeded_pred [OF draw_customer_name])
  have row: "valid_context (snapshot_of_case (row i)) \<and> case_shape (row i)
      \<and> sn_case_id (row i) = ''case_'' @ show_int seed @ ''_'' @ show_int (int i)
      \<and> sn_customer_id (row i) = sy_customer_id (customer (i mod count))" for i
    unfolding row_def by (rule run_seeded_pred [OF draw_case_ok [OF assms(1) cust]])
  have "generate_cases rl seed n_cases n_customers = Inr (map row [0..<nat n_cases])"
    using assms(2,3) count
    by (simp add: generate_cases_def draw_customers_def Let_def row_def customer_def count_def not_less)
  then show thesis
    by (rule that) (use row name in \<open>simp_all add: count_def list_all_iff\<close>)
qed

text \<open>The number of different customers of a dataset.\<close>

lemma card_cycle:
  assumes "0 < m" and "inj f"
  shows "card (set (map (\<lambda>i. f (i mod m)) [0..<n])) = min n m"
proof -
  have "(\<lambda>i. i mod m) ` {0..<n} = {0..<min n m}"
  proof
    show "(\<lambda>i. i mod m) ` {0..<n} \<subseteq> {0..<min n m}"
      using assms(1) by (auto intro: le_less_trans [OF mod_less_eq_dividend])
    have "x = x mod m \<and> x \<in> {0..<n}" if "x \<in> {0..<min n m}" for x using that by simp
    then show "{0..<min n m} \<subseteq> (\<lambda>i. i mod m) ` {0..<n}" by blast
  qed
  then have "f ` (\<lambda>i. i mod m) ` {0..<n} = f ` {0..<min n m}" by simp
  then have "set (map (\<lambda>i. f (i mod m)) [0..<n]) = f ` {0..<min n m}" by (simp add: image_image)
  then show ?thesis using card_image [of f "{0..<min n m}"] assms(2) by (simp add: inj_on_subset [OF assms(2)])
qed

text \<open>
  C38. \<^bold>\<open>Generated cases are valid inputs.\<close> For every seed and every generator that keeps the documented
  ranges of Python's random draws, a request for at least one case produces exactly that many cases with
  different identifiers, shared among as many customers as asked for; every case is a valid snapshot
  for a prediction, with an amount of at least 80, one to eight attempts, and a cart age of at least two
  hours exactly for abandoned checkouts. A request for no case raises.
\<close>

theorem generated_cases_valid:
  assumes "random_laws rl"
  shows "if n_cases < 1 then generate_cases rl seed n_cases n_customers = Inl ValueError
    else if customer_count n_cases n_customers < 0 then generate_cases rl seed n_cases n_customers = Inl IndexError
    else \<exists>cases. generate_cases rl seed n_cases n_customers = Inr cases \<and> int (length cases) = n_cases
      \<and> distinct (map sn_case_id cases)
      \<and> int (card (set (map sn_customer_id cases))) = min n_cases (customer_count n_cases n_customers)
      \<and> list_all (\<lambda>c. valid_context (snapshot_of_case c) \<and> case_shape c) cases"
proof -
  consider "n_cases < 1" | "1 \<le> n_cases" "customer_count n_cases n_customers < 0"
    | "1 \<le> n_cases" "0 \<le> customer_count n_cases n_customers" by linarith
  then show ?thesis
  proof cases
    case 3
    obtain cases where run: "generate_cases rl seed n_cases n_customers = Inr cases"
      and ids: "map sn_case_id cases = map (\<lambda>i. ''case_'' @ show_int seed @ ''_'' @ show_int (int i)) [0..<nat n_cases]"
      and customers: "map sn_customer_id cases = map (\<lambda>i. (\<lambda>k. ''cust_'' @ show_int seed @ ''_'' @ show_int (int k))
        (i mod nat (customer_count n_cases n_customers))) [0..<nat n_cases]"
      and ok: "list_all (\<lambda>c. valid_context (snapshot_of_case c) \<and> case_shape c) cases"
      by (rule generate_cases_eval [OF assms 3])
    have "length cases = nat n_cases" using arg_cong [OF ids, of length] by simp
    moreover have "distinct (map sn_case_id cases)"
      unfolding ids by (simp add: distinct_map inj_on_def show_index_inj)
    moreover have "0 < nat (customer_count n_cases n_customers)"
      using 3 by (auto simp: customer_count_def split: option.splits if_splits)
    then have "card (set (map sn_customer_id cases)) = min (nat n_cases) (nat (customer_count n_cases n_customers))"
      unfolding customers by (rule card_cycle) (simp add: inj_def show_index_inj)
    ultimately show ?thesis using 3 run ok by auto
  qed (simp_all add: generate_cases_def)
qed

subsection \<open>Splits do not leak\<close>

text \<open>A product of non-negative floats is the exact one up to the rounding of a double.\<close>

definition close_product :: "(rat \<Rightarrow> rat \<Rightarrow> rat) \<Rightarrow> bool" where
  "close_product fmul \<longleftrightarrow> (\<forall>x y. 0 \<le> x \<longrightarrow> 0 \<le> y \<longrightarrow> \<bar>fmul x y - x * y\<bar> \<le> x * y / 2 ^ 52)"

lemma close_productD:
  assumes "close_product fmul" "0 \<le> y"
  shows "of_nat n * y * (99/100) \<le> fmul (of_nat n) y" "fmul (of_nat n) y \<le> of_nat n * y * (101/100)"
proof -
  have "\<bar>fmul (of_nat n) y - of_nat n * y\<bar> \<le> of_nat n * y / 2 ^ 52"
    using assms unfolding close_product_def by simp
  moreover have "of_nat n * y / 2 ^ 52 \<le> of_nat n * y / 100"
    using assms(2) by (intro divide_left_mono) simp_all
  ultimately show "of_nat n * y * (99/100) \<le> fmul (of_nat n) y" "fmul (of_nat n) y \<le> of_nat n * y * (101/100)"
    by linarith+
qed

lemma split_sizes_positive: "split_sizes fmul n r v = (a, b) \<Longrightarrow> 1 \<le> a \<and> 1 \<le> b"
  by (auto simp: split_sizes_def Let_def)

lemma split_sizes_room:
  assumes "close_product fmul" "4 \<le> n" "split_sizes fmul n (7/10) v = (a, b)"
  shows "a + b < int n"
proof -
  have "fmul (of_nat n) (7/10) < of_nat n - 1" "0 \<le> fmul (of_nat n) (7/10)"
    using close_productD [OF assms(1), of "7/10" n] assms(2) by simp_all
  then have "max 1 (trunc_int (fmul (of_nat n) (7/10))) \<le> int n - 2"
    using assms(2) by (simp add: trunc_int_def floor_le_iff)
  then show ?thesis using assms(3) by (auto simp: split_sizes_def Let_def split: if_splits)
qed

lemma split_sizes_three:
  assumes "close_product fmul" "split_sizes fmul 3 (7/10) v = (a, b)"
  shows "3 \<le> a + b"
proof -
  have "2 \<le> fmul 3 (7/10)" using close_productD [OF assms(1), of "7/10" 3] by simp
  then have "2 \<le> a" using assms(2) by (auto simp: split_sizes_def Let_def trunc_int_def le_floor_iff)
  then show ?thesis using split_sizes_positive [OF assms(2)] by simp
qed

lemma set_split_customers: "set (split_customers rows) = row_customer ` set rows" "distinct (split_customers rows)"
  by (simp_all add: split_customers_def)

lemma take_drop_disjoint:
  assumes "distinct xs"
  shows "set (take a xs) \<inter> set (take b (drop a xs)) = {}" "set (take a xs) \<inter> set (drop (a + b) xs) = {}"
    "set (take b (drop a xs)) \<inter> set (drop (a + b) xs) = {}"
    "set (take a xs) \<union> set (take b (drop a xs)) \<union> set (drop (a + b) xs) = set xs"
proof -
  have d: "drop (a + b) xs = drop b (drop a xs)" by (simp add: add.commute)
  have "set (take a xs) \<inter> set (drop a xs) = {}" using assms by (simp add: set_take_disj_set_drop_if_distinct)
  then show "set (take a xs) \<inter> set (take b (drop a xs)) = {}" "set (take a xs) \<inter> set (drop (a + b) xs) = {}"
    unfolding d using set_take_subset set_drop_subset by fastforce+
  show "set (take b (drop a xs)) \<inter> set (drop (a + b) xs) = {}"
    unfolding d by (rule set_take_disj_set_drop_if_distinct) (simp_all add: assms)
  show "set (take a xs) \<union> set (take b (drop a xs)) \<union> set (drop (a + b) xs) = set xs"
    unfolding d by (metis append_take_drop_id set_append sup_assoc)
qed

lemma mset_split:
  "mset (filter (\<lambda>r. f r = Train) rows) + mset (filter (\<lambda>r. f r = Validation) rows)
     + mset (filter (\<lambda>r. f r = Test) rows) = mset rows"
proof (induction rows)
  case (Cons r rows)
  then show ?case by (cases "f r") auto
qed simp

lemma length_shuffled:
  assumes "random_laws rl"
  shows "length (rl_shuffled rl seed (split_customers rows)) = card (row_customer ` set rows)"
  using random_lawsD(10) [OF assms, of seed "split_customers rows"] set_split_customers [of rows] distinct_card
  by (metis size_mset)

lemma split_of_parts:
  "x \<in> set T \<Longrightarrow> split_of T V x = Train"
  "x \<in> set V \<Longrightarrow> set T \<inter> set V = {} \<Longrightarrow> split_of T V x = Validation"
  "x \<in> set S \<Longrightarrow> set T \<inter> set S = {} \<Longrightarrow> set V \<inter> set S = {} \<Longrightarrow> split_of T V x = Test"
  by (auto simp: split_of_def)

text \<open>The two outcomes of a split, by the number of customers left for the test.\<close>

lemma split_by_customer_eval:
  assumes "random_laws rl" and "shuffled = rl_shuffled rl seed (split_customers rows)"
    and "split_sizes fmul (length shuffled) r v = (a, b)"
  shows "split_by_customer rl fmul seed r v rows =
    (if length shuffled < 3 \<or> int (length shuffled) \<le> a + b then Inl INVALID_SPLIT
     else Inr (\<lambda>k. filter (\<lambda>x. split_of (take (nat a) shuffled) (take (nat b) (drop (nat a) shuffled)) (row_customer x) = k) rows))"
proof -
  have m: "mset shuffled = mset (split_customers rows)" using random_lawsD(10) [OF assms(1)] assms(2) by simp
  then have len: "length (split_customers rows) = length shuffled" by (metis size_mset)
  have dist: "distinct shuffled" using m set_split_customers(2) by (metis mset_eq_imp_distinct_iff)
  have members: "set shuffled = row_customer ` set rows" using m set_split_customers(1) by (metis mset_eq_setD)
  have ab: "1 \<le> a" "1 \<le> b" "nat (a + b) = nat a + nat b" using split_sizes_positive [OF assms(3)] by (simp_all add: nat_add_distrib)
  let ?T = "take (nat a) shuffled" and ?V = "take (nat b) (drop (nat a) shuffled)" and ?S = "drop (nat a + nat b) shuffled"
  note parts = take_drop_disjoint [OF dist, where a = "nat a" and b = "nat b"]
  let ?f = "\<lambda>x. split_of ?T ?V (row_customer x)"
  have bucket: "filter (\<lambda>x. ?f x = k) rows \<noteq> []" if "c \<in> set shuffled" "split_of ?T ?V c = k" for c k
    using that members by (auto simp: filter_empty_conv)
  have full: "filter (\<lambda>x. ?f x = Train) rows \<noteq> [] \<and> filter (\<lambda>x. ?f x = Validation) rows \<noteq> []
      \<and> filter (\<lambda>x. ?f x = Test) rows \<noteq> []" if room: "a + b < int (length shuffled)"
  proof -
    have "?T \<noteq> []" "?V \<noteq> []" "?S \<noteq> []" using ab room by auto
    then have h: "hd ?T \<in> set ?T" "hd ?V \<in> set ?V" "hd ?S \<in> set ?S" by (blast intro: hd_in_set)+
    have "split_of ?T ?V (hd ?T) = Train" "split_of ?T ?V (hd ?V) = Validation" "split_of ?T ?V (hd ?S) = Test"
      by (rule split_of_parts(1) [OF h(1)], rule split_of_parts(2) [OF h(2) parts(1)],
          rule split_of_parts(3) [OF h(3) parts(2,3)])
    moreover have "hd ?T \<in> set shuffled" "hd ?V \<in> set shuffled" "hd ?S \<in> set shuffled"
      using h by (metis in_set_takeD in_set_dropD)+
    ultimately show ?thesis using bucket by metis
  qed
  have empty: "?S = [] \<longleftrightarrow> int (length shuffled) \<le> a + b" using ab by auto
  show ?thesis using parts full ab empty
    by (simp add: split_by_customer_def Let_def assms(2) [symmetric] assms(3) len)
qed

lemma split_room:
  assumes "random_laws rl" "close_product fmul" "4 \<le> card (row_customer ` set rows)"
  shows "\<exists>buckets. split_by_customer rl fmul seed (7/10) v rows = Inr buckets"
proof -
  define shuffled where "shuffled = rl_shuffled rl seed (split_customers rows)"
  obtain a b where sizes: "split_sizes fmul (length shuffled) (7/10) v = (a, b)" by fastforce
  have len: "length shuffled = card (row_customer ` set rows)"
    unfolding shuffled_def by (rule length_shuffled [OF assms(1)])
  show ?thesis using assms(3) len split_by_customer_eval [OF assms(1) shuffled_def sizes] split_sizes_room [OF assms(2) _ sizes]
    by simp
qed

text \<open>
  C35. \<^bold>\<open>Evaluation data never leaks.\<close> Whatever the ratios, a split that succeeds puts every row in
  exactly one of train, validation and test, in the order of the input, and never two rows of one
  customer in different parts; no part is empty. With the default ratios a split succeeds for any data of
  four or more customers and raises \<^verbatim>\<open>INVALID_SPLIT\<close> for fewer, three included, although the message
  of the error asks for at least three.
\<close>

theorem split_no_leakage:
  assumes "random_laws rl"
  shows "(\<forall>buckets. split_by_customer rl fmul seed r v rows = Inr buckets \<longrightarrow>
       (\<forall>k. buckets k \<noteq> [] \<and> (\<exists>P. buckets k = filter P rows))
       \<and> mset (buckets Train) + mset (buckets Validation) + mset (buckets Test) = mset rows
       \<and> (\<forall>j k. j \<noteq> k \<longrightarrow> row_customer ` set (buckets j) \<inter> row_customer ` set (buckets k) = {}))
    \<and> (close_product fmul \<longrightarrow>
       (if card (row_customer ` set rows) < 4 then split_by_customer rl fmul seed (7/10) v rows = Inl INVALID_SPLIT
        else \<exists>buckets. split_by_customer rl fmul seed (7/10) v rows = Inr buckets))"
proof -
  define shuffled where "shuffled = rl_shuffled rl seed (split_customers rows)"
  have len: "length shuffled = card (row_customer ` set rows)"
    unfolding shuffled_def by (rule length_shuffled [OF assms])
  note eval = split_by_customer_eval [OF assms shuffled_def]
  have "(\<forall>k. buckets k \<noteq> [] \<and> (\<exists>P. buckets k = filter P rows))
      \<and> mset (buckets Train) + mset (buckets Validation) + mset (buckets Test) = mset rows
      \<and> (\<forall>j k. j \<noteq> k \<longrightarrow> row_customer ` set (buckets j) \<inter> row_customer ` set (buckets k) = {})"
    if run: "split_by_customer rl fmul seed r v rows = Inr buckets" for buckets
  proof -
    obtain f where f: "buckets = (\<lambda>k. filter (\<lambda>x. f (row_customer x) = k) rows)"
      using run eval [OF surjective_pairing] by (auto split: if_splits)
    have "buckets k \<noteq> []" for k
      using run by (cases k) (auto simp: split_by_customer_def Let_def split: if_splits prod.splits)
    moreover have "mset (buckets Train) + mset (buckets Validation) + mset (buckets Test) = mset rows"
      unfolding f by (rule mset_split)
    ultimately show ?thesis unfolding f by fastforce
  qed
  moreover have "split_by_customer rl fmul seed (7/10) v rows = Inl INVALID_SPLIT"
    if "close_product fmul" "card (row_customer ` set rows) < 4"
  proof -
    obtain a b where sizes: "split_sizes fmul (length shuffled) (7/10) v = (a, b)" by fastforce
    show ?thesis using that len eval [OF sizes] split_sizes_three [OF that(1), of v a b] sizes
      by (cases "length shuffled = 3") auto
  qed
  moreover have "\<exists>buckets. split_by_customer rl fmul seed (7/10) v rows = Inr buckets"
    if "close_product fmul" "\<not> card (row_customer ` set rows) < 4"
    using that by (intro split_room [OF assms]) simp_all
  ultimately show ?thesis by simp
qed

definition demo_random :: "nat RandomLib" where
  "demo_random =
     \<lparr>rl_seeded = length, rl_random = State (\<lambda>s. (of_nat (s mod 10) / 10, s + 1)),
      rl_betavariate = (\<lambda>_ _. State_Monad.return (1/2)), rl_randint = (\<lambda>a _. State_Monad.return a),
      rl_randrange = (\<lambda>n. State (\<lambda>s. (s mod n, s + 1))), rl_gauss = (\<lambda>m _. State_Monad.return m),
      rl_lognormvariate = (\<lambda>m _. State_Monad.return m), rl_shuffled = (\<lambda>_ xs. rev xs)\<rparr>"

lemma demo_random_laws: "random_laws demo_random"
proof -
  have "(of_nat (s mod 10) :: rat) / 10 < 1" for s
  proof -
    have "(of_nat (s mod 10) :: rat) < of_nat 10" unfolding of_nat_less_iff by simp
    then show ?thesis by simp
  qed
  then show ?thesis unfolding random_laws_def demo_random_def by (auto intro!: pred_stateI draws_return)
qed

theorem generated_cases_valid_witness:
  "\<exists>cases. generate_cases demo_random 42 50 None = Inr cases \<and> length cases = 50
     \<and> distinct (map sn_case_id cases) \<and> card (set (map sn_customer_id cases)) = 32"
  using generated_cases_valid [OF demo_random_laws, of 50 42 None] by (auto simp: customer_count_def)

subsection \<open>Labels\<close>

definition label_ok :: "LabeledRow \<Rightarrow> bool" where
  "label_ok r \<longleftrightarrow> 0 \<le> lb_true_probability r \<and> lb_true_probability r \<le> 1
     \<and> (lb_recovered r \<longleftrightarrow> lb_recovery_time_hours r \<noteq> None)
     \<and> opt_within (\<lambda>t. 2/10 \<le> t) (lb_recovery_time_hours r)"

lemma draw_label_ok:
  assumes "0 \<le> p" "p \<le> 1"
  shows "pred_state (\<lambda>r. label_ok r \<and> lb_case r = c \<and> lb_action r = a) (draw_label rl c a p)"
proof -
  have "quantize_digits 2 (2/10) = 2/10" by (simp add: quantize_digits_def round_half_even_def Let_def)
  then have "2/10 \<le> quantize_digits 2 (max (2/10) t)" for t using quantize_mono [of "2/10" "max (2/10) t" 2] by simp
  then have time: "pred_state (\<lambda>x. (x \<noteq> None \<longleftrightarrow> u < p) \<and> opt_within (\<lambda>t. 2/10 \<le> t) x)
      (if u < p then do {t \<leftarrow> rl_lognormvariate rl (12/10) (8/10);
         State_Monad.return (Some (quantize_digits 2 (max (2/10) t)))} else State_Monad.return None)" for u
    by (intro draws_if) (auto intro!: draws_bind [OF draws_any] draws_return simp: opt_within_def)
  show ?thesis unfolding draw_label_def
    by (rule draws_bind [OF draws_any], rule draws_bind [OF time], rule draws_return)
       (use quantize_unit_range [OF assms] in \<open>auto simp: label_ok_def\<close>)
qed

lemma expand_total:
  obtains rows where "expand_with_labels rl seed cases SCORABLE_ACTIONS = Inr rows"
    "map (\<lambda>r. (lb_case r, lb_action r)) rows = List.product cases SCORABLE_ACTIONS" "list_all label_ok rows"
proof -
  have one: "\<exists>r. label_case rl seed (fst p) (snd p) = Inr r \<and> label_ok r \<and> (lb_case r, lb_action r) = p"
    if "p \<in> set (List.product cases SCORABLE_ACTIONS)" for p
  proof -
    have "snd p \<in> set (map action_value all_actions)" using that by (auto simp: SCORABLE_ACTIONS_def)
    then obtain c a where p: "p = (c, action_value a)" by (cases p) auto
    obtain q where q: "intervention_recovery_probability (label_context c) (action_value a) = Inr q" "0 \<le> q" "q \<le> 95/100"
      using intervention_total by blast
    then show ?thesis
      using run_seeded_pred [OF draw_label_ok [of q c "action_value a" rl], of rl "label_rng seed (sn_case_id c) (action_value a)"]
      by (simp add: p label_case_def)
  qed
  have "\<exists>rows. map_res (\<lambda>p. label_case rl seed (fst p) (snd p)) ps = Inr rows
      \<and> map (\<lambda>r. (lb_case r, lb_action r)) rows = ps \<and> list_all label_ok rows"
    if "set ps \<subseteq> set (List.product cases SCORABLE_ACTIONS)" for ps
    using that
  proof (induction ps)
    case (Cons p ps)
    then obtain rows where "map_res (\<lambda>p. label_case rl seed (fst p) (snd p)) ps = Inr rows"
      "map (\<lambda>r. (lb_case r, lb_action r)) rows = ps" "list_all label_ok rows" by auto
    moreover obtain r where "label_case rl seed (fst p) (snd p) = Inr r" "label_ok r" "(lb_case r, lb_action r) = p"
      using one [of p] Cons.prems by auto
    ultimately show ?case by simp
  qed simp
  from this [OF subset_refl] show thesis using that by (auto simp: expand_with_labels_def)
qed

text \<open>The whole pipeline: four cases are enough to train, validate and test on different customers.\<close>

lemma pipeline_splits:
  assumes "random_laws rl" "close_product fmul" "4 \<le> n_cases"
  obtains cases rows buckets where "generate_cases rl seed n_cases None = Inr cases"
    "expand_with_labels rl seed cases SCORABLE_ACTIONS = Inr rows" "int (length rows) = 7 * n_cases"
    "split_by_customer rl fmul seed (7/10) (15/100) rows = Inr buckets"
proof -
  have one: "1 \<le> n_cases" using assms(3) by simp
  have count: "0 \<le> customer_count n_cases None" "4 \<le> min (nat n_cases) (nat (customer_count n_cases None))"
    using assms(3) by (auto simp: customer_count_def)
  obtain cases where cases: "generate_cases rl seed n_cases None = Inr cases"
    and ids: "map sn_case_id cases = map (\<lambda>i. ''case_'' @ show_int seed @ ''_'' @ show_int (int i)) [0..<nat n_cases]"
    and customers: "map sn_customer_id cases = map (\<lambda>i. (\<lambda>k. ''cust_'' @ show_int seed @ ''_'' @ show_int (int k))
      (i mod nat (customer_count n_cases None))) [0..<nat n_cases]"
    using generate_cases_eval [OF assms(1) one count(1)] by blast
  obtain rows where rows: "expand_with_labels rl seed cases SCORABLE_ACTIONS = Inr rows"
    and pairs: "map (\<lambda>r. (lb_case r, lb_action r)) rows = List.product cases SCORABLE_ACTIONS"
    by (rule expand_total)
  have "length SCORABLE_ACTIONS = 7" by code_simp
  moreover have "length cases = nat n_cases" using arg_cong [OF ids, of length] by simp
  ultimately have len: "int (length rows) = 7 * n_cases" using arg_cong [OF pairs, of length] assms(3) by simp
  have "row_customer ` set rows = (sn_customer_id \<circ> fst) ` set (map (\<lambda>r. (lb_case r, lb_action r)) rows)"
    by (force simp: row_customer_def)
  also have "\<dots> = set (map sn_customer_id cases)"
    unfolding pairs image_comp [symmetric] set_product fst_image_times using \<open>length SCORABLE_ACTIONS = 7\<close> by auto
  finally have "row_customer ` set rows = set (map sn_customer_id cases)" .
  moreover have "card (set (map sn_customer_id cases)) = min (nat n_cases) (nat (customer_count n_cases None))"
    unfolding customers by (rule card_cycle) (simp_all add: inj_def show_index_inj customer_count_def)
  ultimately have "card (row_customer ` set rows) = min (nat n_cases) (nat (customer_count n_cases None))" by simp
  then show thesis using that cases rows len split_room [OF assms(1,2)] count(2) by metis
qed

theorem split_no_leakage_witness:
  "\<exists>cases rows buckets. generate_cases demo_random 42 8 None = Inr cases
     \<and> expand_with_labels demo_random 42 cases SCORABLE_ACTIONS = Inr rows
     \<and> split_by_customer demo_random (*) 42 (7/10) (15/100) rows = Inr buckets
     \<and> size (mset (buckets Train) + mset (buckets Validation) + mset (buckets Test)) = 56
     \<and> row_customer ` set (buckets Train) \<inter> row_customer ` set (buckets Test) = {}"
proof -
  have "close_product (*)" by (simp add: close_product_def)
  then obtain cases rows buckets where run: "generate_cases demo_random 42 8 None = Inr cases"
      "expand_with_labels demo_random 42 cases SCORABLE_ACTIONS = Inr rows" "int (length rows) = 7 * 8"
      "split_by_customer demo_random (*) 42 (7/10) (15/100) rows = Inr buckets"
    using pipeline_splits [OF demo_random_laws, of "(*)" 8 42] by auto
  have "mset (buckets Train) + mset (buckets Validation) + mset (buckets Test) = mset rows"
      "row_customer ` set (buckets Train) \<inter> row_customer ` set (buckets Test) = {}"
    using split_no_leakage [OF demo_random_laws, of "(*)" 42 "7/10" "15/100" rows] run(4) by auto
  moreover from this(1) have "size (mset (buckets Train) + mset (buckets Validation) + mset (buckets Test)) = 56"
    using run(3) by (simp only: size_mset)
  ultimately show ?thesis using run by blast
qed

end
