(* ===== verification/Benchmark.thy ===== *)
theory Benchmark
  imports Ranking Dataset
begin

text \<open>
  The benchmark of ReviveX against doing nothing, \<^verbatim>\<open>recoverai_eval/batch_evaluation.py\<close>, and the console's
  view of it (\<^verbatim>\<open>run_batch_evaluation_service\<close> in \<^verbatim>\<open>operator/service.py\<close>). Both strategies are played on the
  same generated cases with the same draw per case; the trained model is the parameter \<open>MlBundle\<close> of
  \<^verbatim>\<open>Prediction\<close> and the generator the parameter \<open>RandomLib\<close> of \<^verbatim>\<open>Dataset\<close>. A number printed with
  two decimals is the rounded number.
\<close>

subsection \<open>Cases under a strategy\<close>

record CaseEvaluationResult =
  er_case_id :: string
  er_amount_at_risk :: rat
  er_action :: string
  er_recovered :: bool
  er_recovered_amount :: rat
  er_cost :: rat
  er_final_status :: RecoveryCaseStatus
  er_probability_source :: "string option"

record BatchEvaluationMetrics =
  bm_total_revenue_at_risk :: rat
  bm_total_recovered :: rat
  bm_recovery_rate :: rat
  bm_cases_recovered :: nat
  bm_total_cases :: nat
  bm_total_cost :: rat
  bm_net_recovery :: rat
  bm_cases_escalated :: nat
  bm_cases_stopped :: nat

definition deterministic_rng :: "int \<Rightarrow> string \<Rightarrow> string" where
  "deterministic_rng seed case_id = show_int seed @ '':'' @ case_id"

text \<open>A cart age of zero is false and reads as no cart.\<close>

definition intervention_context_from_case :: "SyntheticCase \<Rightarrow> InterventionContext" where
  "intervention_context_from_case c =
     \<lparr>ic_failure_reason = Some (sn_failure_reason c), ic_attempt_number = sn_attempt_number c,
      ic_history = \<lparr>ch_prior_failures = sn_prior_failures c, ch_prior_captures = sn_prior_captures c,
        ch_lifetime_value = sn_customer_lifetime_value c\<rparr>,
      ic_historical_success_rate = sn_historical_success_rate c,
      ic_historical_recovery_rate = sn_historical_recovery_rate c,
      ic_communication_count = sn_communication_count c,
      ic_previous_discount_usage = sn_previous_discount_usage c,
      ic_cart_age_hours = (case sn_cart_age_hours c of None \<Rightarrow> None | Some h \<Rightarrow> if h = 0 then None else Some h),
      ic_customer_lifetime_value = sn_customer_lifetime_value c, ic_amount = sn_amount c,
      ic_hour_of_day = sn_hour_of_day c, ic_case_type = case_type_value (sn_case_type c)\<rparr>"

definition baseline_strategy :: "SyntheticCase \<Rightarrow> string" where
  "baseline_strategy c = action_value DO_NOTHING"

definition action_costs :: "(string \<times> rat) list" where
  "action_costs = [(action_value RETRY_NOW, 5), (action_value RETRY_LATER, 2), (action_value SEND_PAYMENT_LINK, 3),
     (action_value SEND_REMINDER, 1/2), (action_value OFFER_DISCOUNT, 1), (action_value ESCALATE, 250),
     (action_value DO_NOTHING, 0)]"

definition risk_penalties :: "(string \<times> rat) list" where
  "risk_penalties = [(action_value RETRY_NOW, 15), (action_value RETRY_LATER, 4), (action_value SEND_PAYMENT_LINK, 8),
     (action_value SEND_REMINDER, 12), (action_value OFFER_DISCOUNT, 40), (action_value ESCALATE, 30),
     (action_value DO_NOTHING, 0)]"

definition action_cost :: "string \<Rightarrow> rat \<Rightarrow> rat" where
  "action_cost action amount =
     (let base_cost = opt_or 0 (map_of action_costs action);
          risk_penalty = opt_or 0 (map_of risk_penalties action);
          discount = (if action = action_value OFFER_DISCOUNT then amount * (5/100) else 0);
          communication = (if action \<in> {action_value SEND_PAYMENT_LINK, action_value SEND_REMINDER, action_value OFFER_DISCOUNT}
             then 3/2 else 0) in
      base_cost + discount + communication + risk_penalty)"

text \<open>The validated snapshot of a case is predicted on; a snapshot out of range is refused.\<close>

definition predict_case :: "Host \<Rightarrow> MlBundle res \<Rightarrow> SyntheticCase \<Rightarrow> string \<Rightarrow> RecoveryProbability res" where
  "predict_case h ml c action =
     (if valid_context (snapshot_of_case c) then predict_recovery_probability h ml True (snapshot_of_case c) action
      else bindE (parse_known_action action) (\<lambda>_. Inl (InferenceError ''MALFORMED_FEATURES'')))"

definition heuristic_probabilities :: "SyntheticCase \<Rightarrow> (string \<times> rat) list res" where
  "heuristic_probabilities c =
     map_res (\<lambda>a. bindE (intervention_recovery_probability (intervention_context_from_case c) a) (\<lambda>p. Inr (a, p)))
       SCORABLE_ACTIONS"

text \<open>The probability of one action in \<^verbatim>\<open>ml\<close> mode, and whether the model gave it.\<close>

definition scored_action ::
  "Host \<Rightarrow> MlBundle res \<Rightarrow> SyntheticCase \<Rightarrow> string \<Rightarrow> ((string \<times> rat) \<times> bool) res" where
  "scored_action h ml c action =
     bindE (predict_case h ml c action) (\<lambda>pred.
     if rp_source pred = ''ml'' then Inr ((action, quantize_digits 6 (rp_probability pred)), True)
     else bindE (intervention_recovery_probability (intervention_context_from_case c) action) (\<lambda>p. Inr ((action, p), False)))"

definition strategy_probabilities ::
  "Host \<Rightarrow> MlBundle res \<Rightarrow> string \<Rightarrow> SyntheticCase \<Rightarrow> ((string \<times> rat) list \<times> string) res" where
  "strategy_probabilities h ml mode c =
     (if mode = ''ml'' then
        case map_res (scored_action h ml c) SCORABLE_ACTIONS of
          Inr scored \<Rightarrow> Inr (map fst scored, if \<exists>x \<in> set scored. \<not> snd x then ''heuristic_fallback'' else ''ml'')
        | Inl _ \<Rightarrow> bindE (heuristic_probabilities c) (\<lambda>probs. Inr (probs, ''heuristic_fallback''))
      else bindE (heuristic_probabilities c) (\<lambda>probs. Inr (probs, ''heuristic'')))"

text \<open>The search for the best action: a strictly greater value replaces the best one so far.\<close>

definition better_action :: "rat \<Rightarrow> string \<times> rat \<Rightarrow> string option \<times> rat \<Rightarrow> string option \<times> rat" where
  "better_action amount scored best =
     (let erv = snd scored * amount - action_cost (fst scored) amount in
      if erv > snd best then (Some (fst scored), erv) else best)"

definition best_action :: "rat \<Rightarrow> (string \<times> rat) list \<Rightarrow> string option \<times> rat" where
  "best_action amount probs = fold (better_action amount) probs (None, -999999)"

definition revivex_strategy :: "Host \<Rightarrow> MlBundle res \<Rightarrow> string \<Rightarrow> SyntheticCase \<Rightarrow> (string \<times> string) res" where
  "revivex_strategy h ml mode c =
     bindE (strategy_probabilities h ml mode c) (\<lambda>(probs, source).
     Inr (case fst (best_action (sn_amount c) probs) of None \<Rightarrow> action_value DO_NOTHING | Some a \<Rightarrow> a, source))"

definition simulate_outcome :: "rat \<Rightarrow> SyntheticCase \<Rightarrow> string \<Rightarrow> (bool \<times> rat \<times> RecoveryCaseStatus) res" where
  "simulate_outcome draw c action =
     bindE (intervention_recovery_probability (intervention_context_from_case c) action) (\<lambda>prob.
     let recovered = (draw < prob) in
     Inr (recovered, if recovered then sn_amount c else 0,
       if recovered then Case_RECOVERED
       else if action = action_value ESCALATE then Case_ESCALATED
       else if action = action_value DO_NOTHING then Case_STOPPED else Case_FAILED))"

definition evaluate_case ::
  "Host \<Rightarrow> MlBundle res \<Rightarrow> 'g RandomLib \<Rightarrow> int \<Rightarrow> string \<Rightarrow> string \<Rightarrow> SyntheticCase \<Rightarrow> CaseEvaluationResult res" where
  "evaluate_case h ml rl seed mode strategy c =
     (let draw = run_seeded rl (deterministic_rng seed (sn_case_id c)) (rl_random rl) in
      bindE (if strategy = ''baseline'' then Inr (baseline_strategy c, None)
             else if strategy = ''revivex''
             then bindE (revivex_strategy h ml mode c) (\<lambda>(action, source). Inr (action, Some source))
             else Inl ValueError) (\<lambda>(action, source).
      bindE (simulate_outcome draw c action) (\<lambda>(recovered, amount, final_status).
      Inr \<lparr>er_case_id = sn_case_id c, er_amount_at_risk = sn_amount c, er_action = action,
           er_recovered = recovered, er_recovered_amount = amount, er_cost = action_cost action (sn_amount c),
           er_final_status = final_status, er_probability_source = source\<rparr>)))"

subsection \<open>Batches\<close>

definition compute_metrics :: "CaseEvaluationResult list \<Rightarrow> BatchEvaluationMetrics" where
  "compute_metrics results =
     (let total_at_risk = sum_list (map er_amount_at_risk results);
          total_recovered = sum_list (map er_recovered_amount results);
          total_cost = sum_list (map er_cost results) in
      \<lparr>bm_total_revenue_at_risk = total_at_risk, bm_total_recovered = total_recovered,
       bm_recovery_rate = (if total_at_risk > 0 then total_recovered / total_at_risk else 0),
       bm_cases_recovered = length (filter er_recovered results), bm_total_cases = length results,
       bm_total_cost = total_cost, bm_net_recovery = total_recovered - total_cost,
       bm_cases_escalated = length (filter (\<lambda>r. er_final_status r = Case_ESCALATED) results),
       bm_cases_stopped = length (filter (\<lambda>r. er_final_status r = Case_STOPPED) results)\<rparr>)"

record CaseComparison =
  cmp_case_id :: string
  cmp_amount_at_risk :: rat
  cmp_baseline_action :: string
  cmp_revivex_action :: string
  cmp_baseline_outcome :: RecoveryCaseStatus
  cmp_revivex_outcome :: RecoveryCaseStatus
  cmp_baseline_recovered_amount :: rat
  cmp_revivex_recovered_amount :: rat
  cmp_incremental_recovered_amount :: rat
  cmp_baseline_cost :: rat
  cmp_revivex_cost :: rat
  cmp_probability_source :: "string option"

definition compare_case :: "SyntheticCase \<Rightarrow> CaseEvaluationResult \<Rightarrow> CaseEvaluationResult \<Rightarrow> CaseComparison" where
  "compare_case c baseline revivex =
     \<lparr>cmp_case_id = sn_case_id c, cmp_amount_at_risk = sn_amount c, cmp_baseline_action = er_action baseline,
      cmp_revivex_action = er_action revivex, cmp_baseline_outcome = er_final_status baseline,
      cmp_revivex_outcome = er_final_status revivex,
      cmp_baseline_recovered_amount = er_recovered_amount baseline,
      cmp_revivex_recovered_amount = er_recovered_amount revivex,
      cmp_incremental_recovered_amount = er_recovered_amount revivex - er_recovered_amount baseline,
      cmp_baseline_cost = er_cost baseline, cmp_revivex_cost = er_cost revivex,
      cmp_probability_source = er_probability_source revivex\<rparr>"

record BatchComparisonResult =
  bc_n_cases :: int
  bc_seed :: int
  bc_total_revenue_at_risk :: rat
  bc_baseline_metrics :: BatchEvaluationMetrics
  bc_revivex_metrics :: BatchEvaluationMetrics
  bc_incremental_revenue :: rat
  bc_recovery_uplift_percent :: rat
  bc_revivex_mode :: string
  bc_ml_prediction_count :: nat
  bc_heuristic_fallback_count :: nat
  bc_case_results :: "CaseComparison list"

definition comparison ::
  "int \<Rightarrow> int \<Rightarrow> string \<Rightarrow> SyntheticCase list \<Rightarrow> CaseEvaluationResult list \<Rightarrow> CaseEvaluationResult list \<Rightarrow> BatchComparisonResult" where
  "comparison n_cases seed mode cases baseline_results revivex_results =
     (let baseline = compute_metrics baseline_results; revivex = compute_metrics revivex_results;
          incremental = bm_total_recovered revivex - bm_total_recovered baseline in
      \<lparr>bc_n_cases = n_cases, bc_seed = seed, bc_total_revenue_at_risk = bm_total_revenue_at_risk baseline,
       bc_baseline_metrics = baseline, bc_revivex_metrics = revivex, bc_incremental_revenue = incremental,
       bc_recovery_uplift_percent = (if bm_total_recovered baseline > 0
          then incremental / bm_total_recovered baseline * 100 else 0),
       bc_revivex_mode = mode,
       bc_ml_prediction_count = length (filter (\<lambda>r. er_probability_source r = Some ''ml'') revivex_results),
       bc_heuristic_fallback_count = length (filter (\<lambda>r.
          er_probability_source r \<in> {Some ''heuristic'', Some ''heuristic_fallback''}) revivex_results),
       bc_case_results = map (\<lambda>(c, b, r). compare_case c b r) (zip cases (zip baseline_results revivex_results))\<rparr>)"

definition evaluate_batch ::
  "Host \<Rightarrow> MlBundle res \<Rightarrow> 'g RandomLib \<Rightarrow> int \<Rightarrow> int \<Rightarrow> string \<Rightarrow> BatchComparisonResult res" where
  "evaluate_batch h ml rl n_cases seed mode =
     bindE (generate_cases rl seed n_cases None) (\<lambda>cases.
     bindE (map_res (evaluate_case h ml rl seed mode ''baseline'') cases) (\<lambda>baseline_results.
     bindE (map_res (evaluate_case h ml rl seed mode ''revivex'') cases) (\<lambda>revivex_results.
     Inr (comparison n_cases seed mode cases baseline_results revivex_results))))"

subsection \<open>The report of the console\<close>

record SeedSummary =
  ss_seed :: int
  ss_revenue_at_risk :: rat
  ss_baseline_recovered :: rat
  ss_revivex_recovered :: rat
  ss_incremental_revenue :: rat
  ss_recovery_uplift_percent :: rat
  ss_baseline_recovery_rate :: rat
  ss_revivex_recovery_rate :: rat
  ss_baseline_cases_recovered :: nat
  ss_revivex_cases_recovered :: nat

definition seed_summary :: "int \<Rightarrow> BatchComparisonResult \<Rightarrow> SeedSummary" where
  "seed_summary seed result =
     (let b = bc_baseline_metrics result; r = bc_revivex_metrics result in
      \<lparr>ss_seed = seed, ss_revenue_at_risk = quantize (bm_total_revenue_at_risk b),
       ss_baseline_recovered = quantize (bm_total_recovered b), ss_revivex_recovered = quantize (bm_total_recovered r),
       ss_incremental_revenue = quantize (bc_incremental_revenue result),
       ss_recovery_uplift_percent = quantize (bc_recovery_uplift_percent result),
       ss_baseline_recovery_rate = quantize (bm_recovery_rate b * 100),
       ss_revivex_recovery_rate = quantize (bm_recovery_rate r * 100),
       ss_baseline_cases_recovered = bm_cases_recovered b, ss_revivex_cases_recovered = bm_cases_recovered r\<rparr>)"

record BatchReport =
  br_n_cases :: int
  br_revivex_mode :: string
  br_ml_prediction_count :: nat
  br_heuristic_fallback_count :: nat
  br_summary :: SeedSummary
  br_baseline_net_recovery :: rat
  br_revivex_net_recovery :: rat
  br_multi_seed_results :: "SeedSummary list"

definition EVALUATION_SEEDS :: "int list" where
  "EVALUATION_SEEDS = [42, 43, 44, 45, 46]"

definition run_batch_evaluation_service ::
  "Host \<Rightarrow> MlBundle res \<Rightarrow> 'g RandomLib \<Rightarrow> int \<Rightarrow> int \<Rightarrow> string \<Rightarrow> bool \<Rightarrow> BatchReport res" where
  "run_batch_evaluation_service h ml rl n_cases seed mode include_multi_seed =
     bindE (evaluate_batch h ml rl n_cases seed mode) (\<lambda>result.
     bindE (if include_multi_seed
            then map_res (\<lambda>s. bindE (evaluate_batch h ml rl n_cases s mode) (\<lambda>res. Inr (seed_summary s res))) EVALUATION_SEEDS
            else Inr []) (\<lambda>summaries.
     Inr \<lparr>br_n_cases = bc_n_cases result, br_revivex_mode = bc_revivex_mode result,
          br_ml_prediction_count = bc_ml_prediction_count result,
          br_heuristic_fallback_count = bc_heuristic_fallback_count result,
          br_summary = seed_summary (bc_seed result) result,
          br_baseline_net_recovery = quantize (bm_net_recovery (bc_baseline_metrics result)),
          br_revivex_net_recovery = quantize (bm_net_recovery (bc_revivex_metrics result)),
          br_multi_seed_results = summaries\<rparr>))"

subsection \<open>Choosing the best action\<close>

text \<open>On generated cases the benchmark and the labels see the same context.\<close>

lemma context_agrees: "case_shape c \<Longrightarrow> intervention_context_from_case c = label_context c"
  by (auto simp: intervention_context_from_case_def label_context_def case_shape_def opt_within_def split: option.splits)

definition case_probability :: "SyntheticCase \<Rightarrow> RecoveryActionType \<Rightarrow> rat" where
  "case_probability c a = (case intervention_recovery_probability (intervention_context_from_case c) (action_value a) of
     Inr p \<Rightarrow> p | Inl _ \<Rightarrow> 0)"

lemma case_probability:
  "intervention_recovery_probability (intervention_context_from_case c) (action_value a) = Inr (case_probability c a)"
  "0 \<le> case_probability c a"
  using intervention_total [of "intervention_context_from_case c" a] by (auto simp: case_probability_def)

lemma map_res_map: "(\<And>x. f (g x) = Inr (k x)) \<Longrightarrow> map_res f (map g xs) = Inr (map k xs)"
  by (induction xs) simp_all

lemma heuristic_run: "heuristic_probabilities c = Inr (map (\<lambda>a. (action_value a, case_probability c a)) all_actions)"
  unfolding heuristic_probabilities_def SCORABLE_ACTIONS_def by (rule map_res_map) (simp add: case_probability)

text \<open>Without a usable model every probability is the simulator's own.\<close>

definition model_free :: "MlBundle res \<Rightarrow> string \<Rightarrow> bool" where
  "model_free ml mode \<longleftrightarrow> mode \<noteq> ''ml'' \<or> (\<exists>e. ml = Inl e)"

lemma scored_without_model:
  assumes "ml = Inl e" "scored_action h ml c (action_value a) = Inr x"
  shows "x = ((action_value a, case_probability c a), False)"
proof -
  have "rp_source pred \<noteq> ''ml''" if "predict_case h ml c (action_value a) = Inr pred" for pred
    using that assms(1)
    by (auto simp: predict_case_def predict_recovery_probability_def ml_predict_def bindE_Inr_iff split: if_splits)
  then show ?thesis using assms(2) by (auto simp: scored_action_def bindE_Inr_iff case_probability split: if_splits)
qed

lemma scored_action_name: "scored_action h ml c a = Inr x \<Longrightarrow> fst (fst x) = a"
  by (auto simp: scored_action_def bindE_Inr_iff split: if_splits)

lemma list_all2_map_fst:
  "list_all2 (\<lambda>a x. fst (fst x) = a) as xs \<Longrightarrow> map fst (map fst xs) = as"
  by (induction rule: list_all2_induct) simp_all

lemma alist_rebuild:
  assumes "distinct (map fst ys)" shows "map (\<lambda>k. (k, the (map_of ys k))) (map fst ys) = ys"
proof -
  have "map ((\<lambda>k. (k, the (map_of ys k))) \<circ> fst) ys = ys"
    by (rule map_idI) (use assms in \<open>auto simp: map_of_is_SomeI\<close>)
  then show ?thesis by (simp only: map_map)
qed

lemma scored_all:
  assumes "map_res (scored_action h ml c) SCORABLE_ACTIONS = Inr xs"
  shows "\<exists>q. map fst xs = map (\<lambda>a. (action_value a, q a)) all_actions \<and> (\<forall>e. ml = Inl e \<longrightarrow> q = case_probability c)"
proof (cases ml)
  case (Inl e)
  have "list_all2 (\<lambda>a x. scored_action h ml c (action_value a) = Inr x) all_actions xs"
    using assms by (simp add: SCORABLE_ACTIONS_def map_res_Inr_iff list_all2_map1)
  then have "list_all2 (\<lambda>a x. x = ((action_value a, case_probability c a), False)) all_actions xs"
    by (rule list_all2_mono) (rule scored_without_model [OF Inl])
  then have "map fst xs = map (\<lambda>a. (action_value a, case_probability c a)) all_actions"
    by (induction rule: list_all2_induct) simp_all
  then show ?thesis by blast
next
  case (Inr b)
  have "map fst (map fst xs) = SCORABLE_ACTIONS"
    using assms scored_action_name unfolding map_res_Inr_iff
    by (intro list_all2_map_fst) (auto elim: list_all2_mono)
  then have names: "map fst (map fst xs) = map action_value all_actions" by (simp add: SCORABLE_ACTIONS_def)
  define q where "q a = opt_or 0 (map_of (map fst xs) (action_value a))" for a
  have dist: "distinct (map fst (map fst xs))" unfolding names by code_simp
  have "map fst xs = map (\<lambda>k. (k, the (map_of (map fst xs) k))) (map fst (map fst xs))"
    by (rule alist_rebuild [OF dist, symmetric])
  also have "\<dots> = map (\<lambda>a. (action_value a, q a)) all_actions"
  proof -
    have "map_of (map fst xs) (action_value a) \<noteq> None" if "a \<in> set all_actions" for a
    proof -
      have "action_value a \<in> set (map fst (map fst xs))" unfolding names using that by simp
      then show ?thesis by (metis map_of_eq_None_iff list.set_map)
    qed
    then have "the (map_of (map fst xs) (action_value a)) = q a" if "a \<in> set all_actions" for a
      using that unfolding q_def opt_or_def by fastforce
    then show ?thesis unfolding names by (simp cong: map_cong)
  qed
  finally show ?thesis using Inr by blast
qed

lemma strategy_probabilities_run:
  obtains q source where "strategy_probabilities h ml mode c = Inr (map (\<lambda>a. (action_value a, q a)) all_actions, source)"
    "source \<in> {''ml'', ''heuristic'', ''heuristic_fallback''}" "model_free ml mode \<longrightarrow> q = case_probability c"
proof (cases "mode = ''ml'' \<and> (\<exists>xs. map_res (scored_action h ml c) SCORABLE_ACTIONS = Inr xs)")
  case True
  then obtain xs where xs: "mode = ''ml''" "map_res (scored_action h ml c) SCORABLE_ACTIONS = Inr xs" by blast
  obtain q where q: "map fst xs = map (\<lambda>a. (action_value a, q a)) all_actions" "\<forall>e. ml = Inl e \<longrightarrow> q = case_probability c"
    using scored_all [OF xs(2)] by blast
  show thesis by (rule that [of q]) (use xs q in \<open>auto simp: strategy_probabilities_def model_free_def split: if_splits\<close>)
next
  case False
  then have "strategy_probabilities h ml mode c = Inr (map (\<lambda>a. (action_value a, case_probability c a)) all_actions,
      if mode = ''ml'' then ''heuristic_fallback'' else ''heuristic'')"
    using heuristic_run [of c]
    by (cases "map_res (scored_action h ml c) SCORABLE_ACTIONS") (auto simp: strategy_probabilities_def)
  then show thesis by (rule that) simp_all
qed

text \<open>The search returns the first action of greatest expected value, when one exceeds the initial bound.\<close>

lemma fold_better:
  assumes "fold (better_action amount) probs best = (b, v)"
  shows "snd best \<le> v \<and> (\<forall>(a, p) \<in> set probs. p * amount - action_cost a amount \<le> v)
    \<and> ((b, v) = best \<or> (\<exists>a p. (a, p) \<in> set probs \<and> b = Some a \<and> v = p * amount - action_cost a amount))"
  using assms
proof (induction probs arbitrary: best)
  case (Cons x probs)
  obtain a p b' v' where x: "x = (a, p)" "best = (b', v')" by (cases x, cases best) auto
  show ?case
  proof (cases "p * amount - action_cost a amount > v'")
    case True
    then have "better_action amount x best = (Some a, p * amount - action_cost a amount)"
      by (simp add: better_action_def x)
    with Cons.prems Cons.IH [of "better_action amount x best"] True show ?thesis by (auto simp: x)
  next
    case False
    then have "better_action amount x best = best" by (simp add: better_action_def x)
    with Cons.prems Cons.IH [of best] False show ?thesis by (auto simp: x)
  qed
qed simp

lemma action_cost_nonneg: "0 \<le> amount \<Longrightarrow> 0 \<le> action_cost (action_value a) amount"
  by (cases a) (simp_all add: action_cost_def action_costs_def risk_penalties_def opt_or_def)

lemma action_cost_nothing: "action_cost (action_value DO_NOTHING) amount = 0" "action_cost ''DO_NOTHING'' amount = 0"
  by (simp_all add: action_cost_def action_costs_def risk_penalties_def opt_or_def)

lemma revivex_run:
  obtains a source where "revivex_strategy h ml mode c = Inr (action_value a, source)"
    "source \<in> {''ml'', ''heuristic'', ''heuristic_fallback''}"
    "model_free ml mode \<and> 0 < sn_amount c \<longrightarrow> case_probability c DO_NOTHING \<le> case_probability c a"
proof -
  obtain q source where run: "strategy_probabilities h ml mode c = Inr (map (\<lambda>a. (action_value a, q a)) all_actions, source)"
    and src: "source \<in> {''ml'', ''heuristic'', ''heuristic_fallback''}" and free: "model_free ml mode \<longrightarrow> q = case_probability c"
    by (rule strategy_probabilities_run)
  let ?probs = "map (\<lambda>a. (action_value a, q a)) all_actions"
  obtain b v where best: "best_action (sn_amount c) ?probs = (b, v)" by fastforce
  note law = fold_better [OF best [unfolded best_action_def]]
  define a where "a = (if b = None then DO_NOTHING else SOME a. b = Some (action_value a))"
  have b: "b = None \<or> b = Some (action_value a) \<and> v = q a * sn_amount c - action_cost (action_value a) (sn_amount c)"
  proof (cases b)
    case (Some x)
    with law obtain d where d: "x = action_value d" "v = q d * sn_amount c - action_cost x (sn_amount c)" by auto
    then have "a = d" unfolding a_def Some using action_enum.val_inj by (auto intro!: some_equality)
    with Some d show ?thesis by simp
  qed simp
  have "case_probability c DO_NOTHING \<le> case_probability c a" if "model_free ml mode" "0 < sn_amount c"
  proof -
    have "(action_value DO_NOTHING, q DO_NOTHING) \<in> set ?probs" unfolding set_map
      by (rule image_eqI [OF refl]) (rule action_enum.members_complete)
    with law have "case (action_value DO_NOTHING, q DO_NOTHING) of (a, p) \<Rightarrow> p * sn_amount c - action_cost a (sn_amount c) \<le> v"
      by blast
    then have idle: "q DO_NOTHING * sn_amount c \<le> v" by (simp add: action_cost_nothing)
    moreover have "0 \<le> q DO_NOTHING * sn_amount c" using that free case_probability(2) by simp
    ultimately have "b \<noteq> None" using law by auto
    with b have "v = q a * sn_amount c - action_cost (action_value a) (sn_amount c)" by blast
    with idle have "q DO_NOTHING * sn_amount c \<le> q a * sn_amount c"
      using action_cost_nonneg [of "sn_amount c" a] that(2) by linarith
    then show ?thesis using that free by simp
  qed
  moreover have "revivex_strategy h ml mode c = Inr (action_value a, source)"
    using b best run by (auto simp: revivex_strategy_def a_def)
  ultimately show thesis using that src by blast
qed

lemma evaluate_case_run:
  assumes "u = run_seeded rl (deterministic_rng seed (sn_case_id c)) (rl_random rl)"
  obtains b r a where "evaluate_case h ml rl seed mode ''baseline'' c = Inr b" "evaluate_case h ml rl seed mode ''revivex'' c = Inr r"
    "er_amount_at_risk b = sn_amount c" "er_amount_at_risk r = sn_amount c"
    "er_recovered b = (u < case_probability c DO_NOTHING)" "er_recovered r = (u < case_probability c a)"
    "er_recovered_amount b = (if er_recovered b then sn_amount c else 0)"
    "er_recovered_amount r = (if er_recovered r then sn_amount c else 0)"
    "er_final_status b = (if er_recovered b then Case_RECOVERED else Case_STOPPED)"
    "er_recovered r \<longleftrightarrow> er_final_status r = Case_RECOVERED"
    "er_cost b = 0" "er_cost r = action_cost (action_value a) (sn_amount c)"
    "er_probability_source r \<in> {Some ''ml'', Some ''heuristic'', Some ''heuristic_fallback''}"
    "model_free ml mode \<and> 0 < sn_amount c \<longrightarrow> case_probability c DO_NOTHING \<le> case_probability c a"
proof -
  obtain a source where "revivex_strategy h ml mode c = Inr (action_value a, source)"
    "source \<in> {''ml'', ''heuristic'', ''heuristic_fallback''}"
    "model_free ml mode \<and> 0 < sn_amount c \<longrightarrow> case_probability c DO_NOTHING \<le> case_probability c a"
    by (rule revivex_run)
  note strategy = this
  define outcome where "outcome x = \<lparr>er_case_id = sn_case_id c, er_amount_at_risk = sn_amount c, er_action = action_value x,
    er_recovered = (u < case_probability c x), er_recovered_amount = (if u < case_probability c x then sn_amount c else 0),
    er_cost = action_cost (action_value x) (sn_amount c),
    er_final_status = (if u < case_probability c x then Case_RECOVERED else if action_value x = action_value ESCALATE then Case_ESCALATED
      else if action_value x = action_value DO_NOTHING then Case_STOPPED else Case_FAILED),
    er_probability_source = None\<rparr>" for x
  have b: "evaluate_case h ml rl seed mode ''baseline'' c = Inr (outcome DO_NOTHING)"
    by (simp add: evaluate_case_def baseline_strategy_def simulate_outcome_def case_probability assms [symmetric]
        outcome_def Let_def del: action_value.simps)
  have r: "evaluate_case h ml rl seed mode ''revivex'' c = Inr ((outcome a)\<lparr>er_probability_source := Some source\<rparr>)"
    by (simp add: evaluate_case_def strategy(1) simulate_outcome_def case_probability assms [symmetric]
        outcome_def Let_def)
  show thesis
    by (rule that [OF b r, of a]) (use strategy(2,3) in \<open>simp_all add: outcome_def action_cost_nothing\<close>)
qed

subsection \<open>The benchmark\<close>

lemma map_res_cong_map: "(\<And>x. x \<in> set xs \<Longrightarrow> f x = Inr (k x)) \<Longrightarrow> map_res f xs = Inr (map k xs)"
  by (induction xs) simp_all

lemma length_filter_split: "length (filter P xs) + length (filter (\<lambda>x. \<not> P x) xs) = length xs"
  by (induction xs) simp_all

text \<open>Both results of every case, and what is known of them.\<close>

definition fair_pair :: "bool \<Rightarrow> SyntheticCase \<Rightarrow> CaseEvaluationResult \<Rightarrow> CaseEvaluationResult \<Rightarrow> bool" where
  "fair_pair free c b r \<longleftrightarrow> er_amount_at_risk b = sn_amount c \<and> er_amount_at_risk r = sn_amount c
     \<and> 0 \<le> er_recovered_amount b \<and> er_recovered_amount b \<le> sn_amount c
     \<and> 0 \<le> er_recovered_amount r \<and> er_recovered_amount r \<le> sn_amount c
     \<and> er_cost b = 0 \<and> 0 \<le> er_cost r
     \<and> (er_final_status b = Case_STOPPED \<longleftrightarrow> \<not> er_recovered b) \<and> er_final_status b \<noteq> Case_ESCALATED
     \<and> (er_recovered r \<longleftrightarrow> er_final_status r = Case_RECOVERED)
     \<and> er_probability_source r \<in> {Some ''ml'', Some ''heuristic'', Some ''heuristic_fallback''}
     \<and> (free \<longrightarrow> er_recovered_amount b \<le> er_recovered_amount r)"

lemma evaluate_batch_run:
  assumes "random_laws rl" "1 \<le> n_cases"
  obtains cases B R where
    "evaluate_batch h ml rl n_cases seed mode = Inr (comparison n_cases seed mode cases (map B cases) (map R cases))"
    "int (length cases) = n_cases" "\<forall>c \<in> set cases. 80 \<le> sn_amount c"
    "\<forall>c \<in> set cases. fair_pair (model_free ml mode) c (B c) (R c)"
proof -
  have count: "0 \<le> customer_count n_cases None" by (simp add: customer_count_def)
  obtain cases where cases: "generate_cases rl seed n_cases None = Inr cases"
    and ids: "map sn_case_id cases = map (\<lambda>i. ''case_'' @ show_int seed @ ''_'' @ show_int (int i)) [0..<nat n_cases]"
    and ok: "list_all (\<lambda>c. valid_context (snapshot_of_case c) \<and> case_shape c) cases"
    using generate_cases_eval [OF assms count] by blast
  define B where "B c = projr (evaluate_case h ml rl seed mode ''baseline'' c)" for c
  define R where "R c = projr (evaluate_case h ml rl seed mode ''revivex'' c)" for c
  have amount: "80 \<le> sn_amount c" if "c \<in> set cases" for c
    using ok that by (auto simp: list_all_iff case_shape_def)
  have one: "evaluate_case h ml rl seed mode ''baseline'' c = Inr (B c)
      \<and> evaluate_case h ml rl seed mode ''revivex'' c = Inr (R c) \<and> fair_pair (model_free ml mode) c (B c) (R c)"
    if "c \<in> set cases" for c
  proof -
    define u where "u = run_seeded rl (deterministic_rng seed (sn_case_id c)) (rl_random rl)"
    show ?thesis
      by (rule evaluate_case_run [OF u_def, where h = h and ml = ml and mode = mode])
         (use amount [OF that] in \<open>auto simp: fair_pair_def B_def R_def action_cost_nonneg\<close>)
  qed
  have "int (length cases) = n_cases" using arg_cong [OF ids, of length] assms(2) by simp
  moreover have "evaluate_batch h ml rl n_cases seed mode = Inr (comparison n_cases seed mode cases (map B cases) (map R cases))"
    using one by (simp add: evaluate_batch_def cases map_res_cong_map [where k = B] map_res_cong_map [where k = R])
  ultimately show thesis using that amount one by blast
qed

lemma metrics_sound:
  assumes "\<And>x. x \<in> set results \<Longrightarrow> 0 \<le> er_recovered_amount x \<and> er_recovered_amount x \<le> er_amount_at_risk x \<and> 0 \<le> er_cost x"
  defines "m \<equiv> compute_metrics results"
  shows "0 \<le> bm_total_recovered m \<and> bm_total_recovered m \<le> bm_total_revenue_at_risk m
     \<and> 0 \<le> bm_recovery_rate m \<and> bm_recovery_rate m \<le> 1 \<and> bm_net_recovery m \<le> bm_total_recovered m"
proof -
  have "0 \<le> sum_list (map er_recovered_amount results)" "0 \<le> sum_list (map er_cost results)"
    using assms(1) by (auto intro!: sum_list_nonneg)
  moreover have "sum_list (map er_recovered_amount results) \<le> sum_list (map er_amount_at_risk results)"
    using assms(1) by (intro sum_list_mono) auto
  ultimately show ?thesis by (auto simp: m_def compute_metrics_def Let_def divide_le_eq_1)
qed

lemma comparison_fields:
  fixes n seed mode cases B R
  defines "r \<equiv> comparison n seed mode cases (map B cases) (map R cases)"
  shows "bc_baseline_metrics r = compute_metrics (map B cases)" "bc_revivex_metrics r = compute_metrics (map R cases)"
    "bc_case_results r = map (\<lambda>c. compare_case c (B c) (R c)) cases"
    "bc_incremental_revenue r = sum_list (map (\<lambda>c. er_recovered_amount (R c) - er_recovered_amount (B c)) cases)"
proof -
  show "bc_case_results r = map (\<lambda>c. compare_case c (B c) (R c)) cases"
    unfolding r_def comparison_def Let_def BatchComparisonResult.simps by (induction cases) simp_all
  show "bc_incremental_revenue r = sum_list (map (\<lambda>c. er_recovered_amount (R c) - er_recovered_amount (B c)) cases)"
    by (simp add: r_def comparison_def compute_metrics_def Let_def sum_list_subtractf comp_def)
qed (simp_all add: r_def comparison_def Let_def)

text \<open>The totals of a strategy are the sums of its columns in the rows that are reported.\<close>

definition adds_up ::
  "BatchEvaluationMetrics \<Rightarrow> (CaseComparison \<Rightarrow> rat) \<Rightarrow> (CaseComparison \<Rightarrow> rat) \<Rightarrow> CaseComparison list \<Rightarrow> bool" where
  "adds_up m recovered cost rows \<longleftrightarrow>
     bm_total_cases m = length rows
     \<and> bm_total_revenue_at_risk m = sum_list (map cmp_amount_at_risk rows)
     \<and> bm_total_recovered m = sum_list (map recovered rows)
     \<and> bm_total_cost m = sum_list (map cost rows)
     \<and> bm_net_recovery m = sum_list (map recovered rows) - sum_list (map cost rows)
     \<and> bm_recovery_rate m = sum_list (map recovered rows) / sum_list (map cmp_amount_at_risk rows)"

lemma compare_case_fields:
  "cmp_amount_at_risk (compare_case c b v) = sn_amount c"
  "cmp_baseline_recovered_amount (compare_case c b v) = er_recovered_amount b" "cmp_baseline_cost (compare_case c b v) = er_cost b"
  "cmp_revivex_recovered_amount (compare_case c b v) = er_recovered_amount v" "cmp_revivex_cost (compare_case c b v) = er_cost v"
  by (simp_all add: compare_case_def)

lemma metrics_add_up:
  assumes "\<And>c. c \<in> set cases \<Longrightarrow> er_amount_at_risk (F c) = sn_amount c"
    and "\<And>c. recovered (compare_case c (B c) (R c)) = er_recovered_amount (F c)"
    and "\<And>c. cost (compare_case c (B c) (R c)) = er_cost (F c)"
    and "0 < sum_list (map sn_amount cases)"
  shows "adds_up (compute_metrics (map F cases)) recovered cost (map (\<lambda>c. compare_case c (B c) (R c)) cases)"
proof -
  have risk: "map (\<lambda>c. er_amount_at_risk (F c)) cases = map sn_amount cases" using assms(1) by simp
  show ?thesis
    using assms(4) by (simp add: adds_up_def compute_metrics_def Let_def risk comp_def compare_case_fields(1) assms(2,3))
qed

text \<open>
  C37. \<^bold>\<open>The benchmark keeps its books.\<close> For every seed, mode, trained model and generator within the
  documented ranges, a batch of one or more cases is evaluated to the end and reports one row per case. For both
  strategies, the revenue at risk, the recovered revenue and the cost are the sums of these rows, the net recovery
  is what was recovered less what it cost, and the rate is what was recovered over what was at risk. Both strategies
  face the same revenue at risk; each recovers between nothing and all of it; doing
  nothing costs nothing and every case it does not recover is stopped; every case is attributed to the model or
  to the heuristic; and the incremental revenue is the sum of the increments reported case by case.
\<close>

theorem benchmark_accounts:
  assumes "random_laws rl" and "1 \<le> n_cases"
  shows "\<exists>r. evaluate_batch h ml rl n_cases seed mode = Inr r
    \<and> int (length (bc_case_results r)) = n_cases
    \<and> adds_up (bc_baseline_metrics r) cmp_baseline_recovered_amount cmp_baseline_cost (bc_case_results r)
    \<and> adds_up (bc_revivex_metrics r) cmp_revivex_recovered_amount cmp_revivex_cost (bc_case_results r)
    \<and> bm_total_revenue_at_risk (bc_revivex_metrics r) = bc_total_revenue_at_risk r
    \<and> 80 * of_int n_cases \<le> bc_total_revenue_at_risk r
    \<and> list_all (\<lambda>m. 0 \<le> bm_total_recovered m \<and> bm_total_recovered m \<le> bc_total_revenue_at_risk r
         \<and> 0 \<le> bm_recovery_rate m \<and> bm_recovery_rate m \<le> 1 \<and> bm_net_recovery m \<le> bm_total_recovered m)
       [bc_baseline_metrics r, bc_revivex_metrics r]
    \<and> bm_total_cost (bc_baseline_metrics r) = 0
    \<and> int (bm_cases_recovered (bc_baseline_metrics r) + bm_cases_stopped (bc_baseline_metrics r)) = n_cases
    \<and> int (bc_ml_prediction_count r + bc_heuristic_fallback_count r) = n_cases
    \<and> bc_incremental_revenue r = sum_list (map cmp_incremental_recovered_amount (bc_case_results r))"
proof -
  obtain cases B R where run: "evaluate_batch h ml rl n_cases seed mode = Inr (comparison n_cases seed mode cases (map B cases) (map R cases))"
    and len: "int (length cases) = n_cases" and amount: "\<forall>c \<in> set cases. 80 \<le> sn_amount c"
    and fair: "\<forall>c \<in> set cases. fair_pair (model_free ml mode) c (B c) (R c)"
    by (rule evaluate_batch_run [OF assms])
  define r where "r = comparison n_cases seed mode cases (map B cases) (map R cases)"
  note fields = comparison_fields [of n_cases seed mode cases B R, folded r_def]
  let ?risk = "sum_list (map sn_amount cases)"
  have risk: "map (er_amount_at_risk \<circ> B) cases = map sn_amount cases" "map (er_amount_at_risk \<circ> R) cases = map sn_amount cases"
    using fair by (auto simp: fair_pair_def)
  have "sum_list (map (\<lambda>_. 80) cases) \<le> ?risk" using amount by (intro sum_list_mono) simp
  then have pos: "80 * of_int n_cases \<le> ?risk" using len by (simp add: sum_list_triv mult.commute flip: len)
  have totals: "bm_total_revenue_at_risk (compute_metrics (map B cases)) = ?risk"
      "bm_total_revenue_at_risk (compute_metrics (map R cases)) = ?risk" "bc_total_revenue_at_risk r = ?risk"
    by (simp_all add: r_def comparison_def compute_metrics_def Let_def risk)
  have sound: "0 \<le> bm_total_recovered m \<and> bm_total_recovered m \<le> ?risk \<and> 0 \<le> bm_recovery_rate m \<and> bm_recovery_rate m \<le> 1
      \<and> bm_net_recovery m \<le> bm_total_recovered m"
    if "m = compute_metrics (map B cases) \<or> m = compute_metrics (map R cases)" for m
  proof -
    have "\<forall>x \<in> set (map F cases). 0 \<le> er_recovered_amount x \<and> er_recovered_amount x \<le> er_amount_at_risk x \<and> 0 \<le> er_cost x"
      if "F = B \<or> F = R" for F
      using that fair by (auto simp: fair_pair_def)
    then show ?thesis using that metrics_sound [of "map B cases"] metrics_sound [of "map R cases"] totals by metis
  qed
  have "map (er_cost \<circ> B) cases = map (\<lambda>_. 0) cases" using fair by (auto simp: fair_pair_def)
  then have "sum_list (map (er_cost \<circ> B) cases) = 0" by (simp only: sum_list_0)
  then have free: "bm_total_cost (compute_metrics (map B cases)) = 0" by (simp add: compute_metrics_def Let_def)
  have "filter (\<lambda>x. er_final_status x = Case_STOPPED) (map B cases) = filter (\<lambda>x. \<not> er_recovered x) (map B cases)"
    using fair by (auto simp: fair_pair_def intro!: filter_cong)
  then have stopped: "bm_cases_recovered (compute_metrics (map B cases)) + bm_cases_stopped (compute_metrics (map B cases)) = length cases"
    using length_filter_split [of er_recovered "map B cases"] by (simp add: compute_metrics_def Let_def)
  have "filter (\<lambda>x. er_probability_source x \<in> {Some ''heuristic'', Some ''heuristic_fallback''}) (map R cases)
      = filter (\<lambda>x. er_probability_source x \<noteq> Some ''ml'') (map R cases)"
    using fair by (auto simp: fair_pair_def intro!: filter_cong)
  then have sources: "bc_ml_prediction_count r + bc_heuristic_fallback_count r = length cases"
    using length_filter_split [of "\<lambda>x. er_probability_source x = Some ''ml''" "map R cases"]
    by (simp add: r_def comparison_def Let_def)
  have rows: "sum_list (map cmp_incremental_recovered_amount (bc_case_results r)) = bc_incremental_revenue r"
      "length (bc_case_results r) = length cases"
    by (simp_all add: fields compare_case_def comp_def)
  have "0 < ?risk" using pos assms(2) by (simp add: order_less_le_trans [of 0 "80 * of_int n_cases"])
  then have books: "adds_up (bc_baseline_metrics r) cmp_baseline_recovered_amount cmp_baseline_cost (bc_case_results r)"
      "adds_up (bc_revivex_metrics r) cmp_revivex_recovered_amount cmp_revivex_cost (bc_case_results r)"
    unfolding fields(1-3) using fair by (simp_all add: metrics_add_up fair_pair_def compare_case_fields)
  show ?thesis
    by (rule exI [of _ r])
       (use run len pos totals sound free stopped sources fields(1,2) rows books in \<open>simp add: r_def [symmetric]\<close>)
qed

text \<open>
  C36. \<^bold>\<open>The benchmark cannot lose without a model.\<close> In heuristic mode, or when no trained model loads, ReviveX
  recovers every case that doing nothing recovers, for every seed: it selects an action by the very
  probabilities the outcome is drawn from, doing nothing is free, and both strategies share the draw. The
  incremental revenue and the uplift are therefore never negative, whatever the strategy is worth.
\<close>

theorem benchmark_never_loses:
  assumes "random_laws rl" and "1 \<le> n_cases" and "model_free ml mode"
  shows "\<exists>r. evaluate_batch h ml rl n_cases seed mode = Inr r \<and> 0 \<le> bc_incremental_revenue r \<and> 0 \<le> bc_recovery_uplift_percent r
    \<and> list_all (\<lambda>x. cmp_baseline_recovered_amount x \<le> cmp_revivex_recovered_amount x) (bc_case_results r)"
proof -
  obtain cases B R where run: "evaluate_batch h ml rl n_cases seed mode = Inr (comparison n_cases seed mode cases (map B cases) (map R cases))"
    and fair: "\<forall>c \<in> set cases. fair_pair (model_free ml mode) c (B c) (R c)"
    by (rule evaluate_batch_run [OF assms(1,2)])
  define r where "r = comparison n_cases seed mode cases (map B cases) (map R cases)"
  note fields = comparison_fields [of n_cases seed mode cases B R, folded r_def]
  have pair: "er_recovered_amount (B c) \<le> er_recovered_amount (R c)" if "c \<in> set cases" for c
    using fair that assms(3) by (simp add: fair_pair_def)
  then have "0 \<le> bc_incremental_revenue r" unfolding fields by (auto intro!: sum_list_nonneg)
  moreover from this have "0 \<le> bc_recovery_uplift_percent r" by (simp add: r_def comparison_def Let_def)
  moreover have "list_all (\<lambda>x. cmp_baseline_recovered_amount x \<le> cmp_revivex_recovered_amount x) (bc_case_results r)"
    using pair by (simp add: fields list_all_iff compare_case_def)
  ultimately show ?thesis using run unfolding r_def [symmetric] by blast
qed

theorem benchmark_accounts_witness:
  "\<exists>r. evaluate_batch demo_host (Inl (InferenceError ''MODEL_UNAVAILABLE'')) demo_random 100 42 ''ml'' = Inr r
     \<and> length (bc_case_results r) = 100 \<and> bm_total_cost (bc_baseline_metrics r) = 0"
  using benchmark_accounts [OF demo_random_laws, of 100] by fastforce

theorem benchmark_never_loses_witness:
  "\<exists>r. evaluate_batch demo_host (Inl (InferenceError ''MODEL_UNAVAILABLE'')) demo_random 100 42 ''heuristic'' = Inr r
     \<and> 0 \<le> bc_incremental_revenue r"
  using benchmark_never_loses [OF demo_random_laws, of 100 "Inl (InferenceError ''MODEL_UNAVAILABLE'')" "''heuristic''" demo_host 42]
  by (auto simp: model_free_def)

text \<open>The benchmark prices an action as the optimizer does by default, up to the rounding of the discount.\<close>

lemma action_cost_matches:
  assumes "0 \<le> amount" "two_decimal amount"
  shows "\<exists>i d k p. costs_for_action (action_value a) amount default_optimizer_settings None = Inr (i, d, k, p)
    \<and> \<bar>action_cost (action_value a) amount - (i + d + k + p)\<bar> \<le> 1/200"
proof -
  have cents: "quantize 5 = 5" "quantize 2 = 2" "quantize 3 = 3" "quantize (1/2) = 1/2" "quantize 1 = 1" "quantize 250 = 250"
      "quantize 15 = 15" "quantize 4 = 4" "quantize 8 = 8" "quantize 12 = 12" "quantize 40 = 40" "quantize 30 = 30"
      "quantize (3/2) = 3/2"
    by (simp_all add: quantize_digits_def round_half_even_def Let_def)
  have "parse_enum action_value all_actions (action_value a) = Inr a" by simp
  then have costs: "costs_for default_optimizer_settings (action_value a) = Inr (default_costs a)"
    unfolding costs_for_def by (cases a) (simp_all add: default_optimizer_settings_def as_money_nonneg cents)
  have err: "\<bar>amount * 5 / 100 - quantize (amount * 5 / 100)\<bar> \<le> 1/200"
    using quantize_error [of 2 "amount * 5 / 100"] by (simp add: abs_minus_commute)
  show ?thesis
  proof (cases "a = OFFER_DISCOUNT")
    case True
    have "discount_cost amount 5 = Inr (quantize (amount * 5 / 100))"
      using assms(1) quantize_two_decimal [OF assms(2)] by (simp add: discount_cost_def as_money_nonneg)
    with costs True have cost: "costs_for_action (action_value a) amount default_optimizer_settings None
        = Inr (1, quantize (amount * 5 / 100), 3/2, 40)"
      by (simp add: costs_for_action_def default_optimizer_settings_def)
    have price: "action_cost (action_value a) amount = 1 + amount * 5 / 100 + 3/2 + 40"
      using True by (simp add: action_cost_def action_costs_def risk_penalties_def opt_or_def)
    show ?thesis unfolding price by (intro exI conjI, rule cost) (use err in simp)
  next
    case False
    then have "action_value a \<noteq> action_value OFFER_DISCOUNT" using action_enum.val_inj by blast
    with costs have cost: "costs_for_action (action_value a) amount default_optimizer_settings None
        = Inr (ca_intervention_cost (default_costs a), 0, ca_communication_cost (default_costs a), ca_risk_penalty (default_costs a))"
      by (simp add: costs_for_action_def ZERO_def)
    have price: "action_cost (action_value a) amount
        = ca_intervention_cost (default_costs a) + 0 + ca_communication_cost (default_costs a) + ca_risk_penalty (default_costs a)"
      using False by (cases a) (simp_all add: action_cost_def action_costs_def risk_penalties_def opt_or_def)
    show ?thesis unfolding price by (intro exI conjI, rule cost) simp
  qed
qed

end
