(* ===== verification/Training.thy ===== *)
theory Training
  imports Benchmark "HOL-Library.AList"
begin

text \<open>
  Training, judging and publishing the recovery model: \<^verbatim>\<open>recoverai_eval/train.py\<close>, \<^verbatim>\<open>evaluate.py\<close>,
  \<^verbatim>\<open>evaluation/\<close> (metrics, calibration, quality gates, directional checks), \<^verbatim>\<open>models/versioning.py\<close> (the
  directory of models and its \<^verbatim>\<open>PRODUCTION\<close> pointer), the cache of \<^verbatim>\<open>inference/api.py\<close>, the rows of
  \<^verbatim>\<open>ModelVersionRepository\<close> and the console's \<^verbatim>\<open>latest_evaluation\<close>. Scikit-learn is the parameter
  \<open>Learner\<close>; a fitted model scores the rows of a frame one by one. A metric that is not a number is
  \<open>None\<close>, a version is a plain file name, an artifact path is relative to the directory of models, and
  the wording of a refusal is not modelled.
\<close>

subsection \<open>Estimators\<close>

type_synonym model = "dict \<Rightarrow> rat"

datatype estimator =
    Logistic_pipeline nat
  | Forest_pipeline int int nat

definition logistic_pipeline :: estimator where
  "logistic_pipeline = Logistic_pipeline 2000"

definition forest_pipeline :: "int \<Rightarrow> int \<Rightarrow> nat \<Rightarrow> estimator" where
  "forest_pipeline seed n_estimators max_depth = Forest_pipeline seed n_estimators max_depth"

record Learner =
  sk_fit :: "estimator \<Rightarrow> dict list \<Rightarrow> bool list \<Rightarrow> model res"
  sk_calibrate :: "model \<Rightarrow> dict list \<Rightarrow> bool list \<Rightarrow> model res"
  sk_roc_auc_score :: "bool list \<Rightarrow> rat list \<Rightarrow> rat"
  sk_average_precision_score :: "bool list \<Rightarrow> rat list \<Rightarrow> rat"
  sk_brier_score_loss :: "bool list \<Rightarrow> rat list \<Rightarrow> rat"
  sk_precision_score :: "bool list \<Rightarrow> bool list \<Rightarrow> rat"
  sk_recall_score :: "bool list \<Rightarrow> bool list \<Rightarrow> rat"
  sk_confusion_matrix :: "bool list \<Rightarrow> bool list \<Rightarrow> nat list list"

definition rows_to_xy :: "LabeledRow list \<Rightarrow> dict list \<times> bool list" where
  "rows_to_xy rows =
     (map (\<lambda>r. derive_features (snapshot_of_case (lb_case r)) (lb_action r)) rows, map lb_recovered rows)"

definition MODEL_FEATURE_COLUMNS :: "string list" where
  "MODEL_FEATURE_COLUMNS = NUMERIC_FEATURES @ CATEGORICAL_FEATURES"

definition assert_no_target_leakage :: "string list \<Rightarrow> unit res" where
  "assert_no_target_leakage feature_names =
     (if set feature_names \<inter> set LEAKAGE_FIELDS \<noteq> {} then Inl (ModelQualityError ''TARGET_LEAKAGE'') else Inr ())"

definition predict_proba :: "model \<Rightarrow> dict list \<Rightarrow> rat list" where
  "predict_proba model frame = map model frame"

subsection \<open>Metrics\<close>

record Metrics =
  me_roc_auc :: "rat option"
  me_pr_auc :: "rat option"
  me_brier :: rat
  me_precision :: rat
  me_recall :: rat
  me_positive_rate :: rat
  me_threshold :: rat
  me_confusion_matrix :: "nat list list"
  me_n :: nat

definition classification_metrics :: "Learner \<Rightarrow> bool list \<Rightarrow> rat list \<Rightarrow> rat \<Rightarrow> Metrics res" where
  "classification_metrics sk y_true y_prob threshold =
     (if y_true = [] \<or> y_prob = [] then Inl (ModelQualityError ''INVALID_METRICS'')
      else if list_ex (\<lambda>p. p < 0 \<or> p > 1) y_prob then Inl (ModelQualityError ''INVALID_PROBABILITY'')
      else
        let y_hat = map (\<lambda>p. p \<ge> threshold) y_prob;
            positives = length (filter id y_true); negatives = length y_true - positives in
        Inr \<lparr>me_roc_auc = (if 0 < positives \<and> 0 < negatives then Some (sk_roc_auc_score sk y_true y_prob) else None),
             me_pr_auc = (if 0 < positives then Some (sk_average_precision_score sk y_true y_prob) else None),
             me_brier = sk_brier_score_loss sk y_true y_prob,
             me_precision = sk_precision_score sk y_true y_hat, me_recall = sk_recall_score sk y_true y_hat,
             me_positive_rate = of_nat positives / of_nat (length y_true), me_threshold = threshold,
             me_confusion_matrix = sk_confusion_matrix sk y_true y_hat, me_n = length y_true\<rparr>)"

text \<open>\<^verbatim>\<open>zip(..., strict=True)\<close>.\<close>

definition strict_zip :: "'a list \<Rightarrow> 'b list \<Rightarrow> ('a \<times> 'b) list res" where
  "strict_zip xs ys = (if length xs \<noteq> length ys then Inl ValueError else Inr (zip xs ys))"

definition mean :: "rat list \<Rightarrow> rat" where
  "mean xs = sum_list xs / of_nat (length xs)"

definition label_value :: "bool \<Rightarrow> rat" where
  "label_value y = (if y then 1 else 0)"

text \<open>
  Calibration by bins of equal width, for at least one bin: \<open>fmul\<close> multiplies floats, so two neighbouring bins meet in the same float.
  The bin of an index is \<open>None\<close> when no probability falls into it.
\<close>

record CalibrationBin =
  cb_bin :: nat
  cb_lower :: rat
  cb_upper :: rat
  cb_count :: nat
  cb_mean_predicted :: rat
  cb_mean_actual :: rat
  cb_abs_gap :: rat

record Calibration =
  ca_bins :: "CalibrationBin list"
  ca_ece :: rat
  ca_max_abs_gap :: rat

definition bin_edge :: "(rat \<Rightarrow> rat \<Rightarrow> rat) \<Rightarrow> nat \<Rightarrow> nat \<Rightarrow> rat" where
  "bin_edge fmul n_bins index = fmul (of_nat index) (1 / of_nat n_bins)"

definition bin_upper :: "(rat \<Rightarrow> rat \<Rightarrow> rat) \<Rightarrow> nat \<Rightarrow> nat \<Rightarrow> rat" where
  "bin_upper fmul n_bins index = (if index = n_bins - 1 then 1 else bin_edge fmul n_bins (index + 1))"

definition in_bin :: "(rat \<Rightarrow> rat \<Rightarrow> rat) \<Rightarrow> nat \<Rightarrow> nat \<Rightarrow> rat \<Rightarrow> bool" where
  "in_bin fmul n_bins index yp \<longleftrightarrow>
     (let lo = bin_edge fmul n_bins index in
      (if index = 0 then yp \<ge> lo else yp > lo) \<and> yp \<le> bin_upper fmul n_bins index)"

definition chosen_pairs :: "(rat \<Rightarrow> rat \<Rightarrow> rat) \<Rightarrow> nat \<Rightarrow> (bool \<times> rat) list \<Rightarrow> nat \<Rightarrow> (bool \<times> rat) list" where
  "chosen_pairs fmul n_bins pairs index = filter (\<lambda>x. in_bin fmul n_bins index (snd x)) pairs"

definition bin_gap :: "(bool \<times> rat) list \<Rightarrow> rat" where
  "bin_gap chosen = \<bar>mean (map snd chosen) - mean (map (label_value \<circ> fst) chosen)\<bar>"

definition calibration_bin :: "(rat \<Rightarrow> rat \<Rightarrow> rat) \<Rightarrow> nat \<Rightarrow> nat \<Rightarrow> (bool \<times> rat) list \<Rightarrow> CalibrationBin" where
  "calibration_bin fmul n_bins index chosen =
     \<lparr>cb_bin = index, cb_lower = bin_edge fmul n_bins index, cb_upper = bin_upper fmul n_bins index,
      cb_count = length chosen, cb_mean_predicted = quantize_digits 6 (mean (map snd chosen)),
      cb_mean_actual = quantize_digits 6 (mean (map (label_value \<circ> fst) chosen)),
      cb_abs_gap = quantize_digits 6 (bin_gap chosen)\<rparr>"

text \<open>One round of the loop: the bins, the weighted sum of the gaps and the largest gap so far.\<close>

definition add_bin ::
  "(rat \<Rightarrow> rat \<Rightarrow> rat) \<Rightarrow> nat \<Rightarrow> (bool \<times> rat) list \<Rightarrow> nat \<Rightarrow>
   CalibrationBin list \<times> rat \<times> rat \<Rightarrow> CalibrationBin list \<times> rat \<times> rat" where
  "add_bin fmul n_bins pairs index acc =
     (let chosen = chosen_pairs fmul n_bins pairs index; (bins, ece, max_abs) = acc; gap = bin_gap chosen in
      if chosen = [] then acc
      else (bins @ [calibration_bin fmul n_bins index chosen],
            ece + gap * (of_nat (length chosen) / of_nat (length pairs)), max max_abs gap))"

definition calibration_curve_points ::
  "(rat \<Rightarrow> rat \<Rightarrow> rat) \<Rightarrow> nat \<Rightarrow> bool list \<Rightarrow> rat list \<Rightarrow> Calibration res" where
  "calibration_curve_points fmul n_bins y_true y_prob =
     bindE (strict_zip y_true y_prob) (\<lambda>pairs.
     let (bins, ece, max_abs) = fold (add_bin fmul n_bins pairs) [0..<n_bins] ([], 0, 0) in
     Inr \<lparr>ca_bins = bins, ca_ece = quantize_digits 6 ece, ca_max_abs_gap = quantize_digits 6 max_abs\<rparr>)"

record ActionReport =
  ab_n :: nat
  ab_mean_predicted_probability :: rat
  ab_actual_recovery_rate :: rat
  ab_gap :: rat

definition action_report :: "(LabeledRow \<times> rat) list \<Rightarrow> ActionReport" where
  "action_report pairs =
     (let actual = mean (map (label_value \<circ> lb_recovered \<circ> fst) pairs); predicted = mean (map snd pairs) in
      \<lparr>ab_n = length pairs, ab_mean_predicted_probability = quantize_digits 6 predicted,
       ab_actual_recovery_rate = quantize_digits 6 actual, ab_gap = quantize_digits 6 (predicted - actual)\<rparr>)"

definition action_breakdown :: "LabeledRow list \<Rightarrow> rat list \<Rightarrow> (string \<times> ActionReport) list res" where
  "action_breakdown rows y_prob =
     bindE (strict_zip rows y_prob) (\<lambda>pairs.
     Inr (map (\<lambda>action. (action, action_report (filter (\<lambda>x. lb_action (fst x) = action) pairs)))
            (sort (remdups (map lb_action rows)))))"

subsection \<open>Quality gates\<close>

definition flag :: "bool \<Rightarrow> string \<Rightarrow> string list" where
  "flag b failure = (if b then [failure] else [])"

definition below :: "rat option \<Rightarrow> rat \<Rightarrow> bool" where
  "below x bound = (case x of None \<Rightarrow> False | Some v \<Rightarrow> v < bound)"

definition quality_failures ::
  "bool list \<Rightarrow> rat list \<Rightarrow> Metrics \<Rightarrow> Calibration \<Rightarrow> string list \<Rightarrow> string list \<Rightarrow> string list \<Rightarrow> string list" where
  "quality_failures y_true y_prob metrics calibration train_case_ids test_case_ids feature_names =
     flag (list_ex (\<lambda>p. p < 0 \<or> p > 1) y_prob) ''probabilities_outside_unit_interval''
     @ flag (me_roc_auc metrics = None \<or> me_pr_auc metrics = None) ''metrics_nan''
     @ flag (below (me_roc_auc metrics) (60/100)) ''roc_auc_below_0.60''
     @ flag (below (me_pr_auc metrics) (20/100)) ''pr_auc_below_0.20''
     @ flag (me_brier metrics > 25/100) ''brier_above_0.25''
     @ flag (ca_ece calibration > 12/100) ''calibration_ece_above_0.12''
     @ flag (set train_case_ids \<inter> set test_case_ids \<noteq> {}) ''train_test_case_overlap''
     @ flag (set feature_names \<inter> set LEAKAGE_FIELDS \<noteq> {}) ''feature_leakage''
     @ flag (\<not> set feature_names \<subseteq> set MODEL_FEATURE_COLUMNS) ''unknown_features''
     @ flag (list_all Not y_true \<or> list_all id y_true) ''degenerate_test_labels''"

record Quality =
  ql_passed :: bool
  ql_ece :: "rat option"

definition run_quality_gates ::
  "bool list \<Rightarrow> rat list \<Rightarrow> Metrics \<Rightarrow> Calibration \<Rightarrow> string list \<Rightarrow> string list \<Rightarrow> string list \<Rightarrow> Quality res" where
  "run_quality_gates y_true y_prob metrics calibration train_case_ids test_case_ids feature_names =
     (if quality_failures y_true y_prob metrics calibration train_case_ids test_case_ids feature_names \<noteq> []
      then Inl (ModelQualityError ''QUALITY_GATE'')
      else Inr \<lparr>ql_passed = True, ql_ece = Some (ca_ece calibration)\<rparr>)"

subsection \<open>Directional checks\<close>

record DirectionCheck =
  dc_name :: string
  dc_ok :: bool
  dc_better :: "rat option"
  dc_worse :: "rat option"

definition direction_check :: "string \<Rightarrow> rat option \<Rightarrow> rat option \<Rightarrow> DirectionCheck" where
  "direction_check name better worse =
     \<lparr>dc_name = name,
      dc_ok = (case better of None \<Rightarrow> False | Some b \<Rightarrow> (case worse of None \<Rightarrow> False | Some w \<Rightarrow> b > w)),
      dc_better = better, dc_worse = worse\<rparr>"

text \<open>The three comparisons, over the mean value of a failure reason and an action.\<close>

definition directional_checks :: "(FailureReason \<Rightarrow> RecoveryActionType \<Rightarrow> rat option) \<Rightarrow> DirectionCheck list" where
  "directional_checks value =
     (let bank_retry = value TEMPORARY_BANK_ERROR RETRY_NOW; expired_retry = value EXPIRED_CARD RETRY_NOW;
          expired_link = value EXPIRED_CARD SEND_PAYMENT_LINK; funds_now = value INSUFFICIENT_FUNDS RETRY_NOW;
          funds_later = value INSUFFICIENT_FUNDS RETRY_LATER in
      [direction_check ''temp_bank_retry_gt_expired_retry'' bank_retry expired_retry,
       direction_check ''expired_link_gt_expired_retry'' expired_link expired_retry,
       direction_check ''funds_later_gt_funds_now'' funds_later funds_now])"

definition row_matches :: "FailureReason \<Rightarrow> RecoveryActionType \<Rightarrow> LabeledRow \<Rightarrow> bool" where
  "row_matches failure action r \<longleftrightarrow> sn_failure_reason (lb_case r) = failure \<and> lb_action r = action_value action"

definition mean_of_enough :: "nat \<Rightarrow> rat list \<Rightarrow> rat option" where
  "mean_of_enough enough matched = (if length matched < enough then None else Some (mean matched))"

definition directional_recovery_checks :: "LabeledRow list \<Rightarrow> DirectionCheck list" where
  "directional_recovery_checks rows =
     directional_checks (\<lambda>failure action.
       mean_of_enough 20 (map (label_value \<circ> lb_recovered) (filter (row_matches failure action) rows)))"

definition assert_directional_labels :: "LabeledRow list \<Rightarrow> unit res" where
  "assert_directional_labels rows =
     (if list_all dc_ok (directional_recovery_checks rows) then Inr ()
      else Inl (ModelQualityError ''BUSINESS_SENSE''))"

definition directional_prediction_checks :: "LabeledRow list \<Rightarrow> rat list \<Rightarrow> DirectionCheck list res" where
  "directional_prediction_checks rows y_prob =
     bindE (strict_zip rows y_prob) (\<lambda>pairs.
     Inr (directional_checks (\<lambda>failure action.
       mean_of_enough 10 (map snd (filter (\<lambda>x. row_matches failure action (fst x)) pairs)))))"

subsection \<open>The directory of models\<close>

text \<open>
  The metadata of a bundle: the values that name it, and the sections that reports show. A file that
  does not unpickle or parse is an error in its place.
\<close>

record BundleMetadata =
  md_values :: dict
  md_test :: "Metrics option"
  md_validation :: "Metrics option"
  md_candidates :: "(string \<times> Metrics) list"
  md_calibration :: "Calibration option"
  md_action_breakdown :: "(string \<times> ActionReport) list"
  md_business_sense :: "DirectionCheck list option"
  md_quality :: "Quality option"
  md_split :: "(string \<times> nat) list"

record BundleFiles =
  bf_model :: "model res option"
  bf_metadata :: "BundleMetadata res option"
  bf_split_ids :: "(split \<Rightarrow> string list) option"

datatype entry =
    Text_file string
  | Bundle_dir BundleFiles

type_synonym models_dir = "(string \<times> entry) list"

definition POINTER :: string where
  "POINTER = ''PRODUCTION''"

definition version_number :: "string \<Rightarrow> string \<Rightarrow> int option" where
  "version_number pre name =
     (if take (length pre) name \<noteq> pre then None
      else let suffix = drop (length pre) name in
        if suffix \<noteq> [] \<and> list_all is_digit suffix then Some (foldl (\<lambda>a d. a * 10 + digit_val d) 0 suffix) else None)"

definition next_model_version :: "string \<Rightarrow> models_dir \<Rightarrow> string" where
  "next_model_version pre d =
     (let existing = List.map_filter (version_number pre \<circ> fst) d in
      pre @ show_int (if existing = [] then 1 else Max (set existing) + 1))"

definition VERSION_PREFIX :: string where
  "VERSION_PREFIX = ''recovery-v''"

definition no_files :: BundleFiles where
  "no_files = \<lparr>bf_model = None, bf_metadata = None, bf_split_ids = None\<rparr>"

definition put_files :: "string \<Rightarrow> BundleFiles \<Rightarrow> models_dir \<Rightarrow> models_dir" where
  "put_files version files d = AList.update version (Bundle_dir files) d"

definition saved_metadata :: "timestamp \<Rightarrow> string \<Rightarrow> BundleMetadata \<Rightarrow> BundleMetadata" where
  "saved_metadata moment version metadata =
     metadata\<lparr>md_values := dict_set ''saved_at'' (JTime moment) (dict_set ''model_version'' (JStr version) (md_values metadata))\<rparr>"

definition save_bundle ::
  "timestamp \<Rightarrow> string \<Rightarrow> model \<Rightarrow> BundleMetadata \<Rightarrow> bool \<Rightarrow> models_dir \<Rightarrow> models_dir res" where
  "save_bundle moment version pipeline metadata overwrite d =
     (if map_of d version \<noteq> None \<and> \<not> overwrite then Inl (ModelQualityError ''VERSION_EXISTS'')
      else
        let save = (\<lambda>files. Inr (put_files version
          (files\<lparr>bf_model := Some (Inr pipeline), bf_metadata := Some (Inr (saved_metadata moment version metadata))\<rparr>) d)) in
        case map_of d version of
          None \<Rightarrow> save no_files
        | Some (Bundle_dir files) \<Rightarrow> save files
        | Some (Text_file _) \<Rightarrow> Inl OSError)"

definition write_split_ids :: "string \<Rightarrow> (split \<Rightarrow> string list) \<Rightarrow> models_dir \<Rightarrow> models_dir res" where
  "write_split_ids version ids d =
     (case map_of d version of
        Some (Bundle_dir files) \<Rightarrow> Inr (put_files version (files\<lparr>bf_split_ids := Some ids\<rparr>) d)
      | _ \<Rightarrow> Inl OSError)"

definition write_production_pointer :: "string \<Rightarrow> models_dir \<Rightarrow> models_dir res" where
  "write_production_pointer version d =
     (case map_of d POINTER of
        Some (Bundle_dir _) \<Rightarrow> Inl OSError
      | _ \<Rightarrow> Inr (AList.update POINTER (Text_file version) d))"

definition read_production_pointer :: "models_dir \<Rightarrow> string option res" where
  "read_production_pointer d =
     (case map_of d POINTER of
        None \<Rightarrow> Inr None
      | Some (Bundle_dir _) \<Rightarrow> Inl OSError
      | Some (Text_file s) \<Rightarrow> Inr (let t = strip s in if t = [] then None else Some t))"

definition load_files :: "string option \<Rightarrow> models_dir \<Rightarrow> (model \<times> BundleMetadata option) res" where
  "load_files version d =
     bindE (case version of Some v \<Rightarrow> if v = [] then read_production_pointer d else Inr (Some v)
            | None \<Rightarrow> read_production_pointer d) (\<lambda>chosen.
     case chosen of
       None \<Rightarrow> Inl (InferenceError ''MODEL_UNAVAILABLE'')
     | Some v \<Rightarrow>
         (case map_of d v of
            Some (Bundle_dir files) \<Rightarrow>
              (case bf_model files of
                 None \<Rightarrow> Inl (InferenceError ''MODEL_UNAVAILABLE'')
               | Some (Inl _) \<Rightarrow> Inl (InferenceError ''MODEL_LOAD_FAILED'')
               | Some (Inr pipeline) \<Rightarrow>
                   (case bf_metadata files of
                      None \<Rightarrow> Inr (pipeline, None)
                    | Some metadata \<Rightarrow> bindE metadata (\<lambda>m. Inr (pipeline, Some m))))
          | _ \<Rightarrow> Inl (InferenceError ''MODEL_UNAVAILABLE'')))"

definition load_bundle :: "string option \<Rightarrow> models_dir \<Rightarrow> MlBundle res" where
  "load_bundle version d =
     bindE (load_files version d) (\<lambda>(pipeline, metadata).
     Inr \<lparr>ml_predict_proba = pipeline, ml_metadata = (case metadata of None \<Rightarrow> [] | Some m \<Rightarrow> md_values m)\<rparr>)"

text \<open>The cache of a process that predicts.\<close>

type_synonym model_cache = "(string \<times> MlBundle) list"

definition load_pipeline :: "string option \<Rightarrow> models_dir \<Rightarrow> (model_cache, MlBundle) prog" where
  "load_pipeline version d cache =
     (let key = (case version of Some v \<Rightarrow> if v = [] then ''__production__'' else v | None \<Rightarrow> ''__production__'') in
      case map_of cache key of
        Some cached \<Rightarrow> (Inr cached, cache)
      | None \<Rightarrow> (case load_bundle version d of
            Inl e \<Rightarrow> (Inl e, cache)
          | Inr loaded \<Rightarrow> (Inr loaded, (key, loaded) # cache)))"

subsection \<open>Rows of model versions\<close>

record ModelVersion =
  mv_version :: string
  mv_algorithm :: string
  mv_dataset_version :: string
  mv_feature_version :: string
  mv_seed :: int
  mv_trained_at :: timestamp
  mv_artifact_path :: string
  mv_quality_passed :: bool
  mv_is_production :: bool
  mv_test :: Metrics
  mv_validation :: Metrics
  mv_quality :: Quality

definition get_by_version :: "string \<Rightarrow> ModelVersion list \<Rightarrow> ModelVersion option" where
  "get_by_version version rows = find (\<lambda>r. mv_version r = version) rows"

definition get_production :: "ModelVersion list \<Rightarrow> ModelVersion option" where
  "get_production rows = find mv_is_production rows"

definition get_latest :: "ModelVersion list \<Rightarrow> ModelVersion option" where
  "get_latest rows = (case sort_key (\<lambda>r. - mv_trained_at r) rows of [] \<Rightarrow> None | r # _ \<Rightarrow> Some r)"

definition clear_production :: "ModelVersion list \<Rightarrow> ModelVersion list" where
  "clear_production rows = map (mv_is_production_update (\<lambda>_. False)) rows"

text \<open>The table has a unique version and a partial unique index on the production row.\<close>

definition insert_model_version :: "ModelVersion \<Rightarrow> ModelVersion list \<Rightarrow> ModelVersion list res" where
  "insert_model_version row rows =
     (if list_ex (\<lambda>r. mv_version r = mv_version row \<or> mv_is_production r \<and> mv_is_production row) rows
      then Inl IntegrityError else Inr (rows @ [row]))"

definition persist_db_version :: "bool \<Rightarrow> ModelVersion \<Rightarrow> ModelVersion list \<Rightarrow> ModelVersion list res" where
  "persist_db_version database_url row rows =
     (if \<not> database_url then Inr rows
      else if get_by_version (mv_version row) rows \<noteq> None then Inr rows
      else insert_model_version row (if mv_is_production row then clear_production rows else rows))"

subsection \<open>Training\<close>

record TrainRequest =
  tq_seed :: int
  tq_n_cases :: int
  tq_model_version :: "string option"
  tq_overwrite :: bool
  tq_forest_estimators :: int
  tq_persist_db :: bool
  tq_publish :: bool

record Candidate =
  cn_name :: string
  cn_model :: model
  cn_val_metrics :: Metrics

definition fit_candidate ::
  "Learner \<Rightarrow> string \<Rightarrow> estimator \<Rightarrow> dict list \<Rightarrow> bool list \<Rightarrow> dict list \<Rightarrow> bool list \<Rightarrow> Candidate res" where
  "fit_candidate sk name est x_train y_train x_val y_val =
     bindE (sk_fit sk est x_train y_train) (\<lambda>fitted.
     bindE (sk_calibrate sk fitted x_val y_val) (\<lambda>calibrated.
     bindE (classification_metrics sk y_val (predict_proba calibrated x_val) (1/2)) (\<lambda>metrics.
     Inr \<lparr>cn_name = name, cn_model = calibrated, cn_val_metrics = metrics\<rparr>)))"

definition select_model :: "Candidate \<Rightarrow> Candidate \<Rightarrow> Candidate" where
  "select_model logistic forest =
     (if me_brier (cn_val_metrics forest) + 3/1000 < me_brier (cn_val_metrics logistic) then forest else logistic)"

text \<open>What a training run has computed when it comes to the quality gates.\<close>

record Trained =
  tn_splits :: "split \<Rightarrow> LabeledRow list"
  tn_logistic :: Candidate
  tn_forest :: Candidate
  tn_selected :: Candidate
  tn_y_test :: "bool list"
  tn_test_prob :: "rat list"
  tn_test_metrics :: Metrics
  tn_calibration :: Calibration
  tn_n_rows :: nat

definition fit_models ::
  "Learner \<Rightarrow> 'g RandomLib \<Rightarrow> (rat \<Rightarrow> rat \<Rightarrow> rat) \<Rightarrow> TrainRequest \<Rightarrow> Trained res" where
  "fit_models sk rl fmul req =
     bindE (assert_no_target_leakage MODEL_FEATURE_COLUMNS) (\<lambda>_.
     bindE (generate_cases rl (tq_seed req) (tq_n_cases req) None) (\<lambda>cases.
     bindE (expand_with_labels rl (tq_seed req) cases SCORABLE_ACTIONS) (\<lambda>labeled.
     bindE (assert_directional_labels labeled) (\<lambda>_.
     bindE (split_by_customer rl fmul (tq_seed req) (70/100) (15/100) labeled) (\<lambda>splits.
     let (x_train_rows, y_train) = rows_to_xy (splits Train);
         (x_val_rows, y_val) = rows_to_xy (splits Validation);
         (x_test_rows, y_test) = rows_to_xy (splits Test);
         x_train = map feature_frame x_train_rows; x_val = map feature_frame x_val_rows;
         x_test = map feature_frame x_test_rows in
     bindE (fit_candidate sk ''logistic_regression'' logistic_pipeline x_train y_train x_val y_val) (\<lambda>logistic.
     bindE (fit_candidate sk ''random_forest'' (forest_pipeline (tq_seed req) (tq_forest_estimators req) 12)
       x_train y_train x_val y_val) (\<lambda>forest.
     let selected = select_model logistic forest; test_prob = predict_proba (cn_model selected) x_test in
     bindE (classification_metrics sk y_test test_prob (1/2)) (\<lambda>test_metrics.
     bindE (calibration_curve_points fmul 10 y_test test_prob) (\<lambda>calibration.
     Inr \<lparr>tn_splits = splits, tn_logistic = logistic, tn_forest = forest, tn_selected = selected,
          tn_y_test = y_test, tn_test_prob = test_prob, tn_test_metrics = test_metrics,
          tn_calibration = calibration, tn_n_rows = length labeled\<rparr>)))))))))"

text \<open>A refused model is only kept when nothing is published.\<close>

definition judge :: "Trained \<Rightarrow> Quality res" where
  "judge t =
     (let ids = split_ids (tn_splits t) in
      run_quality_gates (tn_y_test t) (tn_test_prob t) (tn_test_metrics t) (tn_calibration t)
        (ids Train) (ids Test) MODEL_FEATURE_COLUMNS)"

definition judged_quality :: "TrainRequest \<Rightarrow> Trained \<Rightarrow> Quality res" where
  "judged_quality req t =
     (case judge t of
        Inr quality \<Rightarrow> Inr quality
      | Inl e \<Rightarrow> if tq_publish req then Inl e else Inr \<lparr>ql_passed = False, ql_ece = None\<rparr>)"

definition chosen_version :: "TrainRequest \<Rightarrow> models_dir \<Rightarrow> string" where
  "chosen_version req d =
     (case tq_model_version req of Some v \<Rightarrow> if v = [] then next_model_version VERSION_PREFIX d else v
      | None \<Rightarrow> next_model_version VERSION_PREFIX d)"

definition dataset_version_of :: "TrainRequest \<Rightarrow> string" where
  "dataset_version_of req = ''dataset-v1-seed'' @ show_int (tq_seed req) @ ''-n'' @ show_int (tq_n_cases req)"

definition training_metadata ::
  "timestamp \<Rightarrow> TrainRequest \<Rightarrow> Trained \<Rightarrow> string \<Rightarrow> Quality \<Rightarrow> DirectionCheck list \<Rightarrow> (string \<times> ActionReport) list \<Rightarrow>
   BundleMetadata" where
  "training_metadata moment req t version quality direction breakdown =
     \<lparr>md_values = [(''model_version'', JStr version), (''dataset_version'', JStr (dataset_version_of req)),
        (''feature_version'', JStr FEATURE_VERSION), (''seed'', JInt (tq_seed req)),
        (''algorithm'', JStr (cn_name (tn_selected t))), (''n_cases'', JInt (tq_n_cases req)),
        (''n_rows'', JInt (int (tn_n_rows t))), (''n_features'', JInt (int (length MODEL_FEATURE_COLUMNS))),
        (''selection_rule'', JStr ''lowest validation Brier; logistic if within 0.003''),
        (''selected'', JStr (cn_name (tn_selected t))), (''trained_at'', JTime moment),
        (''configuration'', JObj [(''forest_estimators'', JInt (tq_forest_estimators req)),
          (''calibration'', JStr ''isotonic_prefit_on_validation''), (''class_weight'', JStr ''balanced'')])],
      md_test = Some (tn_test_metrics t), md_validation = Some (cn_val_metrics (tn_selected t)),
      md_candidates = [(cn_name (tn_logistic t), cn_val_metrics (tn_logistic t)),
        (cn_name (tn_forest t), cn_val_metrics (tn_forest t))],
      md_calibration = Some (tn_calibration t), md_action_breakdown = breakdown,
      md_business_sense = Some direction, md_quality = Some quality,
      md_split = map (\<lambda>k. (split_name k, length (tn_splits t k))) [Train, Validation, Test]\<rparr>"

definition version_row :: "timestamp \<Rightarrow> TrainRequest \<Rightarrow> Trained \<Rightarrow> string \<Rightarrow> Quality \<Rightarrow> bool \<Rightarrow> ModelVersion" where
  "version_row moment req t version quality published =
     \<lparr>mv_version = version, mv_algorithm = cn_name (tn_selected t), mv_dataset_version = dataset_version_of req,
      mv_feature_version = FEATURE_VERSION, mv_seed = tq_seed req, mv_trained_at = moment, mv_artifact_path = version,
      mv_quality_passed = ql_passed quality, mv_is_production = published, mv_test = tn_test_metrics t,
      mv_validation = cn_val_metrics (tn_selected t), mv_quality = quality\<rparr>"

record TrainState =
  ts_dir :: models_dir
  ts_versions :: "ModelVersion list"

definition on_dir :: "(models_dir \<Rightarrow> models_dir res) \<Rightarrow> (TrainState, unit) prog" where
  "on_dir f s = (case f (ts_dir s) of Inl e \<Rightarrow> (Inl e, s) | Inr d \<Rightarrow> (Inr (), s\<lparr>ts_dir := d\<rparr>))"

definition on_versions :: "(ModelVersion list \<Rightarrow> ModelVersion list res) \<Rightarrow> (TrainState, unit) prog" where
  "on_versions f s = (case f (ts_versions s) of Inl e \<Rightarrow> (Inl e, s) | Inr rows \<Rightarrow> (Inr (), s\<lparr>ts_versions := rows\<rparr>))"

record TrainResult =
  tr_model_version :: string
  tr_selected :: string
  tr_test :: Metrics
  tr_quality_passed :: bool
  tr_published :: bool
  tr_candidates :: "(string \<times> Metrics) list"
  tr_action_breakdown :: "(string \<times> ActionReport) list"
  tr_calibration :: Calibration
  tr_n_rows :: nat

definition store_model ::
  "timestamp \<Rightarrow> bool \<Rightarrow> TrainRequest \<Rightarrow> Trained \<Rightarrow> string \<Rightarrow> Quality \<Rightarrow> BundleMetadata \<Rightarrow> (TrainState, unit) prog" where
  "store_model moment database_url req t version quality metadata =
     (let published = (ql_passed quality \<and> tq_publish req) in
      seqp (on_dir (save_bundle moment version (cn_model (tn_selected t)) metadata (tq_overwrite req)))
     (seqp (on_dir (write_split_ids version (split_ids (tn_splits t))))
     (seqp (if published then on_dir (write_production_pointer version) else ret ())
           (if tq_persist_db req
            then on_versions (persist_db_version database_url (version_row moment req t version quality published))
            else ret ()))))"

definition register_model ::
  "timestamp \<Rightarrow> bool \<Rightarrow> TrainRequest \<Rightarrow> Trained \<Rightarrow> (TrainState, TrainResult) prog" where
  "register_model moment database_url req t =
     Prelude.bind (lift (judged_quality req t)) (\<lambda>quality.
     Prelude.bind (lift (directional_prediction_checks (tn_splits t Test) (tn_test_prob t))) (\<lambda>direction.
     Prelude.bind (gets (\<lambda>s. chosen_version req (ts_dir s))) (\<lambda>version.
     Prelude.bind (lift (action_breakdown (tn_splits t Test) (tn_test_prob t))) (\<lambda>breakdown.
     Prelude.bind (store_model moment database_url req t version quality
       (training_metadata moment req t version quality direction breakdown)) (\<lambda>_.
     ret \<lparr>tr_model_version = version, tr_selected = cn_name (tn_selected t), tr_test = tn_test_metrics t,
          tr_quality_passed = ql_passed quality, tr_published = (ql_passed quality \<and> tq_publish req),
          tr_candidates = [(cn_name (tn_logistic t), cn_val_metrics (tn_logistic t)),
            (cn_name (tn_forest t), cn_val_metrics (tn_forest t))],
          tr_action_breakdown = breakdown, tr_calibration = tn_calibration t, tr_n_rows = tn_n_rows t\<rparr>)))))"

definition train ::
  "Learner \<Rightarrow> 'g RandomLib \<Rightarrow> (rat \<Rightarrow> rat \<Rightarrow> rat) \<Rightarrow> timestamp \<Rightarrow> bool \<Rightarrow> TrainRequest \<Rightarrow> (TrainState, TrainResult) prog" where
  "train sk rl fmul moment database_url req =
     Prelude.bind (lift (fit_models sk rl fmul req)) (\<lambda>t. register_model moment database_url req t)"

subsection \<open>Evaluation of a stored model\<close>

record EvaluationResult =
  ee_model_version :: json
  ee_algorithm :: json
  ee_held_out :: Metrics
  ee_calibration :: Calibration
  ee_action_breakdown :: "(string \<times> ActionReport) list"
  ee_business_sense :: "DirectionCheck list"
  ee_spot_check :: RecoveryProbability
  ee_n_test_rows :: nat

definition meta_int :: "int option \<Rightarrow> string \<Rightarrow> dict \<Rightarrow> int res" where
  "meta_int given key metadata = (case given of Some i \<Rightarrow> Inr i | None \<Rightarrow>
     (case map_of metadata key of None \<Rightarrow> Inl KeyError | Some v \<Rightarrow> json_int v))"

definition evaluate_stored ::
  "Learner \<Rightarrow> Host \<Rightarrow> 'g RandomLib \<Rightarrow> (rat \<Rightarrow> rat \<Rightarrow> rat) \<Rightarrow> models_dir \<Rightarrow> string option \<Rightarrow> int option \<Rightarrow> int option \<Rightarrow>
   EvaluationResult res" where
  "evaluate_stored sk h rl fmul d model_version seed n_cases =
     bindE (load_bundle model_version d) (\<lambda>b.
     let metadata = ml_metadata b; version = dict_get metadata ''model_version'' in
     bindE (meta_int seed ''seed'' metadata) (\<lambda>used_seed.
     bindE (meta_int n_cases ''n_cases'' metadata) (\<lambda>used_n.
     bindE (generate_cases rl used_seed used_n None) (\<lambda>cases.
     bindE (expand_with_labels rl used_seed cases SCORABLE_ACTIONS) (\<lambda>labeled.
     bindE (split_by_customer rl fmul used_seed (70/100) (15/100) labeled) (\<lambda>splits.
     let held_out = splits Test; (x_rows, y_true) = rows_to_xy held_out; sample = hd held_out;
         y_prob = predict_proba (ml_predict_proba b) (map feature_frame x_rows) in
     bindE (classification_metrics sk y_true y_prob (1/2)) (\<lambda>metrics.
     bindE (calibration_curve_points fmul 10 y_true y_prob) (\<lambda>calibration.
     bindE (if valid_context (snapshot_of_case (lb_case sample)) then Inr () else Inl ValueError) (\<lambda>_.
     bindE (predict_recovery_probability h (load_bundle (Some (json_str h version)) d) False
       (snapshot_of_case (lb_case sample)) (lb_action sample)) (\<lambda>scored.
     bindE (action_breakdown held_out y_prob) (\<lambda>breakdown.
     bindE (directional_prediction_checks held_out y_prob) (\<lambda>direction.
     Inr \<lparr>ee_model_version = version, ee_algorithm = dict_get metadata ''algorithm'', ee_held_out = metrics,
          ee_calibration = calibration, ee_action_breakdown = breakdown, ee_business_sense = direction,
          ee_spot_check = scored, ee_n_test_rows = length held_out\<rparr>))))))))))))"

subsection \<open>The console's view\<close>

record LatestEvaluation =
  le_available :: bool
  le_model_version :: json
  le_dataset_version :: json
  le_algorithm :: json
  le_quality_passed :: "bool option"
  le_is_production :: bool
  le_trained_at :: json
  le_test :: "Metrics option"
  le_calibration :: "Calibration option"
  le_business_sense :: "DirectionCheck list option"
  le_baseline_vs_optimizer :: BatchReport

definition pointed_metadata :: "models_dir \<Rightarrow> BundleMetadata option res" where
  "pointed_metadata d =
     bindE (read_production_pointer d) (\<lambda>pointer. Inr (case pointer of
       None \<Rightarrow> None
     | Some v \<Rightarrow> (case load_files (Some v) d of
           Inr (_, metadata) \<Rightarrow> metadata
         | Inl _ \<Rightarrow> Some \<lparr>md_values = [(''model_version'', JStr v), (''unavailable'', JBool True)], md_test = None,
             md_validation = None, md_candidates = [], md_calibration = None, md_action_breakdown = [],
             md_business_sense = None, md_quality = None, md_split = []\<rparr>)))"

definition meta_value :: "BundleMetadata option \<Rightarrow> string \<Rightarrow> json" where
  "meta_value metadata key = (case metadata of None \<Rightarrow> JNull | Some m \<Rightarrow> dict_get (md_values m) key)"

definition meta_section :: "BundleMetadata option \<Rightarrow> (BundleMetadata \<Rightarrow> 'a option) \<Rightarrow> 'a option" where
  "meta_section metadata section = (case metadata of None \<Rightarrow> None | Some m \<Rightarrow> section m)"

text \<open>The row in production, or the latest one, comes before the file; the calibration is the file's.\<close>

definition latest_evaluation ::
  "Host \<Rightarrow> 'g RandomLib \<Rightarrow> TrainState \<Rightarrow> LatestEvaluation res" where
  "latest_evaluation h rl s =
     (let row = (case get_production (ts_versions s) of Some r \<Rightarrow> Some r | None \<Rightarrow> get_latest (ts_versions s));
          shown = (\<lambda>from_row key. case row of Some r \<Rightarrow> from_row r | None \<Rightarrow> key) in
      bindE (pointed_metadata (ts_dir s)) (\<lambda>meta.
      bindE (run_batch_evaluation_service h (load_bundle None (ts_dir s)) rl 100 42 ''ml'' True) (\<lambda>batch.
      Inr \<lparr>le_available = (row \<noteq> None \<or> (case meta of None \<Rightarrow> False | Some m \<Rightarrow> md_values m \<noteq> [])),
           le_model_version = shown (JStr \<circ> mv_version) (meta_value meta ''model_version''),
           le_dataset_version = shown (JStr \<circ> mv_dataset_version) (meta_value meta ''dataset_version''),
           le_algorithm = shown (JStr \<circ> mv_algorithm) (meta_value meta ''algorithm''),
           le_quality_passed = map_option mv_quality_passed row,
           le_is_production = (case row of None \<Rightarrow> False | Some r \<Rightarrow> mv_is_production r),
           le_trained_at = shown (JTime \<circ> mv_trained_at) (meta_value meta ''trained_at''),
           le_test = (case row of Some r \<Rightarrow> Some (mv_test r) | None \<Rightarrow> meta_section meta md_test),
           le_calibration = meta_section meta md_calibration,
           le_business_sense = meta_section meta md_business_sense,
           le_baseline_vs_optimizer = batch\<rparr>)))"

subsection \<open>Calibration counts every probability once\<close>

text \<open>Float products that start at zero and keep the order.\<close>

definition ordered_product :: "(rat \<Rightarrow> rat \<Rightarrow> rat) \<Rightarrow> bool" where
  "ordered_product fmul \<longleftrightarrow> (\<forall>y. fmul 0 y = 0) \<and> (\<forall>x x' y. x \<le> x' \<longrightarrow> 0 \<le> y \<longrightarrow> fmul x y \<le> fmul x' y)"

lemma bin_edge_mono: "ordered_product fmul \<Longrightarrow> i \<le> j \<Longrightarrow> bin_edge fmul n i \<le> bin_edge fmul n j"
  by (simp add: ordered_product_def bin_edge_def)

lemma bin_edge_zero: "ordered_product fmul \<Longrightarrow> bin_edge fmul n 0 = 0"
  by (simp add: ordered_product_def bin_edge_def)

lemma one_bin:
  assumes "ordered_product fmul" "0 < n" "0 \<le> p" "p \<le> 1"
  shows "\<exists>!i. i < n \<and> in_bin fmul n i p"
proof -
  define i where "i = (LEAST i. i < n \<and> p \<le> bin_upper fmul n i)"
  have "n - 1 < n \<and> p \<le> bin_upper fmul n (n - 1)" using assms by (simp add: bin_upper_def)
  then have i: "i < n" "p \<le> bin_upper fmul n i" unfolding i_def by (metis (mono_tags, lifting) LeastI)+
  have least: "\<not> p \<le> bin_upper fmul n j" if "j < i" for j
    using that i(1) not_less_Least [of j "\<lambda>i. i < n \<and> p \<le> bin_upper fmul n i"] unfolding i_def by auto
  have "bin_edge fmul n i < p" if "i \<noteq> 0"
    using least [of "i - 1"] that i(1) by (auto simp: bin_upper_def split: if_splits)
  then have here: "in_bin fmul n i p"
    using i(2) assms(1,3) by (auto simp: in_bin_def Let_def bin_edge_zero)
  have "j = i" if j: "j < n" "in_bin fmul n j p" for j
  proof (rule ccontr)
    assume "j \<noteq> i"
    then consider "j < i" | "i < j" by linarith
    then show False
    proof cases
      case 1 with least j(2) show False by (auto simp: in_bin_def Let_def)
    next
      case 2
      then have "bin_upper fmul n i \<le> bin_edge fmul n j"
        using j(1) bin_edge_mono [OF assms(1), of "i + 1" j] by (auto simp: bin_upper_def)
      with 2 i(2) j(2) show False by (auto simp: in_bin_def Let_def)
    qed
  qed
  with here i(1) show ?thesis by blast
qed

lemma sum_filter_unique:
  assumes "\<forall>x \<in> set xs. \<exists>!i. i < n \<and> P i x"
  shows "(\<Sum>i \<leftarrow> [0..<n]. length (filter (P i) xs)) = length xs"
  using assms
proof (induction xs)
  case (Cons x xs)
  then have "\<exists>!i. i < n \<and> P i x" by simp
  then obtain j where j: "j < n" "P j x" "\<And>i. i < n \<Longrightarrow> P i x \<Longrightarrow> i = j" by blast
  have only: "P i x \<longleftrightarrow> i = j" if "i < n" for i using j that by blast
  have "(\<Sum>i \<leftarrow> [0..<n]. if P i x then 1 else 0) = (\<Sum>i \<in> {0..<n}. if P i x then 1 else (0::nat))"
    by (simp only: interv_sum_list_conv_sum_set_nat set_upt)
  also have "\<dots> = (\<Sum>i \<in> {0..<n}. if i = j then 1 else 0)" using only by (intro sum.cong) simp_all
  also have "\<dots> = 1" using j(1) by simp
  finally have one: "(\<Sum>i \<leftarrow> [0..<n]. if P i x then 1 else 0) = (1::nat)" .
  have "(\<Sum>i \<leftarrow> [0..<n]. length (filter (P i) (x # xs)))
      = (\<Sum>i \<leftarrow> [0..<n]. if P i x then 1 else 0) + (\<Sum>i \<leftarrow> [0..<n]. length (filter (P i) xs))"
    unfolding sum_list_addf [symmetric] by (rule arg_cong [of _ _ sum_list], rule map_cong) simp_all
  also have "\<dots> = length (x # xs)" using Cons one by simp
  finally show ?case .
qed simp

lemma mean_unit: "\<forall>x \<in> set xs. 0 \<le> x \<and> x \<le> 1 \<Longrightarrow> 0 \<le> mean xs \<and> mean xs \<le> 1"
proof -
  assume unit: "\<forall>x \<in> set xs. 0 \<le> x \<and> x \<le> 1"
  then have "0 \<le> sum_list xs" by (intro sum_list_nonneg) auto
  moreover have "sum_list xs \<le> of_nat (length xs)" using unit by (induction xs) auto
  ultimately show ?thesis by (cases "xs = []") (auto simp: mean_def divide_le_eq)
qed

lemma bin_gap_unit:
  assumes "\<forall>x \<in> set pairs. 0 \<le> snd x \<and> snd x \<le> 1"
  shows "0 \<le> bin_gap pairs \<and> bin_gap pairs \<le> 1"
proof -
  have "\<forall>x \<in> set (map (label_value \<circ> fst) pairs). 0 \<le> x \<and> x \<le> 1" by (auto simp: label_value_def)
  moreover have "\<forall>x \<in> set (map snd pairs). 0 \<le> x \<and> x \<le> 1" using assms by simp
  ultimately have "0 \<le> mean (map (label_value \<circ> fst) pairs) \<and> mean (map (label_value \<circ> fst) pairs) \<le> 1"
      "0 \<le> mean (map snd pairs) \<and> mean (map snd pairs) \<le> 1"
    using mean_unit by blast+
  then show ?thesis unfolding bin_gap_def by linarith
qed

lemma bin_gap_Nil [simp]: "bin_gap [] = 0"
  by (simp add: bin_gap_def mean_def)

text \<open>The loop over the bins, with its sums written out.\<close>

lemma bins_loop:
  fixes fmul pairs n ixs
  defines "ch \<equiv> chosen_pairs fmul n pairs"
  assumes "fold (add_bin fmul n pairs) ixs (bins, ece, max_abs) = (bins', ece', max_abs')"
  shows "bins' = bins @ map (\<lambda>i. calibration_bin fmul n i (ch i)) (filter (\<lambda>i. ch i \<noteq> []) ixs)
    \<and> ece' = ece + (\<Sum>i \<leftarrow> ixs. bin_gap (ch i) * (of_nat (length (ch i)) / of_nat (length pairs)))
    \<and> max_abs \<le> max_abs' \<and> (\<forall>i \<in> set ixs. ch i \<noteq> [] \<longrightarrow> bin_gap (ch i) \<le> max_abs')
    \<and> (\<forall>m. max_abs \<le> m \<longrightarrow> (\<forall>i \<in> set ixs. bin_gap (ch i) \<le> m) \<longrightarrow> max_abs' \<le> m)"
  using assms(2)
proof (induction ixs arbitrary: bins ece max_abs)
  case (Cons i ixs)
  have round: "add_bin fmul n pairs i (bins, ece, max_abs) = (if ch i = [] then (bins, ece, max_abs)
      else (bins @ [calibration_bin fmul n i (ch i)],
        ece + bin_gap (ch i) * (of_nat (length (ch i)) / of_nat (length pairs)), max max_abs (bin_gap (ch i))))"
    by (simp add: add_bin_def Let_def ch_def)
  show ?case
  proof (cases "ch i = []")
    case True
    then have "fold (add_bin fmul n pairs) ixs (bins, ece, max_abs) = (bins', ece', max_abs')"
      using Cons.prems by (simp add: round)
    from Cons.IH [OF this] True show ?thesis by auto
  next
    case False
    then have "fold (add_bin fmul n pairs) ixs (bins @ [calibration_bin fmul n i (ch i)],
        ece + bin_gap (ch i) * (of_nat (length (ch i)) / of_nat (length pairs)), max max_abs (bin_gap (ch i)))
      = (bins', ece', max_abs')"
      using Cons.prems by (simp add: round)
    from Cons.IH [OF this] False show ?thesis by auto
  qed
qed auto

lemma calibration_eval:
  assumes "length y_true = length y_prob"
  obtains c e m where "calibration_curve_points fmul n y_true y_prob = Inr c"
    "ca_bins c = map (\<lambda>i. calibration_bin fmul n i (chosen_pairs fmul n (zip y_true y_prob) i))
       (filter (\<lambda>i. chosen_pairs fmul n (zip y_true y_prob) i \<noteq> []) [0..<n])"
    "ca_ece c = quantize_digits 6 (\<Sum>i \<leftarrow> [0..<n]. bin_gap (chosen_pairs fmul n (zip y_true y_prob) i)
       * (of_nat (length (chosen_pairs fmul n (zip y_true y_prob) i)) / of_nat (length y_true)))"
    "ca_max_abs_gap c = quantize_digits 6 m" "0 \<le> m"
    "\<forall>i < n. bin_gap (chosen_pairs fmul n (zip y_true y_prob) i) \<le> m"
    "\<forall>b. 0 \<le> b \<longrightarrow> (\<forall>i < n. bin_gap (chosen_pairs fmul n (zip y_true y_prob) i) \<le> b) \<longrightarrow> m \<le> b"
proof -
  let ?pairs = "zip y_true y_prob"
  obtain bins e m where run: "fold (add_bin fmul n ?pairs) [0..<n] ([], 0, 0) = (bins, e, m)"
    by (metis prod_cases3)
  note loop = bins_loop [OF run]
  have le: "bin_gap (chosen_pairs fmul n ?pairs i) \<le> m" if "i < n" for i
    using loop that by (cases "chosen_pairs fmul n ?pairs i = []") auto
  show thesis
    by (rule that [of "\<lparr>ca_bins = bins, ca_ece = quantize_digits 6 e, ca_max_abs_gap = quantize_digits 6 m\<rparr>" m])
       (use run loop le assms in \<open>simp_all add: calibration_curve_points_def strict_zip_def\<close>)
qed

lemma chosen_count:
  assumes "ordered_product fmul" "0 < n" "\<forall>x \<in> set pairs. 0 \<le> snd x \<and> snd x \<le> 1"
  shows "(\<Sum>i \<leftarrow> [0..<n]. length (chosen_pairs fmul n pairs i)) = length pairs"
  unfolding chosen_pairs_def by (rule sum_filter_unique) (use assms one_bin in blast)

text \<open>A weighted mean of the gaps is no larger than the largest gap.\<close>

lemma weighted_gap:
  fixes g :: "nat \<Rightarrow> rat" and k :: "nat \<Rightarrow> nat"
  assumes "\<forall>i < n. 0 \<le> g i \<and> g i \<le> m" "(\<Sum>i \<leftarrow> [0..<n]. k i) = N" "0 \<le> m"
  shows "0 \<le> (\<Sum>i \<leftarrow> [0..<n]. g i * (of_nat (k i) / of_nat N))
    \<and> (\<Sum>i \<leftarrow> [0..<n]. g i * (of_nat (k i) / of_nat N)) \<le> m"
proof -
  have "(\<Sum>i = 0..<n. g i * (of_nat (k i) / of_nat N)) \<le> (\<Sum>i = 0..<n. m * (of_nat (k i) / of_nat N))"
    using assms(1) by (intro sum_mono mult_right_mono) auto
  also have "\<dots> = m * (of_nat (\<Sum>i = 0..<n. k i) / of_nat N)"
    by (simp add: sum_distrib_left sum_divide_distrib)
  also have "\<dots> \<le> m"
    using assms(2,3) by (cases "N = 0") (auto simp: interv_sum_list_conv_sum_set_nat simp flip: of_nat_sum)
  finally have "(\<Sum>i = 0..<n. g i * (of_nat (k i) / of_nat N)) \<le> m" .
  moreover have "0 \<le> (\<Sum>i = 0..<n. g i * (of_nat (k i) / of_nat N))"
    using assms(1) by (intro sum_nonneg) auto
  ultimately show ?thesis by (simp add: interv_sum_list_conv_sum_set_nat)
qed

text \<open>
  C40. \<^bold>\<open>Calibration counts every probability once.\<close> For any positive number of bins and any float product
  that keeps the order, the bins of a calibration curve split the unit interval without a gap or an overlap:
  their counts add up to the number of predictions. The expected calibration error lies between zero
  and the largest gap of a bin, which is at most one. Arrays of different length raise.
\<close>

theorem calibration_bounds:
  assumes "ordered_product fmul" and "0 < n_bins" and "list_all (\<lambda>p. 0 \<le> p \<and> p \<le> 1) y_prob"
  shows "if length y_true \<noteq> length y_prob then calibration_curve_points fmul n_bins y_true y_prob = Inl ValueError
    else \<exists>c. calibration_curve_points fmul n_bins y_true y_prob = Inr c
      \<and> sum_list (map cb_count (ca_bins c)) = length y_true
      \<and> 0 \<le> ca_ece c \<and> ca_ece c \<le> ca_max_abs_gap c \<and> ca_max_abs_gap c \<le> 1"
proof (cases "length y_true = length y_prob")
  case True
  let ?ch = "chosen_pairs fmul n_bins (zip y_true y_prob)"
  obtain c m where c: "calibration_curve_points fmul n_bins y_true y_prob = Inr c"
    "ca_bins c = map (\<lambda>i. calibration_bin fmul n_bins i (?ch i)) (filter (\<lambda>i. ?ch i \<noteq> []) [0..<n_bins])"
    "ca_ece c = quantize_digits 6 (\<Sum>i \<leftarrow> [0..<n_bins]. bin_gap (?ch i) * (of_nat (length (?ch i)) / of_nat (length y_true)))"
    "ca_max_abs_gap c = quantize_digits 6 m" "0 \<le> m" "\<forall>i < n_bins. bin_gap (?ch i) \<le> m"
    "\<forall>b. 0 \<le> b \<longrightarrow> (\<forall>i < n_bins. bin_gap (?ch i) \<le> b) \<longrightarrow> m \<le> b"
    by (rule calibration_eval [OF True])
  have unit: "\<forall>x \<in> set (zip y_true y_prob). 0 \<le> snd x \<and> snd x \<le> 1"
    using assms(3) by (auto simp: list_all_iff dest: set_zip_rightD)
  have total: "(\<Sum>i \<leftarrow> [0..<n_bins]. length (?ch i)) = length y_true"
    using chosen_count [OF assms(1,2) unit] True by simp
  have gap: "0 \<le> bin_gap (?ch i) \<and> bin_gap (?ch i) \<le> 1" for i
    by (rule bin_gap_unit) (use unit in \<open>auto simp: chosen_pairs_def\<close>)
  have "sum_list (map cb_count (ca_bins c)) = (\<Sum>i \<leftarrow> filter (\<lambda>i. ?ch i \<noteq> []) [0..<n_bins]. length (?ch i))"
    by (simp add: c(2) comp_def calibration_bin_def)
  also have "\<dots> = (\<Sum>i \<leftarrow> [0..<n_bins]. length (?ch i))" by (rule sum_list_map_filter) simp
  finally have "sum_list (map cb_count (ca_bins c)) = length y_true" using total by simp
  moreover have "0 \<le> ca_ece c \<and> ca_ece c \<le> ca_max_abs_gap c"
    using weighted_gap [OF _ total c(5), of "\<lambda>i. bin_gap (?ch i)"] gap c(6) quantize_mono [of 0 _ 6]
    by (auto simp: c(3,4) intro: quantize_mono)
  moreover have "m \<le> 1" using c(7) gap by simp
  then have "ca_max_abs_gap c \<le> 1" using quantize_mono [of m 1 6] quantize_of_int [of 6 1] by (simp add: c(4))
  ultimately show ?thesis using True c(1) by simp
qed (simp add: calibration_curve_points_def strict_zip_def)

theorem calibration_bounds_witness:
  "\<exists>c. calibration_curve_points (*) 10 [True, False, True] [9/10, 2/10, 3/10] = Inr c
     \<and> sum_list (map cb_count (ca_bins c)) = 3 \<and> ca_ece c \<le> 1"
  using calibration_bounds [of "(*)" 10 "[9/10, 2/10, 3/10]" "[True, False, True]"]
  by (fastforce simp: ordered_product_def mult_right_mono)

subsection \<open>What the gates demand\<close>

definition fit_for_production :: "Trained \<Rightarrow> bool" where
  "fit_for_production t \<longleftrightarrow>
     list_all (\<lambda>p. 0 \<le> p \<and> p \<le> 1) (tn_test_prob t)
     \<and> (case me_roc_auc (tn_test_metrics t) of None \<Rightarrow> False | Some roc \<Rightarrow> 60/100 \<le> roc)
     \<and> (case me_pr_auc (tn_test_metrics t) of None \<Rightarrow> False | Some pr \<Rightarrow> 20/100 \<le> pr)
     \<and> me_brier (tn_test_metrics t) \<le> 25/100 \<and> ca_ece (tn_calibration t) \<le> 12/100
     \<and> set (split_ids (tn_splits t) Train) \<inter> set (split_ids (tn_splits t) Test) = {}
     \<and> True \<in> set (tn_y_test t) \<and> False \<in> set (tn_y_test t)"

lemma flag_Nil [simp]: "flag b f = [] \<longleftrightarrow> \<not> b"
  by (simp add: flag_def)

lemma columns_clean: "set MODEL_FEATURE_COLUMNS \<inter> set LEAKAGE_FIELDS = {}"
  by code_simp

lemma judge_passes: "fit_for_production t \<Longrightarrow> judge t = Inr \<lparr>ql_passed = True, ql_ece = Some (ca_ece (tn_calibration t))\<rparr>"
  by (auto simp: fit_for_production_def judge_def run_quality_gates_def quality_failures_def below_def columns_clean
      Let_def list_ex_iff list_all_iff not_less split: option.splits)

lemma judge_refuses: "\<not> fit_for_production t \<Longrightarrow> judge t = Inl (ModelQualityError ''QUALITY_GATE'')"
  by (auto simp: fit_for_production_def judge_def run_quality_gates_def quality_failures_def below_def
      Let_def list_ex_iff list_all_iff not_less split: option.splits)

lemma judged_quality_eval:
  "judged_quality req t =
     (if fit_for_production t then Inr \<lparr>ql_passed = True, ql_ece = Some (ca_ece (tn_calibration t))\<rparr>
      else if tq_publish req then Inl (ModelQualityError ''QUALITY_GATE'')
      else Inr \<lparr>ql_passed = False, ql_ece = None\<rparr>)"
  by (simp add: judged_quality_def judge_passes judge_refuses)

subsection \<open>What a run may change\<close>

definition versions_ok :: "ModelVersion list \<Rightarrow> bool" where
  "versions_ok rows \<longleftrightarrow> distinct (map mv_version rows) \<and> length (filter mv_is_production rows) \<le> 1"

text \<open>Only the version's own directory, and the pointer and the production row when it is published.\<close>

definition changes_only :: "string \<Rightarrow> bool \<Rightarrow> TrainState \<Rightarrow> TrainState \<Rightarrow> bool" where
  "changes_only version published s s' \<longleftrightarrow>
     (\<forall>v. v \<noteq> version \<longrightarrow> v \<noteq> POINTER \<or> \<not> published \<longrightarrow> map_of (ts_dir s') v = map_of (ts_dir s) v)
     \<and> (\<not> published \<longrightarrow> get_production (ts_versions s') = get_production (ts_versions s))
     \<and> (versions_ok (ts_versions s) \<longrightarrow> versions_ok (ts_versions s'))"

interpretation publishing: step_frame "changes_only version published" for version published
  by unfold_locales (simp_all add: changes_only_def)

lemma clear_production_rows [simp]:
  "map mv_version (clear_production rows) = map mv_version rows" "filter mv_is_production (clear_production rows) = []"
  by (induction rows) (simp_all add: clear_production_def)

lemma get_production_append:
  "\<not> mv_is_production row \<Longrightarrow> get_production (rows @ [row]) = get_production rows"
  by (induction rows) (simp_all add: get_production_def)

lemma get_production_new:
  "mv_is_production row \<Longrightarrow> get_production (clear_production rows @ [row]) = Some row"
  by (induction rows) (simp_all add: get_production_def clear_production_def)

lemma version_absent:
  "get_by_version version rows = None \<longleftrightarrow> version \<notin> mv_version ` set rows"
  by (auto simp: get_by_version_def find_None_iff)

lemma not_in_production: "row' \<in> set (clear_production rows) \<Longrightarrow> \<not> mv_is_production row'"
  by (auto simp: clear_production_def)

lemma persist_total:
  "\<exists>rows'. persist_db_version url row rows = Inr rows'
    \<and> (rows' = rows \<or> url \<and> get_by_version (mv_version row) rows = None
        \<and> rows' = (if mv_is_production row then clear_production rows else rows) @ [row])
    \<and> (\<not> mv_is_production row \<longrightarrow> get_production rows' = get_production rows)"
proof (cases "url \<and> get_by_version (mv_version row) rows = None")
  case True
  let ?kept = "if mv_is_production row then clear_production rows else rows"
  have "mv_version row \<notin> mv_version ` set ?kept"
    using True by (auto simp: version_absent simp flip: set_map)
  then have "\<not> list_ex (\<lambda>r. mv_version r = mv_version row \<or> mv_is_production r \<and> mv_is_production row) ?kept"
    by (auto simp: list_ex_iff dest: not_in_production) (metis image_eqI)+
  with True have "persist_db_version url row rows = Inr (?kept @ [row])"
    by (simp add: persist_db_version_def insert_model_version_def)
  with True show ?thesis by (auto simp: get_production_append)
qed (auto simp: persist_db_version_def)

lemma persist_keeps_versions:
  assumes "persist_db_version url row rows = Inr rows'" "versions_ok rows"
  shows "versions_ok rows'"
  using persist_total [of url row rows] assms
  by (auto simp: versions_ok_def version_absent simp flip: set_map)

lemma put_files_lookup: "map_of (put_files version files d) = (map_of d)(version \<mapsto> Bundle_dir files)"
  by (simp add: put_files_def update_conv')

lemma obeys_on_dir:
  "(\<And>d d' v. f d = Inr d' \<Longrightarrow> v \<noteq> version \<Longrightarrow> v \<noteq> POINTER \<or> \<not> published \<Longrightarrow> map_of d' v = map_of d v) \<Longrightarrow>
   obeys (changes_only version published) (on_dir f)"
  by (auto simp: obeys_def on_dir_def changes_only_def split: sum.splits)

lemma obeys_on_versions:
  "published = mv_is_production row \<Longrightarrow>
   obeys (changes_only version published) (on_versions (persist_db_version url row))"
  unfolding obeys_def changes_only_def on_versions_def
  using persist_total [of url row] persist_keeps_versions [of url row]
  by (auto split: sum.splits) (metis sum.inject(2))+

lemma store_model_changes:
  "obeys (changes_only version (ql_passed quality \<and> tq_publish req)) (store_model moment url req t version quality metadata)"
  unfolding store_model_def Let_def
  by (intro publishing.frame_rules obeys_on_dir obeys_on_versions)
     (auto simp: save_bundle_def write_split_ids_def write_production_pointer_def put_files_lookup update_conv' Let_def
         version_row_def split: if_splits option.splits entry.splits)

lemma register_run:
  assumes "judged_quality req t = Inr quality" "length (tn_splits t Test) = length (tn_test_prob t)"
    and "version = chosen_version req (ts_dir s)"
  obtains direction breakdown res where
    "register_model moment url req t s =
       (case store_model moment url req t version quality (training_metadata moment req t version quality direction breakdown) s of
          (Inl e, s') \<Rightarrow> (Inl e, s') | (Inr _, s') \<Rightarrow> (Inr res, s'))"
    "tr_model_version res = version" "tr_published res = (ql_passed quality \<and> tq_publish req)"
proof -
  obtain direction breakdown where run: "directional_prediction_checks (tn_splits t Test) (tn_test_prob t) = Inr direction"
      "action_breakdown (tn_splits t Test) (tn_test_prob t) = Inr breakdown"
    using assms(2) by (simp add: directional_prediction_checks_def action_breakdown_def strict_zip_def)
  show thesis
    by (rule that, simp add: register_model_def run assms(1,3) lift_def gets_def ret_def Prelude.bind_def, simp_all add: assms(3))
qed

lemma register_refused:
  "judged_quality req t = Inl e \<Longrightarrow> register_model moment url req t s = (Inl e, s)"
  by (simp add: register_model_def Prelude.bind_def lift_def)

lemma register_unequal:
  "judged_quality req t = Inr quality \<Longrightarrow> length (tn_splits t Test) \<noteq> length (tn_test_prob t) \<Longrightarrow>
   register_model moment url req t s = (Inl ValueError, s)"
  by (simp add: register_model_def Prelude.bind_def lift_def directional_prediction_checks_def strict_zip_def)

lemma register_changes:
  assumes "register_model moment url req t s = (r, s')"
  shows "changes_only (chosen_version req (ts_dir s)) (fit_for_production t \<and> tq_publish req) s s'"
proof (cases "judged_quality req t")
  case (Inl e)
  with assms show ?thesis by (simp add: register_refused publishing.frame_refl)
next
  case (Inr quality)
  then have passed: "ql_passed quality \<longleftrightarrow> fit_for_production t" by (auto simp: judged_quality_eval split: if_splits)
  show ?thesis
  proof (cases "length (tn_splits t Test) = length (tn_test_prob t)")
    case True
    obtain direction breakdown res where run: "register_model moment url req t s =
       (case store_model moment url req t (chosen_version req (ts_dir s)) quality
          (training_metadata moment req t (chosen_version req (ts_dir s)) quality direction breakdown) s of
          (Inl e, s') \<Rightarrow> (Inl e, s') | (Inr _, s') \<Rightarrow> (Inr res, s'))"
      by (rule register_run [OF Inr True refl])
    show ?thesis
      using assms [unfolded run] store_model_changes [THEN obeysD] passed by (fastforce split: prod.splits sum.splits)
  qed (use assms register_unequal [OF Inr] in \<open>simp add: publishing.frame_refl\<close>)
qed

text \<open>Once the bundle is saved, the version's directory holds the model, however the run ends.\<close>

definition holds_model :: "string \<Rightarrow> model \<Rightarrow> models_dir \<Rightarrow> bool" where
  "holds_model version m d \<longleftrightarrow> (\<exists>files. map_of d version = Some (Bundle_dir files) \<and> bf_model files = Some (Inr m))"

lemma holds_model_steps:
  "save_bundle moment version m metadata overwrite d = Inr d' \<Longrightarrow> holds_model version m d'"
  "write_split_ids version ids d = Inr d' \<Longrightarrow> holds_model version m d \<Longrightarrow> holds_model version m d'"
  "write_production_pointer version d = Inr d' \<Longrightarrow> version \<noteq> POINTER \<Longrightarrow> holds_model version m d \<Longrightarrow> holds_model version m d'"
  by (auto simp: holds_model_def save_bundle_def write_split_ids_def write_production_pointer_def put_files_lookup
      update_conv' Let_def split: if_splits option.splits entry.splits)

definition keeps_model :: "string \<Rightarrow> model \<Rightarrow> TrainState \<Rightarrow> TrainState \<Rightarrow> bool" where
  "keeps_model version m s s' \<longleftrightarrow> (holds_model version m (ts_dir s) \<longrightarrow> holds_model version m (ts_dir s'))"

interpretation keeping: step_frame "keeps_model version m" for version m
  by unfold_locales (simp_all add: keeps_model_def)

lemma obeys_keeps_dir:
  "(\<And>d d'. f d = Inr d' \<Longrightarrow> holds_model version m d \<Longrightarrow> holds_model version m d') \<Longrightarrow> obeys (keeps_model version m) (on_dir f)"
  by (auto simp: obeys_def on_dir_def keeps_model_def split: sum.splits)

lemma obeys_keeps_versions: "obeys (keeps_model version m) (on_versions f)"
  by (auto simp: obeys_def on_versions_def keeps_model_def split: sum.splits)

lemma store_model_holds:
  assumes "store_model moment url req t version quality metadata s = (r, s')" and "version \<noteq> POINTER"
  shows "s' = s \<or> holds_model version (cn_model (tn_selected t)) (ts_dir s')"
proof (cases "save_bundle moment version (cn_model (tn_selected t)) metadata (tq_overwrite req) (ts_dir s)")
  case (Inl e)
  then show ?thesis using assms(1) by (simp add: store_model_def Let_def seqp_def Prelude.bind_def on_dir_def)
next
  case (Inr d)
  let ?rest = "seqp (on_dir (write_split_ids version (split_ids (tn_splits t))))
     (seqp (if ql_passed quality \<and> tq_publish req then on_dir (write_production_pointer version) else ret ())
           (if tq_persist_db req
            then on_versions (persist_db_version url (version_row moment req t version quality (ql_passed quality \<and> tq_publish req)))
            else ret ()))"
  have "obeys (keeps_model version (cn_model (tn_selected t))) ?rest"
    by (intro keeping.frame_rules obeys_keeps_dir obeys_keeps_versions)
       (auto intro: holds_model_steps(2) holds_model_steps(3) [OF _ assms(2)])
  moreover have "?rest (s\<lparr>ts_dir := d\<rparr>) = (r, s')"
    using assms(1) Inr by (simp add: store_model_def Let_def seqp_def Prelude.bind_def on_dir_def)
  ultimately show ?thesis using holds_model_steps(1) [OF Inr] by (fastforce simp: keeps_model_def dest: obeysD)
qed

lemma register_holds:
  assumes "register_model moment url req t s = (r, s')" and "chosen_version req (ts_dir s) \<noteq> POINTER"
  shows "s' = s \<or> holds_model (chosen_version req (ts_dir s)) (cn_model (tn_selected t)) (ts_dir s')"
proof (cases "judged_quality req t")
  case (Inl e)
  with assms show ?thesis by (simp add: register_refused)
next
  case (Inr quality)
  show ?thesis
  proof (cases "length (tn_splits t Test) = length (tn_test_prob t)")
    case True
    obtain direction breakdown res where run: "register_model moment url req t s =
       (case store_model moment url req t (chosen_version req (ts_dir s)) quality
          (training_metadata moment req t (chosen_version req (ts_dir s)) quality direction breakdown) s of
          (Inl e, s') \<Rightarrow> (Inl e, s') | (Inr _, s') \<Rightarrow> (Inr res, s'))"
      by (rule register_run [OF Inr True refl])
    show ?thesis using assms(1) [unfolded run] store_model_holds [OF _ assms(2)] by (fastforce split: prod.splits sum.splits)
  qed (use assms register_unequal [OF Inr] in simp)
qed

subsection \<open>Publication\<close>

text \<open>The rows a run works on, in their three parts; the model fitted on them; and what the gates ask of it.\<close>

definition run_splits :: "'g RandomLib \<Rightarrow> (rat \<Rightarrow> rat \<Rightarrow> rat) \<Rightarrow> TrainRequest \<Rightarrow> (split \<Rightarrow> LabeledRow list) res" where
  "run_splits rl fmul req =
     bindE (generate_cases rl (tq_seed req) (tq_n_cases req) None) (\<lambda>cases.
     bindE (expand_with_labels rl (tq_seed req) cases SCORABLE_ACTIONS)
       (split_by_customer rl fmul (tq_seed req) (70/100) (15/100)))"

definition frames_of :: "LabeledRow list \<Rightarrow> dict list" where
  "frames_of = map (\<lambda>r. feature_frame (derive_features (snapshot_of_case (lb_case r)) (lb_action r)))"

definition labels_of :: "LabeledRow list \<Rightarrow> bool list" where
  "labels_of = map lb_recovered"

definition fitted_on :: "Learner \<Rightarrow> (split \<Rightarrow> LabeledRow list) \<Rightarrow> model \<Rightarrow> bool" where
  "fitted_on sk splits m \<longleftrightarrow>
     (\<exists>est raw. sk_fit sk est (frames_of (splits Train)) (labels_of (splits Train)) = Inr raw
        \<and> sk_calibrate sk raw (frames_of (splits Validation)) (labels_of (splits Validation)) = Inr m)"

definition passes_gates :: "Learner \<Rightarrow> (rat \<Rightarrow> rat \<Rightarrow> rat) \<Rightarrow> (split \<Rightarrow> LabeledRow list) \<Rightarrow> model \<Rightarrow> bool" where
  "passes_gates sk fmul splits m \<longleftrightarrow>
     (let y = labels_of (splits Test); p = map m (frames_of (splits Test)) in
      True \<in> set y \<and> False \<in> set y \<and> list_all (\<lambda>q. 0 \<le> q \<and> q \<le> 1) p
      \<and> 60/100 \<le> sk_roc_auc_score sk y p \<and> 20/100 \<le> sk_average_precision_score sk y p
      \<and> sk_brier_score_loss sk y p \<le> 25/100
      \<and> (case calibration_curve_points fmul 10 y p of Inl _ \<Rightarrow> False | Inr c \<Rightarrow> ca_ece c \<le> 12/100)
      \<and> set (split_ids splits Train) \<inter> set (split_ids splits Test) = {})"

lemma fit_models_splits:
  "fit_models sk rl fmul req = Inr t \<Longrightarrow> run_splits rl fmul req = Inr (tn_splits t)"
  by (auto simp: fit_models_def run_splits_def bindE_Inr_iff Let_def rows_to_xy_def)

lemma split_held_out:
  "split_by_customer rl fmul seed r v rows = Inr splits \<Longrightarrow> j \<noteq> k \<Longrightarrow>
   row_customer ` set (splits j) \<inter> row_customer ` set (splits k) = {}"
  by (auto simp: split_by_customer_def Let_def split: if_splits prod.splits)

lemma run_splits_held_out:
  "run_splits rl fmul req = Inr splits \<Longrightarrow> row_customer ` set (splits Train) \<inter> row_customer ` set (splits Test) = {}"
  by (auto simp: run_splits_def bindE_Inr_iff dest!: split_held_out [where j = Train and k = Test])

lemma fit_models_candidates:
  assumes "fit_models sk rl fmul req = Inr t"
  defines "fit \<equiv> \<lambda>name est. fit_candidate sk name est (frames_of (tn_splits t Train)) (labels_of (tn_splits t Train))
     (frames_of (tn_splits t Validation)) (labels_of (tn_splits t Validation))"
  shows "fit ''logistic_regression'' logistic_pipeline = Inr (tn_logistic t)"
    "fit ''random_forest'' (forest_pipeline (tq_seed req) (tq_forest_estimators req) 12) = Inr (tn_forest t)"
    "tn_selected t = select_model (tn_logistic t) (tn_forest t)"
  using assms(1)
  by (auto simp: fit_models_def bindE_Inr_iff Let_def rows_to_xy_def frames_of_def labels_of_def comp_def fit_def)

lemma fit_candidate_fitted:
  "fit_candidate sk name est (frames_of (splits Train)) (labels_of (splits Train))
     (frames_of (splits Validation)) (labels_of (splits Validation)) = Inr c \<Longrightarrow> fitted_on sk splits (cn_model c)"
  unfolding fit_candidate_def bindE_Inr_iff fitted_on_def by (elim exE conjE) fastforce

lemma fit_models_fitted:
  "fit_models sk rl fmul req = Inr t \<Longrightarrow> fitted_on sk (tn_splits t) (cn_model (tn_selected t))"
  using fit_models_candidates [of sk rl fmul req t] fit_candidate_fitted by (auto simp: select_model_def)

lemma fit_models_test:
  assumes "fit_models sk rl fmul req = Inr t"
  defines "y \<equiv> labels_of (tn_splits t Test)" and "p \<equiv> map (cn_model (tn_selected t)) (frames_of (tn_splits t Test))"
  shows "tn_y_test t = y" "tn_test_prob t = p" "classification_metrics sk y p (1/2) = Inr (tn_test_metrics t)"
    "calibration_curve_points fmul 10 y p = Inr (tn_calibration t)"
  using assms(1)
  by (auto simp: fit_models_def bindE_Inr_iff Let_def rows_to_xy_def predict_proba_def y_def p_def frames_of_def
      labels_of_def comp_def)

lemma classification_metrics_parts:
  assumes "classification_metrics sk y p threshold = Inr m"
  shows "me_roc_auc m = (if True \<in> set y \<and> False \<in> set y then Some (sk_roc_auc_score sk y p) else None)"
    "me_pr_auc m = (if True \<in> set y then Some (sk_average_precision_score sk y p) else None)"
    "me_brier m = sk_brier_score_loss sk y p"
proof -
  have some: "filter id ys = [] \<longleftrightarrow> True \<notin> set ys" for ys by (induction ys) auto
  have other: "length (filter id ys) < length ys \<longleftrightarrow> False \<in> set ys" for ys
    by (induction ys) (auto simp: less_Suc_eq_le)
  show "me_roc_auc m = (if True \<in> set y \<and> False \<in> set y then Some (sk_roc_auc_score sk y p) else None)"
    "me_pr_auc m = (if True \<in> set y then Some (sk_average_precision_score sk y p) else None)"
    "me_brier m = sk_brier_score_loss sk y p"
    using assms by (auto simp: classification_metrics_def some other Let_def split: if_splits)
qed

lemma gates_eq:
  assumes "fit_models sk rl fmul req = Inr t"
  shows "fit_for_production t \<longleftrightarrow> passes_gates sk fmul (tn_splits t) (cn_model (tn_selected t))"
  using fit_models_test [OF assms] classification_metrics_parts [OF fit_models_test(3) [OF assms]]
  by (auto simp: fit_for_production_def passes_gates_def Let_def)

text \<open>
  C33. \<^bold>\<open>Only a model that passes every gate is published.\<close> Whatever a training run does under a version
  that is not the name of the production pointer, and whether it returns or raises, the models of other versions are
  as before. The production pointer or the production row change only when publishing was asked for and the version's
  directory now holds a model that was fitted on the training rows, calibrated on the validation rows, and passes
  every gate on the test rows, whose customers are none of the training rows: probabilities in the unit
  interval, both outcomes present, ROC AUC at least 0.60, average precision at least 0.20, Brier score at most 0.25,
  calibration error at most 0.12, and no case shared with the training rows. With publishing asked for and a gate
  failed the run raises \<^verbatim>\<open>QUALITY_GATE\<close> and changes nothing; nor does a run that fails before. Versions stay
  unique, and so does the production row.
\<close>

theorem publication_gate:
  assumes "train sk rl fmul moment url req s = (r, s')" and "chosen_version req (ts_dir s) \<noteq> POINTER"
  shows "(\<forall>v. v \<noteq> chosen_version req (ts_dir s) \<longrightarrow> v \<noteq> POINTER \<longrightarrow> map_of (ts_dir s') v = map_of (ts_dir s) v)
    \<and> (read_production_pointer (ts_dir s') \<noteq> read_production_pointer (ts_dir s)
        \<or> get_production (ts_versions s') \<noteq> get_production (ts_versions s)
       \<longrightarrow> tq_publish req \<and> (\<exists>splits m. run_splits rl fmul req = Inr splits \<and> fitted_on sk splits m
             \<and> row_customer ` set (splits Train) \<inter> row_customer ` set (splits Test) = {}
             \<and> passes_gates sk fmul splits m \<and> holds_model (chosen_version req (ts_dir s)) m (ts_dir s')))
    \<and> (\<forall>t. fit_models sk rl fmul req = Inr t \<and> tq_publish req
         \<and> \<not> passes_gates sk fmul (tn_splits t) (cn_model (tn_selected t)) \<longrightarrow>
         r = Inl (ModelQualityError ''QUALITY_GATE'') \<and> s' = s)
    \<and> (\<forall>e. fit_models sk rl fmul req = Inl e \<longrightarrow> r = Inl e \<and> s' = s)
    \<and> (versions_ok (ts_versions s) \<longrightarrow> versions_ok (ts_versions s'))"
proof (cases "fit_models sk rl fmul req")
  case (Inl e)
  then have "r = Inl e \<and> s' = s" using assms(1) by (simp add: train_def Prelude.bind_def lift_def)
  with Inl show ?thesis by simp
next
  case (Inr t)
  then have run: "register_model moment url req t s = (r, s')"
    using assms(1) by (simp add: train_def Prelude.bind_def lift_def)
  note change = register_changes [OF run] and gates = gates_eq [OF Inr] and splits = fit_models_splits [OF Inr]
  have refused: "r = Inl (ModelQualityError ''QUALITY_GATE'') \<and> s' = s" if "tq_publish req" "\<not> fit_for_production t"
    using run register_refused [of req t "ModelQualityError ''QUALITY_GATE''" moment url s] that
    by (simp add: judged_quality_eval)
  have "map_of (ts_dir s') POINTER = map_of (ts_dir s) POINTER" if "\<not> (tq_publish req \<and> fit_for_production t)"
    using change that assms(2) by (auto simp: changes_only_def)
  then have same: "read_production_pointer (ts_dir s') = read_production_pointer (ts_dir s)"
      "get_production (ts_versions s') = get_production (ts_versions s)" if "\<not> (tq_publish req \<and> fit_for_production t)"
    using that change by (auto simp: read_production_pointer_def changes_only_def)
  let ?new = "read_production_pointer (ts_dir s') \<noteq> read_production_pointer (ts_dir s)
      \<or> get_production (ts_versions s') \<noteq> get_production (ts_versions s)"
  have published: "tq_publish req" "passes_gates sk fmul (tn_splits t) (cn_model (tn_selected t))"
      "holds_model (chosen_version req (ts_dir s)) (cn_model (tn_selected t)) (ts_dir s')" if ?new
    using that same register_holds [OF run assms(2)] gates by auto
  have "\<exists>splits m. run_splits rl fmul req = Inr splits \<and> fitted_on sk splits m
      \<and> row_customer ` set (splits Train) \<inter> row_customer ` set (splits Test) = {}
      \<and> passes_gates sk fmul splits m \<and> holds_model (chosen_version req (ts_dir s)) m (ts_dir s')" if ?new
    using published [OF that] splits fit_models_fitted [OF Inr] run_splits_held_out [OF splits] by blast
  then have "?new \<longrightarrow> tq_publish req \<and> (\<exists>splits m. run_splits rl fmul req = Inr splits \<and> fitted_on sk splits m
      \<and> row_customer ` set (splits Train) \<inter> row_customer ` set (splits Test) = {}
      \<and> passes_gates sk fmul splits m \<and> holds_model (chosen_version req (ts_dir s)) m (ts_dir s'))"
    using published(1) by blast
  moreover have "\<forall>t'. fit_models sk rl fmul req = Inr t' \<and> tq_publish req
      \<and> \<not> passes_gates sk fmul (tn_splits t') (cn_model (tn_selected t')) \<longrightarrow>
      r = Inl (ModelQualityError ''QUALITY_GATE'') \<and> s' = s"
    using refused gates Inr by simp
  moreover have "\<forall>e. fit_models sk rl fmul req = Inl e \<longrightarrow> r = Inl e \<and> s' = s" using Inr by simp
  moreover have "\<forall>v. v \<noteq> chosen_version req (ts_dir s) \<longrightarrow> v \<noteq> POINTER \<longrightarrow> map_of (ts_dir s') v = map_of (ts_dir s) v"
      "versions_ok (ts_versions s) \<longrightarrow> versions_ok (ts_versions s')"
    using change by (simp_all add: changes_only_def)
  ultimately show ?thesis by (intro conjI)
qed

subsection \<open>A published model serves\<close>

lemma digits_nonneg: "list_all is_digit cs \<Longrightarrow> 0 \<le> a \<Longrightarrow> 0 \<le> foldl (\<lambda>a d. a * 10 + digit_val d) a cs"
  by (induction cs arbitrary: a) (auto simp: is_digit_def digit_val_def Let_def)

lemma digit_char: "k < 10 \<Longrightarrow> is_digit (char_of (48 + k :: nat)) \<and> digit_val (char_of (48 + k)) = int k"
  by (simp add: is_digit_def digit_val_def)

lemma show_nat_reads:
  "show_nat n \<noteq> [] \<and> list_all is_digit (show_nat n) \<and> foldl (\<lambda>a d. a * 10 + digit_val d) 0 (show_nat n) = int n"
proof (induction n rule: show_nat.induct)
  case (1 n)
  show ?case
  proof (cases "n < 10")
    case True
    then show ?thesis by (simp add: show_nat.simps [of n] digit_char)
  next
    case False
    then show ?thesis using 1 digit_char [of "n mod 10"] by (simp add: show_nat.simps [of n] zdiv_int zmod_int)
  qed
qed

lemma version_number_show: "0 \<le> i \<Longrightarrow> version_number pre (pre @ show_int i) = Some i"
  using show_nat_reads [of "nat i"] by (simp add: version_number_def show_int_def)

lemma version_number_nonneg: "version_number pre name = Some i \<Longrightarrow> 0 \<le> i"
  by (auto simp: version_number_def Let_def intro: digits_nonneg split: if_splits)

lemma next_version_number:
  obtains i where "next_model_version pre d = pre @ show_int i" "0 \<le> i" "\<forall>name \<in> fst ` set d. version_number pre name \<noteq> Some i"
proof -
  define existing where "existing = List.map_filter (version_number pre \<circ> fst) d"
  have member: "i \<in> set existing \<longleftrightarrow> (\<exists>name \<in> fst ` set d. version_number pre name = Some i)" for i
    by (force simp: existing_def List.map_filter_def)
  define i where "i = (if existing = [] then 1 else Max (set existing) + 1)"
  have "next_model_version pre d = pre @ show_int i"
    by (simp add: next_model_version_def existing_def i_def Let_def)
  moreover have "0 \<le> i"
  proof (cases "existing = []")
    case False
    then have "Max (set existing) \<in> set existing" by simp
    then have "0 \<le> Max (set existing)" unfolding member by (auto dest: version_number_nonneg)
    then show ?thesis by (simp add: i_def)
  qed (simp add: i_def)
  moreover have "i \<notin> set existing"
  proof
    assume "i \<in> set existing"
    then have "existing \<noteq> []" "i \<le> Max (set existing)" by (auto intro: Max_ge)
    then show False by (simp add: i_def)
  qed
  ultimately show thesis using that member by blast
qed

lemma next_version_fresh: "map_of d (next_model_version pre d) = None"
proof -
  obtain i where i: "next_model_version pre d = pre @ show_int i" "0 \<le> i"
    "\<forall>name \<in> fst ` set d. version_number pre name \<noteq> Some i" by (rule next_version_number)
  then show ?thesis using version_number_show [OF i(2), of pre] by (auto simp: map_of_eq_None_iff)
qed

text \<open>A version that is a plain name and is not in the way of another file.\<close>

definition plain_version :: "string \<Rightarrow> bool" where
  "plain_version v \<longleftrightarrow> v \<noteq> [] \<and> strip v = v \<and> v \<noteq> POINTER"

lemma strip_plain: "cs \<noteq> [] \<Longrightarrow> \<not> is_space (hd cs) \<Longrightarrow> \<not> is_space (last cs) \<Longrightarrow> strip cs = cs"
proof -
  assume cs: "cs \<noteq> []" "\<not> is_space (hd cs)" "\<not> is_space (last cs)"
  then have "dropWhile is_space cs = cs" by (cases cs) auto
  moreover have "dropWhile is_space (rev cs) = rev cs" using cs by (cases "rev cs") (auto simp: last_rev [symmetric])
  ultimately show ?thesis by (simp add: strip_def)
qed

lemma digit_no_space: "is_digit c \<Longrightarrow> \<not> is_space c"
  by (auto simp: is_digit_def is_space_def Let_def)

lemma next_version_plain: "plain_version (next_model_version VERSION_PREFIX d)"
proof -
  obtain i where i: "next_model_version VERSION_PREFIX d = VERSION_PREFIX @ show_int i" "0 \<le> i"
    by (rule next_version_number)
  have digits: "show_int i \<noteq> []" "list_all is_digit (show_int i)"
    using i(2) show_nat_reads [of "nat i"] by (simp_all add: show_int_def)
  have r: "\<not> is_space (CHR ''r'')" by code_simp
  have "is_digit (last (show_int i))" using digits by (simp add: list_all_iff)
  then have "strip (VERSION_PREFIX @ show_int i) = VERSION_PREFIX @ show_int i"
    using digits(1) r by (intro strip_plain) (simp_all add: VERSION_PREFIX_def digit_no_space)
  then show ?thesis unfolding i(1) plain_version_def by (simp add: VERSION_PREFIX_def POINTER_def)
qed

definition storable :: "TrainRequest \<Rightarrow> models_dir \<Rightarrow> bool" where
  "storable req d \<longleftrightarrow>
     (case tq_model_version req of
        None \<Rightarrow> True
      | Some v \<Rightarrow> v = [] \<or> plain_version v \<and> (case map_of d v of
            None \<Rightarrow> True | Some (Bundle_dir _) \<Rightarrow> tq_overwrite req | Some (Text_file _) \<Rightarrow> False))"

lemma storable_version:
  assumes "storable req d"
  shows "plain_version (chosen_version req d)"
    and "case map_of d (chosen_version req d) of
      None \<Rightarrow> True | Some (Bundle_dir _) \<Rightarrow> tq_overwrite req | Some (Text_file _) \<Rightarrow> False"
  using assms next_version_plain [of d] next_version_fresh [of d VERSION_PREFIX]
  by (auto simp: storable_def chosen_version_def split: option.splits entry.splits)

lemma save_bundle_stores:
  assumes "case map_of d version of None \<Rightarrow> True | Some (Bundle_dir _) \<Rightarrow> overwrite | Some (Text_file _) \<Rightarrow> False"
  obtains files where "save_bundle moment version model metadata overwrite d = Inr (put_files version files d)"
    "bf_model files = Some (Inr model)" "bf_metadata files = Some (Inr (saved_metadata moment version metadata))"
proof (cases "map_of d version")
  case None
  then show thesis by (intro that, simp add: save_bundle_def, simp_all)
next
  case (Some e)
  with assms obtain files where "map_of d version = Some (Bundle_dir files)" "overwrite" by (cases e) auto
  then show thesis by (intro that, simp add: save_bundle_def, simp_all)
qed

lemma store_model_published:
  assumes "ql_passed quality" "tq_publish req"
    and "case map_of (ts_dir s) version of None \<Rightarrow> True | Some (Bundle_dir _) \<Rightarrow> tq_overwrite req | Some (Text_file _) \<Rightarrow> False"
    and "version \<noteq> POINTER" "\<forall>files. map_of (ts_dir s) POINTER \<noteq> Some (Bundle_dir files)"
  obtains files s' where "store_model moment url req t version quality metadata s = (Inr (), s')"
    "map_of (ts_dir s') POINTER = Some (Text_file version)" "map_of (ts_dir s') version = Some (Bundle_dir files)"
    "bf_model files = Some (Inr (cn_model (tn_selected t)))"
    "bf_metadata files = Some (Inr (saved_metadata moment version metadata))"
    "if tq_persist_db req
     then persist_db_version url (version_row moment req t version quality True) (ts_versions s) = Inr (ts_versions s')
     else ts_versions s' = ts_versions s"
proof -
  obtain files where files: "save_bundle moment version (cn_model (tn_selected t)) metadata (tq_overwrite req) (ts_dir s)
      = Inr (put_files version files (ts_dir s))"
    "bf_model files = Some (Inr (cn_model (tn_selected t)))" "bf_metadata files = Some (Inr (saved_metadata moment version metadata))"
    by (rule save_bundle_stores [OF assms(3)])
  define files' where "files' = files\<lparr>bf_split_ids := Some (split_ids (tn_splits t))\<rparr>"
  define d where "d = AList.update POINTER (Text_file version) (put_files version files' (put_files version files (ts_dir s)))"
  have ids: "write_split_ids version (split_ids (tn_splits t)) (put_files version files (ts_dir s))
      = Inr (put_files version files' (put_files version files (ts_dir s)))"
    by (simp add: write_split_ids_def put_files_lookup files'_def)
  have pointer: "write_production_pointer version (put_files version files' (put_files version files (ts_dir s))) = Inr d"
    using assms(4,5) by (auto simp: write_production_pointer_def put_files_lookup d_def split: option.splits entry.splits)
  obtain rows where rows: "persist_db_version url (version_row moment req t version quality True) (ts_versions s) = Inr rows"
    using persist_total by blast
  define s' where "s' = s\<lparr>ts_dir := d, ts_versions := if tq_persist_db req then rows else ts_versions s\<rparr>"
  have "store_model moment url req t version quality metadata s = (Inr (), s')"
    using assms(1,2)
    by (simp add: store_model_def on_dir_def on_versions_def seqp_def Prelude.bind_def ret_def files(1) ids pointer rows s'_def)
  then show thesis
    by (rule that [of _ files']) (use files assms(4) rows in \<open>simp_all add: s'_def d_def files'_def update_conv' put_files_lookup\<close>)
qed

lemma persist_published:
  assumes "persist_db_version True (version_row moment req t version quality True) rows = Inr rows'"
  shows "case get_by_version version rows of
      Some _ \<Rightarrow> rows' = rows | None \<Rightarrow> get_production rows' = Some (version_row moment req t version quality True)"
proof -
  have "mv_version (version_row moment req t version quality True) = version"
    "mv_is_production (version_row moment req t version quality True)" by (simp_all add: version_row_def)
  then show ?thesis
    using assms
    by (auto simp: persist_db_version_def insert_model_version_def get_production_new
        split: if_splits option.splits dest!: sym [of _ rows'])
qed

lemma ml_predict_named:
  assumes "dict_get (ml_metadata b) ''model_version'' = JStr v" "v \<noteq> []"
    and "0 \<le> ml_predict_proba b (derive_features ctx (action_value a))" "ml_predict_proba b (derive_features ctx (action_value a)) \<le> 1"
  shows "\<exists>rp. predict_recovery_probability h (Inr b) fallback ctx (action_value a) = Inr rp
    \<and> rp_probability rp = ml_predict_proba b (derive_features ctx (action_value a)) \<and> rp_source rp = ''ml''
    \<and> rp_model_version rp = v"
  using assms by (cases a) (simp_all add: predict_recovery_probability_def parse_known_action_def all_actions_def
      ml_predict_def validate_probability_def feature_frame_features Let_def json_str_def)

lemma saved_values:
  "dict_get (md_values (saved_metadata moment version (training_metadata moment req t v quality direction breakdown))) ''model_version'' = JStr version"
  "dict_get (md_values (saved_metadata moment version (training_metadata moment req t v quality direction breakdown))) ''feature_version'' = JStr FEATURE_VERSION"
  by (simp_all add: saved_metadata_def training_metadata_def dict_get_def)

text \<open>
  C34. \<^bold>\<open>A published model is the one that predicts.\<close> When publishing is asked for, every gate is
  passed and the version is new (or may be overwritten), the run returns and the production bundle is the selected
  model: every known action is then predicted by it, under its version, as long as it stays within the
  unit interval. A default version is always new. The database row follows only when the version has none yet;
  a version trained again moves the pointer and leaves the rows as they were.
\<close>

theorem published_model_serves:
  assumes "tq_publish req" and "fit_for_production t" and "length (tn_splits t Test) = length (tn_test_prob t)"
    and "storable req (ts_dir s)" and "\<forall>files. map_of (ts_dir s) POINTER \<noteq> Some (Bundle_dir files)"
  shows "\<exists>res s' b. register_model moment url req t s = (Inr res, s') \<and> tr_published res
    \<and> tr_model_version res = chosen_version req (ts_dir s)
    \<and> load_bundle None (ts_dir s') = Inr b \<and> ml_predict_proba b = cn_model (tn_selected t)
    \<and> (\<forall>h fallback ctx a. let p = cn_model (tn_selected t) (derive_features ctx (action_value a)) in
        0 \<le> p \<and> p \<le> 1 \<longrightarrow>
        (\<exists>rp. predict_recovery_probability h (load_bundle None (ts_dir s')) fallback ctx (action_value a) = Inr rp
          \<and> rp_probability rp = p \<and> rp_source rp = ''ml'' \<and> rp_model_version rp = chosen_version req (ts_dir s)))
    \<and> (tq_persist_db req \<and> url \<longrightarrow>
        (case get_by_version (chosen_version req (ts_dir s)) (ts_versions s) of
           Some _ \<Rightarrow> ts_versions s' = ts_versions s
         | None \<Rightarrow> get_production (ts_versions s')
             = Some (version_row moment req t (chosen_version req (ts_dir s))
                 \<lparr>ql_passed = True, ql_ece = Some (ca_ece (tn_calibration t))\<rparr> True)))"
proof -
  define version where "version = chosen_version req (ts_dir s)"
  define quality where "quality = \<lparr>ql_passed = True, ql_ece = Some (ca_ece (tn_calibration t))\<rparr>"
  have judged: "judged_quality req t = Inr quality" by (simp add: judged_quality_eval assms(2) quality_def)
  have passed: "ql_passed quality" by (simp add: quality_def)
  have plain: "version \<noteq> []" "strip version = version" "version \<noteq> POINTER"
    using storable_version(1) [OF assms(4)] by (simp_all add: plain_version_def version_def)
  obtain direction breakdown res where run: "register_model moment url req t s =
       (case store_model moment url req t version quality (training_metadata moment req t version quality direction breakdown) s of
          (Inl e, s') \<Rightarrow> (Inl e, s') | (Inr _, s') \<Rightarrow> (Inr res, s'))"
    and res: "tr_model_version res = version" "tr_published res = (ql_passed quality \<and> tq_publish req)"
    by (rule register_run [OF judged assms(3) version_def])
  define metadata where "metadata = training_metadata moment req t version quality direction breakdown"
  obtain files s' where stored: "store_model moment url req t version quality metadata s = (Inr (), s')"
      "map_of (ts_dir s') POINTER = Some (Text_file version)" "map_of (ts_dir s') version = Some (Bundle_dir files)"
      "bf_model files = Some (Inr (cn_model (tn_selected t)))"
      "bf_metadata files = Some (Inr (saved_metadata moment version metadata))"
    and rows: "if tq_persist_db req
      then persist_db_version url (version_row moment req t version quality True) (ts_versions s) = Inr (ts_versions s')
      else ts_versions s' = ts_versions s"
    by (rule store_model_published [OF passed assms(1) storable_version(2) [OF assms(4), folded version_def] plain(3) assms(5)])
  define b where "b = \<lparr>ml_predict_proba = cn_model (tn_selected t), ml_metadata = md_values (saved_metadata moment version metadata)\<rparr>"
  have loaded: "load_bundle None (ts_dir s') = Inr b"
    using stored plain by (simp add: load_bundle_def load_files_def read_production_pointer_def b_def)
  have "register_model moment url req t s = (Inr res, s')" using run stored(1) by (simp add: metadata_def)
  moreover have "\<exists>rp. predict_recovery_probability h (load_bundle None (ts_dir s')) fallback ctx (action_value a) = Inr rp
      \<and> rp_probability rp = cn_model (tn_selected t) (derive_features ctx (action_value a)) \<and> rp_source rp = ''ml''
      \<and> rp_model_version rp = version"
    if "0 \<le> cn_model (tn_selected t) (derive_features ctx (action_value a))"
      "cn_model (tn_selected t) (derive_features ctx (action_value a)) \<le> 1" for h fallback ctx a
    using ml_predict_named [of b version ctx a h fallback] that plain(1)
    unfolding loaded by (simp add: b_def metadata_def saved_values)
  moreover have "case get_by_version version (ts_versions s) of
      Some _ \<Rightarrow> ts_versions s' = ts_versions s
    | None \<Rightarrow> get_production (ts_versions s') = Some (version_row moment req t version quality True)"
    if "tq_persist_db req \<and> url"
    using rows that persist_published by simp
  moreover have "tr_published res" "ml_predict_proba b = cn_model (tn_selected t)"
    using res(2) passed assms(1) by (simp_all add: b_def)
  ultimately show ?thesis
    using res(1) loaded unfolding quality_def [symmetric] version_def [symmetric] Let_def by blast
qed

text \<open>What fitting hands over: predictions in the unit interval, one for each held-out row.\<close>

lemma classification_metrics_unit:
  "classification_metrics sk y p t = Inr m \<Longrightarrow> list_all (\<lambda>p. 0 \<le> p \<and> p \<le> 1) p"
  by (auto simp: classification_metrics_def list_ex_iff list_all_iff not_less Let_def split: if_splits)

lemma fit_models_consistent:
  assumes "fit_models sk rl fmul req = Inr t"
  shows "length (tn_splits t Test) = length (tn_test_prob t)" "tn_y_test t = map lb_recovered (tn_splits t Test)"
    "list_all (\<lambda>p. 0 \<le> p \<and> p \<le> 1) (tn_test_prob t)" "tn_selected t = select_model (tn_logistic t) (tn_forest t)"
  using assms
  by (auto simp: fit_models_def bindE_Inr_iff Let_def rows_to_xy_def predict_proba_def dest: classification_metrics_unit)

lemma train_outcome:
  assumes "train sk rl fmul moment url req s = (r, s')"
  shows "(\<exists>e. fit_models sk rl fmul req = Inl e \<and> r = Inl e \<and> s' = s)
    \<or> (\<exists>t. fit_models sk rl fmul req = Inr t \<and> register_model moment url req t s = (r, s'))"
  using assms by (cases "fit_models sk rl fmul req") (auto simp: train_def Prelude.bind_def lift_def)

text \<open>A process that has loaded the production model keeps it, whatever is published afterwards.\<close>

lemma production_cache_stale:
  "load_pipeline None d cache = (Inr b, cache') \<Longrightarrow> load_pipeline None d' cache' = (Inr b, cache')"
  by (auto simp: load_pipeline_def Let_def split: option.splits sum.splits)

text \<open>The console always has a report while the pointer is readable; the row in production comes first.\<close>

lemma batch_report_total:
  assumes "random_laws rl" "1 \<le> n_cases"
  shows "\<exists>report. run_batch_evaluation_service h ml rl n_cases seed mode multi = Inr report"
proof -
  have batch: "\<exists>r. evaluate_batch h ml rl n_cases i mode = Inr r" for i
    by (rule evaluate_batch_run [OF assms]) blast
  have "\<exists>ys. map_res (\<lambda>i. bindE (evaluate_batch h ml rl n_cases i mode) (\<lambda>res. Inr (seed_summary i res))) EVALUATION_SEEDS = Inr ys
      \<and> list_all2 (\<lambda>_ _. True) EVALUATION_SEEDS ys"
    by (rule map_res_total) (metis batch bindE_simps(2))
  with batch [of seed] show ?thesis by (auto simp: run_batch_evaluation_service_def)
qed

lemma latest_evaluation_total:
  assumes "random_laws rl" "read_production_pointer (ts_dir s) = Inr pointer"
  shows "\<exists>e. latest_evaluation h rl s = Inr e
    \<and> (\<forall>row. get_production (ts_versions s) = Some row \<longrightarrow> le_model_version e = JStr (mv_version row) \<and> le_test e = Some (mv_test row))"
proof -
  obtain report where "run_batch_evaluation_service h (load_bundle None (ts_dir s)) rl 100 42 ''ml'' True = Inr report"
    using batch_report_total [OF assms(1)] by fastforce
  with assms(2) show ?thesis by (simp add: latest_evaluation_def pointed_metadata_def Let_def)
qed

subsection \<open>A concrete run\<close>

definition demo_metrics :: Metrics where
  "demo_metrics = \<lparr>me_roc_auc = Some (80/100), me_pr_auc = Some (60/100), me_brier = 15/100, me_precision = 1,
     me_recall = 1, me_positive_rate = 1/2, me_threshold = 1/2, me_confusion_matrix = [[1, 0], [0, 1]], me_n = 2\<rparr>"

definition demo_candidate :: Candidate where
  "demo_candidate = \<lparr>cn_name = ''logistic_regression'', cn_model = (\<lambda>_. 1/2), cn_val_metrics = demo_metrics\<rparr>"

definition demo_trained :: "(split \<Rightarrow> LabeledRow list) \<Rightarrow> rat \<Rightarrow> Trained" where
  "demo_trained splits ece = \<lparr>tn_splits = splits, tn_logistic = demo_candidate, tn_forest = demo_candidate,
     tn_selected = demo_candidate, tn_y_test = [True, False], tn_test_prob = replicate (length (splits Test)) (1/2),
     tn_test_metrics = demo_metrics, tn_calibration = \<lparr>ca_bins = [], ca_ece = ece, ca_max_abs_gap = ece\<rparr>, tn_n_rows = 2\<rparr>"

definition demo_request :: "string option \<Rightarrow> TrainRequest" where
  "demo_request version = \<lparr>tq_seed = 42, tq_n_cases = 100, tq_model_version = version, tq_overwrite = False,
     tq_forest_estimators = 80, tq_persist_db = True, tq_publish = True\<rparr>"

lemma demo_fit: "fit_for_production (demo_trained (\<lambda>_. []) (5/100))" "\<not> fit_for_production (demo_trained (\<lambda>_. []) (20/100))"
  by (simp_all add: fit_for_production_def demo_trained_def demo_metrics_def split_ids_def)

definition demo_learner :: Learner where
  "demo_learner = \<lparr>sk_fit = (\<lambda>_ _ _. Inl ValueError), sk_calibrate = (\<lambda>m _ _. Inr m), sk_roc_auc_score = (\<lambda>_ _. 1/2),
     sk_average_precision_score = (\<lambda>_ _. 1/2), sk_brier_score_loss = (\<lambda>_ _. 1/4), sk_precision_score = (\<lambda>_ _. 1),
     sk_recall_score = (\<lambda>_ _. 1), sk_confusion_matrix = (\<lambda>_ _. [])\<rparr>"

theorem publication_gate_witness:
  "map_of (ts_dir (snd (train demo_learner demo_random (*) 0 True (demo_request (Some ''recovery-v9''))
       \<lparr>ts_dir = [(POINTER, Text_file ''recovery-v1''), (''recovery-v1'', Bundle_dir no_files)], ts_versions = []\<rparr>))) ''recovery-v1''
     = Some (Bundle_dir no_files)
   \<and> read_production_pointer (ts_dir (snd (train demo_learner demo_random (*) 0 True (demo_request (Some ''recovery-v9''))
       \<lparr>ts_dir = [(POINTER, Text_file ''recovery-v1''), (''recovery-v1'', Bundle_dir no_files)], ts_versions = []\<rparr>)))
     = Inr (Some ''recovery-v1'')"
proof -
  let ?s = "\<lparr>ts_dir = [(POINTER, Text_file ''recovery-v1''), (''recovery-v1'', Bundle_dir no_files)], ts_versions = []\<rparr>"
  let ?req = "demo_request (Some ''recovery-v9'')"
  obtain r s' where run: "train demo_learner demo_random (*) 0 True ?req ?s = (r, s')" by (rule prod.exhaust)
  have version: "chosen_version ?req (ts_dir ?s) = ''recovery-v9''" "''recovery-v9'' \<noteq> POINTER" "''recovery-v1'' \<noteq> POINTER"
    by (simp_all add: demo_request_def chosen_version_def POINTER_def)
  note gate = publication_gate [OF run, unfolded version, OF version(2)]
  have "\<not> fitted_on demo_learner splits m" for splits m by (simp add: fitted_on_def demo_learner_def)
  then have "read_production_pointer (ts_dir s') = read_production_pointer (ts_dir ?s)"
    using gate [THEN conjunct2, THEN conjunct1] by blast
  then have "read_production_pointer (ts_dir s') = Inr (Some ''recovery-v1'')"
    by (simp add: read_production_pointer_def) code_simp
  moreover have "map_of (ts_dir s') ''recovery-v1'' = map_of (ts_dir ?s) ''recovery-v1''"
    using gate [THEN conjunct1] version(3) by simp
  ultimately show ?thesis using version(3) unfolding run by simp
qed

theorem published_model_serves_witness:
  "\<exists>res s' b. register_model 0 True (demo_request None) (demo_trained (\<lambda>_. []) (5/100))
       \<lparr>ts_dir = [(POINTER, Text_file ''recovery-v1''), (''recovery-v1'', Bundle_dir no_files)], ts_versions = []\<rparr> = (Inr res, s')
     \<and> tr_model_version res = ''recovery-v2'' \<and> load_bundle None (ts_dir s') = Inr b
     \<and> map_option mv_version (get_production (ts_versions s')) = Some ''recovery-v2''"
proof -
  let ?s = "\<lparr>ts_dir = [(POINTER, Text_file ''recovery-v1''), (''recovery-v1'', Bundle_dir no_files)], ts_versions = []\<rparr>"
  have version: "chosen_version (demo_request None) (ts_dir ?s) = ''recovery-v2''"
    by code_simp
  have "\<forall>files. map_of (ts_dir ?s) POINTER \<noteq> Some (Bundle_dir files)" by simp
  moreover have "storable (demo_request None) (ts_dir ?s)" by (simp add: storable_def demo_request_def)
  ultimately show ?thesis
    using published_model_serves [of "demo_request None" "demo_trained (\<lambda>_. []) (5/100)" ?s 0 True] demo_fit(1)
    unfolding version
    by (fastforce simp: demo_request_def demo_trained_def get_by_version_def version_row_def)
qed

end
