(* ===== verification/Spec2Isabelle.thy ===== *)
theory Spec2Isabelle
  imports Views AgentGates Training
begin

text \<open>
  \<^bold>\<open>RecoverAI (ReviveX): a verification development of the payment recovery backend.\<close>

  The program receives payment provider events, stores each once, turns failed payments into
  recovery cases, walks every case through a policy-checked lifecycle, and credits recovered
  revenue only when a captured payment is verified against the case. This library models that
  core from the Python sources and proves what makes it correct.

  \<^bold>\<open>Parts and theories\<close>, in the order of their dependencies; paths are below \<^verbatim>\<open>src/packages\<close>, and
  \<^verbatim>\<open>domain\<close>, \<^verbatim>\<open>db\<close> stand for \<^verbatim>\<open>domain/recoverai_domain\<close> and \<^verbatim>\<open>db/recoverai_db\<close>.

  \<^item> \<open>Prelude\<close>: exceptions (\<^verbatim>\<open>domain/errors.py\<close>), the state-and-exception monad, the two contracts
    \<open>obeys\<close> (a relation between session before and after) and \<open>keeps\<close> (an invariant), strings, keyed
    tables.
  \<^item> \<open>Money\<close> (\<^verbatim>\<open>domain/money.py\<close>, \<^verbatim>\<open>db/types.py\<close>): quantisation of decimals as exact rationals.
  \<^item> \<open>Enums\<close>, \<open>Schema\<close>, \<open>Repository\<close> (\<^verbatim>\<open>db/enums.py\<close>, \<^verbatim>\<open>db/models\<close>, \<^verbatim>\<open>db/repositories\<close>,
    \<^verbatim>\<open>domain/audit_write.py\<close>): the tables as records in one record \<open>db\<close>, the queries, the append-only
    audit trail, and the locale \<open>case_evolution\<close>: which changes to a case row a component may make.
  \<^item> \<open>StateMachine\<close> (\<^verbatim>\<open>domain/state_machine.py\<close>, \<^verbatim>\<open>domain/transitions.py\<close>): the legal transitions and
    \<open>transition_case\<close> with its optimistic version check; three interpretations of \<open>case_evolution\<close>:
    \<open>case_lifecycle\<close> (what everything keeps), \<open>case_no_credit\<close> (no revenue), \<open>case_mark\<close> in between.
  \<^item> \<open>Integrity\<close>: the invariants \<open>db_ok\<close> (keys, non-negative two-decimal amounts, recovered at most
    at risk, one open case per subject, the constraints of the schema) and \<open>credit_ok\<close> (recovered
    revenue names its payment, no payment counts twice, a recovered case recovered everything).
  \<^item> \<open>Config\<close>, \<open>Policy\<close> (\<^verbatim>\<open>domain/recovery_config.py\<close>, \<^verbatim>\<open>domain/policy_engine.py\<close>,
    \<^verbatim>\<open>domain/policy_context.py\<close>): settings and the rule engine, refined to a declarative policy.
  \<^item> \<open>Processor\<close> (\<^verbatim>\<open>domain/processor.py\<close>): the walk of a case to its policy verdict.
  \<^item> \<open>Verification\<close> (\<^verbatim>\<open>domain/verification.py\<close>): matching a capture with a case and crediting it.
  \<^item> \<open>Events\<close>, \<open>Processing\<close>, \<open>Ingestion\<close> (\<^verbatim>\<open>domain/normalize.py\<close>, \<^verbatim>\<open>domain/processing.py\<close>,
    \<^verbatim>\<open>domain/ingestion.py\<close>): provider events from acceptance to payments, cases and follow-up jobs.
  \<^item> \<open>Worker\<close> (\<^verbatim>\<open>apps/worker/recoverai_worker/jobs.py\<close>, \<^verbatim>\<open>domain/followups.py\<close>): transactions, retries and
    follow-ups around the services.
  \<^item> \<open>Simulator\<close> (\<^verbatim>\<open>providers/recoverai_providers\<close>): requests and snapshots, capture and recovery
    probabilities, identifiers and events, and the in-memory provider behind the locale
    \<open>payment_provider\<close>.
  \<^item> \<open>Tools\<close> (\<^verbatim>\<open>domain/tools\<close>: permissions, registry, schemas, idempotency): the tool registry, input
    validation, request hashes, and idempotency keys behind the locale \<open>idempotency_store\<close>; the contract
    \<open>creditless\<close> of everything that must not touch revenue.
  \<^item> \<open>Prediction\<close> (\<^verbatim>\<open>eval/recoverai_eval\<close>: schema, features, inference): case contexts, features, the rule
    based fallback and stored predictions; the trained model is a parameter.
  \<^item> \<open>Handlers\<close>, \<open>Execution\<close>, \<open>ToolGate\<close>, \<open>Approvals\<close> (\<^verbatim>\<open>domain/tools\<close>: handlers, execution, approvals): the
    tools, the only way to run one, the guarantees of that way (policy gate, one run per key; locales
    \<open>outside_actions\<close> to \<open>outside_tools\<close> say which tables a step leaves alone), and operator decisions.
  \<^item> \<open>Ranking\<close>, \<open>Optimizer\<close> (\<^verbatim>\<open>domain/optimizer\<close>): cost settings, expected recovery value and the choice of an
    action; the service that finds a probability for every candidate (stored, given or predicted), asks
    the policy engine about it and stores the decision. The locales \<open>outside_scoring\<close> and
    \<open>outside_ranking\<close> say which tables it leaves alone.
  \<^item> \<open>Agents\<close> (\<^verbatim>\<open>domain/agents\<close>): budgets, fencing of untrusted text, the retry loop around a language model
    (a parameter that may answer anything), validation of its answers, the rule-based fallbacks, and
    the triage, diagnosis, strategy and explanation agents.
  \<^item> \<open>Orchestrator\<close> (\<^verbatim>\<open>domain/agents\<close>: orchestrator, persist, gateway, analyst): the bounded run of the agents on a
    case and its record; total correctness is stated with \<open>completes\<close>, frames with the locale
    \<open>outside_agents\<close>.
  \<^item> \<open>Simulation\<close> (\<^verbatim>\<open>apps/api/recoverai_api/events\<close>, \<^verbatim>\<open>domain/fixtures.py\<close>): webhooks, simulated payments and
    scenarios, with the demo merchants and customers they create.
  \<^item> \<open>Operator\<close> (\<^verbatim>\<open>apps/api/recoverai_api/operator\<close>): stored policies, the command center, paged lists and
    the timeline of a case.
  \<^item> \<open>Api\<close> (\<^verbatim>\<open>apps/api/recoverai_api\<close>: recovery, operator and event routers, \<^verbatim>\<open>deps.py\<close>): the requests that change
    state, their responses and the transaction around a request.
  \<^item> \<open>Views\<close> (\<^verbatim>\<open>apps/api/recoverai_api/operator\<close>: service, router, serialize): the views of one case and the audit search.
  \<^item> \<open>AgentGates\<close> (\<^verbatim>\<open>domain/agents\<close>: evaluation, quality): the scenarios the agents are accepted on, the scan of
    their source files (as syntax nodes) and the gates computed from both.
  \<^item> \<open>Dataset\<close>, \<open>Benchmark\<close> (\<^verbatim>\<open>eval/recoverai_eval\<close>: data, batch_evaluation): synthetic cases from seeded draws in a
    state monad, their labels and the split by customer; the benchmark of the two strategies and the
    console's report of it.
  \<^item> \<open>Training\<close> (\<^verbatim>\<open>eval/recoverai_eval\<close>: train, evaluate, evaluation, models, features): fitting and judging a
    model, the directory of models with its production pointer, the rows of versions and the console's view of them.
  \<^item> this theory: the whole system as a step relation, and the properties that span components.

  \<^bold>\<open>How the model corresponds to the code.\<close> An object of the ORM is the key of its row: reading an
  attribute reads the row as it is at that point, assigning one updates the row. A service is a
  function from the session to a result or exception and the session afterwards; an exception
  keeps the writes made before it, and \<open>transaction\<close> undoes them where the code rolls back.
  Transactions are serialised: each runs as a whole. Only where the code itself expects a concurrent commit
  (inserting an event, a case or an idempotency key, and after a rollback) is there room for one other committed transaction, the
  parameter \<open>race\<close>; in the properties it keeps the database well-formed and, where recovered revenue is concerned,
  credits nothing. In the program a lock is taken only on the row of the case at hand: two transactions on different
  cases may overlap anywhere else, which is not modelled, and two overlapping verifications that match the
  same payment are not excluded by any constraint. Violated
  table constraints raise \<open>IntegrityError\<close> and write nothing; where the failed flush was outside a savepoint, what
  the same session does next raises \<open>PendingRollbackError\<close> (in \<open>mark_failure\<close>). Time is \<open>db_clock\<close> in microseconds,
  fresh keys come from a counter. Parameters stand for code outside the repository: \<open>Host\<close> (printing
  of JSON numbers, ISO dates, \<^verbatim>\<open>uuid5\<close>), the environment, the queue (whether and where it breaks,
  whether it will retry), Python's generator of pseudo-random numbers (\<open>RandomLib\<close>) and scikit-learn (\<open>Learner\<close>).

  \<^bold>\<open>Not modelled\<close>: correlation ids, prose and metadata of audit entries and exceptions; infinite and
  NaN decimals and amounts beyond the column width; version labels that are floats, lists or dictionaries; an
  environment that cannot be read by a request that evaluates, executes or runs the agents (its settings are read once, into the
  services, and the agents' context uses those); the wording of prompts; latencies; HTTP itself and the
  fields a response only displays; the console's health page and its demo runner; the web console,
  migrations, seed scripts and what scikit-learn computes.

  \<^bold>\<open>Termination.\<close> All definitions are total functions; the loops of the code are structural recursions
  over the lists they iterate, so no fuel is used.
\<close>

subsection \<open>The system\<close>

text \<open>
  The system as the API and the workers run it: a provider event is received; any request is
  served (process, verify, optimize, run the agents, evaluate, execute, decide, change the policy, simulate);
  a worker takes any queued job and runs it; the queue delivers a job again (a retry, or a second delivery); time
  passes. A step is a whole transaction. Receiving an event, serving a request and running an event job may meet one
  other committed transaction (\<open>safe_race\<close>: it keeps the database well-formed and credits nothing) at the
  insert points the code guards, and after a rollback.
\<close>

definition queued_job :: "IngestResult res \<Rightarrow> Job list" where
  "queued_job r = (case r of
     Inl _ \<Rightarrow> []
   | Inr res \<Rightarrow> if ir_queued res then [Job_process_provider_event (ir_webhook_event_id res)] else [])"

inductive step :: "Host \<Rightarrow> environ \<Rightarrow> world \<Rightarrow> world \<Rightarrow> bool" for h env where
  receive_event:
    "safe_race race \<Longrightarrow> transaction race (ingest race up event m) (w_db v) = (r, t) \<Longrightarrow>
     step h env v (v\<lparr>w_db := t, w_queue := w_queue v @ queued_job r\<rparr>)"
| serve_request:
    "interference_ok dp \<Longrightarrow> serve h dp request (w_db v) = (r, t) \<Longrightarrow>
     step h env v (v\<lparr>w_db := t, w_queue := w_queue v @ (case r of Inl _ \<Rightarrow> []
       | Inr (_, ids) \<Rightarrow> map Job_process_provider_event ids)\<rparr>)"
| run_event_job:
    "safe_race race \<Longrightarrow> w_queue v = xs @ Job_process_provider_event wid # ys \<Longrightarrow>
     process_provider_event h env race job breaks wid (v\<lparr>w_queue := xs @ ys\<rparr>) = (r, v') \<Longrightarrow>
     step h env v v'"
| run_case_job:
    "w_queue v = xs @ Job_process_recovery_case i # ys \<Longrightarrow>
     process_recovery_case_job env i (w_db v) = (r, t) \<Longrightarrow>
     step h env v (v\<lparr>w_db := t, w_queue := xs @ ys\<rparr>)"
| run_verify_job:
    "w_queue v = xs @ Job_verify_recovery_case i pid wid # ys \<Longrightarrow>
     verify_recovery_case_job env i pid wid (w_db v) = (r, t) \<Longrightarrow>
     step h env v (v\<lparr>w_db := t, w_queue := xs @ ys\<rparr>)"
| deliver_again: "step h env v (v\<lparr>w_queue := w_queue v @ [j]\<rparr>)"
| tick: "0 \<le> d \<Longrightarrow> step h env v (v\<lparr>w_db := (w_db v)\<lparr>db_clock := db_clock (w_db v) + d\<rparr>\<rparr>)"

lemma safe_ingest:
  assumes "safe_race race"
  shows "safe (ingest race up event m)"
  using assms unfolding safe_race_def
  by (intro safe_no_credit keeps_ok_ingest ingest_no_credit) blast+

lemma safe_runs: "safe m \<Longrightarrow> m (w_db v) = (r, t) \<Longrightarrow> w_db v' = t \<Longrightarrow> world_ok v v'"
  using obeysD [OF worlds_on_db, of m v r "v\<lparr>w_db := t\<rparr>"]
  by (auto simp: on_db_def world_ok_def)

lemma safe_event_job:
  assumes "safe_race race" "process_provider_event h env race job breaks wid v = (r, v')"
  shows "world_ok v v'"
proof -
  have "obeys world_ok (process_provider_event h env race job breaks wid)"
    unfolding process_provider_event_def apply_followups_now_def
    by (intro worlds.frame_rules worlds_on_db worlds_enqueue safe_transaction assms(1) safe_race_id
        safe_process_webhook_event safe_mark_dead_letter safe_rules safe_apply_followups)
  with assms(2) show ?thesis by (rule obeysD [rotated])
qed

lemma step_safe: "step h env v v' \<Longrightarrow> world_ok v v'"
proof (induction rule: step.induct)
  case (receive_event race up event m v r t)
  then show ?case by (intro safe_runs [OF safe_transaction [OF _ safe_ingest]]) simp_all
next
  case (serve_request dp request v r t)
  then show ?case by (intro safe_runs [OF safe_serve]) simp_all
next
  case (run_event_job race v xs wid ys job breaks r v')
  from safe_event_job [OF run_event_job(1,3)] show ?case by (simp add: world_ok_def)
next
  case (run_case_job v xs i ys r t)
  then show ?case
    by (intro safe_runs [where m = "process_recovery_case_job env i", OF _ run_case_job(2)])
       (simp_all add: process_recovery_case_job_def safe_domain_job safe_process_recovery_case)
next
  case (run_verify_job v xs i pid wid ys r t)
  then show ?case
    by (intro safe_runs [where m = "verify_recovery_case_job env i pid wid", OF _ run_verify_job(2)])
       (simp_all add: verify_recovery_case_job_def safe_domain_job safe_verify_recovery_case)
next
  case (deliver_again v j)
  show ?case by (simp add: world_ok_def lifecycle.frame_refl)
next
  case (tick d v)
  have "db_evolves case_lifecycle s (s\<lparr>db_clock := x\<rparr>)" for s x
    by (simp add: db_evolves_def get_case_unscoped_def case_lifecycle_refl)
  moreover have "sound (s\<lparr>db_clock := x\<rparr>) = sound s" for s x
    by (simp add: sound_def db_ok_def credit_ok_def get_case_unscoped_def)
  ultimately show ?case by (simp add: world_ok_def)
qed

lemma steps_safe: "(step h env)\<^sup>*\<^sup>* v v' \<Longrightarrow> world_ok v v'"
  by (induction rule: rtranclp_induct) (auto intro: worlds.frame_refl worlds.frame_trans step_safe)

text \<open>
  C7. \<^bold>\<open>The system keeps its invariant.\<close> From a sound database, however events are delivered, whatever is
  requested through the API, and however jobs are scheduled, retried and repeated, one whole transaction
  after the other, every reachable database is sound: amounts are in range and in whole cents, a payment has at most
  one open case, recovered revenue names its payment, no payment is counted by two cases of a merchant, and a
  recovered case recovered all that was at risk. Along the way every case keeps its identity and exposure and follows
  the lifecycle, and audit entries are never changed or removed. (Another transaction may come in only at the insert
  points the code guards and after a rollback, and must credit nothing; two verifications that overlap are not covered.)
\<close>

theorem system_safe:
  assumes "sound (w_db v)" and "(step h env)\<^sup>*\<^sup>* v v'"
  shows "db_ok (w_db v') \<and> credit_ok (w_db v') \<and> db_evolves case_lifecycle (w_db v) (w_db v')
    \<and> prefix (db_audit (w_db v)) (db_audit (w_db v'))"
  using steps_safe [OF assms(2)] assms(1) 
    db_evolves_audit [of case_lifecycle "w_db v" "w_db v'"] by (simp add: world_ok_def sound_def)

definition demo_world :: world where
  "demo_world = \<lparr>w_db = verifying_db, w_queue = [Job_verify_recovery_case 4 (Some 3) (Some 7)]\<rparr>"

lemma demo_world_sound: "sound (w_db demo_world)"
  by (simp add: demo_world_def sound_def verifying_db_ok)

theorem system_safe_witness:
  "\<exists>t. (step demo_host Map.empty)\<^sup>*\<^sup>* demo_world \<lparr>w_db = t, w_queue = []\<rparr> \<and> db_ok t \<and> credit_ok t"
proof -
  obtain r t where run: "verify_recovery_case_job Map.empty 4 (Some 3) (Some 7) (w_db demo_world) = (r, t)"
    by fastforce
  have "step demo_host Map.empty demo_world (demo_world\<lparr>w_db := t, w_queue := [] @ []\<rparr>)"
    by (rule run_verify_job [OF _ run]) (simp add: demo_world_def)
  then have reach: "(step demo_host Map.empty)\<^sup>*\<^sup>* demo_world \<lparr>w_db = t, w_queue = []\<rparr>"
    by (simp add: demo_world_def)
  with system_safe [OF demo_world_sound reach] show ?thesis by auto
qed

text \<open>
  C20. \<^bold>\<open>A recovered case is final.\<close> Once a case is recovered it stays recovered, at the same version,
  for the same amount, which is all that was at risk, whatever the system does afterwards. Likewise
  a stopped case is never reopened.
\<close>

theorem closed_case_final:
  assumes "sound (w_db v)" and "(step h env)\<^sup>*\<^sup>* v v'" and c: "get_case_unscoped (w_db v) i = Some c"
    and "is_terminal (rc_status c)"
  shows "\<exists>d. get_case_unscoped (w_db v') i = Some d \<and> rc_status d = rc_status c \<and> rc_version d = rc_version c
    \<and> (rc_status c = Case_RECOVERED \<longrightarrow> rc_amount_recovered d = rc_amount_recovered c
         \<and> rc_amount_recovered d = rc_amount_at_risk c)"
proof -
  have w: "sound (w_db v')" "db_evolves case_lifecycle (w_db v) (w_db v')"
    using steps_safe [OF assms(2)] assms(1) by (simp_all add: world_ok_def)
  obtain d where d: "get_case_unscoped (w_db v') i = Some d" "case_lifecycle c d"
    using db_evolvesD [OF w(2) c] by blast
  then have st: "rc_status d = rc_status c" "rc_version d = rc_version c"
    using case_lifecycle_terminal assms(4) by blast+
  have "rc_amount_recovered d = rc_amount_at_risk d" "rc_amount_recovered c = rc_amount_at_risk c"
    if "rc_status c = Case_RECOVERED"
    using assms(1) w(1) c d(1) st(1) that unfolding sound_def credit_ok_def by metis+
  moreover have "rc_amount_at_risk d = rc_amount_at_risk c" using d(2) by (simp add: case_lifecycle_def)
  ultimately show ?thesis using d(1) st by auto
qed

definition recovered_world :: world where
  "recovered_world = \<lparr>w_db = demo_db\<lparr>db_cases := [demo_case\<lparr>rc_status := Case_RECOVERED,
     rc_amount_recovered := 4000, rc_verified_payment_id := Some 3, rc_closed_at := Some 9\<rparr>]\<rparr>, w_queue = []\<rparr>"

theorem closed_case_final_witness:
  "\<exists>d. get_case_unscoped (w_db (recovered_world\<lparr>w_queue := [Job_verify_recovery_case 4 None None]\<rparr>)) 4 = Some d
     \<and> rc_status d = Case_RECOVERED \<and> rc_amount_recovered d = 4000"
proof -
  have s: "sound (w_db recovered_world)"
    by (simp add: sound_def recovered_world_def db_ok_def demo_defs case_ok_def payment_ok_def
      is_terminal_def TERMINAL_RECOVERY_STATUSES_def two_decimal_def credit_ok_def
      get_case_unscoped_def find_row_def)
  have reach: "(step demo_host Map.empty)\<^sup>*\<^sup>* recovered_world
      (recovered_world\<lparr>w_queue := [Job_verify_recovery_case 4 None None]\<rparr>)"
    using deliver_again [of demo_host Map.empty recovered_world "Job_verify_recovery_case 4 None None"]
    by (simp add: recovered_world_def)
  have c: "get_case_unscoped (w_db recovered_world) 4 = Some (demo_case\<lparr>rc_status := Case_RECOVERED,
     rc_amount_recovered := 4000, rc_verified_payment_id := Some 3, rc_closed_at := Some 9\<rparr>)"
    by (simp add: recovered_world_def get_case_unscoped_def find_row_def demo_case_def)
  show ?thesis
    using closed_case_final [OF s reach c] by (auto simp: is_terminal_def TERMINAL_RECOVERY_STATUSES_def)
qed

end
